(* ===== verification/Prelude.thy ===== *)
theory Prelude
  imports Main "HOL-Library.Multiset" "HOL-Library.List_Lexorder" "HOL-Library.Char_ord"
begin

text \<open>
  Prelude of the control-plane development: the Go and SQL vocabulary that every component
  shares.  It holds the types that stand for Go's \<^verbatim>\<open>time.Time\<close> and \<^verbatim>\<open>error\<close> values, the
  functions of Go's \<^verbatim>\<open>strings\<close> package the sources call (prefix, suffix, substring, split,
  fields, join, trim), the three SQL statements the stores are written with (\<open>INSERT\<close>,
  \<open>UPDATE ... WHERE\<close>, \<open>SELECT ... WHERE\<close>) on tables kept as lists of rows, and the generic
  lemmas about them.  The collections \<open>sql_simps\<close> and \<open>gostr_simps\<close> carry the component proofs.
\<close>

named_theorems sql_simps "rewriting with the SQL statements"
named_theorems gostr_simps "rewriting with the Go string functions"

section \<open>Time\<close>

text \<open>
  \<^verbatim>\<open>time.Time\<close> at the resolution the ledgers keep (Unix milliseconds).  The zero time of Go is
  the first instant of year 1, so \<^verbatim>\<open>t.IsZero()\<close> is equality with that instant.
\<close>

type_synonym gotime = int

definition zero_time :: gotime where
  "zero_time = - 62135596800000"

definition IsZero :: "gotime \<Rightarrow> bool" where
  "IsZero t \<longleftrightarrow> t = zero_time"

section \<open>Strings\<close>

fun has_prefix :: "string \<Rightarrow> string \<Rightarrow> bool" where
  "has_prefix [] s = True"
| "has_prefix (p # ps) [] = False"
| "has_prefix (p # ps) (c # cs) = (p = c \<and> has_prefix ps cs)"

definition has_suffix :: "string \<Rightarrow> string \<Rightarrow> bool" where
  "has_suffix p s = has_prefix (rev p) (rev s)"

definition trim_suffix :: "string \<Rightarrow> string \<Rightarrow> string" where
  "trim_suffix p s = (if has_suffix p s then take (length s - length p) s else s)"

definition trim_prefix :: "string \<Rightarrow> string \<Rightarrow> string" where
  "trim_prefix p s = (if has_prefix p s then drop (length p) s else s)"

text \<open>\<^verbatim>\<open>strings.Contains\<close>: the needle starts at some position of the haystack.\<close>

fun contains_sub :: "string \<Rightarrow> string \<Rightarrow> bool" where
  "contains_sub p [] = (p = [])"
| "contains_sub p (c # cs) = (has_prefix p (c # cs) \<or> contains_sub p cs)"

text \<open>\<^verbatim>\<open>strings.Split\<close> on a one-byte separator: always at least one field.\<close>

fun go_split :: "char \<Rightarrow> string \<Rightarrow> string list" where
  "go_split d [] = [[]]"
| "go_split d (c # cs) =
     (if c = d then [] # go_split d cs
      else (case go_split d cs of [] \<Rightarrow> [[c]] | w # ws \<Rightarrow> (c # w) # ws))"

fun go_join :: "string \<Rightarrow> string list \<Rightarrow> string" where
  "go_join d [] = []"
| "go_join d [w] = w"
| "go_join d (w # v # ws) = w @ d @ go_join d (v # ws)"

text \<open>The ASCII white space of \<^verbatim>\<open>strings.Fields\<close> and \<^verbatim>\<open>strings.TrimSpace\<close>.\<close>

definition is_space :: "char \<Rightarrow> bool" where
  "is_space c \<longleftrightarrow> c \<in> {CHR '' '', CHR 0x09, CHR 0x0A, CHR 0x0B, CHR 0x0C, CHR 0x0D}"

fun fields_acc :: "string \<Rightarrow> string \<Rightarrow> string list" where
  "fields_acc acc [] = (if acc = [] then [] else [rev acc])"
| "fields_acc acc (c # cs) =
     (if is_space c then (if acc = [] then fields_acc [] cs else rev acc # fields_acc [] cs)
      else fields_acc (c # acc) cs)"

definition go_fields :: "string \<Rightarrow> string list" where
  "go_fields s = fields_acc [] s"

definition trim_space :: "string \<Rightarrow> string" where
  "trim_space s = rev (dropWhile is_space (rev (dropWhile is_space s)))"

lemma has_prefix_iff [gostr_simps]: "has_prefix p s \<longleftrightarrow> (\<exists>r. s = p @ r)"
  by (induction p s rule: has_prefix.induct) auto

lemma has_prefix_append [simp]: "has_prefix p (p @ r)"
  by (simp add: has_prefix_iff)

lemma go_split_nonempty [simp]: "go_split d s \<noteq> []"
  by (induction s) (auto split: list.splits)

lemma go_split_no_sep: "d \<notin> set w \<Longrightarrow> go_split d w = [w]"
  by (induction w) auto

lemma go_split_append: "d \<notin> set w \<Longrightarrow> go_split d (w @ d # s) = w # go_split d s"
  by (induction w) auto

lemma fields_acc_word:
  "\<forall>c \<in> set w. \<not> is_space c \<Longrightarrow> fields_acc acc (w @ s) = fields_acc (rev w @ acc) s"
  by (induction w arbitrary: acc) auto

lemma fields_word_space:
  "w \<noteq> [] \<Longrightarrow> \<forall>c \<in> set w. \<not> is_space c \<Longrightarrow> go_fields (w @ CHR '' '' # s) = w # go_fields s"
  by (simp add: go_fields_def fields_acc_word is_space_def)

lemma fields_word:
  "w \<noteq> [] \<Longrightarrow> \<forall>c \<in> set w. \<not> is_space c \<Longrightarrow> go_fields w = [w]"
  using fields_acc_word [of w "[]" "[]"] by (simp add: go_fields_def)

section \<open>SQL tables\<close>

text \<open>
  A table is the list of its rows in the order they were inserted.  \<open>sql_update P f\<close> is
  \<^verbatim>\<open>UPDATE t SET f WHERE P\<close>, \<open>sql_select P\<close> is \<^verbatim>\<open>SELECT * FROM t WHERE P\<close>, and
  \<open>sql_first P\<close> is the one row a lookup by a unique key returns.
\<close>

definition sql_update :: "('r \<Rightarrow> bool) \<Rightarrow> ('r \<Rightarrow> 'r) \<Rightarrow> 'r list \<Rightarrow> 'r list" where
  "sql_update P f rows = map (\<lambda>r. if P r then f r else r) rows"

definition sql_select :: "('r \<Rightarrow> bool) \<Rightarrow> 'r list \<Rightarrow> 'r list" where
  "sql_select P rows = filter P rows"

fun sql_first :: "('r \<Rightarrow> bool) \<Rightarrow> 'r list \<Rightarrow> 'r option" where
  "sql_first P [] = None"
| "sql_first P (r # rs) = (if P r then Some r else sql_first P rs)"

text \<open>\<^verbatim>\<open>ORDER BY\<close> a key, ascending, ties in insertion order (SQLite's rowid order).\<close>

definition sql_order :: "('r \<Rightarrow> 'k::linorder) \<Rightarrow> 'r list \<Rightarrow> 'r list" where
  "sql_order k rows = sort_key k rows"

lemma sql_update_Nil [simp, sql_simps]: "sql_update P f [] = []"
  by (simp add: sql_update_def)

lemma sql_update_Cons [simp, sql_simps]:
  "sql_update P f (r # rs) = (if P r then f r else r) # sql_update P f rs"
  by (simp add: sql_update_def)

lemma sql_update_append [simp, sql_simps]:
  "sql_update P f (rs @ qs) = sql_update P f rs @ sql_update P f qs"
  by (simp add: sql_update_def)

lemma length_sql_update [simp, sql_simps]: "length (sql_update P f rs) = length rs"
  by (simp add: sql_update_def)

lemma set_sql_update: "set (sql_update P f rs) = (\<lambda>r. if P r then f r else r) ` set rs"
  by (simp add: sql_update_def)

lemma in_sql_update:
  "r \<in> set (sql_update P f rs) \<longleftrightarrow>
     (\<exists>q \<in> set rs. r = (if P q then f q else q))"
  by (auto simp: set_sql_update)

text \<open>A column the update does not write is unchanged, row by row.\<close>

lemma map_sql_update [sql_simps]:
  "(\<And>r. P r \<Longrightarrow> k (f r) = k r) \<Longrightarrow> map k (sql_update P f rs) = map k rs"
  by (induction rs) auto

lemma sql_update_disjoint:
  "(\<And>r. r \<in> set rs \<Longrightarrow> \<not> P r) \<Longrightarrow> sql_update P f rs = rs"
  by (induction rs) auto

lemma sql_first_Some: "sql_first P rs = Some r \<Longrightarrow> r \<in> set rs \<and> P r"
  by (induction rs) (auto split: if_splits)

lemma sql_first_None: "sql_first P rs = None \<longleftrightarrow> (\<forall>r \<in> set rs. \<not> P r)"
  by (induction rs) auto

lemma sql_first_append [sql_simps]:
  "sql_first P (rs @ qs) = (case sql_first P rs of None \<Rightarrow> sql_first P qs | Some r \<Rightarrow> Some r)"
  by (induction rs) auto

lemma sql_first_unique:
  assumes "distinct (map k rs)" and "r \<in> set rs"
  shows "sql_first (\<lambda>q. k q = k r) rs = Some r"
  using assms by (induction rs) (auto simp: rev_image_eqI)

text \<open>An update that keeps the key commutes with the lookup by that key.\<close>

lemma sql_first_update:
  assumes "\<And>r. Q (if P r then f r else r) = Q r"
  shows "sql_first Q (sql_update P f rs) =
    map_option (\<lambda>r. if P r then f r else r) (sql_first Q rs)"
  by (induction rs) (auto simp: assms split: if_splits)

lemma sql_select_set [simp, sql_simps]: "set (sql_select P rs) = {r \<in> set rs. P r}"
  by (auto simp: sql_select_def)

lemma sql_order_set [simp, sql_simps]: "set (sql_order k rs) = set rs"
  by (simp add: sql_order_def)

lemma sql_order_mset [simp, sql_simps]: "mset (sql_order k rs) = mset rs"
  by (simp add: sql_order_def)

lemma length_filter_le_one:
  assumes "distinct (map k rs)" and "\<And>r. r \<in> set rs \<Longrightarrow> P r \<Longrightarrow> k r = v"
  shows "length (filter P rs) \<le> 1"
proof -
  have "set (map k (filter P rs)) \<subseteq> {v}"
    using assms(2) by auto
  moreover have "distinct (map k (filter P rs))"
    using assms(1) by (simp add: distinct_map_filter)
  ultimately show ?thesis
    by (metis card_mono distinct_card finite.emptyI finite_insert is_singletonI is_singleton_altdef length_map)
qed

section \<open>Search in association lists\<close>

lemma map_of_filter_neq: "map_of (filter (\<lambda>p. fst p \<noteq> k) xs) = (map_of xs)(k := None)"
  by (induction xs) (auto simp: fun_eq_iff)

end
