(* ===== verification/Job_Store.thy ===== *)
theory Job_Store
  imports Prelude
begin

text \<open>
  The durable job ledger (\<^verbatim>\<open>api/internal/jobs/types.go\<close>, \<^verbatim>\<open>schema.go\<close>, \<^verbatim>\<open>store.go\<close>): jobs, their
  steps and their events in SQLite.  A table is the list of its rows; a row is kept as the Go
  value its scan returns, so a NULL column is \<^term>\<open>None\<close>.  Every statement can fail: the ledger
  carries the list of outcomes of the coming statements (\<open>db_faults\<close>, \<^term>\<open>True\<close> = the statement
  fails and changes nothing), so a theorem that does not restrict it holds under any pattern of
  database failures.  The lemmas show that every statement keeps the primary keys unique and
  touches the rows of its own job only.
\<close>

section \<open>Rows\<close>

datatype Status = StatusQueued | StatusRunning | StatusSucceeded | StatusFailed | StatusCancelled

datatype StepStatus = StepPending | StepRunning | StepSucceeded | StepFailed | StepCompensated

datatype db_error = ErrIO | ErrConstraint

text \<open>
  An error as the ledger records it.  The Go code stores \<^verbatim>\<open>err.Error()\<close>; the model keeps the
  values that text is formatted from.
\<close>

datatype err =
    ErrText string
  | ErrReplayUnreadable string nat string db_error
  | ErrReplayRecorded string nat string nat string StepStatus nat

record job =
  j_id :: string
  j_kind :: string
  j_spec :: string
  j_status :: Status
  j_created_by :: string
  j_created_at :: gotime
  j_started_at :: "gotime option"
  j_finished_at :: "gotime option"
  j_parent :: "string option"
  j_error :: "err option"

record job_step =
  s_job :: string
  s_seq :: nat
  s_name :: string
  s_status :: StepStatus
  s_started_at :: "gotime option"
  s_finished_at :: "gotime option"
  s_attempt :: nat
  s_result :: "string option"
  s_error :: "err option"

datatype event_type =
    JobCreated | JobStarted | JobStepStarted | JobStepSucceeded | JobStepFailed
  | JobStepRetrying | JobSucceeded | JobFailed | JobLog

datatype event_data =
    NoData
  | JobData job
  | StepData nat string nat "string option" "err option"
  | LogData string string
  | ErrorData err
  | RecoveredData err

record job_event =
  e_id :: nat
  e_job :: string
  e_ts :: gotime
  e_type :: event_type
  e_data :: event_data

record ledger =
  jobs :: "job list"
  job_steps :: "job_step list"
  job_events :: "job_event list"
  db_faults :: "bool list"

section \<open>Statements\<close>

text \<open>Whether the next statement fails, and the ledger with that outcome consumed.\<close>

definition next_fault :: "ledger \<Rightarrow> bool \<times> ledger" where
  "next_fault l = (case db_faults l of
     [] \<Rightarrow> (False, l) | b # bs \<Rightarrow> (b, l\<lparr>db_faults := bs\<rparr>))"

definition db_exec :: "(ledger \<Rightarrow> db_error + ledger) \<Rightarrow> ledger \<Rightarrow> db_error option \<times> ledger" where
  "db_exec f l = (let (bad, l') = next_fault l in
     if bad then (Some ErrIO, l')
     else case f l' of Inl e \<Rightarrow> (Some e, l') | Inr l'' \<Rightarrow> (None, l''))"

definition db_query :: "(ledger \<Rightarrow> 'a) \<Rightarrow> ledger \<Rightarrow> (db_error + 'a) \<times> ledger" where
  "db_query f l = (let (bad, l') = next_fault l in
     if bad then (Inl ErrIO, l') else (Inr (f l'), l'))"

definition terminal :: "Status \<Rightarrow> bool" where
  "terminal st \<longleftrightarrow> st = StatusSucceeded \<or> st = StatusFailed \<or> st = StatusCancelled"

subsection \<open>Jobs\<close>

definition CreateJob :: "job \<Rightarrow> ledger \<Rightarrow> db_error option \<times> ledger" where
  "CreateJob j = db_exec (\<lambda>l.
     if j_id j \<in> j_id ` set (jobs l) then Inl ErrConstraint
     else Inr (l\<lparr>jobs := jobs l @ [j\<lparr>j_parent := (if j_parent j = Some [] then None else j_parent j),
       j_started_at := None, j_finished_at := None, j_error := None\<rparr>]\<rparr>))"

text \<open>The result is \<^term>\<open>Inr\<close> of whether the row was inserted.\<close>

datatype record_error = NotTerminal Status | RecordDb db_error

definition RecordFinishedJob :: "job \<Rightarrow> ledger \<Rightarrow> (record_error + bool) \<times> ledger" where
  "RecordFinishedJob j l =
     (if \<not> terminal (j_status j) then (Inl (NotTerminal (j_status j)), l)
      else let fresh = (j_id j \<notin> j_id ` set (jobs (snd (next_fault l))));
               r = db_exec (\<lambda>l. Inr (if j_id j \<in> j_id ` set (jobs l) then l
                     else l\<lparr>jobs := jobs l @ [j\<lparr>j_parent := None\<rparr>]\<rparr>)) l
           in (case fst r of Some e \<Rightarrow> Inl (RecordDb e) | None \<Rightarrow> Inr fresh, snd r))"

definition ListChildJobs :: "string \<Rightarrow> ledger \<Rightarrow> (db_error + job list) \<times> ledger" where
  "ListChildJobs p = db_query (\<lambda>l.
     sql_order j_created_at (sql_select (\<lambda>j. j_parent j = Some p) (jobs l)))"

definition MarkJobStarted :: "string \<Rightarrow> gotime \<Rightarrow> ledger \<Rightarrow> db_error option \<times> ledger" where
  "MarkJobStarted i ts = db_exec (\<lambda>l. Inr (l\<lparr>jobs := sql_update (\<lambda>j. j_id j = i)
     (\<lambda>j. j\<lparr>j_status := StatusRunning, j_started_at := Some ts\<rparr>) (jobs l)\<rparr>))"

definition MarkJobSucceeded :: "string \<Rightarrow> gotime \<Rightarrow> ledger \<Rightarrow> db_error option \<times> ledger" where
  "MarkJobSucceeded i ts = db_exec (\<lambda>l. Inr (l\<lparr>jobs := sql_update (\<lambda>j. j_id j = i)
     (\<lambda>j. j\<lparr>j_status := StatusSucceeded, j_finished_at := Some ts\<rparr>) (jobs l)\<rparr>))"

definition MarkJobFailed :: "string \<Rightarrow> err \<Rightarrow> gotime \<Rightarrow> ledger \<Rightarrow> db_error option \<times> ledger" where
  "MarkJobFailed i e ts = db_exec (\<lambda>l. Inr (l\<lparr>jobs := sql_update (\<lambda>j. j_id j = i)
     (\<lambda>j. j\<lparr>j_status := StatusFailed, j_finished_at := Some ts, j_error := Some e\<rparr>) (jobs l)\<rparr>))"

definition GetJob :: "string \<Rightarrow> ledger \<Rightarrow> (db_error + job option) \<times> ledger" where
  "GetJob i = db_query (\<lambda>l. sql_first (\<lambda>j. j_id j = i) (jobs l))"

definition ListJobsByStatus :: "Status list \<Rightarrow> ledger \<Rightarrow> (db_error + job list) \<times> ledger" where
  "ListJobsByStatus sts l =
     (if sts = [] then (Inr [], l)
      else db_query (\<lambda>l. sql_order j_created_at
             (sql_select (\<lambda>j. j_status j \<in> set sts) (jobs l))) l)"

text \<open>A limit out of \<open>1..500\<close> is read as 100 (\<^verbatim>\<open>ListJobs\<close>, \<^verbatim>\<open>ListJobsByKind\<close>).\<close>

definition page_limit :: "int \<Rightarrow> nat" where
  "page_limit n = (if n \<le> 0 \<or> 500 < n then 100 else nat n)"

definition newest_first :: "job list \<Rightarrow> job list" where
  "newest_first js = rev (sql_order j_created_at js)"

definition ListJobsByKind :: "string \<Rightarrow> int \<Rightarrow> ledger \<Rightarrow> (db_error + job list) \<times> ledger" where
  "ListJobsByKind k n = db_query (\<lambda>l.
     take (page_limit n) (newest_first (sql_select (\<lambda>j. j_kind j = k) (jobs l))))"

definition ListAllJobsByKind :: "string \<Rightarrow> ledger \<Rightarrow> (db_error + job list) \<times> ledger" where
  "ListAllJobsByKind k = db_query (\<lambda>l. newest_first (sql_select (\<lambda>j. j_kind j = k) (jobs l)))"

definition ListJobs :: "int \<Rightarrow> ledger \<Rightarrow> (db_error + job list) \<times> ledger" where
  "ListJobs n = db_query (\<lambda>l. take (page_limit n) (newest_first (jobs l)))"

subsection \<open>Steps\<close>

definition CreateStep :: "job_step \<Rightarrow> ledger \<Rightarrow> db_error option \<times> ledger" where
  "CreateStep st = db_exec (\<lambda>l.
     if (s_job st, s_seq st) \<in> (\<lambda>q. (s_job q, s_seq q)) ` set (job_steps l) then Inl ErrConstraint
     else Inr (l\<lparr>job_steps := job_steps l @
       [st\<lparr>s_finished_at := None, s_result := None, s_error := None\<rparr>]\<rparr>))"

text \<open>The result column is written as \<^verbatim>\<open>string(result)\<close>: a nil result is stored as the empty string.\<close>

definition MarkStepSucceeded ::
  "string \<Rightarrow> nat \<Rightarrow> nat \<Rightarrow> string option \<Rightarrow> gotime \<Rightarrow> ledger \<Rightarrow> db_error option \<times> ledger" where
  "MarkStepSucceeded i sq att res ts = db_exec (\<lambda>l. Inr (l\<lparr>job_steps :=
     sql_update (\<lambda>q. s_job q = i \<and> s_seq q = sq)
       (\<lambda>q. q\<lparr>s_status := StepSucceeded, s_finished_at := Some ts, s_attempt := att,
             s_result := Some (case res of None \<Rightarrow> [] | Some r \<Rightarrow> r)\<rparr>) (job_steps l)\<rparr>))"

definition MarkStepFailed ::
  "string \<Rightarrow> nat \<Rightarrow> err \<Rightarrow> gotime \<Rightarrow> ledger \<Rightarrow> db_error option \<times> ledger" where
  "MarkStepFailed i sq e ts = db_exec (\<lambda>l. Inr (l\<lparr>job_steps :=
     sql_update (\<lambda>q. s_job q = i \<and> s_seq q = sq)
       (\<lambda>q. q\<lparr>s_status := StepFailed, s_finished_at := Some ts, s_error := Some e\<rparr>) (job_steps l)\<rparr>))"

definition ListSteps :: "string \<Rightarrow> ledger \<Rightarrow> (db_error + job_step list) \<times> ledger" where
  "ListSteps i = db_query (\<lambda>l. sql_order s_seq (sql_select (\<lambda>q. s_job q = i) (job_steps l)))"

subsection \<open>Events\<close>

definition AppendEvent ::
  "string \<Rightarrow> event_type \<Rightarrow> event_data \<Rightarrow> gotime \<Rightarrow> ledger \<Rightarrow> db_error option \<times> ledger" where
  "AppendEvent i t d ts = db_exec (\<lambda>l. Inr (l\<lparr>job_events := job_events l @
     [\<lparr>e_id = Suc (length (job_events l)), e_job = i, e_ts = ts, e_type = t, e_data = d\<rparr>]\<rparr>))"

definition ListEvents :: "string \<Rightarrow> ledger \<Rightarrow> (db_error + job_event list) \<times> ledger" where
  "ListEvents i = db_query (\<lambda>l. sql_order e_id (sql_select (\<lambda>e. e_job e = i) (job_events l)))"

section \<open>Invariant and frame\<close>

text \<open>The primary keys of the schema, and the event ids of the AUTOINCREMENT column.\<close>

definition ledger_inv :: "ledger \<Rightarrow> bool" where
  "ledger_inv l \<longleftrightarrow> distinct (map j_id (jobs l))
     \<and> distinct (map (\<lambda>q. (s_job q, s_seq q)) (job_steps l))
     \<and> map e_id (job_events l) = [1..<Suc (length (job_events l))]"

text \<open>
  \<open>scoped i l l'\<close>: going from \<open>l\<close> to \<open>l'\<close> keeps the keys, keeps every job and step row that is
  not of job \<open>i\<close>, adds no job, removes and renames no step row, and only appends events of job \<open>i\<close>.
\<close>

definition step_key :: "job_step \<Rightarrow> string \<times> nat \<times> string" where
  "step_key q = (s_job q, s_seq q, s_name q)"

definition others_same :: "string \<Rightarrow> ledger \<Rightarrow> ledger \<Rightarrow> bool" where
  "others_same i l l' \<longleftrightarrow>
     map j_id (jobs l') = map j_id (jobs l)
     \<and> filter (\<lambda>j. j_id j \<noteq> i) (jobs l') = filter (\<lambda>j. j_id j \<noteq> i) (jobs l)
     \<and> filter (\<lambda>q. s_job q \<noteq> i) (job_steps l') = filter (\<lambda>q. s_job q \<noteq> i) (job_steps l)
     \<and> (\<exists>ks. map step_key (job_steps l') = map step_key (job_steps l) @ ks)
     \<and> (\<exists>es. job_events l' = job_events l @ es \<and> (\<forall>e \<in> set es. e_job e = i))"

definition scoped :: "string \<Rightarrow> ledger \<Rightarrow> ledger \<Rightarrow> bool" where
  "scoped i l l' \<longleftrightarrow> (ledger_inv l \<longrightarrow> ledger_inv l') \<and> others_same i l l'"

named_theorems scoped_intros "ledger operations that stay within one job"

lemma next_fault_snd [simp]:
  "jobs (snd (next_fault l)) = jobs l" "job_steps (snd (next_fault l)) = job_steps l"
  "job_events (snd (next_fault l)) = job_events l"
  "db_faults (snd (next_fault l)) = tl (db_faults l)"
  by (simp_all add: next_fault_def split: list.splits)

lemma fst_next_fault: "fst (next_fault l) \<longleftrightarrow> (\<exists>bs. db_faults l = True # bs)"
  by (simp add: next_fault_def split: list.splits)

lemma next_fault_healthy [simp]: "db_faults l = [] \<Longrightarrow> next_fault l = (False, l)"
  by (simp add: next_fault_def)

text \<open>With no fault pending a statement is its effect.\<close>

lemma db_exec_healthy [simp]:
  "db_faults l = [] \<Longrightarrow>
     db_exec f l = (case f l of Inl e \<Rightarrow> (Some e, l) | Inr l' \<Rightarrow> (None, l'))"
  by (simp add: db_exec_def)

lemma db_query_healthy [simp]: "db_faults l = [] \<Longrightarrow> db_query f l = (Inr (f l), l)"
  by (simp add: db_query_def)

lemma scoped_refl [scoped_intros]: "scoped i l l"
  by (simp add: scoped_def others_same_def)

lemma scoped_trans [trans]: "scoped i l l' \<Longrightarrow> scoped i l' l'' \<Longrightarrow> scoped i l l''"
  by (auto simp: scoped_def others_same_def)

lemma scoped_next_fault [scoped_intros]: "scoped i l (snd (next_fault l))"
  by (simp add: scoped_def others_same_def ledger_inv_def)

lemma scoped_query [scoped_intros]: "scoped i l (snd (db_query f l))"
  using scoped_next_fault [of i l] by (cases "next_fault l") (simp add: db_query_def)

lemma scoped_exec:
  assumes "\<And>k k'. f k = Inr k' \<Longrightarrow> scoped i k k'"
  shows "scoped i l (snd (db_exec f l))"
proof -
  let ?m = "snd (next_fault l)"
  have "scoped i ?m (snd (case f ?m of Inl e \<Rightarrow> (Some e, ?m) | Inr l' \<Rightarrow> (None, l')))"
    using assms by (auto simp: scoped_refl split: sum.splits)
  then show ?thesis
    using scoped_next_fault [of i l]
    by (auto simp: db_exec_def split: prod.splits sum.splits intro: scoped_trans)
qed

lemma filter_sql_update_other:
  "(\<And>r. P r \<Longrightarrow> \<not> Q r) \<Longrightarrow> (\<And>r. P r \<Longrightarrow> \<not> Q (f r)) \<Longrightarrow>
     filter Q (sql_update P f rs) = filter Q rs"
  by (induction rs) auto

lemma scoped_update_jobs:
  assumes "\<And>j. j_id (f j) = j_id j"
  shows "scoped i l (l\<lparr>jobs := sql_update (\<lambda>j. j_id j = i) f (jobs l)\<rparr>)"
  by (simp add: scoped_def others_same_def ledger_inv_def assms map_sql_update filter_sql_update_other)

lemma scoped_update_steps:
  assumes "\<And>q. s_job (f q) = s_job q" and "\<And>q. s_seq (f q) = s_seq q" and "\<And>q. s_name (f q) = s_name q"
  shows "scoped i l (l\<lparr>job_steps := sql_update (\<lambda>q. s_job q = i \<and> s_seq q = sq) f (job_steps l)\<rparr>)"
  by (simp add: scoped_def others_same_def ledger_inv_def assms map_sql_update step_key_def)
    (rule filter_sql_update_other, simp_all add: assms)

lemma scoped_MarkJobStarted [scoped_intros]: "scoped i l (snd (MarkJobStarted i ts l))"
  unfolding MarkJobStarted_def by (rule scoped_exec) (auto intro: scoped_update_jobs)

lemma scoped_MarkJobSucceeded [scoped_intros]: "scoped i l (snd (MarkJobSucceeded i ts l))"
  unfolding MarkJobSucceeded_def by (rule scoped_exec) (auto intro: scoped_update_jobs)

lemma scoped_MarkJobFailed [scoped_intros]: "scoped i l (snd (MarkJobFailed i e ts l))"
  unfolding MarkJobFailed_def by (rule scoped_exec) (auto intro: scoped_update_jobs)

lemma scoped_MarkStepSucceeded [scoped_intros]:
  "scoped i l (snd (MarkStepSucceeded i sq att res ts l))"
  unfolding MarkStepSucceeded_def by (rule scoped_exec) (auto intro: scoped_update_steps)

lemma scoped_MarkStepFailed [scoped_intros]: "scoped i l (snd (MarkStepFailed i sq e ts l))"
  unfolding MarkStepFailed_def by (rule scoped_exec) (auto intro: scoped_update_steps)

lemma scoped_CreateStep [scoped_intros]: "s_job st = i \<Longrightarrow> scoped i l (snd (CreateStep st l))"
  unfolding CreateStep_def
  by (rule scoped_exec) (auto simp: scoped_def others_same_def ledger_inv_def split: if_splits)

lemma scoped_AppendEvent [scoped_intros]: "scoped i l (snd (AppendEvent i t d ts l))"
  unfolding AppendEvent_def
  by (rule scoped_exec) (auto simp: scoped_def others_same_def ledger_inv_def)

lemma scoped_ListSteps [scoped_intros]: "scoped i l (snd (ListSteps k l))"
  unfolding ListSteps_def by (rule scoped_query)

lemma scoped_GetJob [scoped_intros]: "scoped i l (snd (GetJob k l))"
  unfolding GetJob_def by (rule scoped_query)

text \<open>What \<open>scoped\<close> gives a reader of another job.\<close>

lemma sql_first_filter: "(\<And>r. Q r \<Longrightarrow> P r) \<Longrightarrow> sql_first Q (filter P rs) = sql_first Q rs"
  by (induction rs) auto

lemma scoped_other_job:
  assumes "scoped i l l'" and "k \<noteq> i"
  shows "sql_first (\<lambda>j. j_id j = k) (jobs l') = sql_first (\<lambda>j. j_id j = k) (jobs l)"
proof -
  have f: "sql_first (\<lambda>j. j_id j = k) (filter (\<lambda>j. j_id j \<noteq> i) rs)
      = sql_first (\<lambda>j. j_id j = k) rs" for rs :: "job list"
    using assms(2) by (intro sql_first_filter) auto
  have "filter (\<lambda>j. j_id j \<noteq> i) (jobs l') = filter (\<lambda>j. j_id j \<noteq> i) (jobs l)"
    using assms(1) by (simp add: scoped_def others_same_def)
  then show ?thesis
    using f [of "jobs l"] f [of "jobs l'"] by simp
qed

lemma scoped_other_steps:
  assumes "scoped i l l'" and "k \<noteq> i"
  shows "filter (\<lambda>q. s_job q = k) (job_steps l') = filter (\<lambda>q. s_job q = k) (job_steps l)"
proof -
  have f: "filter (\<lambda>q. s_job q = k) (filter (\<lambda>q. s_job q \<noteq> i) rs) = filter (\<lambda>q. s_job q = k) rs"
    for rs :: "job_step list"
    using assms(2) by (auto intro: filter_cong)
  have "filter (\<lambda>q. s_job q \<noteq> i) (job_steps l') = filter (\<lambda>q. s_job q \<noteq> i) (job_steps l)"
    using assms(1) by (simp add: scoped_def others_same_def)
  then show ?thesis
    using f [of "job_steps l"] f [of "job_steps l'"] by simp
qed

lemma ledger_inv_next_fault [simp]: "ledger_inv (snd (next_fault l)) = ledger_inv l"
  by (simp add: ledger_inv_def)

lemma ledger_inv_exec:
  assumes "ledger_inv l" and "\<And>k k'. ledger_inv k \<Longrightarrow> f k = Inr k' \<Longrightarrow> ledger_inv k'"
  shows "ledger_inv (snd (db_exec f l))"
  using assms ledger_inv_next_fault [of l]
  by (cases "next_fault l") (auto simp: db_exec_def split: sum.splits)

lemma ledger_inv_CreateJob: "ledger_inv l \<Longrightarrow> ledger_inv (snd (CreateJob j l))"
  unfolding CreateJob_def
  by (rule ledger_inv_exec) (auto simp: ledger_inv_def split: if_splits)

lemma ledger_inv_RecordFinishedJob:
  assumes "ledger_inv l"
  shows "ledger_inv (snd (RecordFinishedJob j l))"
proof -
  have "ledger_inv (snd (db_exec (\<lambda>l. Inr (if j_id j \<in> j_id ` set (jobs l) then l
          else l\<lparr>jobs := jobs l @ [j\<lparr>j_parent := None\<rparr>]\<rparr>)) l))"
    using assms by (rule ledger_inv_exec) (auto simp: ledger_inv_def split: if_splits)
  with assms show ?thesis
    by (simp add: RecordFinishedJob_def Let_def)
qed

end
