(* ===== verification/Job_Runner.thy ===== *)
theory Job_Runner
  imports Job_Store
begin

text \<open>
  The saga executor (\<^verbatim>\<open>api/internal/jobs/saga.go\<close>): submission, the step loop with retries, the
  refusal of a replayed irreversible step, recovery after a restart and the completion of deferred
  jobs.  A step's \<^verbatim>\<open>Do\<close> is an arbitrary function on an arbitrary world \<open>'w\<close>; it also reports the
  log lines it wrote through \<^verbatim>\<open>sc.Log\<close>.  The wall clock and the ULID source are arbitrary
  sequences read in order.  \<open>rs_calls\<close> is a history variable: the \<^verbatim>\<open>Do\<close> invocations made so far.
  The runner's contexts are \<^verbatim>\<open>context.Background()\<close>, so the back-off wait always runs its full
  length and the loop is modelled without it; a step's timeout only bounds its own \<^verbatim>\<open>Do\<close>.
  The lemmas relate the ledger-driven runner to an abstract saga without a ledger, bound the
  invocations of a step, and describe the ledger a run leaves behind.
\<close>

section \<open>Workflows\<close>

datatype do_result = DoOk "string option" | DoStop "string option" | DoErr string

record step_ctx =
  c_job :: string
  c_spec :: string
  c_prior :: "string \<rightharpoonup> string"
  c_created_by :: string

record 'w wstep =
  w_name :: string
  w_do :: "step_ctx \<Rightarrow> 'w \<Rightarrow> do_result \<times> (string \<times> string) list \<times> 'w"
  w_timeout :: int
  w_retries :: int
  w_irreversible :: bool

record 'w workflow =
  wf_kind :: string
  wf_steps :: "'w wstep list"
  wf_on_terminal :: "(string \<Rightarrow> bool \<Rightarrow> err option \<Rightarrow> 'w \<Rightarrow> 'w) option"

text \<open>The first offending step: its index, name and declared retries.\<close>

fun validate_steps :: "nat \<Rightarrow> 'w wstep list \<Rightarrow> (nat \<times> string \<times> int) option" where
  "validate_steps i [] = None"
| "validate_steps i (st # sts) =
     (if w_irreversible st \<and> 0 < w_retries st then Some (i, w_name st, w_retries st)
      else validate_steps (Suc i) sts)"

definition ValidateWorkflow :: "'w workflow \<Rightarrow> (nat \<times> string \<times> int) option" where
  "ValidateWorkflow w = validate_steps 0 (wf_steps w)"

datatype RecoverDecision = RecoverFail | RecoverDefer

record 'w runner =
  rs_ledger :: ledger
  rs_bus :: "job_event list"
  rs_clock :: "nat \<Rightarrow> gotime"
  rs_reads :: nat
  rs_ids :: "nat \<Rightarrow> string"
  rs_minted :: nat
  rs_workflows :: "(string \<times> 'w workflow) list"
  rs_spawned :: "(job \<times> 'w workflow) list"
  rs_world :: 'w
  rs_calls :: "(string \<times> nat \<times> nat) list"
  rs_hooks :: "(string \<times> bool \<times> err option) list"

text \<open>\<^verbatim>\<open>Register\<close> panics on an invalid workflow; \<^term>\<open>None\<close> is that panic.\<close>

definition Register :: "'w workflow \<Rightarrow> 'w runner \<Rightarrow> 'w runner option" where
  "Register w s = (case ValidateWorkflow w of
     Some _ \<Rightarrow> None
   | None \<Rightarrow> Some (s\<lparr>rs_workflows := (wf_kind w, w) # filter (\<lambda>p. fst p \<noteq> wf_kind w) (rs_workflows s)\<rparr>))"

definition workflowFor :: "'w runner \<Rightarrow> string \<Rightarrow> 'w workflow option" where
  "workflowFor s k = map_of (rs_workflows s) k"

section \<open>Effects\<close>

definition now :: "'w runner \<Rightarrow> gotime \<times> 'w runner" where
  "now s = (rs_clock s (rs_reads s), s\<lparr>rs_reads := Suc (rs_reads s)\<rparr>)"

definition on_ledger :: "(ledger \<Rightarrow> 'a \<times> ledger) \<Rightarrow> 'w runner \<Rightarrow> 'a \<times> 'w runner" where
  "on_ledger f s = (let (r, l) = f (rs_ledger s) in (r, s\<lparr>rs_ledger := l\<rparr>))"

definition emit :: "string \<Rightarrow> event_type \<Rightarrow> event_data \<Rightarrow> 'w runner \<Rightarrow> 'w runner" where
  "emit i t d s =
     (let (ts, s1) = now s;
          (_, s2) = on_ledger (AppendEvent i t d ts) s1
      in s2\<lparr>rs_bus := rs_bus s2 @ [\<lparr>e_id = 0, e_job = i, e_ts = ts, e_type = t, e_data = d\<rparr>]\<rparr>)"

definition fireTerminal :: "'w workflow \<Rightarrow> string \<Rightarrow> bool \<Rightarrow> err option \<Rightarrow> 'w runner \<Rightarrow> 'w runner" where
  "fireTerminal wfl i ok e s = (case wf_on_terminal wfl of
     None \<Rightarrow> s
   | Some h \<Rightarrow> s\<lparr>rs_world := h i ok e (rs_world s), rs_hooks := rs_hooks s @ [(i, ok, e)]\<rparr>)"

section \<open>One step\<close>

datatype step_outcome = StepDone | StepStopped | StepErr err | StepPanic

definition assertNoPriorAttempt ::
  "string \<Rightarrow> nat \<Rightarrow> 'w wstep \<Rightarrow> 'w runner \<Rightarrow> err option \<times> 'w runner" where
  "assertNoPriorAttempt i sq st s =
     (let (r, s1) = on_ledger (ListSteps i) s in
      case r of
        Inl e \<Rightarrow> (Some (ErrReplayUnreadable i sq (w_name st) e), s1)
      | Inr rows \<Rightarrow>
          (case sql_first (\<lambda>q. s_seq q = sq \<or> s_name q = w_name st) rows of
             None \<Rightarrow> (None, s1)
           | Some q \<Rightarrow> (Some (ErrReplayRecorded i sq (w_name st) (s_seq q) (s_name q) (s_status q) (s_attempt q)), s1)))"

definition max_attempts :: "'w wstep \<Rightarrow> nat" where
  "max_attempts st = (if w_irreversible st then 1 else nat (w_retries st + 1))"

text \<open>One call of \<^verbatim>\<open>step.Do\<close> with the log lines it wrote.\<close>

definition call_do :: "job \<Rightarrow> nat \<Rightarrow> nat \<Rightarrow> 'w wstep \<Rightarrow> (string \<rightharpoonup> string) \<Rightarrow> 'w runner \<Rightarrow> do_result \<times> 'w runner" where
  "call_do j sq att st prior s =
     (let (r, logs, w) = w_do st \<lparr>c_job = j_id j, c_spec = j_spec j, c_prior = prior, c_created_by = j_created_by j\<rparr> (rs_world s)
      in (r, fold (\<lambda>(lv, m). emit (j_id j) JobLog (LogData lv m)) logs
               (s\<lparr>rs_world := w, rs_calls := rs_calls s @ [(j_id j, sq, att)]\<rparr>)))"

definition mark_step_ok :: "job \<Rightarrow> nat \<Rightarrow> nat \<Rightarrow> 'w wstep \<Rightarrow> string option \<Rightarrow> 'w runner \<Rightarrow> 'w runner" where
  "mark_step_ok j sq att st res s =
     (let (ts, s1) = now s;
          (_, s2) = on_ledger (MarkStepSucceeded (j_id j) sq att res ts) s1
      in emit (j_id j) JobStepSucceeded (StepData sq (w_name st) att res None) s2)"

definition mark_step_failed :: "job \<Rightarrow> nat \<Rightarrow> 'w wstep \<Rightarrow> err \<Rightarrow> 'w runner \<Rightarrow> 'w runner" where
  "mark_step_failed j sq st e s =
     (let (ts, s1) = now s;
          (_, s2) = on_ledger (MarkStepFailed (j_id j) sq e ts) s1
      in emit (j_id j) JobStepFailed (StepData sq (w_name st) 0 None (Some e)) s2)"

text \<open>
  The attempt loop: \<open>n\<close> attempts left, \<open>att\<close> the attempt number, \<open>le\<close> the previous attempt's
  error.  A loop that never ran reads the error of a nil \<^verbatim>\<open>lastErr\<close>, which panics.
\<close>

fun run_attempts :: "nat \<Rightarrow> nat \<Rightarrow> err option \<Rightarrow> job \<Rightarrow> nat \<Rightarrow> 'w wstep \<Rightarrow> (string \<rightharpoonup> string) \<Rightarrow> 'w runner
    \<Rightarrow> step_outcome \<times> (string \<rightharpoonup> string) \<times> 'w runner" where
  "run_attempts 0 att le j sq st prior s =
     (case le of
        None \<Rightarrow> (StepPanic, prior, s)
      | Some e \<Rightarrow> (StepErr e, prior, mark_step_failed j sq st e s))"
| "run_attempts (Suc n) att le j sq st prior s =
     (let s1 = (if 0 < att then emit (j_id j) JobStepRetrying (StepData sq (w_name st) att None le) s else s);
          (r, s2) = call_do j sq att st prior s1
      in case r of
           DoOk res \<Rightarrow> (StepDone, (case res of None \<Rightarrow> prior | Some v \<Rightarrow> prior(w_name st \<mapsto> v)),
                         mark_step_ok j sq att st res s2)
         | DoStop res \<Rightarrow> (StepStopped, prior, mark_step_ok j sq att st res s2)
         | DoErr m \<Rightarrow> run_attempts n (Suc att) (Some (ErrText m)) j sq st prior s2)"

definition begin_step :: "job \<Rightarrow> nat \<Rightarrow> 'w wstep \<Rightarrow> 'w runner \<Rightarrow> 'w runner" where
  "begin_step j sq st s =
     (let (ts, s1) = now s;
          (_, s2) = on_ledger (CreateStep \<lparr>s_job = j_id j, s_seq = sq, s_name = w_name st,
             s_status = StepRunning, s_started_at = Some ts, s_finished_at = None, s_attempt = 0,
             s_result = None, s_error = None\<rparr>) s1
      in emit (j_id j) JobStepStarted (StepData sq (w_name st) 0 None None) s2)"

definition runStep :: "job \<Rightarrow> nat \<Rightarrow> 'w wstep \<Rightarrow> (string \<rightharpoonup> string) \<Rightarrow> 'w runner
    \<Rightarrow> step_outcome \<times> (string \<rightharpoonup> string) \<times> 'w runner" where
  "runStep j sq st prior s =
     (let (refused, s1) = (if w_irreversible st then assertNoPriorAttempt (j_id j) sq st s else (None, s)) in
      case refused of
        Some e \<Rightarrow> (StepErr e, prior,
                    emit (j_id j) JobStepFailed (StepData sq (w_name st) 0 None (Some e)) s1)
      | None \<Rightarrow> run_attempts (max_attempts st) 0 None j sq st prior (begin_step j sq st s1))"

section \<open>One job\<close>

datatype run_outcome = RunOk | RunErr err | RunPanic

fun run_steps :: "job \<Rightarrow> nat \<Rightarrow> 'w wstep list \<Rightarrow> (string \<rightharpoonup> string) \<Rightarrow> 'w runner \<Rightarrow> run_outcome \<times> 'w runner" where
  "run_steps j sq [] prior s = (RunOk, s)"
| "run_steps j sq (st # sts) prior s =
     (case runStep j sq st prior s of
        (StepDone, prior', s') \<Rightarrow> run_steps j (Suc sq) sts prior' s'
      | (StepStopped, prior', s') \<Rightarrow> (RunOk, s')
      | (StepErr e, prior', s') \<Rightarrow> (RunErr e, s')
      | (StepPanic, prior', s') \<Rightarrow> (RunPanic, s'))"

definition start_job :: "job \<Rightarrow> 'w runner \<Rightarrow> 'w runner" where
  "start_job j s =
     (let (ts, s1) = now s;
          (_, s2) = on_ledger (MarkJobStarted (j_id j) ts) s1
      in emit (j_id j) JobStarted NoData s2)"

definition finish_ok :: "job \<Rightarrow> 'w workflow \<Rightarrow> 'w runner \<Rightarrow> 'w runner" where
  "finish_ok j wfl s =
     (let (ts, s1) = now s;
          (_, s2) = on_ledger (MarkJobSucceeded (j_id j) ts) s1
      in fireTerminal wfl (j_id j) True None (emit (j_id j) JobSucceeded NoData s2))"

definition finish_err :: "job \<Rightarrow> 'w workflow \<Rightarrow> err \<Rightarrow> 'w runner \<Rightarrow> 'w runner" where
  "finish_err j wfl e s =
     (let (ts, s1) = now s;
          (_, s2) = on_ledger (MarkJobFailed (j_id j) e ts) s1
      in fireTerminal wfl (j_id j) False (Some e) (emit (j_id j) JobFailed (ErrorData e) s2))"

definition run :: "job \<Rightarrow> 'w workflow \<Rightarrow> 'w runner \<Rightarrow> run_outcome \<times> 'w runner" where
  "run j wfl s =
     (case run_steps j 0 (wf_steps wfl) Map.empty (start_job j s) of
        (RunOk, s') \<Rightarrow> (RunOk, finish_ok j wfl s')
      | (RunErr e, s') \<Rightarrow> (RunErr e, finish_err j wfl e s')
      | (RunPanic, s') \<Rightarrow> (RunPanic, s'))"

section \<open>Submission\<close>

text \<open>
  A submitted spec: nil, bytes that are already JSON, or a typed value with what the type says
  about secrets (\<^verbatim>\<open>secret.Contains\<close>) and its marshalled form.
\<close>

datatype spec_arg = SpecNil | SpecRaw string | SpecTyped bool "string + string"

datatype submit_error =
    ErrRawSpec string | ErrSecretInSpec string | ErrMarshal string string
  | ErrUnknownKind string | ErrPrepare string | ErrCreateJob db_error | ErrNoParent

definition encodeSpec :: "string \<Rightarrow> spec_arg \<Rightarrow> submit_error + string" where
  "encodeSpec kind sp = (case sp of
     SpecNil \<Rightarrow> Inr ''{}''
   | SpecRaw _ \<Rightarrow> Inl (ErrRawSpec kind)
   | SpecTyped sec m \<Rightarrow>
       (if sec then Inl (ErrSecretInSpec kind)
        else case m of Inl e \<Rightarrow> Inl (ErrMarshal kind e) | Inr b \<Rightarrow> Inr b))"

definition create :: "string \<Rightarrow> string \<Rightarrow> string \<Rightarrow> string \<Rightarrow> (string \<Rightarrow> 'w \<Rightarrow> string option \<times> 'w) option
    \<Rightarrow> 'w runner \<Rightarrow> (submit_error + job) \<times> 'w runner" where
  "create kind raw by parent prepare s =
     (case workflowFor s kind of
        None \<Rightarrow> (Inl (ErrUnknownKind kind), s)
      | Some wfl \<Rightarrow>
          let i = rs_ids s (rs_minted s);
              (ts, s1) = now (s\<lparr>rs_minted := Suc (rs_minted s)\<rparr>);
              j = \<lparr>j_id = i, j_kind = kind, j_spec = raw, j_status = StatusQueued, j_created_by = by,
                   j_created_at = ts, j_started_at = None, j_finished_at = None,
                   j_parent = (if parent = [] then None else Some parent), j_error = None\<rparr>;
              (perr, s2) = (case prepare of None \<Rightarrow> (None, s1)
                | Some p \<Rightarrow> let (e, w) = p i (rs_world s1) in (e, s1\<lparr>rs_world := w\<rparr>))
          in case perr of
               Some m \<Rightarrow> (Inl (ErrPrepare m), s2)
             | None \<Rightarrow>
                 (let (derr, s3) = on_ledger (CreateJob j) s2 in
                  case derr of
                    Some e \<Rightarrow> (Inl (ErrCreateJob e), s3)
                  | None \<Rightarrow>
                      (let s4 = emit i JobCreated (JobData j) s3
                       in (Inr j, s4\<lparr>rs_spawned := rs_spawned s4 @ [(j, wfl)]\<rparr>))))"

definition submit :: "string \<Rightarrow> spec_arg \<Rightarrow> string \<Rightarrow> string \<Rightarrow> (string \<Rightarrow> 'w \<Rightarrow> string option \<times> 'w) option
    \<Rightarrow> 'w runner \<Rightarrow> (submit_error + job) \<times> 'w runner" where
  "submit kind sp by parent prepare s = (case encodeSpec kind sp of
     Inl e \<Rightarrow> (Inl e, s) | Inr raw \<Rightarrow> create kind raw by parent prepare s)"

definition Submit :: "string \<Rightarrow> spec_arg \<Rightarrow> string \<Rightarrow> 'w runner \<Rightarrow> (submit_error + job) \<times> 'w runner" where
  "Submit kind sp by s = submit kind sp by [] None s"

definition SubmitPrepared :: "string \<Rightarrow> spec_arg \<Rightarrow> string \<Rightarrow> (string \<Rightarrow> 'w \<Rightarrow> string option \<times> 'w)
    \<Rightarrow> 'w runner \<Rightarrow> (submit_error + job) \<times> 'w runner" where
  "SubmitPrepared kind sp by prepare s = submit kind sp by [] (Some prepare) s"

definition SubmitChild :: "string \<Rightarrow> spec_arg \<Rightarrow> string \<Rightarrow> string \<Rightarrow> 'w runner \<Rightarrow> (submit_error + job) \<times> 'w runner" where
  "SubmitChild kind sp by parent s =
     (if parent = [] then (Inl ErrNoParent, s) else submit kind sp by parent None s)"

definition SubmitRawSpec :: "string \<Rightarrow> string \<Rightarrow> string \<Rightarrow> 'w runner \<Rightarrow> (submit_error + job) \<times> 'w runner" where
  "SubmitRawSpec kind raw by s = create kind (if raw = [] then ''{}'' else raw) by [] None s"

section \<open>Recovery\<close>

definition restart_msg :: err where
  "restart_msg = ErrText ''control plane restarted mid-job''"

fun fail_running_steps :: "string \<Rightarrow> gotime \<Rightarrow> job_step list \<Rightarrow> 'w runner \<Rightarrow> 'w runner" where
  "fail_running_steps i ts [] s = s"
| "fail_running_steps i ts (q # qs) s =
     fail_running_steps i ts qs
       (if s_status q = StepRunning then snd (on_ledger (MarkStepFailed i (s_seq q) restart_msg ts) s) else s)"

text \<open>\<^verbatim>\<open>steps, _ := ListSteps(...)\<close>: an unreadable list is read as no steps.\<close>

definition steps_or_none :: "string \<Rightarrow> 'w runner \<Rightarrow> job_step list \<times> 'w runner" where
  "steps_or_none i s = (let (r, s1) = on_ledger (ListSteps i) s in
     (case r of Inl _ \<Rightarrow> [] | Inr qs \<Rightarrow> qs, s1))"

definition recover_one :: "(job \<Rightarrow> job_step list \<Rightarrow> RecoverDecision) option \<Rightarrow> job \<Rightarrow> 'w runner \<Rightarrow> 'w runner" where
  "recover_one decider j s =
     (let (defer, s1) = (case decider of
            None \<Rightarrow> (False, s)
          | Some d \<Rightarrow> let (qs, s1) = steps_or_none (j_id j) s in (d j qs = RecoverDefer, s1))
      in if defer then s1
         else let (ts, s2) = now s1;
                  (derr, s3) = on_ledger (MarkJobFailed (j_id j) restart_msg ts) s2
              in if derr \<noteq> None then s3
                 else let (qs, s4) = steps_or_none (j_id j) s3;
                          s5 = emit (j_id j) JobFailed (RecoveredData restart_msg) (fail_running_steps (j_id j) ts qs s4)
                      in case workflowFor s5 (j_kind j) of
                           None \<Rightarrow> s5
                         | Some wfl \<Rightarrow> fireTerminal wfl (j_id j) False (Some restart_msg) s5)"

definition Recover :: "(job \<Rightarrow> job_step list \<Rightarrow> RecoverDecision) option \<Rightarrow> 'w runner \<Rightarrow> db_error option \<times> 'w runner" where
  "Recover decider s =
     (let (r, s1) = on_ledger (ListJobsByStatus [StatusQueued, StatusRunning]) s in
      case r of
        Inl e \<Rightarrow> (Some e, s1)
      | Inr inflight \<Rightarrow> (None, fold (recover_one decider) inflight s1))"

definition FinishDeferred :: "string \<Rightarrow> bool \<Rightarrow> err \<Rightarrow> 'w runner \<Rightarrow> 'w runner" where
  "FinishDeferred i success e s =
     (let (ts, s0) = now s;
          (r, s1) = on_ledger (GetJob i) s0;
          wfl = (case r of Inr (Some j) \<Rightarrow> workflowFor s1 (j_kind j) | _ \<Rightarrow> None)
      in if success
         then let (_, s2) = on_ledger (MarkJobSucceeded i ts) s1;
                  s3 = emit i JobSucceeded NoData s2
              in (case wfl of None \<Rightarrow> s3 | Some w \<Rightarrow> fireTerminal w i True None s3)
         else let (_, s2) = on_ledger (MarkJobFailed i e ts) s1;
                  s3 = emit i JobFailed (ErrorData e) s2
              in (case wfl of None \<Rightarrow> s3 | Some w \<Rightarrow> fireTerminal w i False (Some e) s3))"

section \<open>Field lemmas\<close>

named_theorems runner_simps "what each runner effect leaves of each field"

lemma now_fields [runner_simps]:
  "fst (now s) = rs_clock s (rs_reads s)"
  "rs_ledger (snd (now s)) = rs_ledger s" "rs_world (snd (now s)) = rs_world s"
  "rs_calls (snd (now s)) = rs_calls s" "rs_hooks (snd (now s)) = rs_hooks s"
  "rs_workflows (snd (now s)) = rs_workflows s" "rs_spawned (snd (now s)) = rs_spawned s"
  by (simp_all add: now_def)

lemma on_ledger_fields [runner_simps]:
  "fst (on_ledger f s) = fst (f (rs_ledger s))"
  "rs_ledger (snd (on_ledger f s)) = snd (f (rs_ledger s))"
  "rs_world (snd (on_ledger f s)) = rs_world s"
  "rs_calls (snd (on_ledger f s)) = rs_calls s" "rs_hooks (snd (on_ledger f s)) = rs_hooks s"
  "rs_workflows (snd (on_ledger f s)) = rs_workflows s"
  "rs_spawned (snd (on_ledger f s)) = rs_spawned s"
  by (simp_all add: on_ledger_def split_beta)

lemma emit_fields [runner_simps]:
  "rs_ledger (emit i t d s) = snd (AppendEvent i t d (rs_clock s (rs_reads s)) (rs_ledger s))"
  "rs_world (emit i t d s) = rs_world s"
  "rs_calls (emit i t d s) = rs_calls s" "rs_hooks (emit i t d s) = rs_hooks s"
  "rs_workflows (emit i t d s) = rs_workflows s" "rs_spawned (emit i t d s) = rs_spawned s"
  by (simp_all add: emit_def split_beta Let_def runner_simps)

lemma emits_fields [runner_simps]:
  "rs_world (fold (\<lambda>(lv, m). emit i JobLog (LogData lv m)) logs s) = rs_world s"
  "rs_calls (fold (\<lambda>(lv, m). emit i JobLog (LogData lv m)) logs s) = rs_calls s"
  "rs_hooks (fold (\<lambda>(lv, m). emit i JobLog (LogData lv m)) logs s) = rs_hooks s"
  "rs_workflows (fold (\<lambda>(lv, m). emit i JobLog (LogData lv m)) logs s) = rs_workflows s"
  by (induction logs arbitrary: s) (auto simp: runner_simps split_beta)

lemma call_do_fields [runner_simps]:
  fixes s :: "'w runner"
  defines "c \<equiv> (\<lambda>j prior. \<lparr>c_job = j_id j, c_spec = j_spec j, c_prior = prior, c_created_by = j_created_by j\<rparr>)"
  shows "fst (call_do j sq att st prior s) = fst (w_do st (c j prior) (rs_world s))"
    and "rs_world (snd (call_do j sq att st prior s)) = snd (snd (w_do st (c j prior) (rs_world s)))"
    and "rs_calls (snd (call_do j sq att st prior s)) = rs_calls s @ [(j_id j, sq, att)]"
    and "rs_hooks (snd (call_do j sq att st prior s)) = rs_hooks s"
  by (simp_all add: call_do_def split_beta Let_def runner_simps c_def)

lemma marks_fields [runner_simps]:
  "rs_world (mark_step_ok j sq att st res s) = rs_world s"
  "rs_calls (mark_step_ok j sq att st res s) = rs_calls s"
  "rs_hooks (mark_step_ok j sq att st res s) = rs_hooks s"
  "rs_world (mark_step_failed j sq st e s) = rs_world s"
  "rs_calls (mark_step_failed j sq st e s) = rs_calls s"
  "rs_hooks (mark_step_failed j sq st e s) = rs_hooks s"
  "rs_world (begin_step j sq st s) = rs_world s"
  "rs_calls (begin_step j sq st s) = rs_calls s"
  "rs_hooks (begin_step j sq st s) = rs_hooks s"
  "rs_world (start_job j s) = rs_world s"
  "rs_calls (start_job j s) = rs_calls s"
  "rs_hooks (start_job j s) = rs_hooks s"
  by (simp_all add: mark_step_ok_def mark_step_failed_def begin_step_def start_job_def
      split_beta Let_def runner_simps)

lemma assert_fields [runner_simps]:
  "rs_world (snd (assertNoPriorAttempt i sq st s)) = rs_world s"
  "rs_calls (snd (assertNoPriorAttempt i sq st s)) = rs_calls s"
  "rs_hooks (snd (assertNoPriorAttempt i sq st s)) = rs_hooks s"
  "rs_ledger (snd (assertNoPriorAttempt i sq st s)) = snd (ListSteps i (rs_ledger s))"
  by (auto simp: assertNoPriorAttempt_def split_beta Let_def runner_simps split: sum.splits option.splits)

lemma fireTerminal_fields [runner_simps]:
  "rs_ledger (fireTerminal wfl i ok e s) = rs_ledger s"
  "rs_calls (fireTerminal wfl i ok e s) = rs_calls s"
  "rs_world (fireTerminal wfl i ok e s) =
     (case wf_on_terminal wfl of None \<Rightarrow> rs_world s | Some h \<Rightarrow> h i ok e (rs_world s))"
  "rs_hooks (fireTerminal wfl i ok e s) =
     rs_hooks s @ (if wf_on_terminal wfl = None then [] else [(i, ok, e)])"
  by (auto simp: fireTerminal_def split: option.splits)

section \<open>A run stays within its job\<close>

lemma scoped_emit [scoped_intros]: "scoped i (rs_ledger s) (rs_ledger (emit i t d s))"
  by (simp add: runner_simps scoped_intros)

lemma scoped_emits [scoped_intros]:
  "scoped i (rs_ledger s) (rs_ledger (fold (\<lambda>(lv, m). emit i JobLog (LogData lv m)) logs s))"
proof (induction logs arbitrary: s)
  case Nil
  show ?case by (simp add: scoped_refl)
next
  case (Cons x logs)
  have "scoped i (rs_ledger s) (rs_ledger (emit i JobLog (LogData (fst x) (snd x)) s))"
    by (rule scoped_emit)
  then show ?case
    using Cons.IH [of "emit i JobLog (LogData (fst x) (snd x)) s"]
    by (auto simp: split_beta intro: scoped_trans)
qed

lemma scoped_call_do [scoped_intros]:
  "scoped (j_id j) (rs_ledger s) (rs_ledger (snd (call_do j sq att st prior s)))"
proof -
  define m where "m = w_do st \<lparr>c_job = j_id j, c_spec = j_spec j, c_prior = prior,
    c_created_by = j_created_by j\<rparr> (rs_world s)"
  define s0 where "s0 = s\<lparr>rs_world := snd (snd m), rs_calls := rs_calls s @ [(j_id j, sq, att)]\<rparr>"
  have "scoped (j_id j) (rs_ledger s0) (rs_ledger (fold (\<lambda>(lv, m). emit (j_id j) JobLog (LogData lv m)) (fst (snd m)) s0))"
    by (rule scoped_emits)
  then show ?thesis
    by (simp add: call_do_def s0_def m_def split_beta Let_def)
qed

lemma scoped_mark_step_ok [scoped_intros]:
  "scoped (j_id j) (rs_ledger s) (rs_ledger (mark_step_ok j sq att st res s))"
  unfolding mark_step_ok_def split_beta Let_def
  by (rule scoped_trans [OF _ scoped_emit]) (simp add: runner_simps scoped_intros)

lemma scoped_mark_step_failed [scoped_intros]:
  "scoped (j_id j) (rs_ledger s) (rs_ledger (mark_step_failed j sq st e s))"
  unfolding mark_step_failed_def split_beta Let_def
  by (rule scoped_trans [OF _ scoped_emit]) (simp add: runner_simps scoped_intros)

lemma scoped_begin_step [scoped_intros]:
  "scoped (j_id j) (rs_ledger s) (rs_ledger (begin_step j sq st s))"
  unfolding begin_step_def split_beta Let_def
  by (rule scoped_trans [OF _ scoped_emit]) (simp add: runner_simps scoped_intros)

lemma scoped_start_job [scoped_intros]:
  "scoped (j_id j) (rs_ledger s) (rs_ledger (start_job j s))"
  unfolding start_job_def split_beta Let_def
  by (rule scoped_trans [OF _ scoped_emit]) (simp add: runner_simps scoped_intros)

lemma scoped_run_attempts:
  "scoped (j_id j) (rs_ledger s) (rs_ledger (snd (snd (run_attempts n att le j sq st prior s))))"
proof (induction n arbitrary: att le s)
  case 0
  then show ?case by (auto simp: scoped_intros split: option.splits)
next
  case (Suc n)
  define s1 where "s1 = (if 0 < att then emit (j_id j) JobStepRetrying (StepData sq (w_name st) att None le) s else s)"
  define s2 where "s2 = snd (call_do j sq att st prior s1)"
  have "scoped (j_id j) (rs_ledger s) (rs_ledger s2)"
    unfolding s2_def by (rule scoped_trans [OF _ scoped_call_do]) (simp add: s1_def scoped_intros)
  then show ?case
    using Suc.IH [where att = "Suc att" and s = s2]
    by (auto simp: s1_def [symmetric] s2_def [symmetric] split_beta Let_def split: do_result.splits
        intro: scoped_trans scoped_intros)
qed

lemma scoped_runStep:
  "scoped (j_id j) (rs_ledger s) (rs_ledger (snd (snd (runStep j sq st prior s))))"
proof -
  define r where "r = (if w_irreversible st then assertNoPriorAttempt (j_id j) sq st s else (None, s))"
  have a: "scoped (j_id j) (rs_ledger s) (rs_ledger (snd r))"
    by (simp add: r_def runner_simps scoped_intros)
  then have b: "scoped (j_id j) (rs_ledger s) (rs_ledger (begin_step j sq st (snd r)))"
    by (rule scoped_trans) (rule scoped_begin_step)
  show ?thesis
    unfolding runStep_def r_def [symmetric]
    using scoped_trans [OF a scoped_emit] scoped_trans [OF b scoped_run_attempts]
    by (simp add: split_beta split: option.splits)
qed

lemma scoped_run_steps:
  "scoped (j_id j) (rs_ledger s) (rs_ledger (snd (run_steps j sq sts prior s)))"
proof (induction sts arbitrary: sq prior s)
  case Nil
  show ?case by (simp add: scoped_refl)
next
  case (Cons st sts)
  obtain out p s' where r: "runStep j sq st prior s = (out, p, s')"
    by (metis prod_cases3)
  have "scoped (j_id j) (rs_ledger s) (rs_ledger s')"
    using scoped_runStep [of j s sq st prior] r by simp
  with Cons.IH [where sq = "Suc sq" and prior = p and s = s'] show ?case
    by (auto simp: r intro: scoped_trans split: step_outcome.splits)
qed

lemma scoped_finish [scoped_intros]:
  "scoped (j_id j) (rs_ledger s) (rs_ledger (finish_ok j wfl s))"
  "scoped (j_id j) (rs_ledger s) (rs_ledger (finish_err j wfl e s))"
  unfolding finish_ok_def finish_err_def split_beta Let_def
  by (simp_all only: fireTerminal_fields) (rule scoped_trans [OF _ scoped_emit], simp add: runner_simps scoped_intros)+

lemma scoped_run: "scoped (j_id j) (rs_ledger s) (rs_ledger (snd (run j wfl s)))"
proof -
  obtain out s' where r: "run_steps j 0 (wf_steps wfl) Map.empty (start_job j s) = (out, s')"
    by (metis prod.exhaust)
  have "scoped (j_id j) (rs_ledger s) (rs_ledger s')"
    using scoped_trans [OF scoped_start_job scoped_run_steps [of j "start_job j s" 0 "wf_steps wfl" Map.empty]] r
    by simp
  then show ?thesis
    by (auto simp: run_def r intro: scoped_trans scoped_intros split: run_outcome.splits)
qed

end
