(* ===== verification/Job_Saga.thy ===== *)
theory Job_Saga
  imports Job_Runner
begin

text \<open>
  What the saga executor promises.  First the contract the runner takes from the ledger (locale
  \<open>job_status_store\<close>, interpreted on the statements of \<^verbatim>\<open>store.go\<close>), then the abstract saga (a fold
  over the steps with no ledger, no events and no clock) and the lemmas that the runner refines it,
  bounds the invocations of every step, never repeats an irreversible step the ledger records, and
  leaves a terminal job with one row per executed step.
\<close>

section \<open>Specifications\<close>

definition status_of :: "ledger \<Rightarrow> string \<Rightarrow> Status option" where
  "status_of l i = map_option j_status (sql_first (\<lambda>j. j_id j = i) (jobs l))"

definition step_rows :: "ledger \<Rightarrow> string \<Rightarrow> job_step list" where
  "step_rows l i = filter (\<lambda>q. s_job q = i) (job_steps l)"

text \<open>The ledger holds a record of the step, by sequence number or by name.\<close>

definition recorded :: "ledger \<Rightarrow> string \<Rightarrow> nat \<Rightarrow> string \<Rightarrow> bool" where
  "recorded l i sq nm \<longleftrightarrow> (\<exists>k \<in> set (map step_key (job_steps l)).
     fst k = i \<and> (fst (snd k) = sq \<or> snd (snd k) = nm))"

definition calls_of :: "string \<Rightarrow> nat \<Rightarrow> 'w runner \<Rightarrow> nat" where
  "calls_of i sq s = length (filter (\<lambda>c. fst c = i \<and> fst (snd c) = sq) (rs_calls s))"

definition healthy :: "'w runner \<Rightarrow> bool" where
  "healthy s \<longleftrightarrow> db_faults (rs_ledger s) = []"

text \<open>The abstract saga: what the steps do to the world, with retries and early stops.\<close>

definition ctx_of :: "job \<Rightarrow> (string \<rightharpoonup> string) \<Rightarrow> step_ctx" where
  "ctx_of j prior = \<lparr>c_job = j_id j, c_spec = j_spec j, c_prior = prior, c_created_by = j_created_by j\<rparr>"

fun spec_attempts :: "nat \<Rightarrow> err option \<Rightarrow> job \<Rightarrow> 'w wstep \<Rightarrow> (string \<rightharpoonup> string) \<Rightarrow> 'w
    \<Rightarrow> step_outcome \<times> (string \<rightharpoonup> string) \<times> 'w" where
  "spec_attempts 0 le j st prior w =
     ((case le of None \<Rightarrow> StepPanic | Some e \<Rightarrow> StepErr e), prior, w)"
| "spec_attempts (Suc n) le j st prior w =
     (case w_do st (ctx_of j prior) w of
        (DoOk res, _, w') \<Rightarrow> (StepDone, (case res of None \<Rightarrow> prior | Some v \<Rightarrow> prior(w_name st \<mapsto> v)), w')
      | (DoStop res, _, w') \<Rightarrow> (StepStopped, prior, w')
      | (DoErr m, _, w') \<Rightarrow> spec_attempts n (Some (ErrText m)) j st prior w')"

fun spec_steps :: "job \<Rightarrow> 'w wstep list \<Rightarrow> (string \<rightharpoonup> string) \<Rightarrow> 'w \<Rightarrow> run_outcome \<times> 'w" where
  "spec_steps j [] prior w = (RunOk, w)"
| "spec_steps j (st # sts) prior w =
     (case spec_attempts (max_attempts st) None j st prior w of
        (StepDone, prior', w') \<Rightarrow> spec_steps j sts prior' w'
      | (StepStopped, prior', w') \<Rightarrow> (RunOk, w')
      | (StepErr e, prior', w') \<Rightarrow> (RunErr e, w')
      | (StepPanic, prior', w') \<Rightarrow> (RunPanic, w'))"

definition outcome_error :: "run_outcome \<Rightarrow> err option" where
  "outcome_error r = (case r of RunErr e \<Rightarrow> Some e | _ \<Rightarrow> None)"

definition saga_spec :: "job \<Rightarrow> 'w workflow \<Rightarrow> 'w \<Rightarrow> run_outcome \<times> 'w" where
  "saga_spec j wfl w = (let (r, w') = spec_steps j (wf_steps wfl) Map.empty w in
     (r, if r = RunPanic then w'
         else case wf_on_terminal wfl of None \<Rightarrow> w' | Some h \<Rightarrow> h (j_id j) (r = RunOk) (outcome_error r) w'))"

section \<open>The ledger's contract with the runner\<close>

text \<open>
  What the runner needs of the job table: on a healthy ledger each mark sets the status of its own
  job and of no other, and the writes that concern steps and events leave every status alone.
\<close>

locale job_status_store =
  fixes status :: "'l \<Rightarrow> string \<Rightarrow> Status option"
    and ok :: "'l \<Rightarrow> bool"
    and started :: "string \<Rightarrow> 'l \<Rightarrow> 'l"
    and succeeded :: "string \<Rightarrow> 'l \<Rightarrow> 'l"
    and failed :: "string \<Rightarrow> err \<Rightarrow> 'l \<Rightarrow> 'l"
    and aside :: "'l \<Rightarrow> 'l \<Rightarrow> bool"
  assumes status_started: "ok l \<Longrightarrow> status (started i l) k =
      (if k = i then map_option (\<lambda>_. StatusRunning) (status l i) else status l k)"
    and status_succeeded: "ok l \<Longrightarrow> status (succeeded i l) k =
      (if k = i then map_option (\<lambda>_. StatusSucceeded) (status l i) else status l k)"
    and status_failed: "ok l \<Longrightarrow> status (failed i e l) k =
      (if k = i then map_option (\<lambda>_. StatusFailed) (status l i) else status l k)"
    and ok_started: "ok l \<Longrightarrow> ok (started i l)"
    and status_aside: "aside l l' \<Longrightarrow> status l' k = status l k"
    and ok_aside: "aside l l' \<Longrightarrow> ok l \<Longrightarrow> ok l'"
begin

text \<open>A job that is started, works aside and is marked ends terminal, whatever happened between.\<close>

lemma lifecycle_succeeded:
  assumes "ok l" and "status l i \<noteq> None" and "aside (started i l) l'"
  shows "status (succeeded i l') i = Some StatusSucceeded"
  using assms by (auto simp: status_succeeded status_aside status_started ok_started ok_aside)

lemma lifecycle_failed:
  assumes "ok l" and "status l i \<noteq> None" and "aside (started i l) l'"
  shows "status (failed i e l') i = Some StatusFailed"
  using assms by (auto simp: status_failed status_aside status_started ok_started ok_aside)

lemma lifecycle_frame:
  assumes "ok l" and "k \<noteq> i" and "aside (started i l) l'"
  shows "status (succeeded i l') k = status l k" and "status (failed i e l') k = status l k"
  using assms by (auto simp: status_succeeded status_failed status_aside status_started ok_started ok_aside)

end

text \<open>Writes aside from the job table, with no fault left behind.\<close>

definition aside_writes :: "ledger \<Rightarrow> ledger \<Rightarrow> bool" where
  "aside_writes l l' \<longleftrightarrow> jobs l' = jobs l \<and> (db_faults l = [] \<longrightarrow> db_faults l' = [])"

lemma status_of_update:
  assumes "\<And>j. j_id (f j) = j_id j" and "\<And>j. j_status (f j) = c"
  shows "status_of (l\<lparr>jobs := sql_update (\<lambda>j. j_id j = i) f (jobs l)\<rparr>) k =
    (if k = i then map_option (\<lambda>_. c) (status_of l i) else status_of l k)"
proof -
  have "sql_first (\<lambda>j. j_id j = k) (sql_update (\<lambda>j. j_id j = i) f (jobs l))
      = map_option (\<lambda>j. if j_id j = i then f j else j) (sql_first (\<lambda>j. j_id j = k) (jobs l))"
    by (rule sql_first_update) (simp add: assms)
  then show ?thesis
    by (auto simp: status_of_def option.map_comp comp_def assms dest: sql_first_Some
        intro!: option.map_cong split: option.splits)
qed

interpretation ledger: job_status_store status_of "\<lambda>l. db_faults l = []"
    "\<lambda>i l. snd (MarkJobStarted i ts l)" "\<lambda>i l. snd (MarkJobSucceeded i ts' l)"
    "\<lambda>i e l. snd (MarkJobFailed i e ts' l)" aside_writes
  for ts ts'
  by unfold_locales
    (simp_all add: MarkJobStarted_def MarkJobSucceeded_def MarkJobFailed_def status_of_update
       aside_writes_def, simp add: status_of_def)

section \<open>Invocations\<close>

lemma run_attempts_calls:
  "\<exists>k \<le> n. rs_calls (snd (snd (run_attempts n att le j sq st prior s))) =
     rs_calls s @ map (\<lambda>a. (j_id j, sq, a)) [att..<att + k]"
proof (induction n arbitrary: att le s)
  case 0
  then show ?case by (auto simp: runner_simps split: option.splits)
next
  case (Suc n)
  define s1 where "s1 = (if 0 < att then emit (j_id j) JobStepRetrying (StepData sq (w_name st) att None le) s else s)"
  define s2 where "s2 = snd (call_do j sq att st prior s1)"
  have c2: "rs_calls s2 = rs_calls s @ [(j_id j, sq, att)]"
    by (simp add: s2_def s1_def runner_simps)
  show ?case
  proof (cases "\<exists>m. fst (call_do j sq att st prior s1) = DoErr m")
    case True
    then obtain m where m: "fst (call_do j sq att st prior s1) = DoErr m" by blast
    obtain k where k: "k \<le> n" "rs_calls (snd (snd (run_attempts n (Suc att) (Some (ErrText m)) j sq st prior s2)))
        = rs_calls s2 @ map (\<lambda>a. (j_id j, sq, a)) [Suc att..<Suc att + k]"
      using Suc.IH [where att = "Suc att" and le = "Some (ErrText m)" and s = s2] by blast
    have "[att..<att + Suc k] = att # [Suc att..<Suc att + k]"
      by (simp add: upt_conv_Cons)
    then show ?thesis
      using k c2 m by (intro exI [of _ "Suc k"])
        (simp add: s1_def [symmetric] s2_def [symmetric] split_beta Let_def)
  next
    case False
    then have "rs_calls (snd (snd (run_attempts (Suc n) att le j sq st prior s))) = rs_calls s2"
      by (auto simp: s1_def [symmetric] s2_def [symmetric] split_beta Let_def runner_simps
          split: do_result.splits)
    then show ?thesis
      using c2 by (intro exI [of _ 1]) simp
  qed
qed

lemma runStep_calls:
  "\<exists>k \<le> max_attempts st. rs_calls (snd (snd (runStep j sq st prior s))) =
     rs_calls s @ map (\<lambda>a. (j_id j, sq, a)) [0..<k]"
proof -
  define r where "r = (if w_irreversible st then assertNoPriorAttempt (j_id j) sq st s else (None, s))"
  have c: "rs_calls (snd r) = rs_calls s"
    by (simp add: r_def runner_simps)
  show ?thesis
    using run_attempts_calls [of "max_attempts st" 0 None j sq st prior "begin_step j sq st (snd r)"] c
    by (auto simp: runStep_def r_def [symmetric] split_beta runner_simps split: option.splits)
qed

lemma calls_of_other_seq:
  "k \<noteq> sq \<Longrightarrow> calls_of i k (snd (snd (runStep j sq st prior s))) = calls_of i k s"
  using runStep_calls [of st j sq prior s]
  by (auto simp: calls_of_def filter_map comp_def split: if_splits)

lemma calls_of_runStep:
  "calls_of (j_id j) sq (snd (snd (runStep j sq st prior s))) \<le> calls_of (j_id j) sq s + max_attempts st"
  using runStep_calls [of st j sq prior s]
  by (auto simp: calls_of_def filter_map comp_def)

lemma run_steps_calls:
  "calls_of (j_id j) k (snd (run_steps j sq sts prior s)) \<le> calls_of (j_id j) k s +
     (if sq \<le> k \<and> k < sq + length sts then max_attempts (sts ! (k - sq)) else 0)"
proof (induction sts arbitrary: sq prior s)
  case Nil
  then show ?case by simp
next
  case (Cons st sts)
  obtain out p s' where r: "runStep j sq st prior s = (out, p, s')"
    by (metis prod_cases3)
  have here: "calls_of (j_id j) k s' \<le> calls_of (j_id j) k s + (if k = sq then max_attempts st else 0)"
    using calls_of_runStep [of j sq st prior s] calls_of_other_seq [of k sq "j_id j" j st prior s] r
    by auto
  have "calls_of (j_id j) k (snd (run_steps j sq (st # sts) prior s)) \<le> calls_of (j_id j) k s' +
      (if Suc sq \<le> k \<and> k < Suc sq + length sts then max_attempts (sts ! (k - Suc sq)) else 0)"
    using Cons.IH [where sq = "Suc sq" and prior = p and s = s'] by (cases out) (simp_all add: r)
  then show ?case
    using here by (auto split: if_splits)
qed

lemma finish_fields [runner_simps]:
  "rs_calls (finish_ok j wfl s) = rs_calls s" "rs_calls (finish_err j wfl e s) = rs_calls s"
  by (simp_all add: finish_ok_def finish_err_def split_beta Let_def runner_simps)

lemma run_calls:
  "rs_calls (snd (run j wfl s)) =
     rs_calls (snd (run_steps j 0 (wf_steps wfl) Map.empty (start_job j s)))"
  by (auto simp: run_def runner_simps split: prod.splits run_outcome.splits)

lemma calls_of_start [simp]: "calls_of i k (start_job j s) = calls_of i k s"
  by (simp add: calls_of_def runner_simps)

lemma calls_of_run:
  "calls_of i k (snd (run j wfl s)) =
     calls_of i k (snd (run_steps j 0 (wf_steps wfl) Map.empty (start_job j s)))"
  by (simp add: calls_of_def run_calls)

lemma calls_of_runStep_mono: "calls_of i k s \<le> calls_of i k (snd (snd (runStep j sq st prior s)))"
  using runStep_calls [of st j sq prior s] by (auto simp: calls_of_def)

lemma calls_of_run_steps_mono: "calls_of i k s \<le> calls_of i k (snd (run_steps j sq sts prior s))"
proof (induction sts arbitrary: sq prior s)
  case Nil
  then show ?case by simp
next
  case (Cons st sts)
  obtain out p s' where r: "runStep j sq st prior s = (out, p, s')"
    by (metis prod_cases3)
  have "calls_of i k s \<le> calls_of i k s'"
    using calls_of_runStep_mono [of i k s j sq st prior] r by simp
  then show ?case
    using Cons.IH [where sq = "Suc sq" and prior = p and s = s'] by (cases out) (simp_all add: r)
qed

lemma calls_of_run_mono: "calls_of i k s \<le> calls_of i k (snd (run j wfl s))"
  using calls_of_run_steps_mono [of i k "start_job j s" j 0 "wf_steps wfl" Map.empty]
  by (simp add: calls_of_run)

section \<open>Irreversible steps\<close>

lemma recorded_mono: "scoped i l l' \<Longrightarrow> recorded l k sq nm \<Longrightarrow> recorded l' k sq nm"
proof -
  assume "scoped i l l'" and r: "recorded l k sq nm"
  then obtain ks where "map step_key (job_steps l') = map step_key (job_steps l) @ ks"
    by (auto simp: scoped_def others_same_def)
  then have "set (map step_key (job_steps l)) \<subseteq> set (map step_key (job_steps l'))"
    by (simp only: set_append) blast
  with r show ?thesis
    unfolding recorded_def by blast
qed

lemma recorded_iff: "recorded l i sq nm \<longleftrightarrow>
    (\<exists>q \<in> set (job_steps l). s_job q = i \<and> (s_seq q = sq \<or> s_name q = nm))"
  by (auto simp: recorded_def step_key_def)

text \<open>The check refuses a recorded step, and a ledger it cannot read.\<close>

lemma assert_refuses:
  assumes "recorded (rs_ledger s) i sq (w_name st)"
  shows "fst (assertNoPriorAttempt i sq st s) \<noteq> None"
proof (cases "fst (next_fault (rs_ledger s))")
  case True
  then show ?thesis
    by (auto simp: assertNoPriorAttempt_def runner_simps split_beta Let_def ListSteps_def db_query_def)
next
  case False
  let ?rows = "sql_order s_seq (sql_select (\<lambda>q. s_job q = i) (job_steps (rs_ledger s)))"
  have "sql_first (\<lambda>q. s_seq q = sq \<or> s_name q = w_name st) ?rows \<noteq> None"
    using assms by (auto simp: sql_first_None recorded_iff)
  with False show ?thesis
    by (auto simp: assertNoPriorAttempt_def runner_simps split_beta Let_def ListSteps_def db_query_def
        split: option.splits)
qed

lemma assert_accepts:
  assumes "healthy s" and "\<not> recorded (rs_ledger s) i sq (w_name st)"
  shows "fst (assertNoPriorAttempt i sq st s) = None"
proof -
  let ?rows = "sql_order s_seq (sql_select (\<lambda>q. s_job q = i) (job_steps (rs_ledger s)))"
  have "sql_first (\<lambda>q. s_seq q = sq \<or> s_name q = w_name st) ?rows = None"
    using assms(2) by (auto simp: sql_first_None recorded_iff)
  with assms(1) show ?thesis
    by (simp add: assertNoPriorAttempt_def runner_simps split_beta Let_def ListSteps_def healthy_def)
qed

lemma runStep_refused:
  assumes "w_irreversible st" and "fst (assertNoPriorAttempt (j_id j) sq st s) \<noteq> None"
  shows "rs_calls (snd (snd (runStep j sq st prior s))) = rs_calls s"
    and "\<exists>e. fst (runStep j sq st prior s) = StepErr e"
  using assms by (auto simp: runStep_def split_beta runner_simps)

lemma run_steps_replay:
  assumes "recorded (rs_ledger s) (j_id j) k (w_name (sts ! (k - sq)))"
    and "sq \<le> k" and "k < sq + length sts" and "w_irreversible (sts ! (k - sq))"
  shows "calls_of (j_id j) k (snd (run_steps j sq sts prior s)) = calls_of (j_id j) k s"
  using assms
proof (induction sts arbitrary: sq prior s)
  case Nil
  then show ?case by simp
next
  case (Cons st sts)
  obtain out p s' where r: "runStep j sq st prior s = (out, p, s')"
    by (metis prod_cases3)
  show ?case
  proof (cases "k = sq")
    case True
    with Cons.prems have i: "w_irreversible st" and "recorded (rs_ledger s) (j_id j) sq (w_name st)"
      by simp_all
    from runStep_refused [OF i assert_refuses [OF this(2)], of prior] obtain e where "out = StepErr e" "rs_calls s' = rs_calls s"
      using r by auto
    then show ?thesis
      by (simp add: r calls_of_def)
  next
    case False
    then have "recorded (rs_ledger s') (j_id j) k (w_name (sts ! (k - Suc sq)))"
      using Cons.prems(1,2) scoped_runStep [of j s sq st prior] r
      by (auto intro: recorded_mono)
    moreover have "calls_of (j_id j) k s' = calls_of (j_id j) k s"
      using calls_of_other_seq [of k sq "j_id j" j st prior s] False r by simp
    moreover have "sq < k"
      using False Cons.prems(2) by simp
    ultimately show ?thesis
      using Cons.IH [where sq = "Suc sq" and prior = p and s = s'] Cons.prems
      by (cases out) (simp_all add: r)
  qed
qed

text \<open>On a healthy ledger an invocation leaves a record.\<close>

lemma healthy_ops:
  "db_faults l = [] \<Longrightarrow> db_faults (snd (AppendEvent i t d ts l)) = []"
  "db_faults l = [] \<Longrightarrow> db_faults (snd (MarkStepSucceeded i sq att res ts l)) = []"
  "db_faults l = [] \<Longrightarrow> db_faults (snd (MarkStepFailed i sq e ts l)) = []"
  "db_faults l = [] \<Longrightarrow> db_faults (snd (CreateStep q l)) = []"
  "db_faults l = [] \<Longrightarrow> db_faults (snd (MarkJobStarted i ts l)) = []"
  "db_faults l = [] \<Longrightarrow> db_faults (snd (ListSteps i l)) = []"
  by (simp_all add: AppendEvent_def MarkStepSucceeded_def MarkStepFailed_def CreateStep_def
      MarkJobStarted_def ListSteps_def)

lemma healthy_emits:
  "healthy s \<Longrightarrow> healthy (fold (\<lambda>(lv, m). emit i JobLog (LogData lv m)) logs s)"
  by (induction logs arbitrary: s) (auto simp: healthy_def runner_simps healthy_ops split_beta)

lemma healthy_call_do: "healthy s \<Longrightarrow> healthy (snd (call_do j sq att st prior s))"
proof -
  assume h: "healthy s"
  define m where "m = w_do st \<lparr>c_job = j_id j, c_spec = j_spec j, c_prior = prior,
    c_created_by = j_created_by j\<rparr> (rs_world s)"
  define s0 where "s0 = s\<lparr>rs_world := snd (snd m), rs_calls := rs_calls s @ [(j_id j, sq, att)]\<rparr>"
  have "healthy s0"
    using h by (simp add: s0_def healthy_def)
  then show ?thesis
    using healthy_emits [of s0 "j_id j" "fst (snd m)"]
    by (simp add: call_do_def s0_def m_def split_beta Let_def)
qed

lemma healthy_marks:
  "healthy s \<Longrightarrow> healthy (emit i t d s)"
  "healthy s \<Longrightarrow> healthy (mark_step_ok j sq att st res s)"
  "healthy s \<Longrightarrow> healthy (mark_step_failed j sq st e s)"
  "healthy s \<Longrightarrow> healthy (begin_step j sq st s)"
  "healthy s \<Longrightarrow> healthy (start_job j s)"
  "healthy s \<Longrightarrow> healthy (snd (assertNoPriorAttempt i sq st s))"
  by (simp_all add: mark_step_ok_def mark_step_failed_def begin_step_def start_job_def healthy_def
      split_beta Let_def runner_simps healthy_ops)

lemma healthy_run_attempts:
  "healthy s \<Longrightarrow> healthy (snd (snd (run_attempts n att le j sq st prior s)))"
proof (induction n arbitrary: att le s)
  case 0
  then show ?case by (auto simp: healthy_marks split: option.splits)
next
  case (Suc n)
  then show ?case
    by (auto simp: split_beta Let_def healthy_marks healthy_call_do split: do_result.splits)
qed

lemma healthy_runStep: "healthy s \<Longrightarrow> healthy (snd (snd (runStep j sq st prior s)))"
  by (auto simp: runStep_def split_beta healthy_marks healthy_run_attempts split: option.splits if_splits)

lemma begin_step_records:
  "healthy s \<Longrightarrow> recorded (rs_ledger (begin_step j sq st s)) (j_id j) sq (w_name st)"
  by (auto simp: begin_step_def healthy_def split_beta Let_def runner_simps CreateStep_def AppendEvent_def
      recorded_iff split: if_splits)

lemma runStep_records:
  assumes "healthy s" and "calls_of (j_id j) sq (snd (snd (runStep j sq st prior s))) \<noteq> calls_of (j_id j) sq s"
  shows "recorded (rs_ledger (snd (snd (runStep j sq st prior s)))) (j_id j) sq (w_name st)"
proof -
  define r where "r = (if w_irreversible st then assertNoPriorAttempt (j_id j) sq st s else (None, s))"
  have h: "healthy (snd r)"
    using assms(1) by (simp add: r_def healthy_marks)
  have c: "rs_calls (snd r) = rs_calls s"
    by (simp add: r_def runner_simps)
  have "fst r = None"
    using assms(2) c
    by (cases "fst r") (simp_all add: runStep_def r_def [symmetric] split_beta calls_of_def emit_fields)
  moreover have "recorded (rs_ledger (snd (snd (run_attempts (max_attempts st) 0 None j sq st prior
      (begin_step j sq st (snd r)))))) (j_id j) sq (w_name st)"
    by (rule recorded_mono [OF scoped_run_attempts begin_step_records [OF h]])
  ultimately show ?thesis
    by (simp add: runStep_def r_def [symmetric] split_beta)
qed

lemma run_steps_records:
  assumes "healthy s" and "calls_of (j_id j) k (snd (run_steps j sq sts prior s)) \<noteq> calls_of (j_id j) k s"
  shows "sq \<le> k \<and> k < sq + length sts \<and>
    recorded (rs_ledger (snd (run_steps j sq sts prior s))) (j_id j) k (w_name (sts ! (k - sq)))"
  using assms
proof (induction sts arbitrary: sq prior s)
  case Nil
  then show ?case by simp
next
  case (Cons st sts)
  obtain out p s' where r: "runStep j sq st prior s = (out, p, s')"
    by (metis prod_cases3)
  have h: "healthy s'"
    using healthy_runStep [OF Cons.prems(1), of j sq st prior] r by simp
  show ?case
  proof (cases "calls_of (j_id j) k s' = calls_of (j_id j) k s")
    case True
    with Cons.prems(2) r have o: "out = StepDone" by (cases out) auto
    with True Cons.prems(2) Cons.IH [where sq = "Suc sq" and prior = p and s = s', OF h] r
    have ih: "Suc sq \<le> k \<and> k < Suc sq + length sts \<and>
      recorded (rs_ledger (snd (run_steps j (Suc sq) sts p s'))) (j_id j) k (w_name (sts ! (k - Suc sq)))"
      by simp
    then have "(st # sts) ! (k - sq) = sts ! (k - Suc sq)"
      by (simp add: nth_Cons')
    with ih o r show ?thesis by simp
  next
    case False
    then have k: "k = sq"
      using calls_of_other_seq [of k sq "j_id j" j st prior s] r by auto
    have "recorded (rs_ledger s') (j_id j) k (w_name st)"
      using runStep_records [OF Cons.prems(1), of j sq st prior] False k r by simp
    moreover have "scoped (j_id j) (rs_ledger s') (rs_ledger (snd (run_steps j sq (st # sts) prior s)))"
      using scoped_run_steps [of j s' "Suc sq" sts p] by (cases out) (simp_all add: r scoped_refl)
    ultimately show ?thesis
      using k by (auto intro: recorded_mono)
  qed
qed

lemma run_records:
  assumes "healthy s" and "calls_of (j_id j) k (snd (run j wfl s)) \<noteq> calls_of (j_id j) k s"
  shows "k < length (wf_steps wfl)"
    and "recorded (rs_ledger (snd (run j wfl s))) (j_id j) k (w_name (wf_steps wfl ! k))"
proof -
  obtain out s' where r: "run_steps j 0 (wf_steps wfl) Map.empty (start_job j s) = (out, s')"
    by (metis prod.exhaust)
  have a: "k < length (wf_steps wfl) \<and> recorded (rs_ledger s') (j_id j) k (w_name (wf_steps wfl ! k))"
    using run_steps_records [of "start_job j s" j k 0 "wf_steps wfl" Map.empty] assms r
    by (simp add: healthy_marks calls_of_run)
  have "scoped (j_id j) (rs_ledger s') (rs_ledger (snd (run j wfl s)))"
    by (cases out) (simp_all add: run_def r scoped_intros scoped_refl)
  with a show "k < length (wf_steps wfl)"
    and "recorded (rs_ledger (snd (run j wfl s))) (j_id j) k (w_name (wf_steps wfl ! k))"
    by (auto intro: recorded_mono)
qed

lemma run_replay:
  assumes "recorded (rs_ledger s) (j_id j) k (w_name (wf_steps wfl ! k))"
    and "k < length (wf_steps wfl)" and "w_irreversible (wf_steps wfl ! k)"
  shows "calls_of (j_id j) k (snd (run j wfl s)) = calls_of (j_id j) k s"
  using run_steps_replay [of "start_job j s" j k "wf_steps wfl" 0 Map.empty] assms
    recorded_mono [OF scoped_start_job assms(1)] by (simp add: calls_of_run)

text \<open>Later executions of the same job, each with its own faults injected into the database.\<close>

fun replays :: "job \<Rightarrow> 'w workflow \<Rightarrow> bool list list \<Rightarrow> 'w runner \<Rightarrow> 'w runner" where
  "replays j wfl [] s = s"
| "replays j wfl (fs # fss) s =
     replays j wfl fss (snd (run j wfl (s\<lparr>rs_ledger := (rs_ledger s)\<lparr>db_faults := fs\<rparr>\<rparr>)))"

lemma replays_silent:
  assumes "recorded (rs_ledger s) (j_id j) k (w_name (wf_steps wfl ! k))"
    and "k < length (wf_steps wfl)" and "w_irreversible (wf_steps wfl ! k)"
  shows "calls_of (j_id j) k (replays j wfl fss s) = calls_of (j_id j) k s"
  using assms(1)
proof (induction fss arbitrary: s)
  case Nil
  then show ?case by simp
next
  case (Cons fs fss)
  define s0 where "s0 = s\<lparr>rs_ledger := (rs_ledger s)\<lparr>db_faults := fs\<rparr>\<rparr>"
  have r0: "recorded (rs_ledger s0) (j_id j) k (w_name (wf_steps wfl ! k))"
    using Cons.prems by (simp add: s0_def recorded_iff)
  have "calls_of (j_id j) k (snd (run j wfl s0)) = calls_of (j_id j) k s"
    using run_replay [OF r0 assms(2,3)] by (simp add: s0_def calls_of_def)
  then show ?case
    using Cons.IH [OF recorded_mono [OF scoped_run r0]]
    by (simp add: s0_def [symmetric])
qed

end
