(* ===== verification/Job_Rows.thy ===== *)
theory Job_Rows
  imports Job_Saga
begin

text \<open>
  The ledger a run leaves behind on a healthy database: which step rows it writes and in which
  state, what status the job ends in, and what the world looks like compared with the abstract
  saga of \<^verbatim>\<open>Job_Saga\<close>.  The status lemmas go through the interpretation \<open>ledger\<close> of the locale
  \<open>job_status_store\<close>.
\<close>

section \<open>Step rows\<close>

definition row_view :: "job_step \<Rightarrow> nat \<times> string \<times> StepStatus" where
  "row_view q = (s_seq q, s_name q, s_status q)"

definition rows :: "string \<Rightarrow> 'w runner \<Rightarrow> (nat \<times> string \<times> StepStatus) list" where
  "rows i s = map row_view (step_rows (rs_ledger s) i)"

named_theorems row_simps "step rows after each runner effect on a healthy ledger"

lemma rows_emit [row_simps]: "healthy s \<Longrightarrow> rows i (emit k t d s) = rows i s"
  by (simp add: rows_def step_rows_def runner_simps AppendEvent_def healthy_def)

lemma rows_emits: "healthy s \<Longrightarrow> rows i (fold (\<lambda>(lv, m). emit k JobLog (LogData lv m)) logs s) = rows i s"
  by (induction logs arbitrary: s) (auto simp: row_simps healthy_marks)

lemma rows_call_do [row_simps]: "healthy s \<Longrightarrow> rows i (snd (call_do j sq att st prior s)) = rows i s"
proof -
  assume h: "healthy s"
  define m where "m = w_do st \<lparr>c_job = j_id j, c_spec = j_spec j, c_prior = prior,
    c_created_by = j_created_by j\<rparr> (rs_world s)"
  define s0 where "s0 = s\<lparr>rs_world := snd (snd m), rs_calls := rs_calls s @ [(j_id j, sq, att)]\<rparr>"
  have "healthy s0" and "rows i s0 = rows i s"
    using h by (simp_all add: s0_def healthy_def rows_def)
  then show ?thesis
    using rows_emits [of s0 i "j_id j" "fst (snd m)"]
    by (simp add: call_do_def s0_def m_def split_beta Let_def)
qed

lemma rows_start_job [row_simps]: "healthy s \<Longrightarrow> rows i (start_job j s) = rows i s"
  by (simp add: start_job_def split_beta Let_def healthy_def runner_simps rows_def step_rows_def
      MarkJobStarted_def AppendEvent_def)

lemma rows_assert [row_simps]: "healthy s \<Longrightarrow> rows i (snd (assertNoPriorAttempt k sq st s)) = rows i s"
  by (simp add: rows_def runner_simps ListSteps_def healthy_def)

definition set_row :: "nat \<Rightarrow> StepStatus \<Rightarrow> (nat \<times> string \<times> StepStatus) list \<Rightarrow> (nat \<times> string \<times> StepStatus) list" where
  "set_row sq c = map (\<lambda>(k, n, t). if k = sq then (k, n, c) else (k, n, t))"

lemma set_status_rows:
  assumes "\<And>q. s_job (f q) = s_job q" and "\<And>q. row_view (f q) = (s_seq q, s_name q, c)"
  shows "map row_view (filter (\<lambda>q. s_job q = i) (sql_update (\<lambda>q. s_job q = i \<and> s_seq q = sq) f qs))
    = set_row sq c (map row_view (filter (\<lambda>q. s_job q = i) qs))"
proof (induction qs)
  case (Cons q qs)
  have "row_view q = (s_seq q, s_name q, s_status q)"
    by (simp add: row_view_def)
  with Cons.IH show ?case
    by (simp add: assms set_row_def)
qed (simp add: set_row_def)

lemma rows_mark_ok:
  assumes "healthy s"
  shows "rows (j_id j) (mark_step_ok j sq att st res s) = set_row sq StepSucceeded (rows (j_id j) s)"
proof -
  let ?f = "\<lambda>q. q\<lparr>s_status := StepSucceeded, s_finished_at := Some (rs_clock s (rs_reads s)),
    s_attempt := att, s_result := Some (case res of None \<Rightarrow> [] | Some r \<Rightarrow> r)\<rparr>"
  have "map row_view (filter (\<lambda>q. s_job q = j_id j)
      (sql_update (\<lambda>q. s_job q = j_id j \<and> s_seq q = sq) ?f (job_steps (rs_ledger s))))
    = set_row sq StepSucceeded (map row_view (filter (\<lambda>q. s_job q = j_id j) (job_steps (rs_ledger s))))"
    by (rule set_status_rows) (simp_all add: row_view_def)
  then show ?thesis
    using assms by (simp add: rows_def step_rows_def mark_step_ok_def split_beta Let_def runner_simps
        healthy_def MarkStepSucceeded_def AppendEvent_def)
qed

lemma rows_mark_failed:
  assumes "healthy s"
  shows "rows (j_id j) (mark_step_failed j sq st e s) = set_row sq StepFailed (rows (j_id j) s)"
proof -
  let ?f = "\<lambda>q. q\<lparr>s_status := StepFailed, s_finished_at := Some (rs_clock s (rs_reads s)), s_error := Some e\<rparr>"
  have "map row_view (filter (\<lambda>q. s_job q = j_id j)
      (sql_update (\<lambda>q. s_job q = j_id j \<and> s_seq q = sq) ?f (job_steps (rs_ledger s))))
    = set_row sq StepFailed (map row_view (filter (\<lambda>q. s_job q = j_id j) (job_steps (rs_ledger s))))"
    by (rule set_status_rows) (simp_all add: row_view_def)
  then show ?thesis
    using assms by (simp add: rows_def step_rows_def mark_step_failed_def split_beta Let_def runner_simps
        healthy_def MarkStepFailed_def AppendEvent_def)
qed

lemma in_rows_iff:
  "(\<exists>r \<in> set (rows i s). fst r = sq) \<longleftrightarrow> (i, sq) \<in> (\<lambda>q. (s_job q, s_seq q)) ` set (job_steps (rs_ledger s))"
  by (auto simp: rows_def step_rows_def row_view_def image_iff)

lemma rows_begin_step:
  assumes "healthy s" and "\<forall>r \<in> set (rows (j_id j) s). fst r \<noteq> sq"
  shows "rows (j_id j) (begin_step j sq st s) = rows (j_id j) s @ [(sq, w_name st, StepRunning)]"
proof -
  have "(j_id j, sq) \<notin> (\<lambda>q. (s_job q, s_seq q)) ` set (job_steps (rs_ledger s))"
    using assms(2) in_rows_iff [of "j_id j" s sq] by auto
  then show ?thesis
    using assms(1)
    by (simp add: begin_step_def split_beta Let_def healthy_def runner_simps CreateStep_def AppendEvent_def
        rows_def step_rows_def row_view_def)
qed

text \<open>What an attempt loop does to the rows depends on how it ends.\<close>

fun end_status :: "step_outcome \<Rightarrow> StepStatus" where
  "end_status StepDone = StepSucceeded"
| "end_status StepStopped = StepSucceeded"
| "end_status (StepErr e) = StepFailed"
| "end_status StepPanic = StepRunning"

lemma rows_run_attempts:
  assumes "healthy s" and "\<forall>r \<in> set (rows (j_id j) s). fst r = sq \<longrightarrow> snd (snd r) = StepRunning"
  shows "rows (j_id j) (snd (snd (run_attempts n att le j sq st prior s))) =
    set_row sq (end_status (fst (run_attempts n att le j sq st prior s))) (rows (j_id j) s)"
  using assms
proof (induction n arbitrary: att le s)
  case 0
  have "set_row sq StepRunning (rows (j_id j) s) = rows (j_id j) s"
    using 0(2) by (auto simp: set_row_def intro!: map_idI)
  then show ?case
    using 0(1) by (cases le) (simp_all add: rows_mark_failed)
next
  case (Suc n)
  define s1 where "s1 = (if 0 < att then emit (j_id j) JobStepRetrying (StepData sq (w_name st) att None le) s else s)"
  define s2 where "s2 = snd (call_do j sq att st prior s1)"
  have h1: "healthy s1" and r1: "rows (j_id j) s1 = rows (j_id j) s"
    using Suc.prems(1) by (simp_all add: s1_def healthy_marks row_simps)
  then have h2: "healthy s2" and r2: "rows (j_id j) s2 = rows (j_id j) s"
    by (simp_all add: s2_def healthy_call_do row_simps)
  show ?case
    using Suc.IH [where att = "Suc att" and s = s2, OF h2] Suc.prems(2) h2 r2
    by (simp add: s1_def [symmetric] s2_def [symmetric] split_beta Let_def rows_mark_ok
        split: do_result.splits)
qed

text \<open>One step that is not refused adds exactly its own row, in the state its outcome says.\<close>

lemma rows_runStep:
  assumes "healthy s" and "\<forall>r \<in> set (rows (j_id j) s). fst r \<noteq> sq \<and> fst (snd r) \<noteq> w_name st"
  shows "rows (j_id j) (snd (snd (runStep j sq st prior s))) =
    rows (j_id j) s @ [(sq, w_name st, end_status (fst (runStep j sq st prior s)))]"
proof -
  define r where "r = (if w_irreversible st then assertNoPriorAttempt (j_id j) sq st s else (None, s))"
  have "\<not> recorded (rs_ledger s) (j_id j) sq (w_name st)"
    using assms(2) by (auto simp: recorded_iff rows_def step_rows_def row_view_def)
  then have n: "fst r = None" and h: "healthy (snd r)" and e: "rows (j_id j) (snd r) = rows (j_id j) s"
    using assms(1) by (simp_all add: r_def assert_accepts healthy_marks row_simps)
  define b where "b = begin_step j sq st (snd r)"
  have b: "healthy b" "rows (j_id j) b = rows (j_id j) s @ [(sq, w_name st, StepRunning)]"
    using h e assms(2) by (simp_all add: b_def healthy_marks rows_begin_step)
  have "set_row sq c (rows (j_id j) s) = rows (j_id j) s" for c
    using assms(2) by (auto simp: set_row_def intro!: map_idI)
  then have "set_row sq c (rows (j_id j) b) = rows (j_id j) s @ [(sq, w_name st, c)]" for c
    using b(2) by (simp add: set_row_def)
  with rows_run_attempts [OF b(1), of j sq] b(2) assms(2) n show ?thesis
    by (simp add: runStep_def r_def [symmetric] b_def [symmetric] split_beta)
qed

fun done_rows :: "nat \<Rightarrow> 'w wstep list \<Rightarrow> (nat \<times> string \<times> StepStatus) list" where
  "done_rows sq [] = []"
| "done_rows sq (st # sts) = (sq, w_name st, StepSucceeded) # done_rows (Suc sq) sts"

text \<open>The row of the step at which a run stopped without success.\<close>

fun last_row :: "nat \<Rightarrow> 'w wstep list \<Rightarrow> run_outcome \<Rightarrow> (nat \<times> string \<times> StepStatus) list" where
  "last_row sq sts RunOk = []"
| "last_row sq [] r = []"
| "last_row sq (st # sts) (RunErr e) = [(sq, w_name st, StepFailed)]"
| "last_row sq (st # sts) RunPanic = [(sq, w_name st, StepRunning)]"

text \<open>No row of the job is in the way of the steps from \<open>sq\<close> on.\<close>

definition clear_rows :: "string \<Rightarrow> nat \<Rightarrow> 'w wstep list \<Rightarrow> 'w runner \<Rightarrow> bool" where
  "clear_rows i sq sts s \<longleftrightarrow> (\<forall>r \<in> set (rows i s). fst r < sq \<and> fst (snd r) \<notin> w_name ` set sts)"

lemma clear_rows_step:
  assumes "healthy s" and "clear_rows (j_id j) sq (st # sts) s" and "w_name st \<notin> w_name ` set sts"
    and "runStep j sq st prior s = (out, p, s')"
  shows "healthy s'" and "rows (j_id j) s' = rows (j_id j) s @ [(sq, w_name st, end_status out)]"
    and "clear_rows (j_id j) (Suc sq) sts s'"
proof -
  show "healthy s'"
    using healthy_runStep [OF assms(1), of j sq st prior] assms(4) by simp
  show r: "rows (j_id j) s' = rows (j_id j) s @ [(sq, w_name st, end_status out)]"
    using rows_runStep [OF assms(1), of j sq st prior] assms(2,4) by (auto simp: clear_rows_def)
  show "clear_rows (j_id j) (Suc sq) sts s'"
    using assms(2,3) by (auto simp: clear_rows_def r less_Suc_eq)
qed

lemma rows_run_steps:
  assumes "healthy s" and "clear_rows (j_id j) sq sts s" and "distinct (map w_name sts)"
    and "run_steps j sq sts prior s = (r, s')"
  shows "\<exists>n \<le> length sts. rows (j_id j) s' = rows (j_id j) s @ done_rows sq (take n sts) @ last_row (sq + n) (drop n sts) r
    \<and> (r \<noteq> RunOk \<longrightarrow> n < length sts)"
  using assms
proof (induction sts arbitrary: sq prior s)
  case Nil
  then show ?case by auto
next
  case (Cons st sts)
  obtain out p s1 where r1: "runStep j sq st prior s = (out, p, s1)"
    by (metis prod_cases3)
  have "w_name st \<notin> w_name ` set sts" "distinct (map w_name sts)"
    using Cons.prems(3) by simp_all
  note step = clear_rows_step [OF Cons.prems(1,2) this(1) r1] this(2)
  show ?case
  proof (cases "out = StepDone")
    case True
    with r1 Cons.prems(4) have "run_steps j (Suc sq) sts p s1 = (r, s')" by simp
    from Cons.IH [OF step(1,3,4) this] obtain n where n: "n \<le> length sts"
      "rows (j_id j) s' = rows (j_id j) s1 @ done_rows (Suc sq) (take n sts) @ last_row (Suc sq + n) (drop n sts) r"
      "r \<noteq> RunOk \<longrightarrow> n < length sts" by blast
    then show ?thesis
      using step(2) True by (intro exI [of _ "Suc n"]) simp
  next
    case False
    then show ?thesis
    proof (cases out)
      case StepStopped
      then show ?thesis
        using r1 Cons.prems(4) step(2) by (intro exI [of _ 1]) simp
    qed (use r1 Cons.prems(4) step(2) False in \<open>auto intro!: exI [of _ 0]\<close>)
  qed
qed

section \<open>The world\<close>

lemma spec_run_attempts:
  "(fst (run_attempts n att le j sq st prior s), fst (snd (run_attempts n att le j sq st prior s)),
    rs_world (snd (snd (run_attempts n att le j sq st prior s)))) = spec_attempts n le j st prior (rs_world s)"
proof (induction n arbitrary: att le s)
  case 0
  then show ?case by (cases le) (simp_all add: runner_simps)
next
  case (Suc n)
  define s1 where "s1 = (if 0 < att then emit (j_id j) JobStepRetrying (StepData sq (w_name st) att None le) s else s)"
  have w1: "rs_world s1 = rs_world s"
    by (simp add: s1_def runner_simps)
  obtain d lg w where d: "w_do st (ctx_of j prior) (rs_world s) = (d, lg, w)"
    by (metis prod_cases3)
  have c: "fst (call_do j sq att st prior s1) = d" "rs_world (snd (call_do j sq att st prior s1)) = w"
    using d by (simp_all add: runner_simps w1 ctx_of_def)
  show ?case
    using Suc.IH [where att = "Suc att" and s = "snd (call_do j sq att st prior s1)"]
    by (cases d) (simp_all add: s1_def [symmetric] split_beta Let_def c d marks_fields)
qed

lemma spec_runStep:
  assumes "\<not> w_irreversible st \<or> (healthy s \<and> \<not> recorded (rs_ledger s) (j_id j) sq (w_name st))"
    and "runStep j sq st prior s = (out, p, s')"
  shows "spec_attempts (max_attempts st) None j st prior (rs_world s) = (out, p, rs_world s')"
proof -
  define r where "r = (if w_irreversible st then assertNoPriorAttempt (j_id j) sq st s else (None, s))"
  have "fst r = None" "rs_world (snd r) = rs_world s"
    using assms(1) by (auto simp: r_def assert_accepts runner_simps)
  then show ?thesis
    using assms(2) spec_run_attempts [of "max_attempts st" 0 None j sq st prior "begin_step j sq st (snd r)"]
    by (simp add: runStep_def r_def [symmetric] split_beta runner_simps)
qed

lemma spec_run_steps_free:
  assumes "\<forall>st \<in> set sts. \<not> w_irreversible st"
  shows "(fst (run_steps j sq sts prior s), rs_world (snd (run_steps j sq sts prior s))) =
    spec_steps j sts prior (rs_world s)"
  using assms
proof (induction sts arbitrary: sq prior s)
  case Nil
  then show ?case by simp
next
  case (Cons st sts)
  obtain out p s1 where r1: "runStep j sq st prior s = (out, p, s1)"
    by (metis prod_cases3)
  with spec_runStep [OF _ r1] Cons show ?case
    by (cases out) simp_all
qed

lemma clear_not_recorded:
  "clear_rows (j_id j) sq (st # sts) s \<Longrightarrow> \<not> recorded (rs_ledger s) (j_id j) sq (w_name st)"
  by (auto simp: recorded_iff clear_rows_def rows_def step_rows_def row_view_def)

lemma spec_run_steps_healthy:
  assumes "healthy s" and "clear_rows (j_id j) sq sts s" and "distinct (map w_name sts)"
  shows "(fst (run_steps j sq sts prior s), rs_world (snd (run_steps j sq sts prior s))) =
    spec_steps j sts prior (rs_world s)"
  using assms
proof (induction sts arbitrary: sq prior s)
  case Nil
  then show ?case by simp
next
  case (Cons st sts)
  obtain out p s1 where r1: "runStep j sq st prior s = (out, p, s1)"
    by (metis prod_cases3)
  have "w_name st \<notin> w_name ` set sts" "distinct (map w_name sts)"
    using Cons.prems(3) by simp_all
  note step = clear_rows_step [OF Cons.prems(1,2) this(1) r1] this(2)
  have "spec_attempts (max_attempts st) None j st prior (rs_world s) = (out, p, rs_world s1)"
    using spec_runStep [OF _ r1] Cons.prems(1) clear_not_recorded [OF Cons.prems(2)] by blast
  then show ?case
    using Cons.IH [OF step(1,3,4)] r1 by (cases out) simp_all
qed

lemma run_world:
  assumes "(fst (run_steps j 0 (wf_steps wfl) Map.empty (start_job j s)),
      rs_world (snd (run_steps j 0 (wf_steps wfl) Map.empty (start_job j s)))) =
    spec_steps j (wf_steps wfl) Map.empty (rs_world s)"
  shows "(fst (run j wfl s), rs_world (snd (run j wfl s))) = saga_spec j wfl (rs_world s)"
proof -
  obtain r s' where r: "run_steps j 0 (wf_steps wfl) Map.empty (start_job j s) = (r, s')"
    by (metis prod.exhaust)
  then have "spec_steps j (wf_steps wfl) Map.empty (rs_world s) = (r, rs_world s')"
    using assms by simp
  then show ?thesis
    by (cases r) (simp_all add: run_def r saga_spec_def outcome_error_def finish_ok_def finish_err_def
        split_beta Let_def runner_simps split: option.splits)
qed

section \<open>The job's final status\<close>

text \<open>Between start and finish a run writes aside from the job table.\<close>

lemma aside_trans: "aside_writes l l' \<Longrightarrow> aside_writes l' l'' \<Longrightarrow> aside_writes l l''"
  by (simp add: aside_writes_def)

lemma aside_exec:
  assumes "\<And>k k'. f k = Inr k' \<Longrightarrow> jobs k' = jobs k \<and> db_faults k' = db_faults k"
  shows "aside_writes l (snd (db_exec f l))"
  using assms by (auto simp: aside_writes_def db_exec_def split_beta Let_def split: sum.splits)

lemma aside_ops:
  "aside_writes l (snd (AppendEvent i t d ts l))"
  "aside_writes l (snd (MarkStepSucceeded i sq att res ts l))"
  "aside_writes l (snd (MarkStepFailed i sq e ts l))"
  "aside_writes l (snd (CreateStep q l))"
  "aside_writes l (snd (ListSteps i l))"
  unfolding AppendEvent_def MarkStepSucceeded_def MarkStepFailed_def CreateStep_def ListSteps_def
  by (rule aside_exec, auto split: if_splits)+
    (simp add: aside_writes_def db_query_def split_beta Let_def)

lemma aside_emit: "aside_writes (rs_ledger s) (rs_ledger (emit i t d s))"
  by (simp add: runner_simps aside_ops)

lemma aside_emits:
  "aside_writes (rs_ledger s) (rs_ledger (fold (\<lambda>(lv, m). emit i JobLog (LogData lv m)) logs s))"
proof (induction logs arbitrary: s)
  case Nil
  show ?case by (simp add: aside_writes_def)
next
  case (Cons x logs)
  show ?case
    using aside_trans [OF aside_emit Cons.IH [of "emit i JobLog (LogData (fst x) (snd x)) s"]]
    by (simp add: split_beta)
qed

lemma aside_call_do: "aside_writes (rs_ledger s) (rs_ledger (snd (call_do j sq att st prior s)))"
proof -
  define m where "m = w_do st \<lparr>c_job = j_id j, c_spec = j_spec j, c_prior = prior,
    c_created_by = j_created_by j\<rparr> (rs_world s)"
  define s0 where "s0 = s\<lparr>rs_world := snd (snd m), rs_calls := rs_calls s @ [(j_id j, sq, att)]\<rparr>"
  show ?thesis
    using aside_emits [of s0 "j_id j" "fst (snd m)"]
    by (simp add: call_do_def s0_def m_def split_beta Let_def)
qed

lemma aside_marks:
  "aside_writes (rs_ledger s) (rs_ledger (mark_step_ok j sq att st res s))"
  "aside_writes (rs_ledger s) (rs_ledger (mark_step_failed j sq st e s))"
  "aside_writes (rs_ledger s) (rs_ledger (begin_step j sq st s))"
  unfolding mark_step_ok_def mark_step_failed_def begin_step_def split_beta Let_def
  by (rule aside_trans [OF _ aside_emit], simp add: runner_simps aside_ops)+

lemma aside_run_attempts:
  "aside_writes (rs_ledger s) (rs_ledger (snd (snd (run_attempts n att le j sq st prior s))))"
proof (induction n arbitrary: att le s)
  case 0
  then show ?case by (cases le) (simp_all add: aside_marks, simp add: aside_writes_def)
next
  case (Suc n)
  define s1 where "s1 = (if 0 < att then emit (j_id j) JobStepRetrying (StepData sq (w_name st) att None le) s else s)"
  define s2 where "s2 = snd (call_do j sq att st prior s1)"
  have "aside_writes (rs_ledger s) (rs_ledger s1)"
    by (simp add: s1_def aside_emit) (simp add: aside_writes_def)
  then have "aside_writes (rs_ledger s) (rs_ledger s2)"
    unfolding s2_def using aside_call_do by (rule aside_trans)
  then show ?case
    using aside_trans [OF _ Suc.IH [where att = "Suc att" and s = s2]] aside_trans [OF _ aside_marks(1), of "rs_ledger s" s2]
    by (simp add: s1_def [symmetric] s2_def [symmetric] split_beta Let_def split: do_result.splits)
qed

lemma aside_runStep: "aside_writes (rs_ledger s) (rs_ledger (snd (snd (runStep j sq st prior s))))"
proof -
  define r where "r = (if w_irreversible st then assertNoPriorAttempt (j_id j) sq st s else (None, s))"
  have a: "aside_writes (rs_ledger s) (rs_ledger (snd r))"
    by (simp add: r_def runner_simps aside_ops) (simp add: aside_writes_def)
  show ?thesis
    unfolding runStep_def r_def [symmetric]
    using aside_trans [OF a aside_emit] aside_trans [OF aside_trans [OF a aside_marks(3)] aside_run_attempts]
    by (simp add: split_beta split: option.splits)
qed

lemma aside_run_steps: "aside_writes (rs_ledger s) (rs_ledger (snd (run_steps j sq sts prior s)))"
proof (induction sts arbitrary: sq prior s)
  case Nil
  show ?case by (simp add: aside_writes_def)
next
  case (Cons st sts)
  obtain out p s1 where r1: "runStep j sq st prior s = (out, p, s1)"
    by (metis prod_cases3)
  have "aside_writes (rs_ledger s) (rs_ledger s1)"
    using aside_runStep [of s j sq st prior] r1 by simp
  then show ?case
    using aside_trans [OF _ Cons.IH [where sq = "Suc sq" and prior = p and s = s1]]
    by (cases out) (simp_all add: r1)
qed

lemma status_of_jobs: "jobs l' = jobs l \<Longrightarrow> status_of l' i = status_of l i"
  by (simp add: status_of_def)

lemma jobs_AppendEvent: "jobs (snd (AppendEvent i t d ts l)) = jobs l"
  using aside_ops(1) [of l i t d ts] by (simp add: aside_writes_def)

fun outcome_status :: "run_outcome \<Rightarrow> Status" where
  "outcome_status RunOk = StatusSucceeded"
| "outcome_status (RunErr e) = StatusFailed"
| "outcome_status RunPanic = StatusRunning"

lemma run_status:
  assumes "healthy s" and "status_of (rs_ledger s) (j_id j) \<noteq> None"
  shows "status_of (rs_ledger (snd (run j wfl s))) (j_id j) = Some (outcome_status (fst (run j wfl s)))"
proof -
  define t where "t = rs_clock s (rs_reads s)"
  obtain r s' where r: "run_steps j 0 (wf_steps wfl) Map.empty (start_job j s) = (r, s')"
    by (metis prod.exhaust)
  have "rs_ledger (start_job j s) = snd (AppendEvent (j_id j) JobStarted NoData (rs_clock s (Suc (rs_reads s)))
      (snd (MarkJobStarted (j_id j) t (rs_ledger s))))"
    by (simp add: start_job_def split_beta Let_def emit_def now_def on_ledger_def t_def)
  then have "aside_writes (snd (MarkJobStarted (j_id j) t (rs_ledger s))) (rs_ledger (start_job j s))"
    by (simp add: aside_ops)
  then have a: "aside_writes (snd (MarkJobStarted (j_id j) t (rs_ledger s))) (rs_ledger s')"
    using aside_run_steps [of "start_job j s" j 0 "wf_steps wfl" Map.empty] r by (auto intro: aside_trans)
  have h: "db_faults (rs_ledger s) = []"
    using assms(1) by (simp add: healthy_def)
  define u where "u = rs_clock s' (rs_reads s')"
  have ok: "status_of (snd (MarkJobSucceeded (j_id j) u (rs_ledger s'))) (j_id j) = Some StatusSucceeded"
    and err: "status_of (snd (MarkJobFailed (j_id j) e u (rs_ledger s'))) (j_id j) = Some StatusFailed" for e
    using ledger.lifecycle_succeeded [OF h assms(2) a] ledger.lifecycle_failed [OF h assms(2) a] by blast+
  have run: "status_of (rs_ledger s') (j_id j) = Some StatusRunning"
    using ledger.status_aside [OF a] ledger.status_started [OF h, of "j_id j" t] assms(2) by auto
  show ?thesis
    using ok err run by (cases r) (simp_all add: run_def r finish_ok_def finish_err_def split_beta Let_def
        runner_simps status_of_jobs [OF jobs_AppendEvent] u_def)
qed

lemma rows_finish: "rows i (finish_ok j wfl s) = rows i s" "rows i (finish_err j wfl e s) = rows i s"
  by (simp_all add: rows_def step_rows_def finish_ok_def finish_err_def split_beta Let_def runner_simps
      AppendEvent_def MarkJobSucceeded_def MarkJobFailed_def db_exec_def)

end
