(* ===== verification/Job_Recovery.thy ===== *)
theory Job_Recovery
  imports Job_Rows
begin

text \<open>
  Recovery after a control-plane restart (\<^verbatim>\<open>Runner.Recover\<close>), and the properties of the job
  system: one theorem per promise the comments of \<^verbatim>\<open>saga.go\<close> and \<^verbatim>\<open>store.go\<close> make.
\<close>

section \<open>Recovering one job\<close>

text \<open>The decision the \<^verbatim>\<open>RecoverDecider\<close> takes for a job on the ledger it reads.\<close>

definition deferred :: "(job \<Rightarrow> job_step list \<Rightarrow> RecoverDecision) option \<Rightarrow> job \<Rightarrow> ledger \<Rightarrow> bool" where
  "deferred decider j l = (case decider of None \<Rightarrow> False
     | Some d \<Rightarrow> d j (sql_order s_seq (step_rows l (j_id j))) = RecoverDefer)"

lemma steps_or_none_healthy:
  "healthy s \<Longrightarrow> steps_or_none i s = (sql_order s_seq (step_rows (rs_ledger s) i), s)"
  by (simp add: steps_or_none_def on_ledger_def ListSteps_def healthy_def step_rows_def sql_select_def)

lemma fail_running_fields:
  "rs_workflows (fail_running_steps i ts qs s) = rs_workflows s"
  "rs_calls (fail_running_steps i ts qs s) = rs_calls s"
  "jobs (rs_ledger (fail_running_steps i ts qs s)) = jobs (rs_ledger s)"
  by (induction qs arbitrary: s)
    (simp_all add: runner_simps MarkStepFailed_def db_exec_def split_beta Let_def)

lemma fail_running_healthy: "healthy s \<Longrightarrow> healthy (fail_running_steps i ts qs s)"
  by (induction qs arbitrary: s) (simp_all add: healthy_def runner_simps healthy_ops)

lemma rows_mark_direct:
  assumes "healthy s"
  shows "rows i (snd (on_ledger (MarkStepFailed i sq e ts) s)) = set_row sq StepFailed (rows i s)"
proof -
  let ?f = "\<lambda>q. q\<lparr>s_status := StepFailed, s_finished_at := Some ts, s_error := Some e\<rparr>"
  have "map row_view (filter (\<lambda>q. s_job q = i) (sql_update (\<lambda>q. s_job q = i \<and> s_seq q = sq) ?f (job_steps (rs_ledger s))))
    = set_row sq StepFailed (map row_view (filter (\<lambda>q. s_job q = i) (job_steps (rs_ledger s))))"
    by (rule set_status_rows) (simp_all add: row_view_def)
  then show ?thesis
    using assms by (simp add: rows_def step_rows_def runner_simps healthy_def MarkStepFailed_def)
qed

lemma rows_fail_running:
  assumes "healthy s"
  shows "rows i (fail_running_steps i ts qs s) =
    map (\<lambda>(k, n, t). if \<exists>q \<in> set qs. s_status q = StepRunning \<and> s_seq q = k then (k, n, StepFailed) else (k, n, t)) (rows i s)"
  using assms
proof (induction qs arbitrary: s)
  case Nil
  then show ?case by (auto intro!: map_idI [symmetric])
next
  case (Cons q qs)
  show ?case
  proof (cases "s_status q = StepRunning")
    case True
    let ?s = "snd (on_ledger (MarkStepFailed i (s_seq q) restart_msg ts) s)"
    have "healthy ?s"
      using Cons.prems by (simp add: healthy_def runner_simps healthy_ops)
    from Cons.IH [OF this] show ?thesis
      using True by (auto simp: rows_mark_direct [OF Cons.prems] set_row_def)
  qed (use Cons in simp)
qed

lemma scoped_fail_running: "scoped i (rs_ledger s) (rs_ledger (fail_running_steps i ts qs s))"
proof (induction qs arbitrary: s)
  case Nil
  show ?case by (simp add: scoped_refl)
next
  case (Cons q qs)
  define s1 where "s1 = (if s_status q = StepRunning then snd (on_ledger (MarkStepFailed i (s_seq q) restart_msg ts) s) else s)"
  have "scoped i (rs_ledger s) (rs_ledger s1)"
    by (simp add: s1_def runner_simps scoped_intros)
  with scoped_trans [OF this Cons.IH] show ?case
    by (simp add: s1_def [symmetric])
qed

text \<open>No running row is left, and no other row changes.\<close>

definition closed_row :: "nat \<times> string \<times> StepStatus \<Rightarrow> nat \<times> string \<times> StepStatus" where
  "closed_row r = (fst r, fst (snd r), if snd (snd r) = StepRunning then StepFailed else snd (snd r))"

lemma rows_close:
  assumes "healthy s" and "ledger_inv (rs_ledger s)"
  shows "rows i (fail_running_steps i ts (sql_order s_seq (step_rows (rs_ledger s) i)) s) = map closed_row (rows i s)"
proof -
  have "distinct (map s_seq (step_rows (rs_ledger s) i))"
    using assms(2) by (force simp: ledger_inv_def step_rows_def distinct_map inj_on_def)
  then have "q \<in> set (step_rows (rs_ledger s) i) \<Longrightarrow> p \<in> set (step_rows (rs_ledger s) i) \<Longrightarrow> s_seq q = s_seq p \<Longrightarrow> q = p" for p q
    by (auto simp: distinct_map dest: inj_onD)
  then show ?thesis
    unfolding rows_fail_running [OF assms(1)]
    by (auto simp: rows_def row_view_def closed_row_def)
qed

text \<open>The state in which a job that is not deferred has been failed, before its terminal hook.\<close>

definition fail_mark :: "job \<Rightarrow> 'w runner \<Rightarrow> 'w runner" where
  "fail_mark j s = snd (on_ledger (MarkJobFailed (j_id j) restart_msg (rs_clock s (rs_reads s))) (snd (now s)))"

definition fail_close :: "job \<Rightarrow> 'w runner \<Rightarrow> 'w runner" where
  "fail_close j s = fail_running_steps (j_id j) (rs_clock s (rs_reads s))
     (sql_order s_seq (step_rows (rs_ledger (fail_mark j s)) (j_id j))) (fail_mark j s)"

definition failed_state :: "job \<Rightarrow> 'w runner \<Rightarrow> 'w runner" where
  "failed_state j s = emit (j_id j) JobFailed (RecoveredData restart_msg) (fail_close j s)"

lemma recover_one_eq:
  assumes "healthy s"
  shows "recover_one decider j s = (if deferred decider j (rs_ledger s) then s
    else case workflowFor (failed_state j s) (j_kind j) of None \<Rightarrow> failed_state j s
      | Some wfl \<Rightarrow> fireTerminal wfl (j_id j) False (Some restart_msg) (failed_state j s))"
proof -
  have dec: "(case decider of None \<Rightarrow> (False, s)
      | Some d \<Rightarrow> let (qs, s1) = steps_or_none (j_id j) s in (d j qs = RecoverDefer, s1))
    = (deferred decider j (rs_ledger s), s)"
    using assms by (simp add: deferred_def steps_or_none_healthy split: option.splits)
  have "fst (on_ledger (MarkJobFailed (j_id j) restart_msg (rs_clock s (rs_reads s))) (snd (now s))) = None"
    and "healthy (fail_mark j s)"
    using assms by (simp_all add: fail_mark_def runner_simps healthy_def MarkJobFailed_def)
  then show ?thesis
    unfolding recover_one_def dec
    by (simp add: split_beta Let_def now_fields(1) fail_mark_def [symmetric] steps_or_none_healthy
        failed_state_def fail_close_def split: option.splits)
qed

lemma fail_mark_fields:
  assumes "healthy s"
  shows "healthy (fail_mark j s)" and "rows i (fail_mark j s) = rows i s"
    and "rs_calls (fail_mark j s) = rs_calls s"
    and "scoped (j_id j) (rs_ledger s) (rs_ledger (fail_mark j s))"
  using assms scoped_MarkJobFailed
  by (simp_all add: fail_mark_def runner_simps healthy_def rows_def step_rows_def scoped_intros)
    (simp_all add: MarkJobFailed_def)

lemma failed_state_frame:
  assumes "healthy s"
  shows "healthy (failed_state j s)" and "rs_calls (failed_state j s) = rs_calls s"
    and "scoped (j_id j) (rs_ledger s) (rs_ledger (failed_state j s))"
  using fail_mark_fields [OF assms, where j = j]
    scoped_trans [OF scoped_trans [OF _ scoped_fail_running] scoped_emit]
  by (simp_all add: failed_state_def fail_close_def fail_running_healthy healthy_marks emit_fields(3) fail_running_fields)

lemma failed_state_status:
  assumes "healthy s" and "status_of (rs_ledger s) (j_id j) \<noteq> None"
  shows "status_of (rs_ledger (failed_state j s)) (j_id j) = Some StatusFailed"
proof -
  have "jobs (rs_ledger (failed_state j s)) =
      jobs (snd (MarkJobFailed (j_id j) restart_msg (rs_clock s (rs_reads s)) (rs_ledger s)))"
    by (simp add: failed_state_def fail_close_def fail_mark_def runner_simps jobs_AppendEvent fail_running_fields)
  from status_of_jobs [OF this] show ?thesis
    using assms ledger.status_failed [of "rs_ledger s" "j_id j" restart_msg "rs_clock s (rs_reads s)" "j_id j"]
    by (auto simp: healthy_def)
qed

lemma failed_state_rows:
  assumes "healthy s" and "ledger_inv (rs_ledger s)"
  shows "rows (j_id j) (failed_state j s) = map closed_row (rows (j_id j) s)"
proof -
  note m = fail_mark_fields [OF assms(1), where j = j]
  have "ledger_inv (rs_ledger (fail_mark j s))"
    using assms(2) m(4) by (simp add: scoped_def)
  with rows_close [OF m(1) this, of "j_id j"] m(1,2) show ?thesis
    by (simp add: failed_state_def fail_close_def rows_emit fail_running_healthy)
qed

lemma recover_one_ledger:
  "healthy s \<Longrightarrow> rs_ledger (recover_one decider j s) =
     (if deferred decider j (rs_ledger s) then rs_ledger s else rs_ledger (failed_state j s))"
  by (simp add: recover_one_eq fireTerminal_fields split: option.splits)

lemma recover_one_frame:
  assumes "healthy s"
  shows "healthy (recover_one decider j s)" and "rs_calls (recover_one decider j s) = rs_calls s"
    and "scoped (j_id j) (rs_ledger s) (rs_ledger (recover_one decider j s))"
  using failed_state_frame [OF assms, of j] assms
  by (auto simp: healthy_def recover_one_ledger scoped_refl)
    (simp add: recover_one_eq healthy_def fireTerminal_fields split: option.splits)

section \<open>Recovering the whole ledger\<close>

lemma scoped_other_status: "scoped i l l' \<Longrightarrow> k \<noteq> i \<Longrightarrow> status_of l' k = status_of l k"
  by (simp add: status_of_def scoped_other_job)

lemma scoped_other_rows: "scoped i l l' \<Longrightarrow> k \<noteq> i \<Longrightarrow> step_rows l' k = step_rows l k"
  by (simp add: step_rows_def scoped_other_steps)

lemma recover_fold_frame:
  assumes "healthy s"
  shows "healthy (fold (recover_one decider) js s) \<and> rs_calls (fold (recover_one decider) js s) = rs_calls s
    \<and> (ledger_inv (rs_ledger s) \<longrightarrow> ledger_inv (rs_ledger (fold (recover_one decider) js s)))
    \<and> (\<forall>k. k \<notin> j_id ` set js \<longrightarrow>
          status_of (rs_ledger (fold (recover_one decider) js s)) k = status_of (rs_ledger s) k
        \<and> step_rows (rs_ledger (fold (recover_one decider) js s)) k = step_rows (rs_ledger s) k)"
  using assms
proof (induction js arbitrary: s)
  case Nil
  then show ?case by simp
next
  case (Cons j js)
  note f = recover_one_frame [OF Cons.prems, where decider = decider and j = j]
  have "ledger_inv (rs_ledger s) \<longrightarrow> ledger_inv (rs_ledger (recover_one decider j s))"
    using f(3) by (simp add: scoped_def)
  with Cons.IH [OF f(1)] f(2) scoped_other_status [OF f(3)] scoped_other_rows [OF f(3)] show ?case
    by auto
qed

lemma deferred_cong: "step_rows l' (j_id j) = step_rows l (j_id j) \<Longrightarrow> deferred decider j l' = deferred decider j l"
  by (cases decider) (simp_all add: deferred_def)

lemma rows_cong: "step_rows (rs_ledger s') i = step_rows (rs_ledger s) i \<Longrightarrow> rows i s' = rows i s"
  by (simp add: rows_def)

lemma recover_fold_one:
  fixes s :: "'w runner" and decider :: "(job \<Rightarrow> job_step list \<Rightarrow> RecoverDecision) option"
  assumes "healthy s" and "ledger_inv (rs_ledger s)" and "distinct (map j_id js)" and "j \<in> set js"
    and "status_of (rs_ledger s) (j_id j) \<noteq> None"
  defines "s' \<equiv> fold (recover_one decider) js s"
  shows "if deferred decider j (rs_ledger s)
    then status_of (rs_ledger s') (j_id j) = status_of (rs_ledger s) (j_id j) \<and> rows (j_id j) s' = rows (j_id j) s
    else status_of (rs_ledger s') (j_id j) = Some StatusFailed \<and> rows (j_id j) s' = map closed_row (rows (j_id j) s)"
proof -
  obtain js1 js2 where js: "js = js1 @ j # js2"
    using split_list [OF assms(4)] by blast
  have notin: "j_id j \<notin> j_id ` set js1" "j_id j \<notin> j_id ` set js2"
    using assms(3) by (auto simp: js)
  define s1 where "s1 = fold (recover_one decider) js1 s"
  define s2 where "s2 = recover_one decider j s1"
  have s': "s' = fold (recover_one decider) js2 s2"
    unfolding s'_def js s1_def s2_def by simp
  have one: "healthy s1" "ledger_inv (rs_ledger s1)" "status_of (rs_ledger s1) (j_id j) = status_of (rs_ledger s) (j_id j)"
    "step_rows (rs_ledger s1) (j_id j) = step_rows (rs_ledger s) (j_id j)"
    using recover_fold_frame [OF assms(1), of decider js1, folded s1_def] notin(1) assms(2) by blast+
  have h2: "healthy s2"
    unfolding s2_def by (rule recover_one_frame(1) [OF one(1)])
  have two: "status_of (rs_ledger s') (j_id j) = status_of (rs_ledger s2) (j_id j)" "rows (j_id j) s' = rows (j_id j) s2"
    using recover_fold_frame [OF h2, of decider js2, folded s'] notin(2) by (blast intro: rows_cong)+
  have r1: "rows (j_id j) s1 = rows (j_id j) s" and d1: "deferred decider j (rs_ledger s1) = deferred decider j (rs_ledger s)"
    by (rule rows_cong [OF one(4)], rule deferred_cong [OF one(4)])
  show ?thesis
  proof (cases "deferred decider j (rs_ledger s)")
    case True
    then have "rs_ledger s2 = rs_ledger s1"
      by (simp add: s2_def recover_one_ledger [OF one(1)] d1)
    then show ?thesis
      using True two one(3) r1 by (simp add: rows_def)
  next
    case False
    then have l2: "rs_ledger s2 = rs_ledger (failed_state j s1)"
      by (simp add: s2_def recover_one_ledger [OF one(1)] d1)
    then have "rows (j_id j) s2 = rows (j_id j) (failed_state j s1)"
      by (simp add: rows_def)
    then have "rows (j_id j) s2 = map closed_row (rows (j_id j) s)"
      by (simp only: failed_state_rows [OF one(1,2)] r1)
    then show ?thesis
      using False two l2 failed_state_status [OF one(1), of j] one(3) assms(5) by simp
  qed
qed

section \<open>No panic, one hook\<close>

lemma run_attempts_no_panic:
  "fst (run_attempts n att le j sq st prior s) = StepPanic \<Longrightarrow> n = 0 \<and> le = None"
proof (induction n arbitrary: att le s)
  case 0
  then show ?case by (cases le) simp_all
next
  case (Suc n)
  then show ?case by (auto simp: split_beta Let_def split: do_result.splits)
qed

lemma runStep_no_panic:
  assumes "w_irreversible st \<or> 0 \<le> w_retries st"
  shows "fst (runStep j sq st prior s) \<noteq> StepPanic"
proof -
  have "max_attempts st \<noteq> 0"
    using assms by (auto simp: max_attempts_def)
  then have "fst (run_attempts (max_attempts st) 0 None j sq st prior s1) \<noteq> StepPanic" for s1
    by (auto dest: run_attempts_no_panic)
  then show ?thesis
    by (simp add: runStep_def split_beta split: option.splits)
qed

lemma run_steps_no_panic:
  assumes "\<forall>st \<in> set sts. w_irreversible st \<or> 0 \<le> w_retries st"
  shows "fst (run_steps j sq sts prior s) \<noteq> RunPanic"
  using assms
proof (induction sts arbitrary: sq prior s)
  case Nil
  then show ?case by simp
next
  case (Cons st sts)
  obtain out p s' where r: "runStep j sq st prior s = (out, p, s')"
    by (metis prod_cases3)
  with runStep_no_panic [of st j sq prior s] Cons show ?case
    by (cases out) simp_all
qed

lemma run_outcome_eq: "fst (run j wfl s) = fst (run_steps j 0 (wf_steps wfl) Map.empty (start_job j s))"
  by (simp add: run_def split: prod.splits run_outcome.splits)

lemma hooks_run_attempts: "rs_hooks (snd (snd (run_attempts n att le j sq st prior s))) = rs_hooks s"
  by (induction n arbitrary: att le s)
    (simp_all add: split_beta Let_def runner_simps split: option.splits do_result.splits)

lemma hooks_runStep: "rs_hooks (snd (snd (runStep j sq st prior s))) = rs_hooks s"
  by (simp add: runStep_def split_beta hooks_run_attempts runner_simps split: option.splits)

lemma hooks_run_steps: "rs_hooks (snd (run_steps j sq sts prior s)) = rs_hooks s"
proof (induction sts arbitrary: sq prior s)
  case Nil
  then show ?case by simp
next
  case (Cons st sts)
  obtain out p s' where r: "runStep j sq st prior s = (out, p, s')"
    by (metis prod_cases3)
  with hooks_runStep [of j sq st prior s] Cons.IH [where sq = "Suc sq" and prior = p and s = s'] show ?case
    by (cases out) simp_all
qed

lemma hooks_run:
  "rs_hooks (snd (run j wfl s)) = rs_hooks s @
     (if wf_on_terminal wfl = None \<or> fst (run j wfl s) = RunPanic then []
      else [(j_id j, fst (run j wfl s) = RunOk, outcome_error (fst (run j wfl s)))])"
proof -
  obtain r s' where r: "run_steps j 0 (wf_steps wfl) Map.empty (start_job j s) = (r, s')"
    by (metis prod.exhaust)
  then have "rs_hooks s' = rs_hooks s"
    using hooks_run_steps [of j 0 "wf_steps wfl" Map.empty "start_job j s"] by (simp add: runner_simps)
  then show ?thesis
    by (cases r) (simp_all add: run_def r finish_ok_def finish_err_def split_beta Let_def runner_simps outcome_error_def)
qed

end
