(* ===== verification/Job_Props.thy ===== *)
theory Job_Props
  imports Job_Recovery
begin

text \<open>
  The properties of the job system, each with a concrete run that meets its hypotheses.  The
  example workflow creates a volume (retried) and then writes an image (irreversible); the world
  is the list of effects that happened, and an effect on the oracle list fails.
\<close>

section \<open>An example workflow\<close>

type_synonym demo_world = "bool list \<times> string list"

text \<open>A step that performs its effect, or fails when the oracle says so.\<close>

definition demo_do :: "string \<Rightarrow> step_ctx \<Rightarrow> demo_world \<Rightarrow> do_result \<times> (string \<times> string) list \<times> demo_world" where
  "demo_do nm c w = (case fst w of
     True # bs \<Rightarrow> (DoErr ''failed'', [], (bs, snd w))
   | _ \<Rightarrow> (DoOk (Some nm), [(''info'', nm)], (tl (fst w), snd w @ [nm])))"

definition demo_workflow :: "demo_world workflow" where
  "demo_workflow = \<lparr>wf_kind = ''demo'', wf_steps =
     [\<lparr>w_name = ''volume'', w_do = demo_do ''volume'', w_timeout = 0, w_retries = 1, w_irreversible = False\<rparr>,
      \<lparr>w_name = ''image'', w_do = demo_do ''image'', w_timeout = 0, w_retries = 0, w_irreversible = True\<rparr>],
     wf_on_terminal = Some (\<lambda>i ok e w. (fst w, snd w @ [''hook'']))\<rparr>"

definition demo_job :: "string \<Rightarrow> Status \<Rightarrow> job" where
  "demo_job i st = \<lparr>j_id = i, j_kind = ''demo'', j_spec = ''{}'', j_status = st, j_created_by = ''admin'',
     j_created_at = 0, j_started_at = None, j_finished_at = None, j_parent = None, j_error = None\<rparr>"

definition demo_ledger :: ledger where
  "demo_ledger = \<lparr>jobs = [demo_job ''a'' StatusQueued, demo_job ''b'' StatusRunning, demo_job ''c'' StatusSucceeded],
     job_steps = [\<lparr>s_job = ''b'', s_seq = 0, s_name = ''volume'', s_status = StepRunning, s_started_at = Some 1,
       s_finished_at = None, s_attempt = 0, s_result = None, s_error = None\<rparr>],
     job_events = [], db_faults = []\<rparr>"

definition demo_runner :: "bool list \<Rightarrow> demo_world runner" where
  "demo_runner fails = \<lparr>rs_ledger = demo_ledger, rs_bus = [], rs_clock = int, rs_reads = 0,
     rs_ids = (\<lambda>n. replicate (Suc n) CHR ''x''), rs_minted = 0, rs_workflows = [(''demo'', demo_workflow)],
     rs_spawned = [], rs_world = (fails, []), rs_calls = [], rs_hooks = []\<rparr>"

lemmas demo_defs = demo_runner_def demo_ledger_def demo_job_def demo_workflow_def

lemma demo_facts:
  "j_id (demo_job i st) = i" "step_rows (rs_ledger (demo_runner fs)) ''a'' = []"
  "distinct (map w_name (wf_steps demo_workflow))" "length (wf_steps demo_workflow) = 2"
  by (simp_all add: demo_defs step_rows_def)

lemma demo_healthy: "healthy (demo_runner fs)"
  by (simp add: healthy_def demo_defs)

section \<open>Properties\<close>

text \<open>C1: an irreversible step whose effect a run triggered is never triggered again.  Let a run on
  a healthy ledger invoke the irreversible step \<open>k\<close> of a job.  However often the job is executed
  again afterwards, and whichever database statements fail during those executions, the step's
  \<^verbatim>\<open>Do\<close> has been called exactly once in total.\<close>

theorem irreversible_exactly_once:
  assumes "healthy s" and "w_irreversible (wf_steps wfl ! k)"
    and "calls_of (j_id j) k (snd (run j wfl s)) \<noteq> calls_of (j_id j) k s"
  shows "calls_of (j_id j) k (replays j wfl fss (snd (run j wfl s))) = calls_of (j_id j) k s + 1"
proof -
  note rec = run_records [OF assms(1,3)]
  have "calls_of (j_id j) k (snd (run j wfl s)) \<le> calls_of (j_id j) k s + 1"
    using run_steps_calls [of j k 0 "wf_steps wfl" Map.empty "start_job j s"] rec(1) assms(2)
    by (simp add: calls_of_run max_attempts_def)
  moreover have "calls_of (j_id j) k s \<le> calls_of (j_id j) k (snd (run j wfl s))"
    by (rule calls_of_run_mono)
  ultimately show ?thesis
    using replays_silent [OF rec(2,1) assms(2)] assms(3) by simp
qed

theorem irreversible_exactly_once_witness:
  "calls_of ''a'' 1 (replays (demo_job ''a'' StatusQueued) demo_workflow [[], [True, False, True]]
     (snd (run (demo_job ''a'' StatusQueued) demo_workflow (demo_runner [])))) = 1"
proof -
  have "calls_of (j_id (demo_job ''a'' StatusQueued)) 1 (snd (run (demo_job ''a'' StatusQueued) demo_workflow (demo_runner [])))
      \<noteq> calls_of (j_id (demo_job ''a'' StatusQueued)) 1 (demo_runner [])"
    by code_simp
  from irreversible_exactly_once [OF demo_healthy _ this, of "[[], [True, False, True]]"] show ?thesis
    by (simp add: demo_defs calls_of_def)
qed





text \<open>the ledger tells which steps ran.  On a healthy ledger with no step of the job, a run
  leaves one row per step it executed, in order: the executed steps succeeded, except that a run
  that failed leaves its last step failed; a step that was not reached has no row.\<close>

theorem run_step_rows:
  assumes "healthy s" and "step_rows (rs_ledger s) (j_id j) = []" and "distinct (map w_name (wf_steps wfl))"
  shows "\<exists>n \<le> length (wf_steps wfl).
    rows (j_id j) (snd (run j wfl s)) = done_rows 0 (take n (wf_steps wfl)) @ last_row n (drop n (wf_steps wfl)) (fst (run j wfl s))
    \<and> (fst (run j wfl s) \<noteq> RunOk \<longrightarrow> n < length (wf_steps wfl))"
proof -
  obtain r s' where r: "run_steps j 0 (wf_steps wfl) Map.empty (start_job j s) = (r, s')"
    by (metis prod.exhaust)
  have e: "rows (j_id j) (start_job j s) = []"
    using assms(2) rows_start_job [OF assms(1), of "j_id j" j] by (simp add: rows_def)
  then have "clear_rows (j_id j) 0 (wf_steps wfl) (start_job j s)"
    by (simp add: clear_rows_def)
  from rows_run_steps [OF healthy_marks(5) [OF assms(1)] this assms(3) r] e obtain n where n: "n \<le> length (wf_steps wfl)"
    "rows (j_id j) s' = done_rows 0 (take n (wf_steps wfl)) @ last_row n (drop n (wf_steps wfl)) r"
    "r \<noteq> RunOk \<longrightarrow> n < length (wf_steps wfl)" by auto
  have "fst (run j wfl s) = r"
    by (simp add: run_outcome_eq r)
  moreover have "rows (j_id j) (snd (run j wfl s)) = rows (j_id j) s'"
    using r rows_finish [of "j_id j" j wfl] by (cases r) (simp_all add: run_def)
  ultimately show ?thesis
    using n by auto
qed

theorem run_step_rows_witness:
  "\<exists>n \<le> 2. rows ''a'' (snd (run (demo_job ''a'' StatusQueued) demo_workflow (demo_runner [False, True])))
     = done_rows 0 (take n (wf_steps demo_workflow))
        @ last_row n (drop n (wf_steps demo_workflow)) (fst (run (demo_job ''a'' StatusQueued) demo_workflow (demo_runner [False, True])))"
  using run_step_rows [OF demo_healthy, of "[False, True]" "demo_job ''a'' StatusQueued" demo_workflow]
  by (auto simp: demo_facts)

text \<open>a run stays within its job.  Whatever the steps do and whichever statements fail, a run
  keeps the primary keys of the ledger unique, changes no row of another job, adds no job, deletes
  and renames no step row, and appends only events of its own job.\<close>

theorem run_only_its_job: "scoped (j_id j) (rs_ledger s) (rs_ledger (snd (run j wfl s)))"
  by (rule scoped_run)

text \<open>a step is attempted at most as often as it declares: one plus its retries, once if it is
  irreversible, and never if the workflow has no such step, under any database failures.\<close>

theorem attempts_bounded:
  "calls_of (j_id j) k (snd (run j wfl s)) \<le> calls_of (j_id j) k s +
     (if k < length (wf_steps wfl) then max_attempts (wf_steps wfl ! k) else 0)"
  using run_steps_calls [of j k 0 "wf_steps wfl" Map.empty "start_job j s"]
  by (auto simp: calls_of_run split: if_splits)



text \<open>submission.  An accepted submission adds exactly one row, queued and carrying the encoded
  spec, and starts exactly one run, of the registered workflow; a refused one (raw bytes, a spec
  type that carries a secret, a marshal error, an unknown kind, a prepare that fails or a database
  error) adds no row and starts nothing, so no secret-bearing spec reaches the ledger.\<close>

theorem submit_all_or_nothing:
  "case Submit kind sp by s of
     (Inl e, s') \<Rightarrow> jobs (rs_ledger s') = jobs (rs_ledger s) \<and> rs_spawned s' = rs_spawned s
   | (Inr j, s') \<Rightarrow> encodeSpec kind sp = Inr (j_spec j) \<and> j_kind j = kind \<and> j_status j = StatusQueued
       \<and> (\<forall>m. sp \<noteq> SpecTyped True m) \<and> (\<forall>b. sp \<noteq> SpecRaw b)
       \<and> jobs (rs_ledger s') = jobs (rs_ledger s) @ [j]
       \<and> (\<exists>wfl. workflowFor s kind = Some wfl \<and> rs_spawned s' = rs_spawned s @ [(j, wfl)])"
  by (auto simp: Submit_def submit_def create_def encodeSpec_def split_beta Let_def CreateJob_def db_exec_def
      runner_simps jobs_AppendEvent split: spec_arg.splits sum.splits option.splits if_splits)

text \<open>recording a job that finished elsewhere.  A job that is not finished is refused; otherwise,
  unless the database fails, the job is in the ledger afterwards, recording it again changes
  nothing and reports that it was not inserted, so a record delivered twice is kept once.\<close>

theorem record_finished_once:
  "case RecordFinishedJob j l of
     (Inl (NotTerminal st), l') \<Rightarrow> st = j_status j \<and> \<not> terminal st \<and> l' = l
   | (Inl (RecordDb e), l') \<Rightarrow> jobs l' = jobs l
   | (Inr fresh, l') \<Rightarrow> terminal (j_status j)
       \<and> (fresh \<longleftrightarrow> j_id j \<notin> j_id ` set (jobs l))
       \<and> jobs l' = jobs l @ (if fresh then [j\<lparr>j_parent := None\<rparr>] else [])
       \<and> RecordFinishedJob j (l'\<lparr>db_faults := []\<rparr>) = (Inr False, l'\<lparr>db_faults := []\<rparr>)"
  by (auto simp: RecordFinishedJob_def db_exec_def split_beta Let_def split: if_splits)

section \<open>Limits of the guarantees\<close>

text \<open>
  The record an irreversible step leaves is written before the step runs, but a failed write is
  only logged: if the statement that creates the row fails, the step runs unrecorded and a second
  execution of the job is not refused.
\<close>

lemma unrecorded_step_runs_twice:
  "calls_of ''a'' 1 (replays (demo_job ''a'' StatusQueued) demo_workflow
     [[False, False, False, False, False, False, False, False, True, False, False, False, False, False], []] (demo_runner [])) = 2"
  by code_simp

text \<open>
  A workflow whose step declares fewer than zero retries passes validation, and the attempt loop
  then never runs: the error the code reports afterwards is that of no attempt, a nil dereference.
\<close>

lemma negative_retries_panic:
  "let st = \<lparr>w_name = ''x'', w_do = demo_do ''x'', w_timeout = 0, w_retries = - 1, w_irreversible = False\<rparr>;
       w = \<lparr>wf_kind = ''k'', wf_steps = [st], wf_on_terminal = None\<rparr>
   in ValidateWorkflow w = None \<and> fst (run (demo_job ''a'' StatusQueued) w (demo_runner [])) = RunPanic"
  by code_simp

end
