(* ===== verification/Node_Registry.thy ===== *)
theory Node_Registry
  imports Prelude "HOL-Library.AList"
begin

text \<open>
  The in-memory node registry (\<^verbatim>\<open>api/internal/inventory/registry.go\<close>): one entry per node with its
  membership, its live token hashes, its last-seen time and its registered keys, and the reverse
  index from a key to its owner.  A Go map is an association list with distinct keys, so an
  iteration in Go's unspecified order is an iteration over some list, and a theorem about an
  arbitrary list holds for every order.  The hooks \<^verbatim>\<open>OnNodeExcluded\<close> and \<^verbatim>\<open>OnKeysRetired\<close> are what
  \<open>update\<close> returns besides the registry: the nodes that stopped being admitted and the key hashes
  that stopped being registered, in the order the code runs the hooks.
\<close>

section \<open>Entries\<close>

type_synonym NodeRole = string
type_synonym NodeKeyPurpose = string
type_synonym NodeKeys = "(NodeKeyPurpose \<times> string) list"

record RegistryEntry =
  Member :: bool
  Role :: NodeRole
  TokenLive :: bool
  LastSeen :: gotime
  tokens :: "string set"
  Keys :: NodeKeys

record KeyOwner =
  ko_node :: string
  ko_purpose :: NodeKeyPurpose

record Registry =
  entries :: "(string \<times> RegistryEntry) list"
  byKey :: "(string \<times> KeyOwner) list"
  membersLoaded :: bool
  tokensLoaded :: bool

definition entry_admitted :: "RegistryEntry option \<Rightarrow> bool" where
  "entry_admitted e = (case e of None \<Rightarrow> False | Some x \<Rightarrow> Member x \<and> TokenLive x)"

definition entry_empty :: "RegistryEntry \<Rightarrow> bool" where
  "entry_empty e \<longleftrightarrow> \<not> Member e \<and> \<not> TokenLive e \<and> IsZero (LastSeen e) \<and> Keys e = []"

definition new_entry :: RegistryEntry where
  "new_entry = \<lparr>Member = False, Role = [], TokenLive = False, LastSeen = zero_time, tokens = {}, Keys = []\<rparr>"

definition NewRegistry :: Registry where
  "NewRegistry = \<lparr>entries = [], byKey = [], membersLoaded = False, tokensLoaded = False\<rparr>"

abbreviation entry_of :: "Registry \<Rightarrow> string \<Rightarrow> RegistryEntry option" where
  "entry_of r n \<equiv> map_of (entries r) n"

section \<open>Questions\<close>

definition Loaded :: "Registry \<Rightarrow> bool" where
  "Loaded r \<longleftrightarrow> membersLoaded r \<and> tokensLoaded r"

definition Admitted :: "Registry \<Rightarrow> string \<Rightarrow> bool" where
  "Admitted r n \<longleftrightarrow> Loaded r \<and> entry_admitted (entry_of r n)"

definition TokenAdmits :: "Registry \<Rightarrow> string \<Rightarrow> string \<Rightarrow> bool" where
  "TokenAdmits r n h \<longleftrightarrow>
     (if n = [] \<or> h = [] then False
      else if \<not> Loaded r then False
      else case entry_of r n of None \<Rightarrow> False | Some e \<Rightarrow> h \<in> tokens e)"

definition KeyOwner_of :: "Registry \<Rightarrow> string \<Rightarrow> KeyOwner option" where
  "KeyOwner_of r spki = (if spki = [] then None else map_of (byKey r) spki)"

definition AdmitKey :: "Registry \<Rightarrow> string \<Rightarrow> KeyOwner option" where
  "AdmitKey r spki =
     (if spki = [] then None
      else if \<not> Loaded r then None
      else case map_of (byKey r) spki of
             None \<Rightarrow> None
           | Some w \<Rightarrow> if entry_admitted (entry_of r (ko_node w)) then Some w else None)"

definition IsMember :: "Registry \<Rightarrow> string \<Rightarrow> bool" where
  "IsMember r n \<longleftrightarrow> membersLoaded r \<and> (case entry_of r n of None \<Rightarrow> False | Some e \<Rightarrow> Member e)"

definition Members :: "Registry \<Rightarrow> (string \<times> NodeRole \<times> gotime) list" where
  "Members r = (if \<not> membersLoaded r then []
     else sort_key fst (map (\<lambda>(n, e). (n, Role e, LastSeen e)) (filter (\<lambda>(n, e). Member e) (entries r))))"

definition MemberCount :: "Registry \<Rightarrow> nat" where
  "MemberCount r = length (filter (\<lambda>(n, e). Member e) (entries r))"

definition lastSeen :: "Registry \<Rightarrow> string \<Rightarrow> gotime" where
  "lastSeen r n = (case entry_of r n of None \<Rightarrow> zero_time | Some e \<Rightarrow> LastSeen e)"

section \<open>Changes\<close>

definition Touch :: "string \<Rightarrow> gotime \<Rightarrow> Registry \<Rightarrow> bool \<times> Registry" where
  "Touch n t r =
     (if \<not> membersLoaded r then (False, r)
      else case entry_of r n of
             None \<Rightarrow> (False, r)
           | Some e \<Rightarrow>
               if \<not> Member e then (False, r)
               else (True, if LastSeen e < t then r\<lparr>entries := AList.update n (e\<lparr>LastSeen := t\<rparr>) (entries r)\<rparr> else r))"

text \<open>
  \<^verbatim>\<open>reindexKeysLocked\<close>: the keys of \<open>before\<close> that \<open>after\<close> no longer holds under the same purpose are
  dropped from the index if this node owns the index entry, then the new ones are entered.
\<close>

definition key_at :: "NodeKeys \<Rightarrow> NodeKeyPurpose \<Rightarrow> string" where
  "key_at ks p = (case map_of ks p of None \<Rightarrow> [] | Some h \<Rightarrow> h)"

definition gone_keys :: "NodeKeys \<Rightarrow> NodeKeys \<Rightarrow> NodeKeys" where
  "gone_keys before after = filter (\<lambda>(p, spki). key_at after p \<noteq> spki) before"

definition drop_key :: "string \<Rightarrow> string \<Rightarrow> (string \<times> KeyOwner) list \<Rightarrow> (string \<times> KeyOwner) list" where
  "drop_key n spki ix = (case map_of ix spki of
     None \<Rightarrow> ix | Some w \<Rightarrow> if ko_node w = n then AList.delete spki ix else ix)"

definition reindexKeysLocked :: "string \<Rightarrow> NodeKeys \<Rightarrow> NodeKeys \<Rightarrow> (string \<times> KeyOwner) list
    \<Rightarrow> string list \<times> (string \<times> KeyOwner) list" where
  "reindexKeysLocked n before after ix =
     (let gone = map snd (gone_keys before after);
          dropped = fold (drop_key n) gone ix
      in (sort gone, fold (\<lambda>(p, spki). AList.update spki \<lparr>ko_node = n, ko_purpose = p\<rparr>) (gone_keys after before) dropped))"

text \<open>One node of \<^verbatim>\<open>update\<close>: whether it was excluded, and the hashes it retired.\<close>

definition update_one :: "(string \<Rightarrow> RegistryEntry \<Rightarrow> RegistryEntry) \<Rightarrow> string \<Rightarrow> Registry
    \<Rightarrow> bool \<times> string list \<times> Registry" where
  "update_one change n r =
     (let old = entry_of r n;
          e0 = (case old of None \<Rightarrow> new_entry | Some x \<Rightarrow> x);
          e1 = change n e0;
          e2 = e1\<lparr>TokenLive := (tokens e1 \<noteq> {})\<rparr>;
          ents = (if entry_empty e2 then AList.delete n (entries r) else AList.update n e2 (entries r));
          (gone, ix) = reindexKeysLocked n (Keys e0) (Keys e2) (byKey r)
      in (entry_admitted old \<and> \<not> entry_admitted (Some e2), gone, r\<lparr>entries := ents, byKey := ix\<rparr>))"

fun update_all :: "(string \<Rightarrow> RegistryEntry \<Rightarrow> RegistryEntry) \<Rightarrow> string list \<Rightarrow> Registry
    \<Rightarrow> string list \<times> (string \<times> string list) list \<times> Registry" where
  "update_all change [] r = ([], [], r)"
| "update_all change (n # ns) r =
     (let (ex, gone, r1) = update_one change n r;
          (exs, gones, r2) = update_all change ns r1
      in ((if ex then n # exs else exs), (if gone = [] then gones else (n, gone) # gones), r2))"

definition update :: "((string \<times> RegistryEntry) list \<Rightarrow> string list) \<Rightarrow> (string \<Rightarrow> RegistryEntry \<Rightarrow> RegistryEntry)
    \<Rightarrow> Registry \<Rightarrow> string list \<times> (string \<times> string list) list \<times> Registry" where
  "update ids change r = update_all change (ids (entries r)) r"

definition setKeys :: "string \<Rightarrow> NodeKeys \<Rightarrow> Registry \<Rightarrow> string list \<times> (string \<times> string list) list \<times> Registry" where
  "setKeys n ks = update (\<lambda>_. [n]) (\<lambda>_ e. e\<lparr>Keys := ks\<rparr>)"

definition setMember :: "string \<Rightarrow> NodeRole \<Rightarrow> bool \<Rightarrow> gotime \<Rightarrow> Registry
    \<Rightarrow> string list \<times> (string \<times> string list) list \<times> Registry" where
  "setMember n role member seen = update (\<lambda>_. [n]) (\<lambda>_ e.
     let e1 = e\<lparr>Member := member, Role := (if member then role else [])\<rparr>;
         e2 = (if LastSeen e1 < seen then e1\<lparr>LastSeen := seen\<rparr> else e1)
     in if \<not> member then e2\<lparr>LastSeen := zero_time, Keys := []\<rparr> else e2)"

definition setTokens :: "string list \<Rightarrow> RegistryEntry \<Rightarrow> RegistryEntry" where
  "setTokens hs e = e\<lparr>tokens := set (filter (\<lambda>h. h \<noteq> []) hs)\<rparr>"

definition SetLiveTokens :: "string \<Rightarrow> string list \<Rightarrow> Registry
    \<Rightarrow> string list \<times> (string \<times> string list) list \<times> Registry" where
  "SetLiveTokens n hs = update (\<lambda>_. [n]) (\<lambda>_ e. setTokens hs e)"

definition live_at :: "(string \<times> string list) list \<Rightarrow> string \<Rightarrow> string list" where
  "live_at live n = (case map_of live n of None \<Rightarrow> [] | Some hs \<Rightarrow> hs)"

definition ReplaceLiveTokens :: "(string \<times> string list) list \<Rightarrow> Registry
    \<Rightarrow> string list \<times> (string \<times> string list) list \<times> Registry" where
  "ReplaceLiveTokens live r =
     (let (exs, gones, r1) = update
        (\<lambda>es. map fst es @ filter (\<lambda>n. map_of es n = None) (map fst live))
        (\<lambda>n e. setTokens (live_at live n) e) r
      in (exs, gones, r1\<lparr>tokensLoaded := True\<rparr>))"

section \<open>Invariant\<close>

text \<open>
  The two maps have distinct keys, \<^verbatim>\<open>TokenLive\<close> is derived from the token set, no empty hash is
  stored, and every index entry names a key its owner has registered for that purpose.
\<close>

definition keys_ok :: "NodeKeys \<Rightarrow> bool" where
  "keys_ok ks \<longleftrightarrow> distinct (map fst ks) \<and> [] \<notin> snd ` set ks"

definition entry_ok :: "RegistryEntry \<Rightarrow> bool" where
  "entry_ok e \<longleftrightarrow> TokenLive e = (tokens e \<noteq> {}) \<and> [] \<notin> tokens e \<and> keys_ok (Keys e)"

definition index_sound :: "Registry \<Rightarrow> bool" where
  "index_sound r \<longleftrightarrow> (\<forall>spki w. map_of (byKey r) spki = Some w \<longrightarrow>
     (\<exists>e. entry_of r (ko_node w) = Some e \<and> map_of (Keys e) (ko_purpose w) = Some spki))"

definition reg_inv :: "Registry \<Rightarrow> bool" where
  "reg_inv r \<longleftrightarrow> distinct (map fst (entries r)) \<and> (\<forall>n e. entry_of r n = Some e \<longrightarrow> entry_ok e) \<and> index_sound r"

lemma drop_key_map:
  "map_of (drop_key n s ix) k = (if k = s \<and> (\<exists>w. map_of ix s = Some w \<and> ko_node w = n) then None else map_of ix k)"
  by (auto simp: drop_key_def delete_conv' split: option.splits)

lemma drop_keys_map:
  "map_of (fold (drop_key n) gone ix) k =
     (if k \<in> set gone \<and> (\<exists>w. map_of ix k = Some w \<and> ko_node w = n) then None else map_of ix k)"
  by (induction gone arbitrary: ix) (auto simp: drop_key_map)

lemma add_keys_map:
  "map_of (fold (\<lambda>(p, s). AList.update s \<lparr>ko_node = n, ko_purpose = p\<rparr>) ks ix) k = Some w \<Longrightarrow>
     (\<exists>p. (p, k) \<in> set ks \<and> w = \<lparr>ko_node = n, ko_purpose = p\<rparr>) \<or> (map_of ix k = Some w \<and> k \<notin> snd ` set ks)"
proof (induction ks arbitrary: ix)
  case Nil
  then show ?case by simp
next
  case (Cons x ks)
  obtain p s where x: "x = (p, s)" by (cases x)
  let ?ix = "AList.update s \<lparr>ko_node = n, ko_purpose = p\<rparr> ix"
  from Cons.prems x have "map_of (fold (\<lambda>(p, s). AList.update s \<lparr>ko_node = n, ko_purpose = p\<rparr>) ks ?ix) k = Some w"
    by simp
  from Cons.IH [OF this] show ?case
    by (auto simp: x update_conv' split: if_splits)
qed

text \<open>The one-node update as an equation on the maps.\<close>

definition changed :: "(string \<Rightarrow> RegistryEntry \<Rightarrow> RegistryEntry) \<Rightarrow> string \<Rightarrow> Registry \<Rightarrow> RegistryEntry" where
  "changed change n r = (let e1 = change n (case entry_of r n of None \<Rightarrow> new_entry | Some x \<Rightarrow> x)
     in e1\<lparr>TokenLive := (tokens e1 \<noteq> {})\<rparr>)"

lemma update_one_entries:
  "entry_of (snd (snd (update_one change n r))) =
     (map_of (entries r))(n := if entry_empty (changed change n r) then None else Some (changed change n r))"
  by (simp add: update_one_def changed_def Let_def split_beta delete_conv' update_conv' fun_eq_iff)

lemma update_one_flags [simp]:
  "membersLoaded (snd (snd (update_one change n r))) = membersLoaded r"
  "tokensLoaded (snd (snd (update_one change n r))) = tokensLoaded r"
  by (simp_all add: update_one_def Let_def split_beta)

lemma update_one_excluded:
  "fst (update_one change n r) \<longleftrightarrow>
     entry_admitted (entry_of r n) \<and> \<not> entry_admitted (entry_of (snd (snd (update_one change n r))) n)"
  by (simp add: update_one_entries) (auto simp: update_one_def changed_def Let_def split_beta entry_admitted_def entry_empty_def)

lemma update_one_distinct:
  "distinct (map fst (entries r)) \<Longrightarrow> distinct (map fst (entries (snd (snd (update_one change n r)))))"
  by (simp add: update_one_def Let_def split_beta distinct_update distinct_delete)

lemma update_one_index:
  assumes "map_of (byKey (snd (snd (update_one change n r)))) spki = Some w"
    and "reg_inv r" and "keys_ok (Keys (changed change n r))"
  shows "(ko_node w = n \<and> map_of (Keys (changed change n r)) (ko_purpose w) = Some spki) \<or>
    (ko_node w \<noteq> n \<and> map_of (byKey r) spki = Some w)"
proof -
  let ?e0 = "case entry_of r n of None \<Rightarrow> new_entry | Some x \<Rightarrow> x"
  let ?after = "Keys (changed change n r)"
  let ?gone = "gone_keys (Keys ?e0) ?after" and ?new = "gone_keys ?after (Keys ?e0)"
  have "map_of (fold (\<lambda>(p, s). AList.update s \<lparr>ko_node = n, ko_purpose = p\<rparr>) ?new (fold (drop_key n) (map snd ?gone) (byKey r))) spki = Some w"
    using assms(1) by (simp add: update_one_def reindexKeysLocked_def changed_def Let_def split_beta)
  from add_keys_map [OF this] show ?thesis
  proof (elim disjE exE conjE)
    fix p assume "(p, spki) \<in> set ?new" "w = \<lparr>ko_node = n, ko_purpose = p\<rparr>"
    then show ?thesis
      using assms(3) by (auto simp: gone_keys_def keys_ok_def intro: map_of_is_SomeI)
  next
    assume "map_of (fold (drop_key n) (map snd ?gone) (byKey r)) spki = Some w"
    then have w: "map_of (byKey r) spki = Some w" and k: "spki \<in> snd ` set ?gone \<longrightarrow> ko_node w \<noteq> n"
      by (auto simp: drop_keys_map split: if_splits)
    show ?thesis
    proof (cases "ko_node w = n")
      case True
      then obtain e where e: "entry_of r n = Some e" "map_of (Keys e) (ko_purpose w) = Some spki"
        using assms(2) w unfolding reg_inv_def index_sound_def by blast
      moreover have "entry_ok e"
        using assms(2) e(1) unfolding reg_inv_def by blast
      ultimately have m: "(ko_purpose w, spki) \<in> set (Keys e)" and "[] \<notin> snd ` set (Keys e)"
        by (auto simp: entry_ok_def keys_ok_def dest: map_of_SomeD)
      then have "spki \<noteq> []"
        by (metis image_eqI snd_conv)
      then have "map_of ?after (ko_purpose w) = Some spki"
        using True k e(1) m by (force simp: gone_keys_def key_at_def split: option.splits)
      with True show ?thesis by simp
    qed (use w in simp)
  qed
qed

lemma reg_inv_update_one:
  assumes "reg_inv r" and "entry_ok (changed change n r)"
  shows "reg_inv (snd (snd (update_one change n r)))"
proof -
  let ?r = "snd (snd (update_one change n r))" and ?e = "changed change n r"
  have ks: "keys_ok (Keys ?e)"
    using assms(2) by (simp add: entry_ok_def)
  have "\<exists>e. entry_of ?r (ko_node w) = Some e \<and> map_of (Keys e) (ko_purpose w) = Some spki"
    if "map_of (byKey ?r) spki = Some w" for spki w
    using update_one_index [OF that assms(1) ks]
  proof (elim disjE conjE)
    assume k: "map_of (Keys ?e) (ko_purpose w) = Some spki" and "ko_node w = n"
    moreover have "\<not> entry_empty ?e"
      using k by (auto simp: entry_empty_def)
    ultimately show ?thesis
      by (simp add: update_one_entries)
  next
    assume "ko_node w \<noteq> n" "map_of (byKey r) spki = Some w"
    then show ?thesis
      using assms(1) by (simp add: update_one_entries reg_inv_def index_sound_def del: map_of_eq_Some_iff)
  qed
  then have "index_sound ?r"
    by (simp add: index_sound_def)
  moreover have "\<forall>k e. entry_of ?r k = Some e \<longrightarrow> entry_ok e"
    using assms unfolding update_one_entries reg_inv_def by (auto split: if_splits)
  ultimately show ?thesis
    using assms(1) unfolding reg_inv_def by (blast intro: update_one_distinct)
qed

text \<open>A change that keeps the entry's own invariant up to the derived flag.\<close>

definition good_change :: "(string \<Rightarrow> RegistryEntry \<Rightarrow> RegistryEntry) \<Rightarrow> bool" where
  "good_change change \<longleftrightarrow> (\<forall>n e. [] \<notin> tokens e \<and> keys_ok (Keys e) \<longrightarrow>
     [] \<notin> tokens (change n e) \<and> keys_ok (Keys (change n e)))"

lemma entry_ok_changed:
  assumes "reg_inv r" and "good_change change"
  shows "entry_ok (changed change n r)"
proof -
  let ?e = "case entry_of r n of None \<Rightarrow> new_entry | Some x \<Rightarrow> x"
  have "[] \<notin> tokens ?e \<and> keys_ok (Keys ?e)"
    using assms(1) by (cases "entry_of r n")
      (auto simp: reg_inv_def entry_ok_def new_entry_def keys_ok_def simp del: map_of_eq_Some_iff)
  then show ?thesis
    using assms(2) by (simp add: changed_def Let_def entry_ok_def good_change_def)
qed

lemma update_all_inv:
  assumes "reg_inv r" and "good_change change"
  shows "reg_inv (snd (snd (update_all change ns r)))"
  using assms(1)
proof (induction ns arbitrary: r)
  case Nil
  then show ?case by simp
next
  case (Cons n ns)
  then show ?case
    using reg_inv_update_one [OF Cons.prems entry_ok_changed [OF Cons.prems assms(2)]]
    by (simp add: split_beta Let_def)
qed

lemma update_all_flags [simp]:
  "membersLoaded (snd (snd (update_all change ns r))) = membersLoaded r"
  "tokensLoaded (snd (snd (update_all change ns r))) = tokensLoaded r"
  by (induction ns arbitrary: r) (simp_all add: split_beta Let_def)

definition after_change :: "(string \<Rightarrow> RegistryEntry \<Rightarrow> RegistryEntry) \<Rightarrow> string \<Rightarrow> RegistryEntry option \<Rightarrow> RegistryEntry option" where
  "after_change change n old = (let e1 = change n (case old of None \<Rightarrow> new_entry | Some x \<Rightarrow> x);
     e2 = e1\<lparr>TokenLive := (tokens e1 \<noteq> {})\<rparr> in if entry_empty e2 then None else Some e2)"

lemma update_one_after:
  "entry_of (snd (snd (update_one change n r))) k =
     (if k = n then after_change change n (entry_of r n) else entry_of r k)"
  by (simp add: update_one_entries after_change_def changed_def Let_def)

lemma update_all_entries:
  assumes "distinct ns"
  shows "entry_of (snd (snd (update_all change ns r))) k =
    (if k \<in> set ns then after_change change k (entry_of r k) else entry_of r k)"
  using assms by (induction ns arbitrary: r) (auto simp: split_beta Let_def update_one_after)

lemma update_all_excluded:
  assumes "distinct ns"
  shows "set (fst (update_all change ns r)) =
    {n \<in> set ns. entry_admitted (entry_of r n) \<and> \<not> entry_admitted (after_change change n (entry_of r n))}"
  using assms
proof (induction ns arbitrary: r)
  case Nil
  then show ?case by simp
next
  case (Cons n ns)
  then have "entry_of (snd (snd (update_one change n r))) k = entry_of r k" if "k \<in> set ns" for k
    using that by (auto simp: update_one_after)
  then have "set (fst (update_all change ns (snd (snd (update_one change n r))))) =
    {k \<in> set ns. entry_admitted (entry_of r k) \<and> \<not> entry_admitted (after_change change k (entry_of r k))}"
    using Cons.IH [of "snd (snd (update_one change n r))"] Cons.prems by auto
  then show ?case
    by (auto simp: split_beta Let_def update_one_excluded update_one_after)
qed

lemmas reg_ops = setKeys_def setMember_def SetLiveTokens_def update_def

lemma good_changes:
  "keys_ok ks \<Longrightarrow> good_change (\<lambda>_ e. e\<lparr>Keys := ks\<rparr>)"
  "good_change (\<lambda>_ e. setTokens hs e)"
  "good_change (\<lambda>n e. setTokens (live_at live n) e)"
  "good_change (\<lambda>_ e.
     let e1 = e\<lparr>Member := member, Role := (if member then role else [])\<rparr>;
         e2 = (if LastSeen e1 < seen then e1\<lparr>LastSeen := seen\<rparr> else e1)
     in if \<not> member then e2\<lparr>LastSeen := zero_time, Keys := []\<rparr> else e2)"
  by (auto simp: good_change_def setTokens_def keys_ok_def Let_def)

text \<open>Every operation keeps the invariant.\<close>

lemma reg_inv_ops:
  "reg_inv NewRegistry"
  "reg_inv r \<Longrightarrow> keys_ok ks \<Longrightarrow> reg_inv (snd (snd (setKeys n ks r)))"
  "reg_inv r \<Longrightarrow> reg_inv (snd (snd (setMember n role member seen r)))"
  "reg_inv r \<Longrightarrow> reg_inv (snd (snd (SetLiveTokens n hs r)))"
  unfolding reg_ops
  by (simp add: reg_inv_def NewRegistry_def index_sound_def)
    (erule update_all_inv, rule good_changes, assumption | erule update_all_inv, rule good_changes)+

lemma reg_inv_flags [simp]:
  "reg_inv (r\<lparr>tokensLoaded := b\<rparr>) = reg_inv r" "reg_inv (r\<lparr>membersLoaded := b\<rparr>) = reg_inv r"
  by (simp_all add: reg_inv_def index_sound_def)

lemma reg_inv_Replace: "reg_inv r \<Longrightarrow> reg_inv (snd (snd (ReplaceLiveTokens live r)))"
  by (simp add: ReplaceLiveTokens_def split_beta Let_def update_def update_all_inv good_changes)

lemma reg_inv_Touch: "reg_inv r \<Longrightarrow> reg_inv (snd (Touch n t r))"
  unfolding Touch_def
  by (auto simp: reg_inv_def index_sound_def entry_ok_def update_conv' distinct_update
      split: option.splits if_splits simp del: map_of_eq_Some_iff) (metis option.inject)

section \<open>Admission\<close>

lemma TokenAdmits_iff:
  "TokenAdmits r n h \<longleftrightarrow> n \<noteq> [] \<and> h \<noteq> [] \<and> Loaded r \<and> (\<exists>e. entry_of r n = Some e \<and> h \<in> tokens e)"
  by (auto simp: TokenAdmits_def split: option.splits simp del: map_of_eq_Some_iff)

lemma tokens_after_set:
  "(\<exists>e'. after_change (\<lambda>n e. setTokens (f n) e) n old = Some e' \<and> h \<in> tokens e') \<longleftrightarrow> h \<noteq> [] \<and> h \<in> set (f n)"
  by (auto simp: after_change_def setTokens_def Let_def entry_empty_def)

lemma Loaded_ops [simp]:
  "Loaded (snd (snd (SetLiveTokens n hs r))) = Loaded r"
  "Loaded (snd (snd (setMember n role member seen r))) = Loaded r"
  "Loaded (snd (snd (setKeys n ks r))) = Loaded r"
  "Loaded (snd (snd (ReplaceLiveTokens live r))) = membersLoaded r"
  by (simp_all add: reg_ops Loaded_def ReplaceLiveTokens_def split_beta Let_def)

lemma admits_SetLiveTokens:
  "TokenAdmits (snd (snd (SetLiveTokens m hs r))) n h \<longleftrightarrow>
     (if n = m then n \<noteq> [] \<and> h \<noteq> [] \<and> Loaded r \<and> h \<in> set hs else TokenAdmits r n h)"
  unfolding TokenAdmits_iff Loaded_ops
  by (simp add: reg_ops update_all_entries tokens_after_set [where f = "\<lambda>_. hs"] del: update_all.simps map_of_eq_Some_iff) auto

lemma admits_ReplaceLiveTokens:
  assumes "reg_inv r" and "distinct (map fst live)"
  shows "TokenAdmits (snd (snd (ReplaceLiveTokens live r))) n h \<longleftrightarrow>
    n \<noteq> [] \<and> h \<noteq> [] \<and> membersLoaded r \<and> h \<in> set (live_at live n)"
proof -
  let ?ids = "map fst (entries r) @ filter (\<lambda>n. entry_of r n = None) (map fst live)"
  let ?ch = "\<lambda>n e. setTokens (live_at live n) e"
  have d: "distinct ?ids"
    using assms by (auto simp: reg_inv_def map_of_eq_None_iff)
  have e: "entry_of (snd (snd (ReplaceLiveTokens live r))) n =
      (if n \<in> set ?ids then after_change ?ch n (entry_of r n) else entry_of r n)"
    using update_all_entries [OF d, of ?ch r n] by (simp add: ReplaceLiveTokens_def update_def split_beta Let_def)
  show ?thesis
  proof (cases "n \<in> set ?ids")
    case True
    then show ?thesis
      unfolding TokenAdmits_iff e Loaded_ops using tokens_after_set [of "live_at live" n "entry_of r n" h] by auto
  next
    case False
    then have "entry_of r n = None" "map_of live n = None"
      by (auto simp: map_of_eq_None_iff)
    with False show ?thesis
      unfolding TokenAdmits_iff e by (simp add: live_at_def)
  qed
qed

end
