(* ===== verification/Inventory.thy ===== *)
theory Inventory
  imports Node_Registry
begin

text \<open>
  The node inventory (\<^verbatim>\<open>api/internal/inventory/{store,nodekeys,presence,service}.go\<close>,
  \<^verbatim>\<open>proto/inventory.go\<close>, \<^verbatim>\<open>proto/nodekeys.go\<close>, \<^verbatim>\<open>proto/buspin.go\<close>): the nodes table, the table of
  registered node keys and the registry beside them; registration, heartbeats, removal, the
  presence rule and the transition scan.  As in the job ledger every statement can fail: \<open>iv_faults\<close>
  lists the outcomes of the coming statements.  The bus is the list of events published; the hooks
  that \<^verbatim>\<open>main.go\<close> wires to the registry are logged in \<open>iv_excluded\<close> and \<open>iv_retired\<close>.
\<close>

section \<open>Nodes\<close>

datatype json = JNull | JBool bool | JNum int | JStr string | JArr "json list" | JObj "(string \<times> json) list"

datatype NodeStatus = StatusUnset | StatusOnline | StatusStale | StatusOffline | StatusOffBus

datatype MeshState = MeshJoined | MeshAbsent | MeshUnknown

record MeshMembership =
  m_state :: MeshState
  m_enrolled :: bool
  m_online :: bool
  m_last_seen :: "gotime option"
  m_tailnet_ip :: string

record StorageInfo =
  PersistentTotalBytes :: nat
  PersistentFreeBytes :: nat
  Growpart :: string

record Node =
  n_id :: string
  n_role :: NodeRole
  n_hostname :: string
  n_agent_version :: string
  n_image_version :: string
  n_confirmed_at :: "gotime option"
  n_architecture :: string
  n_lan_ip :: string
  n_capabilities :: "string list"
  n_metadata :: "(string \<times> json) list"
  n_storage :: "StorageInfo option"
  n_first_seen :: gotime
  n_last_seen :: gotime
  n_status :: NodeStatus
  n_mesh :: "MeshMembership option"

record NodeRegisteredEvt =
  ev_node :: string
  ev_role :: NodeRole
  ev_hostname :: string
  ev_agent_version :: string
  ev_image_version :: string
  ev_architecture :: string
  ev_lan_ip :: string
  ev_capabilities :: "string list"
  ev_metadata :: "(string \<times> json) list"
  ev_storage :: "StorageInfo option"

definition AllRoles :: "NodeRole list" where
  "AllRoles = [''controlplane'', ''firewall'', ''compute'', ''storage'']"

definition ValidRole :: "NodeRole \<Rightarrow> bool" where
  "ValidRole r \<longleftrightarrow> r \<in> set AllRoles"

definition MaxClusterNodes :: nat where
  "MaxClusterNodes = 24"

datatype InventoryChangeType =
  InventoryAdded | InventoryOnline | InventoryStale | InventoryOffline | InventoryOffBus | InventoryUpdated | InventoryRemoved

section \<open>Key reports\<close>

text \<open>
  \<^verbatim>\<open>ParseBusPin\<close>: the prefix, then the strict standard base64 of 32 bytes.  Go's decoder skips CR
  and LF; 32 bytes are 43 symbols, the last with its two spare bits zero, and one pad.
\<close>

definition base64_digit :: "char \<Rightarrow> nat option" where
  "base64_digit c = (let n = (of_char c :: nat) in
     if 65 \<le> n \<and> n \<le> 90 then Some (n - 65)
     else if 97 \<le> n \<and> n \<le> 122 then Some (n - 71)
     else if 48 \<le> n \<and> n \<le> 57 then Some (n + 4)
     else if c = CHR ''+'' then Some 62 else if c = CHR ''/'' then Some 63 else None)"

definition base64_32 :: "string \<Rightarrow> bool" where
  "base64_32 s = (let t = filter (\<lambda>c. c \<noteq> CHR 0x0A \<and> c \<noteq> CHR 0x0D) s in
     length t = 44 \<and> t ! 43 = CHR ''='' \<and> (\<forall>c \<in> set (take 43 t). base64_digit c \<noteq> None)
     \<and> (case base64_digit (t ! 42) of None \<Rightarrow> False | Some d \<Rightarrow> d mod 4 = 0))"

definition ParseBusPin :: "string \<Rightarrow> bool" where
  "ParseBusPin s = (let t = trim_space s in has_prefix ''sha256/'' t \<and> base64_32 (drop 7 t))"

definition NodeKeyPurposes :: "NodeKeyPurpose list" where
  "NodeKeyPurposes = [''agent'', ''collector'']"

text \<open>The fold over the report: \<^term>\<open>None\<close> refuses it whole.\<close>

fun decode_keys :: "(string \<times> json) list \<Rightarrow> NodeKeys \<Rightarrow> NodeKeys option" where
  "decode_keys [] acc = Some acc"
| "decode_keys ((p, v) # rs) acc =
     (if p \<notin> set NodeKeyPurposes then decode_keys rs acc
      else case v of
             JStr h \<Rightarrow> if ParseBusPin h then decode_keys rs (AList.update p h acc) else None
           | _ \<Rightarrow> None)"

datatype key_report = KeysAbsent | KeysUnusable | KeysReported NodeKeys

definition DecodeNodeKeys :: "(string \<times> json) list \<Rightarrow> key_report" where
  "DecodeNodeKeys meta = (case map_of meta ''nodeKeys'' of
     None \<Rightarrow> KeysAbsent
   | Some JNull \<Rightarrow> KeysAbsent
   | Some (JObj raw) \<Rightarrow> (case decode_keys raw [] of
        None \<Rightarrow> KeysUnusable | Some ks \<Rightarrow> if ks = [] then KeysAbsent else KeysReported ks)
   | Some _ \<Rightarrow> KeysUnusable)"

definition Purposes :: "NodeKeys \<Rightarrow> NodeKeyPurpose list" where
  "Purposes ks = sort (map fst ks)"

definition keys_equal :: "NodeKeys \<Rightarrow> NodeKeys \<Rightarrow> bool" where
  "keys_equal k ks \<longleftrightarrow> length k = length ks \<and> (\<forall>(p, h) \<in> set k. key_at ks p = h)"

section \<open>Store\<close>

record inventory =
  iv_nodes :: "Node list"
  iv_keys :: "(string \<times> NodeKeyPurpose \<times> string \<times> gotime) list"
  iv_registry :: Registry
  iv_faults :: "bool list"
  iv_status :: "(string \<times> NodeStatus) list"
  iv_events :: "(InventoryChangeType \<times> Node) list"
  iv_excluded :: "string list"
  iv_retired :: "(string \<times> string list) list"

datatype inv_error = IvDb | IvNoRows | IvConstraint | IvKeyTaken string | IvNodeIDRequired

definition iv_fault :: "inventory \<Rightarrow> bool \<times> inventory" where
  "iv_fault s = (case iv_faults s of [] \<Rightarrow> (False, s) | b # bs \<Rightarrow> (b, s\<lparr>iv_faults := bs\<rparr>))"

text \<open>A registry change with the hooks it runs.\<close>

definition on_registry :: "(Registry \<Rightarrow> string list \<times> (string \<times> string list) list \<times> Registry) \<Rightarrow> inventory \<Rightarrow> inventory" where
  "on_registry f s = (let (exs, gones, r) = f (iv_registry s) in
     s\<lparr>iv_registry := r, iv_excluded := iv_excluded s @ exs, iv_retired := iv_retired s @ gones\<rparr>)"

definition confirmedMillis :: "gotime option \<Rightarrow> int" where
  "confirmedMillis t = (case t of None \<Rightarrow> 0 | Some x \<Rightarrow> x)"

definition confirmedTime :: "int \<Rightarrow> gotime option" where
  "confirmedTime ms = (if ms = 0 then None else Some ms)"

text \<open>The columns of a node: what an insert writes and a scan reads back.\<close>

definition row_of :: "Node \<Rightarrow> Node" where
  "row_of n = n\<lparr>n_confirmed_at := confirmedTime (confirmedMillis (n_confirmed_at n)), n_status := StatusUnset, n_mesh := None\<rparr>"

definition Insert :: "Node \<Rightarrow> inventory \<Rightarrow> inv_error option \<times> inventory" where
  "Insert n s = (let (bad, s1) = iv_fault s in
     if bad then (Some IvDb, s1)
     else if n_id n \<in> n_id ` set (iv_nodes s1) then (Some IvConstraint, s1)
     else (None, on_registry (setMember (n_id n) (n_role n) True (n_last_seen n))
                   (s1\<lparr>iv_nodes := iv_nodes s1 @ [row_of n]\<rparr>)))"

text \<open>An update that matches no row writes nothing and makes no member.\<close>

definition Update :: "Node \<Rightarrow> inventory \<Rightarrow> inv_error option \<times> inventory" where
  "Update n s = (let (bad, s1) = iv_fault s in
     if bad then (Some IvDb, s1)
     else let s2 = s1\<lparr>iv_nodes := sql_update (\<lambda>q. n_id q = n_id n)
                (\<lambda>q. (row_of n)\<lparr>n_first_seen := n_first_seen q\<rparr>) (iv_nodes s1)\<rparr>
          in (None, if n_id n \<in> n_id ` set (iv_nodes s1)
                then on_registry (setMember (n_id n) (n_role n) True (n_last_seen n)) s2 else s2))"

definition SetLANIP :: "string \<Rightarrow> string \<Rightarrow> inventory \<Rightarrow> (inv_error + bool) \<times> inventory" where
  "SetLANIP i ip s = (let (bad, s1) = iv_fault s in
     if bad then (Inl IvDb, s1)
     else (Inr (\<exists>n \<in> set (iv_nodes s1). n_id n = i \<and> n_lan_ip n \<noteq> ip),
           s1\<lparr>iv_nodes := sql_update (\<lambda>q. n_id q = i \<and> n_lan_ip q \<noteq> ip) (\<lambda>q. q\<lparr>n_lan_ip := ip\<rparr>) (iv_nodes s1)\<rparr>))"

definition freshen :: "Registry \<Rightarrow> Node \<Rightarrow> Node" where
  "freshen r n = (if n_last_seen n < lastSeen r (n_id n) then n\<lparr>n_last_seen := lastSeen r (n_id n)\<rparr> else n)"

definition execOne :: "(Node \<Rightarrow> Node) \<Rightarrow> string \<Rightarrow> inventory \<Rightarrow> inv_error option \<times> inventory" where
  "execOne f i s = (let (bad, s1) = iv_fault s in
     if bad then (Some IvDb, s1)
     else if i \<notin> n_id ` set (iv_nodes s1) then (Some IvNoRows, s1)
     else (None, s1\<lparr>iv_nodes := sql_update (\<lambda>q. n_id q = i) f (iv_nodes s1)\<rparr>))"

definition ConfirmImageVersion :: "string \<Rightarrow> string \<Rightarrow> gotime \<Rightarrow> inventory \<Rightarrow> inv_error option \<times> inventory" where
  "ConfirmImageVersion i v t = execOne (\<lambda>q. q\<lparr>n_image_version := v, n_confirmed_at := confirmedTime t\<rparr>) i"

definition UnconfirmImageVersion :: "string \<Rightarrow> inventory \<Rightarrow> inv_error option \<times> inventory" where
  "UnconfirmImageVersion i = execOne (\<lambda>q. q\<lparr>n_confirmed_at := confirmedTime 0\<rparr>) i"

text \<open>A failed key clean-up is only logged: the row is already gone.\<close>

definition deleteNodeKeys :: "string \<Rightarrow> inventory \<Rightarrow> inv_error option \<times> inventory" where
  "deleteNodeKeys i s = (let (bad, s1) = iv_fault s in
     if bad then (Some IvDb, s1) else (None, s1\<lparr>iv_keys := filter (\<lambda>k. fst k \<noteq> i) (iv_keys s1)\<rparr>))"

definition Delete :: "string \<Rightarrow> inventory \<Rightarrow> inv_error option \<times> inventory" where
  "Delete i s = (let (bad, s1) = iv_fault s in
     if bad then (Some IvDb, s1)
     else if i \<notin> n_id ` set (iv_nodes s1) then (Some IvNoRows, s1)
     else let s2 = s1\<lparr>iv_nodes := filter (\<lambda>n. n_id n \<noteq> i) (iv_nodes s1)\<rparr>;
              (_, s3) = deleteNodeKeys i s2
          in (None, on_registry (setMember i [] False zero_time) s3))"

definition Get :: "string \<Rightarrow> inventory \<Rightarrow> (inv_error + Node option) \<times> inventory" where
  "Get i s = (let (bad, s1) = iv_fault s in
     if bad then (Inl IvDb, s1)
     else (Inr (map_option (freshen (iv_registry s1)) (sql_first (\<lambda>n. n_id n = i) (iv_nodes s1))), s1))"

definition List_nodes :: "inventory \<Rightarrow> (inv_error + Node list) \<times> inventory" where
  "List_nodes s = (let (bad, s1) = iv_fault s in
     if bad then (Inl IvDb, s1)
     else (Inr (map (freshen (iv_registry s1)) (sql_order n_first_seen (iv_nodes s1))), s1))"

definition ListByRole :: "NodeRole \<Rightarrow> inventory \<Rightarrow> (inv_error + Node list) \<times> inventory" where
  "ListByRole r s = (let (bad, s1) = iv_fault s in
     if bad then (Inl IvDb, s1)
     else (Inr (map (freshen (iv_registry s1)) (sql_order n_first_seen (sql_select (\<lambda>n. n_role n = r) (iv_nodes s1)))), s1))"

section \<open>Registered keys\<close>

definition keys_of_rows :: "string \<Rightarrow> (string \<times> NodeKeyPurpose \<times> string \<times> gotime) list \<Rightarrow> NodeKeys" where
  "keys_of_rows i rows = fold (\<lambda>(_, p, h, _) ks. AList.update p h ks) (filter (\<lambda>k. fst k = i) rows) []"

definition NodeKeys_of :: "string \<Rightarrow> inventory \<Rightarrow> (inv_error + NodeKeys) \<times> inventory" where
  "NodeKeys_of i s = (let (bad, s1) = iv_fault s in
     if bad then (Inl IvDb, s1) else (Inr (keys_of_rows i (iv_keys s1)), s1))"

text \<open>The purposes of a report, merged into the recorded set: the node that holds a hash already
  refuses the whole report.\<close>

fun merge_keys :: "Registry \<Rightarrow> string \<Rightarrow> NodeKeys \<Rightarrow> NodeKeyPurpose list \<Rightarrow> NodeKeys \<Rightarrow> NodeKeyPurpose list
    \<Rightarrow> string + (NodeKeys \<times> NodeKeyPurpose list)" where
  "merge_keys r i ks [] cur repl = Inr (cur, repl)"
| "merge_keys r i ks (p # ps) cur repl =
     (let spki = key_at ks p in
      if key_at cur p = spki then merge_keys r i ks ps cur repl
      else case KeyOwner_of r spki of
             Some w \<Rightarrow> if ko_node w \<noteq> i then Inl (ko_node w)
                       else merge_keys r i ks ps (AList.update p spki cur) (if key_at cur p \<noteq> [] then repl @ [p] else repl)
           | None \<Rightarrow> merge_keys r i ks ps (AList.update p spki cur) (if key_at cur p \<noteq> [] then repl @ [p] else repl))"

text \<open>One upsert; \<^term>\<open>None\<close> is a violation of the unique index on the hash.\<close>

definition upsert_key :: "string \<Rightarrow> NodeKeyPurpose \<Rightarrow> string \<Rightarrow> gotime
    \<Rightarrow> (string \<times> NodeKeyPurpose \<times> string \<times> gotime) list \<Rightarrow> (string \<times> NodeKeyPurpose \<times> string \<times> gotime) list option" where
  "upsert_key i p h t rows =
     (if \<exists>k \<in> set rows. fst (snd (snd k)) = h \<and> \<not> (fst k = i \<and> fst (snd k) = p) then None
      else if \<exists>k \<in> set rows. fst k = i \<and> fst (snd k) = p
        then Some (sql_update (\<lambda>k. fst k = i \<and> fst (snd k) = p) (\<lambda>k. (i, p, h, t)) rows)
        else Some (rows @ [(i, p, h, t)]))"

fun upsert_keys :: "string \<Rightarrow> NodeKeys \<Rightarrow> NodeKeys \<Rightarrow> gotime \<Rightarrow> NodeKeyPurpose list
    \<Rightarrow> (string \<times> NodeKeyPurpose \<times> string \<times> gotime) list \<Rightarrow> (string \<times> NodeKeyPurpose \<times> string \<times> gotime) list option" where
  "upsert_keys i prev cur t [] rows = Some rows"
| "upsert_keys i prev cur t (p # ps) rows =
     (if key_at prev p = key_at cur p then upsert_keys i prev cur t ps rows
      else case upsert_key i p (key_at cur p) t rows of
             None \<Rightarrow> None | Some rows' \<Rightarrow> upsert_keys i prev cur t ps rows')"

text \<open>The result of an accepted report: what was recorded, what is recorded now, what was replaced.\<close>

definition SetNodeKeys :: "string \<Rightarrow> NodeKeys \<Rightarrow> gotime \<Rightarrow> inventory
    \<Rightarrow> (inv_error + NodeKeys \<times> NodeKeys \<times> NodeKeyPurpose list) \<times> inventory" where
  "SetNodeKeys i ks t s =
     (if i = [] then (Inl IvNodeIDRequired, s)
      else let (r, s1) = NodeKeys_of i s in
        case r of
          Inl e \<Rightarrow> (Inl e, s1)
        | Inr prev \<Rightarrow>
            (case merge_keys (iv_registry s1) i ks (Purposes ks) prev [] of
               Inl holder \<Rightarrow> (Inl (IvKeyTaken holder), s1)
             | Inr (cur, repl) \<Rightarrow>
                 if keys_equal prev cur then (Inr (prev, cur, repl), s1)
                 else let (bad, s2) = iv_fault s1 in
                   if bad then (Inl IvDb, s2)
                   else case upsert_keys i prev cur t (Purposes cur) (iv_keys s2) of
                          None \<Rightarrow> (Inl IvConstraint, s2)
                        | Some rows \<Rightarrow> (Inr (prev, cur, repl), on_registry (setKeys i cur) (s2\<lparr>iv_keys := rows\<rparr>))))"

section \<open>Loading\<close>

definition loadMembers :: "inventory \<Rightarrow> inv_error option \<times> inventory" where
  "loadMembers s = (let (bad, s1) = iv_fault s in
     if bad then (Some IvDb, s1)
     else let s2 = fold (\<lambda>n. on_registry (setMember (n_id n) (n_role n) True (n_last_seen n))) (iv_nodes s1) s1
          in (None, s2\<lparr>iv_registry := (iv_registry s2)\<lparr>membersLoaded := True\<rparr>\<rparr>))"

definition loadKeys :: "inventory \<Rightarrow> inv_error option \<times> inventory" where
  "loadKeys s = (let (bad, s1) = iv_fault s in
     if bad then (Some IvDb, s1)
     else (None, fold (\<lambda>i. on_registry (setKeys i (keys_of_rows i (iv_keys s1)))) (remdups (map fst (iv_keys s1))) s1))"

definition OpenStore :: "inventory \<Rightarrow> inv_error option \<times> inventory" where
  "OpenStore s = (let (e, s1) = loadMembers (s\<lparr>iv_registry := NewRegistry\<rparr>) in
     case e of Some x \<Rightarrow> (Some x, s1) | None \<Rightarrow> loadKeys s1)"

section \<open>Presence\<close>

text \<open>Times are milliseconds: 30 s and 2 min.\<close>

definition staleAfter :: int where "staleAfter = 30000"
definition offlineAfter :: int where "offlineAfter = 120000"

definition computeStatusAt :: "gotime \<Rightarrow> gotime \<Rightarrow> NodeStatus" where
  "computeStatusAt now seen = (let gap = now - seen in
     if gap < staleAfter then StatusOnline
     else if gap < offlineAfter then StatusStale else StatusOffline)"

definition deriveStatusAt :: "gotime \<Rightarrow> gotime \<Rightarrow> MeshMembership option \<Rightarrow> NodeStatus" where
  "deriveStatusAt now seen mesh = (let st = computeStatusAt now seen in
     if st = StatusOffline \<and> (case mesh of None \<Rightarrow> False | Some m \<Rightarrow> m_online m) then StatusOffBus else st)"

definition absent_mesh :: MeshMembership where
  "absent_mesh = \<lparr>m_state = MeshAbsent, m_enrolled = False, m_online = False, m_last_seen = None, m_tailnet_ip = []\<rparr>"

definition mesh_for :: "(string \<rightharpoonup> MeshMembership) option \<Rightarrow> string \<Rightarrow> MeshMembership option \<Rightarrow> MeshMembership option" where
  "mesh_for byNode i old = (case byNode of
     None \<Rightarrow> old | Some f \<Rightarrow> Some (case f i of None \<Rightarrow> absent_mesh | Some m \<Rightarrow> m))"

definition applyMeshAt :: "gotime \<Rightarrow> (string \<rightharpoonup> MeshMembership) option \<Rightarrow> Node list \<Rightarrow> Node list" where
  "applyMeshAt now byNode = map (\<lambda>n. let m = mesh_for byNode (n_id n) (n_mesh n) in
     n\<lparr>n_mesh := m, n_status := deriveStatusAt now (n_last_seen n) m\<rparr>)"

section \<open>Service\<close>

definition emit_change :: "(string \<rightharpoonup> MeshMembership) option \<Rightarrow> InventoryChangeType \<Rightarrow> Node \<Rightarrow> inventory \<Rightarrow> inventory" where
  "emit_change byNode c n s =
     s\<lparr>iv_events := iv_events s @ [(c, if n_mesh n = None then n\<lparr>n_mesh := mesh_for byNode (n_id n) None\<rparr> else n)]\<rparr>"

definition recordNodeKeys :: "string \<Rightarrow> (string \<times> json) list \<Rightarrow> gotime \<Rightarrow> inventory \<Rightarrow> inventory" where
  "recordNodeKeys i meta t s = (case DecodeNodeKeys meta of
     KeysReported ks \<Rightarrow> snd (SetNodeKeys i ks t s) | _ \<Rightarrow> s)"

text \<open>The api's own node: \<open>self\<close> is its id and the address the api knows for itself.\<close>

definition RefreshSelfLANIP :: "(string \<rightharpoonup> MeshMembership) option \<Rightarrow> (string \<times> string) option \<Rightarrow> inventory
    \<Rightarrow> inv_error option \<times> inventory" where
  "RefreshSelfLANIP byNode self s = (case self of
     None \<Rightarrow> (None, s)
   | Some (i, ip) \<Rightarrow>
       if i = [] then (None, s)
       else let (r, s1) = SetLANIP i ip s in
         case r of
           Inl e \<Rightarrow> (Some e, s1)
         | Inr diff \<Rightarrow>
             if \<not> diff then (None, s1)
             else case Get i s1 of
                    (Inl e, s2) \<Rightarrow> (Some e, s2)
                  | (Inr None, s2) \<Rightarrow> (None, s2)
                  | (Inr (Some n), s2) \<Rightarrow>
                      (None, emit_change byNode InventoryUpdated
                         (case map_of (iv_status s2) (n_id n) of None \<Rightarrow> n | Some st \<Rightarrow> n\<lparr>n_status := st\<rparr>) s2))"

definition Remove :: "(string \<rightharpoonup> MeshMembership) option \<Rightarrow> string \<Rightarrow> inventory \<Rightarrow> inv_error option \<times> inventory" where
  "Remove byNode i s = (let (r, s1) = Get i s in
     case r of
       Inl e \<Rightarrow> (Some e, s1)
     | Inr None \<Rightarrow> (Some IvNoRows, s1)
     | Inr (Some n) \<Rightarrow>
         (let (e, s2) = Delete i s1 in
          case e of
            Some x \<Rightarrow> (Some x, s2)
          | None \<Rightarrow> (None, emit_change byNode InventoryRemoved n (s2\<lparr>iv_status := AList.delete i (iv_status s2)\<rparr>))))"

definition seed :: "gotime \<Rightarrow> (string \<rightharpoonup> MeshMembership) option \<Rightarrow> inventory \<Rightarrow> inv_error option \<times> inventory" where
  "seed now byNode s = (let (r, s1) = List_nodes s in
     case r of
       Inl e \<Rightarrow> (Some e, s1)
     | Inr ns \<Rightarrow> (None, s1\<lparr>iv_status := fold (\<lambda>n. AList.update (n_id n) (n_status n)) (applyMeshAt now byNode ns) (iv_status s1)\<rparr>))"

text \<open>A heartbeat of node \<open>i\<close> (the id comes from the subject, \<^verbatim>\<open>busident.NodeIDFromSubject\<close>).\<close>

definition handleHeartbeat :: "(string \<rightharpoonup> MeshMembership) option \<Rightarrow> string \<Rightarrow> gotime \<Rightarrow> inventory \<Rightarrow> inventory" where
  "handleHeartbeat byNode i now s =
     (let (ok, r) = Touch i now (iv_registry s) in
      if \<not> ok then s
      else let prev = map_of (iv_status s) i;
               s1 = s\<lparr>iv_registry := r, iv_status := AList.update i StatusOnline (iv_status s)\<rparr>
           in if prev = Some StatusOnline then s1
              else case Get i s1 of
                     (Inr (Some n), s2) \<Rightarrow> emit_change byNode InventoryOnline (n\<lparr>n_status := StatusOnline\<rparr>) s2
                   | (_, s2) \<Rightarrow> s2)"

definition node_of_event :: "NodeRegisteredEvt \<Rightarrow> gotime \<Rightarrow> Node" where
  "node_of_event ev now = \<lparr>n_id = ev_node ev, n_role = ev_role ev, n_hostname = ev_hostname ev,
     n_agent_version = ev_agent_version ev, n_image_version = ev_image_version ev, n_confirmed_at = Some now,
     n_architecture = ev_architecture ev, n_lan_ip = ev_lan_ip ev, n_capabilities = ev_capabilities ev,
     n_metadata = ev_metadata ev, n_storage = ev_storage ev, n_first_seen = now, n_last_seen = now,
     n_status = StatusOnline, n_mesh = None\<rparr>"

definition refresh_node :: "NodeRegisteredEvt \<Rightarrow> gotime \<Rightarrow> Node \<Rightarrow> Node" where
  "refresh_node ev now n = n\<lparr>n_hostname := ev_hostname ev, n_agent_version := ev_agent_version ev,
     n_image_version := ev_image_version ev, n_confirmed_at := Some now,
     n_architecture := (if ev_architecture ev \<noteq> [] then ev_architecture ev else n_architecture n),
     n_storage := (if ev_storage ev \<noteq> None then ev_storage ev else n_storage n),
     n_lan_ip := (if ev_lan_ip ev \<noteq> [] then ev_lan_ip ev else n_lan_ip n),
     n_capabilities := ev_capabilities ev, n_metadata := ev_metadata ev, n_last_seen := now\<rparr>"

definition register_new :: "(string \<rightharpoonup> MeshMembership) option \<Rightarrow> NodeRegisteredEvt \<Rightarrow> gotime \<Rightarrow> inventory \<Rightarrow> inventory" where
  "register_new byNode ev now s =
     (if MaxClusterNodes \<le> MemberCount (iv_registry s) then s
      else let n = node_of_event ev now; (e, s1) = Insert n s in
        if e \<noteq> None then s1
        else recordNodeKeys (ev_node ev) (ev_metadata ev) now
               (emit_change byNode InventoryAdded n (s1\<lparr>iv_status := AList.update (ev_node ev) StatusOnline (iv_status s1)\<rparr>)))"

definition register_again :: "(string \<rightharpoonup> MeshMembership) option \<Rightarrow> NodeRegisteredEvt \<Rightarrow> gotime \<Rightarrow> Node \<Rightarrow> inventory \<Rightarrow> inventory" where
  "register_again byNode ev now old s =
     (let n = refresh_node ev now old; (e, s1) = Update n s in
      if e \<noteq> None then s1
      else let prev = map_of (iv_status s1) (ev_node ev)
           in recordNodeKeys (ev_node ev) (ev_metadata ev) now
                (emit_change byNode (if prev \<noteq> Some StatusOnline then InventoryOnline else InventoryUpdated)
                   (n\<lparr>n_status := StatusOnline\<rparr>)
                   (s1\<lparr>iv_status := AList.update (ev_node ev) StatusOnline (iv_status s1)\<rparr>)))"

text \<open>
  A decoded registration (\<^verbatim>\<open>busident.DecodeRegistered\<close> has bound the node id to the subject).
  \<open>self\<close> is the api's own node with the address it knows for itself (\<^verbatim>\<open>SetSelfLANIP\<close>).
\<close>

definition handleRegistered :: "(string \<rightharpoonup> MeshMembership) option \<Rightarrow> (string \<times> string) option \<Rightarrow> NodeRegisteredEvt
    \<Rightarrow> gotime \<Rightarrow> inventory \<Rightarrow> inventory" where
  "handleRegistered byNode self ev0 now s =
     (if \<not> ValidRole (ev_role ev0) then s
      else let ev = (case self of
                 Some (i, ip) \<Rightarrow> if ev_node ev0 = i \<and> ip \<noteq> [] then ev0\<lparr>ev_lan_ip := ip\<rparr> else ev0
               | None \<Rightarrow> ev0)
           in case entry_of (iv_registry s) (ev_node ev) of
                Some e \<Rightarrow>
                  if Member e then
                    (if Role e \<noteq> ev_role ev then s
                     else case Get (ev_node ev) s of
                            (Inl _, s1) \<Rightarrow> s1
                          | (Inr None, s1) \<Rightarrow> register_new byNode ev now s1
                          | (Inr (Some old), s1) \<Rightarrow> register_again byNode ev now old s1)
                  else register_new byNode ev now s
              | None \<Rightarrow> register_new byNode ev now s)"

fun transition_event :: "NodeStatus \<Rightarrow> InventoryChangeType option" where
  "transition_event StatusOnline = Some InventoryOnline"
| "transition_event StatusStale = Some InventoryStale"
| "transition_event StatusOffline = Some InventoryOffline"
| "transition_event StatusOffBus = Some InventoryOffBus"
| "transition_event StatusUnset = None"

text \<open>A node with no published status reads as the empty one, which no derived status equals.\<close>

definition scan_node :: "(string \<rightharpoonup> MeshMembership) option \<Rightarrow> Node \<Rightarrow> inventory \<Rightarrow> inventory" where
  "scan_node byNode n s =
     (let cur = n_status n;
          prev = (case map_of (iv_status s) (n_id n) of None \<Rightarrow> StatusUnset | Some st \<Rightarrow> st)
      in if cur = prev then s
         else let s1 = s\<lparr>iv_status := AList.update (n_id n) cur (iv_status s)\<rparr>
              in case transition_event cur of None \<Rightarrow> s1 | Some c \<Rightarrow> emit_change byNode c n s1)"

definition scanForTransitions :: "gotime \<Rightarrow> (string \<rightharpoonup> MeshMembership) option \<Rightarrow> inventory \<Rightarrow> inventory" where
  "scanForTransitions now byNode s = (case List_nodes s of
     (Inl _, s1) \<Rightarrow> s1
   | (Inr ns, s1) \<Rightarrow> fold (scan_node byNode) (applyMeshAt now byNode ns) s1)"

end
