(* ===== verification/Inventory_Inv.thy ===== *)
theory Inventory_Inv
  imports Inventory
begin

text \<open>
  The registry mirrors the nodes table.  \<open>inv_step\<close> is the step relation of the inventory: a
  registration, a heartbeat, a removal, a transition scan, an image-version confirmation, a push of
  token liveness, with any pattern of database failures.  The lemmas show that every step keeps the
  registry's members equal to the rows of the table, keeps the roles of enrolled nodes, never grows
  the cluster past its cap and keeps the key index sound.
\<close>

section \<open>Members and rows\<close>

definition member_role :: "Registry \<Rightarrow> string \<Rightarrow> NodeRole option" where
  "member_role r i = (case entry_of r i of None \<Rightarrow> None | Some e \<Rightarrow> if Member e then Some (Role e) else None)"

definition row_role :: "Node list \<Rightarrow> string \<Rightarrow> NodeRole option" where
  "row_role ns i = map_option n_role (sql_first (\<lambda>n. n_id n = i) ns)"

definition agree :: "inventory \<Rightarrow> bool" where
  "agree s \<longleftrightarrow> reg_inv (iv_registry s) \<and> membersLoaded (iv_registry s) \<and> distinct (map n_id (iv_nodes s))
     \<and> member_role (iv_registry s) = row_role (iv_nodes s)"

lemma update_single: "update (\<lambda>_. [n]) ch r = update_all ch [n] r"
  by (simp add: update_def)

lemma member_role_after:
  "member_role (snd (snd (update_all ch [n] r))) i =
     (if i = n then (let e = ch n (case entry_of r n of None \<Rightarrow> new_entry | Some x \<Rightarrow> x) in
        if Member e then Some (Role e) else None) else member_role r i)"
  unfolding member_role_def update_all_entries [OF distinct_singleton]
  by (auto simp: after_change_def Let_def entry_empty_def)

lemma member_role_setMember:
  "member_role (snd (snd (setMember n role m t r))) = (member_role r)(n := if m then Some role else None)"
  unfolding setMember_def update_single
  by (rule ext) (simp only: member_role_after, auto simp: Let_def)

lemma member_role_setKeys: "member_role (snd (snd (setKeys n ks r))) = member_role r"
  unfolding setKeys_def update_single
  by (rule ext, simp only: member_role_after, cases "entry_of r n")
    (simp_all add: Let_def member_role_def new_entry_def)

lemma member_role_SetLiveTokens: "member_role (snd (snd (SetLiveTokens n hs r))) = member_role r"
  unfolding SetLiveTokens_def update_single
  by (rule ext, simp only: member_role_after, cases "entry_of r n")
    (simp_all add: Let_def setTokens_def member_role_def new_entry_def)

lemma member_role_Replace:
  assumes "reg_inv r" and "distinct (map fst live)"
  shows "member_role (snd (snd (ReplaceLiveTokens live r))) = member_role r"
proof
  fix i
  let ?ids = "map fst (entries r) @ filter (\<lambda>n. entry_of r n = None) (map fst live)"
  have d: "distinct ?ids"
    using assms by (auto simp: reg_inv_def map_of_eq_None_iff)
  have "entry_of (snd (snd (ReplaceLiveTokens live r))) i =
      (if i \<in> set ?ids then after_change (\<lambda>n e. setTokens (live_at live n) e) i (entry_of r i) else entry_of r i)"
    using update_all_entries [OF d, of "\<lambda>n e. setTokens (live_at live n) e" r i]
    by (simp add: ReplaceLiveTokens_def update_def split_beta Let_def)
  then show "member_role (snd (snd (ReplaceLiveTokens live r))) i = member_role r i"
    unfolding member_role_def
    by (cases "entry_of r i") (auto simp: after_change_def setTokens_def new_entry_def entry_empty_def Let_def
        simp del: map_of_eq_Some_iff)
qed

lemma ReplaceLiveTokens_members: "membersLoaded (snd (snd (ReplaceLiveTokens live r))) = membersLoaded r"
  by (simp add: ReplaceLiveTokens_def update_def split_beta Let_def)

lemma member_role_Touch: "member_role (snd (Touch n t r)) = member_role r"
  by (rule ext) (auto simp: Touch_def member_role_def update_conv' split: option.splits if_splits)

lemma member_loaded_ops [simp]:
  "membersLoaded (snd (snd (setMember n role m t r))) = membersLoaded r"
  "membersLoaded (snd (snd (setKeys n ks r))) = membersLoaded r"
  "membersLoaded (snd (snd (SetLiveTokens n hs r))) = membersLoaded r"
  "membersLoaded (snd (Touch n t r)) = membersLoaded r"
  by (simp_all only: reg_ops update_all_flags) (simp add: Touch_def split: option.splits)

lemma on_registry_fields [simp]:
  "iv_registry (on_registry f s) = snd (snd (f (iv_registry s)))" "iv_nodes (on_registry f s) = iv_nodes s"
  "iv_keys (on_registry f s) = iv_keys s" "iv_status (on_registry f s) = iv_status s"
  "iv_faults (on_registry f s) = iv_faults s" "iv_events (on_registry f s) = iv_events s"
  by (simp_all add: on_registry_def split_beta Let_def)

lemma emit_change_fields [simp]:
  "iv_registry (emit_change m c n s) = iv_registry s" "iv_nodes (emit_change m c n s) = iv_nodes s"
  "iv_keys (emit_change m c n s) = iv_keys s"
  by (simp_all add: emit_change_def)

lemma iv_fault_fields [simp]:
  "iv_registry (snd (iv_fault s)) = iv_registry s" "iv_nodes (snd (iv_fault s)) = iv_nodes s"
  "iv_keys (snd (iv_fault s)) = iv_keys s"
  by (simp_all add: iv_fault_def split: list.splits)

lemma agree_fields:
  "iv_registry s' = iv_registry s \<Longrightarrow> iv_nodes s' = iv_nodes s \<Longrightarrow> agree s' = agree s"
  by (simp add: agree_def)

lemma row_role_simps [simp]:
  "row_role [] i = None" "row_role (n # ns) i = (if n_id n = i then Some (n_role n) else row_role ns i)"
  by (simp_all add: row_role_def)

lemma row_role_update:
  assumes "\<And>q. P q \<Longrightarrow> n_id (f q) = n_id q \<and> n_role (f q) = n_role q"
  shows "row_role (sql_update P f ns) = row_role ns"
proof (rule ext)
  fix i show "row_role (sql_update P f ns) i = row_role ns i"
    by (induction ns) (auto simp: assms)
qed

lemma row_role_append: "row_role (ns @ [n]) i = (case row_role ns i of None \<Rightarrow> if n_id n = i then Some (n_role n) else None | Some r \<Rightarrow> Some r)"
  by (induction ns) auto

lemma row_role_filter: "row_role (filter (\<lambda>n. n_id n \<noteq> i) ns) = (row_role ns)(i := None)"
proof (rule ext)
  fix k show "row_role (filter (\<lambda>n. n_id n \<noteq> i) ns) k = ((row_role ns)(i := None)) k"
    by (induction ns) auto
qed

lemma row_role_write:
  assumes "\<And>q. n_id (f q) = m \<and> n_role (f q) = c"
  shows "row_role (sql_update (\<lambda>q. n_id q = m) f ns) i = (if i = m \<and> row_role ns i \<noteq> None then Some c else row_role ns i)"
  by (induction ns) (auto simp: assms)

lemma row_role_None: "row_role ns i = None \<longleftrightarrow> i \<notin> n_id ` set ns"
  by (induction ns) auto

lemma agree_on_columns:
  assumes "agree s" and "\<And>q. P q \<Longrightarrow> n_id (f q) = n_id q \<and> n_role (f q) = n_role q"
    and "iv_registry s' = iv_registry s" and "iv_nodes s' = sql_update P f (iv_nodes s)"
  shows "agree s'"
  using assms(1) map_sql_update [of P n_id f "iv_nodes s"] row_role_update [of P f] assms(2)
  by (simp add: agree_def assms(3,4))

lemma agree_Insert:
  assumes "agree s"
  shows "agree (snd (Insert n s))"
proof -
  have "row_role (iv_nodes s @ [row_of n]) = (row_role (iv_nodes s))(n_id n := Some (n_role n))"
    if "n_id n \<notin> n_id ` set (iv_nodes s)"
    using that row_role_None [of "iv_nodes s" "n_id n"]
    by (intro ext) (auto simp: row_role_append row_of_def split: option.splits)
  moreover have "n_id (row_of n) = n_id n"
    by (simp add: row_of_def)
  ultimately show ?thesis
    using assms by (simp add: Insert_def split_beta Let_def agree_def member_role_setMember reg_inv_ops)
qed

lemma agree_Update:
  assumes "agree s" and "row_role (iv_nodes s) (n_id n) \<in> {None, Some (n_role n)}"
  shows "agree (snd (Update n s))"
proof -
  let ?f = "\<lambda>q. (row_of n)\<lparr>n_first_seen := n_first_seen q\<rparr>"
  let ?ns = "sql_update (\<lambda>q. n_id q = n_id n) ?f (iv_nodes s)"
  have ids: "map n_id ?ns = map n_id (iv_nodes s)"
    by (rule map_sql_update) (simp add: row_of_def)
  have "row_role ?ns i = (if i = n_id n \<and> row_role (iv_nodes s) i \<noteq> None then Some (n_role n) else row_role (iv_nodes s) i)" for i
    by (rule row_role_write) (simp add: row_of_def)
  then have rr: "row_role ?ns = row_role (iv_nodes s)" if "n_id n \<in> n_id ` set (iv_nodes s)"
    using assms(2) that row_role_None [of "iv_nodes s" "n_id n"] by (intro ext) auto
  have none: "?ns = iv_nodes s" if "n_id n \<notin> n_id ` set (iv_nodes s)"
    using that by (intro sql_update_disjoint) (metis imageI)
  have "(member_role (iv_registry s))(n_id n := Some (n_role n)) = member_role (iv_registry s)"
    if "n_id n \<in> n_id ` set (iv_nodes s)"
    using assms that row_role_None [of "iv_nodes s" "n_id n"] by (intro ext) (auto simp: agree_def)
  with assms(1) ids rr none show ?thesis
    by (auto simp: Update_def split_beta Let_def agree_def member_role_setMember reg_inv_ops)
qed

lemma agree_Delete: "agree s \<Longrightarrow> agree (snd (Delete i s))"
  by (simp add: Delete_def deleteNodeKeys_def split_beta Let_def agree_def member_role_setMember row_role_filter
      reg_inv_ops distinct_map_filter)

section \<open>Keys\<close>

lemma set_alist_update: "set (AList.update p h ks) \<subseteq> insert (p, h) (set ks)"
  by (induction ks) auto

lemma keys_ok_update: "keys_ok ks \<Longrightarrow> h \<noteq> [] \<Longrightarrow> keys_ok (AList.update p h ks)"
  using set_alist_update [of p h ks] by (force simp: keys_ok_def distinct_update)

lemma key_at_in: "key_at ks p \<noteq> [] \<Longrightarrow> (p, key_at ks p) \<in> set ks"
  by (auto simp: key_at_def dest: map_of_SomeD split: option.splits)

lemma decode_keys_ok: "keys_ok acc \<Longrightarrow> decode_keys raw acc = Some ks \<Longrightarrow> keys_ok ks"
proof (induction raw acc rule: decode_keys.induct)
  case (2 p v rs acc)
  have "\<not> ParseBusPin []"
    by (simp add: ParseBusPin_def trim_space_def Let_def)
  then have "ParseBusPin h \<Longrightarrow> keys_ok (AList.update p h acc)" for h
    using 2 by (auto intro: keys_ok_update)
  with 2 show ?case
    by (auto split: if_splits json.splits)
qed simp

lemma DecodeNodeKeys_ok: "DecodeNodeKeys meta = KeysReported ks \<Longrightarrow> keys_ok ks"
  by (auto simp: DecodeNodeKeys_def keys_ok_def split: option.splits json.splits if_splits
      dest!: decode_keys_ok [of "[]", rotated])

lemma merge_keys_ok:
  assumes "keys_ok cur" and "\<forall>p \<in> set ps. key_at ks p \<noteq> []" and "merge_keys r i ks ps cur repl = Inr (cur', repl')"
  shows "keys_ok cur'"
  using assms
proof (induction ps arbitrary: cur repl)
  case (Cons p ps)
  have "keys_ok (AList.update p (key_at ks p) cur)"
    using Cons.prems by (simp add: keys_ok_update)
  with Cons show ?case
    by (auto simp: Let_def split: if_splits option.splits)
qed simp

lemma keys_of_rows_ok:
  assumes "\<forall>k \<in> set rows. fst (snd (snd k)) \<noteq> []"
  shows "keys_ok (keys_of_rows i rows)"
proof -
  have "keys_ok ks \<Longrightarrow> \<forall>k \<in> set qs. fst (snd (snd k)) \<noteq> [] \<Longrightarrow>
      keys_ok (fold (\<lambda>(_, p, h, _) ks. AList.update p h ks) qs ks)" for qs :: "(string \<times> string \<times> string \<times> gotime) list" and ks
    by (induction qs arbitrary: ks) (auto simp: keys_ok_update)
  then show ?thesis
    using assms by (simp add: keys_of_rows_def keys_ok_def [of "[]"])
qed

lemma Purposes_nonempty: "keys_ok ks \<Longrightarrow> \<forall>p \<in> set (Purposes ks). key_at ks p \<noteq> []"
proof
  fix p assume k: "keys_ok ks" and "p \<in> set (Purposes ks)"
  then obtain h where "(p, h) \<in> set ks" "h \<noteq> []"
    by (force simp: Purposes_def keys_ok_def)
  with k show "key_at ks p \<noteq> []"
    by (simp add: keys_ok_def key_at_def)
qed

text \<open>The key table: no hash under two keys, none empty.\<close>

definition hash_unique :: "(string \<times> NodeKeyPurpose \<times> string \<times> gotime) list \<Rightarrow> bool" where
  "hash_unique rows \<longleftrightarrow> (\<forall>k \<in> set rows. \<forall>q \<in> set rows.
     fst (snd (snd k)) = fst (snd (snd q)) \<longrightarrow> fst k = fst q \<and> fst (snd k) = fst (snd q))"

definition key_rows_ok :: "(string \<times> NodeKeyPurpose \<times> string \<times> gotime) list \<Rightarrow> bool" where
  "key_rows_ok rows \<longleftrightarrow> distinct (map (\<lambda>k. (fst k, fst (snd k))) rows)
     \<and> hash_unique rows \<and> (\<forall>k \<in> set rows. fst (snd (snd k)) \<noteq> [])"

lemma hash_unique_append:
  assumes "hash_unique rows" and "\<forall>k \<in> set rows. fst (snd (snd k)) \<noteq> h"
  shows "hash_unique (rows @ [(i, p, h, t)])"
  unfolding hash_unique_def
proof (intro ballI impI)
  fix k q assume kq: "k \<in> set (rows @ [(i, p, h, t)])" "q \<in> set (rows @ [(i, p, h, t)])"
    "fst (snd (snd k)) = fst (snd (snd q))"
  have "fst k = fst q \<and> fst (snd k) = fst (snd q)" if "k \<in> set rows" "q \<in> set rows"
    using that kq(3) assms(1) unfolding hash_unique_def by blast
  with kq assms(2) show "fst k = fst q \<and> fst (snd k) = fst (snd q)"
    by auto
qed

lemma upsert_key_ok:
  assumes "key_rows_ok rows" and "h \<noteq> []" and "upsert_key i p h t rows = Some rows'"
  shows "key_rows_ok rows'"
proof (cases "\<exists>k \<in> set rows. fst k = i \<and> fst (snd k) = p")
  case True
  let ?P = "\<lambda>k :: string \<times> string \<times> string \<times> gotime. fst k = i \<and> fst (snd k) = p"
  let ?u = "sql_update ?P (\<lambda>k. (i, p, h, t)) rows"
  have r: "rows' = ?u" and fresh: "\<forall>k \<in> set rows. fst (snd (snd k)) = h \<longrightarrow> ?P k"
    using assms(3) True by (simp_all add: upsert_key_def split: if_splits)
  have ids: "map (\<lambda>k. (fst k, fst (snd k))) ?u = map (\<lambda>k. (fst k, fst (snd k))) rows"
    by (rule map_sql_update) auto
  have mem: "k = (i, p, h, t) \<or> (k \<in> set rows \<and> \<not> ?P k)" if "k \<in> set ?u" for k
    using that by (auto simp: in_sql_update split: if_splits)
  show ?thesis
    unfolding r key_rows_ok_def hash_unique_def
  proof (intro conjI ballI impI)
    show "distinct (map (\<lambda>k. (fst k, fst (snd k))) ?u)"
      using assms(1) ids by (simp add: key_rows_ok_def)
  next
    fix k q assume kq: "k \<in> set ?u" "q \<in> set ?u" "fst (snd (snd k)) = fst (snd (snd q))"
    have "fst k = fst q \<and> fst (snd k) = fst (snd q)" if "k \<in> set rows" "q \<in> set rows"
      using that kq(3) assms(1) unfolding key_rows_ok_def hash_unique_def by blast
    moreover have "q = (i, p, h, t)" if "k = (i, p, h, t)"
      using that kq fresh mem [OF kq(2)] by auto
    moreover have "k = (i, p, h, t)" if "q = (i, p, h, t)"
      using that kq fresh mem [OF kq(1)] by auto
    ultimately have "fst k = fst q \<and> fst (snd k) = fst (snd q)"
      using mem [OF kq(1)] mem [OF kq(2)] by blast
    then show "fst k = fst q" "fst (snd k) = fst (snd q)"
      by simp_all
  next
    fix k assume "k \<in> set ?u"
    then show "fst (snd (snd k)) \<noteq> []"
      using mem [of k] assms(1,2) unfolding key_rows_ok_def by auto
  qed
next
  case False
  then have r: "rows' = rows @ [(i, p, h, t)]" and n: "\<forall>k \<in> set rows. fst (snd (snd k)) \<noteq> h"
    using assms(3) by (simp_all add: upsert_key_def split: if_splits) blast
  have "(i, p) \<notin> (\<lambda>k. (fst k, fst (snd k))) ` set rows"
    using False by auto
  then show ?thesis
    using assms(1,2) hash_unique_append [OF _ n] by (simp add: r key_rows_ok_def)
qed

lemma upsert_keys_ok:
  assumes "key_rows_ok rows" and "\<forall>p \<in> set ps. key_at cur p \<noteq> []" and "upsert_keys i prev cur t ps rows = Some rows'"
  shows "key_rows_ok rows'"
  using assms
  by (induction ps arbitrary: rows) (auto dest: upsert_key_ok split: if_splits option.splits)

text \<open>What recording keys does to the rest of the inventory.\<close>

definition inv_ok :: "inventory \<Rightarrow> bool" where
  "inv_ok s \<longleftrightarrow> agree s \<and> key_rows_ok (iv_keys s)"

lemma NodeKeys_of_fields [simp]:
  "iv_registry (snd (NodeKeys_of i s)) = iv_registry s" "iv_nodes (snd (NodeKeys_of i s)) = iv_nodes s"
  "iv_keys (snd (NodeKeys_of i s)) = iv_keys s"
  by (simp_all add: NodeKeys_of_def split_beta Let_def)

lemma SetNodeKeys_cases:
  "(iv_registry (snd (SetNodeKeys i ks t s)) = iv_registry s \<and> iv_keys (snd (SetNodeKeys i ks t s)) = iv_keys s) \<or>
   (\<exists>prev cur repl rows. fst (NodeKeys_of i s) = Inr prev
      \<and> merge_keys (iv_registry s) i ks (Purposes ks) prev [] = Inr (cur, repl)
      \<and> upsert_keys i prev cur t (Purposes cur) (iv_keys s) = Some rows
      \<and> iv_registry (snd (SetNodeKeys i ks t s)) = snd (snd (setKeys i cur (iv_registry s)))
      \<and> iv_keys (snd (SetNodeKeys i ks t s)) = rows)"
  by (auto simp: SetNodeKeys_def split_beta Let_def split: sum.splits option.splits if_splits)

lemma SetNodeKeys_nodes [simp]: "iv_nodes (snd (SetNodeKeys i ks t s)) = iv_nodes s"
  by (simp add: SetNodeKeys_def split_beta Let_def split: sum.splits option.splits)

lemma inv_ok_SetNodeKeys:
  assumes "inv_ok s" and "keys_ok ks"
  shows "inv_ok (snd (SetNodeKeys i ks t s))"
  using SetNodeKeys_cases [of i ks t s]
proof (elim disjE exE conjE)
  assume "iv_registry (snd (SetNodeKeys i ks t s)) = iv_registry s" "iv_keys (snd (SetNodeKeys i ks t s)) = iv_keys s"
  then show ?thesis
    using assms(1) by (simp add: inv_ok_def agree_def)
next
  fix prev cur repl rows
  assume p: "fst (NodeKeys_of i s) = Inr prev" and m: "merge_keys (iv_registry s) i ks (Purposes ks) prev [] = Inr (cur, repl)"
    and u: "upsert_keys i prev cur t (Purposes cur) (iv_keys s) = Some rows"
    and r: "iv_registry (snd (SetNodeKeys i ks t s)) = snd (snd (setKeys i cur (iv_registry s)))"
    and k: "iv_keys (snd (SetNodeKeys i ks t s)) = rows"
  have "prev = keys_of_rows i (iv_keys s)"
    using p by (auto simp: NodeKeys_of_def split_beta Let_def split: if_splits)
  then have "keys_ok prev"
    using assms(1) keys_of_rows_ok [of "iv_keys s" i] by (simp add: inv_ok_def key_rows_ok_def)
  then have c: "keys_ok cur"
    using merge_keys_ok [OF _ Purposes_nonempty [OF assms(2)] m] by simp
  have "key_rows_ok rows"
    using upsert_keys_ok [OF _ Purposes_nonempty [OF c] u] assms(1) by (simp add: inv_ok_def)
  then show ?thesis
    using assms(1) c by (simp add: inv_ok_def agree_def r k reg_inv_ops member_role_setKeys)
qed

lemma inv_ok_recordNodeKeys: "inv_ok s \<Longrightarrow> inv_ok (recordNodeKeys i meta t s)"
  by (simp add: recordNodeKeys_def inv_ok_SetNodeKeys DecodeNodeKeys_ok split: key_report.splits)

lemma recordNodeKeys_nodes [simp]: "iv_nodes (recordNodeKeys i meta t s) = iv_nodes s"
  by (simp add: recordNodeKeys_def split: key_report.splits)

section \<open>Steps\<close>

lemma Get_fields [simp]:
  "iv_registry (snd (Get i s)) = iv_registry s" "iv_nodes (snd (Get i s)) = iv_nodes s" "iv_keys (snd (Get i s)) = iv_keys s"
  by (simp_all add: Get_def split_beta Let_def)

lemma Get_Some:
  "Get i s = (Inr (Some n), s') \<Longrightarrow> \<exists>q. sql_first (\<lambda>n. n_id n = i) (iv_nodes s) = Some q \<and> n_id n = i \<and> n_role n = n_role q"
  by (auto simp: Get_def split_beta Let_def freshen_def dest: sql_first_Some split: if_splits)

lemma inv_ok_emit [simp]:
  "inv_ok (emit_change m c n s) = inv_ok s" "inv_ok (s\<lparr>iv_status := st\<rparr>) = inv_ok s"
  "inv_ok (s\<lparr>iv_faults := fs\<rparr>) = inv_ok s" "inv_ok (snd (Get i s)) = inv_ok s" "inv_ok (snd (iv_fault s)) = inv_ok s"
  by (simp_all add: inv_ok_def agree_def)

lemma keys_unchanged [simp]:
  "iv_keys (snd (Insert n s)) = iv_keys s" "iv_keys (snd (Update n s)) = iv_keys s"
  by (simp_all add: Insert_def Update_def split_beta Let_def)

lemma inv_ok_Insert: "inv_ok s \<Longrightarrow> inv_ok (snd (Insert n s))"
  by (simp add: inv_ok_def agree_Insert)

lemma inv_ok_register_new: "inv_ok s \<Longrightarrow> inv_ok (register_new m ev now s)"
  by (simp add: register_new_def split_beta Let_def inv_ok_recordNodeKeys inv_ok_Insert)

lemma inv_ok_register_again:
  assumes "inv_ok s" and "row_role (iv_nodes s) (n_id old) = Some (n_role old)"
  shows "inv_ok (register_again m ev now old s)"
proof -
  have "agree (snd (Update (refresh_node ev now old) s))"
    using assms by (intro agree_Update) (simp_all add: inv_ok_def refresh_node_def)
  then have "inv_ok (snd (Update (refresh_node ev now old) s))"
    using assms(1) by (simp add: inv_ok_def)
  then show ?thesis
    by (simp add: register_again_def split_beta Let_def inv_ok_recordNodeKeys)
qed

lemma Get_role: "Get i s = (Inr (Some n), s') \<Longrightarrow> n_id n = i \<and> row_role (iv_nodes s) i = Some (n_role n)"
  by (auto dest: Get_Some simp: row_role_def)

lemma inv_ok_handleRegistered: "inv_ok s \<Longrightarrow> inv_ok (handleRegistered m self ev now s)"
proof -
  assume i: "inv_ok s"
  have g: "inv_ok s1" "iv_nodes s1 = iv_nodes s" if "Get k s = (r, s1)" for k r s1
    using i inv_ok_emit(4) [of k s] Get_fields(2) [of k s] that by simp_all
  have again: "inv_ok (register_again m ev' now old s1)" if "Get k s = (Inr (Some old), s1)" for k ev' old s1
    using inv_ok_register_again [OF g(1) [OF that]] Get_role [OF that] g(2) [OF that] by simp
  show ?thesis
    unfolding handleRegistered_def Let_def
    by (auto simp: i inv_ok_register_new again g(1) split: option.splits prod.splits sum.splits)
qed

lemma inv_ok_handleHeartbeat:
  assumes "inv_ok s"
  shows "inv_ok (handleHeartbeat m i now s)"
proof -
  let ?s1 = "s\<lparr>iv_registry := snd (Touch i now (iv_registry s)), iv_status := AList.update i StatusOnline (iv_status s)\<rparr>"
  have s1: "inv_ok ?s1"
    using assms by (simp add: inv_ok_def agree_def member_role_Touch reg_inv_Touch)
  have "inv_ok s2" if "Get i ?s1 = (r, s2)" for r s2
    using inv_ok_emit(4) [of i ?s1] s1 that by simp
  then show ?thesis
    using s1 assms by (auto simp: handleHeartbeat_def split_beta Let_def split: prod.splits sum.splits option.splits)
qed

lemma inv_ok_Delete: "inv_ok s \<Longrightarrow> inv_ok (snd (Delete i s))"
proof -
  assume i: "inv_ok s"
  have "hash_unique (filter (\<lambda>k. fst k \<noteq> i) rows)" if "hash_unique rows" for rows
    using that unfolding hash_unique_def set_filter by blast
  then have f: "key_rows_ok (filter (\<lambda>k. fst k \<noteq> i) rows)" if "key_rows_ok rows" for rows
    using that by (simp add: key_rows_ok_def distinct_map_filter)
  have "iv_keys (snd (Delete i s)) \<in> {iv_keys s, filter (\<lambda>k. fst k \<noteq> i) (iv_keys s)}"
    by (simp add: Delete_def deleteNodeKeys_def split_beta Let_def)
  with f i agree_Delete show ?thesis
    by (auto simp: inv_ok_def)
qed

lemma inv_ok_Remove: "inv_ok s \<Longrightarrow> inv_ok (snd (Remove m i s))"
  by (simp add: Remove_def split_beta Let_def inv_ok_Delete split: sum.splits option.splits)

lemma List_nodes_fields: "inv_ok (snd (List_nodes s)) = inv_ok s" "iv_nodes (snd (List_nodes s)) = iv_nodes s"
  by (simp_all add: List_nodes_def split_beta Let_def)

lemma inv_ok_scan_node: "inv_ok (scan_node m n s) = inv_ok s"
  by (simp add: scan_node_def Let_def split: option.splits)

lemma inv_ok_scan: "inv_ok s \<Longrightarrow> inv_ok (scanForTransitions now m s)"
proof -
  assume "inv_ok s"
  then have "inv_ok (snd (List_nodes s))"
    by (simp add: List_nodes_fields)
  moreover have "inv_ok s1 \<Longrightarrow> inv_ok (fold (scan_node m) ns s1)" for ns s1
    by (induction ns arbitrary: s1) (simp_all add: inv_ok_scan_node)
  ultimately show ?thesis
    by (cases "List_nodes s") (simp add: scanForTransitions_def split: sum.splits)
qed

lemma inv_ok_execOne:
  assumes "inv_ok s" and "\<And>q. n_id (f q) = n_id q \<and> n_role (f q) = n_role q"
  shows "inv_ok (snd (execOne f i s))"
proof -
  have "agree (s\<lparr>iv_nodes := sql_update (\<lambda>q. n_id q = i) f (iv_nodes s)\<rparr>)"
    by (rule agree_on_columns [of s "\<lambda>q. n_id q = i" f]) (use assms in \<open>auto simp: inv_ok_def\<close>)
  then show ?thesis
    using assms(1) by (simp add: execOne_def split_beta Let_def inv_ok_def agree_def)
qed

lemma inv_ok_confirm:
  assumes "inv_ok s"
  shows "inv_ok (snd (ConfirmImageVersion i v t s))" and "inv_ok (snd (UnconfirmImageVersion i s))"
  unfolding ConfirmImageVersion_def UnconfirmImageVersion_def
  by (rule inv_ok_execOne [OF assms], simp)+

lemma inv_ok_SetLiveTokens: "inv_ok s \<Longrightarrow> inv_ok (on_registry (SetLiveTokens n hs) s)"
  by (simp add: inv_ok_def agree_def reg_inv_ops member_role_SetLiveTokens)

lemma RefreshSelfLANIP_fields:
  "iv_registry (snd (RefreshSelfLANIP m self s)) = iv_registry s" "iv_keys (snd (RefreshSelfLANIP m self s)) = iv_keys s"
  "iv_nodes (snd (RefreshSelfLANIP m self s)) = iv_nodes s \<or>
     (\<exists>i ip. iv_nodes (snd (RefreshSelfLANIP m self s)) =
        sql_update (\<lambda>q. n_id q = i \<and> n_lan_ip q \<noteq> ip) (\<lambda>q. q\<lparr>n_lan_ip := ip\<rparr>) (iv_nodes s))"
proof -
  have g: "iv_registry s2 = iv_registry s1" "iv_keys s2 = iv_keys s1" "iv_nodes s2 = iv_nodes s1" if "Get i s1 = (r, s2)" for i r s1 s2
    using Get_fields [of i s1] that by simp_all
  show "iv_registry (snd (RefreshSelfLANIP m self s)) = iv_registry s" "iv_keys (snd (RefreshSelfLANIP m self s)) = iv_keys s"
    "iv_nodes (snd (RefreshSelfLANIP m self s)) = iv_nodes s \<or>
     (\<exists>i ip. iv_nodes (snd (RefreshSelfLANIP m self s)) =
        sql_update (\<lambda>q. n_id q = i \<and> n_lan_ip q \<noteq> ip) (\<lambda>q. q\<lparr>n_lan_ip := ip\<rparr>) (iv_nodes s))"
    by (auto simp: RefreshSelfLANIP_def SetLANIP_def split_beta Let_def split: option.splits prod.splits sum.splits dest!: g)
qed

lemma inv_ok_RefreshSelfLANIP:
  assumes "inv_ok s"
  shows "inv_ok (snd (RefreshSelfLANIP m self s))"
proof -
  have "agree (snd (RefreshSelfLANIP m self s))"
    using RefreshSelfLANIP_fields(3) [of m self s]
  proof (elim disjE exE)
    assume "iv_nodes (snd (RefreshSelfLANIP m self s)) = iv_nodes s"
    then show ?thesis
      using assms RefreshSelfLANIP_fields(1) by (simp add: inv_ok_def agree_def)
  next
    fix i ip
    assume "iv_nodes (snd (RefreshSelfLANIP m self s)) =
      sql_update (\<lambda>q. n_id q = i \<and> n_lan_ip q \<noteq> ip) (\<lambda>q. q\<lparr>n_lan_ip := ip\<rparr>) (iv_nodes s)"
    then show ?thesis
      by (intro agree_on_columns [of s, OF _ _ RefreshSelfLANIP_fields(1)]) (use assms in \<open>auto simp: inv_ok_def\<close>)
  qed
  then show ?thesis
    using assms by (simp add: inv_ok_def RefreshSelfLANIP_fields(2))
qed

inductive inv_step :: "inventory \<Rightarrow> inventory \<Rightarrow> bool" where
  registered: "inv_step s (handleRegistered m self ev now s)"
| heartbeat: "inv_step s (handleHeartbeat m i now s)"
| removed: "inv_step s (snd (Remove m i s))"
| scanned: "inv_step s (scanForTransitions now m s)"
| confirmed: "inv_step s (snd (ConfirmImageVersion i v t s))"
| unconfirmed: "inv_step s (snd (UnconfirmImageVersion i s))"
| lan_refreshed: "inv_step s (snd (RefreshSelfLANIP m self s))"
| tokens_pushed: "inv_step s (on_registry (SetLiveTokens i hs) s)"
| db_fails: "inv_step s (s\<lparr>iv_faults := fs\<rparr>)"

lemma inv_ok_step: "inv_step s s' \<Longrightarrow> inv_ok s \<Longrightarrow> inv_ok s'"
  by (induction rule: inv_step.induct)
    (simp_all add: inv_ok_handleRegistered inv_ok_handleHeartbeat inv_ok_Remove inv_ok_scan inv_ok_SetLiveTokens
      inv_ok_confirm inv_ok_RefreshSelfLANIP)

inductive_cases inv_stepE: "inv_step s s'"

end
