(* ===== verification/Inventory_Props.thy ===== *)
theory Inventory_Props
  imports Inventory_Inv
begin

text \<open>
  The properties of the node inventory: the registry and the tables agree in every reachable state,
  the cluster cap, the fixed role of an enrolled node, the transition scan, and what a node-facing
  handshake may conclude from a registered key.
\<close>

section \<open>Opening the store\<close>

lemma member_role_flags: "member_role (r\<lparr>membersLoaded := b\<rparr>) = member_role r"
  by (simp add: member_role_def fun_eq_iff)

lemma load_members_fold:
  assumes "reg_inv (iv_registry s)" and "distinct (map n_id ns)"
  defines "s' \<equiv> fold (\<lambda>n. on_registry (setMember (n_id n) (n_role n) True (n_last_seen n))) ns s"
  shows "reg_inv (iv_registry s') \<and> iv_nodes s' = iv_nodes s \<and> iv_keys s' = iv_keys s
    \<and> member_role (iv_registry s') = (\<lambda>i. case row_role ns i of None \<Rightarrow> member_role (iv_registry s) i | Some r \<Rightarrow> Some r)"
  using assms(1,2) unfolding s'_def
proof (induction ns arbitrary: s)
  case Nil
  then show ?case by simp
next
  case (Cons n ns)
  let ?s = "on_registry (setMember (n_id n) (n_role n) True (n_last_seen n)) s"
  have "reg_inv (iv_registry ?s)" "row_role ns (n_id n) = None"
    using Cons.prems row_role_None [of ns "n_id n"] by (simp_all add: reg_inv_ops)
  with Cons.IH [of ?s] Cons.prems(2) show ?case
    by (auto simp: member_role_setMember fun_eq_iff split: option.splits)
qed

lemma load_keys_fold:
  assumes "reg_inv (iv_registry s)" and "\<And>i. keys_ok (f i)"
  shows "reg_inv (iv_registry (fold (\<lambda>i. on_registry (setKeys i (f i))) is s))
    \<and> iv_nodes (fold (\<lambda>i. on_registry (setKeys i (f i))) is s) = iv_nodes s
    \<and> iv_keys (fold (\<lambda>i. on_registry (setKeys i (f i))) is s) = iv_keys s
    \<and> membersLoaded (iv_registry (fold (\<lambda>i. on_registry (setKeys i (f i))) is s)) = membersLoaded (iv_registry s)
    \<and> member_role (iv_registry (fold (\<lambda>i. on_registry (setKeys i (f i))) is s)) = member_role (iv_registry s)"
  using assms(1) by (induction "is" arbitrary: s) (simp_all add: reg_inv_ops member_role_setKeys assms(2))

lemma inv_ok_OpenStore:
  assumes "distinct (map n_id (iv_nodes s))" and "key_rows_ok (iv_keys s)" and "OpenStore s = (None, s')"
  shows "inv_ok s'" and "iv_nodes s' = iv_nodes s"
proof -
  define s0 where "s0 = s\<lparr>iv_registry := NewRegistry\<rparr>"
  define f where "f = snd (iv_fault s0)"
  have f: "reg_inv (iv_registry f)" "iv_nodes f = iv_nodes s" "iv_keys f = iv_keys s" "member_role (iv_registry f) = (\<lambda>_. None)"
    by (simp_all add: f_def s0_def reg_inv_ops(1)) (simp add: member_role_def NewRegistry_def fun_eq_iff)
  define s1 where "s1 = fold (\<lambda>n. on_registry (setMember (n_id n) (n_role n) True (n_last_seen n))) (iv_nodes f) f"
  define s2 where "s2 = s1\<lparr>iv_registry := (iv_registry s1)\<lparr>membersLoaded := True\<rparr>\<rparr>"
  have m: "reg_inv (iv_registry s1)" "iv_nodes s1 = iv_nodes s" "iv_keys s1 = iv_keys s"
    "member_role (iv_registry s1) = row_role (iv_nodes s)"
    using load_members_fold [OF f(1), of "iv_nodes f"] f assms(1) by (auto simp: s1_def fun_eq_iff split: option.splits)
  have load: "loadMembers s0 = (None, s2)" and k: "loadKeys s2 = (None, s')"
    using assms(3) by (auto simp: OpenStore_def s0_def [symmetric] loadMembers_def split_beta Let_def
        f_def [symmetric] s1_def [symmetric] s2_def [symmetric] split: if_splits option.splits)
  define g where "g = snd (iv_fault s2)"
  have g: "reg_inv (iv_registry g)" "iv_nodes g = iv_nodes s" "iv_keys g = iv_keys s" "membersLoaded (iv_registry g)"
    "member_role (iv_registry g) = row_role (iv_nodes s)"
    using m member_role_flags by (simp_all add: g_def s2_def)
  have "s' = fold (\<lambda>i. on_registry (setKeys i (keys_of_rows i (iv_keys g)))) (remdups (map fst (iv_keys g))) g"
    using k by (simp add: loadKeys_def split_beta Let_def g_def [symmetric] split: if_splits)
  moreover have "keys_ok (keys_of_rows i (iv_keys g))" for i
    using assms(2) g(3) by (intro keys_of_rows_ok) (simp add: key_rows_ok_def)
  ultimately show "inv_ok s'" and "iv_nodes s' = iv_nodes s"
    using load_keys_fold [OF g(1), of "\<lambda>i. keys_of_rows i (iv_keys g)" "remdups (map fst (iv_keys g))"] g assms(1,2)
    by (simp_all add: inv_ok_def agree_def)
qed

lemma inv_ok_steps: "inv_step\<^sup>*\<^sup>* s s' \<Longrightarrow> inv_ok s \<Longrightarrow> inv_ok s'"
  by (induction rule: rtranclp_induct) (auto dest: inv_ok_step)

section \<open>Counting members\<close>

lemma MemberCount_rows:
  assumes "agree s"
  shows "MemberCount (iv_registry s) = length (iv_nodes s)"
proof -
  let ?E = "entries (iv_registry s)"
  have d: "distinct (map fst ?E)" and dn: "distinct (map n_id (iv_nodes s))"
    using assms by (simp_all add: agree_def reg_inv_def)
  have "distinct (map fst (filter (\<lambda>(n, e). Member e) ?E))"
    using d by (simp add: distinct_map_filter)
  then have "MemberCount (iv_registry s) = card (fst ` set (filter (\<lambda>(n, e). Member e) ?E))"
    unfolding MemberCount_def by (metis distinct_card length_map set_map)
  also have "fst ` set (filter (\<lambda>(n, e). Member e) ?E) = {i. member_role (iv_registry s) i \<noteq> None}"
  proof (rule set_eqI)
    fix i
    have "i \<in> fst ` set (filter (\<lambda>(n, e). Member e) ?E) \<longleftrightarrow> (\<exists>e. map_of ?E i = Some e \<and> Member e)"
      using d by (force simp: image_iff)
    then show "i \<in> fst ` set (filter (\<lambda>(n, e). Member e) ?E) \<longleftrightarrow> i \<in> {i. member_role (iv_registry s) i \<noteq> None}"
      by (cases "map_of ?E i") (simp_all add: member_role_def del: map_of_eq_Some_iff)
  qed
  also have "\<dots> = n_id ` set (iv_nodes s)"
    using assms row_role_None [of "iv_nodes s"] by (auto simp: agree_def)
  also have "card \<dots> = length (iv_nodes s)"
    using dn by (metis distinct_card length_map set_map)
  finally show ?thesis .
qed

section \<open>What one step does to the rows\<close>

definition same_rows :: "inventory \<Rightarrow> inventory \<Rightarrow> bool" where
  "same_rows s s' \<longleftrightarrow> length (iv_nodes s') = length (iv_nodes s) \<and> row_role (iv_nodes s') = row_role (iv_nodes s)"

lemma same_rows_eq: "iv_nodes s' = iv_nodes s \<Longrightarrow> same_rows s s'"
  by (simp add: same_rows_def)

lemma scan_rows: "iv_nodes (scanForTransitions now m s) = iv_nodes s"
proof -
  have "iv_nodes (scan_node m n s1) = iv_nodes s1" for n s1
    by (simp add: scan_node_def Let_def split: option.splits)
  then have "iv_nodes (fold (scan_node m) ns s1) = iv_nodes s1" for ns s1
    by (induction ns arbitrary: s1) simp_all
  then show ?thesis
    using List_nodes_fields(2) [of s] by (cases "List_nodes s") (simp add: scanForTransitions_def split: sum.splits)
qed

lemma heartbeat_rows: "iv_nodes (handleHeartbeat m i now s) = iv_nodes s"
proof -
  let ?s1 = "s\<lparr>iv_registry := snd (Touch i now (iv_registry s)), iv_status := AList.update i StatusOnline (iv_status s)\<rparr>"
  have "iv_nodes s2 = iv_nodes s" if "Get i ?s1 = (r, s2)" for r s2
    using Get_fields(2) [of i ?s1] that by simp
  then show ?thesis
    by (auto simp: handleHeartbeat_def split_beta Let_def split: prod.splits sum.splits option.splits)
qed

lemma same_rows_execOne:
  assumes "\<And>q. n_id (f q) = n_id q \<and> n_role (f q) = n_role q"
  shows "same_rows s (snd (execOne f i s))"
  using row_role_update [of "\<lambda>q. n_id q = i" f "iv_nodes s"] assms
  by (simp add: same_rows_def execOne_def split_beta Let_def)

lemma same_rows_confirm:
  "same_rows s (snd (ConfirmImageVersion i v t s))" "same_rows s (snd (UnconfirmImageVersion i s))"
  unfolding ConfirmImageVersion_def UnconfirmImageVersion_def by (rule same_rows_execOne, simp)+

lemma same_rows_lan: "same_rows s (snd (RefreshSelfLANIP m self s))"
proof -
  have "row_role (sql_update (\<lambda>q. n_id q = i \<and> n_lan_ip q \<noteq> ip) (\<lambda>q. q\<lparr>n_lan_ip := ip\<rparr>) (iv_nodes s)) = row_role (iv_nodes s)" for i ip
    by (rule row_role_update) simp
  then show ?thesis
    using RefreshSelfLANIP_fields(3) [of m self s] by (auto simp: same_rows_def)
qed

lemma register_again_rows:
  assumes "row_role (iv_nodes s) (n_id old) = Some (n_role old)"
  shows "same_rows s (register_again m ev now old s)"
proof -
  let ?n = "refresh_node ev now old"
  let ?f = "\<lambda>q. (row_of ?n)\<lparr>n_first_seen := n_first_seen q\<rparr>"
  have "row_role (sql_update (\<lambda>q. n_id q = n_id ?n) ?f (iv_nodes s)) i =
      (if i = n_id ?n \<and> row_role (iv_nodes s) i \<noteq> None then Some (n_role ?n) else row_role (iv_nodes s) i)" for i
    by (rule row_role_write) (simp add: row_of_def)
  then have "row_role (sql_update (\<lambda>q. n_id q = n_id ?n) ?f (iv_nodes s)) = row_role (iv_nodes s)"
    using assms by (auto simp: fun_eq_iff refresh_node_def)
  then show ?thesis
    by (simp add: same_rows_def register_again_def Update_def split_beta Let_def)
qed

text \<open>A registration leaves the rows as they are or adds one, for a node that had none, below the cap.\<close>

definition rows_grow :: "NodeRegisteredEvt \<Rightarrow> inventory \<Rightarrow> inventory \<Rightarrow> bool" where
  "rows_grow ev s s' \<longleftrightarrow> same_rows s s' \<or>
     (length (iv_nodes s) < MaxClusterNodes \<and> length (iv_nodes s') = Suc (length (iv_nodes s))
      \<and> row_role (iv_nodes s) (ev_node ev) = None
      \<and> row_role (iv_nodes s') = (row_role (iv_nodes s))(ev_node ev \<mapsto> ev_role ev))"

lemma register_new_rows:
  assumes "agree s"
  shows "rows_grow ev s (register_new m ev now s)"
proof -
  let ?n = "node_of_event ev now"
  have "row_role (iv_nodes s @ [row_of ?n]) = (row_role (iv_nodes s))(ev_node ev \<mapsto> ev_role ev)"
    if "row_role (iv_nodes s) (ev_node ev) = None"
    using that by (intro ext) (auto simp: row_role_append row_of_def node_of_event_def split: option.splits)
  then show ?thesis
    using row_role_None [of "iv_nodes s" "ev_node ev"] MemberCount_rows [OF assms]
    by (auto simp: rows_grow_def register_new_def Insert_def same_rows_def split_beta Let_def node_of_event_def)
qed

lemma rows_grow_cong:
  "iv_nodes s1 = iv_nodes s \<Longrightarrow> ev_node ev' = ev_node ev \<Longrightarrow> ev_role ev' = ev_role ev \<Longrightarrow> rows_grow ev' s1 s' = rows_grow ev s s'"
  by (simp add: rows_grow_def same_rows_def)

lemma registered_rows:
  assumes "agree s"
  shows "rows_grow ev s (handleRegistered m self ev now s)"
proof -
  have g: "agree s1" "iv_nodes s1 = iv_nodes s" if "Get k s = (r, s1)" for k r s1
    using Get_fields [of k s] that assms by (simp_all add: agree_def)
  define ev1 where "ev1 = (case self of Some (i, ip) \<Rightarrow> if ev_node ev = i \<and> ip \<noteq> [] then ev\<lparr>ev_lan_ip := ip\<rparr> else ev | None \<Rightarrow> ev)"
  have ev1: "ev_node ev1 = ev_node ev" "ev_role ev1 = ev_role ev"
    by (auto simp: ev1_def split: option.splits)
  have new: "rows_grow ev s (register_new m ev1 now s)"
    using register_new_rows [OF assms, of ev1] rows_grow_cong [OF refl ev1] by simp
  have new': "rows_grow ev s (register_new m ev1 now s1)" if "Get k s = (r, s1)" for k r s1
    using register_new_rows [OF g(1) [OF that], of ev1] rows_grow_cong [OF g(2) [OF that] ev1] by simp
  have again: "rows_grow ev s (register_again m ev1 now old s1)" if "Get k s = (Inr (Some old), s1)" for k old s1
    using register_again_rows [of s1 old m ev1 now] Get_role [OF that] g(2) [OF that] by (simp add: rows_grow_def same_rows_def)
  have stay: "rows_grow ev s s1" if "Get k s = (r, s1)" for k r s1
    using g(2) [OF that] by (simp add: rows_grow_def same_rows_eq)
  have "rows_grow ev s s"
    by (simp add: rows_grow_def same_rows_eq)
  then show ?thesis
    unfolding handleRegistered_def Let_def ev1_def [symmetric]
    using new new' again stay by (auto split: option.splits prod.splits sum.splits)
qed

lemma Delete_rows:
  "same_rows s (snd (Delete i s)) \<or> iv_nodes (snd (Delete i s)) = filter (\<lambda>n. n_id n \<noteq> i) (iv_nodes s)"
  by (simp add: Delete_def deleteNodeKeys_def same_rows_def split_beta Let_def)

lemma Remove_rows:
  "same_rows s (snd (Remove m i s)) \<or> iv_nodes (snd (Remove m i s)) = filter (\<lambda>n. n_id n \<noteq> i) (iv_nodes s)"
  using Delete_rows [of "snd (Get i s)" i]
  by (auto simp: Remove_def same_rows_def split_beta Let_def split: sum.splits option.splits)

lemma step_rows:
  assumes "inv_step s s'" and "agree s"
  shows "length (iv_nodes s') \<le> max (length (iv_nodes s)) MaxClusterNodes
    \<and> (\<forall>i r r'. row_role (iv_nodes s) i = Some r \<longrightarrow> row_role (iv_nodes s') i = Some r' \<longrightarrow> r' = r)"
  using assms(1)
proof cases
  case (registered m self ev now)
  with registered_rows [OF assms(2), of ev m self now] show ?thesis
    by (auto simp: rows_grow_def same_rows_def split: if_splits)
next
  case (removed m i)
  then show ?thesis
    using Remove_rows [of s m i] length_filter_le [of "\<lambda>n. n_id n \<noteq> i" "iv_nodes s"]
    by (auto simp: same_rows_def row_role_filter le_max_iff_disj split: if_splits)
qed (use same_rows_confirm [of s] same_rows_lan [of s] in \<open>auto simp: same_rows_def heartbeat_rows scan_rows\<close>)

section \<open>Keys and removal\<close>

lemma AdmitKey_sound:
  assumes "reg_inv r" and "AdmitKey r spki = Some w"
  shows "Loaded r \<and> (\<exists>e. entry_of r (ko_node w) = Some e \<and> Member e \<and> tokens e \<noteq> {} \<and> map_of (Keys e) (ko_purpose w) = Some spki)"
proof -
  have l: "Loaded r" and k: "map_of (byKey r) spki = Some w" and a: "entry_admitted (entry_of r (ko_node w))"
    using assms(2) by (auto simp: AdmitKey_def split: if_splits option.splits simp del: map_of_eq_Some_iff)
  obtain e where e: "entry_of r (ko_node w) = Some e" "map_of (Keys e) (ko_purpose w) = Some spki"
    using assms(1) k unfolding reg_inv_def index_sound_def by blast
  moreover have "entry_ok e"
    using assms(1) e(1) unfolding reg_inv_def by blast
  ultimately show ?thesis
    using l a by (simp add: entry_admitted_def entry_ok_def)
qed

lemma setMember_excluded:
  "entry_admitted (entry_of r i) \<Longrightarrow> i \<in> set (fst (setMember i role False t r))"
  unfolding setMember_def update_single update_all_excluded [OF distinct_singleton]
  by (simp add: after_change_def Let_def entry_admitted_def)

lemma Delete_excluded:
  assumes "Delete i s = (None, s')"
  shows "iv_registry s' = snd (snd (setMember i [] False zero_time (iv_registry s)))"
    and "entry_admitted (entry_of (iv_registry s) i) \<Longrightarrow> i \<in> set (iv_excluded s')"
    and "i \<notin> n_id ` set (iv_nodes s')"
proof -
  define s3 where "s3 = snd (deleteNodeKeys i ((snd (iv_fault s))\<lparr>iv_nodes := filter (\<lambda>n. n_id n \<noteq> i) (iv_nodes s)\<rparr>))"
  have s': "s' = on_registry (setMember i [] False zero_time) s3"
    using assms by (auto simp: Delete_def split_beta Let_def s3_def split: if_splits)
  have f: "iv_registry s3 = iv_registry s" "iv_nodes s3 = filter (\<lambda>n. n_id n \<noteq> i) (iv_nodes s)"
    by (simp_all add: s3_def deleteNodeKeys_def split_beta Let_def)
  show "iv_registry s' = snd (snd (setMember i [] False zero_time (iv_registry s)))" "i \<notin> n_id ` set (iv_nodes s')"
    by (auto simp: s' f)
  show "entry_admitted (entry_of (iv_registry s) i) \<Longrightarrow> i \<in> set (iv_excluded s')"
    using setMember_excluded [of "iv_registry s" i] by (simp add: s' on_registry_def f split_beta Let_def)
qed

section \<open>The transition scan\<close>

text \<open>With the database healthy, what a scan looks at.\<close>

definition presences :: "gotime \<Rightarrow> (string \<rightharpoonup> MeshMembership) option \<Rightarrow> inventory \<Rightarrow> Node list" where
  "presences now m s = applyMeshAt now m (map (freshen (iv_registry s)) (sql_order n_first_seen (iv_nodes s)))"

lemma scan_healthy: "iv_faults s = [] \<Longrightarrow> scanForTransitions now m s = fold (scan_node m) (presences now m s) s"
  by (simp add: scanForTransitions_def List_nodes_def iv_fault_def presences_def)

lemma derive_set: "deriveStatusAt now seen m \<noteq> StatusUnset"
  by (simp add: Let_def deriveStatusAt_def computeStatusAt_def)

lemma presence_set: "n \<in> set (presences now m s) \<Longrightarrow> n_status n \<noteq> StatusUnset"
  by (auto simp: presences_def applyMeshAt_def Let_def derive_set)

lemma scan_node_fields:
  "iv_registry (scan_node m n s) = iv_registry s" "iv_nodes (scan_node m n s) = iv_nodes s" "iv_faults (scan_node m n s) = iv_faults s"
  "n_status n \<noteq> StatusUnset \<Longrightarrow> map_of (iv_status (scan_node m n s)) k =
     (if k = n_id n then Some (n_status n) else map_of (iv_status s) k)"
  by (auto simp: scan_node_def Let_def emit_change_def update_conv' split: option.splits)

lemma scan_nodes_status:
  assumes "\<forall>n \<in> set ns. n_status n \<noteq> StatusUnset" and "distinct (map n_id ns)"
  shows "map_of (iv_status (fold (scan_node m) ns s)) k = (case sql_first (\<lambda>n. n_id n = k) ns of
      None \<Rightarrow> map_of (iv_status s) k | Some n \<Rightarrow> Some (n_status n))
    \<and> iv_registry (fold (scan_node m) ns s) = iv_registry s \<and> iv_nodes (fold (scan_node m) ns s) = iv_nodes s
    \<and> iv_faults (fold (scan_node m) ns s) = iv_faults s"
  using assms
proof (induction ns arbitrary: s)
  case Nil
  then show ?case by simp
next
  case (Cons n ns)
  have "sql_first (\<lambda>q. n_id q = n_id n) ns = None"
    using Cons.prems(2) by (auto simp: sql_first_None image_iff)
  then show ?case
    using Cons.IH [of "scan_node m n s"] Cons.prems scan_node_fields [where m = m and n = n and s = s]
    by (auto split: option.splits)
qed

lemma presences_ids: "map n_id (presences now m s) = map n_id (sql_order n_first_seen (iv_nodes s))"
  by (simp add: presences_def applyMeshAt_def Let_def freshen_def comp_def)

lemma scan_quiet: "(\<forall>n \<in> set ns. map_of (iv_status s) (n_id n) = Some (n_status n)) \<Longrightarrow> fold (scan_node m) ns s = s"
  by (induction ns) (auto simp: scan_node_def Let_def)

section \<open>Example inventories\<close>

definition demo_node :: "string \<Rightarrow> string \<Rightarrow> Node" where
  "demo_node i r = \<lparr>n_id = i, n_role = r, n_hostname = i, n_agent_version = ''1'', n_image_version = ''2'',
     n_confirmed_at = Some 5, n_architecture = ''arm64'', n_lan_ip = [], n_capabilities = [], n_metadata = [],
     n_storage = None, n_first_seen = 1, n_last_seen = 1, n_status = StatusUnset, n_mesh = None\<rparr>"

definition demo_inventory :: inventory where
  "demo_inventory = \<lparr>iv_nodes = [demo_node ''cp'' ''controlplane'', demo_node ''c1'' ''compute''],
     iv_keys = [(''c1'', ''agent'', ''sha256/k1'', 1)], iv_registry = NewRegistry, iv_faults = [], iv_status = [],
     iv_events = [], iv_excluded = [], iv_retired = []\<rparr>"

definition demo_event :: "string \<Rightarrow> string \<Rightarrow> NodeRegisteredEvt" where
  "demo_event i r = \<lparr>ev_node = i, ev_role = r, ev_hostname = i, ev_agent_version = ''2'', ev_image_version = ''3'',
     ev_architecture = [], ev_lan_ip = [], ev_capabilities = [], ev_metadata = [], ev_storage = None\<rparr>"

definition demo_open :: inventory where
  "demo_open = snd (OpenStore demo_inventory)"

lemma demo_open_ok: "OpenStore demo_inventory = (None, demo_open)" "inv_ok demo_open"
proof -
  have e: "fst (OpenStore demo_inventory) = None"
    by code_simp
  then show o: "OpenStore demo_inventory = (None, demo_open)"
    by (simp add: demo_open_def prod_eq_iff)
  have "distinct (map n_id (iv_nodes demo_inventory))" "key_rows_ok (iv_keys demo_inventory)"
    by (simp_all add: demo_inventory_def demo_node_def key_rows_ok_def hash_unique_def)
  then show "inv_ok demo_open"
    using inv_ok_OpenStore(1) o by blast
qed

section \<open>Properties\<close>

text \<open>C18: the registry is the nodes table.  Open the store on tables with unique keys and let the
  inventory run: registrations, heartbeats, removals, scans, image confirmations and token pushes
  in any order, with any database failures.  In every state that is reached the members the
  in-memory registry answers for are exactly the nodes of the table, with the same roles, every
  entry of the key index names a key its owner registered, and no key hash is recorded for two nodes.\<close>

theorem registry_mirrors_table:
  assumes "distinct (map n_id (iv_nodes s0))" and "key_rows_ok (iv_keys s0)"
    and "OpenStore s0 = (None, s)" and "inv_step\<^sup>*\<^sup>* s s'"
  shows "member_role (iv_registry s') = row_role (iv_nodes s') \<and> index_sound (iv_registry s')
    \<and> hash_unique (iv_keys s')"
  using inv_ok_steps [OF assms(4) inv_ok_OpenStore(1) [OF assms(1-3)]]
  by (simp add: inv_ok_def agree_def reg_inv_def key_rows_ok_def)

theorem registry_mirrors_table_witness:
  "member_role (iv_registry (handleRegistered None None (demo_event ''s1'' ''storage'') 9 demo_open))
     = row_role (iv_nodes (handleRegistered None None (demo_event ''s1'' ''storage'') 9 demo_open))
   \<and> row_role (iv_nodes (handleRegistered None None (demo_event ''s1'' ''storage'') 9 demo_open)) ''s1'' = Some ''storage''"
proof
  have "distinct (map n_id (iv_nodes demo_inventory))" "key_rows_ok (iv_keys demo_inventory)"
    by (simp_all add: demo_inventory_def demo_node_def key_rows_ok_def hash_unique_def)
  from registry_mirrors_table [OF this demo_open_ok(1) r_into_rtranclp [of inv_step, OF inv_step.registered]]
  show "member_role (iv_registry (handleRegistered None None (demo_event ''s1'' ''storage'') 9 demo_open))
     = row_role (iv_nodes (handleRegistered None None (demo_event ''s1'' ''storage'') 9 demo_open))"
    by blast
  show "row_role (iv_nodes (handleRegistered None None (demo_event ''s1'' ''storage'') 9 demo_open)) ''s1'' = Some ''storage''"
    by code_simp
qed

text \<open>enrolment.  In every reachable inventory one step never grows the cluster past
  \<^verbatim>\<open>MaxClusterNodes\<close> and never changes the role of an enrolled node: a registration with another
  role is refused, whichever path it takes and whatever the database does.\<close>

theorem enrolment_step:
  assumes "inv_ok s" and "inv_step s s'"
  shows "length (iv_nodes s') \<le> max (length (iv_nodes s)) MaxClusterNodes
    \<and> (\<forall>i r r'. row_role (iv_nodes s) i = Some r \<longrightarrow> row_role (iv_nodes s') i = Some r' \<longrightarrow> r' = r)"
  using step_rows [OF assms(2)] assms(1) by (simp add: inv_ok_def)

theorem enrolment_step_witness:
  "row_role (iv_nodes (handleRegistered None None (demo_event ''c1'' ''storage'') 9 demo_open)) ''c1'' = Some ''compute''"
proof -
  have "row_role (iv_nodes demo_open) ''c1'' = Some ''compute''"
    "row_role (iv_nodes (handleRegistered None None (demo_event ''c1'' ''storage'') 9 demo_open)) ''c1'' \<noteq> None"
    by code_simp+
  with enrolment_step [OF demo_open_ok(2) inv_step.registered [where m = None and self = None and ev = "demo_event ''c1'' ''storage''" and now = 9]]
  show ?thesis by blast
qed

text \<open>a key admits only its node.  Whenever the handshake check accepts a key, the registry has
  loaded both tables and the node it names is a current member that holds a live token and has
  registered exactly this key for that purpose.\<close>

theorem key_admission_sound:
  assumes "inv_ok s" and "AdmitKey (iv_registry s) spki = Some w"
  shows "Loaded (iv_registry s) \<and> row_role (iv_nodes s) (ko_node w) \<noteq> None
    \<and> (\<exists>e. entry_of (iv_registry s) (ko_node w) = Some e \<and> tokens e \<noteq> {} \<and> map_of (Keys e) (ko_purpose w) = Some spki)"
proof -
  have a: "reg_inv (iv_registry s)" "member_role (iv_registry s) = row_role (iv_nodes s)"
    using assms(1) by (simp_all add: inv_ok_def agree_def)
  from AdmitKey_sound [OF a(1) assms(2)] a(2) [symmetric] show ?thesis
    by (auto simp: member_role_def simp del: map_of_eq_Some_iff)
qed

theorem key_admission_sound_witness:
  "let s = on_registry (ReplaceLiveTokens [(''c1'', [''h''])]) demo_open in
     AdmitKey (iv_registry s) ''sha256/k1'' = Some \<lparr>ko_node = ''c1'', ko_purpose = ''agent''\<rparr> \<and> Loaded (iv_registry s)"
proof -
  let ?s = "on_registry (ReplaceLiveTokens [(''c1'', [''h''])]) demo_open"
  have a: "AdmitKey (iv_registry ?s) ''sha256/k1'' = Some \<lparr>ko_node = ''c1'', ko_purpose = ''agent''\<rparr>"
    by code_simp
  have "member_role (iv_registry ?s) = member_role (iv_registry demo_open)"
    using demo_open_ok(2) by (simp add: member_role_Replace inv_ok_def agree_def)
  then have "inv_ok ?s"
    using demo_open_ok(2) by (simp add: inv_ok_def agree_def reg_inv_Replace ReplaceLiveTokens_members)
  from key_admission_sound [OF this a] a show ?thesis by (simp add: Let_def)
qed

text \<open>a removed node is locked out.  After a removal that reports success the node has no row,
  is not admitted, no key admits as it, and if it was admitted before then the exclusion hooks ran
  for it, so its open connections are closed.\<close>

theorem removed_node_locked_out:
  assumes "inv_ok s" and "Remove m i s = (None, s')"
  shows "row_role (iv_nodes s') i = None \<and> \<not> Admitted (iv_registry s') i
    \<and> (\<forall>spki w. AdmitKey (iv_registry s') spki = Some w \<longrightarrow> ko_node w \<noteq> i)
    \<and> (Admitted (iv_registry s) i \<longrightarrow> i \<in> set (iv_excluded s'))"
proof -
  define g where "g = snd (Get i s)"
  obtain d where d: "Delete i g = (None, d)" and s': "iv_registry s' = iv_registry d" "iv_nodes s' = iv_nodes d" "iv_excluded s' = iv_excluded d"
    using assms(2) by (auto simp: Remove_def split_beta Let_def g_def emit_change_def prod_eq_iff split: sum.splits option.splits)
  have g: "iv_registry g = iv_registry s"
    by (simp add: g_def)
  note del = Delete_excluded [OF d, unfolded g]
  have ok: "inv_ok s'"
    using inv_ok_Remove [OF assms(1), of m i] assms(2) by simp
  have r: "row_role (iv_nodes s') i = None"
    using del(3) s' row_role_None by simp
  with ok have "member_role (iv_registry s') i = None"
    by (simp add: inv_ok_def agree_def)
  then have "\<not> Admitted (iv_registry s') i"
    by (auto simp: member_role_def Admitted_def entry_admitted_def split: option.splits if_splits simp del: map_of_eq_Some_iff)
  moreover have "ko_node w \<noteq> i" if key: "AdmitKey (iv_registry s') spki = Some w" for spki w
  proof
    assume "ko_node w = i"
    then obtain e where "entry_of (iv_registry s') i = Some e" "Member e"
      using AdmitKey_sound [OF _ key] ok unfolding inv_ok_def agree_def by blast
    with \<open>member_role (iv_registry s') i = None\<close> show False
      by (simp add: member_role_def del: map_of_eq_Some_iff)
  qed
  ultimately show ?thesis
    using r del(2) s'(3) by (simp add: Admitted_def)
qed

theorem removed_node_locked_out_witness:
  "row_role (iv_nodes (snd (Remove None ''c1'' demo_open))) ''c1'' = None \<and> fst (Remove None ''c1'' demo_open) = None"
proof -
  have e: "fst (Remove None ''c1'' demo_open) = None"
    by code_simp
  then have "Remove None ''c1'' demo_open = (None, snd (Remove None ''c1'' demo_open))"
    by (simp add: prod_eq_iff)
  from removed_node_locked_out [OF demo_open_ok(2) this] e show ?thesis by blast
qed

text \<open>the transition scan publishes the derived presence and is idempotent.  With the database
  healthy, after a scan the published status of every node is the one derived from its heartbeat
  and its mesh membership, and a second scan at the same instant changes nothing and emits nothing.\<close>

theorem scan_publishes:
  assumes "agree s" and "iv_faults s = []"
  shows "(\<forall>n \<in> set (iv_nodes s). map_of (iv_status (scanForTransitions now m s)) (n_id n) =
      Some (deriveStatusAt now (n_last_seen (freshen (iv_registry s) n)) (mesh_for m (n_id n) (n_mesh n))))
    \<and> scanForTransitions now m (scanForTransitions now m s) = scanForTransitions now m s"
proof -
  let ?P = "presences now m s" and ?s' = "scanForTransitions now m s"
  have d: "distinct (map n_id ?P)"
    using assms(1) by (simp add: presences_ids sql_order_def agree_def distinct_map inj_on_def)
  have u: "\<forall>n \<in> set ?P. n_status n \<noteq> StatusUnset"
    using presence_set by blast
  note st = scan_nodes_status [OF u d, of m s, folded scan_healthy [OF assms(2), of now m]]
  have pub: "map_of (iv_status ?s') (n_id n) = Some (n_status n)" if "n \<in> set ?P" for n
    using st [of "n_id n"] sql_first_unique [OF d that] by simp
  have "presences now m ?s' = ?P"
    using st by (simp add: presences_def)
  then have "scanForTransitions now m ?s' = ?s'"
    using scan_healthy [of ?s' now m] st pub scan_quiet [of ?P ?s' m] assms(2) by simp
  moreover have "map_of (iv_status ?s') (n_id n) =
      Some (deriveStatusAt now (n_last_seen (freshen (iv_registry s) n)) (mesh_for m (n_id n) (n_mesh n)))" if "n \<in> set (iv_nodes s)" for n
  proof -
    let ?n = "hd (applyMeshAt now m [freshen (iv_registry s) n])"
    have "?n \<in> set ?P"
      using that by (auto simp: presences_def applyMeshAt_def Let_def)
    from pub [OF this] show ?thesis
      by (simp add: applyMeshAt_def Let_def freshen_def split: if_splits)
  qed
  ultimately show ?thesis by blast
qed

theorem scan_publishes_witness:
  "map_of (iv_status (scanForTransitions 40000 None demo_open)) ''c1'' = Some StatusStale"
proof -
  have a: "agree demo_open" and "iv_faults demo_open = []"
    using demo_open_ok(2) by (simp add: inv_ok_def) code_simp
  note scan = scan_publishes [OF this, of 40000 None]
  have "demo_node ''c1'' ''compute'' \<in> set (iv_nodes demo_open)"
    by code_simp
  from bspec [OF conjunct1 [OF scan] this] have "map_of (iv_status (scanForTransitions 40000 None demo_open)) ''c1'' =
      Some (deriveStatusAt 40000 (n_last_seen (freshen (iv_registry demo_open) (demo_node ''c1'' ''compute''))) None)"
    by (simp add: demo_node_def mesh_for_def)
  also have "deriveStatusAt 40000 (n_last_seen (freshen (iv_registry demo_open) (demo_node ''c1'' ''compute''))) None = StatusStale"
    by code_simp
  finally show ?thesis .
qed

end
