(* ===== verification/Bus_Auth.thy ===== *)
theory Bus_Auth
  imports Inventory
begin

text \<open>
  The bus join tokens (\<^verbatim>\<open>api/internal/busauth\<close>): the token table, the sessions the tokens
  authenticated, the record of contested sessions, the revocation tombstones, the push of token
  liveness into the node registry, and the auth callout.  SHA-256 is a parameter (\<open>hs\<close>), the random
  source an argument of the mint, the embedded bus server the list of its open connections.  The
  two hooks \<^verbatim>\<open>main.go\<close> wires to the registry, \<^verbatim>\<open>DisconnectNode\<close> and \<^verbatim>\<open>ForgetNode\<close>, run for every node a
  push excludes.  \<open>bs_faults\<close> and \<open>bs_wfaults\<close> list the outcomes of the coming database statements and
  file writes; \<open>bs_admitted\<close> is a history variable, the connections admitted while sessions are tracked.
\<close>

section \<open>State\<close>

record token_row =
  tr_hash :: string
  tr_label :: string
  tr_created :: gotime
  tr_used :: "gotime option"
  tr_revoked :: "gotime option"
  tr_node :: "string option"
  tr_self :: bool
  tr_role :: "NodeRole option"

record Tombstone =
  tb_hash :: string
  tb_node :: string
  tb_at :: gotime

text \<open>The tombstone file: missing, not readable as JSON (or too large), or its version and entries.\<close>

datatype tomb_file = FileMissing | FileBad | FileParsed int "Tombstone list"

type_synonym session = "string \<times> nat"

record Conn =
  cn_server :: string
  cn_cid :: nat
  cn_host :: string

record grant =
  g_token :: string
  g_node :: string
  g_host :: string

record takeover =
  tk_node :: string
  tk_evictions :: nat
  tk_alternations :: nat
  tk_last_evicted :: string
  tk_hosts :: "string list"
  tk_since :: gotime
  tk_last :: gotime

record bus_store =
  bs_rows :: "token_row list"
  bs_faults :: "bool list"
  bs_wfaults :: "bool list"
  bs_tracking :: bool
  bs_open :: "session list"
  bs_grants :: "(session \<times> grant) list"
  bs_self :: string
  bs_attached :: bool
  bs_registry :: Registry
  bs_tomb :: "(string \<times> Tombstone) list option"
  bs_file :: tomb_file
  bs_takeovers :: "(string \<times> takeover) list"
  bs_admitted :: "(session \<times> string) list"

datatype bus_error =
    ErrUnboundToken | ErrInvalidNodeID | ErrNoRole | ErrRand | ErrBusDb | ErrNoRows | ErrSelfAgentToken
  | ErrTombstoneFile | ErrWriteFile

definition bs_fault :: "bus_store \<Rightarrow> bool \<times> bus_store" where
  "bs_fault s = (case bs_faults s of [] \<Rightarrow> (False, s) | b # bs \<Rightarrow> (b, s\<lparr>bs_faults := bs\<rparr>))"

definition bs_wfault :: "bus_store \<Rightarrow> bool \<times> bus_store" where
  "bs_wfault s = (case bs_wfaults s of [] \<Rightarrow> (False, s) | b # bs \<Rightarrow> (b, s\<lparr>bs_wfaults := bs\<rparr>))"

section \<open>Node ids and roles\<close>

definition lower_or_digit :: "char \<Rightarrow> bool" where
  "lower_or_digit c = (let n = (of_char c :: nat) in (97 \<le> n \<and> n \<le> 122) \<or> (48 \<le> n \<and> n \<le> 57))"

definition ValidDNSLabel :: "string \<Rightarrow> bool" where
  "ValidDNSLabel s \<longleftrightarrow> 1 \<le> length s \<and> length s \<le> 63 \<and>
     (\<forall>i < length s. lower_or_digit (s ! i) \<or> (s ! i = CHR ''-'' \<and> i \<noteq> 0 \<and> i \<noteq> length s - 1))"

definition ValidNodeID :: "string \<Rightarrow> bool" where
  "ValidNodeID i = ValidDNSLabel i"

definition ResolveRole :: "NodeRole \<Rightarrow> string \<Rightarrow> NodeRole option" where
  "ResolveRole role label =
     (if role \<noteq> [] then (if ValidRole role then Some role else None)
      else if ValidRole label then Some label else None)"

section \<open>Sessions\<close>

definition DisconnectClient :: "session \<Rightarrow> bus_store \<Rightarrow> bool \<times> bus_store" where
  "DisconnectClient k s = (k \<in> set (bs_open s), s\<lparr>bs_open := filter (\<lambda>x. x \<noteq> k) (bs_open s)\<rparr>)"

fun disconnect :: "session list \<Rightarrow> bus_store \<Rightarrow> nat \<times> bus_store" where
  "disconnect [] s = (0, s)"
| "disconnect (k # ks) s =
     (let (was, s1) = DisconnectClient k s; (n, s2) = disconnect ks s1 in (if was then Suc n else n, s2))"

definition TrackSessions :: "bus_store \<Rightarrow> bus_store" where
  "TrackSessions s = s\<lparr>bs_tracking := True\<rparr>"

definition pruneLocked :: "bus_store \<Rightarrow> bus_store" where
  "pruneLocked s = s\<lparr>bs_grants := filter (\<lambda>(k, g). k \<in> set (bs_open s)) (bs_grants s)\<rparr>"

definition takeHeldLocked :: "(grant \<Rightarrow> bool) \<Rightarrow> bus_store \<Rightarrow> (session \<times> grant) list \<times> bus_store" where
  "takeHeldLocked match s =
     (filter (\<lambda>(k, g). match g) (bs_grants s), s\<lparr>bs_grants := filter (\<lambda>(k, g). \<not> match g) (bs_grants s)\<rparr>)"

definition takeLocked :: "(grant \<Rightarrow> bool) \<Rightarrow> bus_store \<Rightarrow> session list \<times> bus_store" where
  "takeLocked match s = (let (held, s1) = takeHeldLocked match s in (map fst held, s1))"

definition DisconnectNode :: "string \<Rightarrow> bus_store \<Rightarrow> nat \<times> bus_store" where
  "DisconnectNode n s =
     (if n = [] then (0, s)
      else if \<not> bs_tracking s then (0, s)
      else let (taken, s1) = takeLocked (\<lambda>g. g_node g = n) s in disconnect taken s1)"

definition liveSessions :: "(grant \<Rightarrow> bool) \<Rightarrow> bus_store \<Rightarrow> session list \<times> bus_store" where
  "liveSessions match s =
     (if \<not> bs_tracking s then ([], s)
      else let s1 = pruneLocked s in (map fst (filter (\<lambda>(k, g). match g) (bs_grants s1)), s1))"

text \<open>The count the revoke reports: the snapshot and the racers closed here.\<close>

fun close_rest :: "session list \<Rightarrow> session list \<Rightarrow> bus_store \<Rightarrow> nat \<times> bus_store" where
  "close_rest snap [] s = (0, s)"
| "close_rest snap (k # ks) s =
     (let (was, s1) = DisconnectClient k s; (n, s2) = close_rest snap ks s1
      in (if was \<and> k \<notin> set snap then Suc n else n, s2))"

definition closeRemaining :: "(grant \<Rightarrow> bool) \<Rightarrow> session list \<Rightarrow> bus_store \<Rightarrow> nat \<times> bus_store" where
  "closeRemaining match snap s =
     (let (rest, s1) = takeLocked match s;
          (n, s2) = (if bs_tracking s1 then close_rest snap rest s1 else (0, s1))
      in (length snap + n, s2))"

section \<open>Contested sessions\<close>

definition takeoverHostsKept :: nat where "takeoverHostsKept = 4"

definition noteHost :: "string \<Rightarrow> takeover \<Rightarrow> takeover" where
  "noteHost h r =
     (if h = [] \<or> takeoverHostsKept \<le> length (tk_hosts r) \<or> h \<in> set (tk_hosts r) then r
      else r\<lparr>tk_hosts := tk_hosts r @ [h]\<rparr>)"

definition new_takeover :: "string \<Rightarrow> takeover" where
  "new_takeover n = \<lparr>tk_node = n, tk_evictions = 0, tk_alternations = 0, tk_last_evicted = [], tk_hosts = [],
     tk_since = zero_time, tk_last = zero_time\<rparr>"

definition note_eviction :: "string \<Rightarrow> string \<Rightarrow> gotime \<Rightarrow> takeover \<Rightarrow> takeover" where
  "note_eviction evicted newh now r0 =
     (let r1 = noteHost newh (noteHost evicted (r0\<lparr>tk_evictions := Suc (tk_evictions r0), tk_last := now\<rparr>))
      in if evicted \<noteq> [] \<and> newh \<noteq> [] \<and> evicted \<noteq> newh
         then (if tk_last_evicted r1 = newh
               then r1\<lparr>tk_alternations := Suc (tk_alternations r1),
                       tk_since := (if IsZero (tk_since r1) then now else tk_since r1), tk_last_evicted := evicted\<rparr>
               else r1\<lparr>tk_last_evicted := evicted\<rparr>)
         else r1)"

definition noteTakeover :: "string \<Rightarrow> string \<Rightarrow> string \<Rightarrow> string \<Rightarrow> gotime \<Rightarrow> bus_store \<Rightarrow> bus_store" where
  "noteTakeover tok n evicted newh now s =
     (let r = (case map_of (bs_takeovers s) tok of None \<Rightarrow> new_takeover n | Some x \<Rightarrow> x)
      in s\<lparr>bs_takeovers := AList.update tok (note_eviction evicted newh now r) (bs_takeovers s)\<rparr>)"

fun evictSuperseded :: "Conn \<Rightarrow> string \<Rightarrow> string \<Rightarrow> gotime \<Rightarrow> (session \<times> grant) list \<Rightarrow> bus_store \<Rightarrow> bus_store" where
  "evictSuperseded c tok n now [] s = s"
| "evictSuperseded c tok n now ((k, g) # hs) s =
     evictSuperseded c tok n now hs (noteTakeover tok n (g_host g) (cn_host c) now (snd (DisconnectClient k s)))"

definition ForgetNode :: "string \<Rightarrow> bus_store \<Rightarrow> bus_store" where
  "ForgetNode n s = (if n = [] then s
     else s\<lparr>bs_takeovers := filter (\<lambda>(t, r). tk_node r \<noteq> n) (bs_takeovers s)\<rparr>)"

text \<open>One alert per node, from the records that alternate.\<close>

record session_alert =
  al_node :: string
  al_alternations :: nat
  al_since :: gotime
  al_last :: gotime
  al_hosts :: "string list"

fun merge_alert :: "(string \<times> takeover) \<Rightarrow> (string \<times> session_alert) list \<Rightarrow> (string \<times> session_alert) list" where
  "merge_alert (t, r) m =
     (if tk_alternations r = 0 then m
      else let a = (case map_of m (tk_node r) of
                 None \<Rightarrow> \<lparr>al_node = tk_node r, al_alternations = 0, al_since = tk_since r, al_last = tk_last r, al_hosts = []\<rparr>
               | Some x \<Rightarrow> x)
           in AList.update (tk_node r) (a\<lparr>al_alternations := al_alternations a + tk_alternations r,
                al_since := (if \<not> IsZero (tk_since r) \<and> tk_since r < al_since a then tk_since r else al_since a),
                al_last := (if al_last a < tk_last r then tk_last r else al_last a),
                al_hosts := fold (\<lambda>h l. if h \<in> set l then l else l @ [h]) (tk_hosts r) (al_hosts a)\<rparr>) m)"

definition SessionAlerts :: "gotime \<Rightarrow> bus_store \<Rightarrow> session_alert list" where
  "SessionAlerts now s = sort_key al_node
     (map (\<lambda>(n, a). a\<lparr>al_since := (if IsZero (al_since a) then now else al_since a)\<rparr>) (fold merge_alert (bs_takeovers s) []))"

section \<open>Token liveness and the registry\<close>

definition live_row :: "token_row \<Rightarrow> bool" where
  "live_row r \<longleftrightarrow> tr_revoked r = None \<and> tr_hash r \<noteq> [] \<and> (case tr_role r of None \<Rightarrow> False | Some x \<Rightarrow> ValidRole x)"

definition live_hashes :: "token_row list \<Rightarrow> string \<Rightarrow> string list" where
  "live_hashes rows n = map tr_hash (filter (\<lambda>r. tr_node r = Some n \<and> live_row r) rows)"

definition liveTokenHashes :: "string \<Rightarrow> bus_store \<Rightarrow> (bus_error + string list) \<times> bus_store" where
  "liveTokenHashes n s =
     (if n = [] then (Inr [], s)
      else let (bad, s1) = bs_fault s in
        if bad then (Inl ErrBusDb, s1) else (Inr (live_hashes (bs_rows s1) n), s1))"

definition live_by_node :: "token_row list \<Rightarrow> (string \<times> string list) list" where
  "live_by_node rows = fold (\<lambda>r m. case tr_node r of
      Some n \<Rightarrow> if n \<noteq> [] \<and> live_row r then AList.update n (live_at m n @ [tr_hash r]) m else m
    | None \<Rightarrow> m) rows []"

definition liveTokensByNode :: "bus_store \<Rightarrow> (bus_error + (string \<times> string list) list) \<times> bus_store" where
  "liveTokensByNode s = (let (bad, s1) = bs_fault s in
     if bad then (Inl ErrBusDb, s1) else (Inr (live_by_node (bs_rows s1)), s1))"

definition SetNodeRegistry :: "bus_store \<Rightarrow> bus_error option \<times> bus_store" where
  "SetNodeRegistry s = (let (r, s1) = liveTokensByNode s in
     case r of
       Inl e \<Rightarrow> (Some e, s1)
     | Inr live \<Rightarrow> (None, s1\<lparr>bs_registry := snd (snd (ReplaceLiveTokens live (bs_registry s1))), bs_attached := True\<rparr>))"

definition run_hooks :: "string list \<Rightarrow> bus_store \<Rightarrow> bus_store" where
  "run_hooks exs s = fold (\<lambda>n s. ForgetNode n (snd (DisconnectNode n s))) exs s"

definition push_live :: "string \<Rightarrow> string list \<Rightarrow> bus_store \<Rightarrow> bus_store" where
  "push_live n hashes s = (let (exs, _, r) = SetLiveTokens n hashes (bs_registry s) in run_hooks exs (s\<lparr>bs_registry := r\<rparr>))"

definition refresh_node_tokens :: "string \<Rightarrow> bus_store \<Rightarrow> bus_store" where
  "refresh_node_tokens n s =
     (if n = [] then s
      else let (r, s1) = liveTokenHashes n s in push_live n (case r of Inl _ \<Rightarrow> [] | Inr hashes \<Rightarrow> hashes) s1)"

definition refreshNodes :: "string list \<Rightarrow> bus_store \<Rightarrow> bus_store" where
  "refreshNodes ns s = (if \<not> bs_attached s then s else fold refresh_node_tokens ns s)"

definition admits :: "(string \<Rightarrow> string) \<Rightarrow> bus_store \<Rightarrow> string \<Rightarrow> string \<Rightarrow> bool" where
  "admits hs s plaintext n =
     (if plaintext = [] \<or> n = [] then False
      else if \<not> bs_attached s then False
      else TokenAdmits (bs_registry s) n (hs plaintext))"

definition touchLastUsed :: "string \<Rightarrow> gotime \<Rightarrow> bus_store \<Rightarrow> bus_store" where
  "touchLastUsed i now s =
     (if i = [] then s
      else let (bad, s1) = bs_fault s in
        if bad then s1 else s1\<lparr>bs_rows := sql_update (\<lambda>r. tr_hash r = i) (\<lambda>r. r\<lparr>tr_used := Some now\<rparr>) (bs_rows s1)\<rparr>)"

definition Admit :: "(string \<Rightarrow> string) \<Rightarrow> Conn \<Rightarrow> string \<Rightarrow> string \<Rightarrow> gotime \<Rightarrow> bus_store \<Rightarrow> bool \<times> bus_store" where
  "Admit hs c plaintext n now s =
     (if \<not> admits hs s plaintext n then (False, s)
      else let i = hs plaintext in
        if \<not> bs_tracking s then (True, touchLastUsed i now s)
        else let s1 = pruneLocked s;
                 (superseded, s2) = takeHeldLocked (\<lambda>g. g_token g = i) s1;
                 k = (cn_server c, cn_cid c);
                 s3 = s2\<lparr>bs_grants := AList.update k \<lparr>g_token = i, g_node = n, g_host = cn_host c\<rparr> (bs_grants s2),
                         bs_admitted := bs_admitted s2 @ [(k, i)]\<rparr>
             in (True, evictSuperseded c i n now superseded (touchLastUsed i now s3)))"

section \<open>Tombstones\<close>

definition earlier :: "Tombstone option \<Rightarrow> Tombstone \<Rightarrow> Tombstone" where
  "earlier have t = (case have of
     None \<Rightarrow> t
   | Some h \<Rightarrow>
       if tb_hash h = [] \<or> (\<not> IsZero (tb_at t) \<and> tb_at t < tb_at h)
       then (if tb_node t = [] then t\<lparr>tb_node := tb_node h\<rparr> else t)
       else (if tb_node h = [] then h\<lparr>tb_node := tb_node t\<rparr> else h))"

definition add_tombstone :: "Tombstone \<Rightarrow> (string \<times> Tombstone) list \<Rightarrow> (string \<times> Tombstone) list" where
  "add_tombstone t m = AList.update (tb_hash t) (earlier (map_of m (tb_hash t)) t) m"

definition tombstoneFileVersion :: int where "tombstoneFileVersion = 1"

definition ReadTombstoneFile :: "tomb_file \<Rightarrow> (string \<times> Tombstone) list option" where
  "ReadTombstoneFile f = (case f of
     FileMissing \<Rightarrow> Some []
   | FileBad \<Rightarrow> None
   | FileParsed v ts \<Rightarrow>
       if v \<noteq> tombstoneFileVersion then None
       else if \<exists>t \<in> set ts. tb_hash t = [] then None
       else Some (fold add_tombstone ts []))"

text \<open>The file holds the set sorted by hash; a failed write leaves the old file.\<close>

definition file_of :: "(string \<times> Tombstone) list \<Rightarrow> tomb_file" where
  "file_of m = FileParsed tombstoneFileVersion (sort_key tb_hash (map snd m))"

definition writeTombstoneFile :: "(string \<times> Tombstone) list \<Rightarrow> bus_store \<Rightarrow> bool \<times> bus_store" where
  "writeTombstoneFile m s = (let (bad, s1) = bs_wfault s in
     if bad then (False, s1) else (True, s1\<lparr>bs_file := file_of m\<rparr>))"

text \<open>\<^verbatim>\<open>MergeTombstoneFiles\<close>: the new content of the live file, how many hashes it gained, or an error.\<close>

definition MergeTombstoneFiles :: "tomb_file \<Rightarrow> tomb_file \<Rightarrow> (nat \<times> tomb_file) option" where
  "MergeTombstoneFiles into from =
     (case ReadTombstoneFile into of
        None \<Rightarrow> None
      | Some live \<Rightarrow>
          (case ReadTombstoneFile from of
             None \<Rightarrow> None
           | Some other \<Rightarrow>
               let added = length (filter (\<lambda>(h, t). map_of live h = None) other) in
               if added = 0 then Some (0, into)
               else Some (added, file_of (fold (\<lambda>(h, t). add_tombstone t) other live))))"

definition row_node :: "token_row \<Rightarrow> string" where
  "row_node r = (case tr_node r of None \<Rightarrow> [] | Some n \<Rightarrow> n)"

definition tombstoned :: "string \<Rightarrow> bus_store \<Rightarrow> bool" where
  "tombstoned h s = (case bs_tomb s of None \<Rightarrow> False | Some m \<Rightarrow> map_of m h \<noteq> None)"

definition recordTombstones :: "Tombstone list \<Rightarrow> bus_store \<Rightarrow> bus_store" where
  "recordTombstones ts s =
     (if ts = [] then s
      else case bs_tomb s of
             None \<Rightarrow> s
           | Some m \<Rightarrow> let m' = fold add_tombstone ts m
                       in snd (writeTombstoneFile m' (s\<lparr>bs_tomb := Some m'\<rparr>)))"

text \<open>\<^verbatim>\<open>UPDATE ... SET revoked_at ... WHERE P AND revoked_at IS NULL RETURNING ...\<close>\<close>

definition revokeReturning :: "(token_row \<Rightarrow> bool) \<Rightarrow> gotime \<Rightarrow> bus_store \<Rightarrow> (bus_error + Tombstone list) \<times> bus_store" where
  "revokeReturning P now s = (let (bad, s1) = bs_fault s in
     if bad then (Inl ErrBusDb, s1)
     else (Inr (map (\<lambda>r. \<lparr>tb_hash = tr_hash r, tb_node = row_node r, tb_at = now\<rparr>)
                  (filter (\<lambda>r. P r \<and> tr_revoked r = None) (bs_rows s1))),
           s1\<lparr>bs_rows := sql_update (\<lambda>r. P r \<and> tr_revoked r = None) (\<lambda>r. r\<lparr>tr_revoked := Some now\<rparr>) (bs_rows s1)\<rparr>))"

text \<open>One tombstone of the set, applied to a row that is still live.\<close>

fun reapply :: "(string \<times> Tombstone) list \<Rightarrow> gotime \<Rightarrow> string list \<Rightarrow> nat \<Rightarrow> bus_store
    \<Rightarrow> bus_error option \<times> string list \<times> nat \<times> bus_store" where
  "reapply [] now touched n s = (None, touched, n, s)"
| "reapply ((h, tb) # ms) now touched n s =
     (let (r, s1) = revokeReturning (\<lambda>q. tr_hash q = h) now s in
      case r of
        Inl e \<Rightarrow> (Some e, touched, n, s1)
      | Inr [] \<Rightarrow> reapply ms now touched n s1
      | Inr (t # _) \<Rightarrow> reapply ms now (touched @ [if tb_node t = [] then tb_node tb else tb_node t]) (Suc n) s1)"

definition UseTombstoneFile :: "gotime \<Rightarrow> bus_store \<Rightarrow> bus_error option \<times> nat \<times> nat \<times> bus_store" where
  "UseTombstoneFile now s =
     (case ReadTombstoneFile (bs_file s) of
        None \<Rightarrow> (Some ErrTombstoneFile, 0, 0, s)
      | Some m0 \<Rightarrow>
          let (bad, s1) = bs_fault s in
          if bad then (Some ErrBusDb, 0, 0, s1)
          else let revoked = filter (\<lambda>r. tr_revoked r \<noteq> None) (bs_rows s1);
                   m = fold (\<lambda>r. add_tombstone \<lparr>tb_hash = tr_hash r, tb_node = row_node r, tb_at = the (tr_revoked r)\<rparr>) revoked m0;
                   added = length (filter (\<lambda>r. map_of m0 (tr_hash r) = None) revoked);
                   s2 = (if 0 < added then snd (writeTombstoneFile m s1) else s1);
                   (e, touched, n, s3) = reapply m now [] 0 s2
               in (case e of
                     Some x \<Rightarrow> (Some x, added, n, refreshNodes touched s3)
                   | None \<Rightarrow> (None, added, n, refreshNodes touched (s3\<lparr>bs_tomb := Some m\<rparr>))))"

section \<open>Minting and loading\<close>

definition new_row :: "string \<Rightarrow> string \<Rightarrow> gotime \<Rightarrow> string \<Rightarrow> NodeRole \<Rightarrow> token_row" where
  "new_row h label now n role = \<lparr>tr_hash = h, tr_label = label, tr_created = now, tr_used = None, tr_revoked = None,
     tr_node = Some n, tr_self = False, tr_role = Some role\<rparr>"

text \<open>\<open>gen\<close> is the random token, \<^term>\<open>None\<close> when the random source fails.\<close>

definition MintBound :: "(string \<Rightarrow> string) \<Rightarrow> string option \<Rightarrow> string \<Rightarrow> string \<Rightarrow> NodeRole \<Rightarrow> gotime \<Rightarrow> bus_store
    \<Rightarrow> (bus_error + string \<times> string) \<times> bus_store" where
  "MintBound hs gen label n role now s =
     (if n = [] then (Inl ErrUnboundToken, s)
      else if \<not> ValidNodeID n then (Inl ErrInvalidNodeID, s)
      else if \<not> ValidRole role then (Inl ErrNoRole, s)
      else case gen of
             None \<Rightarrow> (Inl ErrRand, s)
           | Some p \<Rightarrow>
               let (bad, s1) = bs_fault s in
               if bad \<or> hs p \<in> tr_hash ` set (bs_rows s1) then (Inl ErrBusDb, s1)
               else (Inr (p, hs p), refreshNodes [n] (s1\<lparr>bs_rows := bs_rows s1 @ [new_row (hs p) label now n role]\<rparr>)))"

record PreseedToken =
  ps_hash :: string
  ps_node :: string
  ps_label :: string
  ps_role :: NodeRole

fun check_preseed :: "PreseedToken list \<Rightarrow> bus_error option" where
  "check_preseed [] = None"
| "check_preseed (tk # tks) =
     (if ps_hash tk = [] then check_preseed tks
      else if ps_node tk = [] then Some ErrUnboundToken
      else if \<not> ValidNodeID (ps_node tk) then Some ErrInvalidNodeID
      else if ResolveRole (ps_role tk) (ps_label tk) = None then Some ErrNoRole
      else check_preseed tks)"

fun preload :: "PreseedToken list \<Rightarrow> gotime \<Rightarrow> nat \<Rightarrow> bus_store \<Rightarrow> bus_error option \<times> nat \<times> bus_store" where
  "preload [] now n s = (None, n, s)"
| "preload (tk # tks) now n s =
     (if ps_hash tk = [] \<or> tombstoned (ps_hash tk) s then preload tks now n s
      else let (bad, s1) = bs_fault s in
        if bad then (Some ErrBusDb, n, s1)
        else if ps_hash tk \<in> tr_hash ` set (bs_rows s1) then preload tks now n s1
        else preload tks now (Suc n) (refreshNodes [ps_node tk]
               (s1\<lparr>bs_rows := bs_rows s1 @ [new_row (ps_hash tk) (ps_label tk) now (ps_node tk)
                  (the (ResolveRole (ps_role tk) (ps_label tk)))]\<rparr>)))"

definition PreloadHashes :: "PreseedToken list \<Rightarrow> gotime \<Rightarrow> bus_store \<Rightarrow> bus_error option \<times> nat \<times> bus_store" where
  "PreloadHashes tks now s = (case check_preseed tks of Some e \<Rightarrow> (Some e, 0, s) | None \<Rightarrow> preload tks now 0 s)"

text \<open>The database's own answer, which the api asks of itself at start.\<close>

definition Validate :: "(string \<Rightarrow> string) \<Rightarrow> string \<Rightarrow> string \<Rightarrow> gotime \<Rightarrow> bus_store \<Rightarrow> (bus_error + bool) \<times> bus_store" where
  "Validate hs plaintext n now s =
     (if plaintext = [] then (Inr False, s)
      else let (bad, s1) = bs_fault s in
        if bad then (Inl ErrBusDb, s1)
        else case sql_first (\<lambda>r. tr_hash r = hs plaintext) (bs_rows s1) of
               None \<Rightarrow> (Inr False, s1)
             | Some r \<Rightarrow>
                 if tr_revoked r \<noteq> None then (Inr False, s1)
                 else if row_node r = [] then (Inr False, s1)
                 else if row_node r \<noteq> n then (Inr False, s1)
                 else if \<not> (case tr_role r of None \<Rightarrow> False | Some x \<Rightarrow> ValidRole x) then (Inr False, s1)
                 else (Inr True, touchLastUsed (hs plaintext) now s1))"

section \<open>Revoking\<close>

definition self_row :: "bus_store \<Rightarrow> token_row \<Rightarrow> bool" where
  "self_row s r \<longleftrightarrow> tr_node r = Some (bs_self s) \<and> tr_self r \<and> tr_revoked r = None"

definition isSelfAgentToken :: "string \<Rightarrow> bus_store \<Rightarrow> (bus_error + bool) \<times> bus_store" where
  "isSelfAgentToken i s =
     (if bs_self s = [] \<or> i = [] then (Inr False, s)
      else let (bad, s1) = bs_fault s in
        if bad then (Inl ErrBusDb, s1) else (Inr (\<exists>r \<in> set (bs_rows s1). tr_hash r = i \<and> self_row s1 r), s1))"

definition nodeHasSelfAgentToken :: "string \<Rightarrow> bus_store \<Rightarrow> (bus_error + bool) \<times> bus_store" where
  "nodeHasSelfAgentToken n s =
     (if bs_self s = [] \<or> n \<noteq> bs_self s then (Inr False, s)
      else let (bad, s1) = bs_fault s in
        if bad then (Inl ErrBusDb, s1) else (Inr (\<exists>r \<in> set (bs_rows s1). self_row s1 r), s1))"

text \<open>The two halves of a revoke around the table: the marking, and the push with the closing.\<close>

definition revoke_close :: "(grant \<Rightarrow> bool) \<Rightarrow> string \<Rightarrow> Tombstone list \<Rightarrow> bus_store \<Rightarrow> nat \<times> bus_store" where
  "revoke_close match node tombs s =
     (let (held, s1) = liveSessions match s
      in closeRemaining match held (recordTombstones tombs (refreshNodes [node] s1)))"

definition revoke :: "string \<Rightarrow> gotime \<Rightarrow> bus_store \<Rightarrow> (bus_error + nat) \<times> bus_store" where
  "revoke i now s =
     (let (bad, s1) = bs_fault s in
      if bad then (Inl ErrBusDb, s1)
      else let node = (case sql_first (\<lambda>r. tr_hash r = i) (bs_rows s1) of None \<Rightarrow> [] | Some r \<Rightarrow> row_node r);
               (r, s2) = revokeReturning (\<lambda>q. tr_hash q = i) now s1
           in case r of
                Inl e \<Rightarrow> (Inl e, s2)
              | Inr tombs \<Rightarrow>
                  if tombs = [] then (Inl ErrNoRows, s2)
                  else let (n, s3) = revoke_close (\<lambda>g. g_token g = i) node tombs s2 in (Inr n, s3))"

definition Revoke :: "string \<Rightarrow> gotime \<Rightarrow> bus_store \<Rightarrow> (bus_error + nat) \<times> bus_store" where
  "Revoke i now s = (let (r, s1) = isSelfAgentToken i s in
     case r of
       Inl e \<Rightarrow> (Inl e, s1)
     | Inr protected \<Rightarrow> if protected then (Inl ErrSelfAgentToken, s1) else revoke i now s1)"

definition RevokeByNodeID :: "string \<Rightarrow> gotime \<Rightarrow> bus_store \<Rightarrow> (bus_error + nat \<times> nat) \<times> bus_store" where
  "RevokeByNodeID n now s = (let (r, s1) = nodeHasSelfAgentToken n s in
     case r of
       Inl e \<Rightarrow> (Inl e, s1)
     | Inr protected \<Rightarrow>
         if protected then (Inl ErrSelfAgentToken, s1)
         else let (q, s2) = revokeReturning (\<lambda>r. tr_node r = Some n) now s1 in
           case q of
             Inl e \<Rightarrow> (Inl e, s2)
           | Inr tombs \<Rightarrow> let (d, s3) = revoke_close (\<lambda>g. g_node g = n) n tombs s2 in (Inr (length tombs, d), s3))"

text \<open>The api's own rotation keeps the new token's sessions and refreshes the node last.\<close>

definition revokeNodeTokensExcept :: "string \<Rightarrow> string \<Rightarrow> gotime \<Rightarrow> bus_store \<Rightarrow> (bus_error + nat \<times> nat) \<times> bus_store" where
  "revokeNodeTokensExcept n keep now s =
     (let (q, s1) = revokeReturning (\<lambda>r. tr_node r = Some n \<and> tr_hash r \<noteq> keep) now s in
      case q of
        Inl e \<Rightarrow> (Inl e, refreshNodes [n] s1)
      | Inr tombs \<Rightarrow>
          let (taken, s2) = takeLocked (\<lambda>g. g_node g = n \<and> g_token g \<noteq> keep) s1;
              (d, s3) = disconnect taken (recordTombstones tombs s2)
          in (Inr (length tombs, d), refreshNodes [n] s3))"

section \<open>The controlplane's own agent\<close>

definition adoptSelfAgentToken :: "string \<Rightarrow> string \<Rightarrow> bus_store \<Rightarrow> bus_error option \<times> bus_store" where
  "adoptSelfAgentToken i n s =
     (if i = [] \<or> n = [] then (None, s)
      else let (bad, s1) = bs_fault s in
        if bad then (Some ErrBusDb, s1)
        else let s2 = s1\<lparr>bs_rows := sql_update (\<lambda>r. tr_hash r = i \<and> tr_node r = Some n)
                    (\<lambda>r. r\<lparr>tr_self := True, tr_role := Some ''controlplane''\<rparr>) (bs_rows s1)\<rparr>;
                 (bad2, s3) = bs_fault s2
             in if bad2 then (Some ErrBusDb, s3)
                else (None, refreshNodes [n] (s3\<lparr>bs_rows := sql_update (\<lambda>r. tr_node r = Some n \<and> tr_hash r \<noteq> i)
                        (\<lambda>r. r\<lparr>tr_self := False\<rparr>) (bs_rows s3)\<rparr>)))"

text \<open>
  What \<^verbatim>\<open>agentTokenProblem\<close> finds at the path: a file that cannot be used (missing, not regular,
  open to others, unreadable, empty), or the token it holds.
\<close>

datatype token_file = TokenFileBad | TokenFile string

definition agentTokenProblem :: "(string \<Rightarrow> string) \<Rightarrow> token_file \<Rightarrow> string \<Rightarrow> gotime \<Rightarrow> bus_store
    \<Rightarrow> (bus_error + string option) \<times> bus_store" where
  "agentTokenProblem hs f n now s = (case f of
     TokenFileBad \<Rightarrow> (Inr None, s)
   | TokenFile tok \<Rightarrow>
       let (r, s1) = Validate hs tok n now s in
       case r of Inl e \<Rightarrow> (Inl e, s1) | Inr ok \<Rightarrow> (Inr (if ok then Some (hs tok) else None), s1))"

text \<open>The result: the error, and the plaintext now in the file when a new one was written.\<close>

definition EnsureAgentToken :: "(string \<Rightarrow> string) \<Rightarrow> string option \<Rightarrow> token_file \<Rightarrow> string \<Rightarrow> gotime \<Rightarrow> bus_store
    \<Rightarrow> bus_error option \<times> string option \<times> bus_store" where
  "EnsureAgentToken hs gen f n now s =
     (if n = [] then (Some ErrUnboundToken, None, s)
      else if \<not> ValidNodeID n then (Some ErrInvalidNodeID, None, s)
      else let (r, s1) = agentTokenProblem hs f n now (s\<lparr>bs_self := n\<rparr>) in
        case r of
          Inl e \<Rightarrow> (Some e, None, s1)
        | Inr (Some live) \<Rightarrow> (None, None, snd (adoptSelfAgentToken live n s1))
        | Inr None \<Rightarrow>
            (let (mt, s2) = MintBound hs gen ''controlplane agent (minted by the api at start)'' n ''controlplane'' now s1 in
             case mt of
               Inl e \<Rightarrow> (Some e, None, s2)
             | Inr (p, i) \<Rightarrow>
                 let (bad, s3) = bs_wfault s2 in
                 if bad then (Some ErrWriteFile, None, snd (revoke i now s3))
                 else let s4 = snd (adoptSelfAgentToken i n s3);
                          (q, s5) = revokeNodeTokensExcept n i now s4
                      in (case q of Inl e \<Rightarrow> (Some e, Some p, s5) | Inr _ \<Rightarrow> (None, Some p, s5))))"

section \<open>The auth callout\<close>

datatype deny_reason = MissingNodeID | InvalidNodeID | MissingToken | RefusedToken

definition authorize :: "(string \<Rightarrow> string) \<Rightarrow> Conn \<Rightarrow> string \<Rightarrow> string \<Rightarrow> gotime \<Rightarrow> bus_store \<Rightarrow> deny_reason option \<times> bus_store" where
  "authorize hs c n token now s =
     (if n = [] then (Some MissingNodeID, s)
      else if \<not> ValidNodeID n then (Some InvalidNodeID, s)
      else if token = [] then (Some MissingToken, s)
      else let (ok, s1) = Admit hs c token n now s in (if ok then None else Some RefusedToken, s1))"

record permissions =
  pub_allow :: "string list"
  pub_deny :: "string list"
  sub_allow :: "string list"

definition node_scope :: "string \<Rightarrow> string" where
  "node_scope n = ''rasputin.node.'' @ n"

definition NodeCmdFilter :: "string \<Rightarrow> string" where
  "NodeCmdFilter n = ''rasputin.node.'' @ n @ ''.cmd.>''"

definition mintUserJWT :: "string \<Rightarrow> permissions option" where
  "mintUserJWT n = (if \<not> ValidNodeID n then None
     else Some \<lparr>pub_allow = [node_scope n @ ''.>''], pub_deny = [NodeCmdFilter n], sub_allow = [node_scope n @ ''.cmd.>'']\<rparr>)"

definition handle :: "(string \<Rightarrow> string) \<Rightarrow> Conn \<Rightarrow> string \<Rightarrow> string \<Rightarrow> gotime \<Rightarrow> bus_store \<Rightarrow> permissions option \<times> bus_store" where
  "handle hs c n token now s = (let (deny, s1) = authorize hs c n token now s in
     case deny of Some _ \<Rightarrow> (None, s1) | None \<Rightarrow> (mintUserJWT n, s1))"

end
