(* ===== verification/Bus_Auth_Inv.thy ===== *)
theory Bus_Auth_Inv
  imports Bus_Auth
begin

text \<open>
  What the token store keeps.  The locale \<open>node_registry\<close> is the contract of the interface
  \<^verbatim>\<open>busauth.NodeRegistry\<close>, interpreted on \<^verbatim>\<open>inventory.Registry\<close>: what the registry answers after a
  push.  Its lemmas give that the registry never admits a token the table does not hold as live,
  also when the database fails in the middle of an operation.  The session lemmas give that every
  open connection a token admitted is on record, so that a revoke finds it.
\<close>

section \<open>The registry's contract\<close>

locale node_registry =
  fixes admit :: "'r \<Rightarrow> string \<Rightarrow> string \<Rightarrow> bool"
    and push :: "string \<Rightarrow> string list \<Rightarrow> 'r \<Rightarrow> 'r"
    and load :: "(string \<times> string list) list \<Rightarrow> 'r \<Rightarrow> 'r"
    and ok :: "'r \<Rightarrow> bool"
    and ready :: "'r \<Rightarrow> bool"
    and members_ready :: "'r \<Rightarrow> bool"
  assumes admit_named: "admit r n h \<Longrightarrow> n \<noteq> [] \<and> h \<noteq> [] \<and> ready r"
    and admit_push: "n \<noteq> [] \<Longrightarrow> h \<noteq> [] \<Longrightarrow>
      admit (push m hashes r) n h \<longleftrightarrow> (if n = m then ready r \<and> h \<in> set hashes else admit r n h)"
    and admit_load: "ok r \<Longrightarrow> distinct (map fst live) \<Longrightarrow> n \<noteq> [] \<Longrightarrow> h \<noteq> [] \<Longrightarrow>
      admit (load live r) n h \<longleftrightarrow> members_ready r \<and> h \<in> set (live_at live n)"
    and ready_push: "ready (push m hashes r) = ready r"
begin

text \<open>A push of a node's live set, or of nothing, makes the registry sound for that node.\<close>

lemma push_sound:
  assumes "\<And>n h. admit r n h \<Longrightarrow> n = m \<or> n \<in> N \<or> h \<in> L n" and "set hashes \<subseteq> L m"
    and "admit (push m hashes r) n h"
  shows "n \<in> N \<or> h \<in> L n"
proof -
  have "n \<noteq> []" "h \<noteq> []"
    using admit_named [OF assms(3)] by simp_all
  then show ?thesis
    using assms admit_push [of n h m hashes r] by (auto split: if_splits)
qed

lemma push_exact:
  assumes "ready r" and "\<And>n h. n \<noteq> m \<Longrightarrow> n \<noteq> [] \<Longrightarrow> h \<noteq> [] \<Longrightarrow> admit r n h \<longleftrightarrow> h \<in> L n" and "set hashes = L m"
    and "n \<noteq> []" and "h \<noteq> []"
  shows "admit (push m hashes r) n h \<longleftrightarrow> h \<in> L n"
  using assms admit_push [OF assms(4,5), of m hashes r] by auto

lemma load_sound: "ok r \<Longrightarrow> distinct (map fst live) \<Longrightarrow> admit (load live r) n h \<Longrightarrow> h \<in> set (live_at live n)"
  using admit_named admit_load by blast

end

lemma TokenAdmits_named: "TokenAdmits r n h \<Longrightarrow> n \<noteq> [] \<and> h \<noteq> [] \<and> Loaded r"
  by (simp add: TokenAdmits_iff)

interpretation registry: node_registry TokenAdmits "\<lambda>m hashes r. snd (snd (SetLiveTokens m hashes r))"
    "\<lambda>live r. snd (snd (ReplaceLiveTokens live r))" reg_inv Loaded membersLoaded
  by unfold_locales (auto simp: admits_SetLiveTokens admits_ReplaceLiveTokens dest: TokenAdmits_named)

section \<open>Fields\<close>

named_theorems bus_simps "what each operation of the token store leaves of each field"

lemma fault_fields [bus_simps]:
  "bs_rows (snd (bs_fault s)) = bs_rows s" "bs_registry (snd (bs_fault s)) = bs_registry s"
  "bs_attached (snd (bs_fault s)) = bs_attached s" "bs_tracking (snd (bs_fault s)) = bs_tracking s"
  "bs_open (snd (bs_fault s)) = bs_open s" "bs_grants (snd (bs_fault s)) = bs_grants s"
  "bs_admitted (snd (bs_fault s)) = bs_admitted s" "bs_self (snd (bs_fault s)) = bs_self s"
  "bs_tomb (snd (bs_fault s)) = bs_tomb s" "bs_takeovers (snd (bs_fault s)) = bs_takeovers s"
  "bs_file (snd (bs_fault s)) = bs_file s" "bs_wfaults (snd (bs_fault s)) = bs_wfaults s"
  by (simp_all add: bs_fault_def split: list.splits)

lemma wfault_fields [bus_simps]:
  "bs_rows (snd (bs_wfault s)) = bs_rows s" "bs_registry (snd (bs_wfault s)) = bs_registry s"
  "bs_attached (snd (bs_wfault s)) = bs_attached s" "bs_tracking (snd (bs_wfault s)) = bs_tracking s"
  "bs_open (snd (bs_wfault s)) = bs_open s" "bs_grants (snd (bs_wfault s)) = bs_grants s"
  "bs_admitted (snd (bs_wfault s)) = bs_admitted s" "bs_self (snd (bs_wfault s)) = bs_self s"
  "bs_tomb (snd (bs_wfault s)) = bs_tomb s" "bs_faults (snd (bs_wfault s)) = bs_faults s"
  by (simp_all add: bs_wfault_def split: list.splits)

lemma disconnect_fields [bus_simps]:
  "bs_rows (snd (disconnect ks s)) = bs_rows s" "bs_registry (snd (disconnect ks s)) = bs_registry s"
  "bs_attached (snd (disconnect ks s)) = bs_attached s" "bs_tracking (snd (disconnect ks s)) = bs_tracking s"
  "bs_grants (snd (disconnect ks s)) = bs_grants s" "bs_admitted (snd (disconnect ks s)) = bs_admitted s"
  "bs_self (snd (disconnect ks s)) = bs_self s" "bs_tomb (snd (disconnect ks s)) = bs_tomb s"
  "bs_faults (snd (disconnect ks s)) = bs_faults s"
  "set (bs_open (snd (disconnect ks s))) = set (bs_open s) - set ks"
  by (induction ks arbitrary: s) (auto simp: DisconnectClient_def split_beta Let_def)

lemma close_rest_fields [bus_simps]:
  "bs_rows (snd (close_rest sn ks s)) = bs_rows s" "bs_registry (snd (close_rest sn ks s)) = bs_registry s"
  "bs_attached (snd (close_rest sn ks s)) = bs_attached s" "bs_tracking (snd (close_rest sn ks s)) = bs_tracking s"
  "bs_grants (snd (close_rest sn ks s)) = bs_grants s" "bs_admitted (snd (close_rest sn ks s)) = bs_admitted s"
  "bs_self (snd (close_rest sn ks s)) = bs_self s" "bs_tomb (snd (close_rest sn ks s)) = bs_tomb s"
  "set (bs_open (snd (close_rest sn ks s))) = set (bs_open s) - set ks"
  by (induction ks arbitrary: s) (auto simp: DisconnectClient_def split_beta Let_def)

lemma take_fields [bus_simps]:
  "bs_rows (snd (takeLocked P s)) = bs_rows s" "bs_registry (snd (takeLocked P s)) = bs_registry s"
  "bs_attached (snd (takeLocked P s)) = bs_attached s" "bs_tracking (snd (takeLocked P s)) = bs_tracking s"
  "bs_open (snd (takeLocked P s)) = bs_open s" "bs_admitted (snd (takeLocked P s)) = bs_admitted s"
  "bs_self (snd (takeLocked P s)) = bs_self s" "bs_tomb (snd (takeLocked P s)) = bs_tomb s"
  "bs_faults (snd (takeLocked P s)) = bs_faults s"
  "bs_grants (snd (takeLocked P s)) = filter (\<lambda>(k, g). \<not> P g) (bs_grants s)"
  "set (fst (takeLocked P s)) = {k. \<exists>g. (k, g) \<in> set (bs_grants s) \<and> P g}"
  by (force simp: takeLocked_def takeHeldLocked_def split_beta Let_def)+

lemma hook_fields [bus_simps]:
  "bs_rows (snd (DisconnectNode n s)) = bs_rows s" "bs_registry (snd (DisconnectNode n s)) = bs_registry s"
  "bs_attached (snd (DisconnectNode n s)) = bs_attached s" "bs_tracking (snd (DisconnectNode n s)) = bs_tracking s"
  "bs_admitted (snd (DisconnectNode n s)) = bs_admitted s" "bs_self (snd (DisconnectNode n s)) = bs_self s"
  "bs_tomb (snd (DisconnectNode n s)) = bs_tomb s" "bs_faults (snd (DisconnectNode n s)) = bs_faults s"
  by (simp_all add: DisconnectNode_def split_beta Let_def bus_simps)

lemma forget_fields [bus_simps]:
  "bs_rows (ForgetNode n s) = bs_rows s" "bs_registry (ForgetNode n s) = bs_registry s"
  "bs_attached (ForgetNode n s) = bs_attached s" "bs_tracking (ForgetNode n s) = bs_tracking s"
  "bs_admitted (ForgetNode n s) = bs_admitted s" "bs_self (ForgetNode n s) = bs_self s"
  "bs_tomb (ForgetNode n s) = bs_tomb s" "bs_open (ForgetNode n s) = bs_open s"
  "bs_grants (ForgetNode n s) = bs_grants s" "bs_faults (ForgetNode n s) = bs_faults s"
  by (simp_all add: ForgetNode_def)

lemma run_hooks_fields [bus_simps]:
  "bs_rows (run_hooks ns s) = bs_rows s" "bs_registry (run_hooks ns s) = bs_registry s"
  "bs_attached (run_hooks ns s) = bs_attached s" "bs_tracking (run_hooks ns s) = bs_tracking s"
  "bs_admitted (run_hooks ns s) = bs_admitted s" "bs_self (run_hooks ns s) = bs_self s"
  "bs_tomb (run_hooks ns s) = bs_tomb s" "bs_faults (run_hooks ns s) = bs_faults s"
  unfolding run_hooks_def by (induction ns arbitrary: s) (simp_all add: bus_simps)

lemma push_fields [bus_simps]:
  "bs_rows (push_live n hashes s) = bs_rows s"
  "bs_registry (push_live n hashes s) = snd (snd (SetLiveTokens n hashes (bs_registry s)))"
  "bs_attached (push_live n hashes s) = bs_attached s" "bs_tracking (push_live n hashes s) = bs_tracking s"
  "bs_admitted (push_live n hashes s) = bs_admitted s" "bs_self (push_live n hashes s) = bs_self s"
  "bs_tomb (push_live n hashes s) = bs_tomb s" "bs_faults (push_live n hashes s) = bs_faults s"
  by (simp_all add: push_live_def split_beta Let_def bus_simps)

section \<open>The registry admits only live tokens\<close>

definition live_set :: "bus_store \<Rightarrow> string \<Rightarrow> string set" where
  "live_set s n = set (live_hashes (bs_rows s) n)"

definition mirror_except :: "string set \<Rightarrow> bus_store \<Rightarrow> bool" where
  "mirror_except N s \<longleftrightarrow> reg_inv (bs_registry s) \<and>
     (\<forall>n h. TokenAdmits (bs_registry s) n h \<longrightarrow> n \<in> N \<or> h \<in> live_set s n)"

abbreviation mirror :: "bus_store \<Rightarrow> bool" where
  "mirror s \<equiv> mirror_except {} s"

lemma mirror_cong:
  "bs_registry s' = bs_registry s \<Longrightarrow> bs_rows s' = bs_rows s \<Longrightarrow> mirror_except N s' = mirror_except N s"
  by (simp add: mirror_except_def live_set_def)

lemma liveTokenHashes_spec:
  "set (case fst (liveTokenHashes n s) of Inl _ \<Rightarrow> [] | Inr hashes \<Rightarrow> hashes) \<subseteq> live_set s n"
  "bs_rows (snd (liveTokenHashes n s)) = bs_rows s" "bs_registry (snd (liveTokenHashes n s)) = bs_registry s"
  by (auto simp: liveTokenHashes_def live_set_def bus_simps split_beta Let_def)

lemma refresh_node_mirror:
  assumes "mirror_except (insert n N) s"
  shows "mirror_except N (refresh_node_tokens n s)"
proof (cases "n = []")
  case True
  then show ?thesis
    using assms registry.admit_named by (fastforce simp: refresh_node_tokens_def mirror_except_def)
next
  case False
  let ?hs = "case fst (liveTokenHashes n s) of Inl _ \<Rightarrow> [] | Inr hashes \<Rightarrow> hashes"
  have "TokenAdmits (snd (snd (SetLiveTokens n ?hs (bs_registry s)))) k h \<Longrightarrow> k \<in> N \<or> h \<in> live_set s k" for k h
    by (rule registry.push_sound [OF _ liveTokenHashes_spec(1)]) (use assms in \<open>auto simp: mirror_except_def\<close>)
  then show ?thesis
    using False assms
    by (simp add: refresh_node_tokens_def split_beta Let_def mirror_except_def bus_simps liveTokenHashes_spec
        live_set_def reg_inv_ops)
qed

lemma refresh_rows [bus_simps]:
  "bs_rows (refresh_node_tokens n s) = bs_rows s" "bs_attached (refresh_node_tokens n s) = bs_attached s"
  "bs_tracking (refresh_node_tokens n s) = bs_tracking s" "bs_admitted (refresh_node_tokens n s) = bs_admitted s"
  "bs_self (refresh_node_tokens n s) = bs_self s" "bs_tomb (refresh_node_tokens n s) = bs_tomb s"
  by (simp_all add: refresh_node_tokens_def liveTokenHashes_def split_beta Let_def bus_simps)

lemma refresh_all_fields [bus_simps]:
  "bs_rows (fold refresh_node_tokens ns s) = bs_rows s" "bs_attached (fold refresh_node_tokens ns s) = bs_attached s"
  "bs_tracking (fold refresh_node_tokens ns s) = bs_tracking s" "bs_admitted (fold refresh_node_tokens ns s) = bs_admitted s"
  "bs_self (fold refresh_node_tokens ns s) = bs_self s" "bs_tomb (fold refresh_node_tokens ns s) = bs_tomb s"
  by (induction ns arbitrary: s) (simp_all add: bus_simps)

lemma refreshNodes_fields [bus_simps]:
  "bs_rows (refreshNodes ns s) = bs_rows s" "bs_attached (refreshNodes ns s) = bs_attached s"
  "bs_tracking (refreshNodes ns s) = bs_tracking s" "bs_admitted (refreshNodes ns s) = bs_admitted s"
  "bs_self (refreshNodes ns s) = bs_self s" "bs_tomb (refreshNodes ns s) = bs_tomb s"
  by (simp_all add: refreshNodes_def bus_simps)

lemma refreshNodes_mirror:
  assumes "bs_attached s" and "mirror_except (set ns) s"
  shows "mirror (refreshNodes ns s)"
proof -
  have "mirror_except (set ns \<union> N) s \<Longrightarrow> mirror_except N (fold refresh_node_tokens ns s)" for N s
  proof (induction ns arbitrary: s)
    case (Cons n ns)
    then have "mirror_except (set ns \<union> N) (refresh_node_tokens n s)"
      by (intro refresh_node_mirror) simp
    with Cons.IH show ?case by simp
  qed simp
  from this [of "{}" s] assms show ?thesis
    by (simp add: refreshNodes_def)
qed

lemma mirror_except_Nil: "mirror_except (insert [] N) s = mirror_except N s"
  by (auto simp: mirror_except_def dest: TokenAdmits_named)

lemma mirror_except_mono: "mirror_except N s \<Longrightarrow> N \<subseteq> M \<Longrightarrow> mirror_except M s"
  by (auto simp: mirror_except_def)

lemma mirror_rows:
  assumes "mirror_except M s" and "bs_registry s' = bs_registry s" and "\<And>n. n \<notin> N \<Longrightarrow> live_set s n \<subseteq> live_set s' n"
  shows "mirror_except (M \<union> N) s'"
  using assms by (fastforce simp: mirror_except_def)

lemma live_set_in:
  "h \<in> live_set s n \<longleftrightarrow> (\<exists>r \<in> set (bs_rows s). tr_hash r = h \<and> tr_node r = Some n \<and> live_row r)"
  by (auto simp: live_set_def live_hashes_def)

text \<open>An update that leaves hash, binding and liveness of each row alone or better.\<close>

lemma live_set_update:
  assumes "\<And>r. r \<in> set (bs_rows s) \<Longrightarrow> P r \<Longrightarrow> tr_hash (f r) = tr_hash r \<and> tr_node (f r) = tr_node r \<and> (live_row r \<longrightarrow> live_row (f r))"
  shows "live_set s n \<subseteq> live_set (s\<lparr>bs_rows := sql_update P f (bs_rows s)\<rparr>) n"
proof
  fix h assume "h \<in> live_set s n"
  then obtain r where r: "r \<in> set (bs_rows s)" "tr_hash r = h" "tr_node r = Some n" "live_row r"
    by (auto simp: live_set_in)
  then have "(if P r then f r else r) \<in> set (sql_update P f (bs_rows s))"
    by (auto simp: set_sql_update)
  then show "h \<in> live_set (s\<lparr>bs_rows := sql_update P f (bs_rows s)\<rparr>) n"
    using r assms [OF r(1)] by (auto simp: live_set_in split: if_splits)
qed

lemma touch_fields [bus_simps]:
  "bs_registry (touchLastUsed i now s) = bs_registry s" "bs_attached (touchLastUsed i now s) = bs_attached s"
  "bs_tracking (touchLastUsed i now s) = bs_tracking s" "bs_open (touchLastUsed i now s) = bs_open s"
  "bs_grants (touchLastUsed i now s) = bs_grants s" "bs_admitted (touchLastUsed i now s) = bs_admitted s"
  "bs_self (touchLastUsed i now s) = bs_self s" "bs_tomb (touchLastUsed i now s) = bs_tomb s"
  "map tr_hash (bs_rows (touchLastUsed i now s)) = map tr_hash (bs_rows s)"
  by (simp_all add: touchLastUsed_def split_beta Let_def bus_simps map_sql_update)

lemma live_hashes_used: "live_hashes (sql_update P (\<lambda>r. r\<lparr>tr_used := x\<rparr>) rows) n = live_hashes rows n"
  by (induction rows) (simp_all add: live_hashes_def live_row_def)

lemma touch_live: "live_set (touchLastUsed i now s) n = live_set s n"
  by (simp add: touchLastUsed_def split_beta Let_def live_set_def bus_simps live_hashes_used)

lemma touch_mirror: "mirror_except N (touchLastUsed i now s) = mirror_except N s"
  by (simp add: mirror_except_def bus_simps touch_live)

lemma revokeReturning_fields [bus_simps]:
  "bs_registry (snd (revokeReturning P now s)) = bs_registry s" "bs_attached (snd (revokeReturning P now s)) = bs_attached s"
  "bs_tracking (snd (revokeReturning P now s)) = bs_tracking s" "bs_open (snd (revokeReturning P now s)) = bs_open s"
  "bs_grants (snd (revokeReturning P now s)) = bs_grants s" "bs_admitted (snd (revokeReturning P now s)) = bs_admitted s"
  "bs_self (snd (revokeReturning P now s)) = bs_self s" "bs_tomb (snd (revokeReturning P now s)) = bs_tomb s"
  "map tr_hash (bs_rows (snd (revokeReturning P now s))) = map tr_hash (bs_rows s)"
  by (simp_all add: revokeReturning_def split_beta Let_def bus_simps map_sql_update)

lemma revokeReturning_Inr:
  assumes "revokeReturning P now s = (Inr tombs, s')"
  shows "bs_rows s' = sql_update (\<lambda>r. P r \<and> tr_revoked r = None) (\<lambda>r. r\<lparr>tr_revoked := Some now\<rparr>) (bs_rows s)"
    and "tb_node ` set tombs = row_node ` {r \<in> set (bs_rows s). P r \<and> tr_revoked r = None}"
    and "tb_hash ` set tombs = tr_hash ` {r \<in> set (bs_rows s). P r \<and> tr_revoked r = None}"
  using assms by (auto simp: revokeReturning_def split_beta Let_def bus_simps image_image split: if_splits)

lemma revokeReturning_Inl: "revokeReturning P now s = (Inl e, s') \<Longrightarrow> bs_rows s' = bs_rows s"
  by (auto simp: revokeReturning_def split_beta Let_def bus_simps split: if_splits)

lemma live_hashes_revoked:
  "live_hashes (sql_update (\<lambda>r. P r \<and> tr_revoked r = None) (\<lambda>r. r\<lparr>tr_revoked := Some now\<rparr>) rows) n =
    live_hashes (filter (\<lambda>r. \<not> P r) rows) n"
  by (induction rows) (auto simp: live_hashes_def live_row_def)

lemma revokeReturning_live:
  assumes "revokeReturning P now s = (Inr tombs, s')"
  shows "live_set s' n = set (live_hashes (filter (\<lambda>r. \<not> P r) (bs_rows s)) n)"
  by (simp add: live_set_def revokeReturning_Inr(1) [OF assms] live_hashes_revoked)

lemma revokeReturning_mirror:
  assumes "mirror_except M s" and "revokeReturning P now s = (Inr tombs, s')"
    and "\<And>r n. r \<in> set (bs_rows s) \<Longrightarrow> P r \<Longrightarrow> tr_revoked r = None \<Longrightarrow> tr_node r = Some n \<Longrightarrow> n \<in> N"
  shows "mirror_except (M \<union> N) s'"
proof (rule mirror_rows [OF assms(1)])
  show "bs_registry s' = bs_registry s"
    using revokeReturning_fields(1) [of P now s] assms(2) by simp
  fix n assume n: "n \<notin> N"
  show "live_set s n \<subseteq> live_set s' n"
  proof
    fix h assume "h \<in> live_set s n"
    then obtain r where r: "r \<in> set (bs_rows s)" "tr_hash r = h" "tr_node r = Some n" "live_row r"
      by (auto simp: live_set_in)
    with n assms(3) [OF r(1)] have "\<not> P r"
      by (auto simp: live_row_def)
    with r show "h \<in> live_set s' n"
      by (auto simp: revokeReturning_live [OF assms(2)] live_hashes_def)
  qed
qed

lemma tombs_node:
  assumes "revokeReturning P now s = (Inr tombs, s')"
    and "r \<in> set (bs_rows s)" and "P r" and "tr_revoked r = None" and "tr_node r = Some n"
  shows "n \<in> tb_node ` set tombs"
  using assms(2-5) unfolding revokeReturning_Inr(2) [OF assms(1)]
  by (intro image_eqI [of _ _ r]) (simp_all add: row_node_def)

lemma record_fields [bus_simps]:
  "bs_rows (recordTombstones ts s) = bs_rows s" "bs_registry (recordTombstones ts s) = bs_registry s"
  "bs_attached (recordTombstones ts s) = bs_attached s" "bs_tracking (recordTombstones ts s) = bs_tracking s"
  "bs_open (recordTombstones ts s) = bs_open s" "bs_grants (recordTombstones ts s) = bs_grants s"
  "bs_admitted (recordTombstones ts s) = bs_admitted s" "bs_self (recordTombstones ts s) = bs_self s"
  by (simp_all add: recordTombstones_def writeTombstoneFile_def split_beta Let_def bus_simps split: option.splits)

section \<open>Sessions\<close>

text \<open>
  \<open>sess_ok\<close>: every open connection a token admitted has its grant on record, every grant is of an
  admitted connection, and a token has one grant at most.  \<open>sess_le\<close> is what every operation but
  an admission does to the sessions: it closes some, and forgets the grants of closed ones only.
\<close>

definition sess_ok :: "bus_store \<Rightarrow> bool" where
  "sess_ok s \<longleftrightarrow>
     (\<forall>k i. (k, i) \<in> set (bs_admitted s) \<longrightarrow> k \<in> set (bs_open s) \<longrightarrow> (\<exists>g. (k, g) \<in> set (bs_grants s) \<and> g_token g = i)) \<and>
     (\<forall>k g. (k, g) \<in> set (bs_grants s) \<longrightarrow> (k, g_token g) \<in> set (bs_admitted s)) \<and>
     (\<forall>k g k' g'. (k, g) \<in> set (bs_grants s) \<longrightarrow> (k', g') \<in> set (bs_grants s) \<longrightarrow> g_token g = g_token g' \<longrightarrow> k = k') \<and>
     (\<not> bs_tracking s \<longrightarrow> bs_grants s = [])"

definition sess_le :: "bus_store \<Rightarrow> bus_store \<Rightarrow> bool" where
  "sess_le s s' \<longleftrightarrow> bs_admitted s' = bs_admitted s \<and> set (bs_open s') \<subseteq> set (bs_open s) \<and> bs_tracking s' = bs_tracking s \<and>
     set (bs_grants s') \<subseteq> set (bs_grants s) \<and>
     (\<forall>k g. (k, g) \<in> set (bs_grants s) \<longrightarrow> k \<in> set (bs_open s') \<longrightarrow> (k, g) \<in> set (bs_grants s'))"

lemma sess_okD:
  "sess_ok s \<Longrightarrow> (k, i) \<in> set (bs_admitted s) \<Longrightarrow> k \<in> set (bs_open s) \<Longrightarrow> \<exists>g. (k, g) \<in> set (bs_grants s) \<and> g_token g = i"
  "sess_ok s \<Longrightarrow> (k, g) \<in> set (bs_grants s) \<Longrightarrow> (k, g_token g) \<in> set (bs_admitted s)"
  "sess_ok s \<Longrightarrow> (k, g) \<in> set (bs_grants s) \<Longrightarrow> (k', g') \<in> set (bs_grants s) \<Longrightarrow> g_token g = g_token g' \<Longrightarrow> k = k'"
  "sess_ok s \<Longrightarrow> \<not> bs_tracking s \<Longrightarrow> bs_grants s = []"
  unfolding sess_ok_def by blast+

lemma sess_okI:
  assumes "\<And>k i. (k, i) \<in> set (bs_admitted s) \<Longrightarrow> k \<in> set (bs_open s) \<Longrightarrow> \<exists>g. (k, g) \<in> set (bs_grants s) \<and> g_token g = i"
    and "\<And>k g. (k, g) \<in> set (bs_grants s) \<Longrightarrow> (k, g_token g) \<in> set (bs_admitted s)"
    and "\<And>k g k' g'. (k, g) \<in> set (bs_grants s) \<Longrightarrow> (k', g') \<in> set (bs_grants s) \<Longrightarrow> g_token g = g_token g' \<Longrightarrow> k = k'"
    and "\<not> bs_tracking s \<Longrightarrow> bs_grants s = []"
  shows "sess_ok s"
  unfolding sess_ok_def using assms by blast

lemma sess_ok_le:
  assumes "sess_ok s" and "sess_le s s'"
  shows "sess_ok s'"
proof -
  have e: "bs_admitted s' = bs_admitted s" "bs_tracking s' = bs_tracking s"
    and o: "set (bs_open s') \<subseteq> set (bs_open s)" and g: "set (bs_grants s') \<subseteq> set (bs_grants s)"
    and k: "\<And>k g. (k, g) \<in> set (bs_grants s) \<Longrightarrow> k \<in> set (bs_open s') \<Longrightarrow> (k, g) \<in> set (bs_grants s')"
    using assms(2) unfolding sess_le_def by blast+
  show ?thesis
  proof (rule sess_okI; (unfold e)?)
    show "\<exists>g. (k, g) \<in> set (bs_grants s') \<and> g_token g = i" if "(k, i) \<in> set (bs_admitted s)" "k \<in> set (bs_open s')" for k i
      using sess_okD(1) [OF assms(1) that(1)] that(2) o k by blast
    show "(k, g_token g) \<in> set (bs_admitted s)" if "(k, g) \<in> set (bs_grants s')" for k g
      using sess_okD(2) [OF assms(1)] that g by blast
    show "k = k'" if "(k, h) \<in> set (bs_grants s')" "(k', h') \<in> set (bs_grants s')" "g_token h = g_token h'" for k h k' h'
      using sess_okD(3) [OF assms(1) _ _ that(3)] that g by blast
    show "bs_grants s' = []" if "\<not> bs_tracking s"
      using sess_okD(4) [OF assms(1) that] g by simp
  qed
qed

lemma sess_le_refl [simp, intro]: "sess_le s s"
  by (simp add: sess_le_def)

lemma sess_le_trans [trans]:
  assumes "sess_le s t" and "sess_le t u"
  shows "sess_le s u"
  unfolding sess_le_def
proof (intro conjI allI impI)
  show "bs_admitted u = bs_admitted s" "bs_tracking u = bs_tracking s"
    using assms by (simp_all add: sess_le_def)
  show "set (bs_open u) \<subseteq> set (bs_open s)" "set (bs_grants u) \<subseteq> set (bs_grants s)"
    using assms unfolding sess_le_def by blast+
  show "(k, g) \<in> set (bs_grants u)" if "(k, g) \<in> set (bs_grants s)" and "k \<in> set (bs_open u)" for k g
    using assms that unfolding sess_le_def by blast
qed

lemma sess_le_same:
  "bs_admitted s' = bs_admitted s \<Longrightarrow> bs_open s' = bs_open s \<Longrightarrow> bs_tracking s' = bs_tracking s \<Longrightarrow>
    bs_grants s' = bs_grants s \<Longrightarrow> sess_le s s'"
  by (simp add: sess_le_def)

lemma set_update_fresh: "k \<notin> fst ` set xs \<Longrightarrow> set (AList.update k v xs) = insert (k, v) (set xs)"
  by (induction xs) auto

lemma take_disconnect_le:
  assumes "sess_le (snd (takeLocked P s)) s'"
  shows "sess_le s (snd (disconnect (fst (takeLocked P s)) s'))"
  using assms by (auto simp: sess_le_def bus_simps)

lemma DisconnectNode_le: "sess_le s (snd (DisconnectNode n s))"
  by (simp add: DisconnectNode_def split_beta Let_def take_disconnect_le)

lemma run_hooks_le: "sess_le s (run_hooks ns s)"
  unfolding run_hooks_def
proof (induction ns arbitrary: s)
  case (Cons n ns)
  have "sess_le s (ForgetNode n (snd (DisconnectNode n s)))"
    by (rule sess_le_trans [OF DisconnectNode_le [of s n]]) (simp add: sess_le_same bus_simps)
  from sess_le_trans [OF this Cons.IH] show ?case by simp
qed simp

lemma push_live_le: "sess_le s (push_live n hashes s)"
  by (simp add: push_live_def split_beta Let_def) (rule sess_le_trans [OF sess_le_same run_hooks_le]; simp)

lemma liveTokenHashes_le: "sess_le s (snd (liveTokenHashes n s))"
  by (simp add: liveTokenHashes_def split_beta Let_def sess_le_same bus_simps)

lemma refreshNodes_le: "sess_le s (refreshNodes ns s)"
proof -
  have "sess_le s (refresh_node_tokens n s)" for n s
    by (simp add: refresh_node_tokens_def split_beta Let_def sess_le_trans [OF liveTokenHashes_le push_live_le])
  then have "sess_le s (fold refresh_node_tokens ns s)" for s
    by (induction ns arbitrary: s) (auto intro: sess_le_trans)
  then show ?thesis
    by (simp add: refreshNodes_def)
qed

lemma prune_le: "sess_le s (pruneLocked s)"
  by (auto simp: pruneLocked_def sess_le_def)

lemma liveSessions_le: "sess_le s (snd (liveSessions P s))"
  by (simp add: liveSessions_def Let_def prune_le)

lemma closeRemaining_le:
  assumes "sess_ok s"
  shows "sess_le s (snd (closeRemaining P snap s))"
  using assms by (auto simp: closeRemaining_def split_beta Let_def sess_le_def bus_simps) (auto simp: sess_ok_def)

lemma closeRemaining_fields [bus_simps]:
  "bs_rows (snd (closeRemaining P snap s)) = bs_rows s" "bs_registry (snd (closeRemaining P snap s)) = bs_registry s"
  "bs_attached (snd (closeRemaining P snap s)) = bs_attached s" "bs_self (snd (closeRemaining P snap s)) = bs_self s"
  "bs_tomb (snd (closeRemaining P snap s)) = bs_tomb s"
  "bs_grants (snd (closeRemaining P snap s)) = filter (\<lambda>(k, g). \<not> P g) (bs_grants s)"
  by (simp_all add: closeRemaining_def split_beta Let_def bus_simps)

lemma liveSessions_fields [bus_simps]:
  "bs_rows (snd (liveSessions P s)) = bs_rows s" "bs_registry (snd (liveSessions P s)) = bs_registry s"
  "bs_attached (snd (liveSessions P s)) = bs_attached s" "bs_self (snd (liveSessions P s)) = bs_self s"
  "bs_tomb (snd (liveSessions P s)) = bs_tomb s"
  by (simp_all add: liveSessions_def pruneLocked_def Let_def)

lemma evict_fields [bus_simps]:
  "bs_rows (evictSuperseded c tok n now held s) = bs_rows s" "bs_registry (evictSuperseded c tok n now held s) = bs_registry s"
  "bs_attached (evictSuperseded c tok n now held s) = bs_attached s" "bs_tracking (evictSuperseded c tok n now held s) = bs_tracking s"
  "bs_grants (evictSuperseded c tok n now held s) = bs_grants s" "bs_admitted (evictSuperseded c tok n now held s) = bs_admitted s"
  "bs_self (evictSuperseded c tok n now held s) = bs_self s" "bs_tomb (evictSuperseded c tok n now held s) = bs_tomb s"
  "set (bs_open (evictSuperseded c tok n now held s)) = set (bs_open s) - fst ` set held"
  by (induction held arbitrary: s) (force simp: DisconnectClient_def noteTakeover_def Let_def)+

text \<open>An admission under a fresh connection id records the new session and closes the token's others.\<close>

definition conn_key :: "Conn \<Rightarrow> session" where
  "conn_key c = (cn_server c, cn_cid c)"

lemma Admit_sessions:
  assumes "fst (Admit hs c p n now s)" and "bs_tracking s" and "conn_key c \<notin> fst ` set (bs_admitted s)" and "sess_ok s"
  defines "s' \<equiv> snd (Admit hs c p n now s)"
  shows "bs_tracking s'"
    and "set (bs_admitted s') = insert (conn_key c, hs p) (set (bs_admitted s))"
    and "set (bs_open s') = set (bs_open s) - {k. k \<in> set (bs_open s) \<and> (\<exists>g. (k, g) \<in> set (bs_grants s) \<and> g_token g = hs p)}"
    and "set (bs_grants s') = insert (conn_key c, \<lparr>g_token = hs p, g_node = n, g_host = cn_host c\<rparr>)
      {(k, g). (k, g) \<in> set (bs_grants s) \<and> k \<in> set (bs_open s) \<and> g_token g \<noteq> hs p}"
proof -
  let ?G = "filter (\<lambda>(k, g). g_token g \<noteq> hs p) (filter (\<lambda>(k, g). k \<in> set (bs_open s)) (bs_grants s))"
  have "conn_key c \<notin> fst ` set ?G"
    using assms(3) sess_okD(2) [OF assms(4)] by force
  note u = set_update_fresh [OF this]
  have a: "admits hs s p n"
    using assms(1) by (simp add: Admit_def split: if_splits)
  show "bs_tracking s'" "set (bs_admitted s') = insert (conn_key c, hs p) (set (bs_admitted s))"
    using a assms(2) unfolding s'_def Admit_def conn_key_def
    by (simp_all add: Let_def split_beta bus_simps pruneLocked_def takeHeldLocked_def)
  show "set (bs_open s') = set (bs_open s) - {k. k \<in> set (bs_open s) \<and> (\<exists>g. (k, g) \<in> set (bs_grants s) \<and> g_token g = hs p)}"
    using a assms(2) unfolding s'_def Admit_def
    by (force simp: Let_def split_beta bus_simps pruneLocked_def takeHeldLocked_def)
  show "set (bs_grants s') = insert (conn_key c, \<lparr>g_token = hs p, g_node = n, g_host = cn_host c\<rparr>)
      {(k, g). (k, g) \<in> set (bs_grants s) \<and> k \<in> set (bs_open s) \<and> g_token g \<noteq> hs p}"
    using a assms(2) u unfolding s'_def Admit_def conn_key_def
    by (auto simp: Let_def bus_simps pruneLocked_def takeHeldLocked_def)
qed

lemma sess_ok_Admit:
  assumes "sess_ok s" and "conn_key c \<notin> fst ` set (bs_admitted s)"
  shows "sess_ok (snd (Admit hs c p n now s))"
proof (cases "fst (Admit hs c p n now s) \<and> bs_tracking s")
  case True
  note A = Admit_sessions [OF conjunct1 [OF True] conjunct2 [OF True] assms(2,1)]
  note D = sess_okD [OF assms(1)]
  show ?thesis
  proof (rule sess_okI, unfold A)
    fix k i assume "(k, i) \<in> insert (conn_key c, hs p) (set (bs_admitted s))"
      and o: "k \<in> set (bs_open s) - {k. k \<in> set (bs_open s) \<and> (\<exists>g. (k, g) \<in> set (bs_grants s) \<and> g_token g = hs p)}"
    then consider "k = conn_key c" "i = hs p" | "(k, i) \<in> set (bs_admitted s)" by auto
    then show "\<exists>g. (k, g) \<in> insert (conn_key c, \<lparr>g_token = hs p, g_node = n, g_host = cn_host c\<rparr>)
        {(k, g). (k, g) \<in> set (bs_grants s) \<and> k \<in> set (bs_open s) \<and> g_token g \<noteq> hs p} \<and> g_token g = i"
    proof cases
      case 1
      then show ?thesis
        by (intro exI [of _ "\<lparr>g_token = hs p, g_node = n, g_host = cn_host c\<rparr>"]) simp
    next
      case 2
      with o obtain g where "(k, g) \<in> set (bs_grants s)" "g_token g = i"
        using D(1) by blast
      with o show ?thesis by blast
    qed
  next
    fix k g k' g'
    assume "(k, g) \<in> insert (conn_key c, \<lparr>g_token = hs p, g_node = n, g_host = cn_host c\<rparr>)
        {(k, g). (k, g) \<in> set (bs_grants s) \<and> k \<in> set (bs_open s) \<and> g_token g \<noteq> hs p}"
      "(k', g') \<in> insert (conn_key c, \<lparr>g_token = hs p, g_node = n, g_host = cn_host c\<rparr>)
        {(k, g). (k, g) \<in> set (bs_grants s) \<and> k \<in> set (bs_open s) \<and> g_token g \<noteq> hs p}" "g_token g = g_token g'"
    then show "k = k'"
      using D(3) [of k g k' g'] by auto
  next
    fix k g
    assume "(k, g) \<in> insert (conn_key c, \<lparr>g_token = hs p, g_node = n, g_host = cn_host c\<rparr>)
        {(k, g). (k, g) \<in> set (bs_grants s) \<and> k \<in> set (bs_open s) \<and> g_token g \<noteq> hs p}"
    then show "(k, g_token g) \<in> insert (conn_key c, hs p) (set (bs_admitted s))"
      using D(2) [of k g] by auto
  qed (use A(1) in blast)
next
  case False
  then have "bs_admitted (snd (Admit hs c p n now s)) = bs_admitted s" "bs_open (snd (Admit hs c p n now s)) = bs_open s"
    "bs_grants (snd (Admit hs c p n now s)) = bs_grants s" "bs_tracking (snd (Admit hs c p n now s)) = bs_tracking s"
    by (auto simp: Admit_def Let_def split_beta bus_simps)
  then show ?thesis
    using sess_ok_le [OF assms(1) sess_le_same] by blast
qed

end
