(* ===== verification/Bus_Auth_Steps.thy ===== *)
theory Bus_Auth_Steps
  imports Bus_Auth_Inv
begin

text \<open>
  The invariant of the token store and its preservation.  \<open>ok_except N\<close> says: token hashes are
  unique, an attached registry admits only live tokens (nodes in \<open>N\<close> excepted: their push is
  still to come), and the sessions are on record.  \<open>safe N s M s'\<close> is the step from the one to
  the other that closes sessions only with their grants and never brings a revoked token back;
  it composes, so that each operation's proof follows its code.  \<open>bus_step\<close> collects everything that
  happens to the store: the admissions, the API's operations, connections that come and go, membership
  changes of the shared registry, and database and disk failures.
\<close>

section \<open>The invariant and its steps\<close>

definition hashes_unique :: "bus_store \<Rightarrow> bool" where
  "hashes_unique s \<longleftrightarrow> distinct (map tr_hash (bs_rows s))"

definition revoked_set :: "bus_store \<Rightarrow> string set" where
  "revoked_set s = tr_hash ` {r \<in> set (bs_rows s). tr_revoked r \<noteq> None}"

definition ok_except :: "string set \<Rightarrow> bus_store \<Rightarrow> bool" where
  "ok_except N s \<longleftrightarrow> hashes_unique s \<and> reg_inv (bs_registry s) \<and> (bs_attached s \<longrightarrow> mirror_except N s) \<and> sess_ok s"

abbreviation bus_ok :: "bus_store \<Rightarrow> bool" where
  "bus_ok s \<equiv> ok_except {} s"

definition safe :: "string set \<Rightarrow> bus_store \<Rightarrow> string set \<Rightarrow> bus_store \<Rightarrow> bool" where
  "safe N s M s' \<longleftrightarrow> (ok_except N s \<longrightarrow> ok_except M s' \<and> sess_le s s' \<and> revoked_set s \<subseteq> revoked_set s')"

lemma safe_trans [trans]: "safe N s M t \<Longrightarrow> safe M t K u \<Longrightarrow> safe N s K u"
  unfolding safe_def by (meson sess_le_trans subset_trans)

lemma safe_refl [simp, intro]: "safe N s N s"
  by (simp add: safe_def)

lemma safe_mono: "N \<subseteq> M \<Longrightarrow> safe N s M s"
  by (auto simp: safe_def ok_except_def intro: mirror_except_mono)

lemma safeD: "safe N s M s' \<Longrightarrow> ok_except N s \<Longrightarrow> ok_except M s'"
  "safe N s M s' \<Longrightarrow> ok_except N s \<Longrightarrow> sess_le s s'"
  "safe N s M s' \<Longrightarrow> ok_except N s \<Longrightarrow> revoked_set s \<subseteq> revoked_set s'"
  by (simp_all add: safe_def)

text \<open>A step that leaves table, registry and sessions alone, and one that only closes sessions.\<close>

lemma safe_close:
  assumes "bs_rows s' = bs_rows s" "bs_registry s' = bs_registry s" "bs_attached s' = bs_attached s" "sess_ok s \<Longrightarrow> sess_le s s'"
  shows "safe N s N s'"
  using assms sess_ok_le mirror_cong [of s' s N]
  by (auto simp: safe_def ok_except_def hashes_unique_def revoked_set_def)

lemma safe_same:
  assumes "bs_rows s' = bs_rows s" "bs_registry s' = bs_registry s" "bs_attached s' = bs_attached s"
    "bs_open s' = bs_open s" "bs_grants s' = bs_grants s" "bs_admitted s' = bs_admitted s" "bs_tracking s' = bs_tracking s"
  shows "safe N s N s'"
  by (rule safe_close) (use assms in \<open>auto intro: sess_le_same\<close>)

text \<open>A table update: hashes kept, live rows kept but for those of \<open>K\<close>, revoked rows kept.\<close>

lemma safe_rows:
  assumes "hashes_unique s \<Longrightarrow> hashes_unique s'"
    and "\<And>n. hashes_unique s \<Longrightarrow> n \<notin> K \<Longrightarrow> live_set s n \<subseteq> live_set s' n"
    and "revoked_set s \<subseteq> revoked_set s'"
    and "bs_registry s' = bs_registry s" "bs_attached s' = bs_attached s" "sess_le s s'"
  shows "safe N s (N \<union> K) s'"
  unfolding safe_def
proof
  assume s: "ok_except N s"
  then have "bs_attached s \<longrightarrow> mirror_except (N \<union> K) s'"
    using mirror_rows [of N s s' K] assms(2,4) by (simp add: ok_except_def)
  with s show "ok_except (N \<union> K) s' \<and> sess_le s s' \<and> revoked_set s \<subseteq> revoked_set s'"
    using assms sess_ok_le [OF _ assms(6)] by (simp add: ok_except_def)
qed

lemma safe_fault: "safe N s N (snd (bs_fault s))"
  by (rule safe_same) (simp_all add: bus_simps)

lemma safe_wfault: "safe N s N (snd (bs_wfault s))"
  by (rule safe_same) (simp_all add: bus_simps)

lemma safe_record: "safe N s N (recordTombstones ts s)"
  by (rule safe_same) (simp_all add: bus_simps)

lemma safe_liveSessions: "safe N s N (snd (liveSessions P s))"
  by (rule safe_close) (simp_all add: bus_simps liveSessions_le)

lemma safe_closeRemaining: "safe N s N (snd (closeRemaining P snap s))"
  by (rule safe_close) (simp_all add: bus_simps closeRemaining_le)

lemma revoked_set_update:
  assumes "bs_rows s' = sql_update P f (bs_rows s)"
    and "\<And>r. tr_hash (f r) = tr_hash r" "\<And>r. tr_revoked r \<noteq> None \<Longrightarrow> tr_revoked (f r) \<noteq> None"
  shows "revoked_set s \<subseteq> revoked_set s'"
proof
  fix h assume "h \<in> revoked_set s"
  then obtain r where r: "r \<in> set (bs_rows s)" "tr_revoked r \<noteq> None" "h = tr_hash r"
    by (auto simp: revoked_set_def)
  then have "(if P r then f r else r) \<in> {r \<in> set (bs_rows s'). tr_revoked r \<noteq> None}"
    using assms(3) [OF r(2)] by (simp add: assms(1) set_sql_update)
  then show "h \<in> revoked_set s'"
    unfolding revoked_set_def r(3) by (rule rev_image_eqI) (simp add: assms(2))
qed

lemma safe_touch: "safe N s N (touchLastUsed i now s)"
proof -
  have "revoked_set s \<subseteq> revoked_set (touchLastUsed i now s)"
  proof (cases "i = [] \<or> fst (bs_fault s)")
    case True
    then show ?thesis
      by (auto simp: revoked_set_def touchLastUsed_def split_beta Let_def bus_simps)
  qed (rule revoked_set_update [of _ "\<lambda>r. tr_hash r = i" "\<lambda>r. r\<lparr>tr_used := Some now\<rparr>"];
      simp add: touchLastUsed_def split_beta Let_def bus_simps)
  then have "safe N s (N \<union> {}) (touchLastUsed i now s)"
    by (intro safe_rows) (simp_all add: bus_simps touch_live hashes_unique_def sess_le_same)
  then show ?thesis by simp
qed

lemma safe_refresh: "safe (set ns) s {} (refreshNodes ns s)"
proof -
  have "reg_inv (bs_registry s) \<Longrightarrow> reg_inv (bs_registry (refreshNodes ns s))"
    if "bs_attached s \<longrightarrow> mirror_except (set ns) s"
    using refreshNodes_mirror [of s ns] that by (cases "bs_attached s") (auto simp: mirror_except_def refreshNodes_def)
  then show ?thesis
    using refreshNodes_mirror [of s ns] refreshNodes_le [of s ns] sess_ok_le
    by (auto simp: safe_def ok_except_def hashes_unique_def revoked_set_def bus_simps)
qed

lemma safe_refresh_ok: "safe {} s {} (refreshNodes ns s)"
  using safe_trans [OF safe_mono safe_refresh] by simp

lemma safe_revokeReturning:
  assumes "revokeReturning P now s = (Inr tombs, s')"
    and "\<And>r n. hashes_unique s \<Longrightarrow> r \<in> set (bs_rows s) \<Longrightarrow> P r \<Longrightarrow> tr_revoked r = None \<Longrightarrow> tr_node r = Some n \<Longrightarrow> n \<noteq> [] \<Longrightarrow> n \<in> N"
  shows "safe M s (M \<union> N) s'"
proof -
  note F = revokeReturning_fields [where P = P and now = now and s = s, unfolded assms(1) snd_conv]
  have "safe M s (M \<union> insert [] N) s'"
  proof (rule safe_rows)
    fix n assume u: "hashes_unique s" and n: "n \<notin> insert [] N"
    show "live_set s n \<subseteq> live_set s' n"
    proof
      fix h assume "h \<in> live_set s n"
      then obtain r where r: "r \<in> set (bs_rows s)" "tr_hash r = h" "tr_node r = Some n" "live_row r"
        by (auto simp: live_set_in)
      with n assms(2) [OF u r(1)] have "\<not> P r"
        by (auto simp: live_row_def)
      with r show "h \<in> live_set s' n"
        by (auto simp: revokeReturning_live [OF assms(1)] live_hashes_def)
    qed
  next
    show "revoked_set s \<subseteq> revoked_set s'"
      by (rule revoked_set_update [OF revokeReturning_Inr(1) [OF assms(1)]]) simp_all
  qed (use F in \<open>simp_all add: hashes_unique_def sess_le_same\<close>)
  moreover have "ok_except (M \<union> insert [] N) s' = ok_except (M \<union> N) s'"
    using mirror_except_Nil [of "M \<union> N" s'] by (simp add: ok_except_def)
  ultimately show ?thesis
    by (simp add: safe_def)
qed

lemma safe_revokeReturning_Inl:
  assumes "revokeReturning P now s = (Inl e, s')"
  shows "safe M s M s'"
  using revokeReturning_fields [where P = P and now = now and s = s, unfolded assms snd_conv]
  by (intro safe_same revokeReturning_Inl [OF assms]) simp_all

section \<open>The operations\<close>

lemma safe_append:
  assumes "hashes_unique s \<Longrightarrow> tr_hash r \<notin> tr_hash ` set (bs_rows s)"
  shows "safe N s N (s\<lparr>bs_rows := bs_rows s @ [r]\<rparr>)"
proof -
  have "safe N s (N \<union> {}) (s\<lparr>bs_rows := bs_rows s @ [r]\<rparr>)"
    by (rule safe_rows) (use assms in \<open>auto simp: hashes_unique_def revoked_set_def live_set_in intro: sess_le_same\<close>)
  then show ?thesis by simp
qed

text \<open>An update of rows that keeps hash, binding and revocation and takes no live row's liveness.\<close>

lemma safe_update:
  assumes "\<And>r. tr_hash (f r) = tr_hash r" "\<And>r. tr_node (f r) = tr_node r" "\<And>r. tr_revoked (f r) = tr_revoked r"
    and "\<And>r. live_row r \<Longrightarrow> live_row (f r)"
  shows "safe N s N (s\<lparr>bs_rows := sql_update P f (bs_rows s)\<rparr>)"
proof -
  have "safe N s (N \<union> {}) (s\<lparr>bs_rows := sql_update P f (bs_rows s)\<rparr>)"
  proof (rule safe_rows)
    show "revoked_set s \<subseteq> revoked_set (s\<lparr>bs_rows := sql_update P f (bs_rows s)\<rparr>)"
      by (rule revoked_set_update [of _ P f]) (simp_all add: assms)
    show "live_set s n \<subseteq> live_set (s\<lparr>bs_rows := sql_update P f (bs_rows s)\<rparr>) n" for n
      by (rule live_set_update) (simp add: assms)
  qed (simp_all add: hashes_unique_def map_sql_update assms sess_le_same)
  then show ?thesis by simp
qed

lemma safe_MintBound: "safe {} s {} (snd (MintBound hs gen label n role now s))"
proof -
  let ?s1 = "snd (bs_fault s)"
  have "safe {} s {} (refreshNodes [n] (?s1\<lparr>bs_rows := bs_rows ?s1 @ [new_row (hs p) label now n role]\<rparr>))"
    if "hs p \<notin> tr_hash ` set (bs_rows ?s1)" for p
    by (rule safe_trans [OF safe_fault safe_trans [OF safe_append safe_refresh_ok]])
      (use that in \<open>simp add: new_row_def\<close>)
  then show ?thesis
    using safe_fault [of "{}" s] by (simp add: MintBound_def split_beta Let_def split: option.split)
qed

lemma safe_preload: "safe {} s {} (snd (snd (preload tks now n s)))"
proof (induction tks now n s rule: preload.induct)
  case (2 tk tks now n s)
  let ?s1 = "snd (bs_fault s)"
  let ?r = "new_row (ps_hash tk) (ps_label tk) now (ps_node tk) (the (ResolveRole (ps_role tk) (ps_label tk)))"
  consider (skip) "ps_hash tk = [] \<or> tombstoned (ps_hash tk) s"
    | (bad) "\<not> (ps_hash tk = [] \<or> tombstoned (ps_hash tk) s)" "fst (bs_fault s)"
    | (known) "\<not> (ps_hash tk = [] \<or> tombstoned (ps_hash tk) s)" "\<not> fst (bs_fault s)" "ps_hash tk \<in> tr_hash ` set (bs_rows ?s1)"
    | (new) "\<not> (ps_hash tk = [] \<or> tombstoned (ps_hash tk) s)" "\<not> fst (bs_fault s)" "ps_hash tk \<notin> tr_hash ` set (bs_rows ?s1)"
    by blast
  then show ?case
  proof cases
    case skip
    with 2(1) show ?thesis by simp
  next
    case bad
    then show ?thesis by (simp add: split_beta Let_def safe_fault)
  next
    case known
    from safe_trans [OF safe_fault 2(2) [OF known(1) refl prod.collapse known(2,3)]] known show ?thesis
      by (simp add: split_beta Let_def)
  next
    case new
    have "safe {} s {} (refreshNodes [ps_node tk] (?s1\<lparr>bs_rows := bs_rows ?s1 @ [?r]\<rparr>))"
      by (rule safe_trans [OF safe_fault safe_trans [OF safe_append safe_refresh_ok]])
        (use new in \<open>simp add: new_row_def\<close>)
    from safe_trans [OF this 2(3) [OF new(1) refl prod.collapse new(2,3)]] new show ?thesis
      by (simp add: split_beta Let_def)
  qed
qed simp

lemma safe_PreloadHashes: "safe {} s {} (snd (snd (PreloadHashes tks now s)))"
  by (simp add: PreloadHashes_def safe_preload split: option.split)

lemma safe_Validate: "safe N s N (snd (Validate hs p n now s))"
  using safe_fault [of N s] safe_trans [OF safe_fault safe_touch]
  by (simp add: Validate_def split_beta Let_def split: option.split)

lemma safe_revoke_close: "safe {node} s {} (snd (revoke_close P node tombs s))"
  unfolding revoke_close_def split_beta Let_def
  by (rule safe_trans [OF safe_liveSessions safe_trans [OF _ safe_trans [OF safe_record safe_closeRemaining]]])
    (rule safe_refresh [of "[node]", simplified])

lemma row_of_hash:
  assumes "hashes_unique s" and "r \<in> set (bs_rows s)"
  shows "sql_first (\<lambda>q. tr_hash q = tr_hash r) (bs_rows s) = Some r"
  using assms sql_first_unique [of tr_hash "bs_rows s" r] by (simp add: hashes_unique_def)

lemma safe_revoke: "safe {} s {} (snd (revoke i now s))"
proof (cases "fst (bs_fault s)")
  case True
  then show ?thesis by (simp add: revoke_def split_beta Let_def safe_fault)
next
  case False
  let ?s1 = "snd (bs_fault s)"
  let ?node = "case sql_first (\<lambda>r. tr_hash r = i) (bs_rows ?s1) of None \<Rightarrow> [] | Some r \<Rightarrow> row_node r"
  obtain q s2 where r: "revokeReturning (\<lambda>q. tr_hash q = i) now ?s1 = (q, s2)" by fastforce
  show ?thesis
  proof (cases q)
    case (Inl e)
    then show ?thesis
      using False r safe_trans [OF safe_fault safe_revokeReturning_Inl]
      by (fastforce simp: revoke_def split_beta Let_def)
  next
    case (Inr tombs)
    have "safe {} ?s1 ({} \<union> {?node}) s2"
      by (rule safe_revokeReturning [OF r [unfolded Inr]]) (auto simp: row_of_hash row_node_def)
    then have s2: "safe {} s {?node} s2"
      using safe_trans [OF safe_fault] by fastforce
    have "tombs = [] \<Longrightarrow> safe {} ?s1 ({} \<union> {}) s2"
      by (rule safe_revokeReturning [OF r [unfolded Inr]]) (use tombs_node [OF r [unfolded Inr]] in auto)
    then have "tombs = [] \<Longrightarrow> safe {} s {} s2"
      using safe_trans [OF safe_fault] by fastforce
    then show ?thesis
      using False r Inr safe_trans [OF s2 safe_revoke_close] by (simp add: revoke_def split_beta Let_def)
  qed
qed

lemma isSelf_cases:
  "snd (isSelfAgentToken i s) = s \<or> snd (isSelfAgentToken i s) = snd (bs_fault s)"
  "snd (nodeHasSelfAgentToken n s) = s \<or> snd (nodeHasSelfAgentToken n s) = snd (bs_fault s)"
  by (auto simp: isSelfAgentToken_def nodeHasSelfAgentToken_def split_beta Let_def)

lemma safe_isSelf: "safe N s N (snd (isSelfAgentToken i s))" "safe N s N (snd (nodeHasSelfAgentToken n s))"
  using isSelf_cases(1) [of i s] isSelf_cases(2) [of n s] safe_fault [of N s] by auto

lemma safe_Revoke: "safe {} s {} (snd (Revoke i now s))"
  using safe_isSelf(1) safe_trans [OF safe_isSelf(1) safe_revoke]
  by (simp add: Revoke_def split_beta Let_def split: sum.split)

lemma safe_RevokeByNodeID: "safe {} s {} (snd (RevokeByNodeID n now s))"
proof -
  let ?s1 = "snd (nodeHasSelfAgentToken n s)"
  obtain q s2 where r: "revokeReturning (\<lambda>r. tr_node r = Some n) now ?s1 = (q, s2)" by fastforce
  have "safe {} s {} (snd (case q of Inl e \<Rightarrow> (Inl e, s2)
      | Inr tombs \<Rightarrow> let (d, s3) = revoke_close (\<lambda>g. g_node g = n) n tombs s2 in (Inr (length tombs, d), s3)))"
  proof (cases q)
    case (Inl e)
    then show ?thesis
      using safe_trans [OF safe_isSelf(2) safe_revokeReturning_Inl [OF r [unfolded Inl]]] by simp
  next
    case (Inr tombs)
    have "safe {} ?s1 ({} \<union> {n}) s2"
      by (rule safe_revokeReturning [OF r [unfolded Inr]]) simp
    then have "safe {} s {n} s2"
      using safe_trans [OF safe_isSelf(2)] by fastforce
    with Inr show ?thesis
      using safe_trans [OF _ safe_revoke_close] by (simp add: split_beta Let_def)
  qed
  then show ?thesis
    using safe_isSelf(2) [of "{}" s n] r by (simp add: RevokeByNodeID_def split_beta Let_def split: sum.split)
qed

lemma safe_take_disconnect:
  "safe N s N (snd (disconnect (fst (takeLocked P s)) (recordTombstones tombs (snd (takeLocked P s)))))"
  by (rule safe_close) (simp_all add: bus_simps take_disconnect_le sess_le_same)

lemma safe_revokeNodeTokensExcept: "safe {} s {} (snd (revokeNodeTokensExcept n keep now s))"
proof -
  obtain q s1 where r: "revokeReturning (\<lambda>r. tr_node r = Some n \<and> tr_hash r \<noteq> keep) now s = (q, s1)" by fastforce
  show ?thesis
  proof (cases q)
    case (Inl e)
    then show ?thesis
      using r safe_trans [OF safe_revokeReturning_Inl [OF r [unfolded Inl]] safe_refresh_ok]
      by (simp add: revokeNodeTokensExcept_def)
  next
    case (Inr tombs)
    have "safe {} s ({} \<union> {n}) s1"
      by (rule safe_revokeReturning [OF r [unfolded Inr]]) simp
    then have "safe {} s (set [n]) s1" by simp
    from safe_trans [OF safe_trans [OF this safe_take_disconnect] safe_refresh] r Inr show ?thesis
      by (simp add: revokeNodeTokensExcept_def split_beta Let_def)
  qed
qed

lemma safe_adopt: "safe {} s {} (snd (adoptSelfAgentToken i n s))"
proof (cases "(i = [] \<or> n = []) \<or> fst (bs_fault s)")
  case True
  then show ?thesis
    by (auto simp: adoptSelfAgentToken_def split_beta Let_def safe_fault)
next
  case False
  let ?s2 = "(snd (bs_fault s))\<lparr>bs_rows := sql_update (\<lambda>r. tr_hash r = i \<and> tr_node r = Some n)
      (\<lambda>r. r\<lparr>tr_self := True, tr_role := Some ''controlplane''\<rparr>) (bs_rows (snd (bs_fault s)))\<rparr>"
  have "safe {} s {} ?s2"
    by (rule safe_trans [OF safe_fault safe_update]) (simp_all add: live_row_def ValidRole_def AllRoles_def)
  then have s3: "safe {} s {} (snd (bs_fault ?s2))"
    using safe_trans safe_fault by blast
  have "safe {} s {} (refreshNodes [n] (snd (bs_fault ?s2)\<lparr>bs_rows := sql_update P (\<lambda>r. r\<lparr>tr_self := False\<rparr>) (bs_rows (snd (bs_fault ?s2)))\<rparr>))" for P
    by (rule safe_trans [OF s3 safe_trans [OF safe_update safe_refresh_ok]]) (simp_all add: live_row_def)
  with False s3 show ?thesis
    by (simp add: adoptSelfAgentToken_def split_beta Let_def)
qed

lemma safe_EnsureAgentToken: "safe {} s {} (snd (snd (EnsureAgentToken hs gen f n now s)))"
proof (cases "n = [] \<or> \<not> ValidNodeID n")
  case True
  then show ?thesis by (auto simp: EnsureAgentToken_def)
next
  case False
  obtain r s1 where r: "agentTokenProblem hs f n now (s\<lparr>bs_self := n\<rparr>) = (r, s1)" by fastforce
  have "safe {} (s\<lparr>bs_self := n\<rparr>) {} (snd (agentTokenProblem hs f n now (s\<lparr>bs_self := n\<rparr>)))"
    by (auto simp: agentTokenProblem_def split_beta Let_def safe_Validate split: token_file.split sum.split)
  then have s1: "safe {} s {} s1"
    using safe_trans [OF safe_same, of "s\<lparr>bs_self := n\<rparr>" s "{}" "{}" s1] r by simp
  obtain mt s2 where mt: "MintBound hs gen ''controlplane agent (minted by the api at start)'' n ''controlplane'' now s1 = (mt, s2)"
    by fastforce
  have s2: "safe {} s {} s2"
    using safe_trans [OF s1 safe_MintBound] mt by (metis snd_conv)
  have s3: "safe {} s {} (snd (bs_wfault s2))"
    by (rule safe_trans [OF s2 safe_wfault])
  show ?thesis
    using False r mt s1 s2 safe_trans [OF s1 safe_adopt] safe_trans [OF s3 safe_revoke]
      safe_trans [OF safe_trans [OF s3 safe_adopt] safe_revokeNodeTokensExcept]
    by (simp add: EnsureAgentToken_def split_beta Let_def split: sum.split option.split prod.split)
qed

lemma length_le_one: "length xs \<le> 1 \<Longrightarrow> x \<in> set xs \<Longrightarrow> xs = [x]"
  by (cases xs) auto

text \<open>One hash is one row, so that one tombstone names the one node a reapplied revocation touches.\<close>

lemma one_tomb:
  assumes "hashes_unique s" and "revokeReturning (\<lambda>q. tr_hash q = h) now s = (Inr (t # ts), s')"
    and "r \<in> set (bs_rows s)" and "tr_hash r = h" and "tr_revoked r = None"
  shows "tb_node t = row_node r"
proof -
  let ?rs = "filter (\<lambda>r. tr_hash r = h \<and> tr_revoked r = None) (bs_rows s)"
  have "length ?rs \<le> 1"
    using assms(1) by (intro length_filter_le_one [of tr_hash]) (auto simp: hashes_unique_def)
  then have "?rs = [r]"
    using assms(3-5) by (intro length_le_one) auto
  then show ?thesis
    using assms(2) by (auto simp: revokeReturning_def split_beta Let_def bus_simps split: if_splits)
qed

lemma safe_reapply:
  "safe (set touched) s (set (fst (snd (reapply m now touched n s)))) (snd (snd (snd (reapply m now touched n s))))"
proof (induction m arbitrary: touched n s)
  case (Cons e m)
  obtain h tb where e: "e = (h, tb)" by fastforce
  obtain q s1 where r: "revokeReturning (\<lambda>q. tr_hash q = h) now s = (q, s1)" by fastforce
  show ?case
  proof (cases q)
    case (Inl x)
    then show ?thesis
      using safe_revokeReturning_Inl [of "\<lambda>q. tr_hash q = h"] r by (simp add: e)
  next
    case (Inr tombs)
    note R = r [unfolded Inr]
    show ?thesis
    proof (cases tombs)
      case Nil
      have "safe (set touched) s (set touched \<union> {}) s1"
        by (rule safe_revokeReturning [OF R]) (use tombs_node [OF R] Nil in auto)
      then have "safe (set touched) s (set touched) s1" by simp
      from safe_trans [OF this Cons.IH] R Nil show ?thesis
        by (simp add: e)
    next
      case (Cons t ts)
      let ?n = "if tb_node t = [] then tb_node tb else tb_node t"
      have "safe (set touched) s (set touched \<union> {?n}) s1"
        by (rule safe_revokeReturning [OF R])
          (use one_tomb [OF _ R [unfolded Cons]] in \<open>auto simp: row_node_def\<close>)
      then have "safe (set touched) s (set (touched @ [?n])) s1" by simp
      from safe_trans [OF this Cons.IH] R Cons show ?thesis
        by (simp add: e)
    qed
  qed
qed simp

lemma safe_UseTombstoneFile: "safe {} s {} (snd (snd (snd (UseTombstoneFile now s))))"
proof (cases "ReadTombstoneFile (bs_file s)")
  case (Some m0)
  let ?s1 = "snd (bs_fault s)"
  let ?rv = "filter (\<lambda>r. tr_revoked r \<noteq> None) (bs_rows ?s1)"
  let ?m = "fold (\<lambda>r. add_tombstone \<lparr>tb_hash = tr_hash r, tb_node = row_node r, tb_at = the (tr_revoked r)\<rparr>) ?rv m0"
  let ?s2 = "if 0 < length (filter (\<lambda>r. map_of m0 (tr_hash r) = None) ?rv) then snd (writeTombstoneFile ?m ?s1) else ?s1"
  have w: "safe N t N (snd (writeTombstoneFile m t))" for N m t
    by (rule safe_same) (simp_all add: writeTombstoneFile_def split_beta Let_def bus_simps)
  have "safe {} s {} ?s2"
    using safe_fault [of "{}" s] safe_trans [OF safe_fault w] by simp
  then have s2: "safe {} s (set []) ?s2" by simp
  obtain e touched k s3 where ra: "reapply ?m now [] 0 ?s2 = (e, touched, k, s3)"
    by (rule prod_cases4)
  have s3: "safe {} s (set touched) s3"
    using safe_trans [OF s2 safe_reapply [of _ _ ?m now 0]] unfolding ra by simp
  have t: "safe {} s (set touched) (s3\<lparr>bs_tomb := x\<rparr>)" for x
    by (rule safe_trans [OF s3 safe_same]) simp_all
  show ?thesis
  proof (cases "fst (bs_fault s)")
    case True
    with Some show ?thesis
      by (simp add: UseTombstoneFile_def split_beta Let_def safe_fault)
  next
    case False
    then have "UseTombstoneFile now s =
        (let added = length (filter (\<lambda>r. map_of m0 (tr_hash r) = None) ?rv) in
          case e of Some x \<Rightarrow> (Some x, added, k, refreshNodes touched s3)
          | None \<Rightarrow> (None, added, k, refreshNodes touched (s3\<lparr>bs_tomb := Some ?m\<rparr>)))"
      unfolding UseTombstoneFile_def Some option.case Let_def split_beta ra fst_conv snd_conv by simp
    then show ?thesis
      using safe_trans [OF s3 safe_refresh] safe_trans [OF t safe_refresh] by (simp add: Let_def split: option.split)
  qed
qed (simp add: UseTombstoneFile_def)

lemma live_by_node_spec:
  "distinct (map fst (live_by_node rows))"
  "n \<noteq> [] \<Longrightarrow> set (live_at (live_by_node rows) n) = set (live_hashes rows n)"
proof (induction rows rule: rev_induct)
  case (snoc r rows)
  { case 1
    show ?case
      using snoc(1) by (simp add: live_by_node_def distinct_update split: option.split) }
  { case 2
    then show ?case
      using snoc(2) [OF 2] by (auto simp: live_by_node_def live_hashes_def live_at_def update_conv' split: option.split if_splits) }
qed (simp_all add: live_by_node_def live_hashes_def live_at_def)

lemma safe_SetNodeRegistry: "safe {} s {} (snd (SetNodeRegistry s))"
proof (cases "fst (bs_fault s)")
  case True
  then show ?thesis
    by (simp add: SetNodeRegistry_def liveTokensByNode_def split_beta Let_def safe_fault)
next
  case False
  let ?s1 = "snd (bs_fault s)"
  let ?s2 = "?s1\<lparr>bs_registry := snd (snd (ReplaceLiveTokens (live_by_node (bs_rows ?s1)) (bs_registry ?s1))), bs_attached := True\<rparr>"
  have "mirror ?s2" if "reg_inv (bs_registry ?s1)"
  proof -
    have "h \<in> set (live_hashes (bs_rows ?s1) n)" if "TokenAdmits (bs_registry ?s2) n h" for n h
      using registry.load_sound [OF \<open>reg_inv (bs_registry ?s1)\<close> live_by_node_spec(1)] that
        live_by_node_spec(2) TokenAdmits_named [OF that] by fastforce
    with that show ?thesis
      by (simp add: mirror_except_def live_set_def reg_inv_Replace)
  qed
  then have "safe {} ?s1 {} ?s2"
    using sess_ok_le [OF _ sess_le_same, of ?s1 ?s2]
    by (auto simp: safe_def ok_except_def hashes_unique_def revoked_set_def reg_inv_Replace sess_le_same)
  from safe_trans [OF safe_fault this] False show ?thesis
    by (simp add: SetNodeRegistry_def liveTokensByNode_def split_beta Let_def)
qed

section \<open>Steps\<close>

lemma TokenAdmits_member:
  "TokenAdmits (snd (snd (setMember m role member seen r))) n h = TokenAdmits r n h"
  "TokenAdmits (snd (snd (setKeys m ks r))) n h = TokenAdmits r n h"
  unfolding TokenAdmits_iff Loaded_ops
  by (auto simp: reg_ops update_all_entries after_change_def Let_def entry_empty_def new_entry_def
      simp del: update_all.simps map_of_eq_Some_iff split: if_splits option.splits)

text \<open>A membership change of the registry, with the hooks it fires.\<close>

definition on_members :: "(Registry \<Rightarrow> string list \<times> (string \<times> string list) list \<times> Registry) \<Rightarrow> bus_store \<Rightarrow> bus_store" where
  "on_members f s = (let (exs, _, r) = f (bs_registry s) in run_hooks exs (s\<lparr>bs_registry := r\<rparr>))"

lemma safe_on_members:
  assumes "\<And>r n h. TokenAdmits (snd (snd (f r))) n h = TokenAdmits r n h" and "\<And>r. reg_inv r \<Longrightarrow> reg_inv (snd (snd (f r)))"
  shows "safe {} s {} (on_members f s)"
proof -
  let ?s1 = "s\<lparr>bs_registry := snd (snd (f (bs_registry s)))\<rparr>"
  have "safe {} s {} ?s1"
    using assms sess_ok_le [OF _ sess_le_same, of s ?s1]
    by (auto simp: safe_def ok_except_def mirror_except_def live_set_def hashes_unique_def revoked_set_def sess_le_same)
  moreover have "safe {} ?s1 {} (run_hooks (fst (f (bs_registry s))) ?s1)"
    by (rule safe_close) (simp_all add: bus_simps run_hooks_le)
  ultimately show ?thesis
    using safe_trans by (fastforce simp: on_members_def split_beta Let_def)
qed

inductive bus_step :: "(string \<Rightarrow> string) \<Rightarrow> bus_store \<Rightarrow> bus_store \<Rightarrow> bool" for hs where
  connected: "k \<notin> fst ` set (bs_admitted s) \<Longrightarrow> bus_step hs s (s\<lparr>bs_open := k # bs_open s\<rparr>)"
| dropped: "bus_step hs s (s\<lparr>bs_open := filter (\<lambda>x. x \<noteq> k) (bs_open s)\<rparr>)"
| callout: "conn_key c \<notin> fst ` set (bs_admitted s) \<Longrightarrow> bus_step hs s (snd (handle hs c n tok now s))"
| tracked: "bus_step hs s (TrackSessions s)"
| attached: "bus_step hs s (snd (SetNodeRegistry s))"
| minted: "bus_step hs s (snd (MintBound hs gen label n role now s))"
| preloaded: "bus_step hs s (snd (snd (PreloadHashes tks now s)))"
| tombstones: "bus_step hs s (snd (snd (snd (UseTombstoneFile now s))))"
| agent: "bus_step hs s (snd (snd (EnsureAgentToken hs gen f n now s)))"
| revoked: "bus_step hs s (snd (Revoke i now s))"
| node_revoked: "bus_step hs s (snd (RevokeByNodeID n now s))"
| member: "bus_step hs s (on_members (setMember n role is_member seen) s)"
| keys: "keys_ok ks \<Longrightarrow> bus_step hs s (on_members (setKeys n ks) s)"
| fails: "bus_step hs s (s\<lparr>bs_faults := fs, bs_wfaults := ws\<rparr>)"

text \<open>At start the table and the file are what the disk has; nothing is attached, tracked or open.\<close>

definition bus_start :: "bus_store \<Rightarrow> bool" where
  "bus_start s \<longleftrightarrow> hashes_unique s \<and> reg_inv (bs_registry s) \<and> \<not> bs_attached s \<and> \<not> bs_tracking s \<and>
     bs_grants s = [] \<and> bs_admitted s = []"

inductive bus_reach :: "(string \<Rightarrow> string) \<Rightarrow> bus_store \<Rightarrow> bus_store \<Rightarrow> bool" for hs s where
  start: "bus_reach hs s s"
| step: "bus_reach hs s t \<Longrightarrow> bus_step hs t u \<Longrightarrow> bus_reach hs s u"

lemma Admit_table:
  "map tr_hash (bs_rows (snd (Admit hs c p n now s))) = map tr_hash (bs_rows s)"
  "bs_registry (snd (Admit hs c p n now s)) = bs_registry s" "bs_attached (snd (Admit hs c p n now s)) = bs_attached s"
  "live_set (snd (Admit hs c p n now s)) m = live_set s m"
  by (simp_all add: Admit_def split_beta Let_def bus_simps pruneLocked_def takeHeldLocked_def
      touch_live [unfolded live_set_def] live_set_def)

lemma Admit_rows:
  "bs_rows (snd (Admit hs c p n now s)) \<in>
    {bs_rows s, sql_update (\<lambda>r. tr_hash r = hs p) (\<lambda>r. r\<lparr>tr_used := Some now\<rparr>) (bs_rows s)}"
  by (simp add: Admit_def split_beta Let_def bus_simps pruneLocked_def takeHeldLocked_def touchLastUsed_def)

lemma Admit_revoked: "revoked_set s \<subseteq> revoked_set (snd (Admit hs c p n now s))"
  using Admit_rows [of hs c p n now s] unfolding insert_iff empty_iff simp_thms
proof
  assume "bs_rows (snd (Admit hs c p n now s)) = bs_rows s"
  then show ?thesis by (simp add: revoked_set_def)
next
  assume "bs_rows (snd (Admit hs c p n now s)) = sql_update (\<lambda>r. tr_hash r = hs p) (\<lambda>r. r\<lparr>tr_used := Some now\<rparr>) (bs_rows s)"
  then show ?thesis by (rule revoked_set_update) simp_all
qed

lemma ok_except_Admit:
  assumes "ok_except N s" and "conn_key c \<notin> fst ` set (bs_admitted s)"
  shows "ok_except N (snd (Admit hs c p n now s))"
  using assms sess_ok_Admit [OF _ assms(2)]
  by (simp add: ok_except_def hashes_unique_def mirror_except_def Admit_table)

lemma handle_Admit: "snd (handle hs c n tok now s) \<in> {s, snd (Admit hs c tok n now s)}"
  by (auto simp: handle_def authorize_def split_beta Let_def)

lemma sess_ok_connect:
  assumes "sess_ok s" and "k \<notin> fst ` set (bs_admitted s)"
  shows "sess_ok (s\<lparr>bs_open := k # bs_open s\<rparr>)"
proof (rule sess_okI)
  fix x i assume "(x, i) \<in> set (bs_admitted (s\<lparr>bs_open := k # bs_open s\<rparr>))" "x \<in> set (bs_open (s\<lparr>bs_open := k # bs_open s\<rparr>))"
  moreover from this assms(2) have "x \<noteq> k" by force
  ultimately show "\<exists>g. (x, g) \<in> set (bs_grants (s\<lparr>bs_open := k # bs_open s\<rparr>)) \<and> g_token g = i"
    using sess_okD(1) [OF assms(1)] by simp
qed (use sess_okD(2-4) [OF assms(1)] in auto)

lemma sess_ok_track: "sess_ok s \<Longrightarrow> sess_ok (TrackSessions s)"
  unfolding sess_ok_def by (simp add: TrackSessions_def)

lemma bus_ok_step: "bus_step hs s t \<Longrightarrow> bus_ok s \<Longrightarrow> bus_ok t \<and> revoked_set s \<subseteq> revoked_set t"
proof (induction rule: bus_step.induct)
  case (connected k s)
  then show ?case
    using sess_ok_connect mirror_cong [of "s\<lparr>bs_open := k # bs_open s\<rparr>" s "{}"]
    by (simp add: ok_except_def hashes_unique_def revoked_set_def)
next
  case (dropped s k)
  have "safe {} s {} (s\<lparr>bs_open := filter (\<lambda>x. x \<noteq> k) (bs_open s)\<rparr>)"
    by (rule safe_close) (auto simp: sess_le_def)
  with dropped show ?case by (simp add: safe_def)
next
  case (callout c s n tok now)
  then show ?case
    using handle_Admit [of hs c n tok now s] ok_except_Admit [of "{}" s c] Admit_revoked [of s hs c tok n now] by auto
next
  case (tracked s)
  then show ?case
    using sess_ok_track [of s] mirror_cong [of "TrackSessions s" s "{}"]
    by (simp add: ok_except_def hashes_unique_def revoked_set_def TrackSessions_def)
next
  case (fails s ws fs)
  have "safe {} s {} (s\<lparr>bs_faults := fs, bs_wfaults := ws\<rparr>)"
    by (rule safe_same) simp_all
  with fails show ?case by (simp add: safe_def)
next
  case (member s n role is_member seen)
  then show ?case
    using safe_on_members [of "setMember n role is_member seen" s] by (simp add: TokenAdmits_member reg_inv_ops safe_def)
next
  case (keys ks s n)
  then show ?case
    using safe_on_members [of "setKeys n ks" s] by (simp add: TokenAdmits_member reg_inv_ops safe_def)
qed (use safe_SetNodeRegistry safe_MintBound safe_PreloadHashes safe_UseTombstoneFile safe_EnsureAgentToken
    safe_Revoke safe_RevokeByNodeID in \<open>simp_all add: safe_def\<close>)

lemma bus_ok_start: "bus_start s \<Longrightarrow> bus_ok s"
  by (simp add: bus_start_def ok_except_def sess_ok_def)

lemma bus_ok_reach: "bus_reach hs s t \<Longrightarrow> bus_ok s \<Longrightarrow> bus_ok t \<and> revoked_set s \<subseteq> revoked_set t"
  by (induction rule: bus_reach.induct) (use bus_ok_step in blast)+

text \<open>What the registry of a sound store admits is a live row of the table, and no revoked one.\<close>

lemma admits_live:
  assumes "bus_ok s" and "admits hs s p n"
  shows "\<exists>r \<in> set (bs_rows s). tr_hash r = hs p \<and> tr_node r = Some n \<and> live_row r"
  using assms by (auto simp: admits_def ok_except_def mirror_except_def live_set_in split: if_splits)

lemma not_live_revoked:
  assumes "bus_ok s" and "hs p \<in> revoked_set s"
  shows "\<not> admits hs s p n"
proof
  assume "admits hs s p n"
  then obtain r where r: "r \<in> set (bs_rows s)" "tr_hash r = hs p" "live_row r"
    using admits_live [OF assms(1)] by blast
  obtain q where q: "q \<in> set (bs_rows s)" "tr_hash q = hs p" "tr_revoked q \<noteq> None"
    using assms(2) by (auto simp: revoked_set_def)
  have "q = r"
    using assms(1) r(1,2) q(1,2) unfolding ok_except_def hashes_unique_def distinct_map by (metis inj_onD)
  with r q show False by (simp add: live_row_def)
qed

lemma Admit_admits: "fst (Admit hs c p n now s) = admits hs s p n"
  by (simp add: Admit_def split_beta Let_def)

section \<open>Admissions that race a revoke\<close>

text \<open>
  Connections authenticate while a revoke runs.  \<open>racing\<close> runs a list of callouts' admissions, and
  \<open>revoke_raced\<close> is \<^verbatim>\<open>revoke\<close> with such a list before each of its critical sections (the table update,
  the snapshot, the registry push, the tombstone record, the final closing) and one after the last.
\<close>

type_synonym admission = "Conn \<times> string \<times> string \<times> gotime"

fun racing :: "(string \<Rightarrow> string) \<Rightarrow> admission list \<Rightarrow> bus_store \<Rightarrow> bus_store" where
  "racing hs [] s = s"
| "racing hs ((c, p, n, now) # A) s = racing hs A (snd (Admit hs c p n now s))"

definition revoke_raced :: "(string \<Rightarrow> string) \<Rightarrow> admission list list \<Rightarrow> string \<Rightarrow> gotime \<Rightarrow> bus_store \<Rightarrow> (bus_error + nat) \<times> bus_store" where
  "revoke_raced hs A i now s0 =
     (let (bad, s1) = bs_fault (racing hs (A ! 0) s0) in
      if bad then (Inl ErrBusDb, s1)
      else let node = (case sql_first (\<lambda>r. tr_hash r = i) (bs_rows s1) of None \<Rightarrow> [] | Some r \<Rightarrow> row_node r);
               (r, s2) = revokeReturning (\<lambda>q. tr_hash q = i) now s1
           in case r of
                Inl e \<Rightarrow> (Inl e, s2)
              | Inr tombs \<Rightarrow>
                  if tombs = [] then (Inl ErrNoRows, s2)
                  else let (held, s3) = liveSessions (\<lambda>g. g_token g = i) (racing hs (A ! 1) s2);
                           s4 = refreshNodes [node] (racing hs (A ! 2) s3);
                           s5 = recordTombstones tombs (racing hs (A ! 3) s4);
                           (n, s6) = closeRemaining (\<lambda>g. g_token g = i) held (racing hs (A ! 4) s5)
                       in (Inr n, racing hs (A ! 5) s6))"

lemma revoke_raced_none: "revoke_raced hs (replicate 6 []) i now s = revoke i now s"
  by (simp add: revoke_raced_def revoke_def revoke_close_def numeral_eq_Suc split_beta Let_def split: sum.split)

definition adm_keys :: "admission list \<Rightarrow> session list" where
  "adm_keys A = map (\<lambda>(c, _). conn_key c) A"

lemma adm_keys_Cons [simp]: "adm_keys ((c, p) # A) = conn_key c # adm_keys A"
  by (simp add: adm_keys_def)

definition fresh_for :: "admission list \<Rightarrow> bus_store \<Rightarrow> bool" where
  "fresh_for A s \<longleftrightarrow> distinct (adm_keys A) \<and> set (adm_keys A) \<inter> fst ` set (bs_admitted s) = {}"

lemma Admit_admitted:
  "fst ` set (bs_admitted (snd (Admit hs c p n now s))) \<subseteq> insert (conn_key c) (fst ` set (bs_admitted s))"
  by (auto simp: Admit_def split_beta Let_def bus_simps pruneLocked_def takeHeldLocked_def conn_key_def)

lemma disjoint_grow: "insert x X \<inter> S = {} \<Longrightarrow> x \<notin> X \<Longrightarrow> T \<subseteq> insert x S \<Longrightarrow> X \<inter> T = {}"
  by blast

lemma ok_racing:
  assumes "ok_except N s" and "fresh_for (A @ B) s"
  shows "ok_except N (racing hs A s) \<and> fresh_for B (racing hs A s) \<and> revoked_set s \<subseteq> revoked_set (racing hs A s)"
  using assms
proof (induction A arbitrary: s)
  case (Cons a A)
  obtain c p n now where a: "a = (c, p, n, now)" by (cases a) auto
  let ?t = "snd (Admit hs c p n now s)"
  have "ok_except N ?t"
    using Cons.prems by (intro ok_except_Admit) (auto simp: fresh_for_def adm_keys_def a)
  moreover have "fresh_for (A @ B) ?t"
    using Cons.prems(2) disjoint_grow [OF _ _ Admit_admitted [of hs c p n now s]] by (simp add: fresh_for_def a)
  ultimately show ?case
    using Cons.IH [of ?t] Admit_revoked [of s hs c p n now] by (auto simp: a)
qed (simp add: fresh_for_def)

text \<open>Once the token is revoked and the push is made, no admission is the revoked token's.\<close>

lemma Admit_other:
  assumes "bus_ok s" and "i \<in> revoked_set s"
  shows "{k. (k, i) \<in> set (bs_admitted (snd (Admit hs c p n now s)))} = {k. (k, i) \<in> set (bs_admitted s)} \<and>
    set (bs_open (snd (Admit hs c p n now s))) \<subseteq> set (bs_open s)"
proof (cases "admits hs s p n")
  case True
  then have "hs p \<noteq> i"
    using not_live_revoked [OF assms(1), of hs p n] assms(2) by auto
  with True show ?thesis
    by (auto simp: Admit_def split_beta Let_def bus_simps pruneLocked_def takeHeldLocked_def)
qed (simp add: Admit_def)

lemma racing_other:
  assumes "bus_ok s" and "i \<in> revoked_set s" and "fresh_for A s"
  shows "{k. (k, i) \<in> set (bs_admitted (racing hs A s))} = {k. (k, i) \<in> set (bs_admitted s)} \<and>
    set (bs_open (racing hs A s)) \<subseteq> set (bs_open s)"
  using assms
proof (induction A arbitrary: s)
  case (Cons a A)
  obtain c p n now where a: "a = (c, p, n, now)" by (cases a) auto
  have "bus_ok (racing hs [a] s) \<and> fresh_for A (racing hs [a] s) \<and> revoked_set s \<subseteq> revoked_set (racing hs [a] s)"
    using ok_racing [of "{}" s "[a]" A] Cons.prems by simp
  then show ?case
    using Cons.IH [of "racing hs [a] s"] Cons.prems Admit_other [OF Cons.prems(1,2), of hs c p n now] by (auto simp: a)
qed simp

text \<open>\<open>sound N B s\<close> collects what each stage of the raced revoke hands to the next; \<open>B\<close> are the admissions to come.\<close>

definition sound :: "string set \<Rightarrow> admission list \<Rightarrow> string set \<Rightarrow> bus_store \<Rightarrow> bool" where
  "sound N B R s \<longleftrightarrow> ok_except N s \<and> fresh_for B s \<and> R \<subseteq> revoked_set s"

lemma sound_racing: "sound N (A @ B) R s \<Longrightarrow> sound N B R (racing hs A s)"
  using ok_racing [of N s A B hs] by (auto simp: sound_def)

lemma sound_safe: "sound N B R s \<Longrightarrow> safe N s M t \<Longrightarrow> sound M B R t"
  by (auto simp: sound_def safe_def fresh_for_def sess_le_def)

lemma revoked_by_returning:
  assumes "revokeReturning P now s = (Inr tombs, t)" and "r \<in> set (bs_rows s)" and "P r" 
  shows "tr_hash r \<in> revoked_set t"
proof -
  let ?q = "if P r \<and> tr_revoked r = None then r\<lparr>tr_revoked := Some now\<rparr> else r"
  have "?q \<in> {q \<in> set (bs_rows t). tr_revoked q \<noteq> None}"
    using assms(2,3) by (auto simp: revokeReturning_Inr(1) [OF assms(1)] set_sql_update)
  then show ?thesis
    unfolding revoked_set_def by (rule rev_image_eqI) simp
qed

lemma closeRemaining_closes:
  assumes "sess_ok s" and "(k, i) \<in> set (bs_admitted s)"
  shows "k \<notin> set (bs_open (snd (closeRemaining (\<lambda>g. g_token g = i) held s)))"
proof
  let ?t = "snd (closeRemaining (\<lambda>g. g_token g = i) held s)"
  assume "k \<in> set (bs_open ?t)"
  moreover have "sess_le s ?t" by (rule closeRemaining_le [OF assms(1)])
  ultimately obtain g where "(k, g) \<in> set (bs_grants ?t)" "g_token g = i"
    using sess_okD(1) [OF sess_ok_le [OF assms(1)], of ?t k i] assms(2) by (auto simp: sess_le_def)
  then show False
    by (simp add: bus_simps)
qed

lemma revoke_raced_closes:
  assumes "bus_ok s" and fresh: "fresh_for (A0 @ A1 @ A2 @ A3 @ A4 @ A5) s"
    and r: "revoke_raced hs [A0, A1, A2, A3, A4, A5] i now s = (Inr d, s')"
  shows "bus_ok s' \<and> i \<in> revoked_set s' \<and> (\<forall>k. (k, i) \<in> set (bs_admitted s') \<longrightarrow> k \<notin> set (bs_open s'))"
proof -
  let ?s1 = "snd (bs_fault (racing hs A0 s))"
  let ?node = "case sql_first (\<lambda>r. tr_hash r = i) (bs_rows ?s1) of None \<Rightarrow> [] | Some r \<Rightarrow> row_node r"
  let ?B1 = "A1 @ A2 @ A3 @ A4 @ A5"
  obtain q s2 where rr0: "revokeReturning (\<lambda>q. tr_hash q = i) now ?s1 = (q, s2)" by fastforce
  obtain t tombs where q: "q = Inr (t # tombs)"
    and s': "s' = (let (held, s3) = liveSessions (\<lambda>g. g_token g = i) (racing hs A1 s2);
        s4 = refreshNodes [?node] (racing hs A2 s3); s5 = recordTombstones (t # tombs) (racing hs A3 s4);
        (n, s6) = closeRemaining (\<lambda>g. g_token g = i) held (racing hs A4 s5) in racing hs A5 s6)"
    using r by (auto simp: revoke_raced_def rr0 split_beta Let_def numeral_eq_Suc neq_Nil_conv split: if_splits sum.splits)
  note rr = rr0 [unfolded q]
  have "sound {} ?B1 {} ?s1"
    using assms(1) fresh by (intro sound_safe [OF sound_racing safe_fault]) (simp add: sound_def)
  moreover have "safe {} ?s1 ({} \<union> {?node}) s2"
    by (rule safe_revokeReturning [OF rr]) (auto simp: row_of_hash row_node_def)
  ultimately have "sound {?node} ?B1 {} s2"
    using sound_safe by fastforce
  moreover have "i \<in> revoked_set s2"
  proof -
    have "tb_hash t \<in> tr_hash ` {r \<in> set (bs_rows ?s1). tr_hash r = i \<and> tr_revoked r = None}"
      using revokeReturning_Inr(3) [OF rr] by auto
    then show ?thesis
      using revoked_by_returning [OF rr] by auto
  qed
  ultimately have "sound {?node} ?B1 {i} s2"
    by (simp add: sound_def)
  from sound_safe [OF sound_racing [OF this] safe_liveSessions]
  have s3: "sound {?node} (A2 @ A3 @ A4 @ A5) {i} (snd (liveSessions (\<lambda>g. g_token g = i) (racing hs A1 s2)))" (is "sound _ _ _ ?s3") .
  from sound_safe [OF sound_racing [OF s3], of hs "{}"] safe_refresh [of "[?node]"]
  have "sound {} (A3 @ A4 @ A5) {i} (refreshNodes [?node] (racing hs A2 ?s3))" (is "sound _ _ _ ?s4") by simp
  from sound_racing [OF sound_safe [OF sound_racing [OF this] safe_record]]
  have s5: "sound {} A5 {i} (racing hs A4 (recordTombstones (t # tombs) (racing hs A3 ?s4)))" (is "sound _ _ _ ?s5") by simp
  let ?s6 = "snd (closeRemaining (\<lambda>g. g_token g = i) (fst (liveSessions (\<lambda>g. g_token g = i) (racing hs A1 s2))) ?s5)"
  have s6: "sound {} A5 {i} ?s6" "sess_le ?s5 ?s6"
    using sound_safe [OF s5 safe_closeRemaining] closeRemaining_le s5 by (auto simp: sound_def ok_except_def)
  have e: "s' = racing hs A5 ?s6"
    unfolding s' Let_def split_beta by simp
  have "sound {} [] {i} s'"
    using sound_racing [of "{}" A5 "[]" "{i}" ?s6 hs] s6(1) unfolding e by simp
  moreover have "k \<notin> set (bs_open s')" if "(k, i) \<in> set (bs_admitted s')" for k
  proof -
    have o: "{k. (k, i) \<in> set (bs_admitted s')} = {k. (k, i) \<in> set (bs_admitted ?s6)}" "set (bs_open s') \<subseteq> set (bs_open ?s6)"
      using racing_other [of ?s6 i A5 hs] s6(1) unfolding e by (auto simp: sound_def)
    then have "(k, i) \<in> set (bs_admitted ?s5)"
      using that s6(2) by (auto simp: sess_le_def)
    with o(2) show ?thesis
      using closeRemaining_closes [of ?s5 k i] s5 by (auto simp: sound_def ok_except_def)
  qed
  ultimately show ?thesis
    by (simp add: sound_def)
qed

end
