(* ===== verification/Bus_Auth_Props.thy ===== *)
theory Bus_Auth_Props
  imports Bus_Auth_Steps
begin

text \<open>
  What the bus's admission promises: only live tokens of the presented node are admitted, a revoke
  closes every session of its token whatever races it, a token holds one session, the api's own agent
  cannot be locked out, revocations survive a restore of the database, and a credential reaches one
  node's subjects.
\<close>

section \<open>Tombstone sets\<close>

lemma map_of_add_tombstone:
  "map_of (add_tombstone t m) = (map_of m)(tb_hash t \<mapsto> earlier (map_of m (tb_hash t)) t)"
  by (simp add: add_tombstone_def update_conv')

lemma dom_add_tombstones: "dom (map_of (fold add_tombstone ts m)) = dom (map_of m) \<union> tb_hash ` set ts"
  by (induction ts arbitrary: m) (auto simp: map_of_add_tombstone)

definition tomb_ok :: "(string \<times> Tombstone) list \<Rightarrow> bool" where
  "tomb_ok m \<longleftrightarrow> distinct (map fst m) \<and> (\<forall>e \<in> set m. tb_hash (snd e) = fst e \<and> fst e \<noteq> [])"

lemma set_update_subset: "set (AList.update k v xs) \<subseteq> insert (k, v) (set xs)"
  by (induction xs) auto

lemma tomb_ok_add:
  assumes "tomb_ok m" and "tb_hash t \<noteq> []"
  shows "tomb_ok (add_tombstone t m)"
proof -
  let ?e = "earlier (map_of m (tb_hash t)) t"
  have "tb_hash u = tb_hash t" if "map_of m (tb_hash t) = Some u" for u
    using assms(1) map_of_SomeD [OF that] unfolding tomb_ok_def by fastforce
  then have h: "tb_hash ?e = tb_hash t"
    by (cases "map_of m (tb_hash t)") (simp_all add: earlier_def del: map_of_eq_Some_iff)
  have "tb_hash (snd e) = fst e \<and> fst e \<noteq> []" if "e \<in> set (add_tombstone t m)" for e
  proof -
    have "e = (tb_hash t, ?e) \<or> e \<in> set m"
      using that set_update_subset [of "tb_hash t" ?e m] unfolding add_tombstone_def by blast
    then show ?thesis
      using assms h unfolding tomb_ok_def by auto
  qed
  moreover have "distinct (map fst (add_tombstone t m))"
    using assms(1) by (simp add: tomb_ok_def add_tombstone_def distinct_update)
  ultimately show ?thesis
    unfolding tomb_ok_def by blast
qed

lemma tomb_ok_fold: "tomb_ok m \<Longrightarrow> \<forall>t \<in> set ts. tb_hash t \<noteq> [] \<Longrightarrow> tomb_ok (fold add_tombstone ts m)"
  by (induction ts arbitrary: m) (simp_all add: tomb_ok_add)

lemma Read_ok: "ReadTombstoneFile f = Some m \<Longrightarrow> tomb_ok m"
  using tomb_ok_fold [of "[]"] by (auto simp: ReadTombstoneFile_def tomb_ok_def split: tomb_file.splits if_splits)

text \<open>A set that is written and read back is the set.\<close>

lemma fold_distinct_tombstones:
  assumes "distinct (map tb_hash ts)" and "\<forall>t \<in> set ts. map_of m (tb_hash t) = None"
  shows "map_of (fold add_tombstone ts m) h = (case find (\<lambda>t. tb_hash t = h) ts of Some t \<Rightarrow> Some t | None \<Rightarrow> map_of m h)"
  using assms
proof (induction ts arbitrary: m)
  case (Cons t ts)
  have n: "\<forall>u \<in> set ts. map_of (add_tombstone t m) (tb_hash u) = None"
    using Cons.prems by (auto simp: map_of_add_tombstone) (metis imageI)
  have "find (\<lambda>u. tb_hash u = tb_hash t) ts = None"
    using Cons.prems(1) by (auto simp: find_None_iff) (metis imageI)
  with Cons.IH [OF _ n] Cons.prems show ?case
    by (auto simp: map_of_add_tombstone earlier_def split: option.split)
qed simp

lemma find_unique: "distinct (map f xs) \<Longrightarrow> x \<in> set xs \<Longrightarrow> f x = h \<Longrightarrow> find (\<lambda>x. f x = h) xs = Some x"
  by (induction xs) auto

lemma Read_file_of:
  assumes "tomb_ok m"
  shows "\<exists>m'. ReadTombstoneFile (file_of m) = Some m' \<and> map_of m' = map_of m"
proof -
  let ?ts = "sort_key tb_hash (map snd m)"
  have h: "map tb_hash (map snd m) = map fst m"
    using assms by (auto simp: tomb_ok_def)
  then have d: "distinct (map tb_hash ?ts)"
    using assms by (metis tomb_ok_def distinct_map distinct_sort set_sort)
  have "find (\<lambda>t. tb_hash t = h) ?ts = map_of m h" for h
  proof (cases "map_of m h")
    case None
    then have "tb_hash (snd e) \<noteq> h" if "e \<in> set m" for e
      using assms that unfolding tomb_ok_def map_of_eq_None_iff by fastforce
    then show ?thesis
      using None by (simp add: find_None_iff)
  next
    case (Some t)
    then have "(h, t) \<in> set m" by (rule map_of_SomeD)
    then have "t \<in> set ?ts" "tb_hash t = h"
      using assms unfolding tomb_ok_def by force+
    from find_unique [OF d this] Some show ?thesis by simp
  qed
  then have "map_of (fold add_tombstone ?ts []) = map_of m"
    using fold_distinct_tombstones [OF d, of "[]"] by (auto simp: fun_eq_iff split: option.split)
  moreover have "\<forall>t \<in> set ?ts. tb_hash t \<noteq> []"
    using assms by (auto simp: tomb_ok_def)
  ultimately show ?thesis
    by (auto simp: file_of_def ReadTombstoneFile_def)
qed

section \<open>Dead hashes\<close>

definition dead :: "string \<Rightarrow> bus_store \<Rightarrow> bool" where
  "dead h s \<longleftrightarrow> (\<forall>r \<in> set (bs_rows s). tr_hash r = h \<longrightarrow> tr_revoked r \<noteq> None)"

lemma dead_not_live: "dead h s \<Longrightarrow> h \<notin> live_set s n"
  by (auto simp: dead_def live_set_in live_row_def)

lemma dead_revokeReturning: "dead h s \<Longrightarrow> dead h (snd (revokeReturning P now s))"
  by (auto simp: dead_def revokeReturning_def split_beta Let_def bus_simps in_sql_update split: if_splits)

lemma revokeReturning_dead:
  assumes "revokeReturning (\<lambda>q. tr_hash q = h) now s = (Inr ts, s')"
  shows "dead h s'"
  unfolding dead_def revokeReturning_Inr(1) [OF assms]
proof (intro ballI impI)
  fix r assume "r \<in> set (sql_update (\<lambda>r. tr_hash r = h \<and> tr_revoked r = None) (\<lambda>r. r\<lparr>tr_revoked := Some now\<rparr>) (bs_rows s))"
    and h: "tr_hash r = h"
  then obtain q where "r = (if tr_hash q = h \<and> tr_revoked q = None then q\<lparr>tr_revoked := Some now\<rparr> else q)"
    unfolding in_sql_update by blast
  with h show "tr_revoked r \<noteq> None"
    by (cases "tr_hash q = h \<and> tr_revoked q = None") simp_all
qed

lemma reapply_dead:
  "reapply m now touched n s = (None, touched', k, s') \<Longrightarrow> h \<in> fst ` set m \<or> dead h s \<Longrightarrow> dead h s'"
proof (induction m arbitrary: touched n s)
  case (Cons e m)
  obtain g tb where e: "e = (g, tb)" by fastforce
  obtain q s1 where r: "revokeReturning (\<lambda>q. tr_hash q = g) now s = (q, s1)" by fastforce
  with Cons.prems(1) obtain ts where q: "q = Inr ts"
    by (cases q) (auto simp: e)
  have "h \<in> fst ` set m \<or> dead h s1"
    using Cons.prems(2) r q revokeReturning_dead [of g now s ts s1] dead_revokeReturning [of h s "\<lambda>q. tr_hash q = g" now]
    by (auto simp: e)
  with Cons.prems(1) r q show ?case
    by (simp add: e split: list.splits) (use Cons.IH in blast)+
qed simp

text \<open>Loading a preseed leaves a tombstoned hash dead: the set in memory is asked before each insert.\<close>

lemma preload_dead:
  "dead h s \<Longrightarrow> tombstoned h s \<Longrightarrow> dead h (snd (snd (preload tks now n s)))"
proof (induction tks now n s rule: preload.induct)
  case (2 tk tks now n s)
  let ?s1 = "snd (bs_fault s)"
  have d1: "dead h ?s1" "tombstoned h ?s1"
    using 2(4,5) by (simp_all add: dead_def tombstoned_def bus_simps)
  consider (skip) "ps_hash tk = [] \<or> tombstoned (ps_hash tk) s"
    | (bad) "\<not> (ps_hash tk = [] \<or> tombstoned (ps_hash tk) s)" "fst (bs_fault s)"
    | (known) "\<not> (ps_hash tk = [] \<or> tombstoned (ps_hash tk) s)" "\<not> fst (bs_fault s)" "ps_hash tk \<in> tr_hash ` set (bs_rows ?s1)"
    | (new) "\<not> (ps_hash tk = [] \<or> tombstoned (ps_hash tk) s)" "\<not> fst (bs_fault s)" "ps_hash tk \<notin> tr_hash ` set (bs_rows ?s1)"
    by blast
  then show ?case
  proof cases
    case skip
    with 2(1,4,5) show ?thesis by simp
  next
    case bad
    with d1 show ?thesis by (simp add: split_beta Let_def)
  next
    case known
    with 2(2) [OF known(1) refl prod.collapse known(2,3) d1] show ?thesis
      by (simp add: split_beta Let_def)
  next
    case new
    let ?s2 = "refreshNodes [ps_node tk] (?s1\<lparr>bs_rows := bs_rows ?s1 @ [new_row (ps_hash tk) (ps_label tk) now (ps_node tk)
        (the (ResolveRole (ps_role tk) (ps_label tk)))]\<rparr>)"
    have "ps_hash tk \<noteq> h"
      using new(1) 2(5) by auto
    then have "dead h ?s2" "tombstoned h ?s2"
      using d1 by (simp_all add: dead_def tombstoned_def bus_simps new_row_def)
    with 2(3) [OF new(1) refl prod.collapse new(2,3)] new show ?thesis
      by (simp add: split_beta Let_def)
  qed
qed simp

lemma Use_dead:
  assumes "UseTombstoneFile now s = (None, a, k, s')" and "ReadTombstoneFile (bs_file s) = Some m"
    and "map_of m h \<noteq> None \<or> h \<in> revoked_set s"
  shows "dead h s' \<and> tombstoned h s'"
proof -
  let ?s1 = "snd (bs_fault s)"
  let ?rv = "filter (\<lambda>r. tr_revoked r \<noteq> None) (bs_rows ?s1)"
  let ?tb = "\<lambda>r. \<lparr>tb_hash = tr_hash r, tb_node = row_node r, tb_at = the (tr_revoked r)\<rparr>"
  let ?m = "fold (\<lambda>r. add_tombstone (?tb r)) ?rv m"
  let ?s2 = "if 0 < length (filter (\<lambda>r. map_of m (tr_hash r) = None) ?rv) then snd (writeTombstoneFile ?m ?s1) else ?s1"
  obtain e touched j s3 where ra: "reapply ?m now [] 0 ?s2 = (e, touched, j, s3)"
    by (rule prod_cases4)
  have "?m = fold add_tombstone (map ?tb ?rv) m"
    by (simp add: fold_map o_def)
  then have "dom (map_of ?m) = dom (map_of m) \<union> tr_hash ` set ?rv"
    using dom_add_tombstones [of "map ?tb ?rv" m] by (simp add: image_image)
  then have h: "h \<in> dom (map_of ?m)"
    using assms(3) by (auto simp: revoked_set_def bus_simps)
  have r: "e = None" "s' = refreshNodes touched (s3\<lparr>bs_tomb := Some ?m\<rparr>)"
    using assms(1) unfolding UseTombstoneFile_def assms(2) option.case Let_def split_beta ra fst_conv snd_conv
    by (auto split: if_splits option.splits)
  have "dead h s3"
    by (rule reapply_dead [OF ra [unfolded r(1)]]) (use h in \<open>simp add: dom_map_of_conv_image_fst\<close>)
  then show ?thesis
    using h unfolding r(2) by (auto simp: dead_def tombstoned_def bus_simps)
qed

section \<open>A small bus\<close>

text \<open>
  One node with one live token, a registry whose members are loaded, sessions tracked and the table
  pushed: the store the witnesses run on.  The hash function is the identity there.
\<close>

definition demo_row :: token_row where
  "demo_row = new_row ''tok'' ''compute'' 1 ''n1'' ''compute''"

definition demo_start :: bus_store where
  "demo_start = \<lparr>bs_rows = [demo_row], bs_faults = [], bs_wfaults = [], bs_tracking = False, bs_open = [(''srv'', 7)],
     bs_grants = [], bs_self = ''cp'', bs_attached = False, bs_registry = NewRegistry\<lparr>membersLoaded := True\<rparr>,
     bs_tomb = Some [], bs_file = FileMissing, bs_takeovers = [], bs_admitted = []\<rparr>"

definition demo_bus :: bus_store where
  "demo_bus = snd (SetNodeRegistry (TrackSessions demo_start))"

definition demo_conn :: Conn where
  "demo_conn = \<lparr>cn_server = ''srv'', cn_cid = 7, cn_host = ''10.0.0.5''\<rparr>"

lemma demo_reach: "bus_start demo_start \<and> bus_reach hs demo_start demo_bus"
proof
  show "bus_start demo_start"
    by (simp add: bus_start_def demo_start_def hashes_unique_def reg_inv_ops)
  show "bus_reach hs demo_start demo_bus"
    unfolding demo_bus_def by (rule bus_reach.step [OF bus_reach.step [OF bus_reach.start bus_step.tracked] bus_step.attached])
qed

section \<open>Admission\<close>


lemma demo_handle: "fst (handle (\<lambda>x. x) demo_conn ''n1'' ''tok'' 5 demo_bus) =
    Some \<lparr>pub_allow = [''rasputin.node.n1.>''], pub_deny = [''rasputin.node.n1.cmd.>''], sub_allow = [''rasputin.node.n1.cmd.>'']\<rparr>"
  by code_simp


section \<open>Revoking\<close>

text \<open>C17: A revoke that reports success leaves no open session the token admitted, whatever
  admissions run before, between and after its critical sections; and from then on, in every state the
  store can reach, the token is refused.\<close>

theorem revoke_closes_sessions:
  assumes "bus_start s0" and "bus_reach hs s0 s" and "fresh_for (A0 @ A1 @ A2 @ A3 @ A4 @ A5) s"
    and "revoke_raced hs [A0, A1, A2, A3, A4, A5] i now s = (Inr d, s')"
  shows "(\<forall>k. (k, i) \<in> set (bs_admitted s') \<longrightarrow> k \<notin> set (bs_open s')) \<and>
    (\<forall>t c p n now'. bus_reach hs s' t \<longrightarrow> hs p = i \<longrightarrow> \<not> fst (Admit hs c p n now' t))"
proof -
  have "bus_ok s"
    using bus_ok_reach [OF assms(2) bus_ok_start [OF assms(1)]] by simp
  note R = revoke_raced_closes [OF this assms(3,4)]
  have "\<not> fst (Admit hs c p n now' t)" if "bus_reach hs s' t" "hs p = i" for t c p n now'
    using bus_ok_reach [OF that(1) conjunct1 [OF R]] R that(2) not_live_revoked [of t hs p n]
    by (auto simp: Admit_admits)
  with R show ?thesis by blast
qed

definition demo_races :: "admission list" where
  "demo_races = [(demo_conn, ''tok'', ''n1'', 5)]"

lemma demo_raced: "fst (revoke_raced (\<lambda>x. x) [[], [], demo_races, [], [], []] ''tok'' 9 demo_bus) = Inr 1"
  by code_simp

theorem revoke_closes_sessions_witness:
  "fresh_for demo_races demo_bus \<and>
   (\<exists>s'. revoke_raced (\<lambda>x. x) [[], [], demo_races, [], [], []] ''tok'' 9 demo_bus = (Inr 1, s') \<and>
     {k. (k, ''tok'') \<in> set (bs_admitted s') \<and> k \<in> set (bs_open s')} = {})"
proof -
  have f: "fresh_for demo_races demo_bus" by code_simp
  moreover obtain s' where r: "revoke_raced (\<lambda>x. x) [[], [], demo_races, [], [], []] ''tok'' 9 demo_bus = (Inr 1, s')"
    using demo_raced by (metis prod.collapse)
  ultimately show ?thesis
    using revoke_closes_sessions [OF conjunct1 [OF demo_reach] conjunct2 [OF demo_reach] _ r] by auto
qed

text \<open>A token holds one live session.  In every reachable state two open connections the same
  token admitted are one connection, and after an admission it is the newest.\<close>

theorem one_session_per_token:
  assumes "bus_start s0" and "bus_reach hs s0 s"
  shows "(\<forall>k k' i. (k, i) \<in> set (bs_admitted s) \<and> (k', i) \<in> set (bs_admitted s) \<and>
      k \<in> set (bs_open s) \<and> k' \<in> set (bs_open s) \<longrightarrow> k = k') \<and>
    (\<forall>c p n now k. bs_tracking s \<and> conn_key c \<notin> fst ` set (bs_admitted s) \<and> fst (Admit hs c p n now s) \<and>
      (k, hs p) \<in> set (bs_admitted (snd (Admit hs c p n now s))) \<and>
      k \<in> set (bs_open (snd (Admit hs c p n now s))) \<longrightarrow> k = conn_key c)"
proof (intro conjI allI impI; elim conjE)
  have ok: "sess_ok s"
    using bus_ok_reach [OF assms(2) bus_ok_start [OF assms(1)]] by (simp add: ok_except_def)
  show "k = k'" if "(k, i) \<in> set (bs_admitted s)" "(k', i) \<in> set (bs_admitted s)" "k \<in> set (bs_open s)" "k' \<in> set (bs_open s)"
    for k k' i
    using sess_okD(1) [OF ok that(1,3)] sess_okD(1) [OF ok that(2,4)] sess_okD(3) [OF ok] by metis
  fix c p n now k
  assume a: "bs_tracking s" "conn_key c \<notin> fst ` set (bs_admitted s)" "fst (Admit hs c p n now s)"
    and k: "(k, hs p) \<in> set (bs_admitted (snd (Admit hs c p n now s)))" "k \<in> set (bs_open (snd (Admit hs c p n now s)))"
  show "k = conn_key c"
    using k sess_okD(1) [OF ok, of k "hs p"] unfolding Admit_sessions [OF a(3,1,2) ok] by blast
qed

definition demo_second :: bus_store where
  "demo_second = (snd (handle (\<lambda>x. x) demo_conn ''n1'' ''tok'' 5 demo_bus))\<lparr>bs_open := [(''srv'', 8), (''srv'', 7)]\<rparr>"

lemma demo_second_reach: "bus_reach (\<lambda>x. x) demo_start demo_second"
proof -
  have "conn_key demo_conn \<notin> fst ` set (bs_admitted demo_bus)" by code_simp
  then have r: "bus_reach (\<lambda>x. x) demo_start (snd (handle (\<lambda>x. x) demo_conn ''n1'' ''tok'' 5 demo_bus))" (is "bus_reach _ _ ?s")
    by (rule bus_reach.step [OF conjunct2 [OF demo_reach] bus_step.callout])
  have "(''srv'', 8) \<notin> fst ` set (bs_admitted ?s)" by code_simp
  from bus_reach.step [OF r bus_step.connected [OF this]]
  have "bus_reach (\<lambda>x. x) demo_start (?s\<lparr>bs_open := (''srv'', 8) # bs_open ?s\<rparr>)" .
  moreover have "bs_open ?s = [(''srv'', 7)]" by code_simp
  ultimately show ?thesis
    unfolding demo_second_def by simp
qed

theorem one_session_per_token_witness:
  "fst (Admit (\<lambda>x. x) (demo_conn\<lparr>cn_cid := 8\<rparr>) ''tok'' ''n1'' 6 demo_second) \<and>
   bs_open (snd (Admit (\<lambda>x. x) (demo_conn\<lparr>cn_cid := 8\<rparr>) ''tok'' ''n1'' 6 demo_second)) = [(''srv'', 8)] \<and>
   {k. (k, ''tok'') \<in> set (bs_admitted (snd (Admit (\<lambda>x. x) (demo_conn\<lparr>cn_cid := 8\<rparr>) ''tok'' ''n1'' 6 demo_second))) \<and>
      k \<in> set (bs_open (snd (Admit (\<lambda>x. x) (demo_conn\<lparr>cn_cid := 8\<rparr>) ''tok'' ''n1'' 6 demo_second)))} \<subseteq> {(''srv'', 8)}"
proof -
  have a: "fst (Admit (\<lambda>x. x) (demo_conn\<lparr>cn_cid := 8\<rparr>) ''tok'' ''n1'' 6 demo_second)"
    "bs_open (snd (Admit (\<lambda>x. x) (demo_conn\<lparr>cn_cid := 8\<rparr>) ''tok'' ''n1'' 6 demo_second)) = [(''srv'', 8)]"
    "bs_tracking demo_second" "conn_key (demo_conn\<lparr>cn_cid := 8\<rparr>) \<notin> fst ` set (bs_admitted demo_second)"
    "conn_key (demo_conn\<lparr>cn_cid := 8\<rparr>) = (''srv'', 8)"
    by code_simp+
  show ?thesis
    using conjunct2 [OF one_session_per_token [OF conjunct1 [OF demo_reach] demo_second_reach],
        rule_format, of "demo_conn\<lparr>cn_cid := 8\<rparr>" "''tok''" "''n1''" 6] a by auto
qed

text \<open>The api cannot lock out its own agent: neither revoking a token nor revoking a node's tokens
  touches the row of the self agent's live token, whatever id or node is named and whatever fails.\<close>

theorem self_agent_protected:
  assumes "r \<in> set (bs_rows s)" and "self_row s r" and "bs_self s \<noteq> []" and "tr_hash r \<noteq> []"
  shows "r \<in> set (bs_rows (snd (Revoke i now s))) \<and> r \<in> set (bs_rows (snd (RevokeByNodeID n now s)))"
proof
  have keep: "r \<in> set (bs_rows (snd (revokeReturning P now t)))" if "\<not> P r" "r \<in> set (bs_rows t)" for P t
    using that by (auto simp: revokeReturning_def split_beta Let_def bus_simps set_sql_update intro: image_eqI [of _ _ r])
  have self: "r \<in> set (bs_rows (snd (isSelfAgentToken i s)))" "r \<in> set (bs_rows (snd (nodeHasSelfAgentToken n s)))"
    using isSelf_cases(1) [of i s] isSelf_cases(2) [of n s] assms(1) by (auto simp: bus_simps)
  have close: "bs_rows (snd (revoke_close P m ts t)) = bs_rows t" for P m ts t
    by (simp add: revoke_close_def split_beta Let_def bus_simps)
  have "r \<in> set (bs_rows (snd (revoke i now t)))" if "tr_hash r \<noteq> i" "r \<in> set (bs_rows t)" for t
    using that keep [of "\<lambda>q. tr_hash q = i" "snd (bs_fault t)"]
    by (auto simp: revoke_def split_beta Let_def bus_simps close split: sum.split)
  moreover have "\<exists>e. fst (isSelfAgentToken i s) = Inl e \<or> fst (isSelfAgentToken i s) = Inr True" if "tr_hash r = i"
    using assms that by (auto simp: isSelfAgentToken_def split_beta Let_def bus_simps self_row_def)
  ultimately show "r \<in> set (bs_rows (snd (Revoke i now s)))"
    using self(1) by (cases "tr_hash r = i")
      (auto simp: Revoke_def split_beta Let_def split: sum.split)
  have "\<exists>e. fst (nodeHasSelfAgentToken n s) = Inl e \<or> fst (nodeHasSelfAgentToken n s) = Inr True" if "tr_node r = Some n"
    using assms that by (auto simp: nodeHasSelfAgentToken_def split_beta Let_def bus_simps self_row_def)
  then show "r \<in> set (bs_rows (snd (RevokeByNodeID n now s)))"
    using self(2) keep [of "\<lambda>q. tr_node q = Some n" "snd (nodeHasSelfAgentToken n s)"]
    by (cases "tr_node r = Some n") (auto simp: RevokeByNodeID_def split_beta Let_def close split: sum.split)
qed

definition demo_self :: bus_store where
  "demo_self = demo_bus\<lparr>bs_self := ''n1'', bs_rows := [demo_row\<lparr>tr_self := True\<rparr>]\<rparr>"

theorem self_agent_protected_witness:
  "fst (Revoke ''tok'' 9 demo_self) = Inl ErrSelfAgentToken \<and> fst (RevokeByNodeID ''n1'' 9 demo_self) = Inl ErrSelfAgentToken \<and>
   demo_row\<lparr>tr_self := True\<rparr> \<in> set (bs_rows (snd (Revoke ''tok'' 9 demo_self)))"
proof -
  have "demo_row\<lparr>tr_self := True\<rparr> \<in> set (bs_rows demo_self)" "self_row demo_self (demo_row\<lparr>tr_self := True\<rparr>)"
    "bs_self demo_self \<noteq> []" "tr_hash (demo_row\<lparr>tr_self := True\<rparr>) \<noteq> []"
    by code_simp+
  from self_agent_protected [OF this] have "demo_row\<lparr>tr_self := True\<rparr> \<in> set (bs_rows (snd (Revoke ''tok'' 9 demo_self)))" by blast
  moreover have "fst (Revoke ''tok'' 9 demo_self) = Inl ErrSelfAgentToken" "fst (RevokeByNodeID ''n1'' 9 demo_self) = Inl ErrSelfAgentToken"
    by code_simp+
  ultimately show ?thesis by blast
qed

text \<open>C20: Revocations outlive the database.  After the api has read its tombstone file at start, a hash
  that is in the file, or that the restored database has as revoked, is revoked in the table, stays so
  through the loading of any preseed file, and is refused at admission.\<close>

theorem restore_keeps_revocations:
  assumes "bus_ok s" and "UseTombstoneFile now s = (None, a, k, s1)" and "ReadTombstoneFile (bs_file s) = Some m"
    and "map_of m h \<noteq> None \<or> h \<in> revoked_set s" and "PreloadHashes tks now' s1 = (e, j, s2)"
  shows "(\<forall>r \<in> set (bs_rows s2). tr_hash r = h \<longrightarrow> tr_revoked r \<noteq> None) \<and>
    (\<forall>c p n now'. hs p = h \<longrightarrow> \<not> fst (Admit hs c p n now' s2))"
proof -
  have s1: "bus_ok s1"
    using safeD(1) [OF safe_UseTombstoneFile assms(1)] assms(2) by (metis snd_conv)
  have s2: "bus_ok s2"
    using safeD(1) [OF safe_PreloadHashes s1] assms(5) by (metis snd_conv)
  have "dead h s1 \<and> tombstoned h s1"
    by (rule Use_dead [OF assms(2-4)])
  then have "dead h (snd (snd (PreloadHashes tks now' s1)))"
    by (auto simp: PreloadHashes_def preload_dead split: option.split)
  with assms(5) have d: "dead h s2" by simp
  moreover have "\<not> admits hs s2 p n" if "hs p = h" for p n
    using admits_live [OF s2, of hs p n] d that unfolding dead_def live_row_def by blast
  ultimately show ?thesis
    by (auto simp: dead_def Admit_admits)
qed

definition demo_restored :: bus_store where
  "demo_restored = demo_bus\<lparr>bs_tomb := None, bs_file := FileParsed 1 [\<lparr>tb_hash = ''tok'', tb_node = ''n1'', tb_at = 3\<rparr>]\<rparr>"

theorem restore_keeps_revocations_witness:
  "\<exists>s1. UseTombstoneFile 9 demo_restored = (None, 0, 1, s1) \<and>
     (\<forall>c n now. \<not> fst (Admit (\<lambda>x. x) c ''tok'' n now
        (snd (snd (PreloadHashes [\<lparr>ps_hash = ''tok'', ps_node = ''n1'', ps_label = ''compute'', ps_role = []\<rparr>] 10 s1)))))"
proof -
  have "bus_ok demo_bus"
    using demo_reach [of "\<lambda>x. x"] bus_ok_reach bus_ok_start by blast
  then have ok: "bus_ok demo_restored"
    using safeD(1) [OF safe_same [of demo_restored demo_bus]] by (simp add: demo_restored_def)
  have u: "fst (UseTombstoneFile 9 demo_restored) = None" "fst (snd (UseTombstoneFile 9 demo_restored)) = 0"
    "fst (snd (snd (UseTombstoneFile 9 demo_restored))) = 1"
    "ReadTombstoneFile (bs_file demo_restored) = Some [(''tok'', \<lparr>tb_hash = ''tok'', tb_node = ''n1'', tb_at = 3\<rparr>)]"
    by code_simp+
  then obtain s1 where s1: "UseTombstoneFile 9 demo_restored = (None, 0, 1, s1)"
    by (metis prod.collapse)
  obtain e j s2 where p: "PreloadHashes [\<lparr>ps_hash = ''tok'', ps_node = ''n1'', ps_label = ''compute'', ps_role = []\<rparr>] 10 s1 = (e, j, s2)"
    by (rule prod_cases3)
  show ?thesis
    using restore_keeps_revocations [OF ok s1 u(4) _ p, of "''tok''" "\<lambda>x. x"] s1 p by auto
qed

text \<open>Merging tombstone files loses nothing.  When both files can be read, the merged file can be
  read too, holds exactly the hashes of the two, and the reported number is that of the hashes the live
  file did not have.\<close>

theorem merge_is_union:
  assumes "ReadTombstoneFile into = Some a" and "ReadTombstoneFile from = Some b"
  shows "\<exists>n f m. MergeTombstoneFiles into from = Some (n, f) \<and> ReadTombstoneFile f = Some m \<and>
    dom (map_of m) = dom (map_of a) \<union> dom (map_of b) \<and> n = card (dom (map_of b) - dom (map_of a))"
proof -
  let ?new = "filter (\<lambda>(h, t). map_of a h = None) b"
  have ok: "tomb_ok a" "tomb_ok b"
    using Read_ok assms by auto
  have "distinct (map fst ?new)"
    using ok(2) by (simp add: tomb_ok_def distinct_map_filter)
  then have "card (set (map fst ?new)) = length (map fst ?new)"
    by (rule distinct_card)
  then have "length ?new = card (fst ` set ?new)"
    unfolding list.set_map length_map by (rule sym)
  moreover have "fst ` set ?new = dom (map_of b) - dom (map_of a)"
    unfolding dom_map_of_conv_image_fst map_of_eq_None_iff by (auto simp: image_iff split_beta)
  ultimately have n: "length ?new = card (dom (map_of b) - dom (map_of a))" by simp
  let ?m = "fold (\<lambda>(h, t). add_tombstone t) b a"
  have e: "?m = fold add_tombstone (map snd b) a"
    by (simp add: fold_map o_def case_prod_unfold)
  have "tb_hash ` set (map snd b) = dom (map_of b)"
    using ok(2) by (force simp: tomb_ok_def dom_map_of_conv_image_fst)
  then have d: "dom (map_of ?m) = dom (map_of a) \<union> dom (map_of b)"
    unfolding e dom_add_tombstones by simp
  have "tomb_ok ?m"
    unfolding e using ok by (intro tomb_ok_fold) (auto simp: tomb_ok_def)
  from Read_file_of [OF this] obtain m where m: "ReadTombstoneFile (file_of ?m) = Some m" "map_of m = map_of ?m"
    by blast
  show ?thesis
  proof (cases "length ?new = 0")
    case True
    then have "dom (map_of b) \<subseteq> dom (map_of a)"
      using n finite_dom_map_of [of b] by (metis Diff_eq_empty_iff card_0_eq finite_Diff)
    with True n assms show ?thesis
      by (auto simp: MergeTombstoneFiles_def Let_def)
  next
    case False
    with n assms m d show ?thesis
      by (simp add: MergeTombstoneFiles_def Let_def)
  qed
qed

theorem merge_is_union_witness:
  "\<exists>m. MergeTombstoneFiles (FileParsed 1 [\<lparr>tb_hash = ''a'', tb_node = ''n1'', tb_at = 3\<rparr>])
      (FileParsed 1 [\<lparr>tb_hash = ''b'', tb_node = [], tb_at = 5\<rparr>, \<lparr>tb_hash = ''a'', tb_node = [], tb_at = 2\<rparr>]) =
    Some (1, FileParsed 1 [\<lparr>tb_hash = ''a'', tb_node = ''n1'', tb_at = 2\<rparr>, \<lparr>tb_hash = ''b'', tb_node = [], tb_at = 5\<rparr>]) \<and>
    ReadTombstoneFile (FileParsed 1 [\<lparr>tb_hash = ''a'', tb_node = ''n1'', tb_at = 2\<rparr>, \<lparr>tb_hash = ''b'', tb_node = [], tb_at = 5\<rparr>]) = Some m \<and>
    dom (map_of m) = {''a'', ''b''}"
proof -
  let ?a = "FileParsed 1 [\<lparr>tb_hash = ''a'', tb_node = ''n1'', tb_at = 3\<rparr>]"
  let ?b = "FileParsed 1 [\<lparr>tb_hash = ''b'', tb_node = [], tb_at = 5\<rparr>, \<lparr>tb_hash = ''a'', tb_node = [], tb_at = 2\<rparr>]"
  have "ReadTombstoneFile ?a = Some [(''a'', \<lparr>tb_hash = ''a'', tb_node = ''n1'', tb_at = 3\<rparr>)]"
    "ReadTombstoneFile ?b = Some [(''b'', \<lparr>tb_hash = ''b'', tb_node = [], tb_at = 5\<rparr>), (''a'', \<lparr>tb_hash = ''a'', tb_node = [], tb_at = 2\<rparr>)]"
    by code_simp+
  note M = merge_is_union [OF this]
  moreover have "MergeTombstoneFiles ?a ?b =
    Some (1, FileParsed 1 [\<lparr>tb_hash = ''a'', tb_node = ''n1'', tb_at = 2\<rparr>, \<lparr>tb_hash = ''b'', tb_node = [], tb_at = 5\<rparr>])"
    by code_simp
  ultimately show ?thesis by auto
qed

section \<open>Minting\<close>

lemma push_live_admits:
  assumes "Loaded (bs_registry s)" and "n \<noteq> []" and "h \<in> set hashes" and "h \<noteq> []"
  shows "TokenAdmits (bs_registry (push_live n hashes s)) n h"
  using registry.admit_push [OF assms(2,4), of n hashes "bs_registry s"] assms by (simp add: bus_simps)

text \<open>Minting makes a token that works at once: with the registry attached and loaded and the
  database up, the plaintext the mint returns is admitted for the node it was minted for, and for no
  other node.\<close>

theorem mint_then_admit:
  assumes "bus_ok s" and "bs_attached s" and "Loaded (bs_registry s)" and "bs_faults s = []"
    and "MintBound hs gen label n role now s = (Inr (p, i), s')" and "p \<noteq> []" and "hs p \<noteq> []"
  shows "i = hs p \<and> (\<forall>c m now'. fst (Admit hs c p m now' s') \<longleftrightarrow> m = n)"
proof -
  let ?s1 = "s\<lparr>bs_rows := bs_rows s @ [new_row (hs p) label now n role]\<rparr>"
  have f: "bs_fault s = (False, s)" "bs_fault ?s1 = (False, ?s1)"
    using assms(4) by (simp_all add: bs_fault_def)
  have g: "ValidRole role" "n \<noteq> []" "gen = Some p" "i = hs p" "hs p \<notin> tr_hash ` set (bs_rows s)"
    and s': "s' = refreshNodes [n] ?s1"
    using assms(5) by (auto simp: MintBound_def f Let_def split: if_splits option.splits)
  have new: "hs p \<in> set (live_hashes (bs_rows ?s1) n)"
    using g(1) assms(7) by (simp add: live_hashes_def live_row_def new_row_def)
  have "s' = push_live n (live_hashes (bs_rows ?s1) n) ?s1"
    using g(2) assms(2) by (simp add: s' refreshNodes_def refresh_node_tokens_def liveTokenHashes_def f)
  with push_live_admits [of ?s1 n _ _] new assms(3,7) g(2) have "TokenAdmits (bs_registry s') n (hs p)"
    by simp
  moreover have "bs_attached s'"
    using assms(2) by (simp add: s' bus_simps)
  moreover have "m = n" if "admits hs s' p m" for m
  proof -
    have "bus_ok s'"
      using safeD(1) [OF safe_MintBound assms(1)] assms(5) by (metis snd_conv)
    from admits_live [OF this that] have "\<exists>r \<in> set (bs_rows ?s1). tr_hash r = hs p \<and> tr_node r = Some m"
      by (auto simp: s' bus_simps)
    then obtain r where r: "r \<in> set (bs_rows s) \<or> r = new_row (hs p) label now n role" "tr_hash r = hs p" "tr_node r = Some m"
      by auto
    with g(5) have "r = new_row (hs p) label now n role"
      by (metis imageI)
    with r(3) show ?thesis
      by (simp add: new_row_def)
  qed
  ultimately show ?thesis
    using g(2,4) assms(6) by (auto simp: Admit_admits admits_def)
qed

theorem mint_then_admit_witness:
  "\<exists>s'. MintBound (\<lambda>x. x) (Some ''tok2'') ''compute'' ''n2'' ''compute'' 4 demo_bus = (Inr (''tok2'', ''tok2''), s') \<and>
     (\<forall>c m now'. fst (Admit (\<lambda>x. x) c ''tok2'' m now' s') \<longleftrightarrow> m = ''n2'')"
proof -
  have ok: "bus_ok demo_bus"
    using demo_reach [of "\<lambda>x. x"] bus_ok_reach bus_ok_start by blast
  have f: "bs_attached demo_bus" "Loaded (bs_registry demo_bus)" "bs_faults demo_bus = []"
    "fst (MintBound (\<lambda>x. x) (Some ''tok2'') ''compute'' ''n2'' ''compute'' 4 demo_bus) = Inr (''tok2'', ''tok2'')"
    by code_simp+
  then obtain s' where "MintBound (\<lambda>x. x) (Some ''tok2'') ''compute'' ''n2'' ''compute'' 4 demo_bus = (Inr (''tok2'', ''tok2''), s')"
    by (metis prod.collapse)
  with mint_then_admit [OF ok f(1-3) this] show ?thesis by auto
qed

section \<open>Credentials\<close>

text \<open>
  The server's subject matching is a parameter; what the credential relies on is that a trailing
  \<open>.>\<close> on a literal subject matches exactly the subjects that extend it by one or more tokens.
\<close>

definition literal_subject :: "string \<Rightarrow> bool" where
  "literal_subject p \<longleftrightarrow> CHR ''*'' \<notin> set p \<and> CHR ''>'' \<notin> set p"

definition tail_wildcard :: "(string \<Rightarrow> string \<Rightarrow> bool) \<Rightarrow> bool" where
  "tail_wildcard matches \<longleftrightarrow> (\<forall>p s. literal_subject p \<longrightarrow> (matches (p @ ''.>'') s \<longleftrightarrow> (\<exists>r. r \<noteq> [] \<and> s = p @ ''.'' @ r)))"

definition may_publish :: "(string \<Rightarrow> string \<Rightarrow> bool) \<Rightarrow> permissions \<Rightarrow> string \<Rightarrow> bool" where
  "may_publish matches perm s \<longleftrightarrow> (\<exists>p \<in> set (pub_allow perm). matches p s) \<and> (\<forall>p \<in> set (pub_deny perm). \<not> matches p s)"

definition may_subscribe :: "(string \<Rightarrow> string \<Rightarrow> bool) \<Rightarrow> permissions \<Rightarrow> string \<Rightarrow> bool" where
  "may_subscribe matches perm s \<longleftrightarrow> (\<exists>p \<in> set (sub_allow perm). matches p s)"

lemma ValidNodeID_chars:
  assumes "ValidNodeID n"
  shows "CHR ''.'' \<notin> set n" "literal_subject n" "n \<noteq> []"
proof -
  have "lower_or_digit c \<or> c = CHR ''-''" if "c \<in> set n" for c
    using that assms by (auto simp: ValidNodeID_def ValidDNSLabel_def in_set_conv_nth)
  then show "CHR ''.'' \<notin> set n" "literal_subject n"
    unfolding literal_subject_def lower_or_digit_def by fastforce+
  show "n \<noteq> []"
    using assms by (auto simp: ValidNodeID_def ValidDNSLabel_def)
qed

lemma dot_split: "CHR ''.'' \<notin> set n \<Longrightarrow> CHR ''.'' \<notin> set m \<Longrightarrow> n @ ''.'' @ x = m @ ''.'' @ y \<Longrightarrow> n = m \<and> x = y"
proof (induction n arbitrary: m)
  case Nil
  then show ?case by (cases m) auto
next
  case (Cons a n)
  then show ?case by (cases m) auto
qed

definition node_permissions :: "string \<Rightarrow> permissions" where
  "node_permissions n = \<lparr>pub_allow = [node_scope n @ ''.>''], pub_deny = [NodeCmdFilter n], sub_allow = [node_scope n @ ''.cmd.>'']\<rparr>"

lemma wildcard_of:
  assumes "tail_wildcard matches" and "literal_subject pre" and "literal_subject n"
  shows "matches (pre @ n @ ''.>'') s \<longleftrightarrow> (\<exists>r. r \<noteq> [] \<and> s = pre @ n @ ''.'' @ r)"
    "matches (pre @ n @ ''.cmd.>'') s \<longleftrightarrow> (\<exists>r. r \<noteq> [] \<and> s = pre @ n @ ''.cmd.'' @ r)"
proof -
  have l: "literal_subject (pre @ n)" "literal_subject (pre @ n @ ''.cmd'')"
    using assms(2,3) by (auto simp: literal_subject_def)
  note M = assms(1) [unfolded tail_wildcard_def, rule_format]
  show "matches (pre @ n @ ''.>'') s \<longleftrightarrow> (\<exists>r. r \<noteq> [] \<and> s = pre @ n @ ''.'' @ r)"
    using M [OF l(1), of s] by simp
  show "matches (pre @ n @ ''.cmd.>'') s \<longleftrightarrow> (\<exists>r. r \<noteq> [] \<and> s = pre @ n @ ''.cmd.'' @ r)"
    using M [OF l(2), of s] by simp
qed

lemma scope_of:
  assumes "tail_wildcard matches" and "ValidNodeID n"
  shows "may_publish matches (node_permissions n) s \<Longrightarrow>
      \<exists>r. s = ''rasputin.node.'' @ n @ ''.'' @ r \<and> \<not> (\<exists>x. x \<noteq> [] \<and> r = ''cmd.'' @ x)"
    and "may_subscribe matches (node_permissions n) s \<Longrightarrow> \<exists>r. s = ''rasputin.node.'' @ n @ ''.cmd.'' @ r"
    and "may_publish matches (node_permissions n) s \<or> may_subscribe matches (node_permissions n) s \<Longrightarrow>
      \<exists>r. s = ''rasputin.node.'' @ n @ ''.'' @ r"
proof -
  have "literal_subject ''rasputin.node.''" by (simp add: literal_subject_def)
  note W = wildcard_of [OF assms(1) this ValidNodeID_chars(2) [OF assms(2)], of s]
  have p: "may_publish matches (node_permissions n) s \<longleftrightarrow>
      matches (''rasputin.node.'' @ n @ ''.>'') s \<and> \<not> matches (''rasputin.node.'' @ n @ ''.cmd.>'') s"
    and q: "may_subscribe matches (node_permissions n) s \<longleftrightarrow> matches (''rasputin.node.'' @ n @ ''.cmd.>'') s"
    by (simp_all add: may_publish_def may_subscribe_def node_permissions_def node_scope_def NodeCmdFilter_def)
  have cmd: "''rasputin.node.'' @ n @ ''.cmd.'' @ x = ''rasputin.node.'' @ n @ ''.'' @ ''cmd.'' @ x" for x by simp
  show 1: "\<exists>r. s = ''rasputin.node.'' @ n @ ''.'' @ r \<and> \<not> (\<exists>x. x \<noteq> [] \<and> r = ''cmd.'' @ x)" if "may_publish matches (node_permissions n) s"
    using that unfolding p W cmd by blast
  show 2: "\<exists>r. s = ''rasputin.node.'' @ n @ ''.cmd.'' @ r" if "may_subscribe matches (node_permissions n) s"
    using that unfolding q W by blast
  show "\<exists>r. s = ''rasputin.node.'' @ n @ ''.'' @ r" if "may_publish matches (node_permissions n) s \<or> may_subscribe matches (node_permissions n) s"
    using that 1 2 unfolding cmd by blast
qed

text \<open>A credential reaches one node's subjects only.  Whatever it may publish is under the node's own
  prefix and never on the node's command lane, whatever it may subscribe to is on that lane, and the
  credentials of two different nodes share no subject in any direction.  (The right to answer a command
  on the reply subject it came with is the server's response grant, beside these lists.)\<close>

theorem credential_scope:
  assumes "tail_wildcard matches" and "mintUserJWT n = Some p" and "mintUserJWT m = Some q" and "n \<noteq> m"
  shows "(\<forall>s. may_publish matches p s \<longrightarrow> (\<exists>r. s = ''rasputin.node.'' @ n @ ''.'' @ r \<and> \<not> (\<exists>x. x \<noteq> [] \<and> r = ''cmd.'' @ x))) \<and>
    (\<forall>s. may_subscribe matches p s \<longrightarrow> (\<exists>r. s = ''rasputin.node.'' @ n @ ''.cmd.'' @ r)) \<and>
    (\<forall>s. \<not> ((may_publish matches p s \<or> may_subscribe matches p s) \<and> (may_publish matches q s \<or> may_subscribe matches q s)))"
proof -
  have n: "ValidNodeID n" and p: "p = node_permissions n" and m: "ValidNodeID m" and q: "q = node_permissions m"
    using assms(2,3) by (auto simp: mintUserJWT_def node_permissions_def split: if_splits)
  note P = scope_of [OF assms(1) n, folded p] and Q = scope_of [OF assms(1) m, folded q]
  have "\<not> (may_publish matches q s \<or> may_subscribe matches q s)" if "may_publish matches p s \<or> may_subscribe matches p s" for s
  proof
    assume "may_publish matches q s \<or> may_subscribe matches q s"
    with Q(3) obtain y where "s = ''rasputin.node.'' @ m @ ''.'' @ y" by blast
    moreover from that P(3) obtain x where "s = ''rasputin.node.'' @ n @ ''.'' @ x" by blast
    ultimately have "n @ ''.'' @ x = m @ ''.'' @ y"
      by (simp only: same_append_eq)
    from dot_split [OF ValidNodeID_chars(1) [OF n] ValidNodeID_chars(1) [OF m] this] assms(4) show False by blast
  qed
  with P show ?thesis by blast
qed

text \<open>A matcher that reads the trailing wildcard, for the witness.\<close>

definition tail_match :: "string \<Rightarrow> string \<Rightarrow> bool" where
  "tail_match pat s = (has_suffix ''.>'' pat \<and> has_prefix (take (length pat - 1) pat) s \<and> length pat \<le> length s)"

lemma tail_match_ok: "tail_wildcard tail_match"
  unfolding tail_wildcard_def tail_match_def
proof (intro allI impI)
  fix p s :: string
  have "has_suffix ''.>'' (p @ ''.>'')" by (simp add: has_suffix_def)
  moreover have "take (length (p @ ''.>'') - 1) (p @ ''.>'') = p @ ''.''" by simp
  ultimately show "(has_suffix ''.>'' (p @ ''.>'') \<and> has_prefix (take (length (p @ ''.>'') - 1) (p @ ''.>'')) s \<and>
      length (p @ ''.>'') \<le> length s) = (\<exists>r. r \<noteq> [] \<and> s = p @ ''.'' @ r)"
    by (auto simp: has_prefix_iff Suc_le_eq)
qed

theorem credential_scope_witness:
  "\<exists>p q. mintUserJWT ''n1'' = Some p \<and> mintUserJWT ''n2'' = Some q \<and> may_publish tail_match p ''rasputin.node.n1.heartbeat'' \<and>
     \<not> may_publish tail_match p ''rasputin.node.n1.cmd.reboot'' \<and> \<not> may_publish tail_match q ''rasputin.node.n1.heartbeat'' \<and>
     (\<forall>s. \<not> (may_publish tail_match p s \<and> may_publish tail_match q s))"
proof -
  obtain p q where pq: "mintUserJWT ''n1'' = Some p" "mintUserJWT ''n2'' = Some q"
    "may_publish tail_match p ''rasputin.node.n1.heartbeat''" "\<not> may_publish tail_match p ''rasputin.node.n1.cmd.reboot''"
    "\<not> may_publish tail_match q ''rasputin.node.n1.heartbeat''"
  proof
    show "mintUserJWT ''n1'' = Some (the (mintUserJWT ''n1''))" "mintUserJWT ''n2'' = Some (the (mintUserJWT ''n2''))"
      "may_publish tail_match (the (mintUserJWT ''n1'')) ''rasputin.node.n1.heartbeat''"
      "\<not> may_publish tail_match (the (mintUserJWT ''n1'')) ''rasputin.node.n1.cmd.reboot''"
      "\<not> may_publish tail_match (the (mintUserJWT ''n2'')) ''rasputin.node.n1.heartbeat''"
      by code_simp+
  qed
  have "''n1'' \<noteq> ''n2''" by simp
  from credential_scope [OF tail_match_ok pq(1,2) this] pq show ?thesis by blast
qed

section \<open>Contested tokens\<close>

text \<open>The record of one token after a sequence of evictions, each the evicted host, the new host and the time.\<close>

definition after_evictions :: "string \<Rightarrow> (string \<times> string \<times> gotime) list \<Rightarrow> takeover" where
  "after_evictions n evs = fold (\<lambda>(evicted, newh, now). note_eviction evicted newh now) evs (new_takeover n)"

lemma after_evictions_snoc:
  "after_evictions n (evs @ [(a, b, now)]) = note_eviction a b now (after_evictions n evs)"
  by (simp add: after_evictions_def)

lemma noteHost_fields [simp]:
  "tk_alternations (noteHost h r) = tk_alternations r" "tk_last_evicted (noteHost h r) = tk_last_evicted r"
  "length (tk_hosts r) \<le> takeoverHostsKept \<Longrightarrow> length (tk_hosts (noteHost h r)) \<le> takeoverHostsKept"
  by (simp_all add: noteHost_def)

lemma note_eviction_alternations:
  "tk_alternations (note_eviction a b now r) =
    tk_alternations r + (if a \<noteq> [] \<and> b \<noteq> [] \<and> a \<noteq> b \<and> tk_last_evicted r = b then 1 else 0)"
  "tk_last_evicted (note_eviction a b now r) = (if a \<noteq> [] \<and> b \<noteq> [] \<and> a \<noteq> b then a else tk_last_evicted r)"
  "length (tk_hosts r) \<le> takeoverHostsKept \<Longrightarrow> length (tk_hosts (note_eviction a b now r)) \<le> takeoverHostsKept"
  by (simp_all add: note_eviction_def Let_def)

text \<open>An alert means a fight.  A token's record counts an alternation only when some host that had
  been evicted by a different host took the session back from another; so one machine that reconnects,
  however often and however badly, raises none.  The record never keeps more than four hosts.\<close>

theorem alert_means_taken_back:
  "length (tk_hosts (after_evictions n evs)) \<le> takeoverHostsKept \<and>
   (0 < tk_alternations (after_evictions n evs) \<longrightarrow>
     (\<exists>xs ys zs a b c t1 t2. evs = xs @ (a, b, t1) # ys @ (c, a, t2) # zs \<and> a \<noteq> b \<and> c \<noteq> a \<and> a \<noteq> [] \<and> b \<noteq> [] \<and> c \<noteq> []))"
proof
  show "length (tk_hosts (after_evictions n evs)) \<le> takeoverHostsKept"
    by (induction evs rule: rev_induct)
      (auto simp: after_evictions_snoc note_eviction_alternations, simp add: after_evictions_def new_takeover_def)
  have last: "\<exists>xs ys b t. evs = xs @ (tk_last_evicted (after_evictions n evs), b, t) # ys \<and>
      tk_last_evicted (after_evictions n evs) \<noteq> b \<and> b \<noteq> []" if "tk_last_evicted (after_evictions n evs) \<noteq> []" for evs
    using that
  proof (induction evs rule: rev_induct)
    case (snoc e evs)
    obtain a b t where e: "e = (a, b, t)" by (cases e)
    show ?case
    proof (cases "a \<noteq> [] \<and> b \<noteq> [] \<and> a \<noteq> b")
      case True
      then show ?thesis by (auto simp: e after_evictions_snoc note_eviction_alternations)
    next
      case False
      then have "tk_last_evicted (after_evictions n (evs @ [e])) = tk_last_evicted (after_evictions n evs)"
        by (auto simp: e after_evictions_snoc note_eviction_alternations)
      with snoc obtain xs ys b' t' where "evs = xs @ (tk_last_evicted (after_evictions n evs), b', t') # ys"
        "tk_last_evicted (after_evictions n evs) \<noteq> b'" "b' \<noteq> []" by metis
      then have "evs @ [e] = xs @ (tk_last_evicted (after_evictions n evs), b', t') # ys @ [e] \<and>
          tk_last_evicted (after_evictions n evs) \<noteq> b' \<and> b' \<noteq> []" by (metis append_Cons append_assoc)
      with \<open>tk_last_evicted _ = _\<close> show ?thesis by metis
    qed
  qed (simp add: after_evictions_def new_takeover_def)
  show "0 < tk_alternations (after_evictions n evs) \<longrightarrow>
     (\<exists>xs ys zs a b c t1 t2. evs = xs @ (a, b, t1) # ys @ (c, a, t2) # zs \<and> a \<noteq> b \<and> c \<noteq> a \<and> a \<noteq> [] \<and> b \<noteq> [] \<and> c \<noteq> [])"
  proof (induction evs rule: rev_induct)
    case (snoc e evs)
    obtain a b t where e: "e = (a, b, t)" by (cases e)
    show ?case
    proof (cases "a \<noteq> [] \<and> b \<noteq> [] \<and> a \<noteq> b \<and> tk_last_evicted (after_evictions n evs) = b")
      case True
      then obtain xs ys d t1 where "evs = xs @ (b, d, t1) # ys" "b \<noteq> d" "d \<noteq> []"
        using last [of evs] by blast
      then have "evs @ [e] = xs @ (b, d, t1) # ys @ (a, b, t) # []" by (simp add: e)
      with True \<open>b \<noteq> d\<close> \<open>d \<noteq> []\<close> show ?thesis by blast
    next
      case False
      then have "tk_alternations (after_evictions n (evs @ [e])) = tk_alternations (after_evictions n evs)"
        by (auto simp: e after_evictions_snoc note_eviction_alternations)
      moreover have "\<exists>xs ys zs a b c t1 t2. evs @ [e] = xs @ (a, b, t1) # ys @ (c, a, t2) # zs \<and> a \<noteq> b \<and> c \<noteq> a \<and> a \<noteq> [] \<and> b \<noteq> [] \<and> c \<noteq> []"
        if "evs = xs @ (a, b, t1) # ys @ (c, a, t2) # zs" "a \<noteq> b \<and> c \<noteq> a \<and> a \<noteq> [] \<and> b \<noteq> [] \<and> c \<noteq> []" for xs ys zs a b c t1 t2
        using that by (intro exI [of _ xs] exI [of _ ys] exI [of _ "zs @ [e]"] exI) auto
      ultimately show ?thesis
        using snoc by metis
    qed
  qed (simp add: after_evictions_def new_takeover_def)
qed

theorem alert_means_taken_back_witness:
  "tk_alternations (after_evictions ''n1'' [(''h1'', ''h2'', 1), (''h2'', ''h1'', 2)]) = 1 \<and>
   (\<exists>xs ys zs a b c t1 t2. [(''h1'', ''h2'', 1), (''h2'', ''h1'', 2 :: gotime)] = xs @ (a, b, t1) # ys @ (c, a, t2) # zs \<and> a \<noteq> b)"
proof -
  have e: "tk_alternations (after_evictions ''n1'' [(''h1'', ''h2'', 1), (''h2'', ''h1'', 2)]) = 1" by code_simp
  then have "0 < tk_alternations (after_evictions ''n1'' [(''h1'', ''h2'', 1), (''h2'', ''h1'', 2)])" by simp
  from mp [OF conjunct2 [OF alert_means_taken_back] this] e show ?thesis by blast
qed

section \<open>The api's own agent\<close>

definition row_core :: "token_row \<Rightarrow> string \<times> string option \<times> gotime option" where
  "row_core r = (tr_hash r, tr_node r, tr_revoked r)"

lemma adopt_core: "map row_core (bs_rows (snd (adoptSelfAgentToken i n s))) = map row_core (bs_rows s)"
  by (simp add: adoptSelfAgentToken_def split_beta Let_def bus_simps map_sql_update row_core_def)

lemma in_core: "(h, n, v) \<in> row_core ` set rows \<longleftrightarrow> (\<exists>r \<in> set rows. tr_hash r = h \<and> tr_node r = n \<and> tr_revoked r = v)"
  by (auto simp: row_core_def)

lemma MintBound_core:
  assumes "MintBound hs gen label n role now s = (Inr (p, i), s')"
  shows "i = hs p" "(i, Some n, None) \<in> row_core ` set (bs_rows s')"
  using assms by (auto simp: MintBound_def split_beta Let_def bus_simps new_row_def row_core_def split: if_splits option.splits)

lemma revokeExcept_core:
  assumes "revokeNodeTokensExcept n i now s = (Inr d, s')" and "(i, Some n, None) \<in> row_core ` set (bs_rows s)"
  shows "tr_hash ` {r \<in> set (bs_rows s'). tr_node r = Some n \<and> tr_revoked r = None} = {i}"
proof -
  obtain q s1 where r: "revokeReturning (\<lambda>r. tr_node r = Some n \<and> tr_hash r \<noteq> i) now s = (q, s1)" by fastforce
  with assms(1) obtain tombs where q: "q = Inr tombs"
    by (cases q) (auto simp: revokeNodeTokensExcept_def)
  have "bs_rows s' = bs_rows s1"
    using assms(1) r q by (auto simp: revokeNodeTokensExcept_def split_beta Let_def bus_simps)
  then have rows: "bs_rows s' = sql_update (\<lambda>r. (tr_node r = Some n \<and> tr_hash r \<noteq> i) \<and> tr_revoked r = None)
      (\<lambda>r. r\<lparr>tr_revoked := Some now\<rparr>) (bs_rows s)" (is "_ = sql_update ?P ?f _")
    using revokeReturning_Inr(1) [OF r [unfolded q]] by simp
  have "tr_hash r = i" if "r \<in> set (bs_rows s')" "tr_node r = Some n" "tr_revoked r = None" for r
  proof -
    from that(1) obtain u where "r = (if ?P u then ?f u else u)"
      unfolding rows in_sql_update by blast
    with that(2,3) show ?thesis by (cases "?P u") auto
  qed
  moreover obtain r where "r \<in> set (bs_rows s)" "tr_hash r = i" "tr_node r = Some n" "tr_revoked r = None"
    using assms(2) by (auto simp: in_core)
  then have "r \<in> {r \<in> set (bs_rows s'). tr_node r = Some n \<and> tr_revoked r = None}" "tr_hash r = i"
    by (auto simp: rows set_sql_update intro: image_eqI [of _ _ r])
  ultimately show ?thesis by blast
qed

lemma Validate_core:
  assumes "Validate hs tok n now s = (Inr True, s')"
  shows "(hs tok, Some n, None) \<in> row_core ` set (bs_rows s')"
proof -
  from assms obtain r where "r \<in> set (bs_rows s)" "tr_hash r = hs tok" "tr_node r = Some n" "tr_revoked r = None"
    and s': "s' = touchLastUsed (hs tok) now (snd (bs_fault s))"
    by (auto simp: Validate_def row_node_def split_beta Let_def bus_simps
        split: if_splits option.splits dest!: sql_first_Some)
  then have "(hs tok, Some n, None) \<in> row_core ` set (bs_rows s)"
    unfolding in_core by blast
  moreover have "map row_core (bs_rows s') = map row_core (bs_rows s)"
    by (simp add: s' touchLastUsed_def split_beta Let_def bus_simps map_sql_update row_core_def)
  ultimately show ?thesis
    by (metis list.set_map)
qed

text \<open>When the api has ensured its agent's token without an error, the agent's file holds a live token
  of its node: either the one that was there, or a new one that is then the only unrevoked token of that
  node.\<close>

theorem agent_token_ensured:
  assumes "EnsureAgentToken hs gen f n now s = (None, written, s')"
  shows "case written of
      None \<Rightarrow> (\<exists>tok. f = TokenFile tok \<and> (\<exists>r \<in> set (bs_rows s'). tr_hash r = hs tok \<and> tr_node r = Some n \<and> tr_revoked r = None))
    | Some p \<Rightarrow> tr_hash ` {r \<in> set (bs_rows s'). tr_node r = Some n \<and> tr_revoked r = None} = {hs p}"
proof -
  let ?label = "''controlplane agent (minted by the api at start)''"
  obtain r s1 where r: "agentTokenProblem hs f n now (s\<lparr>bs_self := n\<rparr>) = (r, s1)" by fastforce
  obtain mt s2 where mt: "MintBound hs gen ?label n ''controlplane'' now s1 = (mt, s2)" by fastforce
  note E = assms [unfolded EnsureAgentToken_def r Let_def split_beta fst_conv snd_conv mt]
  obtain x where x: "r = Inr x"
    using E by (cases r) (auto split: if_splits)
  show ?thesis
  proof (cases x)
    case (Some live)
    then have w: "written = None" "s' = snd (adoptSelfAgentToken live n s1)"
      using E x by (auto split: if_splits)
    obtain tok where "f = TokenFile tok" "live = hs tok" "Validate hs tok n now (s\<lparr>bs_self := n\<rparr>) = (Inr True, s1)"
      using r x Some by (auto simp: agentTokenProblem_def split_beta Let_def split: token_file.splits sum.splits if_splits)
        (metis prod.collapse)
    with Validate_core have "f = TokenFile tok" "(hs tok, Some n, None) \<in> row_core ` set (bs_rows s')"
      unfolding w using adopt_core [of live n s1] by (blast, metis list.set_map)
    then show ?thesis
      unfolding w in_core by auto
  next
    case None
    obtain p i where m: "mt = Inr (p, i)"
      using E x None by (cases mt) (auto split: if_splits)
    let ?s4 = "snd (adoptSelfAgentToken i n (snd (bs_wfault s2)))"
    obtain q s5 where q: "revokeNodeTokensExcept n i now ?s4 = (q, s5)" by fastforce
    have w: "written = Some p" "s' = s5" "\<exists>d. q = Inr d"
      using E x None m q by (auto split: if_splits sum.splits)
    have c: "(i, Some n, None) \<in> row_core ` set (bs_rows ?s4)"
      using MintBound_core(2) [OF mt [unfolded m]] adopt_core [of i n "snd (bs_wfault s2)"] by (metis wfault_fields(1) list.set_map)
    from w(3) q obtain d where "revokeNodeTokensExcept n i now ?s4 = (Inr d, s5)" by blast
    from revokeExcept_core [OF this c] MintBound_core(1) [OF mt [unfolded m]] show ?thesis
      unfolding w by simp
  qed
qed

theorem agent_token_ensured_witness:
  "\<exists>s'. EnsureAgentToken (\<lambda>x. x) (Some ''fresh'') TokenFileBad ''n1'' 9 demo_bus = (None, Some ''fresh'', s') \<and>
     tr_hash ` {r \<in> set (bs_rows s'). tr_node r = Some ''n1'' \<and> tr_revoked r = None} = {''fresh''}"
proof -
  have "fst (EnsureAgentToken (\<lambda>x. x) (Some ''fresh'') TokenFileBad ''n1'' 9 demo_bus) = None"
    "fst (snd (EnsureAgentToken (\<lambda>x. x) (Some ''fresh'') TokenFileBad ''n1'' 9 demo_bus)) = Some ''fresh''"
    by code_simp+
  then obtain s' where s': "EnsureAgentToken (\<lambda>x. x) (Some ''fresh'') TokenFileBad ''n1'' 9 demo_bus = (None, Some ''fresh'', s')"
    by (metis prod.collapse)
  from agent_token_ensured [OF this] s' show ?thesis by simp
qed

end
