(* ===== verification/Go_Num.thy ===== *)
theory Go_Num
  imports Prelude "HOL-Library.Signed_Division"
begin

text \<open>
  Go's \<^verbatim>\<open>int\<close> and \<^verbatim>\<open>strconv\<close> as the sources use them: arithmetic that wraps at 64 bits, division
  that truncates towards zero, \<^verbatim>\<open>strconv.Itoa\<close>, and \<^verbatim>\<open>strconv.Atoi\<close> with its two failures kept
  apart.  On a syntax error Atoi returns 0; on a range error it returns the nearest value of the
  type beside the error, which matters to a caller that drops the error.
\<close>

section \<open>64-bit arithmetic\<close>

definition max_int :: int where "max_int = 2 ^ 63 - 1"
definition min_int :: int where "min_int = - (2 ^ 63)"

definition in_int :: "int \<Rightarrow> bool" where
  "in_int x \<longleftrightarrow> min_int \<le> x \<and> x \<le> max_int"

definition wrap64 :: "int \<Rightarrow> int" where
  "wrap64 x = (x + 2 ^ 63) mod 2 ^ 64 - 2 ^ 63"

lemma wrap64_id [simp]: "in_int x \<Longrightarrow> wrap64 x = x"
  by (simp add: wrap64_def in_int_def max_int_def min_int_def)

lemma in_int_wrap64 [simp]: "in_int (wrap64 x)"
proof -
  have "0 \<le> (x + 2 ^ 63) mod (2 ^ 64 :: int)" "(x + 2 ^ 63) mod (2 ^ 64 :: int) < 2 ^ 64"
    by simp_all
  then show ?thesis
    by (simp add: wrap64_def in_int_def max_int_def min_int_def)
qed

text \<open>Go's \<open>/\<close> on integers.\<close>

definition go_quot :: "int \<Rightarrow> int \<Rightarrow> int" where
  "go_quot a b = wrap64 (a sdiv b)"

lemma go_quot_nonneg: "0 \<le> a \<Longrightarrow> a \<le> max_int \<Longrightarrow> 0 < b \<Longrightarrow> go_quot a b = a div b"
proof -
  assume a: "0 \<le> a" "a \<le> max_int" "0 < b"
  have "a div b \<le> a"
    using a div_by_1 [of a] zdiv_mono2 [of a 1 b] by auto
  moreover have "0 \<le> a div b"
    using a by (simp add: pos_imp_zdiv_nonneg_iff)
  ultimately show ?thesis
    using a by (simp add: go_quot_def signed_divide_int_def in_int_def min_int_def sgn_if)
qed

section \<open>Decimal digits\<close>

definition is_digit :: "char \<Rightarrow> bool" where
  "is_digit c \<longleftrightarrow> CHR ''0'' \<le> c \<and> c \<le> CHR ''9''"

definition digit_val :: "char \<Rightarrow> nat" where
  "digit_val c = of_char c - 48"

definition digit_char :: "nat \<Rightarrow> char" where
  "digit_char d = char_of (48 + d)"

fun show_nat :: "nat \<Rightarrow> string" where
  "show_nat n = (if n < 10 then [digit_char n] else show_nat (n div 10) @ [digit_char (n mod 10)])"

definition read_nat :: "string \<Rightarrow> nat" where
  "read_nat s = foldl (\<lambda>a c. 10 * a + digit_val c) 0 s"

definition Itoa :: "int \<Rightarrow> string" where
  "Itoa n = (if n < 0 then CHR ''-'' # show_nat (nat (- n)) else show_nat (nat n))"

datatype num_error = ErrSyntax | ErrRange

definition clamp_int :: "int \<Rightarrow> int \<times> num_error option" where
  "clamp_int n = (if n < min_int then (min_int, Some ErrRange)
     else if max_int < n then (max_int, Some ErrRange) else (n, None))"

definition Atoi :: "string \<Rightarrow> int \<times> num_error option" where
  "Atoi s = (let neg = (case s of [] \<Rightarrow> False | c # cs \<Rightarrow> c = CHR ''-'');
       ds = (case s of [] \<Rightarrow> [] | c # cs \<Rightarrow> if c = CHR ''-'' \<or> c = CHR ''+'' then cs else s)
     in if ds = [] \<or> \<not> list_all is_digit ds then (0, Some ErrSyntax)
        else clamp_int (if neg then - int (read_nat ds) else int (read_nat ds)))"

subsection \<open>Printing and reading\<close>

declare show_nat.simps [simp del]

lemma of_digit_char: "d < 10 \<Longrightarrow> (of_char (digit_char d) :: nat) = 48 + d"
  by (simp add: digit_char_def)

lemma digit_val_char [simp]: "d < 10 \<Longrightarrow> digit_val (digit_char d) = d"
  by (simp add: digit_val_def of_digit_char)

lemma is_digit_iff: "is_digit c \<longleftrightarrow> 48 \<le> (of_char c :: nat) \<and> (of_char c :: nat) \<le> 57"
  by (simp add: is_digit_def less_eq_char_def)

lemma is_digit_char [simp]: "d < 10 \<Longrightarrow> is_digit (digit_char d)"
  by (simp add: is_digit_iff of_digit_char)

lemma show_nat_nonempty [simp]: "show_nat n \<noteq> []"
  by (subst show_nat.simps) simp

lemma show_nat_digits: "c \<in> set (show_nat n) \<Longrightarrow> is_digit c"
proof (induction n rule: show_nat.induct)
  case (1 n)
  then show ?case
    by (subst (asm) (2) show_nat.simps) (auto split: if_splits)
qed

lemma read_nat_snoc: "read_nat (s @ [c]) = 10 * read_nat s + digit_val c"
  by (simp add: read_nat_def)

lemma read_show_nat [simp]: "read_nat (show_nat n) = n"
proof (induction n rule: show_nat.induct)
  case (1 n)
  then show ?case
    by (subst show_nat.simps) (auto simp: read_nat_snoc read_nat_def [of "[_]"])
qed

lemma hd_show_nat: "is_digit (hd (show_nat n))"
  by (metis hd_in_set show_nat_digits show_nat_nonempty)

lemma not_digit_sign [simp]: "\<not> is_digit CHR ''-''" "\<not> is_digit CHR ''+''" "\<not> is_digit CHR ''.''"
    "\<not> is_digit CHR ''v''" "\<not> is_digit CHR ''%''"
  by (simp_all add: is_digit_def less_eq_char_def)

lemma Atoi_show_nat: "Atoi (show_nat n) = clamp_int (int n)"
proof -
  obtain c cs where s: "show_nat n = c # cs"
    by (meson list.exhaust show_nat_nonempty)
  then have "is_digit c"
    using hd_show_nat [of n] by simp
  then have "c \<noteq> CHR ''-''" "c \<noteq> CHR ''+''"
    by auto
  moreover have "list_all is_digit (show_nat n)"
    by (simp add: list_all_iff show_nat_digits)
  ultimately show ?thesis
    using s read_show_nat [of n] by (simp add: Atoi_def)
qed

lemma Atoi_Itoa: "in_int n \<Longrightarrow> Atoi (Itoa n) = (n, None)"
proof (cases "n < 0")
  case True
  moreover assume "in_int n"
  moreover have "list_all is_digit (show_nat m)" for m
    by (simp add: list_all_iff show_nat_digits)
  ultimately show ?thesis
    by (simp add: Itoa_def Atoi_def clamp_int_def in_int_def)
next
  case False
  assume "in_int n"
  with False show ?thesis
    by (auto simp: Itoa_def Atoi_show_nat clamp_int_def in_int_def)
qed

lemma Atoi_range: "Atoi s = (n, e) \<Longrightarrow> in_int n"
  by (auto simp: Atoi_def Let_def clamp_int_def in_int_def max_int_def min_int_def split: if_splits)

lemma Itoa_nonempty [simp]: "Itoa n \<noteq> []"
  by (simp add: Itoa_def)

lemma Itoa_chars: "c \<in> set (Itoa n) \<Longrightarrow> is_digit c \<or> c = CHR ''-''"
  by (auto simp: Itoa_def show_nat_digits split: if_splits)

end
