(* ===== verification/Releases.thy ===== *)
theory Releases
  imports Inventory Go_Num "HOL-Library.Product_Lexorder"
begin

text \<open>
  Releases (\<^verbatim>\<open>api/internal/releases/{version,registry,source,check,manifestsig,security}.go\<close>):
  version numbers and their order, the registry of components, what a release manifest offers, the
  update check the operator reads, the signature a manifest must carry, and the security floor.
  The release host is a parameter (what \<^verbatim>\<open>Source.LatestFor\<close> answers), as are the signature verifier
  and the JSON decoding of a manifest's version.
\<close>

section \<open>Versions\<close>

datatype Scheme = SchemeCalVer | SchemeSemver | SchemeOther int

record parsed =
  p_parts :: "int list"
  p_stable :: bool
  p_dev :: int

text \<open>
  The two regular expressions.  Their separators are not digits, so a match is found by reading the
  longest run of digits each time.  The groups are the three numbers and the digits after
  \<^verbatim>\<open>-dev.\<close>, empty when that part is absent.
\<close>

definition split_digits :: "string \<Rightarrow> string \<times> string" where
  "split_digits s = (takeWhile is_digit s, dropWhile is_digit s)"

fun strip_prefix :: "string \<Rightarrow> string \<Rightarrow> string option" where
  "strip_prefix [] s = Some s"
| "strip_prefix (p # ps) [] = None"
| "strip_prefix (p # ps) (c # cs) = (if p = c then strip_prefix ps cs else None)"

definition dev_group :: "string \<Rightarrow> string option" where
  "dev_group r = (if r = [] then Some [] else case strip_prefix ''-dev.'' r of
     None \<Rightarrow> None | Some ds \<Rightarrow> if ds \<noteq> [] \<and> list_all is_digit ds then Some ds else None)"

definition version_groups :: "string \<Rightarrow> (string \<times> string \<times> string \<times> string) option" where
  "version_groups v = (let (a, r1) = split_digits v in case strip_prefix ''.'' r1 of None \<Rightarrow> None | Some r2 \<Rightarrow>
     let (b, r3) = split_digits r2 in case strip_prefix ''.'' r3 of None \<Rightarrow> None | Some r4 \<Rightarrow>
     let (c, r5) = split_digits r4 in case dev_group r5 of None \<Rightarrow> None | Some d \<Rightarrow>
     if a = [] \<or> b = [] \<or> c = [] then None else Some (a, b, c, d))"

definition calverRe :: "string \<Rightarrow> (string \<times> string \<times> string \<times> string) option" where
  "calverRe v = (case version_groups v of None \<Rightarrow> None
     | Some (a, b, c, d) \<Rightarrow> if length a = 4 \<and> length b \<le> 2 then Some (a, b, c, d) else None)"

definition semverRe :: "string \<Rightarrow> (string \<times> string \<times> string \<times> string) option" where
  "semverRe v = version_groups (case v of [] \<Rightarrow> [] | c # cs \<Rightarrow> if c = CHR ''v'' then cs else v)"

datatype version_error = NotCalVer string | NotSemver string | UnknownScheme int

text \<open>The error of \<^verbatim>\<open>strconv.Atoi\<close> is dropped, so a number beyond 64 bits reads as the largest one.\<close>

definition parsed_of :: "string \<times> string \<times> string \<times> string \<Rightarrow> parsed" where
  "parsed_of m = (case m of (a, b, c, d) \<Rightarrow>
     \<lparr>p_parts = map (\<lambda>s. fst (Atoi s)) [a, b, c], p_stable = (d = []),
      p_dev = (if d = [] then 0 else fst (Atoi d))\<rparr>)"

definition parse :: "Scheme \<Rightarrow> string \<Rightarrow> version_error + parsed" where
  "parse scheme v = (case scheme of
     SchemeCalVer \<Rightarrow> (case calverRe v of None \<Rightarrow> Inl (NotCalVer v) | Some m \<Rightarrow> Inr (parsed_of m))
   | SchemeSemver \<Rightarrow> (case semverRe v of None \<Rightarrow> Inl (NotSemver v) | Some m \<Rightarrow> Inr (parsed_of m))
   | SchemeOther n \<Rightarrow> Inl (UnknownScheme n))"

definition sign :: "int \<Rightarrow> int" where
  "sign n = (if n < 0 then -1 else if n > 0 then 1 else 0)"

fun compare_parts :: "int list \<Rightarrow> int list \<Rightarrow> int option" where
  "compare_parts (a # as) (b # bs) = (if a \<noteq> b then Some (sign (wrap64 (a - b))) else compare_parts as bs)"
| "compare_parts _ _ = None"

definition compare_parsed :: "parsed \<Rightarrow> parsed \<Rightarrow> int" where
  "compare_parsed pa pb = (case compare_parts (p_parts pa) (p_parts pb) of
     Some c \<Rightarrow> c
   | None \<Rightarrow>
       if p_stable pa \<noteq> p_stable pb then (if p_stable pa then 1 else -1)
       else if p_dev pa \<noteq> p_dev pb then sign (wrap64 (p_dev pa - p_dev pb)) else 0)"

definition Compare :: "Scheme \<Rightarrow> string \<Rightarrow> string \<Rightarrow> version_error + int" where
  "Compare scheme a b = (case parse scheme a of Inl e \<Rightarrow> Inl e | Inr pa \<Rightarrow>
     (case parse scheme b of Inl e \<Rightarrow> Inl e | Inr pb \<Rightarrow> Inr (compare_parsed pa pb)))"

definition IsNewer :: "Scheme \<Rightarrow> string \<Rightarrow> string \<Rightarrow> version_error + bool" where
  "IsNewer scheme installed latest = (case Compare scheme installed latest of
     Inl e \<Rightarrow> Inl e | Inr c \<Rightarrow> Inr (c < 0))"

section \<open>The registry of components\<close>

datatype Kind = KindRAUC | KindSysupgrade | KindRootfsAB

abbreviation FirewallCompatible :: string where "FirewallCompatible \<equiv> ''rasputin-fw-n100''"

record Component =
  c_id :: string
  c_label :: string
  c_repo :: string
  c_tag_prefix :: string
  c_compatible :: string
  c_scheme :: Scheme
  c_kind :: Kind
  c_deployable :: bool
  c_compare_roles :: "NodeRole list"
  c_compare_field :: string
  c_signed_from :: string

definition os_component :: Component where
  "os_component = \<lparr>c_id = ''os'', c_label = ''Rasputin OS'', c_repo = ''geekdojo/rasputin-os'',
     c_tag_prefix = [], c_compatible = ''rasputin-n100'', c_scheme = SchemeCalVer, c_kind = KindRAUC,
     c_deployable = True, c_compare_roles = [''controlplane'', ''compute'', ''storage''],
     c_compare_field = ''image'', c_signed_from = ''2026.08.4''\<rparr>"

definition fw_component :: Component where
  "fw_component = \<lparr>c_id = ''fw'', c_label = ''Rasputin OpenWrt Firewall'',
     c_repo = ''geekdojo/rasputin-openwrt-firewall'', c_tag_prefix = [], c_compatible = FirewallCompatible,
     c_scheme = SchemeCalVer, c_kind = KindRootfsAB, c_deployable = True, c_compare_roles = [''firewall''],
     c_compare_field = ''image'', c_signed_from = ''2026.09.4-dev.127''\<rparr>"

definition Components :: "Component list" where
  "Components = [os_component, fw_component]"

definition ArchCompatible :: "string \<Rightarrow> string option" where
  "ArchCompatible arch =
     (if arch = ''amd64'' then Some ''rasputin-n100''
      else if arch = ''arm64'' then Some ''rasputin-rpi-arm64'' else None)"

definition ComponentByID :: "string \<Rightarrow> Component option" where
  "ComponentByID i = sql_first (\<lambda>c. c_id c = i) Components"

section \<open>Manifests\<close>

record ManifestArtifact =
  a_architecture :: string
  a_compatible :: string
  a_raucb :: string
  a_image :: string
  a_sha256 :: string
  a_size :: int
  a_signed_by :: string
  a_rootfs :: string
  a_rootfs_sha256 :: string
  a_rootfs_size :: int
  a_rootfs_sig :: string

record Manifest =
  mf_version :: string
  mf_artifacts :: "ManifestArtifact list"
  mf_security_floor :: string

record ReleaseInfo =
  ri_version :: string
  ri_manifest :: Manifest

definition OTAAsset :: "ManifestArtifact \<Rightarrow> Kind \<Rightarrow> (string \<times> string \<times> int) option" where
  "OTAAsset a kind = (case kind of
     KindRAUC \<Rightarrow> if a_raucb a \<noteq> [] \<and> a_sha256 a \<noteq> [] then Some (a_raucb a, a_sha256 a, a_size a) else None
   | KindRootfsAB \<Rightarrow> if a_rootfs a \<noteq> [] \<and> a_rootfs_sha256 a \<noteq> []
       then Some (a_rootfs a, a_rootfs_sha256 a, a_rootfs_size a) else None
   | KindSysupgrade \<Rightarrow> None)"

definition OTASigAsset :: "ManifestArtifact \<Rightarrow> Kind \<Rightarrow> string \<times> bool" where
  "OTASigAsset a kind = (case kind of KindRootfsAB \<Rightarrow> (a_rootfs_sig a, True) | _ \<Rightarrow> ([], False))"

definition Artifact :: "ReleaseInfo \<Rightarrow> string \<Rightarrow> ManifestArtifact option" where
  "Artifact r sku = sql_first (\<lambda>a. sku = [] \<or> a_compatible a = sku) (mf_artifacts (ri_manifest r))"

section \<open>The update check\<close>

datatype check_status = StatusUpToDate | StatusUpdateAvailable | StatusNoRelease | StatusUnknown | StatusNeedsAttention

datatype check_error = CheckFetch string | CheckVersion version_error

datatype check_note = BehindLatest "string list" | VersionUnconfirmed "string list"

record ArtifactStatus =
  as_architecture :: string
  as_compatible :: string
  as_sha256 :: string
  as_asset :: string
  as_size :: int
  as_needed_by :: nat

record ComponentStatus =
  cs_component :: string
  cs_label :: string
  cs_channel :: string
  cs_installed :: string
  cs_latest :: string
  cs_status :: check_status
  cs_kind :: Kind
  cs_deployable :: bool
  cs_sha256 :: string
  cs_asset :: string
  cs_size :: int
  cs_signed_by :: string
  cs_artifacts :: "ArtifactStatus list"
  cs_manual :: bool
  cs_note :: "check_note list"
  cs_running :: "string list"
  cs_error :: "check_error option"

definition runsComponent :: "Node \<Rightarrow> Component \<Rightarrow> bool" where
  "runsComponent n cm \<longleftrightarrow> n_role n \<in> set (c_compare_roles cm)"

definition nodeVersion :: "Node \<Rightarrow> Component \<Rightarrow> string" where
  "nodeVersion n cm = (if c_compare_field cm = ''agent'' then n_agent_version n else n_image_version n)"

text \<open>One round of the loop of \<^verbatim>\<open>installedVersion\<close>; a comparison that fails keeps the value found so far.\<close>

definition older_of :: "Component \<Rightarrow> Node \<Rightarrow> string \<Rightarrow> string" where
  "older_of cm n oldest =
     (if \<not> runsComponent n cm then oldest
      else let v = nodeVersion n cm
           in if v = [] then oldest
              else if oldest = [] then v
              else if IsNewer (c_scheme cm) v oldest = Inr True then v else oldest)"

definition installedVersion :: "Node list \<Rightarrow> Component \<Rightarrow> string" where
  "installedVersion nodes cm = fold (older_of cm) nodes []"

definition with_version :: "Node \<Rightarrow> string \<Rightarrow> string" where
  "with_version n v = n_id n @ '' ('' @ v @ '')''"

definition unconfirmedNodes :: "Node list \<Rightarrow> Component \<Rightarrow> string list" where
  "unconfirmedNodes nodes cm =
     (if c_compare_field cm = ''agent'' then []
      else map (\<lambda>n. with_version n (if n_image_version n = [] then ''no version reported'' else n_image_version n))
             (filter (\<lambda>n. runsComponent n cm \<and> n_confirmed_at n = None) nodes))"

definition laggingNodes :: "Node list \<Rightarrow> Component \<Rightarrow> string \<Rightarrow> string list" where
  "laggingNodes nodes cm latest =
     map (\<lambda>n. with_version n (nodeVersion n cm))
       (filter (\<lambda>n. runsComponent n cm \<and> nodeVersion n cm \<noteq> [] \<and>
                    IsNewer (c_scheme cm) (nodeVersion n cm) latest = Inr True) nodes)"

definition nodesNeeding :: "Node list \<Rightarrow> Component \<Rightarrow> string \<Rightarrow> nat" where
  "nodesNeeding nodes cm sku = length (filter (\<lambda>n. runsComponent n cm \<and>
     (if c_kind cm = KindRootfsAB then Some (c_compatible cm) else ArchCompatible (n_architecture n)) = Some sku) nodes)"

definition artifactStatuses :: "ReleaseInfo \<Rightarrow> Component \<Rightarrow> Node list \<Rightarrow> ArtifactStatus list" where
  "artifactStatuses info cm nodes = List.map_filter (\<lambda>a. case OTAAsset a (c_kind cm) of
     None \<Rightarrow> None
   | Some (name, sha, sz) \<Rightarrow> Some \<lparr>as_architecture = a_architecture a, as_compatible = a_compatible a,
       as_sha256 = sha, as_asset = name, as_size = sz, as_needed_by = nodesNeeding nodes cm (a_compatible a)\<rparr>)
     (mf_artifacts (ri_manifest info))"

definition blank_status :: "string \<Rightarrow> Component \<Rightarrow> Node list \<Rightarrow> ComponentStatus" where
  "blank_status channel cm nodes = \<lparr>cs_component = c_id cm, cs_label = c_label cm, cs_channel = channel,
     cs_installed = installedVersion nodes cm, cs_latest = [], cs_status = StatusUnknown, cs_kind = c_kind cm,
     cs_deployable = c_deployable cm, cs_sha256 = [], cs_asset = [], cs_size = 0, cs_signed_by = [],
     cs_artifacts = [], cs_manual = False, cs_note = [], cs_running = [], cs_error = None\<rparr>"

definition compare_installed :: "Component \<Rightarrow> Node list \<Rightarrow> ComponentStatus \<Rightarrow> ComponentStatus" where
  "compare_installed cm nodes cs =
     (if cs_installed cs = [] then cs\<lparr>cs_status := StatusUnknown\<rparr>
      else case IsNewer (c_scheme cm) (cs_installed cs) (cs_latest cs) of
        Inl e \<Rightarrow> cs\<lparr>cs_status := StatusUnknown, cs_error := Some (CheckVersion e)\<rparr>
      | Inr True \<Rightarrow> (let lag = laggingNodes nodes cm (cs_latest cs)
          in cs\<lparr>cs_status := StatusUpdateAvailable, cs_note := (if lag = [] then cs_note cs else [BehindLatest lag])\<rparr>)
      | Inr False \<Rightarrow> cs\<lparr>cs_status := StatusUpToDate\<rparr>)"

definition doubt_unconfirmed :: "Component \<Rightarrow> Node list \<Rightarrow> ComponentStatus \<Rightarrow> ComponentStatus" where
  "doubt_unconfirmed cm nodes cs = (let un = unconfirmedNodes nodes cm in
     if un = [] then cs
     else cs\<lparr>cs_status := (if cs_status cs = StatusUpToDate then StatusNeedsAttention else cs_status cs),
             cs_note := cs_note cs @ [VersionUnconfirmed un]\<rparr>)"

definition attach_artifact :: "Component \<Rightarrow> ReleaseInfo \<Rightarrow> ComponentStatus \<Rightarrow> ComponentStatus" where
  "attach_artifact cm info cs = (case Artifact info (c_compatible cm) of
     None \<Rightarrow> cs
   | Some a \<Rightarrow> (case c_kind cm of
       KindRAUC \<Rightarrow> cs\<lparr>cs_signed_by := a_signed_by a, cs_sha256 := a_sha256 a, cs_asset := a_raucb a, cs_size := a_size a\<rparr>
     | KindRootfsAB \<Rightarrow> cs\<lparr>cs_signed_by := a_signed_by a, cs_sha256 := a_rootfs_sha256 a, cs_asset := a_rootfs a,
         cs_size := a_rootfs_size a\<rparr>
     | KindSysupgrade \<Rightarrow> cs\<lparr>cs_signed_by := a_signed_by a, cs_asset := a_image a,
         cs_manual := (cs_status cs = StatusUpdateAvailable)\<rparr>))"

definition checkOne :: "(Component \<Rightarrow> string \<Rightarrow> string + ReleaseInfo option) \<Rightarrow> string \<Rightarrow> Component \<Rightarrow> Node list
    \<Rightarrow> ComponentStatus" where
  "checkOne src channel cm nodes = (let cs = blank_status channel cm nodes in
     case src cm channel of
       Inl e \<Rightarrow> cs\<lparr>cs_status := StatusUnknown, cs_error := Some (CheckFetch e)\<rparr>
     | Inr None \<Rightarrow> cs\<lparr>cs_status := StatusNoRelease\<rparr>
     | Inr (Some info) \<Rightarrow>
         let cs1 = doubt_unconfirmed cm nodes (compare_installed cm nodes (cs\<lparr>cs_latest := ri_version info\<rparr>))
         in attach_artifact cm info (cs1\<lparr>cs_artifacts := artifactStatuses info cm nodes\<rparr>))"

definition controlPlaneVersion :: "Node list \<Rightarrow> string" where
  "controlPlaneVersion nodes = (case sql_first (\<lambda>n. n_role n = ''controlplane'') nodes of
     None \<Rightarrow> [] | Some n \<Rightarrow> n_agent_version n)"

fun fold_running :: "string \<Rightarrow> ComponentStatus list \<Rightarrow> ComponentStatus list" where
  "fold_running v [] = []"
| "fold_running v (c # cs) =
     (if cs_component c = ''os'' then c\<lparr>cs_running := cs_running c @ [v]\<rparr> # cs else c # fold_running v cs)"

definition Check :: "(Component \<Rightarrow> string \<Rightarrow> string + ReleaseInfo option) \<Rightarrow> string \<Rightarrow> Node list \<Rightarrow> ComponentStatus list" where
  "Check src channel nodes =
     (let cs = map (\<lambda>cm. checkOne src channel cm nodes) Components; cp = controlPlaneVersion nodes
      in if cp = [] then cs else fold_running cp cs)"

section \<open>Signed manifests\<close>

definition SignedManifestRequired :: "Component \<Rightarrow> string \<Rightarrow> bool" where
  "SignedManifestRequired cm version =
     (if c_signed_from cm = [] then False
      else case Compare (c_scheme cm) version (c_signed_from cm) of Inl e \<Rightarrow> False | Inr c \<Rightarrow> c \<ge> 0)"

datatype manifest_error =
    ErrManifestUnsigned string string string
  | ErrNoVerifier
  | ErrTempFile
  | ErrManifestSignerExpired string
  | ErrBadSignature string
  | ErrManifestUnparsable
  | ErrManifestVersionMismatch string string

text \<open>
  \<open>v\<close> is the verifier (manifest bytes and signature to the signer's name or an error), \<open>expired\<close>
  tells whether the signer of a signature has aged out, \<open>version_in\<close> decodes the manifest's
  \<^verbatim>\<open>version\<close> field, and \<open>tmp_ok\<close> is whether the two temporary files could be written.
\<close>

definition VerifyManifest :: "(string \<Rightarrow> string \<Rightarrow> string + string) option \<Rightarrow> (string \<Rightarrow> bool) \<Rightarrow> (string \<Rightarrow> string option)
    \<Rightarrow> bool \<Rightarrow> Component \<Rightarrow> string \<Rightarrow> string \<Rightarrow> string \<Rightarrow> manifest_error + string option" where
  "VerifyManifest v expired version_in tmp_ok cm version manifestJSON sigDER =
     (let required = SignedManifestRequired cm version in
      if sigDER = [] then
        (if \<not> required then Inr None else Inl (ErrManifestUnsigned (c_id cm) version (c_signed_from cm)))
      else if \<not> required then Inr None
      else case v of
        None \<Rightarrow> Inl ErrNoVerifier
      | Some verify \<Rightarrow>
          if \<not> tmp_ok then Inl ErrTempFile
          else case verify manifestJSON sigDER of
            Inl e \<Rightarrow> Inl (if expired sigDER then ErrManifestSignerExpired e else ErrBadSignature e)
          | Inr signer \<Rightarrow>
              (case version_in manifestJSON of
                 None \<Rightarrow> Inl ErrManifestUnparsable
               | Some w \<Rightarrow> if w \<noteq> version then Inl (ErrManifestVersionMismatch version w) else Inr (Some signer)))"

section \<open>The security floor\<close>

record security_watch =
  sw_comp :: Component
  sw_channel :: string
  sw_floor :: string
  sw_release :: string
  sw_since :: gotime

definition ParseChannel :: "string \<Rightarrow> string option" where
  "ParseChannel s = (if s = ''stable'' then Some ''stable'' else if s = ''dev'' then Some ''dev'' else None)"

definition NewSecurityWatch :: "string \<Rightarrow> security_watch option" where
  "NewSecurityWatch channel = (case ParseChannel channel of None \<Rightarrow> None | Some ch \<Rightarrow>
     (case ComponentByID ''os'' of None \<Rightarrow> None | Some cm \<Rightarrow>
       Some \<lparr>sw_comp = cm, sw_channel = ch, sw_floor = [], sw_release = [], sw_since = zero_time\<rparr>))"

datatype refresh_error = RefreshFetch string | UnreadableFloor

definition Refresh :: "(Component \<Rightarrow> string \<Rightarrow> string + ReleaseInfo option) \<Rightarrow> gotime \<Rightarrow> security_watch
    \<Rightarrow> refresh_error option \<times> security_watch" where
  "Refresh src ts w = (case src (sw_comp w) (sw_channel w) of
     Inl e \<Rightarrow> (Some (RefreshFetch e), w)
   | Inr info \<Rightarrow>
       let (fl, release) = (case info of
             None \<Rightarrow> ([], [])
           | Some i \<Rightarrow> if mf_security_floor (ri_manifest i) \<noteq> [] then (mf_security_floor (ri_manifest i), ri_version i)
                       else ([], []))
       in if fl \<noteq> [] \<and> (case parse (c_scheme (sw_comp w)) fl of Inl e \<Rightarrow> True | Inr p \<Rightarrow> False)
          then (Some UnreadableFloor, w)
          else (None, w\<lparr>sw_since := (if fl \<noteq> sw_floor w then ts else sw_since w),
                        sw_floor := fl, sw_release := release\<rparr>))"

record security_alert =
  sa_release :: string
  sa_lagging :: "string list"
  sa_unconfirmed :: "string list"
  sa_since :: gotime

definition Alerts :: "security_watch \<Rightarrow> 'e + Node list \<Rightarrow> 'e + security_alert option" where
  "Alerts w listed =
     (if sw_floor w = [] then Inr None
      else case listed of
        Inl e \<Rightarrow> Inl e
      | Inr nodes \<Rightarrow>
          let lag = laggingNodes nodes (sw_comp w) (sw_floor w); un = unconfirmedNodes nodes (sw_comp w)
          in if lag = [] \<and> un = [] then Inr None
             else Inr (Some \<lparr>sa_release = sw_release w, sa_lagging = lag, sa_unconfirmed = un, sa_since = sw_since w\<rparr>))"

end
