(* ===== verification/Releases_Props.thy ===== *)
theory Releases_Props
  imports Releases
begin

text \<open>
  What the release component promises: \<^verbatim>\<open>Compare\<close> is the lexicographic order on what a version
  string parses to (so 64-bit subtraction never decides wrongly), canonical version text reads back,
  a green update check rests on every node, a manifest above the signing floor is believed only with
  a signature over its own version, and the security alert misses no node.
\<close>

section \<open>The order of versions\<close>

definition version_key :: "parsed \<Rightarrow> int list \<times> bool \<times> int" where
  "version_key p = (p_parts p, p_stable p, p_dev p)"

definition natural :: "int \<Rightarrow> bool" where
  "natural x \<longleftrightarrow> 0 \<le> x \<and> x \<le> max_int"

definition parsed_ok :: "parsed \<Rightarrow> bool" where
  "parsed_ok p \<longleftrightarrow> length (p_parts p) = 3 \<and> list_all natural (p_parts p) \<and> natural (p_dev p)"

definition cmp :: "'a::linorder \<Rightarrow> 'a \<Rightarrow> int" where
  "cmp x y = (if x < y then -1 else if x = y then 0 else 1)"

lemma sign_diff: "natural a \<Longrightarrow> natural b \<Longrightarrow> sign (wrap64 (a - b)) = cmp a b"
  by (simp add: natural_def sign_def cmp_def in_int_def max_int_def min_int_def)

lemma compare_parts_cmp:
  assumes "length xs = length ys" "list_all natural xs" "list_all natural ys"
  shows "compare_parts xs ys = (if xs = ys then None else Some (cmp xs ys))"
  using assms by (induction xs ys rule: list_induct2) (auto simp: sign_diff cmp_def)

lemma compare_parsed_cmp:
  assumes "parsed_ok pa" "parsed_ok pb"
  shows "compare_parsed pa pb = cmp (version_key pa) (version_key pb)"
proof -
  have "compare_parts (p_parts pa) (p_parts pb)
      = (if p_parts pa = p_parts pb then None else Some (cmp (p_parts pa) (p_parts pb)))"
    using assms by (intro compare_parts_cmp) (simp_all add: parsed_ok_def)
  moreover have "sign (wrap64 (p_dev pa - p_dev pb)) = cmp (p_dev pa) (p_dev pb)"
    using assms by (intro sign_diff) (simp_all add: parsed_ok_def)
  ultimately show ?thesis
    by (auto simp: compare_parsed_def version_key_def cmp_def)
qed

lemma digits_head: "list_all is_digit (c # cs) \<Longrightarrow> c \<noteq> CHR ''-'' \<and> c \<noteq> CHR ''+''"
  by auto

lemma Atoi_digits: "ds \<noteq> [] \<Longrightarrow> list_all is_digit ds \<Longrightarrow> Atoi ds = clamp_int (int (read_nat ds))"
  by (cases ds) (auto simp: Atoi_def dest: digits_head)

lemma natural_Atoi: "ds \<noteq> [] \<Longrightarrow> list_all is_digit ds \<Longrightarrow> natural (fst (Atoi ds))"
  by (simp add: Atoi_digits clamp_int_def natural_def min_int_def max_int_def)

lemma takeWhile_digits: "list_all is_digit (takeWhile is_digit s)"
  by (induction s) auto

lemma dev_group_digits: "dev_group r = Some d \<Longrightarrow> list_all is_digit d"
  by (auto simp: dev_group_def split: if_splits option.splits)

lemma version_groups_digits:
  assumes "version_groups v = Some (a, b, c, d)"
  shows "a \<noteq> [] \<and> b \<noteq> [] \<and> c \<noteq> [] \<and> list_all is_digit a \<and> list_all is_digit b \<and> list_all is_digit c
    \<and> list_all is_digit d"
  using assms
  by (auto simp: version_groups_def split_digits_def Let_def takeWhile_digits
    split: option.splits if_splits dest: dev_group_digits)

lemma natural_0 [simp]: "natural 0"
  by (simp add: natural_def max_int_def)

lemma parsed_of_ok: "version_groups v = Some m \<Longrightarrow> parsed_ok (parsed_of m)"
  by (cases m) (auto simp: parsed_of_def parsed_ok_def natural_Atoi dest!: version_groups_digits)

lemma parse_ok: "parse s v = Inr p \<Longrightarrow> parsed_ok p"
  by (auto simp: parse_def calverRe_def semverRe_def parsed_of_ok split: Scheme.splits option.splits if_splits)

lemma Compare_cmp:
  "parse s a = Inr pa \<Longrightarrow> parse s b = Inr pb \<Longrightarrow> Compare s a b = Inr (cmp (version_key pa) (version_key pb))"
  by (simp add: Compare_def compare_parsed_cmp parse_ok)

lemma IsNewer_less:
  "IsNewer s a b = Inr True \<longleftrightarrow>
     (\<exists>pa pb. parse s a = Inr pa \<and> parse s b = Inr pb \<and> version_key pa < version_key pb)"
  by (auto simp: IsNewer_def Compare_def compare_parsed_cmp parse_ok cmp_def split: sum.splits)

lemma IsNewer_not_less:
  "IsNewer s a b = Inr False \<longleftrightarrow>
     (\<exists>pa pb. parse s a = Inr pa \<and> parse s b = Inr pb \<and> version_key pb \<le> version_key pa)"
  by (auto simp: IsNewer_def Compare_def compare_parsed_cmp parse_ok cmp_def not_less split: sum.splits)


section \<open>Version text\<close>

definition version_text :: "string \<Rightarrow> string \<Rightarrow> string \<Rightarrow> string option \<Rightarrow> string" where
  "version_text a b c d = a @ ''.'' @ b @ ''.'' @ c @ (case d of None \<Rightarrow> [] | Some k \<Rightarrow> ''-dev.'' @ k)"

lemma takeWhile_run: "list_all P xs \<Longrightarrow> \<not> P y \<Longrightarrow> takeWhile P (xs @ y # ys) = xs"
  by (induction xs) auto

lemma dropWhile_run: "list_all P xs \<Longrightarrow> \<not> P y \<Longrightarrow> dropWhile P (xs @ y # ys) = y # ys"
  by (induction xs) auto

lemma all_digits_run: "list_all is_digit c \<Longrightarrow> takeWhile is_digit c = c \<and> dropWhile is_digit c = []"
  by (induction c) auto

lemma version_groups_text:
  assumes "list_all is_digit a" "list_all is_digit b" "list_all is_digit c" "a \<noteq> []" "b \<noteq> []" "c \<noteq> []"
    and "case d of None \<Rightarrow> True | Some k \<Rightarrow> k \<noteq> [] \<and> list_all is_digit k"
  shows "version_groups (version_text a b c d) = Some (a, b, c, case d of None \<Rightarrow> [] | Some k \<Rightarrow> k)"
proof (cases d)
  case None
  with assms show ?thesis
    by (simp add: version_groups_def version_text_def split_digits_def takeWhile_run dropWhile_run
      all_digits_run dev_group_def)
next
  case (Some k)
  with assms show ?thesis
    by (simp add: version_groups_def version_text_def split_digits_def takeWhile_run dropWhile_run
      dev_group_def)
qed

lemma show_nat_all: "list_all is_digit (show_nat n)"
  by (simp add: list_all_iff show_nat_digits)

lemma length_show_nat_le: "n < 10 ^ k \<Longrightarrow> 0 < k \<Longrightarrow> length (show_nat n) \<le> k"
proof (induction k arbitrary: n)
  case (Suc k)
  show ?case
  proof (cases "n < 10")
    case True
    then show ?thesis
      by (simp add: show_nat.simps [of n])
  next
    case False
    then have "0 < k"
      using Suc.prems(1) by (cases k) auto
    moreover have "n div 10 < 10 ^ k"
      using Suc.prems(1) by (simp add: less_mult_imp_div_less mult.commute)
    ultimately show ?thesis
      using False Suc.IH [of "n div 10"] by (simp add: show_nat.simps [of n])
  qed
qed simp

lemma length_show_nat_4:
  assumes "1000 \<le> y" "y < 10000"
  shows "length (show_nat y) = 4"
proof -
  have "\<not> y < 10" "\<not> y div 10 < 10" "\<not> y div 100 < 10" "y div 1000 < 10"
    using assms by (simp_all add: less_mult_imp_div_less div_less_iff_less_mult)
  then show ?thesis
    by (simp add: show_nat.simps [of y] show_nat.simps [of "y div 10"] show_nat.simps [of "y div 100"]
      show_nat.simps [of "y div 1000"] div_mult2_eq [symmetric])
qed

definition canonical :: "nat \<Rightarrow> nat \<Rightarrow> nat \<Rightarrow> nat option \<Rightarrow> string" where
  "canonical y m p d = version_text (show_nat y) (show_nat m) (show_nat p) (map_option show_nat d)"

lemma Atoi_small: "int n \<le> max_int \<Longrightarrow> fst (Atoi (show_nat n)) = int n"
  by (simp add: Atoi_show_nat clamp_int_def min_int_def)

lemma groups_canonical:
  "version_groups (canonical y m p d)
     = Some (show_nat y, show_nat m, show_nat p, case d of None \<Rightarrow> [] | Some k \<Rightarrow> show_nat k)"
  unfolding canonical_def
  by (subst version_groups_text) (auto simp: show_nat_all split: option.split)

lemma parsed_canonical:
  assumes "int y \<le> max_int" "int m \<le> max_int" "int p \<le> max_int" "\<forall>k. d = Some k \<longrightarrow> int k \<le> max_int"
  shows "parsed_of (show_nat y, show_nat m, show_nat p, case d of None \<Rightarrow> [] | Some k \<Rightarrow> show_nat k)
    = \<lparr>p_parts = [int y, int m, int p], p_stable = (d = None), p_dev = (case d of None \<Rightarrow> 0 | Some k \<Rightarrow> int k)\<rparr>"
  using assms by (cases d) (simp_all add: parsed_of_def Atoi_small)

text \<open>Canonical CalVer text reads back: a four-digit year, a month below 100, a patch number and
  an optional -dev counter within 64 bits are parsed to exactly those numbers, and the same text is
  a semver version with the same value.\<close>

theorem calver_roundtrip:
  assumes "1000 \<le> y" "y < 10000" "m < 100" "int p \<le> max_int" "\<forall>k. d = Some k \<longrightarrow> int k \<le> max_int"
  shows "parse SchemeCalVer (canonical y m p d) =
      Inr \<lparr>p_parts = [int y, int m, int p], p_stable = (d = None), p_dev = (case d of None \<Rightarrow> 0 | Some k \<Rightarrow> int k)\<rparr>
    \<and> parse SchemeSemver (CHR ''v'' # canonical y m p d) = parse SchemeCalVer (canonical y m p d)"
proof -
  have "length (show_nat m) \<le> 2"
    using assms(3) length_show_nat_le [of m 2] by simp
  moreover have "int y \<le> max_int" "int m \<le> max_int"
    using assms by (simp_all add: max_int_def)
  ultimately show ?thesis
    using assms parsed_canonical [of y m p d]
    by (simp add: parse_def calverRe_def semverRe_def groups_canonical length_show_nat_4)
qed

theorem calver_roundtrip_witness:
  "parse SchemeCalVer (canonical 2026 9 4 (Some 127)) =
      Inr \<lparr>p_parts = [2026, 9, 4], p_stable = False, p_dev = 127\<rparr>"
  using calver_roundtrip [of 2026 9 4 "Some 127"] by (simp add: max_int_def)

section \<open>The update check\<close>

lemma older_of_cases:
  "older_of cm n o1 = (if runsComponent n cm \<and> nodeVersion n cm \<noteq> []
     \<and> (o1 = [] \<or> IsNewer (c_scheme cm) (nodeVersion n cm) o1 = Inr True) then nodeVersion n cm else o1)"
  by (simp add: older_of_def Let_def)

text \<open>If what the loop ends with parses, so did everything it held on the way, and it is the least.\<close>

lemma installed_least:
  assumes "fold (older_of cm) ns o1 = r" "parse (c_scheme cm) r = Inr pr"
  shows "(o1 \<noteq> [] \<longrightarrow> (\<exists>po. parse (c_scheme cm) o1 = Inr po \<and> version_key pr \<le> version_key po)) \<and>
    (\<forall>n \<in> set ns. runsComponent n cm \<longrightarrow> nodeVersion n cm \<noteq> [] \<longrightarrow>
       (\<forall>pv. parse (c_scheme cm) (nodeVersion n cm) = Inr pv \<longrightarrow> version_key pr \<le> version_key pv))"
  using assms
proof (induction ns arbitrary: o1)
  case Nil
  then show ?case
    by simp
next
  case (Cons n ns)
  let ?v = "nodeVersion n cm"
  let ?o2 = "older_of cm n o1"
  have IH: "?o2 \<noteq> [] \<longrightarrow> (\<exists>po. parse (c_scheme cm) ?o2 = Inr po \<and> version_key pr \<le> version_key po)"
    "\<forall>n \<in> set ns. runsComponent n cm \<longrightarrow> nodeVersion n cm \<noteq> [] \<longrightarrow>
       (\<forall>pv. parse (c_scheme cm) (nodeVersion n cm) = Inr pv \<longrightarrow> version_key pr \<le> version_key pv)"
    using Cons.IH [of ?o2] Cons.prems by auto
  have old: "\<exists>po. parse (c_scheme cm) o1 = Inr po \<and> version_key pr \<le> version_key po" if "o1 \<noteq> []"
  proof (cases "?o2 = o1")
    case False
    then have "IsNewer (c_scheme cm) ?v o1 = Inr True" "?o2 = ?v" "?v \<noteq> []"
      using that by (auto simp: older_of_cases split: if_splits)
    then show ?thesis
      using IH(1) by (auto simp: IsNewer_less)
  qed (use that IH(1) in simp)
  have new: "version_key pr \<le> version_key pv"
    if "runsComponent n cm" "?v \<noteq> []" "parse (c_scheme cm) ?v = Inr pv" for pv
  proof (cases "o1 = [] \<or> IsNewer (c_scheme cm) ?v o1 = Inr True")
    case True
    then show ?thesis
      using that IH(1) by (simp add: older_of_cases)
  next
    case False
    then obtain po where "parse (c_scheme cm) o1 = Inr po" "version_key pr \<le> version_key po"
      using old by auto
    then show ?thesis
      using False that by (fastforce simp: IsNewer_less)
  qed
  from old new IH(2) show ?case
    by auto
qed

lemma compare_installed_green:
  "cs_status (compare_installed cm nodes cs) = StatusUpToDate \<longleftrightarrow>
     cs_installed cs \<noteq> [] \<and> IsNewer (c_scheme cm) (cs_installed cs) (cs_latest cs) = Inr False"
  by (auto simp: compare_installed_def Let_def split: sum.splits bool.splits)

lemma doubt_green:
  "cs_status (doubt_unconfirmed cm nodes cs) = StatusUpToDate \<longleftrightarrow>
     cs_status cs = StatusUpToDate \<and> unconfirmedNodes nodes cm = []"
  by (simp add: doubt_unconfirmed_def Let_def)

lemma attach_status [simp]: "cs_status (attach_artifact cm info cs) = cs_status cs"
  by (simp add: attach_artifact_def split: option.split Kind.split)

lemma checkOne_green:
  "cs_status (checkOne src ch cm nodes) = StatusUpToDate \<longleftrightarrow>
     (\<exists>info. src cm ch = Inr (Some info) \<and> installedVersion nodes cm \<noteq> [] \<and>
        IsNewer (c_scheme cm) (installedVersion nodes cm) (ri_version info) = Inr False \<and>
        unconfirmedNodes nodes cm = [])"
  by (auto simp: checkOne_def Let_def doubt_green compare_installed_green blank_status_def
    split: sum.splits option.splits)

text \<open>C38: A component reads up to date only if the release host named a latest release, every node
  that runs the component's image has a confirmed image version, and every one of them whose version
  parses is at or above that release.\<close>

theorem up_to_date_sound:
  assumes "cs_status (checkOne src ch cm nodes) = StatusUpToDate" "c_compare_field cm \<noteq> ''agent''"
  shows "\<exists>info pl. src cm ch = Inr (Some info) \<and> parse (c_scheme cm) (ri_version info) = Inr pl \<and>
    (\<forall>n \<in> set nodes. runsComponent n cm \<longrightarrow>
       n_confirmed_at n \<noteq> None \<and>
       (n_image_version n \<noteq> [] \<longrightarrow> (\<forall>pv. parse (c_scheme cm) (n_image_version n) = Inr pv \<longrightarrow> version_key pl \<le> version_key pv)))"
proof -
  from assms(1) obtain info where info: "src cm ch = Inr (Some info)"
      "IsNewer (c_scheme cm) (installedVersion nodes cm) (ri_version info) = Inr False"
      "unconfirmedNodes nodes cm = []"
    by (auto simp: checkOne_green)
  then obtain pi pl where p: "parse (c_scheme cm) (installedVersion nodes cm) = Inr pi"
      "parse (c_scheme cm) (ri_version info) = Inr pl" "version_key pl \<le> version_key pi"
    by (auto simp: IsNewer_not_less)
  have conf: "n_confirmed_at n \<noteq> None" if "n \<in> set nodes" "runsComponent n cm" for n
    using info(3) assms(2) that by (auto simp: unconfirmedNodes_def filter_empty_conv)
  have "version_key pl \<le> version_key pv"
    if "n \<in> set nodes" "runsComponent n cm" "n_image_version n \<noteq> []"
      "parse (c_scheme cm) (n_image_version n) = Inr pv" for n pv
    using installed_least [of cm nodes "[]" "installedVersion nodes cm" pi] p that assms(2) order_trans
    by (fastforce simp: installedVersion_def nodeVersion_def)
  with conf info(1) p(2) show ?thesis
    by blast
qed

definition sample_node :: "string \<Rightarrow> string \<Rightarrow> Node" where
  "sample_node i v = \<lparr>n_id = i, n_role = ''compute'', n_hostname = i, n_agent_version = [], n_image_version = v,
     n_confirmed_at = Some 5, n_architecture = ''amd64'', n_lan_ip = [], n_capabilities = [], n_metadata = [],
     n_storage = None, n_first_seen = 0, n_last_seen = 0, n_status = StatusUnset, n_mesh = None\<rparr>"

definition sample_release :: "string \<Rightarrow> ReleaseInfo" where
  "sample_release v = \<lparr>ri_version = v, ri_manifest = \<lparr>mf_version = v, mf_artifacts = [], mf_security_floor = []\<rparr>\<rparr>"

theorem up_to_date_sound_witness:
  "{n \<in> {sample_node ''c1'' ''2026.09.1''}. runsComponent n os_component \<and> n_confirmed_at n = None} = {}"
proof -
  have "cs_status (checkOne (\<lambda>_ _. Inr (Some (sample_release ''2026.09.1''))) ''stable'' os_component
      [sample_node ''c1'' ''2026.09.1'']) = StatusUpToDate"
    by code_simp
  from up_to_date_sound [OF this] show ?thesis
    by (auto simp: os_component_def)
qed

text \<open>The check depends on the order of the nodes when one of them reports a version that does
  not parse: seen first it makes the component unknown, seen after a readable one it is passed over
  and the component reads up to date.\<close>

theorem unreadable_version_order:
  "cs_status (checkOne (\<lambda>_ _. Inr (Some (sample_release ''2026.09.1''))) ''stable'' os_component
       [sample_node ''c1'' ''2026.09.1'', sample_node ''c2'' ''nightly'']) = StatusUpToDate \<and>
   cs_status (checkOne (\<lambda>_ _. Inr (Some (sample_release ''2026.09.1''))) ''stable'' os_component
       [sample_node ''c2'' ''nightly'', sample_node ''c1'' ''2026.09.1'']) = StatusUnknown"
  by code_simp

section \<open>Signed manifests\<close>

lemma required_iff:
  "SignedManifestRequired cm v \<longleftrightarrow> c_signed_from cm \<noteq> [] \<and>
     (\<exists>pv pf. parse (c_scheme cm) v = Inr pv \<and> parse (c_scheme cm) (c_signed_from cm) = Inr pf \<and>
        version_key pf \<le> version_key pv)"
  by (auto simp: SignedManifestRequired_def Compare_def compare_parsed_cmp parse_ok cmp_def not_less
    split: sum.splits)



section \<open>The security floor\<close>

definition watch_ok :: "security_watch \<Rightarrow> bool" where
  "watch_ok w \<longleftrightarrow> sw_comp w = os_component \<and>
     (sw_floor w = [] \<or> (\<exists>p. parse (c_scheme (sw_comp w)) (sw_floor w) = Inr p))"

lemma watch_ok_new: "NewSecurityWatch ch = Some w \<Longrightarrow> watch_ok w"
  by (auto simp: NewSecurityWatch_def watch_ok_def ComponentByID_def Components_def os_component_def
    split: option.splits)

lemma watch_ok_Refresh: "watch_ok w \<Longrightarrow> watch_ok (snd (Refresh src ts w))"
  by (auto simp: Refresh_def watch_ok_def Let_def split: sum.splits option.splits)

text \<open>One life of the watch: created, then refreshed against whatever the release host answers.\<close>

definition watch_run :: "string \<Rightarrow> ((Component \<Rightarrow> string \<Rightarrow> string + ReleaseInfo option) \<times> gotime) list \<Rightarrow> security_watch option" where
  "watch_run ch reads = map_option (fold (\<lambda>(src, ts) w. snd (Refresh src ts w)) reads) (NewSecurityWatch ch)"

lemma watch_run_ok: "watch_run ch reads = Some w \<Longrightarrow> watch_ok w"
proof -
  have "watch_ok u \<Longrightarrow> watch_ok (fold (\<lambda>(src, ts) w. snd (Refresh src ts w)) reads u)" for u
    by (induction reads arbitrary: u) (auto simp: watch_ok_Refresh)
  then show "watch_run ch reads = Some w \<Longrightarrow> watch_ok w"
    by (auto simp: watch_run_def dest: watch_ok_new)
qed

lemma in_laggingNodes:
  "n \<in> set nodes \<Longrightarrow> runsComponent n cm \<Longrightarrow> nodeVersion n cm \<noteq> [] \<Longrightarrow>
   parse (c_scheme cm) (nodeVersion n cm) = Inr pv \<Longrightarrow> parse (c_scheme cm) fl = Inr pf \<Longrightarrow>
   version_key pv < version_key pf \<Longrightarrow> with_version n (nodeVersion n cm) \<in> set (laggingNodes nodes cm fl)"
  by (auto simp: laggingNodes_def IsNewer_less)

text \<open>The security alert misses no node: after any sequence of manifest reads, failed ones
  included, while a floor is known every node that runs the OS at a version below it is named in the
  alert, and so is every one whose version is unconfirmed.\<close>

theorem security_alert_complete:
  assumes "watch_run ch reads = Some w" "sw_floor w \<noteq> []" "n \<in> set nodes" "runsComponent n os_component"
    and "n_confirmed_at n = None \<or>
      (\<exists>pv pf. parse SchemeCalVer (n_image_version n) = Inr pv \<and> parse SchemeCalVer (sw_floor w) = Inr pf \<and>
         version_key pv < version_key pf)"
  shows "\<exists>a. Alerts w (Inr nodes :: 'e + Node list) = Inr (Some a) \<and> sa_release a = sw_release w \<and>
    (\<exists>v. with_version n v \<in> set (sa_lagging a) \<union> set (sa_unconfirmed a))"
proof -
  have w: "sw_comp w = os_component"
    using watch_run_ok [OF assms(1)] by (simp add: watch_ok_def)
  have os: "c_scheme os_component = SchemeCalVer" "c_compare_field os_component = ''image''"
    by (simp_all add: os_component_def)
  let ?lag = "laggingNodes nodes os_component (sw_floor w)" and ?un = "unconfirmedNodes nodes os_component"
  have "\<exists>v. with_version n v \<in> set ?lag \<union> set ?un"
    using assms(5)
  proof
    assume "n_confirmed_at n = None"
    then have "\<exists>v. with_version n v \<in> set ?un"
      using assms(3,4) by (auto simp: unconfirmedNodes_def os)
    then show ?thesis
      by blast
  next
    assume "\<exists>pv pf. parse SchemeCalVer (n_image_version n) = Inr pv \<and> parse SchemeCalVer (sw_floor w) = Inr pf \<and>
         version_key pv < version_key pf"
    then obtain pv pf where p: "parse SchemeCalVer (n_image_version n) = Inr pv"
        "parse SchemeCalVer (sw_floor w) = Inr pf" "version_key pv < version_key pf"
      by blast
    moreover have "n_image_version n \<noteq> []"
      using p(1) by (auto simp: parse_def calverRe_def version_groups_def split_digits_def)
    ultimately have "with_version n (nodeVersion n os_component) \<in> set ?lag"
      using assms(3,4) by (intro in_laggingNodes) (auto simp: os nodeVersion_def)
    then show ?thesis
      by blast
  qed
  moreover from this have "\<not> (?lag = [] \<and> ?un = [])"
    by auto
  ultimately show ?thesis
    using assms(2) w by (simp add: Alerts_def Let_def)
qed

definition floor_source :: "Component \<Rightarrow> string \<Rightarrow> string + ReleaseInfo option" where
  "floor_source cm ch = Inr (Some \<lparr>ri_version = ''2026.09.2'',
     ri_manifest = \<lparr>mf_version = ''2026.09.2'', mf_artifacts = [], mf_security_floor = ''2026.09.2-dev.3''\<rparr>\<rparr>)"

theorem security_alert_complete_witness:
  "{a. Alerts (the (watch_run ''stable'' [(floor_source, 7), (\<lambda>_ _. Inl ''timeout'', 9)]))
      (Inr [sample_node ''c1'' ''2026.09.1''] :: unit + Node list) = Inr (Some a)} \<noteq> {}"
proof -
  let ?run = "watch_run ''stable'' [(floor_source, 7), (\<lambda>_ _. Inl ''timeout'', 9)]"
  let ?n = "sample_node ''c1'' ''2026.09.1''"
  have r: "?run \<noteq> None" "sw_floor (the ?run) = ''2026.09.2-dev.3''" "runsComponent ?n os_component"
    by code_simp+
  then have w: "?run = Some (the ?run)" "sw_floor (the ?run) \<noteq> []" "?n \<in> set [?n]"
    by auto
  have "\<exists>pv pf. parse SchemeCalVer (n_image_version ?n) = Inr pv \<and> parse SchemeCalVer (sw_floor (the ?run)) = Inr pf \<and>
      version_key pv < version_key pf"
  proof -
    have "IsNewer SchemeCalVer (n_image_version ?n) ''2026.09.2-dev.3'' = Inr True"
      by code_simp
    then show ?thesis
      by (simp add: IsNewer_less r(2))
  qed
  from security_alert_complete [OF w r(3) disjI2 [OF this], where ?'e = unit] show ?thesis
    by blast
qed

end
