(* ===== verification/Update_Knobs.thy ===== *)
theory Update_Knobs
  imports Inventory Go_Num
begin

text \<open>
  The size-relative knobs of a fleet update (\<^verbatim>\<open>proto/intorstring.go\<close>, and the two rules of
  \<^verbatim>\<open>proto/updates.go\<close> that turn a knob into a count for one tier).  A JSON document is the value of
  type \<open>json\<close> it denotes; Go's \<^verbatim>\<open>int\<close> is an integer that \<open>wrap64\<close> keeps in range.
\<close>

section \<open>IntOrString\<close>

record IntOrString =
  Value :: int
  Percent :: bool

definition Int_knob :: "int \<Rightarrow> IntOrString" where
  "Int_knob v = \<lparr>Value = v, Percent = False\<rparr>"

definition Percent_knob :: "int \<Rightarrow> IntOrString" where
  "Percent_knob v = \<lparr>Value = v, Percent = True\<rparr>"

definition Resolve :: "IntOrString \<Rightarrow> int \<Rightarrow> int" where
  "Resolve v population =
     (if \<not> Percent v then Value v
      else if population \<le> 0 then 0
      else go_quot (wrap64 (Value v * population)) 100)"

definition String_knob :: "IntOrString \<Rightarrow> string" where
  "String_knob v = (if Percent v then Itoa (Value v) @ ''%'' else Itoa (Value v))"

datatype knob_error = KnobNegative IntOrString | KnobOver100 IntOrString

definition Validate_knob :: "IntOrString \<Rightarrow> knob_error option" where
  "Validate_knob v =
     (if Value v < 0 then Some (KnobNegative v)
      else if Percent v \<and> Value v > 100 then Some (KnobOver100 v)
      else None)"

definition MarshalJSON :: "IntOrString \<Rightarrow> json" where
  "MarshalJSON v = (if Percent v then JStr (String_knob v) else JNum (Value v))"

datatype unmarshal_error = NotANumber json | NotNumberOrPercent string

text \<open>
  A document that does not start with a quote is decoded as an \<^verbatim>\<open>int\<close>: \<^verbatim>\<open>null\<close> leaves the zero
  value, a number outside 64 bits and every other kind of value is an error.
\<close>

definition json_int :: "json \<Rightarrow> int option" where
  "json_int j = (case j of JNull \<Rightarrow> Some 0 | JNum n \<Rightarrow> (if in_int n then Some n else None) | _ \<Rightarrow> None)"

definition trim_percent :: "string \<Rightarrow> string" where
  "trim_percent s = (if has_suffix ''%'' s then butlast s else s)"

definition UnmarshalJSON :: "json \<Rightarrow> unmarshal_error + IntOrString" where
  "UnmarshalJSON j = (case j of
     JStr raw \<Rightarrow>
       (let s = trim_space raw; percent = has_suffix ''%'' s
        in case Atoi (trim_percent s) of
             (n, None) \<Rightarrow> Inr \<lparr>Value = n, Percent = percent\<rparr>
           | (n, Some e) \<Rightarrow> Inl (NotNumberOrPercent s))
   | _ \<Rightarrow> (case json_int j of None \<Rightarrow> Inl (NotANumber j) | Some n \<Rightarrow> Inr (Int_knob n)))"

section \<open>Counts for one tier\<close>

definition DefaultMaxInFlight :: IntOrString where "DefaultMaxInFlight = Int_knob 4"
definition DefaultMaxFailures :: IntOrString where "DefaultMaxFailures = Percent_knob 15"
definition UnlimitedFailures :: int where "UnlimitedFailures = 0"

definition ClampMaxInFlight :: "int \<Rightarrow> int \<Rightarrow> int" where
  "ClampMaxInFlight k tierSize =
     (let ceiling = tierSize - 1; k1 = (if k > ceiling then ceiling else k)
      in if k1 < 1 then 1 else k1)"

definition ResolveMaxFailures :: "IntOrString \<Rightarrow> int \<Rightarrow> int" where
  "ResolveMaxFailures v tierSize =
     (if \<not> Percent v then Value v
      else let n = Resolve v tierSize in if n > 0 then n else 1)"

section \<open>Lemmas\<close>

lemma has_suffix_percent: "has_suffix ''%'' s \<longleftrightarrow> s \<noteq> [] \<and> last s = CHR ''%''"
  by (cases s rule: rev_cases) (auto simp: has_suffix_def)

lemma Itoa_no_percent: "\<not> has_suffix ''%'' (Itoa n)"
  using Itoa_chars [of "last (Itoa n)" n] by (auto simp: has_suffix_percent)

lemma knob_char_not_space:
  "is_digit c \<or> c = CHR ''-'' \<or> c = CHR ''%'' \<Longrightarrow> \<not> is_space c"
  by (auto simp: is_space_def is_digit_def less_eq_char_def)

lemma trim_space_id: "(\<And>c. c \<in> set s \<Longrightarrow> \<not> is_space c) \<Longrightarrow> trim_space s = s"
proof -
  assume a: "\<And>c. c \<in> set s \<Longrightarrow> \<not> is_space c"
  then have "dropWhile is_space s = s" "dropWhile is_space (rev s) = rev s"
    by (auto simp: dropWhile_eq_self_iff hd_rev)
  then show ?thesis
    by (simp add: trim_space_def)
qed

lemma String_knob_chars: "c \<in> set (String_knob v) \<Longrightarrow> \<not> is_space c"
  using Itoa_chars [of c "Value v"] knob_char_not_space [of c]
  by (auto simp: String_knob_def split: if_splits)

lemma trim_String_knob [simp]: "trim_space (String_knob v) = String_knob v"
  by (rule trim_space_id) (rule String_knob_chars)

lemma unmarshal_string:
  assumes "in_int (Value v)"
  shows "UnmarshalJSON (JStr (String_knob v)) = Inr v"
proof (cases "Percent v")
  case True
  then have "trim_percent (String_knob v) = Itoa (Value v)" "has_suffix ''%'' (String_knob v)"
    by (simp_all add: String_knob_def trim_percent_def has_suffix_percent)
  with True assms show ?thesis
    by (simp add: UnmarshalJSON_def Let_def Atoi_Itoa)
next
  case False
  then have "trim_percent (String_knob v) = Itoa (Value v)" "\<not> has_suffix ''%'' (String_knob v)"
    using Itoa_no_percent [of "Value v"] by (simp_all add: String_knob_def trim_percent_def)
  with False assms show ?thesis
    by (simp add: UnmarshalJSON_def Let_def Atoi_Itoa)
qed

lemma Resolve_percent:
  assumes "Percent v" "0 \<le> Value v" "Value v \<le> 100" "0 < t" "t \<le> 2 ^ 32"
  shows "Resolve v t = Value v * t div 100"
proof -
  have "0 \<le> Value v * t" "Value v * t \<le> 100 * 2 ^ 32"
    using assms mult_mono [of "Value v" 100 t "2 ^ 32"] by auto
  then have "in_int (Value v * t)" "Value v * t \<le> max_int"
    by (simp_all add: in_int_def max_int_def min_int_def)
  with \<open>0 \<le> Value v * t\<close> show ?thesis
    using assms by (simp add: Resolve_def go_quot_nonneg)
qed

lemma ClampMaxInFlight_bounds: "1 \<le> ClampMaxInFlight k t" "ClampMaxInFlight k t \<le> max 1 (t - 1)"
  by (simp_all add: ClampMaxInFlight_def Let_def)

lemma ClampMaxInFlight_alt: "ClampMaxInFlight k t = max 1 (min k (t - 1))"
  by (simp add: ClampMaxInFlight_def Let_def)

lemma ResolveMaxFailures_pos: "Percent v \<Longrightarrow> 1 \<le> ResolveMaxFailures v t"
  by (simp add: ResolveMaxFailures_def Let_def)

end
