(* ===== verification/Update_Store.thy ===== *)
theory Update_Store
  imports Prelude Job_Store
begin

text \<open>
  The update store (\<^verbatim>\<open>api/internal/updater/{types,store,schema}.go\<close>): the table of staged bundles and
  the table of per-node update rows.  As in the job ledger a statement can fail: \<open>us_faults\<close> lists
  the outcomes of the coming statements, and a statement that meets no fault still fails when it
  violates a constraint of the schema.  An update row's error column is the value its text is
  formatted from.
\<close>

section \<open>Rows\<close>

record Bundle =
  b_sha256 :: string
  b_version :: string
  b_compatible :: string
  b_architecture :: string
  b_description :: string
  b_build_date :: string
  b_size_bytes :: int
  b_signed_by :: string
  b_storage_path :: string
  b_uploaded_at :: gotime
  b_uploaded_by :: string

type_synonym UpdateSlot = string

abbreviation SlotUnknown :: UpdateSlot where "SlotUnknown \<equiv> ''unknown''"

datatype NodeUpdateStatus =
    NodeUpdateInProgress | NodeUpdateCommitted | NodeUpdateRolledBack | NodeUpdateFailed
  | NodeUpdateFallenBack

datatype mark_bad_error = MarkBadUndelivered string | MarkBadUnreadable | MarkBadRejected string

datatype update_note =
    NoNote
  | NoteJobError err
  | NoteNoOutcome
  | NoteNoOutcomeTerminal
  | NoteBootloaderRolledBack
  | NoteUnhealthy string
  | NoteUnhealthyNotRolledBack string mark_bad_error
  | NoteFellBack string string

record NodeUpdate =
  u_job :: string
  u_node :: string
  u_bundle :: string
  u_from_slot :: UpdateSlot
  u_to_slot :: UpdateSlot
  u_from_version :: string
  u_to_version :: string
  u_unverified_boot :: bool
  u_unverified_version :: bool
  u_status :: NodeUpdateStatus
  u_started_at :: gotime
  u_finished_at :: "gotime option"
  u_error :: update_note

record update_store =
  us_bundles :: "Bundle list"
  us_updates :: "NodeUpdate list"
  us_faults :: "bool list"

datatype us_error = UsDb | UsConstraint | UsNoRows

definition us_fault :: "update_store \<Rightarrow> bool \<times> update_store" where
  "us_fault s = (case us_faults s of [] \<Rightarrow> (False, s) | b # bs \<Rightarrow> (b, s\<lparr>us_faults := bs\<rparr>))"

definition us_query :: "(update_store \<Rightarrow> 'a) \<Rightarrow> update_store \<Rightarrow> (us_error + 'a) \<times> update_store" where
  "us_query f s = (let (bad, s1) = us_fault s in if bad then (Inl UsDb, s1) else (Inr (f s1), s1))"

definition us_exec :: "(update_store \<Rightarrow> us_error + update_store) \<Rightarrow> update_store \<Rightarrow> us_error option \<times> update_store" where
  "us_exec f s = (let (bad, s1) = us_fault s in
     if bad then (Some UsDb, s1)
     else case f s1 of Inl e \<Rightarrow> (Some e, s1) | Inr s2 \<Rightarrow> (None, s2))"

section \<open>Bundles\<close>

definition CreateBundle :: "Bundle \<Rightarrow> update_store \<Rightarrow> us_error option \<times> update_store" where
  "CreateBundle b = us_exec (\<lambda>s.
     if b_sha256 b \<in> b_sha256 ` set (us_bundles s) then Inl UsConstraint
     else Inr (s\<lparr>us_bundles := us_bundles s @ [b]\<rparr>))"

definition GetBundle :: "string \<Rightarrow> update_store \<Rightarrow> (us_error + Bundle option) \<times> update_store" where
  "GetBundle sha = us_query (\<lambda>s. sql_first (\<lambda>b. b_sha256 b = sha) (us_bundles s))"

definition ListBundles :: "update_store \<Rightarrow> (us_error + Bundle list) \<times> update_store" where
  "ListBundles = us_query (\<lambda>s. sql_order (\<lambda>b. - b_uploaded_at b) (us_bundles s))"

definition DeleteBundle :: "string \<Rightarrow> update_store \<Rightarrow> us_error option \<times> update_store" where
  "DeleteBundle sha = us_exec (\<lambda>s.
     if sha \<notin> b_sha256 ` set (us_bundles s) then Inl UsNoRows
     else Inr (s\<lparr>us_bundles := filter (\<lambda>b. b_sha256 b \<noteq> sha) (us_bundles s)\<rparr>))"

section \<open>Update history\<close>

definition CreateNodeUpdate :: "NodeUpdate \<Rightarrow> update_store \<Rightarrow> us_error option \<times> update_store" where
  "CreateNodeUpdate u = us_exec (\<lambda>s.
     if u_job u \<in> u_job ` set (us_updates s) then Inl UsConstraint
     else Inr (s\<lparr>us_updates := us_updates s @ [u\<lparr>u_unverified_boot := False,
       u_unverified_version := False, u_finished_at := None, u_error := NoNote\<rparr>]\<rparr>))"

definition UpdateNodeUpdate :: "string \<Rightarrow> NodeUpdateStatus \<Rightarrow> UpdateSlot \<Rightarrow> string \<Rightarrow> update_note \<Rightarrow> gotime
    \<Rightarrow> update_store \<Rightarrow> us_error option \<times> update_store" where
  "UpdateNodeUpdate job st slot ver note ts = us_exec (\<lambda>s. Inr (s\<lparr>us_updates :=
     sql_update (\<lambda>u. u_job u = job)
       (\<lambda>u. u\<lparr>u_status := st, u_to_slot := slot, u_to_version := ver, u_error := note, u_finished_at := Some ts\<rparr>)
       (us_updates s)\<rparr>))"

definition fallen_target :: "string \<Rightarrow> NodeUpdate \<Rightarrow> bool" where
  "fallen_target job u \<longleftrightarrow> u_job u = job \<and> u_status u = NodeUpdateCommitted"

definition MarkNodeUpdateFallenBack :: "string \<Rightarrow> update_note \<Rightarrow> update_store \<Rightarrow> (us_error + bool) \<times> update_store" where
  "MarkNodeUpdateFallenBack job note s = (let (bad, s1) = us_fault s in
     if bad then (Inl UsDb, s1)
     else (Inr (sql_select (fallen_target job) (us_updates s1) \<noteq> []),
           s1\<lparr>us_updates := sql_update (fallen_target job)
             (\<lambda>u. u\<lparr>u_status := NodeUpdateFallenBack, u_error := note\<rparr>) (us_updates s1)\<rparr>))"

definition SetNodeUpdateVerifyGaps :: "string \<Rightarrow> bool \<Rightarrow> bool \<Rightarrow> update_store \<Rightarrow> us_error option \<times> update_store" where
  "SetNodeUpdateVerifyGaps job boot version = us_exec (\<lambda>s. Inr (s\<lparr>us_updates :=
     sql_update (\<lambda>u. u_job u = job) (\<lambda>u. u\<lparr>u_unverified_boot := boot, u_unverified_version := version\<rparr>)
       (us_updates s)\<rparr>))"

text \<open>
  \<^verbatim>\<open>COALESCE(NULLIF(to_version, ''), NULLIF(:to_version, ''))\<close> is NULL when both are empty, and
  the column is \<^verbatim>\<open>NOT NULL\<close>: the whole statement is then refused.
\<close>

definition SetNodeUpdateSlots :: "string \<Rightarrow> UpdateSlot \<Rightarrow> UpdateSlot \<Rightarrow> string \<Rightarrow> string \<Rightarrow> update_store
    \<Rightarrow> us_error option \<times> update_store" where
  "SetNodeUpdateSlots job from to fromVersion toVersion = us_exec (\<lambda>s.
     if toVersion = [] \<and> (\<exists>u \<in> set (us_updates s). u_job u = job \<and> u_to_version u = [])
     then Inl UsConstraint
     else Inr (s\<lparr>us_updates := sql_update (\<lambda>u. u_job u = job)
       (\<lambda>u. u\<lparr>u_from_slot := from, u_to_slot := to,
              u_from_version := (if fromVersion = [] then u_from_version u else fromVersion),
              u_to_version := (if u_to_version u = [] then toVersion else u_to_version u)\<rparr>)
       (us_updates s)\<rparr>))"

definition GetNodeUpdate :: "string \<Rightarrow> update_store \<Rightarrow> (us_error + NodeUpdate option) \<times> update_store" where
  "GetNodeUpdate job = us_query (\<lambda>s. sql_first (\<lambda>u. u_job u = job) (us_updates s))"

definition ListInProgressNodeUpdates :: "update_store \<Rightarrow> (us_error + NodeUpdate list) \<times> update_store" where
  "ListInProgressNodeUpdates = us_query (\<lambda>s.
     sql_order u_started_at (sql_select (\<lambda>u. u_status u = NodeUpdateInProgress) (us_updates s)))"

definition ListNodeUpdates :: "string \<Rightarrow> int \<Rightarrow> update_store \<Rightarrow> (us_error + NodeUpdate list) \<times> update_store" where
  "ListNodeUpdates node limit = us_query (\<lambda>s.
     take (nat (if limit \<le> 0 then 50 else limit))
       (sql_order (\<lambda>u. - u_started_at u)
         (if node = [] then us_updates s else sql_select (\<lambda>u. u_node u = node) (us_updates s))))"

definition latest_of :: "string \<Rightarrow> NodeUpdate list \<Rightarrow> NodeUpdate option" where
  "latest_of node us = (case sql_order (\<lambda>u. - u_started_at u) (sql_select (\<lambda>u. u_node u = node) us) of
     [] \<Rightarrow> None | u # _ \<Rightarrow> Some u)"

definition LatestNodeUpdate :: "string \<Rightarrow> update_store \<Rightarrow> (us_error + NodeUpdate option) \<times> update_store" where
  "LatestNodeUpdate node = us_query (\<lambda>s. latest_of node (us_updates s))"

section \<open>What a statement changes\<close>

lemma us_fault_same [simp]:
  "us_bundles (snd (us_fault s)) = us_bundles s" "us_updates (snd (us_fault s)) = us_updates s"
  by (simp_all add: us_fault_def split: list.split)

lemma us_query_same [simp]:
  "us_bundles (snd (us_query f s)) = us_bundles s" "us_updates (snd (us_query f s)) = us_updates s"
  by (simp_all add: us_query_def case_prod_unfold Let_def)

lemma us_query_Inr:
  "us_query f s = (Inr x, s') \<Longrightarrow> us_bundles s' = us_bundles s \<and> us_updates s' = us_updates s \<and> x = f s'"
  by (auto simp: us_query_def case_prod_unfold Let_def split: if_splits)

lemma us_exec_cases:
  assumes "us_exec f s = (r, s')"
  obtains (bad) e where "r = Some e" "s' = snd (us_fault s)"
    | (ok) "r = None" "f (snd (us_fault s)) = Inr s'"
  using assms
  by (auto simp: us_exec_def case_prod_unfold Let_def split: if_splits sum.splits)

text \<open>The keys are unique, and every statement keeps them so.\<close>

definition us_inv :: "update_store \<Rightarrow> bool" where
  "us_inv s \<longleftrightarrow> distinct (map b_sha256 (us_bundles s)) \<and> distinct (map u_job (us_updates s))"

lemma us_fault_inv [simp]: "us_inv (snd (us_fault s)) = us_inv s"
  by (simp add: us_inv_def)

lemma us_exec_inv:
  assumes "us_inv s" "\<And>t t'. us_inv t \<Longrightarrow> f t = Inr t' \<Longrightarrow> us_inv t'"
  shows "us_inv (snd (us_exec f s))"
proof -
  obtain r s' where e: "us_exec f s = (r, s')"
    by fastforce
  from e have "us_inv s'"
  proof (cases rule: us_exec_cases)
    case bad
    with assms(1) show ?thesis
      by simp
  next
    case ok
    show ?thesis
      using assms(1) by (intro assms(2) [OF _ ok(2)]) simp
  qed
  with e show ?thesis
    by simp
qed

lemma sql_update_inv:
  "us_inv s \<Longrightarrow> (\<And>u. P u \<Longrightarrow> u_job (f u) = u_job u) \<Longrightarrow> us_inv (s\<lparr>us_updates := sql_update P f (us_updates s)\<rparr>)"
  by (simp add: us_inv_def map_sql_update)

lemma CreateBundle_inv: "us_inv s \<Longrightarrow> us_inv (snd (CreateBundle b s))"
  unfolding CreateBundle_def by (erule us_exec_inv) (auto simp: us_inv_def split: if_splits)

lemma DeleteBundle_inv: "us_inv s \<Longrightarrow> us_inv (snd (DeleteBundle sha s))"
  unfolding DeleteBundle_def
  by (erule us_exec_inv) (auto simp: us_inv_def distinct_map_filter split: if_splits)

lemma CreateNodeUpdate_inv: "us_inv s \<Longrightarrow> us_inv (snd (CreateNodeUpdate u s))"
  unfolding CreateNodeUpdate_def by (erule us_exec_inv) (auto simp: us_inv_def split: if_splits)

lemma UpdateNodeUpdate_inv: "us_inv s \<Longrightarrow> us_inv (snd (UpdateNodeUpdate job st slot ver note ts s))"
  unfolding UpdateNodeUpdate_def by (erule us_exec_inv) (auto intro!: sql_update_inv)

lemma SetNodeUpdateVerifyGaps_inv: "us_inv s \<Longrightarrow> us_inv (snd (SetNodeUpdateVerifyGaps job b v s))"
  unfolding SetNodeUpdateVerifyGaps_def by (erule us_exec_inv) (auto intro!: sql_update_inv)

lemma SetNodeUpdateSlots_inv: "us_inv s \<Longrightarrow> us_inv (snd (SetNodeUpdateSlots job f t fv tv s))"
  unfolding SetNodeUpdateSlots_def
  by (erule us_exec_inv) (auto intro!: sql_update_inv split: if_splits)

lemma MarkNodeUpdateFallenBack_inv: "us_inv s \<Longrightarrow> us_inv (snd (MarkNodeUpdateFallenBack job note s))"
  unfolding MarkNodeUpdateFallenBack_def Let_def case_prod_unfold
  by (auto simp: us_inv_def map_sql_update)

lemmas us_inv_intros = CreateBundle_inv DeleteBundle_inv CreateNodeUpdate_inv UpdateNodeUpdate_inv
  SetNodeUpdateVerifyGaps_inv SetNodeUpdateSlots_inv MarkNodeUpdateFallenBack_inv

end
