(* ===== verification/Fleet_Plan.thy ===== *)
theory Fleet_Plan
  imports Releases Update_Knobs Update_Store
begin

text \<open>
  The plan of a fleet update (\<^verbatim>\<open>api/internal/updater/system_jobs.go\<close>, first half, with the wire types of
  \<^verbatim>\<open>proto/updates.go\<close>): which nodes of the inventory are updated, in which order, with which bundle,
  which ones are left out and why, and which node of each tier and architecture is the canary.
  \<open>clock n\<close> is the reading of the clock taken when the loop reaches node \<open>n\<close>.  Texts are the values
  they are formatted from.
\<close>

section \<open>Wire types\<close>

datatype SkipReason = SkipExcluded | SkipOffline | SkipFirewallSKU | SkipNoArtifactForArch

definition Stranded :: "SkipReason \<Rightarrow> bool" where
  "Stranded r \<longleftrightarrow> r = SkipNoArtifactForArch"

datatype SkipDetail =
    DetailExcluded
  | DetailNotOnline
  | DetailUnknownArch string
  | DetailNeedsBundle string string
  | DetailNeedsComponent string string

record SkippedNode =
  sk_node :: string
  sk_reason :: SkipReason
  sk_detail :: SkipDetail
  sk_tier :: NodeRole
  sk_compatible :: string

record SystemUpdateSpec =
  sp_version :: string
  sp_component :: string
  sp_bundle :: string
  sp_exclude :: "string list"
  sp_canaries :: "string list"
  sp_max_in_flight :: "IntOrString option"
  sp_max_failures :: "IntOrString option"
  sp_soak :: int

record plannedTarget =
  t_node :: string
  t_bundle :: string
  t_compatible :: string
  t_tier :: NodeRole
  t_canary :: bool

record systemPlanState =
  ps_bundle :: string
  ps_version :: string
  ps_component :: string
  ps_targets :: "plannedTarget list"
  ps_skipped :: "SkippedNode list"
  ps_self :: string

definition targetIDs :: "systemPlanState \<Rightarrow> string list" where
  "targetIDs s = map t_node (ps_targets s)"

definition canaryIDs :: "systemPlanState \<Rightarrow> string list" where
  "canaryIDs s = map t_node (filter t_canary (ps_targets s))"

definition stranded :: "systemPlanState \<Rightarrow> SkippedNode list" where
  "stranded s = filter (\<lambda>k. Stranded (sk_reason k)) (ps_skipped s)"

section \<open>Which nodes\<close>

text \<open>\<^verbatim>\<open>computeStatus\<close> of the updater, with its thresholds written out in milliseconds.\<close>

definition computeStatus :: "gotime \<Rightarrow> gotime \<Rightarrow> NodeStatus" where
  "computeStatus ts seen = (let gap = ts - seen in
     if gap < 30 * 1000 then StatusOnline
     else if gap < 2 * 60 * 1000 then StatusStale else StatusOffline)"

definition expectedCompatible :: "Node \<Rightarrow> string option" where
  "expectedCompatible n =
     (if n_role n = ''firewall'' then Some FirewallCompatible else ArchCompatible (n_architecture n))"

definition skuMismatchReason :: "string \<Rightarrow> string \<Rightarrow> SkipReason" where
  "skuMismatchReason want bundleCompat =
     (if want = FirewallCompatible \<or> bundleCompat = FirewallCompatible then SkipFirewallSKU
      else SkipNoArtifactForArch)"

text \<open>A role the map does not hold has rank 0, the zero value of a Go map lookup.\<close>

definition roleRank :: "NodeRole \<Rightarrow> nat" where
  "roleRank r = (if r = ''storage'' then 1 else if r = ''controlplane'' then 2 else if r = ''firewall'' then 3 else 0)"

definition skip :: "Node \<Rightarrow> SkipReason \<Rightarrow> SkipDetail \<Rightarrow> SkippedNode" where
  "skip n r d = \<lparr>sk_node = n_id n, sk_reason = r, sk_detail = d, sk_tier = n_role n,
     sk_compatible = (case expectedCompatible n of None \<Rightarrow> [] | Some w \<Rightarrow> w)\<rparr>"

text \<open>The body of the loop of \<^verbatim>\<open>planTargets\<close>: the skip it records, or nothing for a target.\<close>

definition plan_node :: "(Node \<Rightarrow> gotime) \<Rightarrow> string list \<Rightarrow> string \<Rightarrow> Node \<Rightarrow> SkippedNode option" where
  "plan_node clock exclude bundleCompat n =
     (if n_id n \<in> set exclude then Some (skip n SkipExcluded DetailExcluded)
      else if computeStatus (clock n) (n_last_seen n) \<noteq> StatusOnline then Some (skip n SkipOffline DetailNotOnline)
      else if bundleCompat \<noteq> [] then
        (case expectedCompatible n of
           None \<Rightarrow> Some (skip n SkipNoArtifactForArch (DetailUnknownArch (n_architecture n)))
         | Some want \<Rightarrow>
             if want \<noteq> bundleCompat
             then Some (skip n (skuMismatchReason want bundleCompat) (DetailNeedsBundle want bundleCompat))
             else None)
      else None)"

definition plan_key :: "string \<Rightarrow> Node \<Rightarrow> nat \<times> bool \<times> string" where
  "plan_key self n = (roleRank (n_role n), self \<noteq> [] \<and> n_id n = self, n_id n)"

definition planTargets :: "(Node \<Rightarrow> gotime) \<Rightarrow> Node list \<Rightarrow> string list \<Rightarrow> string \<Rightarrow> string
    \<Rightarrow> Node list \<times> SkippedNode list" where
  "planTargets clock nodes exclude bundleCompat self =
     (sort_key (plan_key self) (filter (\<lambda>n. plan_node clock exclude bundleCompat n = None) nodes),
      List.map_filter (plan_node clock exclude bundleCompat) nodes)"

section \<open>Canaries\<close>

definition canaryEligible :: "NodeRole \<Rightarrow> bool" where
  "canaryEligible tier \<longleftrightarrow> tier = ''compute'' \<or> tier = ''storage''"

record canaryGroup =
  cg_tier :: NodeRole
  cg_compatible :: string

definition group_of :: "plannedTarget \<Rightarrow> canaryGroup" where
  "group_of t = \<lparr>cg_tier = t_tier t, cg_compatible = t_compatible t\<rparr>"

datatype plan_error =
    NeedVersionOrBundle
  | InventoryFailed inv_error
  | BundleLookupFailed us_error
  | BundleNotFound string
  | UnknownComponent string
  | ListBundlesFailed us_error
  | NotStaged string string "(string \<times> string list) list"
  | CanaryNotATarget string
  | CanaryIneligible string NodeRole
  | CanaryDuplicate string string canaryGroup

text \<open>
  The first loop of \<^verbatim>\<open>assignCanaries\<close>: for each group the index of its first eligible target, and
  for each node id the index of its last target.
\<close>

definition choose_one :: "nat \<times> plannedTarget \<Rightarrow> (canaryGroup \<Rightarrow> nat option) \<times> (string \<Rightarrow> nat option)
    \<Rightarrow> (canaryGroup \<Rightarrow> nat option) \<times> (string \<Rightarrow> nat option)" where
  "choose_one it s = (case (it, s) of ((i, t), (chosen, byID)) \<Rightarrow>
     (if canaryEligible (t_tier t) \<and> chosen (group_of t) = None then chosen(group_of t \<mapsto> i) else chosen,
      byID(t_node t \<mapsto> i)))"

definition default_choice :: "plannedTarget list \<Rightarrow> (canaryGroup \<Rightarrow> nat option) \<times> (string \<Rightarrow> nat option)" where
  "default_choice targets = fold choose_one (List.enumerate 0 targets) (Map.empty, Map.empty)"

text \<open>The second loop: each override must name a target of an eligible tier, one per group.\<close>

fun apply_overrides :: "plannedTarget list \<Rightarrow> (string \<Rightarrow> nat option) \<Rightarrow> string list \<Rightarrow> (canaryGroup \<Rightarrow> string option)
    \<Rightarrow> (canaryGroup \<Rightarrow> nat option) \<Rightarrow> plan_error + (canaryGroup \<Rightarrow> nat option)" where
  "apply_overrides targets byID [] taken chosen = Inr chosen"
| "apply_overrides targets byID (i # is) taken chosen = (case byID i of
     None \<Rightarrow> Inl (CanaryNotATarget i)
   | Some k \<Rightarrow>
       let t = targets ! k; g = group_of t
       in if \<not> canaryEligible (t_tier t) then Inl (CanaryIneligible i (t_tier t))
          else case taken g of
            Some prev \<Rightarrow> Inl (CanaryDuplicate prev i g)
          | None \<Rightarrow> apply_overrides targets byID is (taken(g \<mapsto> i)) (chosen(g \<mapsto> k)))"

text \<open>
  The last loop marks every chosen index.  A group's index lies in that group, so an index is
  chosen exactly when the group of its own target chose it.
\<close>

definition assignCanaries :: "plannedTarget list \<Rightarrow> string list \<Rightarrow> plan_error + plannedTarget list" where
  "assignCanaries targets overrides =
     (let (chosen, byID) = default_choice targets
      in case apply_overrides targets byID overrides Map.empty chosen of
           Inl e \<Rightarrow> Inl e
         | Inr ch \<Rightarrow> Inr (map (\<lambda>(i, t). if ch (group_of t) = Some i then t\<lparr>t_canary := True\<rparr> else t)
                           (List.enumerate 0 targets)))"

section \<open>The plan\<close>

definition stagedByCompatible :: "string \<Rightarrow> Bundle list \<Rightarrow> (string \<Rightarrow> Bundle option)" where
  "stagedByCompatible version all = fold (\<lambda>b out.
     if b_version b \<noteq> version \<or> b_compatible b = [] then out
     else if out (b_compatible b) = None then out(b_compatible b \<mapsto> b) else out) all Map.empty"

definition componentCovers :: "Component \<Rightarrow> string \<Rightarrow> bool" where
  "componentCovers cm sku =
     (if c_kind cm = KindRootfsAB \<or> c_compatible cm = FirewallCompatible then sku = FirewallCompatible
      else sku \<noteq> FirewallCompatible)"

text \<open>What the release-keyed loop does with one node: a skip, a missing SKU or a target.\<close>

datatype resolution = ResSkip SkippedNode | ResMissing string string | ResTarget plannedTarget

definition resolve_node :: "Component \<Rightarrow> (string \<Rightarrow> Bundle option) \<Rightarrow> Node \<Rightarrow> resolution" where
  "resolve_node cm staged n = (case expectedCompatible n of
     None \<Rightarrow> ResSkip \<lparr>sk_node = n_id n, sk_reason = SkipNoArtifactForArch,
       sk_detail = DetailUnknownArch (n_architecture n), sk_tier = n_role n, sk_compatible = []\<rparr>
   | Some want \<Rightarrow>
       if \<not> componentCovers cm want
       then ResSkip \<lparr>sk_node = n_id n, sk_reason = SkipFirewallSKU,
         sk_detail = DetailNeedsComponent want (c_label cm), sk_tier = n_role n, sk_compatible = want\<rparr>
       else case staged want of
         None \<Rightarrow> ResMissing want (n_id n)
       | Some b \<Rightarrow> ResTarget \<lparr>t_node = n_id n, t_bundle = b_sha256 b, t_compatible = want, t_tier = n_role n, t_canary = False\<rparr>)"

fun res_skip :: "resolution \<Rightarrow> SkippedNode option" where
  "res_skip (ResSkip k) = Some k" | "res_skip _ = None"

fun res_missing :: "resolution \<Rightarrow> (string \<times> string) option" where
  "res_missing (ResMissing sku i) = Some (sku, i)" | "res_missing _ = None"

fun res_target :: "resolution \<Rightarrow> plannedTarget option" where
  "res_target (ResTarget t) = Some t" | "res_target _ = None"

definition missing_report :: "(string \<times> string) list \<Rightarrow> (string \<times> string list) list" where
  "missing_report ms = map (\<lambda>sku. (sku, sort (map snd (filter (\<lambda>m. fst m = sku) ms)))) (sort (remdups (map fst ms)))"

definition bundle_target :: "Bundle \<Rightarrow> Node \<Rightarrow> plannedTarget" where
  "bundle_target b n = \<lparr>t_node = n_id n, t_bundle = b_sha256 b, t_compatible = b_compatible b, t_tier = n_role n, t_canary = False\<rparr>"

definition plan_bundle :: "(Node \<Rightarrow> gotime) \<Rightarrow> string \<Rightarrow> SystemUpdateSpec \<Rightarrow> Node list \<Rightarrow> update_store
    \<Rightarrow> (plan_error + systemPlanState) \<times> update_store" where
  "plan_bundle clock self spec all s = (case GetBundle (sp_bundle spec) s of
     (Inl e, s1) \<Rightarrow> (Inl (BundleLookupFailed e), s1)
   | (Inr None, s1) \<Rightarrow> (Inl (BundleNotFound (sp_bundle spec)), s1)
   | (Inr (Some b), s1) \<Rightarrow>
       let (nodes, skipped) = planTargets clock all (sp_exclude spec) (b_compatible b) self
       in (case assignCanaries (map (bundle_target b) nodes) (sp_canaries spec) of
             Inl e \<Rightarrow> (Inl e, s1)
           | Inr targets \<Rightarrow> (Inr \<lparr>ps_bundle = b_sha256 b, ps_version = b_version b, ps_component = [],
               ps_targets = targets, ps_skipped = skipped, ps_self = self\<rparr>, s1)))"

definition plan_release :: "(Node \<Rightarrow> gotime) \<Rightarrow> string \<Rightarrow> SystemUpdateSpec \<Rightarrow> Node list \<Rightarrow> update_store
    \<Rightarrow> (plan_error + systemPlanState) \<times> update_store" where
  "plan_release clock self spec all s =
     (let compID = (if sp_component spec = [] then ''os'' else sp_component spec)
      in case ComponentByID compID of
           None \<Rightarrow> (Inl (UnknownComponent compID), s)
         | Some cm \<Rightarrow> (case ListBundles s of
             (Inl e, s1) \<Rightarrow> (Inl (ListBundlesFailed e), s1)
           | (Inr bs, s1) \<Rightarrow>
               let staged = stagedByCompatible (sp_version spec) bs;
                   (nodes, skipped) = planTargets clock all (sp_exclude spec) [] self;
                   res = map (resolve_node cm staged) nodes;
                   missing = List.map_filter res_missing res
               in if missing \<noteq> [] then (Inl (NotStaged (c_label cm) (sp_version spec) (missing_report missing)), s1)
                  else case assignCanaries (List.map_filter res_target res) (sp_canaries spec) of
                    Inl e \<Rightarrow> (Inl e, s1)
                  | Inr targets \<Rightarrow> (Inr \<lparr>ps_bundle = [], ps_version = sp_version spec, ps_component = c_id cm,
                      ps_targets = targets, ps_skipped = skipped @ List.map_filter res_skip res, ps_self = self\<rparr>, s1)))"

definition buildPlan :: "(Node \<Rightarrow> gotime) \<Rightarrow> string \<Rightarrow> SystemUpdateSpec \<Rightarrow> inventory \<Rightarrow> update_store
    \<Rightarrow> (plan_error + systemPlanState) \<times> inventory \<times> update_store" where
  "buildPlan clock self spec iv s =
     (if (sp_version spec = []) = (sp_bundle spec = []) then (Inl NeedVersionOrBundle, iv, s)
      else case List_nodes iv of
        (Inl e, iv1) \<Rightarrow> (Inl (InventoryFailed e), iv1, s)
      | (Inr all, iv1) \<Rightarrow>
          let (r, s1) = (if sp_bundle spec \<noteq> [] then plan_bundle clock self spec all s
                         else plan_release clock self spec all s)
          in (r, iv1, s1))"

section \<open>Tiers\<close>

record tierGroup =
  g_tier :: NodeRole
  g_targets :: "plannedTarget list"

definition group_step :: "plannedTarget \<Rightarrow> tierGroup list \<Rightarrow> tierGroup list" where
  "group_step t out =
     (if out \<noteq> [] \<and> g_tier (last out) = t_tier t
      then butlast out @ [(last out)\<lparr>g_targets := g_targets (last out) @ [t]\<rparr>]
      else out @ [\<lparr>g_tier = t_tier t, g_targets = [t]\<rparr>])"

definition groupByTier :: "plannedTarget list \<Rightarrow> tierGroup list" where
  "groupByTier targets = fold group_step targets []"

definition split_tier :: "tierGroup \<Rightarrow> plannedTarget list \<times> plannedTarget list" where
  "split_tier g = (filter t_canary (g_targets g), filter (\<lambda>t. \<not> t_canary t) (g_targets g))"

record PlanTarget =
  pt_node :: string
  pt_tier :: NodeRole
  pt_compatible :: string
  pt_canary :: bool

record SystemUpdatePlan =
  pl_version :: string
  pl_component :: string
  pl_targets :: "PlanTarget list"
  pl_skipped :: "SkippedNode list"
  pl_self :: string

definition PreviewPlan :: "(Node \<Rightarrow> gotime) \<Rightarrow> string \<Rightarrow> SystemUpdateSpec \<Rightarrow> inventory \<Rightarrow> update_store
    \<Rightarrow> (plan_error + SystemUpdatePlan) \<times> inventory \<times> update_store" where
  "PreviewPlan clock self spec iv s = (case buildPlan clock self spec iv s of
     (Inl e, iv1, s1) \<Rightarrow> (Inl e, iv1, s1)
   | (Inr st, iv1, s1) \<Rightarrow> (Inr \<lparr>pl_version = ps_version st, pl_component = ps_component st,
       pl_targets = map (\<lambda>t. \<lparr>pt_node = t_node t, pt_tier = t_tier t, pt_compatible = t_compatible t, pt_canary = t_canary t\<rparr>) (ps_targets st),
       pl_skipped = ps_skipped st,
       pl_self = (if ps_self st \<in> set (targetIDs st) then ps_self st else [])\<rparr>, iv1, s1))"

end
