(* ===== verification/Fleet_Cascade.thy ===== *)
theory Fleet_Cascade
  imports Fleet_Plan "HOL-Library.AList"
begin

text \<open>
  The cascade of a fleet update (\<^verbatim>\<open>api/internal/updater/system_jobs.go\<close>, second half): the tiers in
  order, in each tier the canaries one by one and then the rest in a pool of at most \<open>k\<close> goroutines,
  the failure budget that stops new starts, the results grid, the summary and the parent's verdict.

  The child driver is a parameter: \<open>d_submit\<close> is what submitting the child job of a target answers
  and \<open>d_wait\<close> how waiting for a child ends.  The goroutines of the pool interleave as a schedule
  says: a list of choices, each of which launches the next target or advances one running goroutine
  by one action (submit its child, or see it end).  A choice that is not possible, and the end of
  the list, stand for any possible action.  An action is atomic: a goroutine records its row,
  publishes its event and gives its slot back together.
\<close>

section \<open>Reports\<close>

datatype NodeOutcome = NodeOutcomeSucceeded | NodeOutcomeFailed | NodeOutcomeNotAttempted

datatype wait_error =
    WaitSubscribe string
  | WaitGetChild db_error
  | WaitNoChild string
  | WaitTimeout string
  | WaitCancelled string

text \<open>The last four details are those of a report rebuilt after a restart of the control plane.\<close>

datatype await_error = AwaitRead db_error | AwaitGone string | AwaitDeadline Status | AwaitCancelled

datatype row_detail =
    NoDetail
  | DetailSubmit string
  | DetailWait wait_error
  | DetailChild Status
  | DetailCanaryGate
  | DetailBudget NodeRole int
  | DetailRunStopped
  | DetailNotStarted
  | DetailJobError err
  | DetailNeverSettled await_error
  | DetailStill Status

record NodeResult =
  nr_node :: string
  nr_outcome :: NodeOutcome
  nr_tier :: NodeRole
  nr_compatible :: string
  nr_canary :: bool
  nr_child :: string
  nr_detail :: row_detail

datatype system_change =
    SystemUpdateNodeStarted | SystemUpdateNodeSucceeded | SystemUpdateNodeFailed
  | SystemUpdateCanaryPassed | SystemUpdateCanaryFailed | SystemUpdateBudgetSpent

record system_event =
  se_change :: system_change
  se_node :: string
  se_child :: string
  se_tier :: NodeRole
  se_canary :: bool

record cascade =
  cc_grid :: "(string \<times> NodeResult) list"
  cc_spent :: "(NodeRole \<times> int) list"
  cc_canaries :: "string list"
  cc_failure :: "(string \<times> canaryGroup) option"
  cc_events :: "system_event list"

record driver =
  d_submit :: "plannedTarget \<Rightarrow> string + string"
  d_wait :: "string \<Rightarrow> wait_error + Status"

section \<open>One node\<close>

definition blank_row :: "plannedTarget \<Rightarrow> bool \<Rightarrow> NodeResult" where
  "blank_row t can = \<lparr>nr_node = t_node t, nr_outcome = NodeOutcomeNotAttempted, nr_tier = t_tier t,
     nr_compatible = t_compatible t, nr_canary = can, nr_child = [], nr_detail = NoDetail\<rparr>"

definition record_row :: "plannedTarget \<Rightarrow> bool \<Rightarrow> NodeOutcome \<Rightarrow> string \<Rightarrow> row_detail \<Rightarrow> cascade \<Rightarrow> cascade" where
  "record_row t can out child detail s = s\<lparr>cc_grid := AList.update (t_node t)
     ((blank_row t can)\<lparr>nr_outcome := out, nr_child := child, nr_detail := detail\<rparr>) (cc_grid s)\<rparr>"

definition node_evt :: "system_change \<Rightarrow> plannedTarget \<Rightarrow> bool \<Rightarrow> string \<Rightarrow> cascade \<Rightarrow> cascade" where
  "node_evt ch t can child s = s\<lparr>cc_events := cc_events s @
     [\<lparr>se_change = ch, se_node = t_node t, se_child = child, se_tier = t_tier t, se_canary = can\<rparr>]\<rparr>"

text \<open>The two halves of \<^verbatim>\<open>runOne\<close>: up to the submitted child, and from its end.\<close>

definition start_one :: "driver \<Rightarrow> bool \<Rightarrow> plannedTarget \<Rightarrow> cascade \<Rightarrow> string option \<times> cascade" where
  "start_one drv can t s = (case d_submit drv t of
     Inl e \<Rightarrow> (None, node_evt SystemUpdateNodeFailed t can [] (record_row t can NodeOutcomeFailed [] (DetailSubmit e) s))
   | Inr child \<Rightarrow> (Some child, node_evt SystemUpdateNodeStarted t can child s))"

definition end_one :: "driver \<Rightarrow> bool \<Rightarrow> plannedTarget \<Rightarrow> string \<Rightarrow> cascade \<Rightarrow> bool \<times> cascade" where
  "end_one drv can t child s = (case d_wait drv child of
     Inl e \<Rightarrow> (False, node_evt SystemUpdateNodeFailed t can child
                (record_row t can NodeOutcomeFailed child (DetailWait e) s))
   | Inr st \<Rightarrow>
       if st \<noteq> StatusSucceeded
       then (False, node_evt SystemUpdateNodeFailed t can child
              (record_row t can NodeOutcomeFailed child (DetailChild st) s))
       else (True, node_evt SystemUpdateNodeSucceeded t can child
              (record_row t can NodeOutcomeSucceeded child NoDetail s)))"

definition runOne :: "driver \<Rightarrow> bool \<Rightarrow> plannedTarget \<Rightarrow> cascade \<Rightarrow> bool \<times> cascade" where
  "runOne drv can t s = (case start_one drv can t s of
     (None, s1) \<Rightarrow> (False, s1) | (Some child, s1) \<Rightarrow> end_one drv can t child s1)"

section \<open>The pool\<close>

datatype choice = Launch | Advance nat

definition remove_at :: "nat \<Rightarrow> 'a list \<Rightarrow> 'a list" where
  "remove_at i xs = take i xs @ drop (Suc i) xs"

lemma length_remove_at [simp]: "i < length xs \<Longrightarrow> length (remove_at i xs) = length xs - 1"
  by (simp add: remove_at_def)

text \<open>What happens next, given the schedule and whether a slot is free.\<close>

definition pick :: "choice list \<Rightarrow> bool \<Rightarrow> nat \<Rightarrow> choice" where
  "pick sch can n = (case sch of
     Advance i # _ \<Rightarrow> if i < n then Advance i else if can then Launch else Advance 0
   | _ \<Rightarrow> if can then Launch else Advance 0)"

text \<open>
  The work left: three actions for a target not yet launched, two for one not yet submitted, one for
  one that is waiting.
\<close>

definition pool_work :: "'t list \<Rightarrow> ('t \<times> 'h option) list \<Rightarrow> nat" where
  "pool_work todo run = 3 * length todo + sum_list (map (\<lambda>r. case snd r of None \<Rightarrow> 2 | Some h \<Rightarrow> 1) run)"

lemma sum_list_remove_at:
  "i < length xs \<Longrightarrow> sum_list (map f (remove_at i xs)) + f (xs ! i) = sum_list (map (f :: 'a \<Rightarrow> nat) xs)"
  using arg_cong [OF id_take_nth_drop [of i xs], of "\<lambda>ys. sum_list (map f ys)"]
  by (simp add: remove_at_def)

lemma sum_list_update_nat:
  "i < length xs \<Longrightarrow> sum_list (map f (xs[i := y])) + f (xs ! i) = sum_list (map (f :: 'a \<Rightarrow> nat) xs) + f y"
  by (induction xs arbitrary: i) (auto split: nat.splits)

lemma work_remove:
  "i < length run \<Longrightarrow> pool_work todo (remove_at i run) < pool_work todo run"
  using sum_list_remove_at [of i run "\<lambda>r. case snd r of None \<Rightarrow> 2 | Some h \<Rightarrow> 1"]
  by (auto simp: pool_work_def split: option.splits)

lemma work_submit:
  "i < length run \<Longrightarrow> run ! i = (t, None) \<Longrightarrow> pool_work todo (run[i := (t, Some h)]) < pool_work todo run"
  using sum_list_update_nat [of i run "\<lambda>r. case snd r of None \<Rightarrow> 2 | Some h \<Rightarrow> 1" "(t, Some h)"]
  by (simp add: pool_work_def)

function runBounded :: "nat \<Rightarrow> ('s \<Rightarrow> bool \<times> 's) \<Rightarrow> ('t \<Rightarrow> 's \<Rightarrow> 'h option \<times> 's) \<Rightarrow> ('t \<Rightarrow> 'h \<Rightarrow> 's \<Rightarrow> 's)
    \<Rightarrow> choice list \<Rightarrow> 't list \<Rightarrow> ('t \<times> 'h option) list \<Rightarrow> 's \<Rightarrow> 's" where
  "runBounded k mayStart start finish sch todo run s =
     (if todo = [] \<and> run = [] then s
      else case pick sch (todo \<noteq> [] \<and> length run < max k 1) (length run) of
        Launch \<Rightarrow>
          (case mayStart s of
             (True, s1) \<Rightarrow> runBounded k mayStart start finish (tl sch) (tl todo) (run @ [(hd todo, None)]) s1
           | (False, s1) \<Rightarrow> runBounded k mayStart start finish (tl sch) [] run s1)
      | Advance i \<Rightarrow>
          (case run ! i of
             (t, None) \<Rightarrow>
               (case start t s of
                  (None, s1) \<Rightarrow> runBounded k mayStart start finish (tl sch) todo (remove_at i run) s1
                | (Some h, s1) \<Rightarrow> runBounded k mayStart start finish (tl sch) todo (run[i := (t, Some h)]) s1)
           | (t, Some h) \<Rightarrow> runBounded k mayStart start finish (tl sch) todo (remove_at i run) (finish t h s)))"
  by pat_completeness auto

lemma pick_launch: "pick sch can n = Launch \<Longrightarrow> can"
  by (auto simp: pick_def split: list.splits choice.splits if_splits)

lemma pick_advance: "pick sch can n = Advance i \<Longrightarrow> i < n \<or> i = 0 \<and> \<not> can"
  by (auto simp: pick_def split: list.splits choice.splits if_splits)

lemma work_launch: "todo \<noteq> [] \<Longrightarrow> pool_work (tl todo) (run @ [(t, None)]) < pool_work todo run"
  by (cases todo) (simp_all add: pool_work_def)

lemma work_stop: "todo \<noteq> [] \<Longrightarrow> pool_work [] run < pool_work todo run"
  by (cases todo) (simp_all add: pool_work_def)

termination runBounded
proof (relation "measure (\<lambda>(k, may, st, fin, sch, todo, run, s). pool_work todo run)")
qed (auto simp: work_launch work_stop not_less dest!: pick_launch pick_advance intro!: work_remove work_submit
  dest: sym)

declare runBounded.simps [simp del]

text \<open>One turn of the loop as a value, to evaluate runs with.\<close>

datatype ('t, 'h, 's) pool_state = PoolDone 's | PoolMore "choice list" "'t list" "('t \<times> 'h option) list" 's

definition pool_step :: "nat \<Rightarrow> ('s \<Rightarrow> bool \<times> 's) \<Rightarrow> ('t \<Rightarrow> 's \<Rightarrow> 'h option \<times> 's) \<Rightarrow> ('t \<Rightarrow> 'h \<Rightarrow> 's \<Rightarrow> 's)
    \<Rightarrow> choice list \<Rightarrow> 't list \<Rightarrow> ('t \<times> 'h option) list \<Rightarrow> 's \<Rightarrow> ('t, 'h, 's) pool_state" where
  "pool_step k mayStart start finish sch todo run s =
     (if todo = [] \<and> run = [] then PoolDone s
      else case pick sch (todo \<noteq> [] \<and> length run < max k 1) (length run) of
        Launch \<Rightarrow>
          (case mayStart s of
             (True, s1) \<Rightarrow> PoolMore (tl sch) (tl todo) (run @ [(hd todo, None)]) s1
           | (False, s1) \<Rightarrow> PoolMore (tl sch) [] run s1)
      | Advance i \<Rightarrow>
          (case run ! i of
             (t, None) \<Rightarrow>
               (case start t s of
                  (None, s1) \<Rightarrow> PoolMore (tl sch) todo (remove_at i run) s1
                | (Some h, s1) \<Rightarrow> PoolMore (tl sch) todo (run[i := (t, Some h)]) s1)
           | (t, Some h) \<Rightarrow> PoolMore (tl sch) todo (remove_at i run) (finish t h s)))"

fun pool_next :: "nat \<Rightarrow> ('s \<Rightarrow> bool \<times> 's) \<Rightarrow> ('t \<Rightarrow> 's \<Rightarrow> 'h option \<times> 's) \<Rightarrow> ('t \<Rightarrow> 'h \<Rightarrow> 's \<Rightarrow> 's)
    \<Rightarrow> ('t, 'h, 's) pool_state \<Rightarrow> 's" where
  "pool_next k mayStart start finish (PoolDone s) = s"
| "pool_next k mayStart start finish (PoolMore sch todo run s) = runBounded k mayStart start finish sch todo run s"

lemma runBounded_code [code]:
  "runBounded k mayStart start finish sch todo run s =
     pool_next k mayStart start finish (pool_step k mayStart start finish sch todo run s)"
  by (subst runBounded.simps) (simp add: pool_step_def split: choice.split prod.split bool.split option.split)

section \<open>The failure budget\<close>

definition failed_in :: "NodeRole \<Rightarrow> cascade \<Rightarrow> nat" where
  "failed_in tier s = length (filter (\<lambda>(i, r). nr_outcome r = NodeOutcomeFailed \<and> nr_tier r = tier) (cc_grid s))"

definition mayStart :: "NodeRole \<Rightarrow> int \<Rightarrow> cascade \<Rightarrow> bool \<times> cascade" where
  "mayStart tier budget s =
     (if budget = UnlimitedFailures then (True, s)
      else let n = failed_in tier s
           in if int n < budget then (True, s)
              else if map_of (cc_spent s) tier \<noteq> None then (False, s)
              else (False, s\<lparr>cc_spent := (tier, budget) # cc_spent s,
                     cc_events := cc_events s @ [\<lparr>se_change = SystemUpdateBudgetSpent, se_node = [], se_child = [],
                       se_tier = tier, se_canary = False\<rparr>]\<rparr>))"

section \<open>One tier\<close>

definition gate_evt :: "system_change \<Rightarrow> plannedTarget \<Rightarrow> cascade \<Rightarrow> cascade" where
  "gate_evt ch t s = s\<lparr>cc_events := cc_events s @
     [\<lparr>se_change = ch, se_node = t_node t, se_child = [], se_tier = t_tier t, se_canary = True\<rparr>]\<rparr>"

text \<open>The canaries of a tier, one after the other; the first one that fails aborts the run.\<close>

fun run_canaries :: "driver \<Rightarrow> plannedTarget list \<Rightarrow> cascade \<Rightarrow> bool \<times> cascade" where
  "run_canaries drv [] s = (True, s)"
| "run_canaries drv (c # cs) s =
     (let s0 = s\<lparr>cc_canaries := cc_canaries s @ [t_node c]\<rparr>; (ok, s1) = runOne drv True c s0
      in if \<not> ok then (False, gate_evt SystemUpdateCanaryFailed c (s1\<lparr>cc_failure := Some (t_node c, group_of c)\<rparr>))
         else run_canaries drv cs (gate_evt SystemUpdateCanaryPassed c s1))"

record knobs =
  k_in_flight :: IntOrString
  k_failures :: IntOrString
  k_soak :: int

definition tier_width :: "knobs \<Rightarrow> tierGroup \<Rightarrow> nat" where
  "tier_width kn g = (let n = int (length (g_targets g)) in nat (ClampMaxInFlight (Resolve (k_in_flight kn) n) n))"

definition tier_budget :: "knobs \<Rightarrow> tierGroup \<Rightarrow> int" where
  "tier_budget kn g = ResolveMaxFailures (k_failures kn) (int (length (g_targets g)))"

definition fan_out :: "driver \<Rightarrow> knobs \<Rightarrow> tierGroup \<Rightarrow> choice list \<Rightarrow> plannedTarget list \<Rightarrow> cascade \<Rightarrow> cascade" where
  "fan_out drv kn g sch fanout s =
     runBounded (tier_width kn g) (mayStart (g_tier g) (tier_budget kn g)) (start_one drv False)
       (\<lambda>t child s. snd (end_one drv False t child s)) sch fanout [] s"

datatype tier_outcome = TierDone | TierAborted | TierCancelled

text \<open>\<open>cancelled\<close> tells whether the context was cancelled during the soak of this tier.\<close>

definition soak :: "int \<Rightarrow> bool \<Rightarrow> bool" where
  "soak seconds cancelled = (if seconds \<le> 0 then True else \<not> cancelled)"

definition run_tier :: "driver \<Rightarrow> knobs \<Rightarrow> tierGroup \<Rightarrow> bool \<Rightarrow> choice list \<Rightarrow> cascade \<Rightarrow> tier_outcome \<times> cascade" where
  "run_tier drv kn g cancelled sch s =
     (let (canaries, fanout) = split_tier g; (ok, s1) = run_canaries drv canaries s
      in if \<not> ok then (TierAborted, s1)
         else if canaries \<noteq> [] \<and> fanout \<noteq> [] \<and> \<not> soak (k_soak kn) cancelled then (TierCancelled, s1)
         else (TierDone, fan_out drv kn g sch fanout s1))"

text \<open>Each tier takes the next entry of the plan of interleavings: its soak and its schedule.\<close>

fun run_tiers :: "driver \<Rightarrow> knobs \<Rightarrow> tierGroup list \<Rightarrow> (bool \<times> choice list) list \<Rightarrow> cascade \<Rightarrow> tier_outcome \<times> cascade" where
  "run_tiers drv kn [] schs s = (TierDone, s)"
| "run_tiers drv kn (g # gs) schs s =
     (let (cancelled, sch) = (case schs of [] \<Rightarrow> (False, []) | x # _ \<Rightarrow> x)
      in case run_tier drv kn g cancelled sch s of
           (TierDone, s1) \<Rightarrow> run_tiers drv kn gs (tl schs) s1
         | (out, s1) \<Rightarrow> (out, s1))"

section \<open>The step\<close>

record cascadeResult =
  cr_succeeded :: "string list"
  cr_failed :: "string list"
  cr_remaining :: "string list"
  cr_canaries :: "string list"
  cr_results :: "NodeResult list"
  cr_canary_failure :: "(string \<times> canaryGroup) option"
  cr_budget_spent :: "NodeRole list"

definition result_row :: "cascade \<Rightarrow> plannedTarget \<Rightarrow> NodeResult" where
  "result_row s t = (case map_of (cc_grid s) (t_node t) of
     Some row \<Rightarrow> row
   | None \<Rightarrow> (blank_row t (t_canary t))\<lparr>nr_detail :=
       (if cc_failure s \<noteq> None then DetailCanaryGate
        else case map_of (cc_spent s) (t_tier t) of Some b \<Rightarrow> DetailBudget (t_tier t) b | None \<Rightarrow> DetailRunStopped)\<rparr>)"

definition report :: "plannedTarget list \<Rightarrow> cascade \<Rightarrow> cascadeResult" where
  "report targets s =
     \<lparr>cr_succeeded = map t_node (filter (\<lambda>t. nr_outcome (result_row s t) = NodeOutcomeSucceeded) targets),
      cr_failed = map t_node (filter (\<lambda>t. nr_outcome (result_row s t) = NodeOutcomeFailed) targets),
      cr_remaining = map t_node (filter (\<lambda>t. map_of (cc_grid s) (t_node t) = None) targets),
      cr_canaries = cc_canaries s, cr_results = map (result_row s) targets, cr_canary_failure = cc_failure s,
      cr_budget_spent = map g_tier (filter (\<lambda>g. map_of (cc_spent s) (g_tier g) \<noteq> None) (groupByTier targets))\<rparr>"

datatype cascade_error =
    CascadePlan plan_error
  | CascadeInFlight knob_error
  | CascadeFailures knob_error
  | CascadeSoakCancelled

definition empty_cascade :: cascade where
  "empty_cascade = \<lparr>cc_grid = [], cc_spent = [], cc_canaries = [], cc_failure = None, cc_events = []\<rparr>"

definition run_plan :: "driver \<Rightarrow> SystemUpdateSpec \<Rightarrow> (bool \<times> choice list) list \<Rightarrow> systemPlanState
    \<Rightarrow> (cascade_error + cascadeResult) \<times> system_event list" where
  "run_plan drv spec schs state =
     (let inflight = (case sp_max_in_flight spec of None \<Rightarrow> DefaultMaxInFlight | Some v \<Rightarrow> v);
          failures = (case sp_max_failures spec of None \<Rightarrow> DefaultMaxFailures | Some v \<Rightarrow> v)
      in case Validate_knob inflight of
           Some e \<Rightarrow> (Inl (CascadeInFlight e), [])
         | None \<Rightarrow> (case Validate_knob failures of
             Some e \<Rightarrow> (Inl (CascadeFailures e), [])
           | None \<Rightarrow>
               (case run_tiers drv \<lparr>k_in_flight = inflight, k_failures = failures, k_soak = sp_soak spec\<rparr>
                       (groupByTier (ps_targets state)) schs empty_cascade of
                  (TierCancelled, s) \<Rightarrow> (Inl CascadeSoakCancelled, cc_events s)
                | (_, s) \<Rightarrow> (Inr (report (ps_targets state) s), cc_events s))))"

text \<open>The plan the operator was shown is used when the plan step's result is there.\<close>

definition systemCascade :: "driver \<Rightarrow> (Node \<Rightarrow> gotime) \<Rightarrow> string \<Rightarrow> SystemUpdateSpec \<Rightarrow> (bool \<times> choice list) list
    \<Rightarrow> systemPlanState option \<Rightarrow> inventory \<Rightarrow> update_store
    \<Rightarrow> ((cascade_error + cascadeResult) \<times> system_event list) \<times> inventory \<times> update_store" where
  "systemCascade drv clock self spec schs prior iv s = (case prior of
     Some state \<Rightarrow> (run_plan drv spec schs state, iv, s)
   | None \<Rightarrow> (case buildPlan clock self spec iv s of
       (Inl e, iv1, s1) \<Rightarrow> ((Inl (CascadePlan e), []), iv1, s1)
     | (Inr state, iv1, s1) \<Rightarrow> (run_plan drv spec schs state, iv1, s1)))"

section \<open>The summary\<close>

datatype run_verdict =
    CanaryAborted string canaryGroup nat
  | NodesFailedBudget nat nat "string list" "NodeRole list" nat
  | NodesFailed nat nat "string list"
  | NodesStranded "string list"
  | SummaryListChildren db_error

definition terminalError :: "cascadeResult \<Rightarrow> run_verdict option" where
  "terminalError r = (case cr_canary_failure r of
     Some (c, g) \<Rightarrow> Some (CanaryAborted c g (length (cr_remaining r)))
   | None \<Rightarrow>
       if cr_failed r \<noteq> [] then
         (if cr_budget_spent r \<noteq> []
          then Some (NodesFailedBudget (length (cr_failed r)) (length (cr_results r)) (cr_failed r)
                 (cr_budget_spent r) (length (cr_remaining r)))
          else Some (NodesFailed (length (cr_failed r)) (length (cr_results r)) (cr_failed r)))
       else None)"

record SystemUpdateCounts =
  ct_total :: nat
  ct_succeeded :: nat
  ct_failed :: nat
  ct_skipped :: nat
  ct_not_attempted :: nat
  ct_stranded :: nat

text \<open>The plan step: the state it stashes and the counts of the \<^verbatim>\<open>planned\<close> event.\<close>

definition planned_counts :: "systemPlanState \<Rightarrow> SystemUpdateCounts" where
  "planned_counts st = \<lparr>ct_total = length (ps_targets st), ct_succeeded = 0, ct_failed = 0,
     ct_skipped = length (ps_skipped st), ct_not_attempted = 0, ct_stranded = length (stranded st)\<rparr>"

definition systemPlan :: "(Node \<Rightarrow> gotime) \<Rightarrow> string \<Rightarrow> SystemUpdateSpec \<Rightarrow> inventory \<Rightarrow> update_store
    \<Rightarrow> (plan_error + systemPlanState \<times> SystemUpdateCounts) \<times> inventory \<times> update_store" where
  "systemPlan clock self spec iv s = (case buildPlan clock self spec iv s of
     (Inl e, iv1, s1) \<Rightarrow> (Inl e, iv1, s1)
   | (Inr st, iv1, s1) \<Rightarrow> (Inr (st, planned_counts st), iv1, s1))"

definition child_counts :: "job list \<Rightarrow> nat \<times> nat" where
  "child_counts children = (length (filter (\<lambda>j. j_status j = StatusSucceeded) children),
     length (filter (\<lambda>j. j_status j = StatusFailed \<or> j_status j = StatusCancelled) children))"

definition empty_plan :: systemPlanState where
  "empty_plan = \<lparr>ps_bundle = [], ps_version = [], ps_component = [], ps_targets = [], ps_skipped = [], ps_self = []\<rparr>"

definition empty_result :: cascadeResult where
  "empty_result = \<lparr>cr_succeeded = [], cr_failed = [], cr_remaining = [], cr_canaries = [], cr_results = [],
     cr_canary_failure = None, cr_budget_spent = []\<rparr>"

definition summary_counts :: "job list \<Rightarrow> systemPlanState \<Rightarrow> cascadeResult \<Rightarrow> SystemUpdateCounts" where
  "summary_counts children plan cascade =
     (let (tot, succ, fail) =
            (if cr_results cascade \<noteq> [] then
               (length (cr_results cascade),
                length (filter (\<lambda>r. nr_outcome r = NodeOutcomeSucceeded) (cr_results cascade)),
                length (filter (\<lambda>r. nr_outcome r = NodeOutcomeFailed) (cr_results cascade)))
             else (length children, child_counts children))
      in \<lparr>ct_total = tot, ct_succeeded = succ, ct_failed = fail, ct_skipped = length (ps_skipped plan),
          ct_not_attempted = length (cr_remaining cascade), ct_stranded = length (stranded plan)\<rparr>)"

text \<open>
  The summary step: the counts it publishes with the \<^verbatim>\<open>completed\<close> event (nothing when the children
  cannot be listed) and the error that fails the parent, if any.
\<close>

definition systemSummarize :: "string \<Rightarrow> systemPlanState option \<Rightarrow> cascadeResult option \<Rightarrow> ledger
    \<Rightarrow> SystemUpdateCounts option \<times> run_verdict option \<times> ledger" where
  "systemSummarize job prior_plan prior_cascade l = (case ListChildJobs job l of
     (Inl e, l1) \<Rightarrow> (None, Some (SummaryListChildren e), l1)
   | (Inr children, l1) \<Rightarrow>
       let plan = (case prior_plan of None \<Rightarrow> empty_plan | Some p \<Rightarrow> p);
           cascade = (case prior_cascade of None \<Rightarrow> empty_result | Some c \<Rightarrow> c)
       in (Some (summary_counts children plan cascade),
           (case terminalError cascade of
              Some e \<Rightarrow> Some e
            | None \<Rightarrow> if stranded plan \<noteq> [] then Some (NodesStranded (map sk_node (stranded plan))) else None),
           l1))"

section \<open>Waiting for a child\<close>

text \<open>
  One round of \<^verbatim>\<open>waitForChild\<close> reads the child job and, when it is not terminal, blocks until it is
  woken (by an event or the fallback tick), the deadline passes, or the parent is cancelled.  The
  model reads the rounds from a list; \<open>None\<close> means the child is still awaited after them.
\<close>

datatype wake = Woken | DeadlineExceeded | ParentCancelled

fun waitForChild :: "string \<Rightarrow> ((db_error + job option) \<times> wake) list \<Rightarrow> (wait_error + Status) option" where
  "waitForChild child [] = None"
| "waitForChild child ((r, w) # rounds) = (case r of
     Inl e \<Rightarrow> Some (Inl (WaitGetChild e))
   | Inr None \<Rightarrow> Some (Inl (WaitNoChild child))
   | Inr (Some j) \<Rightarrow>
       if terminal (j_status j) then Some (Inr (j_status j))
       else case w of
         Woken \<Rightarrow> waitForChild child rounds
       | DeadlineExceeded \<Rightarrow> Some (Inl (WaitTimeout child))
       | ParentCancelled \<Rightarrow> Some (Inl (WaitCancelled child)))"

end
