(* ===== verification/Fleet_Cascade_Inv.thy ===== *)
theory Fleet_Cascade_Inv
  imports Fleet_Cascade
begin

text \<open>
  Lemmas about the cascade.  The pool of goroutines is an interface: the locale \<open>bounded_pool\<close> states
  what the pool's client owes each action (launch, refusal, submission, end) for an invariant of the
  todo list, the running goroutines and the shared state, and concludes the invariant for every
  schedule.  The cascade's fan-out interprets it with its own start, end and budget.
\<close>

section \<open>The pool\<close>

locale bounded_pool =
  fixes k :: nat
    and may :: "'s \<Rightarrow> bool \<times> 's"
    and start :: "'t \<Rightarrow> 's \<Rightarrow> 'h option \<times> 's"
    and finish :: "'t \<Rightarrow> 'h \<Rightarrow> 's \<Rightarrow> 's"
    and inv :: "'t list \<Rightarrow> ('t \<times> 'h option) list \<Rightarrow> 's \<Rightarrow> bool"
  assumes launch: "inv (t # todo) run s \<Longrightarrow> length run < max k 1 \<Longrightarrow> may s = (True, s') \<Longrightarrow> inv todo (run @ [(t, None)]) s'"
    and refuse: "inv todo run s \<Longrightarrow> may s = (False, s') \<Longrightarrow> inv [] run s'"
    and start_fails: "inv todo run s \<Longrightarrow> i < length run \<Longrightarrow> run ! i = (t, None) \<Longrightarrow> start t s = (None, s') \<Longrightarrow>
      inv todo (remove_at i run) s'"
    and starts: "inv todo run s \<Longrightarrow> i < length run \<Longrightarrow> run ! i = (t, None) \<Longrightarrow> start t s = (Some h, s') \<Longrightarrow>
      inv todo (run[i := (t, Some h)]) s'"
    and ends: "inv todo run s \<Longrightarrow> i < length run \<Longrightarrow> run ! i = (t, Some h) \<Longrightarrow> inv todo (remove_at i run) (finish t h s)"
begin

lemma runBounded_inv: "inv todo run s \<Longrightarrow> inv [] [] (runBounded k may start finish sch todo run s)"
proof (induction "pool_work todo run" arbitrary: sch todo run s rule: less_induct)
  case less
  show ?case
  proof (cases "todo = [] \<and> run = []")
    case True
    with less.prems show ?thesis
      by (simp add: runBounded.simps)
  next
    case False
    let ?pick = "pick sch (todo \<noteq> [] \<and> length run < max k 1) (length run)"
    show ?thesis
    proof (cases ?pick)
      case Launch
      then obtain t ts where todo: "todo = t # ts" and free: "length run < max k 1"
        by (cases todo) (auto dest: pick_launch)
      obtain b s1 where m: "may s = (b, s1)"
        by fastforce
      have e: "runBounded k may start finish sch todo run s =
          (if b then runBounded k may start finish (tl sch) ts (run @ [(t, None)]) s1
           else runBounded k may start finish (tl sch) [] run s1)"
        by (subst runBounded.simps) (use False Launch m todo in \<open>auto split: bool.splits\<close>)
      have "inv ts (run @ [(t, None)]) s1" if b
        using launch [of t ts run s s1] less.prems free m todo that by simp
      moreover have "inv [] run s1" if "\<not> b"
        using refuse less.prems m that by auto
      moreover have "pool_work ts (run @ [(t, None)]) < pool_work todo run" "pool_work [] run < pool_work todo run"
        using work_launch [of todo run t] work_stop [of todo run] todo by auto
      ultimately show ?thesis
        unfolding e using less.hyps by simp
    next
      case (Advance i)
      have i: "i < length run"
        using pick_advance [OF Advance] False by (cases run) auto
      obtain t ho where r: "run ! i = (t, ho)"
        by fastforce
      show ?thesis
      proof (cases ho)
        case None
        obtain h s1 where st: "start t s = (h, s1)"
          by fastforce
        have e: "runBounded k may start finish sch todo run s =
            (case h of None \<Rightarrow> runBounded k may start finish (tl sch) todo (remove_at i run) s1
             | Some c \<Rightarrow> runBounded k may start finish (tl sch) todo (run[i := (t, Some c)]) s1)"
          by (subst runBounded.simps) (use False Advance r None st in \<open>auto split: option.splits\<close>)
        show ?thesis
          unfolding e using less.hyps [OF work_remove [OF i]] less.hyps [OF work_submit [OF i]]
            start_fails [OF less.prems i] starts [OF less.prems i] r None st
          by (auto split: option.splits)
      next
        case (Some h)
        have e: "runBounded k may start finish sch todo run s =
            runBounded k may start finish (tl sch) todo (remove_at i run) (finish t h s)"
          by (subst runBounded.simps) (use False Advance r Some in auto)
        show ?thesis
          unfolding e using less.hyps [OF work_remove [OF i]] ends [OF less.prems i] r Some by auto
      qed
    qed
  qed
qed

end

section \<open>What one node's run changes\<close>

definition attempted :: "cascade \<Rightarrow> plannedTarget \<Rightarrow> bool" where
  "attempted s t \<longleftrightarrow> map_of (cc_grid s) (t_node t) \<noteq> None"

definition succeeded :: "cascade \<Rightarrow> plannedTarget \<Rightarrow> bool" where
  "succeeded s t \<longleftrightarrow> (\<exists>r. map_of (cc_grid s) (t_node t) = Some r \<and> nr_outcome r = NodeOutcomeSucceeded)"

definition row_for :: "plannedTarget \<Rightarrow> bool \<Rightarrow> NodeResult \<Rightarrow> bool" where
  "row_for t can r \<longleftrightarrow> nr_node r = t_node t \<and> nr_tier r = t_tier t \<and> nr_compatible r = t_compatible t \<and>
     nr_canary r = can \<and> nr_outcome r \<noteq> NodeOutcomeNotAttempted"

text \<open>The nodes a log of events started and the ones it finished; the difference is in flight.\<close>

definition started_nodes :: "system_event list \<Rightarrow> string set" where
  "started_nodes es = {se_node e | e. e \<in> set es \<and> se_change e = SystemUpdateNodeStarted}"

definition ended_nodes :: "system_event list \<Rightarrow> string set" where
  "ended_nodes es = {se_node e | e. e \<in> set es \<and> (se_change e = SystemUpdateNodeSucceeded \<or> se_change e = SystemUpdateNodeFailed)}"

definition in_flight :: "system_event list \<Rightarrow> string set" where
  "in_flight es = started_nodes es - ended_nodes es"

lemma flight_nodes_append [simp]:
  "started_nodes (es @ [e]) = (if se_change e = SystemUpdateNodeStarted then insert (se_node e) (started_nodes es) else started_nodes es)"
  "ended_nodes (es @ [e]) = (if se_change e = SystemUpdateNodeSucceeded \<or> se_change e = SystemUpdateNodeFailed
     then insert (se_node e) (ended_nodes es) else ended_nodes es)"
  by (auto simp: started_nodes_def ended_nodes_def)

lemma flight_nodes_Nil [simp]: "started_nodes [] = {}" "ended_nodes [] = {}"
  by (simp_all add: started_nodes_def ended_nodes_def)

definition flight_ok :: "nat \<Rightarrow> system_event list \<Rightarrow> bool" where
  "flight_ok M es \<longleftrightarrow> (\<forall>n. card (in_flight (take n es)) \<le> M)"

lemma flight_ok_snoc: "flight_ok M (es @ [e]) \<longleftrightarrow> flight_ok M es \<and> card (in_flight (es @ [e])) \<le> M"
proof
  assume a: "flight_ok M (es @ [e])"
  have "card (in_flight (take n es)) \<le> M" for n
  proof (cases "n \<le> length es")
    case True
    then show ?thesis
      using a [unfolded flight_ok_def, rule_format, of n] by simp
  next
    case False
    then show ?thesis
      using a [unfolded flight_ok_def, rule_format, of "length es"] by simp
  qed
  then show "flight_ok M es \<and> card (in_flight (es @ [e])) \<le> M"
    using a [unfolded flight_ok_def, rule_format, of "Suc (length es)"] by (simp add: flight_ok_def)
next
  assume a: "flight_ok M es \<and> card (in_flight (es @ [e])) \<le> M"
  have "card (in_flight (take n (es @ [e]))) \<le> M" for n
    using a by (cases "n \<le> length es") (auto simp: flight_ok_def)
  then show "flight_ok M (es @ [e])"
    by (simp add: flight_ok_def)
qed

text \<open>A node is settled: its row is recorded and its end is published.\<close>

definition settled :: "plannedTarget \<Rightarrow> bool \<Rightarrow> bool \<Rightarrow> cascade \<Rightarrow> cascade \<Rightarrow> bool" where
  "settled t can ok s s' \<longleftrightarrow> (\<exists>r e. row_for t can r \<and> (nr_outcome r = NodeOutcomeSucceeded \<longleftrightarrow> ok) \<and>
     (nr_outcome r = NodeOutcomeFailed \<longleftrightarrow> \<not> ok) \<and>
     se_node e = t_node t \<and> se_change e = (if ok then SystemUpdateNodeSucceeded else SystemUpdateNodeFailed) \<and>
     s' = s\<lparr>cc_grid := AList.update (t_node t) r (cc_grid s), cc_events := cc_events s @ [e]\<rparr>)"

lemma settled_recorded:
  "settled t can True s (node_evt SystemUpdateNodeSucceeded t can child (record_row t can NodeOutcomeSucceeded child det s))"
  "settled t can False s (node_evt SystemUpdateNodeFailed t can child (record_row t can NodeOutcomeFailed child det s))"
proof -
  let ?r = "\<lambda>out. (blank_row t can)\<lparr>nr_outcome := out, nr_child := child, nr_detail := det\<rparr>"
  let ?e = "\<lambda>ch. \<lparr>se_change = ch, se_node = t_node t, se_child = child, se_tier = t_tier t, se_canary = can\<rparr>"
  show "settled t can True s (node_evt SystemUpdateNodeSucceeded t can child (record_row t can NodeOutcomeSucceeded child det s))"
    unfolding settled_def
    by (rule exI [of _ "?r NodeOutcomeSucceeded"], rule exI [of _ "?e SystemUpdateNodeSucceeded"])
      (simp add: node_evt_def record_row_def row_for_def blank_row_def)
  show "settled t can False s (node_evt SystemUpdateNodeFailed t can child (record_row t can NodeOutcomeFailed child det s))"
    unfolding settled_def
    by (rule exI [of _ "?r NodeOutcomeFailed"], rule exI [of _ "?e SystemUpdateNodeFailed"])
      (simp add: node_evt_def record_row_def row_for_def blank_row_def)
qed

lemma start_one_cases:
  assumes "start_one drv can t s = (h, s')"
  obtains "h = None" "settled t can False s s'"
    | child e where "h = Some child" "se_node e = t_node t" "se_change e = SystemUpdateNodeStarted"
      "s' = s\<lparr>cc_events := cc_events s @ [e]\<rparr>"
proof (cases "d_submit drv t")
  case (Inl x)
  then have "h = None" and s': "s' = node_evt SystemUpdateNodeFailed t can []
      (record_row t can NodeOutcomeFailed [] (DetailSubmit x) s)"
    using assms by (simp_all add: start_one_def)
  moreover have "settled t can False s s'"
    unfolding s' by (rule settled_recorded)
  ultimately show ?thesis
    using that(1) by blast
next
  case (Inr child)
  let ?e = "\<lparr>se_change = SystemUpdateNodeStarted, se_node = t_node t, se_child = child, se_tier = t_tier t, se_canary = can\<rparr>"
  from Inr have "h = Some child" "s' = s\<lparr>cc_events := cc_events s @ [?e]\<rparr>"
    using assms by (simp_all add: start_one_def node_evt_def)
  then show ?thesis
    using that(2) [of child ?e] by simp
qed

lemma end_one_settled: "end_one drv can t child s = (ok, s') \<Longrightarrow> settled t can ok s s'"
  by (auto simp: end_one_def settled_recorded split: sum.splits if_splits)

lemma update_fresh: "i \<notin> fst ` set al \<Longrightarrow> AList.update i v al = al @ [(i, v)]"
  by (induction al) auto

lemma map_of_None_iff: "map_of al i = None \<longleftrightarrow> i \<notin> fst ` set al"
  by (induction al) auto

lemma attempted_iff: "attempted s t \<longleftrightarrow> t_node t \<in> fst ` set (cc_grid s)"
  by (simp add: attempted_def map_of_None_iff)

lemma settled_effects:
  assumes "settled t can ok s s'" "\<not> attempted s t"
  obtains r e where "row_for t can r" "nr_outcome r = (if ok then NodeOutcomeSucceeded else NodeOutcomeFailed)"
    "cc_grid s' = cc_grid s @ [(t_node t, r)]" "cc_events s' = cc_events s @ [e]" "se_node e = t_node t"
    "se_change e = (if ok then SystemUpdateNodeSucceeded else SystemUpdateNodeFailed)"
    "cc_spent s' = cc_spent s" "cc_canaries s' = cc_canaries s" "cc_failure s' = cc_failure s"
proof -
  from assms(1) obtain r e where re: "row_for t can r" "nr_outcome r = NodeOutcomeSucceeded \<longleftrightarrow> ok"
      "nr_outcome r = NodeOutcomeFailed \<longleftrightarrow> \<not> ok" "se_node e = t_node t"
      "se_change e = (if ok then SystemUpdateNodeSucceeded else SystemUpdateNodeFailed)"
      "s' = s\<lparr>cc_grid := AList.update (t_node t) r (cc_grid s), cc_events := cc_events s @ [e]\<rparr>"
    unfolding settled_def by blast
  moreover have "AList.update (t_node t) r (cc_grid s) = cc_grid s @ [(t_node t, r)]"
    using assms(2) by (intro update_fresh) (simp add: attempted_iff)
  ultimately show ?thesis
    using that [of r e] by auto
qed

lemma map_of_snoc: "map_of (al @ [(i, v)]) j = (case map_of al j of Some w \<Rightarrow> Some w | None \<Rightarrow> if j = i then Some v else None)"
  by (simp add: map_add_def split: option.split)

section \<open>The fan-out of a tier\<close>

definition grid_ok :: "cascade \<Rightarrow> bool" where
  "grid_ok s \<longleftrightarrow> distinct (map fst (cc_grid s)) \<and> ended_nodes (cc_events s) = fst ` set (cc_grid s)"

text \<open>Who is waiting and who is running; none of them has a row yet.\<close>

definition pool_ids :: "plannedTarget list \<Rightarrow> plannedTarget list \<Rightarrow> (plannedTarget \<times> string option) list \<Rightarrow> cascade \<Rightarrow> bool" where
  "pool_ids fan todo run s \<longleftrightarrow> set (map fst run @ todo) \<subseteq> set fan \<and> distinct (map t_node (map fst run @ todo)) \<and>
     (\<forall>t \<in> set (map fst run @ todo). \<not> attempted s t)"

text \<open>The rows of the fan-out are its own; every other row, tier and verdict is as it was.\<close>

definition fan_frame :: "NodeRole \<Rightarrow> plannedTarget list \<Rightarrow> cascade \<Rightarrow> cascade \<Rightarrow> bool" where
  "fan_frame T fan s0 s \<longleftrightarrow>
     (\<forall>t \<in> set fan. \<forall>r. map_of (cc_grid s) (t_node t) = Some r \<longrightarrow> row_for t False r) \<and>
     (\<forall>i. i \<notin> t_node ` set fan \<longrightarrow> map_of (cc_grid s) i = map_of (cc_grid s0) i) \<and>
     (\<forall>U. U \<noteq> T \<longrightarrow> map_of (cc_spent s) U = map_of (cc_spent s0) U \<and> failed_in U s = failed_in U s0) \<and>
     cc_canaries s = cc_canaries s0 \<and> cc_failure s = cc_failure s0"

definition budget_ok :: "nat \<Rightarrow> NodeRole \<Rightarrow> int \<Rightarrow> nat \<Rightarrow> cascade \<Rightarrow> bool" where
  "budget_ok K T B n s \<longleftrightarrow> n \<le> K \<and> (B \<noteq> UnlimitedFailures \<longrightarrow> int (failed_in T s) + int n \<le> B + int K - 1) \<and>
     (map_of (cc_spent s) T \<noteq> None \<longrightarrow> B \<noteq> UnlimitedFailures \<and> B \<le> int (failed_in T s))"

definition fan_covered :: "NodeRole \<Rightarrow> plannedTarget list \<Rightarrow> plannedTarget list \<Rightarrow> (plannedTarget \<times> string option) list \<Rightarrow> cascade \<Rightarrow> bool" where
  "fan_covered T fan todo run s \<longleftrightarrow>
     (\<forall>t \<in> set fan. attempted s t \<or> t \<in> set todo \<or> t \<in> fst ` set run \<or> map_of (cc_spent s) T \<noteq> None)"

definition submitted :: "(plannedTarget \<times> string option) list \<Rightarrow> string set" where
  "submitted run = t_node ` {t. \<exists>h. (t, Some h) \<in> set run}"

definition fan_flight :: "nat \<Rightarrow> (plannedTarget \<times> string option) list \<Rightarrow> cascade \<Rightarrow> bool" where
  "fan_flight M run s \<longleftrightarrow> flight_ok M (cc_events s) \<and> in_flight (cc_events s) = submitted run"

definition fan_inv :: "nat \<Rightarrow> nat \<Rightarrow> NodeRole \<Rightarrow> int \<Rightarrow> plannedTarget list \<Rightarrow> cascade
    \<Rightarrow> plannedTarget list \<Rightarrow> (plannedTarget \<times> string option) list \<Rightarrow> cascade \<Rightarrow> bool" where
  "fan_inv M K T B fan s0 todo run s \<longleftrightarrow> 1 \<le> K \<and> K \<le> M \<and> (\<forall>t \<in> set fan. t_tier t = T) \<and> inj_on t_node (set fan) \<and>
     grid_ok s \<and> pool_ids fan todo run s \<and> fan_frame T fan s0 s \<and> budget_ok K T B (length run) s \<and>
     fan_covered T fan todo run s \<and> fan_flight M run s"

subsection \<open>Removing a goroutine\<close>

lemma mset_remove_at: "i < length xs \<Longrightarrow> mset xs = add_mset (xs ! i) (mset (remove_at i xs))"
  using arg_cong [OF id_take_nth_drop [of i xs], of mset] by (simp add: remove_at_def)

lemma set_remove_at: "i < length xs \<Longrightarrow> set xs = insert (xs ! i) (set (remove_at i xs))"
  using arg_cong [OF mset_remove_at, of i xs set_mset] by simp

lemma map_remove_at: "map f (remove_at i xs) = remove_at i (map f xs)"
  by (simp add: remove_at_def take_map drop_map)

lemma distinct_middle: "distinct (ys @ z # zs) \<longleftrightarrow> z \<notin> set (ys @ zs) \<and> distinct (ys @ zs)"
  by auto

lemma distinct_remove_at:
  "i < length xs \<Longrightarrow> distinct xs \<longleftrightarrow> xs ! i \<notin> set (remove_at i xs) \<and> distinct (remove_at i xs)"
proof -
  assume "i < length xs"
  then have "distinct xs \<longleftrightarrow> distinct (take i xs @ xs ! i # drop (Suc i) xs)"
    by (metis id_take_nth_drop)
  then show ?thesis
    unfolding remove_at_def distinct_middle .
qed

lemma run_remove_at:
  assumes "i < length run" "run ! i = (t, ho)" "distinct (map t_node (map fst run @ todo))"
  shows "t \<notin> set (map fst (remove_at i run) @ todo)" "t_node t \<notin> t_node ` set (map fst (remove_at i run) @ todo)"
    "distinct (map t_node (map fst (remove_at i run) @ todo))"
    "fst ` set run = insert t (fst ` set (remove_at i run))"
proof -
  let ?ids = "map (\<lambda>r. t_node (fst r)) run"
  have "?ids ! i = t_node t" "i < length ?ids"
    using assms by simp_all
  moreover have d: "distinct ?ids" "distinct (map t_node todo)" "set ?ids \<inter> set (map t_node todo) = {}"
    using assms(3) by (auto simp: comp_def)
  moreover have "set ?ids = insert (?ids ! i) (set (remove_at i ?ids))"
    using calculation(2) by (rule set_remove_at)
  ultimately have ids: "t_node t \<notin> set (remove_at i ?ids)" "distinct (remove_at i ?ids)"
      "t_node t \<notin> set (map t_node todo)" "set (remove_at i ?ids) \<inter> set (map t_node todo) = {}"
    using distinct_remove_at [of i ?ids] by auto
  have m: "map t_node (map fst (remove_at i run)) = remove_at i ?ids"
    by (simp add: map_remove_at comp_def)
  then have "set (remove_at i ?ids) = t_node ` fst ` set (remove_at i run)"
    by (metis set_map)
  with ids show no: "t_node t \<notin> t_node ` set (map fst (remove_at i run) @ todo)"
    by auto
  then show "t \<notin> set (map fst (remove_at i run) @ todo)"
    by blast
  show "distinct (map t_node (map fst (remove_at i run) @ todo))"
    using ids d(2) m by (simp only: map_append distinct_append set_map [symmetric])
  show "fst ` set run = insert t (fst ` set (remove_at i run))"
    using set_remove_at [OF assms(1)] assms(2) by (metis fst_conv image_insert)
qed

subsection \<open>The actions of the pool\<close>

lemma failed_in_snoc:
  "cc_grid s' = cc_grid s @ [(i, r)] \<Longrightarrow> failed_in T s' =
     failed_in T s + (if nr_outcome r = NodeOutcomeFailed \<and> nr_tier r = T then 1 else 0)"
  by (simp add: failed_in_def)

lemma failed_in_same: "cc_grid s' = cc_grid s \<Longrightarrow> failed_in T s' = failed_in T s"
  by (simp add: failed_in_def)

lemma attempted_same: "cc_grid s' = cc_grid s \<Longrightarrow> attempted s' t = attempted s t"
  by (simp add: attempted_def)

lemma submitted_snoc [simp]: "submitted (run @ [(t, None)]) = submitted run"
  by (auto simp: submitted_def)

lemma submitted_Nil [simp]: "submitted [] = {}"
  by (simp add: submitted_def)

lemma finite_submitted [simp]: "finite (submitted run)"
proof -
  have "submitted run \<subseteq> (\<lambda>r. t_node (fst r)) ` set run"
    by (force simp: submitted_def)
  then show ?thesis
    by (rule finite_subset) simp
qed

lemma card_submitted: "card (submitted run) \<le> length run"
proof -
  have "submitted run \<subseteq> (\<lambda>r. t_node (fst r)) ` set run"
    by (force simp: submitted_def)
  then have "card (submitted run) \<le> card ((\<lambda>r. t_node (fst r)) ` set run)"
    by (rule card_mono [rotated]) simp
  also have "\<dots> \<le> card (set run)"
    by (rule card_image_le) simp
  also have "\<dots> \<le> length run"
    by (rule card_length)
  finally show ?thesis .
qed

lemma submitted_remove:
  assumes "i < length run" "run ! i = (t, ho)" "distinct (map t_node (map fst run @ todo))"
  shows "submitted (remove_at i run) = submitted run - {t_node t}"
proof -
  have s: "set run = insert (t, ho) (set (remove_at i run))"
    using set_remove_at [OF assms(1)] assms(2) by simp
  have "t_node t \<notin> t_node ` set (map fst (remove_at i run) @ todo)"
    by (rule run_remove_at [OF assms])
  then have "t_node t \<notin> submitted (remove_at i run)"
    by (force simp: submitted_def)
  moreover have "submitted run - {t_node t} = submitted (remove_at i run) - {t_node t}"
    using s by (auto simp: submitted_def)
  ultimately show ?thesis
    by simp
qed

lemma submitted_start:
  assumes "i < length run" "run ! i = (t, None)"
  shows "submitted (run[i := (t, Some h)]) = insert (t_node t) (submitted run)"
proof -
  have "set (run[i := (t, Some h)]) = insert (t, Some h) (set (remove_at i run))"
    using assms(1) by (simp add: set_append remove_at_def upd_conv_take_nth_drop)
  moreover have "set run = insert (t, None) (set (remove_at i run))"
    using set_remove_at [OF assms(1)] assms(2) by simp
  ultimately show ?thesis
    by (auto simp: submitted_def)
qed

lemma map_fst_start: "i < length run \<Longrightarrow> run ! i = (t, None) \<Longrightarrow> map fst (run[i := (t, Some h)]) = map fst run"
  by (simp add: map_update list_update_same_conv)

text \<open>A launch only moves a target from the list to the goroutines.\<close>

lemma fan_launch:
  assumes "fan_inv M K T B fan s0 (t # todo) run s" "length run < K" "mayStart T B s = (True, s')"
  shows "fan_inv M K T B fan s0 todo (run @ [(t, None)]) s'"
proof -
  from assms(3) have s': "s' = s" and b: "B \<noteq> UnlimitedFailures \<Longrightarrow> int (failed_in T s) < B"
    by (auto simp: mayStart_def Let_def split: if_splits)
  have "pool_ids fan todo (run @ [(t, None)]) s" "fan_covered T fan todo (run @ [(t, None)]) s"
    using assms(1) by (auto simp: fan_inv_def pool_ids_def fan_covered_def)
  moreover have "budget_ok K T B (length (run @ [(t, None)])) s"
    using assms(1,2) b by (auto simp: fan_inv_def budget_ok_def)
  ultimately show ?thesis
    using assms(1) by (simp add: fan_inv_def s' fan_flight_def)
qed

text \<open>A refusal ends the launches and, the first time, records the spent budget.\<close>

lemma fan_refuse:
  assumes "fan_inv M K T B fan s0 todo run s" "mayStart T B s = (False, s')"
  shows "fan_inv M K T B fan s0 [] run s'"
proof -
  let ?e = "\<lparr>se_change = SystemUpdateBudgetSpent, se_node = [], se_child = [], se_tier = T, se_canary = False\<rparr>"
  from assms(2) have b: "B \<noteq> UnlimitedFailures" "B \<le> int (failed_in T s)" and spent: "map_of (cc_spent s') T \<noteq> None"
    and g: "cc_grid s' = cc_grid s" "cc_canaries s' = cc_canaries s" "cc_failure s' = cc_failure s"
    and o: "\<And>U. U \<noteq> T \<Longrightarrow> map_of (cc_spent s') U = map_of (cc_spent s) U"
    and ev: "cc_events s' = cc_events s \<or> cc_events s' = cc_events s @ [?e]"
    by (auto simp: mayStart_def Let_def split: if_splits)
  have "in_flight (cc_events s @ [?e]) = in_flight (cc_events s)"
    by (simp add: in_flight_def)
  moreover have "card (submitted run) \<le> M"
    using card_submitted [of run] assms(1) by (simp add: fan_inv_def budget_ok_def)
  ultimately have "fan_flight M run s'" "ended_nodes (cc_events s') = ended_nodes (cc_events s)"
    using assms(1) ev by (auto simp: fan_inv_def fan_flight_def flight_ok_snoc)
  moreover have "pool_ids fan [] run s'"
    using assms(1) g by (auto simp: fan_inv_def pool_ids_def attempted_def)
  moreover have "fan_frame T fan s0 s'"
    using assms(1) g o failed_in_same [OF g(1)] by (simp add: fan_inv_def fan_frame_def)
  moreover have "budget_ok K T B (length run) s'"
    using assms(1) b failed_in_same [OF g(1)] by (simp add: fan_inv_def budget_ok_def)
  ultimately show ?thesis
    using assms(1) g spent by (simp add: fan_inv_def grid_ok_def fan_covered_def)
qed

text \<open>A submitted child is one more node in flight.\<close>

lemma fan_starts:
  assumes "fan_inv M K T B fan s0 todo run s" "i < length run" "run ! i = (t, None)"
    and "start_one drv False t s = (Some h, s')"
  shows "fan_inv M K T B fan s0 todo (run[i := (t, Some h)]) s'"
proof -
  from assms(4) obtain e where e: "se_node e = t_node t" "se_change e = SystemUpdateNodeStarted"
      "s' = s\<lparr>cc_events := cc_events s @ [e]\<rparr>"
    by (rule start_one_cases) auto
  let ?run = "run[i := (t, Some h)]"
  have "t \<in> set (map fst run @ todo)"
    using assms(2,3) nth_mem [OF assms(2)] by force
  then have "\<not> attempted s t"
    using assms(1) by (simp add: fan_inv_def pool_ids_def)
  then have "t_node t \<notin> ended_nodes (cc_events s)"
    using assms(1) by (simp add: fan_inv_def grid_ok_def attempted_iff)
  then have flight: "in_flight (cc_events s') = submitted ?run"
    using assms(1) e submitted_start [OF assms(2,3)] by (auto simp: fan_inv_def fan_flight_def in_flight_def)
  moreover have "card (submitted ?run) \<le> M"
    using card_submitted [of ?run] assms(1) by (simp add: fan_inv_def budget_ok_def)
  ultimately have "fan_flight M ?run s'"
    using assms(1) e by (simp add: fan_inv_def fan_flight_def flight_ok_snoc)
  moreover have "map fst ?run = map fst run"
    by (rule map_fst_start [OF assms(2,3)])
  moreover from this have "fst ` set ?run = fst ` set run"
    by (metis set_map)
  moreover have g: "cc_grid s' = cc_grid s" "cc_spent s' = cc_spent s" "cc_canaries s' = cc_canaries s"
      "cc_failure s' = cc_failure s" "ended_nodes (cc_events s') = ended_nodes (cc_events s)"
    using e by simp_all
  ultimately show ?thesis
    using assms(1) attempted_same [OF g(1)] failed_in_same [OF g(1)]
    by (simp add: fan_inv_def grid_ok_def pool_ids_def fan_frame_def budget_ok_def fan_covered_def)
qed

text \<open>A goroutine that ends leaves its row and is in flight no more.\<close>

lemma fan_settles:
  assumes "fan_inv M K T B fan s0 todo run s" "i < length run" "run ! i = (t, ho)" "settled t False ok s s'"
  shows "fan_inv M K T B fan s0 todo (remove_at i run) s'"
proof -
  let ?run = "remove_at i run"
  have dist: "distinct (map t_node (map fst run @ todo))" and fan: "set (map fst run @ todo) \<subseteq> set fan"
    and free: "\<forall>u \<in> set (map fst run @ todo). \<not> attempted s u"
    using assms(1) by (simp_all add: fan_inv_def pool_ids_def)
  note rem = run_remove_at [OF assms(2,3) dist]
  have t: "t \<in> set fan" "\<not> attempted s t" "t_tier t = T"
    using fan free rem(4) assms(1) by (auto simp: fan_inv_def)
  obtain r e where re: "row_for t False r" "nr_outcome r = (if ok then NodeOutcomeSucceeded else NodeOutcomeFailed)"
    "cc_grid s' = cc_grid s @ [(t_node t, r)]" "cc_events s' = cc_events s @ [e]" "se_node e = t_node t"
    "se_change e = (if ok then SystemUpdateNodeSucceeded else SystemUpdateNodeFailed)"
    "cc_spent s' = cc_spent s" "cc_canaries s' = cc_canaries s" "cc_failure s' = cc_failure s"
    by (rule settled_effects [OF assms(4) t(2)])
  have at: "attempted s' u \<longleftrightarrow> attempted s u \<or> t_node u = t_node t" for u
    by (auto simp: attempted_iff re(3))
  have tier: "nr_tier r = T"
    using re(1) t(3) by (simp add: row_for_def)
  have "grid_ok s'"
    using assms(1) t(2) re(3-6) by (auto simp: fan_inv_def grid_ok_def attempted_iff)
  moreover have "pool_ids fan todo ?run s'"
  proof -
    have sub: "set (map fst ?run @ todo) \<subseteq> set (map fst run @ todo)"
      using rem(4) by auto
    moreover have "\<not> attempted s' u" if u: "u \<in> set (map fst ?run @ todo)" for u
    proof -
      have "t_node u \<noteq> t_node t"
        using rem(2) u by (metis imageI)
      with sub u free at show ?thesis
        by blast
    qed
    ultimately show ?thesis
      using rem(3) fan unfolding pool_ids_def by blast
  qed
  moreover have "fan_frame T fan s0 s'"
  proof -
    have f: "fan_frame T fan s0 s"
      using assms(1) by (simp add: fan_inv_def)
    have "row_for u False w" if u: "u \<in> set fan" "map_of (cc_grid s') (t_node u) = Some w" for u w
    proof (cases "map_of (cc_grid s) (t_node u)")
      case None
      with u(2) have "t_node u = t_node t" "w = r"
        by (auto simp: re(3) map_of_snoc split: if_splits)
      moreover have "inj_on t_node (set fan)"
        using assms(1) by (simp add: fan_inv_def)
      ultimately show ?thesis
        using re(1) t(1) u(1) by (auto dest: inj_onD)
    next
      case (Some x)
      with u f show ?thesis
        by (auto simp: fan_frame_def re(3) map_of_snoc)
    qed
    moreover have "map_of (cc_grid s') j = map_of (cc_grid s0) j" if "j \<notin> t_node ` set fan" for j
    proof -
      have "j \<noteq> t_node t" "map_of (cc_grid s) j = map_of (cc_grid s0) j"
        using that f t(1) by (auto simp: fan_frame_def)
      then show ?thesis
        unfolding re(3) map_of_snoc by (simp split: option.splits)
    qed
    moreover have "failed_in U s' = failed_in U s" if "U \<noteq> T" for U
      using that tier by (simp add: failed_in_snoc [OF re(3)])
    ultimately show ?thesis
      using f by (simp add: fan_frame_def re)
  qed
  moreover have "budget_ok K T B (length ?run) s'"
    using assms(1,2) tier by (auto simp: fan_inv_def budget_ok_def failed_in_snoc [OF re(3)] re(7))
  moreover have "fan_covered T fan todo ?run s'"
    using assms(1) at rem(4) by (auto simp: fan_inv_def fan_covered_def re(7))
  moreover have "fan_flight M ?run s'"
  proof -
    have "in_flight (cc_events s') = submitted ?run"
      using assms(1) re(4-6) submitted_remove [OF assms(2,3) dist]
      by (auto simp: fan_inv_def fan_flight_def in_flight_def)
    moreover have "card (submitted ?run) \<le> M"
    proof -
      have "length run \<le> M"
        using assms(1) by (simp add: fan_inv_def budget_ok_def)
      with card_submitted [of ?run] assms(2) show ?thesis
        by simp
    qed
    ultimately show ?thesis
      using assms(1) re(4) by (simp add: fan_inv_def fan_flight_def flight_ok_snoc)
  qed
  ultimately show ?thesis
    using assms(1) by (simp add: fan_inv_def)
qed

interpretation fan_pool: bounded_pool K "mayStart T B" "start_one drv False"
  "\<lambda>t child s. snd (end_one drv False t child s)" "fan_inv M K T B fan s0" for M K T B drv fan s0
proof (unfold_locales, goal_cases)
  case (1 t todo run s s')
  moreover from 1(1) have "1 \<le> K"
    by (simp add: fan_inv_def)
  ultimately show ?case
    using fan_launch by (simp add: max_def split: if_splits)
next
  case (2 todo run s s')
  then show ?case
    by (rule fan_refuse)
next
  case (3 todo run s i t s')
  then have "settled t False False s s'"
    by (auto elim: start_one_cases)
  with 3 show ?case
    using fan_settles by blast
next
  case (4 todo run s i t h s')
  then show ?case
    by (rule fan_starts)
next
  case (5 todo run s i t h)
  obtain ok s' where "end_one drv False t h s = (ok, s')"
    by fastforce
  moreover from this have "settled t False ok s s'"
    by (rule end_one_settled)
  ultimately show ?case
    using fan_settles [OF 5] by simp
qed

end
