(* ===== verification/Fleet_Tiers.thy ===== *)
theory Fleet_Tiers
  imports Fleet_Cascade_Inv
begin

text \<open>
  The cascade over whole tiers: what a tier's canaries and fan-out leave behind, the invariant that
  holds between tiers, and where a run can stop.
\<close>

section \<open>At rest\<close>

definition rest :: "nat \<Rightarrow> cascade \<Rightarrow> bool" where
  "rest M s \<longleftrightarrow> grid_ok s \<and> flight_ok M (cc_events s) \<and> in_flight (cc_events s) = {}"

lemma rest_silent:
  assumes "rest M s" "cc_grid s' = cc_grid s" "cc_events s' = cc_events s @ [e]"
    and "se_change e \<notin> {SystemUpdateNodeStarted, SystemUpdateNodeSucceeded, SystemUpdateNodeFailed}"
  shows "rest M s'"
proof -
  have "in_flight (cc_events s') = in_flight (cc_events s)" "ended_nodes (cc_events s') = ended_nodes (cc_events s)"
    using assms(3,4) by (auto simp: in_flight_def)
  then show ?thesis
    using assms(1,2,3) by (simp add: rest_def grid_ok_def flight_ok_snoc)
qed

lemma rest_failure [simp]: "rest M (s\<lparr>cc_failure := x\<rparr>) = rest M s" "rest M (s\<lparr>cc_canaries := y\<rparr>) = rest M s"
  by (simp_all add: rest_def grid_ok_def)

lemma rest_gate:
  assumes "rest M s" "ch = SystemUpdateCanaryPassed \<or> ch = SystemUpdateCanaryFailed"
  shows "rest M (gate_evt ch c s)"
  by (rule rest_silent [OF assms(1), of _ "\<lparr>se_change = ch, se_node = t_node c, se_child = [], se_tier = t_tier c, se_canary = True\<rparr>"])
    (use assms(2) in \<open>auto simp: gate_evt_def\<close>)

lemma rest_settled:
  assumes "rest M s" "\<not> attempted s t" "settled t can ok s s'"
  shows "rest M s'"
proof -
  obtain r e where re: "cc_grid s' = cc_grid s @ [(t_node t, r)]" "cc_events s' = cc_events s @ [e]" "se_node e = t_node t"
    "se_change e = (if ok then SystemUpdateNodeSucceeded else SystemUpdateNodeFailed)"
    by (rule settled_effects [OF assms(3,2)])
  then have "in_flight (cc_events s') = {}" "grid_ok s'"
    using assms(1,2) by (auto simp: rest_def in_flight_def grid_ok_def attempted_iff)
  then show ?thesis
    using assms(1) re(2) by (simp add: rest_def flight_ok_snoc)
qed

text \<open>One node run alone: started and ended before anything else happens.\<close>

lemma rest_start_settled:
  assumes "rest M s" "1 \<le> M" "\<not> attempted s t" "se_node e = t_node t" "se_change e = SystemUpdateNodeStarted"
    and "settled t can ok (s\<lparr>cc_events := cc_events s @ [e]\<rparr>) s'"
  shows "rest M s'"
proof -
  let ?s1 = "s\<lparr>cc_events := cc_events s @ [e]\<rparr>"
  have n: "\<not> attempted ?s1 t"
    using assms(3) by (simp add: attempted_def)
  obtain r f where re: "cc_grid s' = cc_grid ?s1 @ [(t_node t, r)]" "cc_events s' = cc_events ?s1 @ [f]" "se_node f = t_node t"
    "se_change f = (if ok then SystemUpdateNodeSucceeded else SystemUpdateNodeFailed)"
    by (rule settled_effects [OF assms(6) n])
  have "t_node t \<notin> ended_nodes (cc_events s)"
    using assms(1,3) by (simp add: rest_def grid_ok_def attempted_iff)
  then have "in_flight (cc_events s @ [e]) = {t_node t}"
    using assms(1,4,5) by (auto simp: rest_def in_flight_def)
  then have "flight_ok M (cc_events s @ [e])"
    using assms(1,2) by (simp add: rest_def flight_ok_snoc)
  moreover have nodes: "started_nodes (cc_events s') = insert (t_node t) (started_nodes (cc_events s))"
      "ended_nodes (cc_events s') = insert (t_node t) (ended_nodes (cc_events s))"
    using assms(4,5) re(3,4) unfolding re(2) by (simp_all del: append_assoc)
  moreover have "in_flight (cc_events s') = {}"
    using assms(1) nodes by (auto simp: rest_def in_flight_def)
  moreover have "grid_ok s'"
    using assms(1,3) nodes re(1) by (auto simp: rest_def grid_ok_def attempted_iff)
  ultimately show ?thesis
    using re(2) by (simp add: rest_def flight_ok_snoc del: append_assoc)
qed

lemma runOne_effects:
  assumes "runOne drv can t s = (ok, s')" "rest M s" "1 \<le> M" "\<not> attempted s t"
  obtains r where "rest M s'" "row_for t can r" "nr_outcome r = (if ok then NodeOutcomeSucceeded else NodeOutcomeFailed)"
    "cc_grid s' = cc_grid s @ [(t_node t, r)]"
    "cc_spent s' = cc_spent s" "cc_canaries s' = cc_canaries s" "cc_failure s' = cc_failure s"
proof -
  obtain h s1 where st: "start_one drv can t s = (h, s1)"
    by fastforce
  then show ?thesis
  proof (cases rule: start_one_cases)
    case 1
    then have "ok = False" "s' = s1"
      using assms(1) st by (simp_all add: runOne_def)
    with 1(2) have set: "settled t can ok s s'"
      by simp
    from rest_settled [OF assms(2,4) set] settled_effects [OF set assms(4)] that show ?thesis
      by metis
  next
    case (2 child e)
    then have "end_one drv can t child s1 = (ok, s')"
      using assms(1) st by (simp add: runOne_def)
    then have "settled t can ok s1 s'"
      by (rule end_one_settled)
    with 2(4) have set: "settled t can ok (s\<lparr>cc_events := cc_events s @ [e]\<rparr>) s'"
      by simp
    have n: "\<not> attempted (s\<lparr>cc_events := cc_events s @ [e]\<rparr>) t"
      using assms(4) by (simp add: attempted_def)
    obtain r where "row_for t can r" "nr_outcome r = (if ok then NodeOutcomeSucceeded else NodeOutcomeFailed)"
      "cc_grid s' = cc_grid s @ [(t_node t, r)]" "cc_spent s' = cc_spent s" "cc_canaries s' = cc_canaries s"
      "cc_failure s' = cc_failure s"
      by (rule settled_effects [OF set n]) simp
    with rest_start_settled [OF assms(2-4) 2(2,3) set] that show ?thesis
      by blast
  qed
qed

section \<open>The canaries of a tier\<close>

text \<open>What running the canaries \<open>cs\<close> makes of \<open>s\<close>: only their rows are new.\<close>

definition canary_frame :: "plannedTarget list \<Rightarrow> cascade \<Rightarrow> cascade \<Rightarrow> bool" where
  "canary_frame cs s s' \<longleftrightarrow>
     (\<forall>i. i \<notin> t_node ` set cs \<longrightarrow> map_of (cc_grid s') i = map_of (cc_grid s) i) \<and>
     (\<forall>c \<in> set cs. \<forall>r. map_of (cc_grid s') (t_node c) = Some r \<longrightarrow> row_for c True r) \<and> cc_spent s' = cc_spent s"

definition canaries_passed :: "plannedTarget list \<Rightarrow> cascade \<Rightarrow> cascade \<Rightarrow> bool" where
  "canaries_passed cs s s' \<longleftrightarrow> (\<forall>c \<in> set cs. succeeded s' c) \<and> (\<forall>U. failed_in U s' = failed_in U s) \<and> cc_failure s' = cc_failure s"

definition canary_failed :: "plannedTarget list \<Rightarrow> cascade \<Rightarrow> cascade \<Rightarrow> bool" where
  "canary_failed cs s s' \<longleftrightarrow> (\<exists>c \<in> set cs. cc_failure s' = Some (t_node c, group_of c) \<and>
     (\<exists>r. map_of (cc_grid s') (t_node c) = Some r \<and> nr_outcome r = NodeOutcomeFailed) \<and>
     (\<forall>U. failed_in U s' = failed_in U s + (if U = t_tier c then 1 else 0)))"

lemma run_canaries_effects:
  assumes "run_canaries drv cs s = (ok, s')" "rest M s" "1 \<le> M" "distinct (map t_node cs)" "\<forall>c \<in> set cs. \<not> attempted s c"
  shows "rest M s' \<and> canary_frame cs s s' \<and> (if ok then canaries_passed cs s s' else canary_failed cs s s')"
  using assms
proof (induction cs arbitrary: s)
  case Nil
  then show ?case
    by (auto simp: canary_frame_def canaries_passed_def)
next
  case (Cons c cs)
  let ?s0 = "s\<lparr>cc_canaries := cc_canaries s @ [t_node c]\<rparr>"
  obtain ok1 s1 where r1: "runOne drv True c ?s0 = (ok1, s1)"
    by fastforce
  have s0: "rest M ?s0" "\<not> attempted ?s0 c" "failed_in U ?s0 = failed_in U s" for U
    using Cons.prems by (auto simp: rest_def grid_ok_def attempted_def failed_in_def)
  obtain r where r: "rest M s1" "row_for c True r" "nr_outcome r = (if ok1 then NodeOutcomeSucceeded else NodeOutcomeFailed)"
      "cc_grid s1 = cc_grid s @ [(t_node c, r)]" "cc_spent s1 = cc_spent s" "cc_failure s1 = cc_failure s"
    by (rule runOne_effects [OF r1 s0(1) Cons.prems(3) s0(2)]) simp
  have new: "map_of (cc_grid s1) (t_node c) = Some r"
    using Cons.prems(5) unfolding r(4) map_of_snoc by (simp add: attempted_def)
  have old: "map_of (cc_grid s1) i = map_of (cc_grid s) i" if "i \<noteq> t_node c" for i
    using that unfolding r(4) map_of_snoc by (simp split: option.splits)
  have fails: "failed_in U s1 = failed_in U s + (if \<not> ok1 \<and> U = t_tier c then 1 else 0)" for U
    using r(2,3) by (auto simp: failed_in_snoc [OF r(4)] row_for_def)
  show ?case
  proof (cases ok1)
    case False
    let ?s2 = "gate_evt SystemUpdateCanaryFailed c (s1\<lparr>cc_failure := Some (t_node c, group_of c)\<rparr>)"
    have s': "ok = False" "s' = ?s2"
      using Cons.prems(1) r1 False by simp_all
    have "rest M s'"
      unfolding s' by (rule rest_gate) (simp_all add: r(1))
    moreover have "canary_frame (c # cs) s s'"
      using old new r(2,5) Cons.prems(4,5) unfolding s'
      by (auto simp: canary_frame_def gate_evt_def attempted_def image_iff)
    moreover have "canary_failed (c # cs) s s'"
      using new r(3) fails False unfolding s' by (auto simp: canary_failed_def gate_evt_def failed_in_def)
    ultimately show ?thesis
      using s'(1) by simp
  next
    case True
    let ?s2 = "gate_evt SystemUpdateCanaryPassed c s1"
    have rec: "run_canaries drv cs ?s2 = (ok, s')"
      using Cons.prems(1) r1 True by simp
    have rest2: "rest M ?s2"
      by (rule rest_gate [OF r(1)]) simp
    have g2: "cc_grid ?s2 = cc_grid s1" "cc_spent ?s2 = cc_spent s" "cc_failure ?s2 = cc_failure s"
      using r(5,6) by (simp_all add: gate_evt_def)
    have f2: "failed_in U ?s2 = failed_in U s" for U
      using fails [of U] True by (simp add: failed_in_same [OF g2(1)])
    have fresh: "t_node c \<notin> t_node ` set cs" "distinct (map t_node cs)"
      using Cons.prems(4) by simp_all
    have free: "\<forall>d \<in> set cs. \<not> attempted ?s2 d"
    proof
      fix d
      assume d: "d \<in> set cs"
      then have "t_node d \<noteq> t_node c"
        using fresh(1) by (metis imageI)
      then show "\<not> attempted ?s2 d"
        using d Cons.prems(5) old [of "t_node d"] by (simp add: attempted_def g2(1))
    qed
    from Cons.IH [OF rec rest2 Cons.prems(3) fresh(2) free]
    have IH: "rest M s'" "canary_frame cs ?s2 s'" "if ok then canaries_passed cs ?s2 s' else canary_failed cs ?s2 s'"
      by simp_all
    have c': "map_of (cc_grid s') (t_node c) = Some r"
      using IH(2) fresh(1) new by (simp add: canary_frame_def g2(1))
    have "canary_frame (c # cs) s s'"
      using IH(2) old r(2) c' by (auto simp: canary_frame_def g2)
    moreover have "if ok then canaries_passed (c # cs) s s' else canary_failed (c # cs) s s'"
      using IH(3) c' r(3) True
      by (auto simp: canaries_passed_def canary_failed_def succeeded_def g2 f2 split: if_splits)
    ultimately show ?thesis
      using IH(1) by simp
  qed
qed

section \<open>The fan-out of a tier\<close>

lemma fan_out_effects:
  assumes "rest M s" "1 \<le> tier_width kn g" "tier_width kn g \<le> M" "0 \<le> tier_budget kn g"
    and "\<forall>t \<in> set fan. t_tier t = g_tier g" "distinct (map t_node fan)" "\<forall>t \<in> set fan. \<not> attempted s t"
    and "map_of (cc_spent s) (g_tier g) = None" "failed_in (g_tier g) s = 0"
    and "s' = fan_out drv kn g sch fan s"
  shows "rest M s' \<and> fan_frame (g_tier g) fan s s' \<and>
    budget_ok (tier_width kn g) (g_tier g) (tier_budget kn g) 0 s' \<and>
    (\<forall>t \<in> set fan. attempted s' t \<or> map_of (cc_spent s') (g_tier g) \<noteq> None)"
proof -
  let ?K = "tier_width kn g" and ?T = "g_tier g" and ?B = "tier_budget kn g"
  have "fan_frame ?T fan s s"
    using assms(7) by (auto simp: fan_frame_def attempted_def)
  moreover have "budget_ok ?K ?T ?B (length ([] :: (plannedTarget \<times> string option) list)) s"
    using assms(2,4,8,9) by (auto simp: budget_ok_def UnlimitedFailures_def)
  ultimately have "fan_inv M ?K ?T ?B fan s fan [] s"
    using assms(1-3,5-7)
    by (simp add: fan_inv_def rest_def pool_ids_def fan_covered_def fan_flight_def distinct_map)
  then have "fan_inv M ?K ?T ?B fan s [] [] s'"
    unfolding assms(10) fan_out_def by (rule fan_pool.runBounded_inv)
  then show ?thesis
    by (simp add: fan_inv_def rest_def fan_flight_def fan_covered_def)
qed

section \<open>A whole tier\<close>

definition done_tier :: "knobs \<Rightarrow> cascade \<Rightarrow> tierGroup \<Rightarrow> bool" where
  "done_tier kn s g \<longleftrightarrow> budget_ok (tier_width kn g) (g_tier g) (tier_budget kn g) 0 s \<and>
     (\<forall>t \<in> set (g_targets g). (t_canary t \<longrightarrow> succeeded s t) \<and> (attempted s t \<or> map_of (cc_spent s) (g_tier g) \<noteq> None))"

definition fresh_tier :: "cascade \<Rightarrow> tierGroup \<Rightarrow> bool" where
  "fresh_tier s g \<longleftrightarrow> (\<forall>t \<in> set (g_targets g). \<not> attempted s t) \<and> map_of (cc_spent s) (g_tier g) = None \<and>
     failed_in (g_tier g) s = 0"

text \<open>A tier that was stopped before its fan-out.\<close>

definition gated_tier :: "cascade \<Rightarrow> tierGroup \<Rightarrow> bool" where
  "gated_tier s g \<longleftrightarrow> (\<forall>t \<in> set (g_targets g). attempted s t \<longrightarrow> t_canary t) \<and> map_of (cc_spent s) (g_tier g) = None \<and>
     failed_in (g_tier g) s \<le> 1"

definition rows_ok :: "tierGroup \<Rightarrow> cascade \<Rightarrow> bool" where
  "rows_ok g s \<longleftrightarrow> (\<forall>t \<in> set (g_targets g). \<forall>r. map_of (cc_grid s) (t_node t) = Some r \<longrightarrow> row_for t (t_canary t) r)"

definition tier_frame :: "tierGroup \<Rightarrow> cascade \<Rightarrow> cascade \<Rightarrow> bool" where
  "tier_frame g s s' \<longleftrightarrow> (\<forall>i. i \<notin> t_node ` set (g_targets g) \<longrightarrow> map_of (cc_grid s') i = map_of (cc_grid s) i) \<and>
     (\<forall>U. U \<noteq> g_tier g \<longrightarrow> map_of (cc_spent s') U = map_of (cc_spent s) U \<and> failed_in U s' = failed_in U s)"

definition tier_ok :: "nat \<Rightarrow> knobs \<Rightarrow> tierGroup \<Rightarrow> bool" where
  "tier_ok M kn g \<longleftrightarrow> (\<forall>t \<in> set (g_targets g). t_tier t = g_tier g) \<and> distinct (map t_node (g_targets g)) \<and>
     1 \<le> tier_width kn g \<and> tier_width kn g \<le> M \<and> 0 \<le> tier_budget kn g"

lemma tier_partition:
  assumes "distinct (map t_node (g_targets g))" "split_tier g = (cs, fan)"
  shows "set (g_targets g) = set cs \<union> set fan" "distinct (map t_node cs)" "distinct (map t_node fan)"
    "t_node ` set cs \<inter> t_node ` set fan = {}" "\<forall>c \<in> set cs. t_canary c" "\<forall>t \<in> set fan. \<not> t_canary t"
proof -
  have cf: "cs = filter t_canary (g_targets g)" "fan = filter (\<lambda>t. \<not> t_canary t) (g_targets g)"
    using assms(2) by (simp_all add: split_tier_def)
  then show "set (g_targets g) = set cs \<union> set fan" "distinct (map t_node cs)" "distinct (map t_node fan)"
      "\<forall>c \<in> set cs. t_canary c" "\<forall>t \<in> set fan. \<not> t_canary t"
    using assms(1) by (auto simp: distinct_map_filter)
  have "inj_on t_node (set (g_targets g))"
    using assms(1) by (simp add: distinct_map)
  then show "t_node ` set cs \<inter> t_node ` set fan = {}"
    using cf by (auto dest: inj_onD)
qed

text \<open>What a tier stopped at its canaries leaves, whether one failed or the soak was cancelled.\<close>

lemma gated_effects:
  assumes "canary_frame cs s s'" "fresh_tier s g" "set (g_targets g) = set cs \<union> set fan"
    and "t_node ` set cs \<inter> t_node ` set fan = {}" "\<forall>c \<in> set cs. t_canary c"
    and "\<And>U. U \<noteq> g_tier g \<Longrightarrow> failed_in U s' = failed_in U s" "failed_in (g_tier g) s' \<le> 1"
  shows "tier_frame g s s'" "rows_ok g s'" "gated_tier s' g"
proof -
  show "tier_frame g s s'"
    using assms(1,3,6) by (auto simp: canary_frame_def tier_frame_def)
  have fan: "map_of (cc_grid s') (t_node t) = None" if "t \<in> set fan" for t
  proof -
    have "t_node t \<notin> t_node ` set cs"
      using assms(4) that by blast
    then show ?thesis
      using assms(1-3) that by (auto simp: canary_frame_def fresh_tier_def attempted_def)
  qed
  then show "rows_ok g s'" "gated_tier s' g"
    using assms(1,2,3,5,7) by (auto simp: rows_ok_def gated_tier_def canary_frame_def fresh_tier_def attempted_def)
qed

lemma run_tier_effects:
  assumes "run_tier drv kn g cancelled sch s = (out, s')" "rest M s" "tier_ok M kn g" "fresh_tier s g"
  shows "rest M s' \<and> tier_frame g s s' \<and> rows_ok g s' \<and>
    (case out of
       TierDone \<Rightarrow> done_tier kn s' g \<and> cc_failure s' = cc_failure s
     | TierAborted \<Rightarrow> gated_tier s' g \<and> (\<exists>c \<in> set (g_targets g). t_canary c \<and> cc_failure s' = Some (t_node c, group_of c) \<and>
         (\<exists>r. map_of (cc_grid s') (t_node c) = Some r \<and> nr_outcome r = NodeOutcomeFailed))
     | TierCancelled \<Rightarrow> gated_tier s' g \<and> cc_failure s' = cc_failure s)"
proof -
  obtain cs fan where split: "split_tier g = (cs, fan)"
    by fastforce
  have "distinct (map t_node (g_targets g))"
    using assms(3) by (simp add: tier_ok_def)
  note part = tier_partition [OF this split]
  obtain ok s1 where can: "run_canaries drv cs s = (ok, s1)"
    by fastforce
  have M: "1 \<le> M"
    using assms(3) by (simp add: tier_ok_def)
  have "\<forall>c \<in> set cs. \<not> attempted s c"
    using assms(4) part(1) by (simp add: fresh_tier_def)
  from run_canaries_effects [OF can assms(2) M part(2) this]
  have c: "rest M s1" "canary_frame cs s s1" "if ok then canaries_passed cs s s1 else canary_failed cs s s1"
    by simp_all
  have tiers: "t_tier t = g_tier g" if "t \<in> set cs \<union> set fan" for t
    using assms(3) part(1) that by (simp add: tier_ok_def)
  have f0: "failed_in (g_tier g) s = 0" "map_of (cc_spent s) (g_tier g) = None"
    using assms(4) by (simp_all add: fresh_tier_def)
  show ?thesis
  proof (cases ok)
    case False
    then have out: "out = TierAborted" "s' = s1"
      using assms(1) split can by (simp_all add: run_tier_def)
    from c(3) False obtain d where d: "d \<in> set cs" "cc_failure s1 = Some (t_node d, group_of d)"
        "\<exists>r. map_of (cc_grid s1) (t_node d) = Some r \<and> nr_outcome r = NodeOutcomeFailed"
        "\<And>U. failed_in U s1 = failed_in U s + (if U = t_tier d then 1 else 0)"
      by (auto simp: canary_failed_def)
    have "t_tier d = g_tier g"
      using tiers d(1) by simp
    then have "tier_frame g s s1" "rows_ok g s1" "gated_tier s1 g"
      using gated_effects [OF c(2) assms(4) part(1,4,5)] d(4) f0 by simp_all
    then show ?thesis
      using c(1) d(1-3) part(1,5) by (auto simp: out)
  next
    case True
    then have p: "\<forall>c \<in> set cs. succeeded s1 c" "\<And>U. failed_in U s1 = failed_in U s" "cc_failure s1 = cc_failure s"
      using c(3) by (simp_all add: canaries_passed_def)
    note gated = gated_effects [OF c(2) assms(4) part(1,4,5)]
    show ?thesis
    proof (cases "cs \<noteq> [] \<and> fan \<noteq> [] \<and> \<not> soak (k_soak kn) cancelled")
      case True
      then have "out = TierCancelled" "s' = s1"
        using assms(1) split can \<open>ok\<close> by (simp_all add: run_tier_def)
      then show ?thesis
        using gated p(2,3) f0 c(1) by simp
    next
      case False
      then have out: "out = TierDone" and s': "s' = fan_out drv kn g sch fan s1"
        using assms(1) split can \<open>ok\<close> by (auto simp: run_tier_def split: if_splits)
      have g1: "tier_frame g s s1" "rows_ok g s1" "gated_tier s1 g"
        using gated p(2) f0 by simp_all
      have "\<forall>t \<in> set fan. \<not> attempted s1 t"
        using g1(3) part(1,6) by (auto simp: gated_tier_def)
      moreover have "map_of (cc_spent s1) (g_tier g) = None" "failed_in (g_tier g) s1 = 0"
        using g1(3) p(2) f0 by (simp_all add: gated_tier_def)
      ultimately have f: "rest M s'" "fan_frame (g_tier g) fan s1 s'"
          "budget_ok (tier_width kn g) (g_tier g) (tier_budget kn g) 0 s'"
          "\<forall>t \<in> set fan. attempted s' t \<or> map_of (cc_spent s') (g_tier g) \<noteq> None"
        using fan_out_effects [OF c(1) _ _ _ _ part(3) _ _ _ s'] assms(3) tiers by (simp_all add: tier_ok_def)
      have cs: "map_of (cc_grid s') (t_node d) = map_of (cc_grid s1) (t_node d)" if "d \<in> set cs" for d
      proof -
        have "t_node d \<notin> t_node ` set fan"
          using part(4) that by blast
        then show ?thesis
          using f(2) by (simp add: fan_frame_def)
      qed
      have "tier_frame g s s'"
        using g1(1) f(2) part(1) by (auto simp: tier_frame_def fan_frame_def)
      moreover have "rows_ok g s'"
        using g1(2) f(2) part(1,6) cs by (auto simp: rows_ok_def fan_frame_def)
      moreover have "done_tier kn s' g"
        using f(3,4) p(1) cs part(1,6) by (auto simp: done_tier_def succeeded_def attempted_def)
      moreover have "cc_failure s' = cc_failure s"
        using f(2) p(3) by (simp add: fan_frame_def)
      ultimately show ?thesis
        using f(1) out by simp
    qed
  qed
qed

section \<open>All tiers\<close>

definition tiers_ok :: "nat \<Rightarrow> knobs \<Rightarrow> tierGroup list \<Rightarrow> bool" where
  "tiers_ok M kn gs \<longleftrightarrow> (\<forall>g \<in> set gs. tier_ok M kn g) \<and> distinct (map g_tier gs) \<and>
     distinct (map t_node (concat (map g_targets gs)))"

lemma disjoint_cover: "A \<subseteq> P \<union> Q \<Longrightarrow> P \<inter> C = {} \<Longrightarrow> Q \<inter> C = {} \<Longrightarrow> A \<inter> C = {}"
  by blast

lemma tiers_disjoint:
  assumes "tiers_ok M kn (pre @ g # post)" "h \<in> set pre \<union> set post"
  shows "g_tier h \<noteq> g_tier g" "t_node ` set (g_targets h) \<inter> t_node ` set (g_targets g) = {}"
proof -
  let ?ids = "\<lambda>gs. t_node ` set (concat (map g_targets gs))"
  have "g_tier g \<notin> g_tier ` (set pre \<union> set post)"
    using assms(1) by (auto simp: tiers_ok_def)
  then show "g_tier h \<noteq> g_tier g"
    using assms(2) by (metis imageI)
  have ids: "?ids pre \<inter> t_node ` set (g_targets g) = {}" "?ids post \<inter> t_node ` set (g_targets g) = {}"
    using assms(1) unfolding tiers_ok_def map_append list.map concat_append concat.simps distinct_append set_append set_map image_Un
    by (simp_all add: Int_Un_distrib Int_commute)
  have "t_node ` set (g_targets h) \<subseteq> ?ids pre \<union> ?ids post"
    using assms(2) by auto
  then show "t_node ` set (g_targets h) \<inter> t_node ` set (g_targets g) = {}"
    by (rule disjoint_cover [OF _ ids])
qed

lemma tier_frame_other:
  assumes "tier_frame g s s'" "g_tier h \<noteq> g_tier g" "t_node ` set (g_targets h) \<inter> t_node ` set (g_targets g) = {}"
  shows "done_tier kn s' h = done_tier kn s h" "fresh_tier s' h = fresh_tier s h" "rows_ok h s' = rows_ok h s"
proof -
  have g: "map_of (cc_grid s') (t_node t) = map_of (cc_grid s) (t_node t)" if "t \<in> set (g_targets h)" for t
  proof -
    have "t_node t \<notin> t_node ` set (g_targets g)"
      using assms(3) that by blast
    then show ?thesis
      using assms(1) by (simp add: tier_frame_def)
  qed
  moreover have "map_of (cc_spent s') (g_tier h) = map_of (cc_spent s) (g_tier h)"
      "failed_in (g_tier h) s' = failed_in (g_tier h) s"
    using assms(1,2) by (simp_all add: tier_frame_def)
  ultimately show "done_tier kn s' h = done_tier kn s h" "fresh_tier s' h = fresh_tier s h" "rows_ok h s' = rows_ok h s"
    by (simp_all add: done_tier_def fresh_tier_def rows_ok_def succeeded_def attempted_def budget_ok_def)
qed

definition keys_within :: "tierGroup list \<Rightarrow> cascade \<Rightarrow> bool" where
  "keys_within gs s \<longleftrightarrow> (\<forall>i. map_of (cc_grid s) i \<noteq> None \<longrightarrow> i \<in> t_node ` set (concat (map g_targets gs)))"

definition between :: "nat \<Rightarrow> knobs \<Rightarrow> tierGroup list \<Rightarrow> tierGroup list \<Rightarrow> cascade \<Rightarrow> bool" where
  "between M kn pre post s \<longleftrightarrow> rest M s \<and> (\<forall>g \<in> set pre. done_tier kn s g \<and> rows_ok g s) \<and> (\<forall>g \<in> set post. fresh_tier s g) \<and>
     keys_within pre s \<and> cc_failure s = None"

definition stopped :: "nat \<Rightarrow> knobs \<Rightarrow> tierGroup list \<Rightarrow> tierGroup \<Rightarrow> tierGroup list \<Rightarrow> cascade \<Rightarrow> bool" where
  "stopped M kn pre g post s \<longleftrightarrow> rest M s \<and> (\<forall>h \<in> set pre. done_tier kn s h \<and> rows_ok h s) \<and> gated_tier s g \<and> rows_ok g s \<and>
     (\<forall>h \<in> set post. fresh_tier s h) \<and> keys_within (pre @ [g]) s"

definition canary_tripped :: "tierGroup \<Rightarrow> cascade \<Rightarrow> bool" where
  "canary_tripped g s \<longleftrightarrow> (\<exists>c \<in> set (g_targets g). t_canary c \<and> cc_failure s = Some (t_node c, group_of c) \<and>
     (\<exists>r. map_of (cc_grid s) (t_node c) = Some r \<and> nr_outcome r = NodeOutcomeFailed))"

lemma keys_frame:
  assumes "keys_within pre s" "tier_frame g s s'"
  shows "keys_within (pre @ [g]) s'"
  unfolding keys_within_def
proof (intro allI impI)
  fix i
  assume i: "map_of (cc_grid s') i \<noteq> None"
  show "i \<in> t_node ` set (concat (map g_targets (pre @ [g])))"
  proof (cases "i \<in> t_node ` set (g_targets g)")
    case False
    then have "map_of (cc_grid s) i \<noteq> None"
      using assms(2) i by (simp add: tier_frame_def)
    then have "i \<in> t_node ` set (concat (map g_targets pre))"
      using assms(1) unfolding keys_within_def by blast
    then show ?thesis
      by (simp add: image_Un)
  qed (simp add: image_Un)
qed

lemma tier_step:
  assumes "between M kn pre (g # post) s" "tiers_ok M kn (pre @ g # post)" "run_tier drv kn g c sch s = (out, s')"
  shows "case out of
    TierDone \<Rightarrow> between M kn (pre @ [g]) post s'
  | TierAborted \<Rightarrow> stopped M kn pre g post s' \<and> canary_tripped g s'
  | TierCancelled \<Rightarrow> stopped M kn pre g post s' \<and> cc_failure s' = None"
proof -
  have g: "rest M s" "fresh_tier s g" "tier_ok M kn g"
    using assms(1,2) by (simp_all add: between_def tiers_ok_def)
  note eff = run_tier_effects [OF assms(3) g(1,3,2)]
  then have frame: "tier_frame g s s'"
    by simp
  have "done_tier kn s' h = done_tier kn s h" "fresh_tier s' h = fresh_tier s h" "rows_ok h s' = rows_ok h s"
    if "h \<in> set pre \<union> set post" for h
    using tier_frame_other [OF frame tiers_disjoint [OF assms(2) that]] by simp_all
  then have "\<forall>h \<in> set pre. done_tier kn s' h \<and> rows_ok h s'" "\<forall>h \<in> set post. fresh_tier s' h"
    using assms(1) by (simp_all add: between_def)
  moreover have "keys_within (pre @ [g]) s'"
    using assms(1) frame by (intro keys_frame) (simp_all add: between_def)
  ultimately show ?thesis
    using eff assms(1) by (cases out) (auto simp: between_def stopped_def canary_tripped_def)
qed

lemma run_tiers_effects:
  assumes "between M kn pre gs s" "tiers_ok M kn (pre @ gs)" "run_tiers drv kn gs schs s = (out, s')"
  shows "(out = TierDone \<and> between M kn (pre @ gs) [] s') \<or>
    (\<exists>p g q. gs = p @ g # q \<and> stopped M kn (pre @ p) g q s' \<and>
       (out = TierAborted \<and> canary_tripped g s' \<or> out = TierCancelled \<and> cc_failure s' = None))"
  using assms
proof (induction gs arbitrary: pre s schs)
  case (Cons g gs)
  obtain c sch where x: "(case schs of [] \<Rightarrow> (False, []) | x # _ \<Rightarrow> x) = (c, sch)"
    by fastforce
  obtain o1 s1 where r: "run_tier drv kn g c sch s = (o1, s1)"
    by fastforce
  note step = tier_step [OF Cons.prems(1,2) r]
  show ?case
  proof (cases o1)
    case TierDone
    then have "run_tiers drv kn gs (tl schs) s1 = (out, s')"
      using Cons.prems(3) r x by simp
    then have "(out = TierDone \<and> between M kn ((pre @ [g]) @ gs) [] s') \<or>
      (\<exists>p h q. gs = p @ h # q \<and> stopped M kn ((pre @ [g]) @ p) h q s' \<and>
       (out = TierAborted \<and> canary_tripped h s' \<or> out = TierCancelled \<and> cc_failure s' = None))"
      using step TierDone Cons.prems(2) by (intro Cons.IH) simp_all
    then show ?thesis
      by (metis Cons_eq_appendI append.assoc append_Cons append_Nil)
  next
    case TierAborted
    then have "out = TierAborted" "s' = s1"
      using Cons.prems(3) r x by simp_all
    then show ?thesis
      using step TierAborted by fastforce
  next
    case TierCancelled
    then have "out = TierCancelled" "s' = s1"
      using Cons.prems(3) r x by simp_all
    then show ?thesis
      using step TierCancelled by fastforce
  qed
qed simp

section \<open>Grouping a plan\<close>

lemma groupByTier_snoc: "groupByTier (ts @ [t]) = group_step t (groupByTier ts)"
  by (simp add: groupByTier_def)

lemma group_step_cases:
  obtains (same) xs x where "out = xs @ [x]" "g_tier x = t_tier t"
      "group_step t out = xs @ [x\<lparr>g_targets := g_targets x @ [t]\<rparr>]"
    | (new) "out = [] \<or> g_tier (last out) \<noteq> t_tier t" "group_step t out = out @ [\<lparr>g_tier = t_tier t, g_targets = [t]\<rparr>]"
  by (cases out rule: rev_cases) (auto simp: group_step_def)

lemma concat_groupByTier: "concat (map g_targets (groupByTier ts)) = ts"
proof (induction ts rule: rev_induct)
  case (snoc t ts)
  then show ?case
    by (cases rule: group_step_cases [of "groupByTier ts" t]) (simp_all add: groupByTier_snoc)
qed (simp add: groupByTier_def)

lemma groupByTier_tiers: "g \<in> set (groupByTier ts) \<Longrightarrow> t \<in> set (g_targets g) \<Longrightarrow> t_tier t = g_tier g"
proof (induction ts arbitrary: g t rule: rev_induct)
  case (snoc u ts)
  show ?case
  proof (cases rule: group_step_cases [of "groupByTier ts" u])
    case (same xs x)
    then have "g \<in> set (groupByTier ts) \<or> g = x\<lparr>g_targets := g_targets x @ [u]\<rparr>" "x \<in> set (groupByTier ts)"
      using snoc.prems(1) by (auto simp: groupByTier_snoc)
    then show ?thesis
      using snoc.IH same(2) snoc.prems(2) by auto
  next
    case new
    then show ?thesis
      using snoc by (auto simp: groupByTier_snoc)
  qed
qed (simp add: groupByTier_def)

lemma roleRank_inj: "ValidRole a \<Longrightarrow> ValidRole b \<Longrightarrow> roleRank a = roleRank b \<Longrightarrow> a = b"
  by (auto simp: ValidRole_def AllRoles_def roleRank_def split: if_splits)

lemma groupByTier_distinct:
  assumes "sorted (map (\<lambda>t. roleRank (t_tier t)) ts)" "\<forall>t \<in> set ts. ValidRole (t_tier t)"
  shows "distinct (map g_tier (groupByTier ts)) \<and> g_tier ` set (groupByTier ts) = t_tier ` set ts \<and>
    (ts \<noteq> [] \<longrightarrow> groupByTier ts \<noteq> [] \<and> g_tier (last (groupByTier ts)) = t_tier (last ts))"
  using assms
proof (induction ts rule: rev_induct)
  case (snoc t ts)
  let ?gs = "groupByTier ts"
  have IH: "distinct (map g_tier ?gs)" "g_tier ` set ?gs = t_tier ` set ts"
      "ts \<noteq> [] \<longrightarrow> ?gs \<noteq> [] \<and> g_tier (last ?gs) = t_tier (last ts)"
    using snoc by (simp_all add: sorted_append)
  show ?case
  proof (cases rule: group_step_cases [of ?gs t])
    case (same xs x)
    then have "map g_tier (group_step t ?gs) = map g_tier ?gs" "t_tier t \<in> g_tier ` set ?gs"
      by auto
    moreover from this(1) have "g_tier ` set (group_step t ?gs) = g_tier ` set ?gs"
      by (metis set_map)
    ultimately show ?thesis
      using IH same by (auto simp: groupByTier_snoc)
  next
    case new
    have "t_tier t \<notin> t_tier ` set ts"
    proof
      assume "t_tier t \<in> t_tier ` set ts"
      then obtain u where u: "u \<in> set ts" "t_tier u = t_tier t"
        by auto
      then have ne: "ts \<noteq> []"
        by auto
      have "roleRank (t_tier u) \<le> roleRank (t_tier (last ts))"
        using snoc.prems(1) u(1) by (induction ts) (auto simp: sorted_append)
      moreover have "roleRank (t_tier (last ts)) \<le> roleRank (t_tier t)"
        using snoc.prems(1) ne by (auto simp: sorted_append)
      ultimately have "roleRank (t_tier (last ts)) = roleRank (t_tier t)"
        using u(2) by simp
      then have "t_tier (last ts) = t_tier t"
        using snoc.prems(2) ne by (intro roleRank_inj) auto
      then show False
        using new(1) IH(3) ne by auto
    qed
    then show ?thesis
      using IH new by (auto simp: groupByTier_snoc)
  qed
qed (simp add: groupByTier_def)

end
