(* ===== verification/Fleet_Plan_Inv.thy ===== *)
theory Fleet_Plan_Inv
  imports Fleet_Plan
begin

text \<open>
  Lemmas about the plan: the loop of \<^verbatim>\<open>assignCanaries\<close> and what it guarantees of the chosen indices,
  the partition of the inventory into targets and skips, the order of the targets, and the grouping
  into tiers.
\<close>

section \<open>Lists\<close>

lemma map_filter_Some: "set (List.map_filter f xs) = {y. \<exists>x \<in> set xs. f x = Some y}"
  by (induction xs) (auto simp: List.map_filter_simps split: option.splits)

lemma map_filter_Nil_iff: "List.map_filter f xs = [] \<longleftrightarrow> (\<forall>x \<in> set xs. f x = None)"
  by (induction xs) (auto simp: List.map_filter_simps split: option.splits)

lemma map_filter_map: "List.map_filter f (map g xs) = List.map_filter (\<lambda>x. f (g x)) xs"
  by (induction xs) (auto simp: List.map_filter_simps split: option.splits)

lemma map_map_filter_total:
  "(\<And>x. x \<in> set xs \<Longrightarrow> \<exists>y. f x = Some y \<and> g y = h x) \<Longrightarrow> map g (List.map_filter f xs) = map h xs"
  by (induction xs) (fastforce simp: List.map_filter_simps)+

lemma sorted_map_filter:
  assumes "sorted (map k xs)" "\<And>x y. x \<in> set xs \<Longrightarrow> f x = Some y \<Longrightarrow> h y = k x"
  shows "sorted (map h (List.map_filter f xs))"
  using assms
proof (induction xs)
  case (Cons x xs)
  then have IH: "sorted (map h (List.map_filter f xs))"
    by simp
  show ?case
  proof (cases "f x")
    case (Some y)
    have "k x \<le> h z" if z: "z \<in> set (List.map_filter f xs)" for z
    proof -
      from z obtain w where "w \<in> set xs" "f w = Some z"
        by (auto simp: map_filter_Some)
      moreover from this have "h z = k w"
        using Cons.prems(2) by simp
      ultimately show ?thesis
        using Cons.prems(1) by simp
    qed
    moreover have "h y = k x"
      using Cons.prems(2) Some by simp
    ultimately show ?thesis
      using IH Some by (simp add: List.map_filter_simps)
  qed (simp add: IH List.map_filter_simps)
qed (simp add: List.map_filter_simps)

section \<open>Canaries\<close>

definition chosen_ok :: "plannedTarget list \<Rightarrow> (canaryGroup \<Rightarrow> nat option) \<Rightarrow> bool" where
  "chosen_ok ts ch \<longleftrightarrow>
     (\<forall>g i. ch g = Some i \<longrightarrow> i < length ts \<and> group_of (ts ! i) = g \<and> canaryEligible (cg_tier g)) \<and>
     (\<forall>t \<in> set ts. canaryEligible (t_tier t) \<longrightarrow> ch (group_of t) \<noteq> None)"

definition by_ok :: "plannedTarget list \<Rightarrow> (string \<Rightarrow> nat option) \<Rightarrow> bool" where
  "by_ok ts ix \<longleftrightarrow>
     (\<forall>i k. ix i = Some k \<longrightarrow> k < length ts \<and> t_node (ts ! k) = i) \<and> (\<forall>t \<in> set ts. ix (t_node t) \<noteq> None)"

lemma chosen_okD:
  assumes "chosen_ok ts ch" "ch g = Some i"
  shows "i < length ts" "group_of (ts ! i) = g" "canaryEligible (cg_tier g)"
  using assms unfolding chosen_ok_def by blast+

lemma chosen_ok_some: "chosen_ok ts ch \<Longrightarrow> t \<in> set ts \<Longrightarrow> canaryEligible (t_tier t) \<Longrightarrow> ch (group_of t) \<noteq> None"
  unfolding chosen_ok_def by blast

lemma by_okD:
  assumes "by_ok ts ix" "ix i = Some k"
  shows "k < length ts" "t_node (ts ! k) = i"
  using assms unfolding by_ok_def by blast+

lemma by_ok_some: "by_ok ts ix \<Longrightarrow> t \<in> set ts \<Longrightarrow> ix (t_node t) \<noteq> None"
  unfolding by_ok_def by blast

lemma default_choice_snoc:
  "default_choice (ts @ [t]) = choose_one (length ts, t) (default_choice ts)"
  by (simp add: default_choice_def enumerate_append_eq)

lemma cg_tier_group_of [simp]: "cg_tier (group_of t) = t_tier t"
  by (simp add: group_of_def)

lemma default_choice_ok: "chosen_ok ts (fst (default_choice ts)) \<and> by_ok ts (snd (default_choice ts))"
proof (induction ts rule: rev_induct)
  case Nil
  then show ?case
    by (simp add: default_choice_def chosen_ok_def by_ok_def)
next
  case (snoc t ts)
  obtain ch ix where d: "default_choice ts = (ch, ix)"
    by fastforce
  have c: "chosen_ok ts ch" and b: "by_ok ts ix"
    using snoc d by simp_all
  from c have "chosen_ok (ts @ [t]) (if canaryEligible (t_tier t) \<and> ch (group_of t) = None
      then ch(group_of t \<mapsto> length ts) else ch)"
    by (cases "canaryEligible (t_tier t) \<and> ch (group_of t) = None")
      (auto simp: chosen_ok_def nth_append less_Suc_eq split: if_splits)
  moreover from b have "by_ok (ts @ [t]) (ix(t_node t \<mapsto> length ts))"
    by (auto simp: by_ok_def nth_append less_Suc_eq split: if_splits)
  ultimately show ?case
    by (simp add: default_choice_snoc d choose_one_def fun_upd_def)
qed

lemma default_choice_first:
  "fst (default_choice ts) g = Some i \<Longrightarrow> j < i \<Longrightarrow> group_of (ts ! j) = g \<Longrightarrow> False"
proof (induction ts arbitrary: i rule: rev_induct)
  case (snoc t ts)
  obtain ch ix where d: "default_choice ts = (ch, ix)"
    by fastforce
  have ok: "chosen_ok ts ch"
    using default_choice_ok [of ts] d by simp
  show ?case
  proof (cases "ch g")
    case (Some k)
    then have "i = k" "k < length ts"
      using snoc.prems(1) ok by (auto simp: default_choice_snoc d choose_one_def chosen_ok_def split: if_splits)
    then show ?thesis
      using snoc Some d by (auto simp: nth_append)
  next
    case None
    then have "i = length ts" "g = group_of t" "canaryEligible (t_tier t)"
      using snoc.prems(1) by (auto simp: default_choice_snoc d choose_one_def split: if_splits)
    moreover from this have "ts ! j \<in> set ts" "t_tier (ts ! j) = t_tier t"
      using snoc.prems(2,3) by (auto simp: nth_append group_of_def)
    moreover have "group_of (ts ! j) = g"
      using snoc.prems(2,3) \<open>i = length ts\<close> by (simp add: nth_append)
    ultimately show ?thesis
      using chosen_ok_some [OF ok, of "ts ! j"] None by simp
  qed
qed (simp add: default_choice_def)

lemma apply_overrides_keep:
  "apply_overrides ts byID is taken ch = Inr ch' \<Longrightarrow> taken g \<noteq> None \<Longrightarrow> ch' g = ch g"
  by (induction ts byID "is" taken ch rule: apply_overrides.induct)
    (auto simp: Let_def split: option.splits if_splits)

lemma apply_overrides_ok:
  assumes "apply_overrides ts byID is taken ch = Inr ch'" "chosen_ok ts ch" "by_ok ts byID"
  shows "chosen_ok ts ch' \<and>
    (\<forall>i \<in> set is. \<exists>k. byID i = Some k \<and> ch' (group_of (ts ! k)) = Some k \<and> canaryEligible (t_tier (ts ! k))) \<and>
    (\<forall>g. ch' g \<noteq> ch g \<longrightarrow> (\<exists>i \<in> set is. \<exists>k. byID i = Some k \<and> group_of (ts ! k) = g))"
  using assms
proof (induction ts byID "is" taken ch rule: apply_overrides.induct)
  case (2 targets byID i "is" taken chosen)
  from "2.prems"(1) obtain k where k: "byID i = Some k"
      "canaryEligible (t_tier (targets ! k))" "taken (group_of (targets ! k)) = None"
    and rec: "apply_overrides targets byID is (taken(group_of (targets ! k) \<mapsto> i)) (chosen(group_of (targets ! k) \<mapsto> k)) = Inr ch'"
    by (auto simp: Let_def split: option.splits if_splits)
  let ?g = "group_of (targets ! k)"
  have "k < length targets"
    using k(1) "2.prems"(3) by (simp add: by_ok_def)
  then have "chosen_ok targets (chosen(?g \<mapsto> k))"
    using "2.prems"(2) k(2) unfolding chosen_ok_def by auto
  from "2.IH" [OF k(1) refl refl _ k(3) rec this "2.prems"(3)] k(2)
  have IH: "chosen_ok targets ch' \<and>
    (\<forall>i \<in> set is. \<exists>k. byID i = Some k \<and> ch' (group_of (targets ! k)) = Some k \<and> canaryEligible (t_tier (targets ! k))) \<and>
    (\<forall>g. ch' g \<noteq> (chosen(?g \<mapsto> k)) g \<longrightarrow> (\<exists>i \<in> set is. \<exists>k. byID i = Some k \<and> group_of (targets ! k) = g))"
    by simp
  have here: "ch' ?g = Some k"
    using apply_overrides_keep [OF rec, of ?g] by simp
  have "\<exists>j \<in> set (i # is). \<exists>k. byID j = Some k \<and> group_of (targets ! k) = g" if "ch' g \<noteq> chosen g" for g
  proof (cases "g = ?g")
    case True
    with k(1) show ?thesis
      by auto
  next
    case False
    with that IH show ?thesis
      by simp
  qed
  with IH here k(1,2) show ?case
    by simp
qed auto

lemma apply_overrides_total:
  "(\<exists>ch'. apply_overrides ts byID is taken ch = Inr ch') \<longleftrightarrow>
     (\<forall>i \<in> set is. \<exists>k. byID i = Some k \<and> canaryEligible (t_tier (ts ! k)) \<and> taken (group_of (ts ! k)) = None) \<and>
     distinct (map (\<lambda>i. group_of (ts ! the (byID i))) is)"
proof (induction "is" arbitrary: taken ch)
  case (Cons i "is")
  show ?case
  proof (cases "\<exists>k. byID i = Some k \<and> canaryEligible (t_tier (ts ! k)) \<and> taken (group_of (ts ! k)) = None")
    case True
    then obtain k where k: "byID i = Some k" "canaryEligible (t_tier (ts ! k))" "taken (group_of (ts ! k)) = None"
      by blast
    let ?g = "group_of (ts ! k)"
    have step: "apply_overrides ts byID (i # is) taken ch = apply_overrides ts byID is (taken(?g \<mapsto> i)) (ch(?g \<mapsto> k))"
      using k by (simp add: Let_def)
    have later: "(\<forall>j \<in> set is. \<exists>m. byID j = Some m \<and> canaryEligible (t_tier (ts ! m)) \<and>
          (taken(?g \<mapsto> i)) (group_of (ts ! m)) = None) \<longleftrightarrow>
        (\<forall>j \<in> set is. \<exists>m. byID j = Some m \<and> canaryEligible (t_tier (ts ! m)) \<and> taken (group_of (ts ! m)) = None) \<and>
        ?g \<notin> set (map (\<lambda>i. group_of (ts ! the (byID i))) is)"
    proof -
      have upd: "(taken(?g \<mapsto> i)) h = None \<longleftrightarrow> h \<noteq> ?g \<and> taken h = None" for h
        by simp
      show ?thesis
        unfolding upd set_map image_iff by (metis option.sel)
    qed
    have head: "(\<forall>j \<in> set (i # is). \<exists>m. byID j = Some m \<and> canaryEligible (t_tier (ts ! m)) \<and> taken (group_of (ts ! m)) = None)
        \<longleftrightarrow> (\<forall>j \<in> set is. \<exists>m. byID j = Some m \<and> canaryEligible (t_tier (ts ! m)) \<and> taken (group_of (ts ! m)) = None)"
      "group_of (ts ! the (byID i)) = ?g"
      using k by auto
    show ?thesis
      unfolding step Cons.IH later head(1) by (simp add: head(2) k(1) conj_assoc)
  next
    case False
    then show ?thesis
      by (auto simp: Let_def split: option.splits if_splits)
  qed
qed simp

text \<open>Marking every chosen index is marking the index the group of each target chose.\<close>

lemma marks_chosen: "chosen_ok ts ch \<Longrightarrow> (\<exists>g. ch g = Some i) \<longleftrightarrow> i < length ts \<and> ch (group_of (ts ! i)) = Some i"
  unfolding chosen_ok_def by blast

lemma assignCanaries_Inr:
  assumes "assignCanaries ts ov = Inr ts'"
  obtains ch byID where "chosen_ok ts ch" "by_ok ts byID"
    "ts' = map (\<lambda>(i, t). if ch (group_of t) = Some i then t\<lparr>t_canary := True\<rparr> else t) (List.enumerate 0 ts)"
    "\<forall>i \<in> set ov. \<exists>k. byID i = Some k \<and> ch (group_of (ts ! k)) = Some k \<and> canaryEligible (t_tier (ts ! k))"
proof -
  obtain ch0 byID where d: "default_choice ts = (ch0, byID)"
    by fastforce
  from assms d obtain ch where ch: "apply_overrides ts byID ov Map.empty ch0 = Inr ch"
      "ts' = map (\<lambda>(i, t). if ch (group_of t) = Some i then t\<lparr>t_canary := True\<rparr> else t) (List.enumerate 0 ts)"
    by (auto simp: assignCanaries_def split: sum.splits)
  have ok: "chosen_ok ts ch0" "by_ok ts byID"
    using default_choice_ok [of ts] d by simp_all
  from apply_overrides_ok [OF ch(1) ok] show ?thesis
    using that [of ch byID] ok(2) ch(2) by blast
qed

lemma assignCanaries_fields:
  assumes "assignCanaries ts ov = Inr ts'"
  shows "map (\<lambda>t. t\<lparr>t_canary := False\<rparr>) ts' = map (\<lambda>t. t\<lparr>t_canary := False\<rparr>) ts"
  using assms
proof (rule assignCanaries_Inr)
  fix ch byID
  assume ts': "ts' = map (\<lambda>(i, t). if ch (group_of t) = Some i then t\<lparr>t_canary := True\<rparr> else t) (List.enumerate 0 ts)"
  show ?thesis
    unfolding ts' by (rule nth_equalityI) (auto simp: nth_enumerate_eq)
qed

lemma map_canary_free:
  assumes "map (\<lambda>t. t\<lparr>t_canary := False\<rparr>) ts' = map (\<lambda>t. t\<lparr>t_canary := False\<rparr>) ts"
    and "\<And>t b. k (t\<lparr>t_canary := b\<rparr>) = k t"
  shows "map k ts' = map k ts"
proof -
  have "map (k \<circ> (\<lambda>t. t\<lparr>t_canary := False\<rparr>)) ts' = map (k \<circ> (\<lambda>t. t\<lparr>t_canary := False\<rparr>)) ts"
    using assms(1) by (metis map_map)
  then show ?thesis
    by (simp add: comp_def assms(2))
qed

lemma assignCanaries_map:
  "assignCanaries ts ov = Inr ts' \<Longrightarrow> (\<And>t b. k (t\<lparr>t_canary := b\<rparr>) = k t) \<Longrightarrow> map k ts' = map k ts"
  by (rule map_canary_free) (rule assignCanaries_fields)

lemma assignCanaries_nth:
  assumes "assignCanaries ts ov = Inr ts'" "\<forall>t \<in> set ts. \<not> t_canary t"
  obtains ch byID where "chosen_ok ts ch" "by_ok ts byID" "length ts' = length ts"
    "\<forall>i < length ts. group_of (ts' ! i) = group_of (ts ! i) \<and> t_node (ts' ! i) = t_node (ts ! i) \<and>
       (t_canary (ts' ! i) \<longleftrightarrow> ch (group_of (ts ! i)) = Some i)"
    "\<forall>i \<in> set ov. \<exists>k. byID i = Some k \<and> ch (group_of (ts ! k)) = Some k \<and> canaryEligible (t_tier (ts ! k))"
  using assms(1)
proof (rule assignCanaries_Inr)
  fix ch byID
  assume a: "chosen_ok ts ch" "by_ok ts byID"
    and ts': "ts' = map (\<lambda>(i, t). if ch (group_of t) = Some i then t\<lparr>t_canary := True\<rparr> else t) (List.enumerate 0 ts)"
    and ov: "\<forall>i \<in> set ov. \<exists>k. byID i = Some k \<and> ch (group_of (ts ! k)) = Some k \<and> canaryEligible (t_tier (ts ! k))"
  have "\<forall>i < length ts. group_of (ts' ! i) = group_of (ts ! i) \<and> t_node (ts' ! i) = t_node (ts ! i) \<and>
       (t_canary (ts' ! i) \<longleftrightarrow> ch (group_of (ts ! i)) = Some i)"
    using assms(2) by (auto simp: ts' nth_enumerate_eq group_of_def)
  moreover have "length ts' = length ts"
    by (simp add: ts')
  ultimately show ?thesis
    using that [OF a _ _ ov] by blast
qed

lemma assignCanaries_default:
  assumes "assignCanaries ts [] = Inr ts'" "\<forall>t \<in> set ts. \<not> t_canary t"
    and "k < length ts'" "t_canary (ts' ! k)" "j < k"
  shows "group_of (ts' ! j) \<noteq> group_of (ts' ! k)"
proof -
  obtain ch ix where d: "default_choice ts = (ch, ix)"
    by fastforce
  have ts': "ts' = map (\<lambda>(i, t). if ch (group_of t) = Some i then t\<lparr>t_canary := True\<rparr> else t) (List.enumerate 0 ts)"
    using assms(1) by (simp add: assignCanaries_def d)
  have g: "group_of (ts' ! i) = group_of (ts ! i)" if "i < length ts" for i
    using that by (auto simp: ts' nth_enumerate_eq group_of_def)
  have len: "length ts' = length ts"
    by (simp add: ts')
  have "ch (group_of (ts ! k)) = Some k"
    using assms(2-4) by (auto simp: ts' nth_enumerate_eq split: if_splits)
  then show ?thesis
    using default_choice_first [of ts "group_of (ts ! k)" k j] g [of j] g [of k] assms(3,5) d len by auto
qed

lemma canary_count:
  assumes "assignCanaries ts ov = Inr ts'" "\<forall>t \<in> set ts. \<not> t_canary t"
  shows "length (filter (\<lambda>t. t_canary t \<and> group_of t = g) ts')
    = (if canaryEligible (cg_tier g) \<and> (\<exists>t \<in> set ts'. group_of t = g) then 1 else 0)"
  using assms
proof (rule assignCanaries_nth)
  fix ch byID
  assume ok: "chosen_ok ts ch" and len: "length ts' = length ts"
    and at: "\<forall>i < length ts. group_of (ts' ! i) = group_of (ts ! i) \<and> t_node (ts' ! i) = t_node (ts ! i) \<and>
       (t_canary (ts' ! i) \<longleftrightarrow> ch (group_of (ts ! i)) = Some i)"
  have "{i. i < length ts' \<and> t_canary (ts' ! i) \<and> group_of (ts' ! i) = g} = {i. ch g = Some i}"
    using chosen_okD [OF ok] at len by (metis (mono_tags, lifting))
  then have count: "length (filter (\<lambda>t. t_canary t \<and> group_of t = g) ts') = card {i. ch g = Some i}"
    by (simp add: length_filter_conv_card)
  have "ch g \<noteq> None \<longleftrightarrow> canaryEligible (cg_tier g) \<and> (\<exists>t \<in> set ts'. group_of t = g)"
  proof
    assume "ch g \<noteq> None"
    then obtain i where i: "ch g = Some i"
      by blast
    then have "i < length ts" "group_of (ts ! i) = g" "canaryEligible (cg_tier g)"
      using chosen_okD [OF ok] by blast+
    then show "canaryEligible (cg_tier g) \<and> (\<exists>t \<in> set ts'. group_of t = g)"
      using at len by (metis nth_mem)
  next
    assume a: "canaryEligible (cg_tier g) \<and> (\<exists>t \<in> set ts'. group_of t = g)"
    then obtain i where "i < length ts" "group_of (ts ! i) = g"
      using at len by (metis in_set_conv_nth)
    moreover from this have "canaryEligible (t_tier (ts ! i))"
      using a by (metis cg_tier_group_of)
    ultimately show "ch g \<noteq> None"
      using chosen_ok_some [OF ok] nth_mem by blast
  qed
  with count show ?thesis
    by (cases "ch g") auto
qed

lemma canary_override:
  assumes "assignCanaries ts ov = Inr ts'" "\<forall>t \<in> set ts. \<not> t_canary t" "i \<in> set ov"
  shows "\<exists>t \<in> set ts'. t_node t = i \<and> t_canary t"
  using assms(1,2)
proof (rule assignCanaries_nth)
  fix ch byID
  assume ok: "by_ok ts byID" and len: "length ts' = length ts"
    and at: "\<forall>i < length ts. group_of (ts' ! i) = group_of (ts ! i) \<and> t_node (ts' ! i) = t_node (ts ! i) \<and>
       (t_canary (ts' ! i) \<longleftrightarrow> ch (group_of (ts ! i)) = Some i)"
    and ov: "\<forall>i \<in> set ov. \<exists>k. byID i = Some k \<and> ch (group_of (ts ! k)) = Some k \<and> canaryEligible (t_tier (ts ! k))"
  from ov assms(3) obtain k where "byID i = Some k" "ch (group_of (ts ! k)) = Some k"
    by blast
  moreover from this have "k < length ts" "t_node (ts ! k) = i"
    using by_okD [OF ok] by blast+
  ultimately show ?thesis
    using at len by (metis nth_mem)
qed

lemma by_distinct:
  assumes "by_ok ts byID" "distinct (map t_node ts)" "k < length ts"
  shows "byID (t_node (ts ! k)) = Some k"
proof -
  obtain m where m: "byID (t_node (ts ! k)) = Some m"
    using by_ok_some [OF assms(1)] assms(3) nth_mem by blast
  then have "m < length ts" "t_node (ts ! m) = t_node (ts ! k)"
    using by_okD [OF assms(1)] by blast+
  then have "m = k"
    using assms(2,3) by (simp add: distinct_conv_nth) blast
  with m show ?thesis
    by simp
qed

lemma overrides_iff:
  assumes "distinct (map t_node ts)"
  shows "(\<exists>ts'. assignCanaries ts ov = Inr ts') \<longleftrightarrow>
    (\<exists>us. list_all2 (\<lambda>i t. t \<in> set ts \<and> t_node t = i \<and> canaryEligible (t_tier t)) ov us \<and> distinct (map group_of us))"
proof -
  obtain ch byID where d: "default_choice ts = (ch, byID)"
    by fastforce
  have ok: "by_ok ts byID"
    using default_choice_ok [of ts] d by simp
  have at: "(\<exists>k. byID i = Some k \<and> P (ts ! k)) \<longleftrightarrow> (\<exists>t \<in> set ts. t_node t = i \<and> P t)" for i P
  proof
    assume "\<exists>k. byID i = Some k \<and> P (ts ! k)"
    then show "\<exists>t \<in> set ts. t_node t = i \<and> P t"
      using by_okD [OF ok] by (metis nth_mem)
  next
    assume "\<exists>t \<in> set ts. t_node t = i \<and> P t"
    then show "\<exists>k. byID i = Some k \<and> P (ts ! k)"
      using by_distinct [OF ok assms] by (metis in_set_conv_nth)
  qed
  have the: "ts ! the (byID i) = t" if "t \<in> set ts" "t_node t = i" for i t
    using that by_distinct [OF ok assms] by (metis in_set_conv_nth option.sel)
  let ?P = "\<lambda>i t. t \<in> set ts \<and> t_node t = i \<and> canaryEligible (t_tier t)"
  have "(\<exists>ts'. assignCanaries ts ov = Inr ts') \<longleftrightarrow> (\<exists>ch'. apply_overrides ts byID ov Map.empty ch = Inr ch')"
    by (auto simp: assignCanaries_def d split: sum.splits)
  also have "\<dots> \<longleftrightarrow> (\<forall>i \<in> set ov. \<exists>t. ?P i t) \<and> distinct (map (\<lambda>i. group_of (ts ! the (byID i))) ov)"
    using at [of _ "\<lambda>t. canaryEligible (t_tier t)"] by (simp add: apply_overrides_total Bex_def)
  also have "\<dots> \<longleftrightarrow> (\<exists>us. list_all2 ?P ov us \<and> distinct (map group_of us))"
  proof
    assume l: "(\<forall>i \<in> set ov. \<exists>t. ?P i t) \<and> distinct (map (\<lambda>i. group_of (ts ! the (byID i))) ov)"
    let ?us = "map (\<lambda>i. ts ! the (byID i)) ov"
    have "?P i (ts ! the (byID i))" if "i \<in> set ov" for i
      using l that the by metis
    then have "list_all2 ?P ov ?us"
      by (simp add: list_all2_map2 list_all2_same)
    moreover have "distinct (map group_of ?us)"
      using l by (simp add: comp_def)
    ultimately show "\<exists>us. list_all2 ?P ov us \<and> distinct (map group_of us)"
      by blast
  next
    assume "\<exists>us. list_all2 ?P ov us \<and> distinct (map group_of us)"
    then obtain us where us: "list_all2 ?P ov us" "distinct (map group_of us)"
      by blast
    then have len: "length ov = length us" and nth: "\<And>k. k < length ov \<Longrightarrow> ?P (ov ! k) (us ! k)"
      by (auto simp: list_all2_conv_all_nth)
    have "map (\<lambda>i. ts ! the (byID i)) ov = us"
      using the nth by (intro nth_equalityI) (simp_all add: len)
    then have "map (\<lambda>i. group_of (ts ! the (byID i))) ov = map group_of us"
      by auto
    moreover have "\<exists>t. ?P i t" if "i \<in> set ov" for i
      using that nth by (metis in_set_conv_nth)
    ultimately show "(\<forall>i \<in> set ov. \<exists>t. ?P i t) \<and> distinct (map (\<lambda>i. group_of (ts ! the (byID i))) ov)"
      using us(2) by simp
  qed
  finally show ?thesis .
qed

section \<open>Targets and skips\<close>

lemma skip_node [simp]: "sk_node (skip n r d) = n_id n"
  by (simp add: skip_def)

lemma plan_node_id: "plan_node clock ex c n = Some k \<Longrightarrow> sk_node k = n_id n"
  by (auto simp: plan_node_def split: if_splits option.splits)

lemma filter_map_filter_mset:
  assumes "\<And>n k. f n = Some k \<Longrightarrow> h k = g n"
  shows "mset (map g (filter (\<lambda>n. f n = None) ns)) + mset (map h (List.map_filter f ns)) = mset (map g ns)"
  by (induction ns) (auto simp: List.map_filter_simps assms split: option.splits)

lemma planTargets_partition:
  assumes "planTargets clock nodes ex c self = (ts, ks)"
  shows "mset (map n_id ts) + mset (map sk_node ks) = mset (map n_id nodes)"
proof -
  have "mset (map n_id ts) = mset (map n_id (filter (\<lambda>n. plan_node clock ex c n = None) nodes))"
    using assms by (auto simp: planTargets_def)
  then show ?thesis
    using assms filter_map_filter_mset [of "plan_node clock ex c" sk_node n_id nodes]
    by (auto simp: planTargets_def dest: plan_node_id)
qed

lemma planTargets_target:
  "planTargets clock nodes ex c self = (ts, ks) \<Longrightarrow> n \<in> set ts \<longleftrightarrow> n \<in> set nodes \<and> plan_node clock ex c n = None"
  by (auto simp: planTargets_def)

lemma planTargets_sorted: "planTargets clock nodes ex c self = (ts, ks) \<Longrightarrow> sorted (map (plan_key self) ts)"
  by (auto simp: planTargets_def)

lemma plan_node_None:
  "plan_node clock ex c n = None \<Longrightarrow>
     n_id n \<notin> set ex \<and> computeStatus (clock n) (n_last_seen n) = StatusOnline \<and>
     (c \<noteq> [] \<longrightarrow> expectedCompatible n = Some c)"
  by (auto simp: plan_node_def split: if_splits option.splits)

lemma resolve_partition:
  assumes "List.map_filter res_missing (map (resolve_node cm staged) ns) = []"
  shows "mset (map t_node (List.map_filter res_target (map (resolve_node cm staged) ns)))
       + mset (map sk_node (List.map_filter res_skip (map (resolve_node cm staged) ns))) = mset (map n_id ns)"
  using assms
proof (induction ns)
  case (Cons n ns)
  then show ?case
    by (cases "resolve_node cm staged n")
      (auto simp: List.map_filter_simps resolve_node_def split: option.splits if_splits)
qed (simp add: List.map_filter_simps)

lemma res_target_resolve:
  "res_target (resolve_node cm staged n) = Some t \<longleftrightarrow>
     (\<exists>want b. expectedCompatible n = Some want \<and> componentCovers cm want \<and> staged want = Some b \<and>
        t = \<lparr>t_node = n_id n, t_bundle = b_sha256 b, t_compatible = want, t_tier = n_role n, t_canary = False\<rparr>)"
  by (auto simp: resolve_node_def split: option.splits if_splits)

lemma staged_sound:
  "stagedByCompatible v bs sku = Some b \<Longrightarrow> b \<in> set bs \<and> b_version b = v \<and> b_compatible b = sku \<and> sku \<noteq> []"
proof -
  let ?step = "\<lambda>b out. if b_version b \<noteq> v \<or> b_compatible b = [] then out
     else if out (b_compatible b) = None then out(b_compatible b \<mapsto> b) else out"
  have "fold ?step bs out sku = Some b \<Longrightarrow>
      out sku = Some b \<or> (b \<in> set bs \<and> b_version b = v \<and> b_compatible b = sku \<and> sku \<noteq> [])" for out
  proof (induction bs arbitrary: out)
    case (Cons x xs)
    from Cons.IH [of "?step x out"] Cons.prems show ?case
      by (auto split: if_splits)
  qed simp
  from this [of Map.empty] show "stagedByCompatible v bs sku = Some b \<Longrightarrow> ?thesis"
    by (simp add: stagedByCompatible_def)
qed

section \<open>Plans\<close>

text \<open>
  What a successful plan rests on: the listed inventory, the nodes that were planned, and the
  bundle of each.
\<close>

definition target_key :: "string \<Rightarrow> plannedTarget \<Rightarrow> nat \<times> bool \<times> string" where
  "target_key self t = (roleRank (t_tier t), self \<noteq> [] \<and> t_node t = self, t_node t)"

definition target_for :: "(Node \<Rightarrow> gotime) \<Rightarrow> SystemUpdateSpec \<Rightarrow> Bundle list \<Rightarrow> systemPlanState \<Rightarrow> Node \<Rightarrow> plannedTarget \<Rightarrow> bool" where
  "target_for clock spec bs st n t \<longleftrightarrow>
     n_id n \<notin> set (sp_exclude spec) \<and> computeStatus (clock n) (n_last_seen n) = StatusOnline \<and>
     t_node t = n_id n \<and> t_tier t = n_role n \<and>
     (\<exists>b \<in> set bs. b_sha256 b = t_bundle t \<and> b_version b = ps_version st \<and> b_compatible b = t_compatible t)"

lemma sorted_target_key:
  "map (target_key self) ts' = map (target_key self) ts \<Longrightarrow> sorted (map (target_key self) ts) \<Longrightarrow>
   sorted (map (target_key self) ts')"
  by simp

lemma target_key_canary [simp]: "target_key self (t\<lparr>t_canary := b\<rparr>) = target_key self t"
  by (simp add: target_key_def)

lemma target_for_canary [simp]: "target_for clock spec bs st n (t\<lparr>t_canary := b\<rparr>) = target_for clock spec bs st n t"
  by (simp add: target_for_def)

lemma in_assigned:
  assumes "assignCanaries ts ov = Inr ts'" "t \<in> set ts'"
  obtains u b where "u \<in> set ts" "t = u\<lparr>t_canary := b\<rparr>"
  using assms(1)
proof (rule assignCanaries_Inr)
  fix ch byID
  assume ts': "ts' = map (\<lambda>(i, t). if ch (group_of t) = Some i then t\<lparr>t_canary := True\<rparr> else t) (List.enumerate 0 ts)"
  with assms(2) obtain i where "i < length ts"
      "t = (if ch (group_of (ts ! i)) = Some i then (ts ! i)\<lparr>t_canary := True\<rparr> else ts ! i)"
    by (auto simp: in_set_enumerate_eq)
  then show ?thesis
    using that [of "ts ! i" True] that [of "ts ! i" "t_canary (ts ! i)"] by (auto split: if_splits)
qed

section \<open>What a successful plan is made of\<close>

lemma plan_bundle_Inr:
  assumes "plan_bundle clock self spec all s = (Inr st, s')"
  obtains b nodes skipped where "b \<in> set (us_bundles s)" "b_sha256 b = sp_bundle spec"
    "planTargets clock all (sp_exclude spec) (b_compatible b) self = (nodes, skipped)"
    "assignCanaries (map (bundle_target b) nodes) (sp_canaries spec) = Inr (ps_targets st)"
    "ps_skipped st = skipped" "ps_version st = b_version b"
proof -
  obtain r s1 where g: "GetBundle (sp_bundle spec) s = (r, s1)"
    by fastforce
  with assms obtain b where r: "r = Inr (Some b)"
    by (auto simp: plan_bundle_def split: sum.splits option.splits)
  obtain nodes skipped where p: "planTargets clock all (sp_exclude spec) (b_compatible b) self = (nodes, skipped)"
    by fastforce
  from g r have "us_bundles s1 = us_bundles s" "sql_first (\<lambda>b. b_sha256 b = sp_bundle spec) (us_bundles s1) = Some b"
    by (auto simp: GetBundle_def dest: us_query_Inr)
  then have "b \<in> set (us_bundles s)" "b_sha256 b = sp_bundle spec"
    by (auto dest: sql_first_Some)
  with assms g r p show ?thesis
    using that by (auto simp: plan_bundle_def split: sum.splits)
qed

lemma plan_release_Inr:
  assumes "plan_release clock self spec all s = (Inr st, s')"
  obtains cm bs nodes skipped where "cm \<in> set Components" "set bs = set (us_bundles s)"
    "planTargets clock all (sp_exclude spec) [] self = (nodes, skipped)"
    "List.map_filter res_missing (map (resolve_node cm (stagedByCompatible (sp_version spec) bs)) nodes) = []"
    "assignCanaries (List.map_filter res_target (map (resolve_node cm (stagedByCompatible (sp_version spec) bs)) nodes))
       (sp_canaries spec) = Inr (ps_targets st)"
    "ps_skipped st = skipped @ List.map_filter res_skip (map (resolve_node cm (stagedByCompatible (sp_version spec) bs)) nodes)"
    "ps_version st = sp_version spec"
proof -
  let ?i = "if sp_component spec = [] then ''os'' else sp_component spec"
  from assms obtain cm where cm: "ComponentByID ?i = Some cm"
    by (auto simp: plan_release_def Let_def split: option.splits)
  then have in_cm: "cm \<in> set Components"
    by (auto simp: ComponentByID_def dest: sql_first_Some)
  obtain r s1 where l: "ListBundles s = (r, s1)"
    by fastforce
  with assms cm obtain bs where r: "r = Inr bs"
    by (auto simp: plan_release_def Let_def split: sum.splits)
  from l r have bs: "set bs = set (us_bundles s)"
    by (auto simp: ListBundles_def dest: us_query_Inr)
  obtain nodes skipped where p: "planTargets clock all (sp_exclude spec) [] self = (nodes, skipped)"
    by fastforce
  let ?res = "map (resolve_node cm (stagedByCompatible (sp_version spec) bs)) nodes"
  have e: "plan_release clock self spec all s =
    (if List.map_filter res_missing ?res \<noteq> []
     then (Inl (NotStaged (c_label cm) (sp_version spec) (missing_report (List.map_filter res_missing ?res))), s1)
     else case assignCanaries (List.map_filter res_target ?res) (sp_canaries spec) of
       Inl e \<Rightarrow> (Inl e, s1)
     | Inr targets \<Rightarrow> (Inr \<lparr>ps_bundle = [], ps_version = sp_version spec, ps_component = c_id cm,
         ps_targets = targets, ps_skipped = skipped @ List.map_filter res_skip ?res, ps_self = self\<rparr>, s1))"
    unfolding plan_release_def Let_def cm l r p by simp
  from assms have miss: "List.map_filter res_missing ?res = []"
    unfolding e by (auto split: if_splits)
  with assms obtain ts where "assignCanaries (List.map_filter res_target ?res) (sp_canaries spec) = Inr ts"
      "st = \<lparr>ps_bundle = [], ps_version = sp_version spec, ps_component = c_id cm,
         ps_targets = ts, ps_skipped = skipped @ List.map_filter res_skip ?res, ps_self = self\<rparr>"
    unfolding e by (auto split: sum.splits)
  with that [OF in_cm bs p miss] show ?thesis
    by simp
qed

lemma buildPlan_Inr:
  assumes "buildPlan clock self spec iv s = (Inr st, iv', s')"
  obtains all where "List_nodes iv = (Inr all, iv')"
    "sp_bundle spec \<noteq> [] \<Longrightarrow> sp_version spec = [] \<and> plan_bundle clock self spec all s = (Inr st, s')"
    "sp_bundle spec = [] \<Longrightarrow> sp_version spec \<noteq> [] \<and> plan_release clock self spec all s = (Inr st, s')"
proof -
  from assms have one: "(sp_version spec = []) \<noteq> (sp_bundle spec = [])"
    by (auto simp: buildPlan_def split: if_splits)
  obtain r iv1 where l: "List_nodes iv = (r, iv1)"
    by fastforce
  with assms one obtain all where "r = Inr all"
    by (auto simp: buildPlan_def split: sum.splits)
  with assms one l that [of all] show ?thesis
    by (auto simp: buildPlan_def case_prod_unfold Let_def prod_eq_iff split: if_splits)
qed

text \<open>
  The targets before the canaries are chosen: sorted, each for one planned node with a staged bundle.
\<close>

definition raw_plan :: "(Node \<Rightarrow> gotime) \<Rightarrow> string \<Rightarrow> SystemUpdateSpec \<Rightarrow> Bundle list \<Rightarrow> systemPlanState \<Rightarrow> Node list
    \<Rightarrow> plannedTarget list \<Rightarrow> bool" where
  "raw_plan clock self spec bs st all ts \<longleftrightarrow>
     sorted (map (target_key self) ts) \<and> (\<forall>t \<in> set ts. \<not> t_canary t) \<and>
     mset (map t_node ts) + mset (map sk_node (ps_skipped st)) = mset (map n_id all) \<and>
     (\<forall>t \<in> set ts. \<exists>n \<in> set all. target_for clock spec bs st n t \<and>
        (t_compatible t \<noteq> [] \<longrightarrow> expectedCompatible n = Some (t_compatible t)))"

lemma raw_bundle:
  assumes "b \<in> set (us_bundles s)"
    "planTargets clock all (sp_exclude spec) (b_compatible b) self = (nodes, skipped)"
    "ps_skipped st = skipped" "ps_version st = b_version b"
  shows "raw_plan clock self spec (us_bundles s) st all (map (bundle_target b) nodes)"
proof -
  have "target_key self (bundle_target b n) = plan_key self n" for n
    by (simp add: target_key_def bundle_target_def plan_key_def)
  then have "sorted (map (target_key self) (map (bundle_target b) nodes))"
    using planTargets_sorted [OF assms(2)] by (simp add: comp_def)
  moreover have "mset (map t_node (map (bundle_target b) nodes)) = mset (map n_id nodes)"
    by (simp add: bundle_target_def comp_def)
  moreover have "target_for clock spec (us_bundles s) st n (bundle_target b n) \<and>
      (b_compatible b \<noteq> [] \<longrightarrow> expectedCompatible n = Some (b_compatible b)) \<and> n \<in> set all"
    if "n \<in> set nodes" for n
    using that planTargets_target [OF assms(2)] assms(1,4)
    by (auto simp: target_for_def bundle_target_def dest!: plan_node_None)
  ultimately show ?thesis
    using planTargets_partition [OF assms(2)] assms(3)
    by (fastforce simp: raw_plan_def bundle_target_def)
qed

lemma raw_release:
  assumes "set bs = set (us_bundles s)"
    "planTargets clock all (sp_exclude spec) [] self = (nodes, skipped)"
    "List.map_filter res_missing (map (resolve_node cm (stagedByCompatible (sp_version spec) bs)) nodes) = []"
    "ps_skipped st = skipped @ List.map_filter res_skip (map (resolve_node cm (stagedByCompatible (sp_version spec) bs)) nodes)"
    "ps_version st = sp_version spec"
  shows "raw_plan clock self spec (us_bundles s) st all
    (List.map_filter res_target (map (resolve_node cm (stagedByCompatible (sp_version spec) bs)) nodes))"
proof -
  let ?staged = "stagedByCompatible (sp_version spec) bs"
  let ?ts = "List.map_filter res_target (map (resolve_node cm ?staged) nodes)"
  have "sorted (map (target_key self) ?ts)"
    unfolding map_filter_map
    by (rule sorted_map_filter [OF planTargets_sorted [OF assms(2)]])
      (auto simp: res_target_resolve target_key_def plan_key_def)
  moreover have "mset (map t_node ?ts) + mset (map sk_node (ps_skipped st)) = mset (map n_id all)"
    using resolve_partition [OF assms(3)] planTargets_partition [OF assms(2)] assms(4)
    by (simp add: union_assoc union_lcomm) (simp add: union_commute)
  moreover have "\<exists>n \<in> set all. target_for clock spec (us_bundles s) st n t \<and> expectedCompatible n = Some (t_compatible t)
      \<and> \<not> t_canary t" if "t \<in> set ?ts" for t
  proof -
    from that obtain n want b where n: "n \<in> set nodes" "expectedCompatible n = Some want" "?staged want = Some b"
        "t = \<lparr>t_node = n_id n, t_bundle = b_sha256 b, t_compatible = want, t_tier = n_role n, t_canary = False\<rparr>"
      by (auto simp: map_filter_map map_filter_Some res_target_resolve)
    have "b \<in> set (us_bundles s) \<and> b_version b = sp_version spec \<and> b_compatible b = want"
      using staged_sound [OF n(3)] assms(1) by simp
    with n show ?thesis
      using planTargets_target [OF assms(2)] assms(5)
      by (auto simp: target_for_def dest!: plan_node_None)
  qed
  ultimately show ?thesis
    by (auto simp: raw_plan_def)
qed

lemma plan_raw:
  assumes "buildPlan clock self spec iv s = (Inr st, iv', s')"
  obtains all ts where "List_nodes iv = (Inr all, iv')" "raw_plan clock self spec (us_bundles s) st all ts"
    "assignCanaries ts (sp_canaries spec) = Inr (ps_targets st)"
  using assms
proof (rule buildPlan_Inr)
  fix all
  assume l: "List_nodes iv = (Inr all, iv')"
    and b: "sp_bundle spec \<noteq> [] \<Longrightarrow> sp_version spec = [] \<and> plan_bundle clock self spec all s = (Inr st, s')"
    and r: "sp_bundle spec = [] \<Longrightarrow> sp_version spec \<noteq> [] \<and> plan_release clock self spec all s = (Inr st, s')"
  show thesis
  proof (cases "sp_bundle spec = []")
    case True
    with r have "plan_release clock self spec all s = (Inr st, s')"
      by simp
    then show thesis
      by (rule plan_release_Inr) (use that l raw_release in blast)
  next
    case False
    with b have "plan_bundle clock self spec all s = (Inr st, s')"
      by simp
    then show thesis
      by (rule plan_bundle_Inr) (use that l raw_bundle in blast)
  qed
qed

text \<open>A run carries one product: its targets all take the firewall image or none of them does.\<close>

lemma assigned_compatible:
  assumes "assignCanaries ts ov = Inr ts'" "t \<in> set ts'"
  shows "\<exists>u \<in> set ts. t_compatible u = t_compatible t"
  using assms by (rule in_assigned) auto

lemma bundle_one_product:
  assumes "plan_bundle clock self spec all s = (Inr st, s')" "t \<in> set (ps_targets st)" "u \<in> set (ps_targets st)"
  shows "t_compatible t = t_compatible u"
  using assms(1)
proof (rule plan_bundle_Inr)
  fix b nodes skipped
  assume a: "assignCanaries (map (bundle_target b) nodes) (sp_canaries spec) = Inr (ps_targets st)"
  then show ?thesis
    using assigned_compatible [OF a assms(2)] assigned_compatible [OF a assms(3)]
    by (auto simp: bundle_target_def)
qed

lemma release_one_product:
  assumes "plan_release clock self spec all s = (Inr st, s')" "t \<in> set (ps_targets st)" "u \<in> set (ps_targets st)"
  shows "t_compatible t = FirewallCompatible \<longleftrightarrow> t_compatible u = FirewallCompatible"
  using assms(1)
proof (rule plan_release_Inr)
  fix cm bs nodes skipped
  assume a: "assignCanaries (List.map_filter res_target (map (resolve_node cm (stagedByCompatible (sp_version spec) bs)) nodes))
    (sp_canaries spec) = Inr (ps_targets st)"
  have "componentCovers cm (t_compatible x)" if "x \<in> set (ps_targets st)" for x
    using assigned_compatible [OF a that] by (auto simp: map_filter_map map_filter_Some res_target_resolve)
  from this [OF assms(2)] this [OF assms(3)] show ?thesis
    by (auto simp: componentCovers_def split: if_splits)
qed

lemma plan_one_product:
  assumes "buildPlan clock self spec iv s = (Inr st, iv', s')" "t \<in> set (ps_targets st)" "u \<in> set (ps_targets st)"
  shows "t_compatible t = FirewallCompatible \<longleftrightarrow> t_compatible u = FirewallCompatible"
  using assms(1)
proof (rule buildPlan_Inr)
  fix all
  assume "sp_bundle spec \<noteq> [] \<Longrightarrow> sp_version spec = [] \<and> plan_bundle clock self spec all s = (Inr st, s')"
    and "sp_bundle spec = [] \<Longrightarrow> sp_version spec \<noteq> [] \<and> plan_release clock self spec all s = (Inr st, s')"
  then show ?thesis
    using bundle_one_product [OF _ assms(2,3)] release_one_product [OF _ assms(2,3)]
    by (cases "sp_bundle spec = []") auto
qed

lemma plan_targets_for:
  assumes "buildPlan clock self spec iv s = (Inr st, iv', s')" "List_nodes iv = (Inr all, iv')" "t \<in> set (ps_targets st)"
  shows "\<exists>n \<in> set all. target_for clock spec (us_bundles s) st n t \<and>
    (t_compatible t \<noteq> [] \<longrightarrow> expectedCompatible n = Some (t_compatible t))"
  using assms(1)
proof (rule plan_raw)
  fix all' ts
  assume l: "List_nodes iv = (Inr all', iv')" and raw: "raw_plan clock self spec (us_bundles s) st all' ts"
    and a: "assignCanaries ts (sp_canaries spec) = Inr (ps_targets st)"
  from a assms(3) obtain u b where u: "u \<in> set ts" "t = u\<lparr>t_canary := b\<rparr>"
    by (rule in_assigned)
  from raw u(1) have "\<exists>n \<in> set all'. target_for clock spec (us_bundles s) st n u \<and>
      (t_compatible u \<noteq> [] \<longrightarrow> expectedCompatible n = Some (t_compatible u))"
    by (simp add: raw_plan_def)
  then show ?thesis
    using l assms(2) u(2) by simp
qed

lemma plan_sorted:
  assumes "buildPlan clock self spec iv s = (Inr st, iv', s')"
  shows "sorted (map (target_key self) (ps_targets st))"
  using assms
proof (rule plan_raw)
  fix all ts
  assume "raw_plan clock self spec (us_bundles s) st all ts"
    and a: "assignCanaries ts (sp_canaries spec) = Inr (ps_targets st)"
  then show ?thesis
    using assignCanaries_map [OF a, of "target_key self"] by (simp add: raw_plan_def)
qed

lemma sorted_le_last: "sorted (map k xs) \<Longrightarrow> x \<in> set xs \<Longrightarrow> k x \<le> k (last xs)"
  by (induction xs) auto

end
