(* ===== verification/Fleet_Plan_Props.thy ===== *)
theory Fleet_Plan_Props
  imports Fleet_Plan_Inv
begin

text \<open>
  What a fleet update's plan guarantees: it accounts for every node of the inventory, in tier order
  with the control plane's own node last, hands every node an image built for it, and nominates one
  canary per tier and architecture.
\<close>

section \<open>A cluster to evaluate on\<close>

definition demo_node :: "string \<Rightarrow> string \<Rightarrow> string \<Rightarrow> Node" where
  "demo_node i role arch = \<lparr>n_id = i, n_role = role, n_hostname = i, n_agent_version = [], n_image_version = ''2026.08.4'',
     n_confirmed_at = Some 5, n_architecture = arch, n_lan_ip = [], n_capabilities = [], n_metadata = [],
     n_storage = None, n_first_seen = 0, n_last_seen = 100, n_status = StatusUnset, n_mesh = None\<rparr>"

definition demo_cluster :: inventory where
  "demo_cluster = \<lparr>iv_nodes = [demo_node ''cp'' ''controlplane'' ''amd64'', demo_node ''fw'' ''firewall'' ''amd64'',
       demo_node ''c2'' ''compute'' ''arm64'', demo_node ''c1'' ''compute'' ''amd64'', demo_node ''c3'' ''compute'' ''amd64'',
       demo_node ''x9'' ''compute'' []],
     iv_keys = [], iv_registry = NewRegistry, iv_faults = [], iv_status = [], iv_events = [], iv_excluded = [], iv_retired = []\<rparr>"

definition demo_bundle :: "string \<Rightarrow> string \<Rightarrow> Bundle" where
  "demo_bundle sha sku = \<lparr>b_sha256 = sha, b_version = ''2026.09.1'', b_compatible = sku, b_architecture = [],
     b_description = [], b_build_date = [], b_size_bytes = 1, b_signed_by = [], b_storage_path = [], b_uploaded_at = 3, b_uploaded_by = []\<rparr>"

definition demo_updates :: update_store where
  "demo_updates = \<lparr>us_bundles = [demo_bundle ''aa'' ''rasputin-n100'', demo_bundle ''bb'' ''rasputin-rpi-arm64''],
     us_updates = [], us_faults = []\<rparr>"

definition demo_spec :: SystemUpdateSpec where
  "demo_spec = \<lparr>sp_version = ''2026.09.1'', sp_component = [], sp_bundle = [], sp_exclude = [], sp_canaries = [],
     sp_max_in_flight = None, sp_max_failures = None, sp_soak = 0\<rparr>"

definition demo_target :: "string \<Rightarrow> string \<Rightarrow> string \<Rightarrow> string \<Rightarrow> bool \<Rightarrow> plannedTarget" where
  "demo_target i sha sku tier can = \<lparr>t_node = i, t_bundle = sha, t_compatible = sku, t_tier = tier, t_canary = can\<rparr>"

definition demo_plan :: systemPlanState where
  "demo_plan = \<lparr>ps_bundle = [], ps_version = ''2026.09.1'', ps_component = ''os'',
     ps_targets = [demo_target ''c1'' ''aa'' ''rasputin-n100'' ''compute'' True,
       demo_target ''c2'' ''bb'' ''rasputin-rpi-arm64'' ''compute'' True,
       demo_target ''c3'' ''aa'' ''rasputin-n100'' ''compute'' False,
       demo_target ''cp'' ''aa'' ''rasputin-n100'' ''controlplane'' False],
     ps_skipped = [
       \<lparr>sk_node = ''x9'', sk_reason = SkipNoArtifactForArch, sk_detail = DetailUnknownArch [], sk_tier = ''compute'', sk_compatible = []\<rparr>,
       \<lparr>sk_node = ''fw'', sk_reason = SkipFirewallSKU, sk_detail = DetailNeedsComponent FirewallCompatible ''Rasputin OS'',
        sk_tier = ''firewall'', sk_compatible = FirewallCompatible\<rparr>],
     ps_self = ''cp''\<rparr>"

lemma demo_fst: "fst (buildPlan (\<lambda>_. 2000) ''cp'' demo_spec demo_cluster demo_updates) = Inr demo_plan"
  by code_simp

lemma demo_built:
  obtains iv' s' where "buildPlan (\<lambda>_. 2000) ''cp'' demo_spec demo_cluster demo_updates = (Inr demo_plan, iv', s')"
  using demo_fst by (metis prod.collapse)

lemma demo_listed: "map n_id (case fst (List_nodes demo_cluster) of Inl e \<Rightarrow> [] | Inr ns \<Rightarrow> ns)
    = [''cp'', ''fw'', ''c2'', ''c1'', ''c3'', ''x9'']"
  by code_simp

section \<open>Properties\<close>

text \<open>C27: A plan accounts for the whole inventory: the targets and the skipped nodes together are
  exactly the nodes the inventory lists, each once, so no node is lost or planned twice.\<close>

theorem plan_partitions_inventory:
  assumes "buildPlan clock self spec iv s = (Inr st, iv', s')" "List_nodes iv = (Inr all, iv')"
  shows "mset (targetIDs st) + mset (map sk_node (ps_skipped st)) = mset (map n_id all)"
  using assms(1)
proof (rule plan_raw)
  fix all' ts
  assume "List_nodes iv = (Inr all', iv')" "raw_plan clock self spec (us_bundles s) st all' ts"
    and a: "assignCanaries ts (sp_canaries spec) = Inr (ps_targets st)"
  then have "mset (map t_node ts) + mset (map sk_node (ps_skipped st)) = mset (map n_id all)"
    using assms(2) by (simp add: raw_plan_def)
  then show ?thesis
    using assignCanaries_map [OF a, of t_node] by (simp add: targetIDs_def)
qed

theorem plan_partitions_inventory_witness:
  "mset (targetIDs demo_plan) + mset (map sk_node (ps_skipped demo_plan))
     = mset [''cp'', ''fw'', ''c2'', ''c1'', ''c3'', ''x9'']"
proof (rule demo_built)
  fix iv' s'
  assume b: "buildPlan (\<lambda>_. 2000) ''cp'' demo_spec demo_cluster demo_updates = (Inr demo_plan, iv', s')"
  from b obtain all where l: "List_nodes demo_cluster = (Inr all, iv')"
    by (rule buildPlan_Inr)
  then have "map n_id all = [''cp'', ''fw'', ''c2'', ''c1'', ''c3'', ''x9'']"
    using demo_listed by simp
  with plan_partitions_inventory [OF b l] show ?thesis
    by metis
qed

text \<open>The targets are in planned order: by tier (compute, storage, control plane, firewall), in a
  tier the api's own node after every peer, otherwise by id.  When the api's own node is a target of
  the control-plane tier and no bundle of the store lacks its SKU, it is the very last target: nothing
  is planned behind the node whose reboot takes the api down.\<close>

theorem plan_order_self_last:
  assumes "buildPlan clock self spec iv s = (Inr st, iv', s')"
    and "\<forall>b \<in> set (us_bundles s). b_compatible b \<noteq> []"
  shows "sorted (map (target_key self) (ps_targets st)) \<and>
    ((\<exists>t \<in> set (ps_targets st). t_node t = self \<and> t_tier t = ''controlplane'') \<and> self \<noteq> [] \<longrightarrow>
       t_node (last (ps_targets st)) = self)"
proof -
  let ?T = "ps_targets st" and ?l = "last (ps_targets st)"
  have sku: "\<exists>n. t_tier t = n_role n \<and> expectedCompatible n = Some (t_compatible t)" if "t \<in> set ?T" for t
    using assms(1)
  proof (rule buildPlan_Inr)
    fix all
    assume "List_nodes iv = (Inr all, iv')"
    from plan_targets_for [OF assms(1) this that] assms(2) show ?thesis
      by (auto simp: target_for_def)
  qed
  have "t_node ?l = self"
    if t: "t \<in> set ?T" "t_node t = self" "t_tier t = ''controlplane''" and "self \<noteq> []" for t
  proof -
    have l: "?l \<in> set ?T"
      using t(1) by (intro last_in_set) auto
    have "target_key self t \<le> target_key self ?l"
      by (rule sorted_le_last [OF plan_sorted [OF assms(1)] t(1)])
    then have "roleRank (t_tier ?l) > 2 \<or> (roleRank (t_tier ?l) = 2 \<and> t_node ?l = self)"
      using t(2,3) \<open>self \<noteq> []\<close> by (auto simp: target_key_def roleRank_def split: if_splits)
    moreover have "t_tier ?l \<noteq> ''firewall''"
    proof
      assume "t_tier ?l = ''firewall''"
      then have "t_compatible ?l = FirewallCompatible"
        using sku [OF l] by (auto simp: expectedCompatible_def)
      then have "t_compatible t = FirewallCompatible"
        using plan_one_product [OF assms(1) t(1) l] by simp
      with sku [OF t(1)] t(3) show False
        by (auto simp: expectedCompatible_def ArchCompatible_def split: if_splits)
    qed
    ultimately show ?thesis
      by (auto simp: roleRank_def split: if_splits)
  qed
  with plan_sorted [OF assms(1)] show ?thesis
    by blast
qed

theorem plan_order_self_last_witness: "t_node (last (ps_targets demo_plan)) = ''cp''"
proof (rule demo_built)
  fix iv' s'
  assume b: "buildPlan (\<lambda>_. 2000) ''cp'' demo_spec demo_cluster demo_updates = (Inr demo_plan, iv', s')"
  have "\<forall>x \<in> set (us_bundles demo_updates). b_compatible x \<noteq> []"
    by (simp add: demo_updates_def demo_bundle_def)
  from plan_order_self_last [OF b this] show ?thesis
    by (simp add: demo_plan_def demo_target_def)
qed

text \<open>Every target is a node of the inventory that was online and not excluded, planned in its own
  tier, and the bundle it will receive is a staged one of the run's version with the SKU that node's
  role and architecture call for; and the firewall image never shares a run with the OS image.\<close>

theorem targets_matched:
  assumes "buildPlan clock self spec iv s = (Inr st, iv', s')" "List_nodes iv = (Inr all, iv')"
    and "\<forall>b \<in> set (us_bundles s). b_compatible b \<noteq> []"
  shows "\<forall>t \<in> set (ps_targets st).
    (\<exists>n \<in> set all. target_for clock spec (us_bundles s) st n t \<and> expectedCompatible n = Some (t_compatible t)) \<and>
    (\<forall>u \<in> set (ps_targets st). t_tier t = ''firewall'' \<longleftrightarrow> t_tier u = ''firewall'')"
proof -
  have here: "\<exists>n \<in> set all. target_for clock spec (us_bundles s) st n t \<and> expectedCompatible n = Some (t_compatible t)"
    if "t \<in> set (ps_targets st)" for t
    using plan_targets_for [OF assms(1,2) that] assms(3) by (fastforce simp: target_for_def)
  have tier: "t_tier t = ''firewall'' \<longleftrightarrow> t_compatible t = FirewallCompatible" if "t \<in> set (ps_targets st)" for t
    using here [OF that] by (auto simp: target_for_def expectedCompatible_def ArchCompatible_def split: if_splits)
  show ?thesis
    using here tier plan_one_product [OF assms(1)] by blast
qed

theorem targets_matched_witness:
  "{t \<in> set (ps_targets demo_plan). t_tier t = ''firewall''} = {}"
proof (rule demo_built)
  fix iv' s'
  assume b: "buildPlan (\<lambda>_. 2000) ''cp'' demo_spec demo_cluster demo_updates = (Inr demo_plan, iv', s')"
  from b obtain all where l: "List_nodes demo_cluster = (Inr all, iv')"
    by (rule buildPlan_Inr)
  have "\<forall>x \<in> set (us_bundles demo_updates). b_compatible x \<noteq> []"
    by (simp add: demo_updates_def demo_bundle_def)
  moreover have "demo_target ''c1'' ''aa'' ''rasputin-n100'' ''compute'' True \<in> set (ps_targets demo_plan)"
    by (simp add: demo_plan_def)
  ultimately have "t_tier t = ''firewall'' \<longleftrightarrow> False" if "t \<in> set (ps_targets demo_plan)" for t
    using targets_matched [OF b l] that by (fastforce simp: demo_target_def)
  then show ?thesis
    by auto
qed

text \<open>One canary speaks for each tier and architecture: every pair with a target in a tier that
  nominates canaries has exactly one, no other pair has any (so the control plane and the firewall
  never carry the risk first), every override named by the operator is a canary, and without
  overrides the canary is the first of its pair in planned order.\<close>

theorem one_canary_per_group:
  assumes "buildPlan clock self spec iv s = (Inr st, iv', s')"
  shows "(\<forall>g. length (filter (\<lambda>t. t_canary t \<and> group_of t = g) (ps_targets st)) =
        (if canaryEligible (cg_tier g) \<and> (\<exists>t \<in> set (ps_targets st). group_of t = g) then 1 else 0)) \<and>
    (\<forall>i \<in> set (sp_canaries spec). \<exists>t \<in> set (ps_targets st). t_node t = i \<and> t_canary t) \<and>
    (sp_canaries spec = [] \<longrightarrow> (\<forall>k < length (ps_targets st). \<forall>j < k.
       t_canary (ps_targets st ! k) \<longrightarrow> group_of (ps_targets st ! j) \<noteq> group_of (ps_targets st ! k)))"
  using assms
proof (rule plan_raw)
  fix all ts
  assume raw: "raw_plan clock self spec (us_bundles s) st all ts"
    and a: "assignCanaries ts (sp_canaries spec) = Inr (ps_targets st)"
  from raw have no: "\<forall>t \<in> set ts. \<not> t_canary t"
    by (simp add: raw_plan_def)
  show ?thesis
    using canary_count [OF a no] canary_override [OF a no] assignCanaries_default [of ts "ps_targets st"] a no
    by auto
qed

theorem one_canary_per_group_witness:
  "length (filter (\<lambda>t. t_canary t \<and> group_of t = \<lparr>cg_tier = ''compute'', cg_compatible = ''rasputin-n100''\<rparr>)
     (ps_targets demo_plan)) = 1"
proof (rule demo_built)
  fix iv' s'
  assume b: "buildPlan (\<lambda>_. 2000) ''cp'' demo_spec demo_cluster demo_updates = (Inr demo_plan, iv', s')"
  have "\<exists>t \<in> set (ps_targets demo_plan). group_of t = \<lparr>cg_tier = ''compute'', cg_compatible = ''rasputin-n100''\<rparr>"
    by (simp add: demo_plan_def demo_target_def group_of_def)
  with one_canary_per_group [OF b] show ?thesis
    by (simp add: canaryEligible_def)
qed

text \<open>The canary overrides are accepted exactly when each one names a target of a tier that
  nominates canaries and no two of them speak for the same tier and architecture; anything else fails
  the plan instead of falling back to another canary.\<close>

theorem canary_overrides_checked:
  assumes "distinct (map t_node ts)"
  shows "(\<exists>ts'. assignCanaries ts overrides = Inr ts') \<longleftrightarrow>
    (\<exists>us. list_all2 (\<lambda>i t. t \<in> set ts \<and> t_node t = i \<and> canaryEligible (t_tier t)) overrides us \<and>
          distinct (map group_of us))"
  by (rule overrides_iff [OF assms])

theorem canary_overrides_checked_witness:
  "{ts'. assignCanaries (ps_targets demo_plan) [''c3''] = Inr ts'} \<noteq> {}"
proof -
  have "distinct (map t_node (ps_targets demo_plan))"
    by (simp add: demo_plan_def demo_target_def)
  moreover have "list_all2 (\<lambda>i t. t \<in> set (ps_targets demo_plan) \<and> t_node t = i \<and> canaryEligible (t_tier t))
      [''c3''] [demo_target ''c3'' ''aa'' ''rasputin-n100'' ''compute'' False]"
    by (simp add: demo_plan_def demo_target_def canaryEligible_def)
  ultimately show ?thesis
    using canary_overrides_checked [of "ps_targets demo_plan" "[''c3'']"] by fastforce
qed

text \<open>The updater's own copy of the presence rule agrees with the inventory's at every clock
  reading, so a node the plan calls online is one the inventory would call online.\<close>

lemma compute_status_mirrors: "computeStatus ts seen = computeStatusAt ts seen"
  by (simp add: computeStatus_def computeStatusAt_def staleAfter_def offlineAfter_def Let_def)

text \<open>A knob written to JSON reads back as itself: a count as a number, a percentage as a string;
  and the quoted form of either is read the same.\<close>

theorem knob_roundtrip:
  assumes "in_int (Value v)"
  shows "UnmarshalJSON (MarshalJSON v) = Inr v \<and> UnmarshalJSON (JStr (String_knob v)) = Inr v"
proof (cases "Percent v")
  case True
  with unmarshal_string [OF assms] show ?thesis
    by (simp add: MarshalJSON_def)
next
  case False
  with unmarshal_string [OF assms] assms show ?thesis
    by (simp add: MarshalJSON_def UnmarshalJSON_def json_int_def Int_knob_def)
qed

theorem knob_roundtrip_witness: "UnmarshalJSON (MarshalJSON (Percent_knob 15)) = Inr (Percent_knob 15)"
  using knob_roundtrip [of "Percent_knob 15"]
  by (simp add: Percent_knob_def in_int_def max_int_def min_int_def)

end
