(* ===== verification/Fleet_Props.thy ===== *)
theory Fleet_Props
  imports Fleet_Tiers Fleet_Plan_Props
begin

text \<open>
  What a fleet update guarantees once it runs: every planned node is accounted for, nothing runs past
  a canary that did not pass, the number of nodes in flight and the failures of a tier stay within
  the operator's knobs whatever the interleaving, and the parent job is green exactly when the whole
  fleet was updated.
\<close>

section \<open>Plans the cascade runs on\<close>

definition plan_ok :: "systemPlanState \<Rightarrow> bool" where
  "plan_ok st \<longleftrightarrow> distinct (targetIDs st) \<and> sorted (map (\<lambda>t. roleRank (t_tier t)) (ps_targets st)) \<and>
     (\<forall>t \<in> set (ps_targets st). ValidRole (t_tier t))"

lemma sorted_rank: "sorted (map (target_key self) ts) \<Longrightarrow> sorted (map (\<lambda>t. roleRank (t_tier t)) ts)"
  by (induction ts) (auto simp: target_key_def)

text \<open>A plan built from an inventory with unique ids and known roles is one.\<close>

lemma built_plan_ok:
  assumes "buildPlan clock self spec iv s = (Inr st, iv', s')" "List_nodes iv = (Inr all, iv')"
    and "distinct (map n_id all)" "\<forall>n \<in> set all. ValidRole (n_role n)"
  shows "plan_ok st"
  using assms(1)
proof (rule plan_raw)
  fix all' ts
  assume "List_nodes iv = (Inr all', iv')" and raw: "raw_plan clock self spec (us_bundles s) st all' ts"
    and a: "assignCanaries ts (sp_canaries spec) = Inr (ps_targets st)"
  then have "mset (map t_node ts) + mset (map sk_node (ps_skipped st)) = mset (map n_id all)"
    using assms(2) by (simp add: raw_plan_def)
  then have "mset (targetIDs st @ map sk_node (ps_skipped st)) = mset (map n_id all)"
    using assignCanaries_map [OF a, of t_node] by (simp add: targetIDs_def)
  then have "distinct (targetIDs st @ map sk_node (ps_skipped st))"
    using assms(3) mset_eq_imp_distinct_iff by blast
  moreover have "ValidRole (t_tier t)" if "t \<in> set (ps_targets st)" for t
    using plan_targets_for [OF assms(1,2) that] assms(4) by (auto simp: target_for_def)
  ultimately show ?thesis
    using sorted_rank [OF plan_sorted [OF assms(1)]] by (simp add: plan_ok_def)
qed

lemma demo_plan_ok: "plan_ok demo_plan"
  by (simp add: plan_ok_def demo_plan_def demo_target_def targetIDs_def roleRank_def ValidRole_def AllRoles_def)

definition spec_knobs :: "SystemUpdateSpec \<Rightarrow> knobs" where
  "spec_knobs spec = \<lparr>k_in_flight = (case sp_max_in_flight spec of None \<Rightarrow> DefaultMaxInFlight | Some v \<Rightarrow> v),
     k_failures = (case sp_max_failures spec of None \<Rightarrow> DefaultMaxFailures | Some v \<Rightarrow> v), k_soak = sp_soak spec\<rparr>"

text \<open>The widest tier.\<close>

definition fleet_width :: "knobs \<Rightarrow> systemPlanState \<Rightarrow> nat" where
  "fleet_width kn st = Max (insert 1 (tier_width kn ` set (groupByTier (ps_targets st))))"

lemma fleet_width_ge: "g \<in> set (groupByTier (ps_targets st)) \<Longrightarrow> tier_width kn g \<le> fleet_width kn st"
  by (simp add: fleet_width_def)

lemma tier_width_pos: "1 \<le> tier_width kn g"
  using ClampMaxInFlight_bounds(1) [of "Resolve (k_in_flight kn) (int (length (g_targets g)))" "int (length (g_targets g))"]
  by (simp add: tier_width_def Let_def)

lemma tier_width_less: "tier_width kn g \<le> max 1 (length (g_targets g) - 1)"
  using ClampMaxInFlight_bounds(2) [of "Resolve (k_in_flight kn) (int (length (g_targets g)))" "int (length (g_targets g))"]
  by (simp add: tier_width_def Let_def nat_le_iff)

lemma tier_budget_nonneg: "Validate_knob (k_failures kn) = None \<Longrightarrow> 0 \<le> tier_budget kn g"
  by (auto simp: tier_budget_def ResolveMaxFailures_def Validate_knob_def Resolve_def Let_def split: if_splits)

lemma plan_tiers_ok:
  assumes "plan_ok st" "Validate_knob (k_failures kn) = None"
  shows "tiers_ok (fleet_width kn st) kn (groupByTier (ps_targets st))"
proof -
  let ?gs = "groupByTier (ps_targets st)"
  have ids: "distinct (map t_node (concat (map g_targets ?gs)))"
    using assms(1) by (simp add: concat_groupByTier plan_ok_def targetIDs_def)
  have "distinct (map t_node (g_targets g))" if g: "g \<in> set ?gs" for g
  proof -
    obtain p q where "?gs = p @ g # q"
      using split_list [OF g] by blast
    then show ?thesis
      using ids by (simp add: distinct_append)
  qed
  then have "tier_ok (fleet_width kn st) kn g" if "g \<in> set ?gs" for g
    using that groupByTier_tiers [OF that] tier_width_pos fleet_width_ge [OF that] tier_budget_nonneg [OF assms(2)]
    by (simp add: tier_ok_def)
  then show ?thesis
    using ids groupByTier_distinct [of "ps_targets st"] assms(1) by (simp add: tiers_ok_def plan_ok_def)
qed

section \<open>How a run can end\<close>

definition finished :: "nat \<Rightarrow> knobs \<Rightarrow> plannedTarget list \<Rightarrow> cascade \<Rightarrow> bool" where
  "finished M kn ts s \<longleftrightarrow> between M kn (groupByTier ts) [] s \<or>
     (\<exists>p g q. groupByTier ts = p @ g # q \<and> stopped M kn p g q s \<and> canary_tripped g s)"

lemma run_plan_tiers:
  assumes "run_plan drv spec schs st = (r, evs)" "plan_ok st"
    and "Validate_knob (k_in_flight (spec_knobs spec)) = None" "Validate_knob (k_failures (spec_knobs spec)) = None"
  obtains out s where
    "run_tiers drv (spec_knobs spec) (groupByTier (ps_targets st)) schs empty_cascade = (out, s)" "evs = cc_events s"
    "r = (if out = TierCancelled then Inl CascadeSoakCancelled else Inr (report (ps_targets st) s))"
    "rest (fleet_width (spec_knobs spec) st) s" "out \<noteq> TierCancelled \<Longrightarrow> finished (fleet_width (spec_knobs spec) st) (spec_knobs spec) (ps_targets st) s"
proof -
  let ?kn = "spec_knobs spec" and ?gs = "groupByTier (ps_targets st)"
  let ?M = "fleet_width ?kn st"
  obtain out s where run: "run_tiers drv ?kn ?gs schs empty_cascade = (out, s)"
    by fastforce
  have "fresh_tier empty_cascade g" for g
    by (simp add: fresh_tier_def empty_cascade_def attempted_def failed_in_def)
  then have "between ?M ?kn [] ?gs empty_cascade"
    by (simp add: between_def rest_def grid_ok_def flight_ok_def in_flight_def keys_within_def empty_cascade_def)
  moreover have "tiers_ok ?M ?kn ([] @ ?gs)"
    using plan_tiers_ok [OF assms(2,4)] by simp
  ultimately have eff: "(out = TierDone \<and> between ?M ?kn ([] @ ?gs) [] s) \<or>
    (\<exists>p g q. ?gs = p @ g # q \<and> stopped ?M ?kn ([] @ p) g q s \<and>
       (out = TierAborted \<and> canary_tripped g s \<or> out = TierCancelled \<and> cc_failure s = None))"
    using run by (rule run_tiers_effects)
  then have "rest ?M s" "out \<noteq> TierCancelled \<Longrightarrow> finished ?M ?kn (ps_targets st) s"
    by (auto simp: between_def stopped_def finished_def)
  moreover have "evs = cc_events s" "r = (if out = TierCancelled then Inl CascadeSoakCancelled else Inr (report (ps_targets st) s))"
    using assms(1,3,4) run by (auto simp: run_plan_def spec_knobs_def Let_def split: tier_outcome.splits)
  ultimately show ?thesis
    using that run by blast
qed

lemma run_plan_valid:
  "run_plan drv spec schs st = (Inr res, evs) \<Longrightarrow>
     Validate_knob (k_in_flight (spec_knobs spec)) = None \<and> Validate_knob (k_failures (spec_knobs spec)) = None"
  by (auto simp: run_plan_def spec_knobs_def Let_def split: option.splits)

lemma run_plan_Inr:
  assumes "run_plan drv spec schs st = (Inr res, evs)" "plan_ok st"
  obtains s where "res = report (ps_targets st) s" "evs = cc_events s"
    "finished (fleet_width (spec_knobs spec) st) (spec_knobs spec) (ps_targets st) s"
    "rest (fleet_width (spec_knobs spec) st) s"
  by (rule run_plan_tiers [OF assms run_plan_valid [OF assms(1), THEN conjunct1] run_plan_valid [OF assms(1), THEN conjunct2]])
    (auto split: if_splits)

text \<open>Reading a finished run.\<close>

lemma in_group: "t \<in> set ts \<Longrightarrow> \<exists>g \<in> set (groupByTier ts). t \<in> set (g_targets g)"
proof -
  assume "t \<in> set ts"
  then have "t \<in> set (concat (map g_targets (groupByTier ts)))"
    by (simp only: concat_groupByTier)
  then show ?thesis
    by auto
qed

lemma finished_rows:
  assumes "finished M kn ts s" "t \<in> set ts" "map_of (cc_grid s) (t_node t) = Some r"
  shows "row_for t (t_canary t) r"
proof -
  obtain g where g: "g \<in> set (groupByTier ts)" "t \<in> set (g_targets g)"
    using in_group [OF assms(2)] by blast
  then show ?thesis
    using assms(1,3) by (auto simp: finished_def between_def stopped_def rows_ok_def fresh_tier_def attempted_def)
qed

lemma finished_keys: "finished M kn ts s \<Longrightarrow> fst ` set (cc_grid s) \<subseteq> t_node ` set ts"
proof -
  assume f: "finished M kn ts s"
  have sub: "set (concat (map g_targets gs)) \<subseteq> set ts" if "set gs \<subseteq> set (groupByTier ts)" for gs
  proof -
    have "set (concat (map g_targets gs)) \<subseteq> set (concat (map g_targets (groupByTier ts)))"
      using that by auto
    then show ?thesis
      by (simp only: concat_groupByTier)
  qed
  have "\<exists>gs. set gs \<subseteq> set (groupByTier ts) \<and> keys_within gs s"
    using f
  proof (unfold finished_def, elim disjE exE conjE)
    assume "between M kn (groupByTier ts) [] s"
    then show ?thesis
      by (auto simp: between_def)
  next
    fix p g q
    assume "groupByTier ts = p @ g # q" "stopped M kn p g q s"
    then show ?thesis
      by (intro exI [of _ "p @ [g]"]) (auto simp: stopped_def)
  qed
  then obtain gs where gs: "set gs \<subseteq> set (groupByTier ts)" "keys_within gs s"
    by blast
  show ?thesis
  proof
    fix i
    assume "i \<in> fst ` set (cc_grid s)"
    then have "i \<in> t_node ` set (concat (map g_targets gs))"
      using gs(2) by (auto simp: keys_within_def map_of_None_iff)
    then show "i \<in> t_node ` set ts"
      using sub [OF gs(1)] by blast
  qed
qed

section \<open>The report\<close>

definition row_of :: "plannedTarget \<Rightarrow> NodeResult \<Rightarrow> bool" where
  "row_of t r \<longleftrightarrow> nr_node r = t_node t \<and> nr_tier r = t_tier t \<and> nr_compatible r = t_compatible t \<and> nr_canary r = t_canary t"

lemma result_row_of:
  assumes "finished M kn ts s" "t \<in> set ts"
  shows "row_of t (result_row s t)"
    and "nr_outcome (result_row s t) = NodeOutcomeNotAttempted \<longleftrightarrow> \<not> attempted s t"
  using finished_rows [OF assms]
  by (auto simp: result_row_def row_of_def row_for_def attempted_def blank_row_def split: option.splits)

lemma report_attempted:
  assumes "finished M kn ts s" "distinct (map t_node ts)" "t \<in> set ts"
  shows "t_node t \<in> set (cr_succeeded (report ts s)) \<longleftrightarrow> succeeded s t"
    and "t_node t \<in> set (cr_failed (report ts s)) \<longleftrightarrow> attempted s t \<and> \<not> succeeded s t"
    and "t_node t \<in> set (cr_remaining (report ts s)) \<longleftrightarrow> \<not> attempted s t"
proof -
  have same: "u = t" if "u \<in> set ts" "t_node u = t_node t" for u
    using assms(2,3) that by (auto simp: distinct_map dest: inj_onD)
  have here: "t_node t \<in> set (map t_node (filter P ts)) \<longleftrightarrow> P t" for P
  proof
    assume "t_node t \<in> set (map t_node (filter P ts))"
    then obtain u where "u \<in> set ts" "P u" "t_node u = t_node t"
      by (auto simp del: imageE)
    then show "P t"
      using same by metis
  qed (use assms(3) in simp)
  have out: "nr_outcome (result_row s t) = NodeOutcomeSucceeded \<longleftrightarrow> succeeded s t"
    by (auto simp: result_row_def succeeded_def blank_row_def split: option.splits)
  show "t_node t \<in> set (cr_succeeded (report ts s)) \<longleftrightarrow> succeeded s t"
    unfolding report_def cascadeResult.simps here by (rule out)
  show "t_node t \<in> set (cr_failed (report ts s)) \<longleftrightarrow> attempted s t \<and> \<not> succeeded s t"
    unfolding report_def cascadeResult.simps here
    using result_row_of(2) [OF assms(1,3)] out by (cases "nr_outcome (result_row s t)") simp_all
  show "t_node t \<in> set (cr_remaining (report ts s)) \<longleftrightarrow> \<not> attempted s t"
    unfolding report_def cascadeResult.simps here by (simp add: attempted_def)
qed

lemma mset_three:
  assumes "\<And>x. x \<in> set xs \<Longrightarrow> f x = A \<or> f x = B \<or> f x = C" "A \<noteq> B" "A \<noteq> C" "B \<noteq> C"
  shows "mset (filter (\<lambda>x. f x = A) xs) + mset (filter (\<lambda>x. f x = B) xs) + mset (filter (\<lambda>x. f x = C) xs) = mset xs"
  using assms by (induction xs) auto

lemma report_partition:
  assumes "finished M kn ts s"
  shows "mset (cr_succeeded (report ts s)) + mset (cr_failed (report ts s)) + mset (cr_remaining (report ts s)) = mset (map t_node ts)"
proof -
  let ?o = "\<lambda>t. nr_outcome (result_row s t)"
  have "cr_remaining (report ts s) = map t_node (filter (\<lambda>t. ?o t = NodeOutcomeNotAttempted) ts)"
    using result_row_of(2) [OF assms] by (auto simp: report_def attempted_def intro!: arg_cong [of _ _ "map t_node"] filter_cong)
  moreover have "mset (filter (\<lambda>t. ?o t = NodeOutcomeSucceeded) ts) + mset (filter (\<lambda>t. ?o t = NodeOutcomeFailed) ts) +
      mset (filter (\<lambda>t. ?o t = NodeOutcomeNotAttempted) ts) = mset ts"
    by (rule mset_three) (auto intro: NodeOutcome.exhaust)
  then have "image_mset t_node (mset (filter (\<lambda>t. ?o t = NodeOutcomeSucceeded) ts) + mset (filter (\<lambda>t. ?o t = NodeOutcomeFailed) ts) +
      mset (filter (\<lambda>t. ?o t = NodeOutcomeNotAttempted) ts)) = image_mset t_node (mset ts)"
    by simp
  ultimately show ?thesis
    by (simp add: report_def)
qed

lemma report_touched:
  assumes "finished M kn ts s" "rest M s" "distinct (map t_node ts)"
  shows "set (cr_succeeded (report ts s)) \<union> set (cr_failed (report ts s)) = ended_nodes (cc_events s)"
proof -
  have keys: "ended_nodes (cc_events s) = fst ` set (cc_grid s)"
    using assms(2) by (simp add: rest_def grid_ok_def)
  have sub: "set (cr_succeeded (report ts s)) \<union> set (cr_failed (report ts s)) \<subseteq> t_node ` set ts"
    by (auto simp: report_def)
  have "i \<in> set (cr_succeeded (report ts s)) \<union> set (cr_failed (report ts s)) \<longleftrightarrow> i \<in> fst ` set (cc_grid s)" for i
  proof (cases "i \<in> t_node ` set ts")
    case True
    then obtain t where t: "t \<in> set ts" "i = t_node t"
      by blast
    then show ?thesis
      using report_attempted [OF assms(1,3) t(1)] by (auto simp: succeeded_def attempted_def map_of_None_iff)
        (metis map_of_None_iff not_Some_eq)+
  qed (use sub finished_keys [OF assms(1)] in blast)
  then show ?thesis
    unfolding keys by blast
qed

lemma report_ended:
  assumes "plan_ok st" "run_plan drv spec schs st = (Inr res, evs)"
  shows "set (cr_succeeded res) \<union> set (cr_failed res) = ended_nodes evs"
  using assms(2,1)
proof (rule run_plan_Inr)
  fix s
  assume s: "res = report (ps_targets st) s" "evs = cc_events s"
    and f: "finished (fleet_width (spec_knobs spec) st) (spec_knobs spec) (ps_targets st) s"
    and r: "rest (fleet_width (spec_knobs spec) st) s"
  show ?thesis
    unfolding s using assms(1) by (intro report_touched [OF f r]) (simp add: plan_ok_def targetIDs_def)
qed

text \<open>C8: The report of a cascade accounts for every planned node under every interleaving: one row per
  target, in planned order, carrying its tier, SKU and canary mark; the succeeded, failed and
  untouched lists partition the targets; the first two are exactly the nodes whose update ended
  during the run, and every update that was started has ended.\<close>

theorem report_complete:
  assumes "plan_ok st" "run_plan drv spec schs st = (Inr res, evs)"
  shows "list_all2 row_of (ps_targets st) (cr_results res) \<and>
    mset (cr_succeeded res) + mset (cr_failed res) + mset (cr_remaining res) = mset (targetIDs st) \<and>
    set (cr_succeeded res) \<union> set (cr_failed res) = ended_nodes evs \<and> in_flight evs = {}"
  using assms(2,1)
proof (rule run_plan_Inr)
  fix s
  assume s: "res = report (ps_targets st) s" "evs = cc_events s"
    and f: "finished (fleet_width (spec_knobs spec) st) (spec_knobs spec) (ps_targets st) s"
    and r: "rest (fleet_width (spec_knobs spec) st) s"
  have "list_all2 row_of (ps_targets st) (map (result_row s) (ps_targets st))"
    using result_row_of(1) [OF f] by (simp add: list_all2_conv_all_nth)
  then have "list_all2 row_of (ps_targets st) (cr_results res)"
    by (simp add: s(1) report_def)
  moreover have "mset (cr_succeeded res) + mset (cr_failed res) + mset (cr_remaining res) = mset (targetIDs st)"
    unfolding s(1) targetIDs_def by (rule report_partition [OF f])
  ultimately show ?thesis
    using r s(2) report_ended [OF assms] by (simp add: rest_def)
qed

section \<open>The canary gate\<close>

lemma sorted_map_append: "sorted (map f (xs @ ys)) \<Longrightarrow> x \<in> set xs \<Longrightarrow> y \<in> set ys \<Longrightarrow> f x \<le> f y"
  by (simp add: sorted_append)

lemma sorted_groups:
  assumes "sorted (map f (concat (map g_targets (p @ g # q))))"
  shows "t \<in> set (concat (map g_targets p)) \<Longrightarrow> c \<in> set (g_targets g) \<Longrightarrow> f t \<le> f c"
    and "t \<in> set (concat (map g_targets (p @ [g]))) \<Longrightarrow> c \<in> set (concat (map g_targets q)) \<Longrightarrow> f t \<le> f c"
proof -
  have "sorted (map f (concat (map g_targets p) @ g_targets g @ concat (map g_targets q)))"
      "sorted (map f (concat (map g_targets (p @ [g])) @ concat (map g_targets q)))"
    using assms by simp_all
  from sorted_map_append [OF this(1)] sorted_map_append [OF this(2)]
  show "t \<in> set (concat (map g_targets p)) \<Longrightarrow> c \<in> set (g_targets g) \<Longrightarrow> f t \<le> f c"
      "t \<in> set (concat (map g_targets (p @ [g]))) \<Longrightarrow> c \<in> set (concat (map g_targets q)) \<Longrightarrow> f t \<le> f c"
    by (simp_all only: set_append Un_iff simp_thms)
qed

lemma distinct_map_apart:
  assumes "distinct (map f (p @ g # q))"
  shows "h \<in> set p \<Longrightarrow> f h \<noteq> f g" and "h \<in> set (p @ [g]) \<Longrightarrow> k \<in> set q \<Longrightarrow> f h \<noteq> f k"
proof -
  have d: "f g \<notin> f ` set p" "f g \<notin> f ` set q" "f ` set p \<inter> f ` set q = {}"
    using assms by auto
  then show "h \<in> set p \<Longrightarrow> f h \<noteq> f g"
    by (metis imageI)
  show "h \<in> set (p @ [g]) \<Longrightarrow> k \<in> set q \<Longrightarrow> f h \<noteq> f k"
  proof
    assume "h \<in> set (p @ [g])" "k \<in> set q" "f h = f k"
    moreover from this have "f k \<in> f ` set q"
      by (intro imageI)
    ultimately show False
      using d by (cases "h \<in> set p") (use imageI [of h "set p" f] in auto)
  qed
qed

lemma gate_passed:
  assumes "finished M kn ts s" "tiers_ok M kn (groupByTier ts)" "sorted (map (\<lambda>t. roleRank (t_tier t)) ts)"
    and t: "t \<in> set ts" "attempted s t" and c: "c \<in> set ts" "t_canary c"
    and behind: "roleRank (t_tier c) < roleRank (t_tier t) \<or> t_tier c = t_tier t \<and> \<not> t_canary t"
  shows "succeeded s c"
  using assms(1)
proof (unfold finished_def, elim disjE exE conjE)
  assume "between M kn (groupByTier ts) [] s"
  then show ?thesis
    using in_group [OF c(1)] c(2) by (auto simp: between_def done_tier_def)
next
  fix p g q
  assume gs: "groupByTier ts = p @ g # q" and stop: "stopped M kn p g q s"
  have sort: "sorted (map (\<lambda>t. roleRank (t_tier t)) (concat (map g_targets (p @ g # q))))"
    using assms(3) concat_groupByTier [of ts] gs by simp
  obtain h k where h: "h \<in> set (p @ g # q)" "t \<in> set (g_targets h)" and k: "k \<in> set (p @ g # q)" "c \<in> set (g_targets k)"
    using in_group [OF t(1)] in_group [OF c(1)] gs by auto
  have tier: "t_tier t = g_tier h" "t_tier c = g_tier k"
    using groupByTier_tiers [of h ts t] groupByTier_tiers [of k ts c] h k gs by simp_all
  have dist: "distinct (map g_tier (p @ g # q))"
    using assms(2) gs by (simp add: tiers_ok_def)
  have "h \<notin> set q"
    using stop h(2) t(2) by (auto simp: stopped_def fresh_tier_def)
  then have t_in: "t \<in> set (concat (map g_targets (p @ [g])))"
    using h by auto
  have gated: "t_canary t" if "h = g"
    using stop h(2) t(2) that by (simp add: stopped_def gated_tier_def)
  have "k \<in> set p"
  proof (rule ccontr)
    assume "k \<notin> set p"
    then consider "k = g" | "k \<in> set q"
      using k(1) by auto
    then show False
    proof cases
      case 1
      then have "h \<noteq> g \<or> roleRank (t_tier c) = roleRank (t_tier t)"
        using tier by auto
      moreover have "h = g \<Longrightarrow> t_tier c = t_tier t \<Longrightarrow> False" "h = g \<Longrightarrow> roleRank (t_tier c) < roleRank (t_tier t) \<Longrightarrow> False"
        using behind gated tier 1 by auto
      moreover have "h \<in> set p \<Longrightarrow> roleRank (t_tier t) \<le> roleRank (t_tier c)"
        using sorted_groups(1) [OF sort, of t c] h(2) k(2) 1 by auto
      moreover have "h \<in> set p \<Longrightarrow> g_tier h \<noteq> g_tier k"
        using distinct_map_apart(1) [OF dist] 1 by simp
      ultimately show False
        using behind h(1) \<open>h \<notin> set q\<close> tier 1 by auto
    next
      case 2
      then have "roleRank (t_tier t) \<le> roleRank (t_tier c)"
        using sorted_groups(2) [OF sort t_in, of c] k(2) by auto
      moreover have "g_tier h \<noteq> g_tier k"
        using distinct_map_apart(2) [OF dist _ 2] h(1) \<open>h \<notin> set q\<close> by simp
      ultimately show False
        using behind tier by auto
    qed
  qed
  then show ?thesis
    using stop k(2) c(2) by (auto simp: stopped_def done_tier_def)
qed

text \<open>C7: The canary gate holds under every interleaving: if a node was touched at all, then every canary
  of an earlier tier succeeded, and if it is not itself a canary, so did every canary of its own
  tier, whatever the architecture.\<close>

theorem canary_gate:
  assumes "plan_ok st" "run_plan drv spec schs st = (Inr res, evs)"
    and "t \<in> set (ps_targets st)" "t_node t \<in> ended_nodes evs"
    and "c \<in> set (ps_targets st)" "t_canary c"
    and "roleRank (t_tier c) < roleRank (t_tier t) \<or> t_tier c = t_tier t \<and> \<not> t_canary t"
  shows "t_node c \<in> set (cr_succeeded res)"
  using assms(2,1)
proof (rule run_plan_Inr)
  let ?M = "fleet_width (spec_knobs spec) st"
  fix s
  assume s: "res = report (ps_targets st) s" "evs = cc_events s"
    and f: "finished ?M (spec_knobs spec) (ps_targets st) s" and r: "rest ?M s"
  have d: "distinct (map t_node (ps_targets st))" "sorted (map (\<lambda>t. roleRank (t_tier t)) (ps_targets st))"
    using assms(1) by (simp_all add: plan_ok_def targetIDs_def)
  have "attempted s t"
    using assms(4) r s(2) by (simp add: attempted_iff rest_def grid_ok_def)
  moreover have "tiers_ok ?M (spec_knobs spec) (groupByTier (ps_targets st))"
    using run_plan_valid [OF assms(2)] by (intro plan_tiers_ok [OF assms(1)]) simp
  ultimately have "succeeded s c"
    using gate_passed [OF f _ d(2) assms(3) _ assms(5,6,7)] by simp
  then show ?thesis
    using report_attempted(1) [OF f d(1) assms(5)] s(1) by simp
qed

section \<open>Bounds\<close>


text \<open>The failures the scheduler counts are the failed rows of the report.\<close>

definition failed_rows :: "NodeRole \<Rightarrow> cascadeResult \<Rightarrow> nat" where
  "failed_rows T res = length (filter (\<lambda>r. nr_outcome r = NodeOutcomeFailed \<and> nr_tier r = T) (cr_results res))"

lemma filtered_keys: "distinct (map fst al) \<Longrightarrow> i \<in> fst ` set (filter (\<lambda>x. P (snd x)) al) \<longleftrightarrow> (\<exists>r. map_of al i = Some r \<and> P r)"
  unfolding map_of_eq_Some_iff by (auto simp: image_iff)

lemma filtered_rows:
  assumes "finished M kn ts s" "\<And>t. P (result_row s t) \<Longrightarrow> nr_outcome (result_row s t) \<noteq> NodeOutcomeNotAttempted"
  shows "(\<exists>r. map_of (cc_grid s) i = Some r \<and> P r) \<longleftrightarrow> i \<in> t_node ` set (filter (\<lambda>t. P (result_row s t)) ts)"
proof
  assume "\<exists>r. map_of (cc_grid s) i = Some r \<and> P r"
  then obtain r where r: "map_of (cc_grid s) i = Some r" "P r"
    by blast
  then have "i \<in> t_node ` set ts"
    using finished_keys [OF assms(1)] by (metis map_of_None_iff not_Some_eq subsetD)
  then obtain t where t: "t \<in> set ts" "t_node t = i"
    by blast
  with r have "t \<in> set (filter (\<lambda>t. P (result_row s t)) ts)"
    by (simp add: result_row_def)
  with t(2) show "i \<in> t_node ` set (filter (\<lambda>t. P (result_row s t)) ts)"
    by blast
next
  assume "i \<in> t_node ` set (filter (\<lambda>t. P (result_row s t)) ts)"
  then obtain t where t: "t_node t = i" "P (result_row s t)"
    by auto
  from assms(2) [OF t(2)] have "map_of (cc_grid s) i \<noteq> None"
    using t(1) by (cases "map_of (cc_grid s) i") (auto simp: result_row_def blank_row_def)
  then show "\<exists>r. map_of (cc_grid s) i = Some r \<and> P r"
    using t by (auto simp: result_row_def)
qed

lemma failed_rows_in:
  assumes "finished M kn ts s" "rest M s" "distinct (map t_node ts)"
  shows "failed_rows T (report ts s) = failed_in T s"
proof -
  let ?P = "\<lambda>r. nr_outcome r = NodeOutcomeFailed \<and> nr_tier r = T"
  let ?ids = "map t_node (filter (\<lambda>t. ?P (result_row s t)) ts)"
  let ?keys = "map fst (filter (\<lambda>x. ?P (snd x)) (cc_grid s))"
  have dist: "distinct (map fst (cc_grid s))"
    using assms(2) by (simp add: rest_def grid_ok_def)
  have "set ?ids = set ?keys"
  proof (rule set_eqI)
    fix i
    have "i \<in> set ?keys \<longleftrightarrow> (\<exists>r. map_of (cc_grid s) i = Some r \<and> ?P r)"
      unfolding set_map by (rule filtered_keys [OF dist])
    also have "\<dots> \<longleftrightarrow> i \<in> set ?ids"
      unfolding set_map by (rule filtered_rows [OF assms(1)]) simp
    finally show "i \<in> set ?ids \<longleftrightarrow> i \<in> set ?keys"
      by (rule sym)
  qed
  moreover have "distinct ?ids" "distinct ?keys"
    using assms(3) dist by (simp_all add: distinct_map_filter)
  ultimately have "length ?ids = length ?keys"
    using distinct_card [of ?ids] distinct_card [of ?keys] by simp
  moreover have "failed_rows T (report ts s) = length ?ids"
    by (simp add: failed_rows_def report_def filter_map comp_def)
  moreover have "failed_in T s = length ?keys"
    unfolding failed_in_def length_map by (intro arg_cong [of _ _ length] filter_cong) (auto simp: case_prod_beta)
  ultimately show ?thesis
    by simp
qed

lemma finished_budget:
  assumes "finished M kn ts s" "tiers_ok M kn (groupByTier ts)" "g \<in> set (groupByTier ts)" "0 \<le> tier_budget kn g"
  shows "tier_budget kn g \<noteq> UnlimitedFailures \<longrightarrow> int (failed_in (g_tier g) s) \<le> tier_budget kn g + int (tier_width kn g) - 1"
    and "cc_failure s = None \<Longrightarrow> t \<in> set (g_targets g) \<Longrightarrow> \<not> attempted s t \<Longrightarrow>
      tier_budget kn g \<noteq> UnlimitedFailures \<and> tier_budget kn g \<le> int (failed_in (g_tier g) s)"
proof -
  have one: "1 \<le> tier_width kn g" "tier_budget kn g \<noteq> UnlimitedFailures \<Longrightarrow> 1 \<le> tier_budget kn g"
    using assms(4) tier_width_pos by (auto simp: UnlimitedFailures_def)
  have "done_tier kn s g \<or> failed_in (g_tier g) s \<le> 1 \<and> cc_failure s \<noteq> None"
    using assms(1,3) unfolding finished_def
    by (auto simp: between_def stopped_def canary_tripped_def fresh_tier_def gated_tier_def)
  then show "tier_budget kn g \<noteq> UnlimitedFailures \<longrightarrow> int (failed_in (g_tier g) s) \<le> tier_budget kn g + int (tier_width kn g) - 1"
      "cc_failure s = None \<Longrightarrow> t \<in> set (g_targets g) \<Longrightarrow> \<not> attempted s t \<Longrightarrow>
        tier_budget kn g \<noteq> UnlimitedFailures \<and> tier_budget kn g \<le> int (failed_in (g_tier g) s)"
    using one by (auto simp: done_tier_def budget_ok_def)
qed

text \<open>C9: The failure budget of a tier stops new starts and nothing else: with a budget, the failed rows
  of the tier exceed it by less than the tier's width; and when no canary failed, a node of the tier
  was left untouched only because the budget had been reached.\<close>

theorem failure_budget:
  assumes "plan_ok st" "run_plan drv spec schs st = (Inr res, evs)" "g \<in> set (groupByTier (ps_targets st))"
  shows "(tier_budget (spec_knobs spec) g \<noteq> UnlimitedFailures \<longrightarrow>
      int (failed_rows (g_tier g) res) \<le> tier_budget (spec_knobs spec) g + int (tier_width (spec_knobs spec) g) - 1) \<and>
    (cr_canary_failure res = None \<and> t_node ` set (g_targets g) \<inter> set (cr_remaining res) \<noteq> {} \<longrightarrow>
      tier_budget (spec_knobs spec) g \<noteq> UnlimitedFailures \<and> tier_budget (spec_knobs spec) g \<le> int (failed_rows (g_tier g) res))"
  using assms(2,1)
proof (rule run_plan_Inr)
  let ?kn = "spec_knobs spec"
  let ?M = "fleet_width ?kn st"
  fix s
  assume s: "res = report (ps_targets st) s" and f: "finished ?M ?kn (ps_targets st) s" and r: "rest ?M s"
  have d: "distinct (map t_node (ps_targets st))"
    using assms(1) by (simp add: plan_ok_def targetIDs_def)
  have v: "Validate_knob (k_failures ?kn) = None"
    using run_plan_valid [OF assms(2)] by simp
  note b = finished_budget [OF f plan_tiers_ok [OF assms(1) v] assms(3) tier_budget_nonneg [OF v]]
  have rows: "failed_rows (g_tier g) res = failed_in (g_tier g) s"
    unfolding s(1) by (rule failed_rows_in [OF f r d])
  have rem: "\<exists>t \<in> set (g_targets g). \<not> attempted s t" if "t_node ` set (g_targets g) \<inter> set (cr_remaining res) \<noteq> {}"
  proof -
    from that obtain t where t: "t \<in> set (g_targets g)" "t_node t \<in> set (cr_remaining res)"
      by blast
    then have "t \<in> set (concat (map g_targets (groupByTier (ps_targets st))))"
      using assms(3) by auto
    then have "t \<in> set (ps_targets st)"
      by (simp only: concat_groupByTier)
    from report_attempted(3) [OF f d this] t s show ?thesis
      by auto
  qed
  have "cr_canary_failure res = cc_failure s"
    by (simp add: s(1) report_def)
  then show ?thesis
    using b rem rows by auto
qed

section \<open>The parent's verdict\<close>

lemma spent_failed:
  assumes "finished M kn ts s" "tiers_ok M kn (groupByTier ts)" "Validate_knob (k_failures kn) = None"
    and "cc_failure s = None" "t \<in> set ts" "\<not> attempted s t"
  shows "0 < failed_in (t_tier t) s"
proof -
  obtain g where g: "g \<in> set (groupByTier ts)" "t \<in> set (g_targets g)"
    using in_group [OF assms(5)] by blast
  then have "tier_budget kn g \<noteq> UnlimitedFailures \<and> tier_budget kn g \<le> int (failed_in (g_tier g) s)"
    using finished_budget(2) [OF assms(1,2) g(1) tier_budget_nonneg [OF assms(3)] assms(4) g(2) assms(6)] by simp
  then show ?thesis
    using tier_budget_nonneg [OF assms(3), of g] groupByTier_tiers [OF g] by (simp add: UnlimitedFailures_def)
qed

lemma failed_rows_pos: "0 < failed_rows T (report ts s) \<Longrightarrow> cr_failed (report ts s) \<noteq> []"
  by (auto simp: failed_rows_def report_def filter_map filter_empty_conv)

lemma all_succeeded:
  assumes "finished M kn ts s" "distinct (map t_node ts)"
  shows "cr_succeeded (report ts s) = map t_node ts \<longleftrightarrow> (\<forall>t \<in> set ts. succeeded s t)"
proof
  assume a: "cr_succeeded (report ts s) = map t_node ts"
  show "\<forall>t \<in> set ts. succeeded s t"
  proof
    fix t
    assume t: "t \<in> set ts"
    then have "t_node t \<in> set (cr_succeeded (report ts s))"
      unfolding a by simp
    then show "succeeded s t"
      using report_attempted(1) [OF assms t] by simp
  qed
next
  assume "\<forall>t \<in> set ts. succeeded s t"
  then have "filter (\<lambda>t. nr_outcome (result_row s t) = NodeOutcomeSucceeded) ts = ts"
    by (auto simp: filter_id_conv succeeded_def result_row_def)
  then show "cr_succeeded (report ts s) = map t_node ts"
    by (simp add: report_def)
qed

lemma none_failed:
  assumes "finished M kn ts s" "distinct (map t_node ts)"
  shows "cr_failed (report ts s) = [] \<longleftrightarrow> (\<forall>t \<in> set ts. attempted s t \<longrightarrow> succeeded s t)"
proof -
  have "set (cr_failed (report ts s)) \<subseteq> t_node ` set ts"
    by (auto simp: report_def)
  then have "cr_failed (report ts s) = [] \<longleftrightarrow> (\<forall>t \<in> set ts. t_node t \<notin> set (cr_failed (report ts s)))"
    by (metis empty_iff imageE list.set(1) list.set_intros(1) neq_Nil_conv subsetD)
  then show ?thesis
    using report_attempted(2) [OF assms] by blast
qed

lemma gate_not_tripped:
  assumes "finished M kn ts s" "\<forall>t \<in> set ts. succeeded s t"
  shows "cc_failure s = None"
proof (rule ccontr)
  assume "cc_failure s \<noteq> None"
  then have "\<not> between M kn (groupByTier ts) [] s"
    by (simp add: between_def)
  with assms(1) obtain p g q where g: "groupByTier ts = p @ g # q" "canary_tripped g s"
    unfolding finished_def by blast
  then obtain c where c: "c \<in> set (g_targets g)" "\<not> succeeded s c"
    by (auto simp: canary_tripped_def succeeded_def)
  then have "c \<in> set (concat (map g_targets (groupByTier ts)))"
    using g(1) by auto
  then have "c \<in> set ts"
    by (simp only: concat_groupByTier)
  with assms(2) c(2) show False
    by blast
qed

lemma verdict_green:
  assumes "plan_ok st" "run_plan drv spec schs st = (Inr res, evs)"
  shows "terminalError res = None \<longleftrightarrow> cr_succeeded res = targetIDs st"
  using assms(2,1)
proof (rule run_plan_Inr)
  let ?kn = "spec_knobs spec" and ?ts = "ps_targets st"
  let ?M = "fleet_width ?kn st"
  fix s
  assume s: "res = report ?ts s" and f: "finished ?M ?kn ?ts s" and r: "rest ?M s"
  have d: "distinct (map t_node ?ts)"
    using assms(1) by (simp add: plan_ok_def targetIDs_def)
  have v: "Validate_knob (k_failures ?kn) = None"
    using run_plan_valid [OF assms(2)] by simp
  have none: "terminalError res = None \<longleftrightarrow> cc_failure s = None \<and> cr_failed res = []"
    by (auto simp: terminalError_def s report_def split: option.splits)
  have att: "attempted s t" if "cc_failure s = None" "cr_failed res = []" "t \<in> set ?ts" for t
  proof (rule ccontr)
    assume "\<not> attempted s t"
    from spent_failed [OF f plan_tiers_ok [OF assms(1) v] v that(1,3) this]
    have "0 < failed_rows (t_tier t) res"
      unfolding s(1) failed_rows_in [OF f r d] .
    then show False
      using failed_rows_pos [of "t_tier t" ?ts s] that(2) s by simp
  qed
  then show ?thesis
    using none none_failed [OF f d] gate_not_tripped [OF f] all_succeeded [OF f d]
    unfolding s(1) targetIDs_def by blast
qed

text \<open>C11: The parent job is green exactly when every planned node was updated and no node was stranded
  without an image; and the counts it publishes split its planned nodes into updated, failed and
  untouched.\<close>

theorem parent_verdict:
  assumes "plan_ok st" "run_plan drv spec schs st = (Inr res, evs)"
    and "systemSummarize job (Some st) (Some res) l = (Some counts, verdict, l')"
  shows "(verdict = None \<longleftrightarrow> cr_succeeded res = targetIDs st \<and> stranded st = []) \<and>
    (ps_targets st \<noteq> [] \<longrightarrow> ct_total counts = length (ps_targets st) \<and>
       ct_succeeded counts + ct_failed counts + ct_not_attempted counts = ct_total counts)"
proof -
  obtain children where ch: "counts = summary_counts children st res"
      "verdict = (case terminalError res of Some e \<Rightarrow> Some e
         | None \<Rightarrow> if stranded st \<noteq> [] then Some (NodesStranded (map sk_node (stranded st))) else None)"
    using assms(3) by (auto simp: systemSummarize_def split: prod.splits sum.splits)
  have "verdict = None \<longleftrightarrow> terminalError res = None \<and> stranded st = []"
    unfolding ch(2) by (simp split: option.split)
  moreover have "ct_total counts = length (ps_targets st) \<and>
      ct_succeeded counts + ct_failed counts + ct_not_attempted counts = ct_total counts" if "ps_targets st \<noteq> []"
    using assms(2,1)
  proof (rule run_plan_Inr)
    let ?M = "fleet_width (spec_knobs spec) st"
    fix s
    assume s: "res = report (ps_targets st) s" and f: "finished ?M (spec_knobs spec) (ps_targets st) s"
    have "size (mset (cr_succeeded res) + mset (cr_failed res) + mset (cr_remaining res)) = length (ps_targets st)"
      unfolding s report_partition [OF f] by simp
    moreover have "ct_succeeded counts = length (cr_succeeded res)" "ct_failed counts = length (cr_failed res)"
        "ct_not_attempted counts = length (cr_remaining res)" "ct_total counts = length (ps_targets st)"
      using that by (simp_all add: ch(1) summary_counts_def s report_def filter_map comp_def)
    ultimately show ?thesis
      by simp
  qed
  ultimately show ?thesis
    using verdict_green [OF assms(1,2)] by simp
qed

section \<open>A run to evaluate\<close>

text \<open>The plan of the sample cluster, with the nodes in \<open>bad\<close> failing.\<close>

definition demo_driver :: "string list \<Rightarrow> driver" where
  "demo_driver bad = \<lparr>d_submit = (\<lambda>t. Inr (t_node t)), d_wait = (\<lambda>c. Inr (if c \<in> set bad then StatusFailed else StatusSucceeded))\<rparr>"

definition demo_result :: "string list \<Rightarrow> cascadeResult" where
  "demo_result bad = (case fst (run_plan (demo_driver bad) demo_spec [] demo_plan) of Inr res \<Rightarrow> res | Inl e \<Rightarrow> empty_result)"

definition demo_events :: "string list \<Rightarrow> system_event list" where
  "demo_events bad = snd (run_plan (demo_driver bad) demo_spec [] demo_plan)"

lemma demo_runs:
  assumes "\<not> isl (fst (run_plan (demo_driver bad) demo_spec [] demo_plan))"
  shows "run_plan (demo_driver bad) demo_spec [] demo_plan = (Inr (demo_result bad), demo_events bad)"
  using assms by (cases "run_plan (demo_driver bad) demo_spec [] demo_plan"; cases "fst (run_plan (demo_driver bad) demo_spec [] demo_plan)")
    (auto simp: demo_result_def demo_events_def)

lemma demo_ran:
  "run_plan (demo_driver []) demo_spec [] demo_plan = (Inr (demo_result []), demo_events [])"
  "run_plan (demo_driver [''c3'']) demo_spec [] demo_plan = (Inr (demo_result [''c3'']), demo_events [''c3''])"
  "run_plan (demo_driver [''c2'']) demo_spec [] demo_plan = (Inr (demo_result [''c2'']), demo_events [''c2''])"
  by (rule demo_runs, code_simp)+

theorem report_complete_witness:
  "mset (cr_succeeded (demo_result [''c2''])) + mset (cr_failed (demo_result [''c2''])) + mset (cr_remaining (demo_result [''c2'']))
     = mset [''c1'', ''c2'', ''c3'', ''cp''] \<and> cr_remaining (demo_result [''c2'']) = [''c3'', ''cp'']"
proof -
  have "targetIDs demo_plan = [''c1'', ''c2'', ''c3'', ''cp'']" "cr_remaining (demo_result [''c2'']) = [''c3'', ''cp'']"
    by code_simp+
  with report_complete [OF demo_plan_ok demo_ran(3)] show ?thesis
    by simp
qed

theorem canary_gate_witness: "''c2'' \<in> set (cr_succeeded (demo_result [''c3'']))"
proof -
  let ?t = "demo_target ''c3'' ''aa'' ''rasputin-n100'' ''compute'' False"
  let ?c = "demo_target ''c2'' ''bb'' ''rasputin-rpi-arm64'' ''compute'' True"
  have "?t \<in> set (ps_targets demo_plan)" "?c \<in> set (ps_targets demo_plan)" "t_canary ?c" "t_tier ?c = t_tier ?t \<and> \<not> t_canary ?t"
      "t_node ?c = ''c2''"
    by (simp_all add: demo_plan_def demo_target_def)
  moreover have "set (cr_failed (demo_result [''c3''])) = {''c3''}"
    by code_simp
  then have "t_node ?t \<in> ended_nodes (demo_events [''c3''])"
    using report_ended [OF demo_plan_ok demo_ran(2)] by (auto simp: demo_target_def)
  ultimately show ?thesis
    using canary_gate [OF demo_plan_ok demo_ran(2), of ?t ?c] by metis
qed


theorem failure_budget_witness: "failed_rows ''compute'' (demo_result [''c3'']) = 1 \<and> int (failed_rows ''compute'' (demo_result [''c3''])) \<le> 1 + int 2 - 1"
proof -
  let ?g = "hd (groupByTier (ps_targets demo_plan))"
  have g: "?g \<in> set (groupByTier (ps_targets demo_plan))" "g_tier ?g = ''compute''"
      "tier_budget (spec_knobs demo_spec) ?g = 1" "tier_width (spec_knobs demo_spec) ?g = 2" "UnlimitedFailures \<noteq> 1"
      "failed_rows ''compute'' (demo_result [''c3'']) = 1"
    by code_simp+
  from failure_budget [OF demo_plan_ok demo_ran(2) g(1)] g(2-) show ?thesis
    by simp
qed

definition idle_ledger :: ledger where
  "idle_ledger = \<lparr>jobs = [], job_steps = [], job_events = [], db_faults = []\<rparr>"

theorem parent_verdict_witness:
  "fst (snd (systemSummarize ''j'' (Some demo_plan) (Some (demo_result [])) idle_ledger)) \<noteq> None"
proof -
  obtain counts verdict l' where r: "systemSummarize ''j'' (Some demo_plan) (Some (demo_result [])) idle_ledger = (counts, verdict, l')"
    by (metis prod.exhaust)
  moreover have "fst (systemSummarize ''j'' (Some demo_plan) (Some (demo_result [])) idle_ledger) \<noteq> None" "stranded demo_plan \<noteq> []"
    by code_simp+
  ultimately show ?thesis
    using parent_verdict [OF demo_plan_ok demo_ran(1), of "''j''" idle_ledger _ verdict l'] by auto
qed

end
