(* ===== verification/Boot_Verify.thy ===== *)
theory Boot_Verify
  imports Prelude
begin

text \<open>
  Proof of a restart (\<^verbatim>\<open>api/internal/bootverify/bootverify.go\<close>): the comparison of boot identities,
  the two probes, the wait for a node to answer from another boot than the one it was told to leave,
  and the verification of a plain restart.  What the node and the bus do is the input: one
  \<open>poll_round\<close> per turn of the loop says how the request ended, whether the step's bound had passed
  by then, and what the pause after it ended with.  A list of rounds that runs out before the wait is
  decided gives \<^term>\<open>None\<close>.
\<close>

section \<open>Boot identity\<close>

datatype Identity = Differs | Same | Unknown

definition Classify :: "string \<Rightarrow> string \<Rightarrow> Identity" where
  "Classify prior current =
     (if prior = [] \<or> current = [] then Unknown else if prior = current then Same else Differs)"

text \<open>How a request on the bus can end, and what a probe makes of it.\<close>

datatype 'a rpc = RpcAck 'a | RpcUnreadable | RpcNoResponders | RpcContextErr | RpcBusErr

datatype ask = AskBoot string | AskUnreadable | AskContextErr | AskBusErr

definition askPrecheck :: "string rpc \<Rightarrow> ask" where
  "askPrecheck r = (case r of
     RpcAck b \<Rightarrow> AskBoot b | RpcUnreadable \<Rightarrow> AskUnreadable | RpcContextErr \<Rightarrow> AskContextErr | _ \<Rightarrow> AskBusErr)"

definition NodeProbe :: "string rpc \<Rightarrow> string rpc \<Rightarrow> ask" where
  "NodeProbe ping precheck = (case ping of
     RpcAck b \<Rightarrow>
       if b \<noteq> [] then AskBoot b
       else (case precheck of RpcAck i \<Rightarrow> AskBoot i | RpcNoResponders \<Rightarrow> AskBoot [] | _ \<Rightarrow> AskUnreadable)
   | RpcUnreadable \<Rightarrow> AskUnreadable
   | RpcContextErr \<Rightarrow> AskContextErr
   | _ \<Rightarrow> AskBusErr)"

section \<open>Waiting for a new boot\<close>

record poll_round =
  pr_ctx_done :: bool
  pr_ask :: ask
  pr_step_done :: bool

definition PollCancelledByStep :: "bool \<Rightarrow> ask \<Rightarrow> bool" where
  "PollCancelledByStep ctx_done r \<longleftrightarrow> ctx_done \<and> r = AskContextErr"

record boot_wait =
  answeringPriorBoot :: bool
  everAnswered :: bool
  wentQuiet :: bool

datatype wait_failure = NeverRebooted string | NeverQuiet | NeverReturned | NeverAnswered

definition deadlineVerdict :: "string \<Rightarrow> boot_wait \<Rightarrow> Identity \<times> wait_failure option" where
  "deadlineVerdict prior s =
     (if answeringPriorBoot s then (Same, Some (NeverRebooted prior))
      else if prior = [] \<and> \<not> wentQuiet s then (Unknown, Some NeverQuiet)
      else if everAnswered s then (Unknown, Some NeverReturned)
      else (Unknown, Some NeverAnswered))"

text \<open>What one completed poll does: a verdict that ends the wait, or the facts it leaves.\<close>

definition poll_step :: "string \<Rightarrow> ask \<Rightarrow> boot_wait \<Rightarrow> Identity option \<times> boot_wait" where
  "poll_step prior r s = (case r of
     AskUnreadable \<Rightarrow> (None, s)
   | AskBoot b \<Rightarrow>
       (let s1 = s\<lparr>everAnswered := True\<rparr> in
        if prior = [] then
          (if b \<noteq> [] \<or> wentQuiet s then (Some Unknown, s1) else (None, s1))
        else case Classify prior b of
          Differs \<Rightarrow> (Some Differs, s1)
        | Unknown \<Rightarrow> (Some Unknown, s1)
        | Same \<Rightarrow> (None, s1\<lparr>answeringPriorBoot := True\<rparr>))
   | _ \<Rightarrow> (None, s\<lparr>wentQuiet := True, answeringPriorBoot := False\<rparr>))"

fun wait_loop :: "string \<Rightarrow> poll_round list \<Rightarrow> boot_wait \<Rightarrow> (Identity \<times> wait_failure option) option" where
  "wait_loop prior [] s = None"
| "wait_loop prior (r # rs) s =
     (if PollCancelledByStep (pr_ctx_done r) (pr_ask r) then Some (deadlineVerdict prior s)
      else case poll_step prior (pr_ask r) s of
        (Some v, s1) \<Rightarrow> Some (v, None)
      | (None, s1) \<Rightarrow> if pr_step_done r then Some (deadlineVerdict prior s1) else wait_loop prior rs s1)"

definition WaitForNewBoot :: "string \<Rightarrow> poll_round list \<Rightarrow> (Identity \<times> wait_failure option) option" where
  "WaitForNewBoot prior rounds =
     wait_loop prior rounds \<lparr>answeringPriorBoot = False, everAnswered = False, wentQuiet = False\<rparr>"

section \<open>Verifying a restart\<close>

datatype restart_error =
    SubscribeFailed string
  | RebootCommandFailed string string
  | WentCritical string string
  | WaitFailed wait_failure "string option"
  | NoIdentityBefore
  | NoIdentityAfter string

text \<open>
  What is heard while waiting: a subscription that failed, a report that the reboot command failed
  (established or not), a transition of the node to a critical presence.  When both kinds of report
  are there the select takes either.
\<close>

record restart_heard =
  rh_subscribe :: "string option"
  rh_rounds :: "poll_round list"
  rh_failed :: "string option"
  rh_critical :: "string option"
  rh_report :: "string option"
  rh_failed_first :: bool

definition verifyRestart :: "bool \<Rightarrow> string \<Rightarrow> restart_heard \<Rightarrow> (Identity \<times> restart_error option) option" where
  "verifyRestart readCritical prior h = (case rh_subscribe h of
     Some e \<Rightarrow> Some (Unknown, Some (SubscribeFailed e))
   | None \<Rightarrow> (case WaitForNewBoot prior (rh_rounds h) of
       None \<Rightarrow> None
     | Some (verdict, werr) \<Rightarrow>
         if werr = None \<and> verdict = Differs then Some (Differs, None)
         else
           let critical = (if readCritical then rh_critical h else None) in
           case (rh_failed h, critical) of
             (Some d, None) \<Rightarrow> Some (Same, Some (RebootCommandFailed prior d))
           | (Some d, Some c) \<Rightarrow>
               Some (if rh_failed_first h then (Same, Some (RebootCommandFailed prior d)) else (verdict, Some (WentCritical c prior)))
           | (None, Some c) \<Rightarrow> Some (verdict, Some (WentCritical c prior))
           | (None, None) \<Rightarrow>
               Some (verdict, Some (case werr of
                 Some e \<Rightarrow> WaitFailed e (rh_report h)
               | None \<Rightarrow> if prior = [] then NoIdentityBefore else NoIdentityAfter prior))))"

definition VerifyRestart :: "string \<Rightarrow> restart_heard \<Rightarrow> (Identity \<times> restart_error option) option" where
  "VerifyRestart = verifyRestart False"

definition VerifyReboot :: "string \<Rightarrow> restart_heard \<Rightarrow> (Identity \<times> restart_error option) option" where
  "VerifyReboot = verifyRestart True"

section \<open>What a pass proves\<close>

text \<open>
  Evidence that the node was restarted: an answer that differs from the boot before, or, when that
  one had no identity, an answer with one or an answer after a request that failed.
\<close>

definition quiet_ask :: "ask \<Rightarrow> bool" where
  "quiet_ask a \<longleftrightarrow> a = AskContextErr \<or> a = AskBusErr"

fun came_back :: "ask list \<Rightarrow> bool" where
  "came_back [] = False"
| "came_back (a # as) = (quiet_ask a \<and> AskBoot [] \<in> set as \<or> came_back as)"

definition restart_evidence :: "string \<Rightarrow> ask list \<Rightarrow> Identity \<Rightarrow> bool" where
  "restart_evidence prior asks v \<longleftrightarrow>
     (if prior = [] then v = Unknown \<and> ((\<exists>b. b \<noteq> [] \<and> AskBoot b \<in> set asks) \<or> came_back asks)
      else \<exists>b. b \<noteq> prior \<and> AskBoot b \<in> set asks \<and> v = Classify prior b)"

lemma Classify_cases:
  "prior \<noteq> [] \<Longrightarrow> Classify prior b = Differs \<longleftrightarrow> b \<noteq> [] \<and> b \<noteq> prior"
  "prior \<noteq> [] \<Longrightarrow> Classify prior b = Unknown \<longleftrightarrow> b = []"
  "prior \<noteq> [] \<Longrightarrow> Classify prior b = Same \<longleftrightarrow> b = prior"
  by (auto simp: Classify_def)

lemma poll_step_pass:
  assumes "poll_step prior a s = (Some v, s')"
  obtains b where "a = AskBoot b" "prior = [] \<Longrightarrow> v = Unknown \<and> (b \<noteq> [] \<or> wentQuiet s)"
    "prior \<noteq> [] \<Longrightarrow> b \<noteq> prior \<and> v = Classify prior b"
  using assms Classify_cases [of prior]
  by (auto simp: poll_step_def Let_def split: ask.splits if_splits Identity.splits)

lemma poll_step_go_on:
  assumes "poll_step prior a s = (None, s')"
  shows "wentQuiet s' = (wentQuiet s \<or> quiet_ask a)"
    and "everAnswered s' = (everAnswered s \<or> (\<exists>b. a = AskBoot b))"
    and "answeringPriorBoot s' = (if a = AskUnreadable then answeringPriorBoot s
      else if prior = [] \<and> (\<exists>b. a = AskBoot b) then answeringPriorBoot s else prior \<noteq> [] \<and> a = AskBoot prior)"
  using assms
  by (cases a; cases "prior = []"; simp add: poll_step_def Let_def quiet_ask_def Classify_def split: if_splits; force)+

lemma wait_loop_pass:
  assumes "wait_loop prior rounds s = Some (v, None)"
  shows "restart_evidence prior (map pr_ask rounds) v \<or>
    prior = [] \<and> v = Unknown \<and> wentQuiet s \<and> AskBoot [] \<in> set (map pr_ask rounds)"
  using assms
proof (induction rounds arbitrary: s)
  case (Cons r rs)
  have ne: "deadlineVerdict prior t \<noteq> (v, None)" for t
    by (simp add: deadlineVerdict_def)
  then have cut: "\<not> PollCancelledByStep (pr_ctx_done r) (pr_ask r)"
    using Cons.prems by auto
  obtain o1 s1 where p: "poll_step prior (pr_ask r) s = (o1, s1)"
    by fastforce
  show ?case
  proof (cases o1)
    case (Some x)
    then have "x = v"
      using Cons.prems cut p by simp
    then obtain b where "pr_ask r = AskBoot b" "prior = [] \<Longrightarrow> v = Unknown \<and> (b \<noteq> [] \<or> wentQuiet s)"
        "prior \<noteq> [] \<Longrightarrow> b \<noteq> prior \<and> v = Classify prior b"
      using p Some by (auto elim: poll_step_pass)
    then show ?thesis
      by (cases "prior = []"; cases b) (auto simp: restart_evidence_def)
  next
    case None
    then have "wait_loop prior rs s1 = Some (v, None)"
      using Cons.prems cut p ne by (auto split: if_splits)
    from Cons.IH [OF this] poll_step_go_on(1) [OF p [unfolded None]] show ?thesis
      by (auto simp: restart_evidence_def split: if_splits)
  qed
qed simp

text \<open>C5: The wait for a new boot passes only on evidence that the node left the boot it was told to
  leave: with a boot identity before the restart, some answer carried another identity or none, and
  the verdict compares the two; without one, some answer carried an identity or came after a request
  that failed.  A node that keeps answering from its old boot never passes.\<close>

theorem new_boot_proof:
  assumes "WaitForNewBoot prior rounds = Some (v, None)"
  shows "restart_evidence prior (map pr_ask rounds) v"
  using wait_loop_pass [OF assms [unfolded WaitForNewBoot_def]] by simp

theorem new_boot_proof_witness:
  "restart_evidence ''b1'' [AskBoot ''b1'', AskBusErr, AskBoot ''b2''] Differs"
proof -
  let ?r = "\<lambda>a. \<lparr>pr_ctx_done = False, pr_ask = a, pr_step_done = False\<rparr>"
  have "WaitForNewBoot ''b1'' (map ?r [AskBoot ''b1'', AskBusErr, AskBoot ''b2'']) = Some (Differs, None)"
    by code_simp
  from new_boot_proof [OF this] show ?thesis
    by (simp add: comp_def)
qed

section \<open>What a failure says\<close>

text \<open>The polls that completed before the wait was cut short.\<close>

fun observed :: "poll_round list \<Rightarrow> ask list" where
  "observed [] = []"
| "observed (r # rs) =
     (if PollCancelledByStep (pr_ctx_done r) (pr_ask r) then []
      else if pr_step_done r then [pr_ask r] else pr_ask r # observed rs)"

definition heard :: "ask list \<Rightarrow> ask list" where
  "heard obs = filter (\<lambda>a. a \<noteq> AskUnreadable) obs"

definition verdict_of :: "string \<Rightarrow> ask list \<Rightarrow> Identity \<times> wait_failure option" where
  "verdict_of prior obs =
     (if prior \<noteq> [] \<and> heard obs \<noteq> [] \<and> last (heard obs) = AskBoot prior then (Same, Some (NeverRebooted prior))
      else if prior = [] \<and> \<not> list_ex quiet_ask obs then (Unknown, Some NeverQuiet)
      else if list_ex (\<lambda>a. \<exists>b. a = AskBoot b) obs then (Unknown, Some NeverReturned)
      else (Unknown, Some NeverAnswered))"

definition facts_of :: "string \<Rightarrow> ask list \<Rightarrow> boot_wait" where
  "facts_of prior obs = \<lparr>answeringPriorBoot = (prior \<noteq> [] \<and> heard obs \<noteq> [] \<and> last (heard obs) = AskBoot prior),
     everAnswered = list_ex (\<lambda>a. \<exists>b. a = AskBoot b) obs, wentQuiet = list_ex quiet_ask obs\<rparr>"

lemma verdict_of_facts: "verdict_of prior obs = deadlineVerdict prior (facts_of prior obs)"
  by (simp add: verdict_of_def deadlineVerdict_def facts_of_def)

lemma poll_step_facts:
  assumes "poll_step prior a (facts_of prior obs) = (None, s')"
  shows "s' = facts_of prior (obs @ [a])"
  using poll_step_go_on [OF assms]
  by (intro boot_wait.equality) (auto simp: facts_of_def heard_def quiet_ask_def)

lemma wait_loop_fail:
  assumes "wait_loop prior rounds (facts_of prior obs) = Some (v, Some e)"
  shows "(v, Some e) = verdict_of prior (obs @ observed rounds)"
  using assms
proof (induction rounds arbitrary: obs)
  case (Cons r rs)
  show ?case
  proof (cases "PollCancelledByStep (pr_ctx_done r) (pr_ask r)")
    case True
    then show ?thesis
      using Cons.prems by (simp add: verdict_of_facts)
  next
    case False
    obtain o1 s1 where p: "poll_step prior (pr_ask r) (facts_of prior obs) = (o1, s1)"
      by fastforce
    then have "o1 = None"
      using Cons.prems False by (cases o1) simp_all
    then have s1: "s1 = facts_of prior (obs @ [pr_ask r])"
      using poll_step_facts p by simp
    show ?thesis
    proof (cases "pr_step_done r")
      case True
      then show ?thesis
        using Cons.prems False p \<open>o1 = None\<close> s1 by (simp add: verdict_of_facts)
    next
      case False
      then have "wait_loop prior rs (facts_of prior (obs @ [pr_ask r])) = Some (v, Some e)"
        using Cons.prems \<open>\<not> PollCancelledByStep _ _\<close> p \<open>o1 = None\<close> s1 by simp
      from Cons.IH [OF this] False \<open>\<not> PollCancelledByStep _ _\<close> show ?thesis
        by simp
    qed
  qed
qed simp

text \<open>C28: A wait that fails names the failure from what was observed, never from a request its own
  deadline cut off: still on the old boot exactly when the last answer came from it, never rebooted
  without an identity when no request failed, gone and not returned when it had answered and a
  request failed, never answered otherwise.\<close>

theorem boot_verdict_truthful:
  assumes "WaitForNewBoot prior rounds = Some (v, Some e)"
  shows "(v, Some e) = verdict_of prior (observed rounds)"
proof -
  have "\<lparr>answeringPriorBoot = False, everAnswered = False, wentQuiet = False\<rparr> = facts_of prior []"
    by (simp add: facts_of_def heard_def)
  with wait_loop_fail [of prior rounds "[]" v e] assms show ?thesis
    by (simp add: WaitForNewBoot_def)
qed

theorem boot_verdict_truthful_witness:
  "verdict_of ''b1'' [AskBoot ''b1'', AskBusErr] = (Unknown, Some NeverReturned)"
proof -
  let ?r = "\<lambda>a d. \<lparr>pr_ctx_done = d, pr_ask = a, pr_step_done = False\<rparr>"
  let ?rounds = "[?r (AskBoot ''b1'') False, ?r AskBusErr False, ?r AskContextErr True]"
  have "WaitForNewBoot ''b1'' ?rounds = Some (Unknown, Some NeverReturned)" "observed ?rounds = [AskBoot ''b1'', AskBusErr]"
    by code_simp+
  with boot_verdict_truthful [of "''b1''" ?rounds] show ?thesis
    by simp
qed

text \<open>C29: The wait is bounded by the step: once its deadline is seen, by a request it cut off or in the
  pause between two, the wait has ended.\<close>

theorem boot_wait_ends:
  assumes "\<exists>r \<in> set rounds. pr_step_done r \<or> PollCancelledByStep (pr_ctx_done r) (pr_ask r)"
  shows "\<exists>out. WaitForNewBoot prior rounds = Some out"
proof -
  have "\<exists>out. wait_loop prior rounds s = Some out" for s
    using assms
  proof (induction rounds arbitrary: s)
    case (Cons r rs)
    then show ?case
      by (auto split: prod.splits option.splits)
  qed simp
  then show ?thesis
    by (simp add: WaitForNewBoot_def)
qed

theorem boot_wait_ends_witness:
  "{out. WaitForNewBoot ''b1'' [\<lparr>pr_ctx_done = False, pr_ask = AskUnreadable, pr_step_done = True\<rparr>] = Some out} \<noteq> {}"
  using boot_wait_ends [of "[\<lparr>pr_ctx_done = False, pr_ask = AskUnreadable, pr_step_done = True\<rparr>]" "''b1''"] by auto

text \<open>A plain restart is verified only by a different boot identity, whatever reports were heard:
  the node had one before, and some answer carried another.\<close>

theorem restart_needs_new_identity:
  assumes "verifyRestart readCritical prior h = Some (v, None)"
  shows "v = Differs \<and> prior \<noteq> [] \<and> (\<exists>b. b \<noteq> [] \<and> b \<noteq> prior \<and> AskBoot b \<in> set (map pr_ask (rh_rounds h)))"
proof -
  have w: "v = Differs \<and> WaitForNewBoot prior (rh_rounds h) = Some (Differs, None)"
    using assms by (auto simp: verifyRestart_def Let_def split: option.splits if_splits prod.splits)
  then have "restart_evidence prior (map pr_ask (rh_rounds h)) Differs"
    using wait_loop_pass [of prior "rh_rounds h" _ Differs] by (auto simp: WaitForNewBoot_def)
  then have "prior \<noteq> []" "\<exists>b. b \<noteq> prior \<and> AskBoot b \<in> set (map pr_ask (rh_rounds h)) \<and> Differs = Classify prior b"
    by (auto simp: restart_evidence_def split: if_splits)
  then show ?thesis
    using w by (auto simp: Classify_def split: if_splits)
qed

theorem restart_needs_new_identity_witness:
  "{b. b \<noteq> [] \<and> b \<noteq> ''b1'' \<and> AskBoot b \<in> {AskBusErr, AskBoot ''b2''}} \<noteq> {}"
proof -
  let ?r = "\<lambda>a. \<lparr>pr_ctx_done = False, pr_ask = a, pr_step_done = False\<rparr>"
  let ?h = "\<lparr>rh_subscribe = None, rh_rounds = [?r AskBusErr, ?r (AskBoot ''b2'')], rh_failed = Some ''x'',
    rh_critical = None, rh_report = None, rh_failed_first = True\<rparr>"
  have "verifyRestart True ''b1'' ?h = Some (Differs, None)"
    by code_simp
  from restart_needs_new_identity [OF this] show ?thesis
    by auto
qed

end
