(* ===== verification/Go_Json.thy ===== *)
theory Go_Json
  imports Inventory Go_Num
begin

text \<open>
  JSON documents as \<^verbatim>\<open>encoding/json\<close> decodes them into the structures of the sources.  A raw message
  is a document or, as \<^term>\<open>None\<close>, a text that is none; numbers are integers.  A key of an object sets
  the field whose name it equals up to the case of its letters, a later key overrides an earlier one, a
  null leaves the field as it is, and a value of another type makes the decoding fail.  Decoding into a
  map keeps the keys as they are.
\<close>

type_synonym raw_json = "json option"

text \<open>\<^verbatim>\<open>strings.EqualFold\<close> on ASCII letters, which is also how field names are matched.\<close>

definition fold_char :: "char \<Rightarrow> char" where
  "fold_char c = (if CHR ''A'' \<le> c \<and> c \<le> CHR ''Z'' then char_of (of_char c + (32 :: nat)) else c)"

definition EqualFold :: "string \<Rightarrow> string \<Rightarrow> bool" where
  "EqualFold a b \<longleftrightarrow> map fold_char a = map fold_char b"

text \<open>The fields of a document that a structure is decoded from: \<^term>\<open>None\<close> is a failure.\<close>

definition object_fields :: "raw_json \<Rightarrow> (string \<times> json) list option" where
  "object_fields r = (case r of Some (JObj m) \<Rightarrow> Some m | Some JNull \<Rightarrow> Some [] | _ \<Rightarrow> None)"

definition field_values :: "string \<Rightarrow> (string \<times> json) list \<Rightarrow> json list" where
  "field_values name m = map snd (filter (\<lambda>p. EqualFold (fst p) name) m)"

text \<open>Setting a field from the values given for it, in order.\<close>

fun set_field :: "(json \<Rightarrow> 'a option) \<Rightarrow> 'a \<Rightarrow> json list \<Rightarrow> 'a option" where
  "set_field dec x [] = Some x"
| "set_field dec x (JNull # vs) = set_field dec x vs"
| "set_field dec x (v # vs) = (case dec v of None \<Rightarrow> None | Some y \<Rightarrow> set_field dec y vs)"

definition as_str :: "json \<Rightarrow> string option" where
  "as_str v = (case v of JStr s \<Rightarrow> Some s | _ \<Rightarrow> None)"

definition as_int :: "json \<Rightarrow> int option" where
  "as_int v = (case v of JNum n \<Rightarrow> if in_int n then Some n else None | _ \<Rightarrow> None)"

definition as_bool :: "json \<Rightarrow> bool option" where
  "as_bool v = (case v of JBool b \<Rightarrow> Some b | _ \<Rightarrow> None)"

fun as_strs :: "json list \<Rightarrow> string list option" where
  "as_strs [] = Some []"
| "as_strs (v # vs) = (case (case v of JStr s \<Rightarrow> Some s | JNull \<Rightarrow> Some [] | _ \<Rightarrow> None) of
     None \<Rightarrow> None | Some s \<Rightarrow> map_option (\<lambda>ss. s # ss) (as_strs vs))"

definition as_str_list :: "json \<Rightarrow> string list option" where
  "as_str_list v = (case v of JArr vs \<Rightarrow> as_strs vs | _ \<Rightarrow> None)"

definition str_field :: "string \<Rightarrow> (string \<times> json) list \<Rightarrow> string option" where
  "str_field name m = set_field as_str [] (field_values name m)"

definition int_field :: "string \<Rightarrow> (string \<times> json) list \<Rightarrow> int option" where
  "int_field name m = set_field as_int 0 (field_values name m)"

definition bool_field :: "string \<Rightarrow> (string \<times> json) list \<Rightarrow> bool option" where
  "bool_field name m = set_field as_bool False (field_values name m)"

definition strs_field :: "string \<Rightarrow> (string \<times> json) list \<Rightarrow> string list option" where
  "strs_field name m = set_field as_str_list [] (field_values name m)"

text \<open>Decoding into a map: the last value of a key, keys compared exactly.\<close>

definition as_map :: "(string \<times> json) list \<Rightarrow> (string \<times> json) list" where
  "as_map m = fold (\<lambda>(k, v). AList.update k v) m []"

lemma as_map_get: "map_of (as_map m) k = map_of (rev m) k"
proof -
  have "map_of (fold (\<lambda>(k, v). AList.update k v) m acc) k = (case map_of (rev m) k of None \<Rightarrow> map_of acc k | Some v \<Rightarrow> Some v)" for acc
    by (induction m arbitrary: acc) (auto simp: update_conv' map_add_def split: option.split)
  then show ?thesis
    by (simp add: as_map_def split: option.split)
qed

end
