(* ===== verification/Node_Update.thy ===== *)
theory Node_Update
  imports Boot_Verify Update_Store Inventory Go_Json
begin

text \<open>
  The update of one node (\<^verbatim>\<open>api/internal/updater/{jobs,verify,selfupdate,fallback,storecheck}.go\<close>):
  the eight steps of the \<^verbatim>\<open>node.update\<close> saga, the verify contract, the commit, the terminal hook,
  the sweep of stranded rows and the fallback detector.  The agent is the other end of the bus: how
  each request to it ends is an input of the step that sends it.  The world is the update store,
  the inventory, the change events published, the pre-update copies retired and, as a history
  variable, the commands sent.  The clock reading of a step is its first argument.  Texts are the
  values they are formatted from; a reply whose JSON does not decode and whose error is dropped reads
  as the zero ack.
\<close>

section \<open>Data\<close>

record UpdateSpec =
  up_node :: string
  up_bundle :: string

record UpdatePrecheckAck =
  pa_ok :: bool
  pa_active_slot :: UpdateSlot
  pa_inactive_slot :: UpdateSlot
  pa_current_version :: string
  pa_boot_id :: string
  pa_detail :: string

definition zero_precheck :: UpdatePrecheckAck where
  "zero_precheck = \<lparr>pa_ok = False, pa_active_slot = [], pa_inactive_slot = [], pa_current_version = [],
     pa_boot_id = [], pa_detail = []\<rparr>"

record UpdateDownloadAck =
  da_ok :: bool
  da_sha256 :: string
  da_detail :: string

record UpdateInstallAck =
  ia_ok :: bool
  ia_target_slot :: UpdateSlot
  ia_new_version :: string
  ia_detail :: string

record simple_ack =
  sa_ok :: bool
  sa_detail :: string

datatype update_error =
    SpecInvalid | SpecNoNode | SpecNoBundle
  | UpInventory inv_error | UpNotRegistered string
  | UpBundleLookup us_error | UpBundleNotFound string | UpPersist us_error
  | UpRpc string | UpDecode string
  | UpPrecheckFailed string
  | UpBundleMissing | UpLoopback string string | UpDownloadFailed string | UpShaMismatch string string
  | UpCopierNoLog | UpStoreHostUnknown | UpCopyFailed string
  | UpNoInactiveSlot | UpInstallFailed string | UpWrongSlot UpdateSlot UpdateSlot
  | UpSubscribe string | UpRebootRefused string string | UpNoRebootingEvent
  | UpWait wait_failure | UpStillWaiting
  | UpRowMissing | UpPreRebootAgent string | UpBootloaderRolledBack UpdateSlot UpdateSlot
  | UpVersionMismatch UpdateSlot string string
  | UpUnhealthy string | UpUnhealthyNotRolledBack string mark_bad_error | UpRecordFailed update_error us_error
  | UpMarkGoodRejected string

datatype UpdateChangeType =
    UpdateStarted | UpdateDownloaded | UpdateInstalled | UpdateCommitted | UpdateRolledBack | UpdateFallenBack

record UpdateChangeEvt =
  ue_node :: string
  ue_job :: string
  ue_bundle :: string
  ue_change :: UpdateChangeType
  ue_to_slot :: UpdateSlot
  ue_version :: string
  ue_unverified_boot :: bool
  ue_unverified_version :: bool

datatype command = CmdDownload string | CmdInstall UpdateSlot | CmdReboot | CmdMarkGood | CmdMarkBad

record update_world =
  uw_store :: update_store
  uw_inv :: inventory
  uw_events :: "UpdateChangeEvt list"
  uw_sent :: "command list"
  uw_retired :: "string list"

record update_config =
  cf_base_url :: string
  cf_self :: string
  cf_copier :: bool
  cf_log :: bool
  cf_store_check :: bool

section \<open>Effects\<close>

definition on_store :: "(update_store \<Rightarrow> 'a \<times> update_store) \<Rightarrow> update_world \<Rightarrow> 'a \<times> update_world" where
  "on_store f w = (let (r, s) = f (uw_store w) in (r, w\<lparr>uw_store := s\<rparr>))"

definition on_inv :: "(inventory \<Rightarrow> 'a \<times> inventory) \<Rightarrow> update_world \<Rightarrow> 'a \<times> update_world" where
  "on_inv f w = (let (r, s) = f (uw_inv w) in (r, w\<lparr>uw_inv := s\<rparr>))"

definition send :: "command \<Rightarrow> update_world \<Rightarrow> update_world" where
  "send c w = w\<lparr>uw_sent := uw_sent w @ [c]\<rparr>"

definition change_evt :: "UpdateSpec \<Rightarrow> string \<Rightarrow> UpdateChangeType \<Rightarrow> UpdateSlot \<Rightarrow> string \<Rightarrow> bool \<Rightarrow> bool \<Rightarrow> UpdateChangeEvt" where
  "change_evt spec job ch slot ver ub uv = \<lparr>ue_node = up_node spec, ue_job = job, ue_bundle = up_bundle spec, ue_change = ch,
     ue_to_slot = slot, ue_version = ver, ue_unverified_boot = ub, ue_unverified_version = uv\<rparr>"

definition publishChange :: "UpdateChangeEvt \<Rightarrow> update_world \<Rightarrow> update_world" where
  "publishChange e w = w\<lparr>uw_events := uw_events w @ [e]\<rparr>"

section \<open>The verify contract\<close>

datatype versionMatch = versionMatches | versionMismatch | versionUnknown

definition classifyVersion :: "string \<Rightarrow> string \<Rightarrow> string \<Rightarrow> versionMatch" where
  "classifyVersion expected reported bundleSHA =
     (if expected = [] \<or> reported = [] then versionUnknown
      else if bundleSHA \<noteq> [] \<and> EqualFold expected bundleSHA then versionUnknown
      else if expected = reported then versionMatches else versionMismatch)"

record verifyRequest =
  vq_spec :: UpdateSpec
  vq_job :: string
  vq_prior_boot :: string

record verifyResult =
  vr_ack :: UpdatePrecheckAck
  vr_boot :: Identity
  vr_version :: versionMatch

definition UnverifiedBoot :: "verifyResult \<Rightarrow> bool" where
  "UnverifiedBoot r \<longleftrightarrow> vr_boot r = Unknown"

definition UnverifiedVersion :: "verifyResult \<Rightarrow> bool" where
  "UnverifiedVersion r \<longleftrightarrow> vr_version r = versionUnknown"

definition Degraded :: "verifyResult \<Rightarrow> bool" where
  "Degraded r \<longleftrightarrow> UnverifiedBoot r \<or> UnverifiedVersion r"

definition unconfirmInventoryVersion :: "string \<Rightarrow> update_world \<Rightarrow> update_world" where
  "unconfirmInventoryVersion node w = snd (on_inv (UnconfirmImageVersion node) w)"

definition reconcileInventoryVersion :: "gotime \<Rightarrow> string \<Rightarrow> string \<Rightarrow> update_world \<Rightarrow> update_world" where
  "reconcileInventoryVersion ts node version w =
     (if version = [] then unconfirmInventoryVersion node w
      else snd (on_inv (ConfirmImageVersion node version ts) w))"

text \<open>From the row on: the three conjuncts in the order the code checks them.\<close>

definition judge_boot :: "gotime \<Rightarrow> verifyRequest \<Rightarrow> UpdatePrecheckAck \<Rightarrow> NodeUpdate \<Rightarrow> update_world
    \<Rightarrow> (update_error + verifyResult) \<times> update_world" where
  "judge_boot ts req pre expected w =
     (let node = up_node (vq_spec req); boot = Classify (vq_prior_boot req) (pa_boot_id pre) in
      if boot = Same then (Inl (UpPreRebootAgent (pa_boot_id pre)), unconfirmInventoryVersion node w)
      else
        let version = classifyVersion (u_to_version expected) (pa_current_version pre) (u_bundle expected);
            res = \<lparr>vr_ack = pre, vr_boot = boot, vr_version = version\<rparr>;
            w1 = snd (on_store (SetNodeUpdateVerifyGaps (vq_job req) (UnverifiedBoot res) (UnverifiedVersion res)) w)
        in if pa_active_slot pre \<noteq> u_to_slot expected then
             let w2 = snd (on_store (UpdateNodeUpdate (vq_job req) NodeUpdateRolledBack (pa_active_slot pre)
                        (pa_current_version pre) NoteBootloaderRolledBack ts) w1);
                 w3 = reconcileInventoryVersion ts node (pa_current_version pre) w2
             in (Inl (UpBootloaderRolledBack (pa_active_slot pre) (u_to_slot expected)),
                 publishChange (change_evt (vq_spec req) (vq_job req) UpdateRolledBack (pa_active_slot pre)
                   (pa_current_version pre) (UnverifiedBoot res) (UnverifiedVersion res)) w3)
           else
             let w2 = reconcileInventoryVersion ts node (pa_current_version pre) w1
             in if version = versionMismatch
                then (Inl (UpVersionMismatch (pa_active_slot pre) (pa_current_version pre) (u_to_version expected)), w2)
                else (Inr res, w2))"

definition verifyBootedSlot :: "gotime \<Rightarrow> verifyRequest \<Rightarrow> UpdatePrecheckAck rpc \<Rightarrow> update_world
    \<Rightarrow> (update_error + verifyResult) \<times> update_world" where
  "verifyBootedSlot ts req reply w =
     (let go = (\<lambda>pre. case on_store (GetNodeUpdate (vq_job req)) w of
            (Inr (Some expected), w1) \<Rightarrow> judge_boot ts req pre expected w1
          | (_, w1) \<Rightarrow> (Inl UpRowMissing, w1))
      in case reply of
           RpcAck pre \<Rightarrow> go pre
         | RpcUnreadable \<Rightarrow> go zero_precheck
         | _ \<Rightarrow> (Inl (UpRpc ''post-reboot precheck''), unconfirmInventoryVersion (up_node (vq_spec req)) w))"

section \<open>Health and commit\<close>

definition probeHealth :: "simple_ack rpc \<Rightarrow> unit rpc \<Rightarrow> bool \<times> string" where
  "probeHealth health ping = (case health of
     RpcNoResponders \<Rightarrow>
       (case ping of
          RpcAck _ \<Rightarrow> (True, ''liveness ok (agent has no diag.health)'')
        | RpcUnreadable \<Rightarrow> (True, ''liveness ok (agent has no diag.health)'')
        | _ \<Rightarrow> (False, ''diag.ping (fallback) failed''))
   | RpcUnreadable \<Rightarrow> (False, ''diag.health decode failed'')
   | RpcAck a \<Rightarrow>
       if sa_ok a then (True, ''healthy'')
       else (False, if sa_detail a \<noteq> [] then sa_detail a else ''unhealthy'')
   | _ \<Rightarrow> (False, ''diag.health request failed''))"

definition selfStoreNotReady :: string where
  "selfStoreNotReady = ''the secret store did not report ready after the update''"

text \<open>\<open>store_ready\<close> is the outcome of \<^verbatim>\<open>secretstore.WaitReady\<close>.\<close>

definition ready :: "bool \<Rightarrow> bool \<times> string" where
  "ready store_ready = (if store_ready then (True, []) else (False, selfStoreNotReady))"

definition sendMarkBad :: "simple_ack rpc \<Rightarrow> mark_bad_error option" where
  "sendMarkBad reply = (case reply of
     RpcAck a \<Rightarrow> if sa_ok a then None else Some (MarkBadRejected (sa_detail a))
   | RpcUnreadable \<Rightarrow> Some MarkBadUnreadable
   | _ \<Rightarrow> Some (MarkBadUndelivered ''mark-bad''))"

definition markBadAndRecord :: "gotime \<Rightarrow> UpdateSpec \<Rightarrow> string \<Rightarrow> string \<Rightarrow> simple_ack rpc \<Rightarrow> update_world
    \<Rightarrow> update_error \<times> update_world" where
  "markBadAndRecord ts spec job detail reply w0 =
     (let w = send CmdMarkBad w0;
          (e, werr, w3) = (case sendMarkBad reply of
             None \<Rightarrow>
               let w1 = unconfirmInventoryVersion (up_node spec) w;
                   (werr, w2) = on_store (UpdateNodeUpdate job NodeUpdateRolledBack SlotUnknown [] (NoteUnhealthy detail) ts) w1
               in (UpUnhealthy detail, werr, publishChange (change_evt spec job UpdateRolledBack [] [] False False) w2)
           | Some mb \<Rightarrow>
               let w1 = unconfirmInventoryVersion (up_node spec) w;
                   (r, w2) = on_store (GetNodeUpdate job) w1;
                   (slot, ver) = (case r of Inr (Some row) \<Rightarrow> (u_to_slot row, u_to_version row) | _ \<Rightarrow> (SlotUnknown, []));
                   (werr, w3) = on_store (UpdateNodeUpdate job NodeUpdateFailed slot ver (NoteUnhealthyNotRolledBack detail mb) ts) w2
               in (UpUnhealthyNotRolledBack detail mb, werr, w3))
      in (case werr of None \<Rightarrow> e | Some we \<Rightarrow> UpRecordFailed e we, w3))"

record health_env =
  he_health :: "simple_ack rpc"
  he_ping :: "unit rpc"
  he_store_ready :: bool
  he_mark_good :: "simple_ack rpc"
  he_mark_bad :: "simple_ack rpc"

definition record_commit :: "gotime \<Rightarrow> UpdateSpec \<Rightarrow> string \<Rightarrow> update_world \<Rightarrow> update_world" where
  "record_commit ts spec job w =
     (let (r, w1) = on_store (GetNodeUpdate job) w;
          (slot, ver, ub, uv) = (case r of
             Inr (Some row) \<Rightarrow> (u_to_slot row, u_to_version row, u_unverified_boot row, u_unverified_version row)
           | _ \<Rightarrow> (SlotUnknown, [], False, False));
          (_, w2) = on_store (UpdateNodeUpdate job NodeUpdateCommitted slot ver NoNote ts) w1
      in publishChange (change_evt spec job UpdateCommitted slot ver ub uv) w2)"

definition healthCheckAndCommit :: "gotime \<Rightarrow> bool \<Rightarrow> UpdateSpec \<Rightarrow> string \<Rightarrow> health_env \<Rightarrow> update_world
    \<Rightarrow> update_error option \<times> update_world" where
  "healthCheckAndCommit ts check spec job env w =
     (let (h0, d0) = probeHealth (he_health env) (he_ping env);
          (healthy, detail) = (if h0 \<and> check then ready (he_store_ready env) else (h0, d0))
      in if \<not> healthy then
           (let (e, w1) = markBadAndRecord ts spec job detail (he_mark_bad env) w in (Some e, w1))
         else
           let w1 = send CmdMarkGood w;
               ack = (case he_mark_good env of
                        RpcAck a \<Rightarrow> Inr a
                      | RpcUnreadable \<Rightarrow> Inr \<lparr>sa_ok = False, sa_detail = []\<rparr>
                      | _ \<Rightarrow> Inl (UpRpc ''mark-good''))
           in case ack of
                Inl e \<Rightarrow> (Some e, w1)
              | Inr a \<Rightarrow>
                  if \<not> sa_ok a then (Some (UpMarkGoodRejected (sa_detail a)), w1)
                  else
                    let w2 = (if check then w1\<lparr>uw_retired := uw_retired w1 @ [job]\<rparr> else w1)
                    in (None, record_commit ts spec job w2))"

section \<open>The steps\<close>

text \<open>\<open>None\<close> is a spec that does not decode.\<close>

definition parseSpec :: "UpdateSpec option \<Rightarrow> update_error + UpdateSpec" where
  "parseSpec raw = (case raw of
     None \<Rightarrow> Inl SpecInvalid
   | Some sp \<Rightarrow> if up_node sp = [] then Inl SpecNoNode else if up_bundle sp = [] then Inl SpecNoBundle else Inr sp)"

definition fresh_row :: "gotime \<Rightarrow> UpdateSpec \<Rightarrow> string \<Rightarrow> string \<Rightarrow> NodeUpdate" where
  "fresh_row ts spec job ver = \<lparr>u_job = job, u_node = up_node spec, u_bundle = up_bundle spec,
     u_from_slot = SlotUnknown, u_to_slot = SlotUnknown, u_from_version = [], u_to_version = ver,
     u_unverified_boot = False, u_unverified_version = False, u_status = NodeUpdateInProgress,
     u_started_at = ts, u_finished_at = None, u_error = NoNote\<rparr>"

definition updateValidate :: "gotime \<Rightarrow> UpdateSpec \<Rightarrow> string \<Rightarrow> update_world \<Rightarrow> (update_error + string) \<times> update_world" where
  "updateValidate ts spec job w = (case on_inv (Get (up_node spec)) w of
     (Inl e, w1) \<Rightarrow> (Inl (UpInventory e), w1)
   | (Inr None, w1) \<Rightarrow> (Inl (UpNotRegistered (up_node spec)), w1)
   | (Inr (Some node), w1) \<Rightarrow> (case on_store (GetBundle (up_bundle spec)) w1 of
       (Inl e, w2) \<Rightarrow> (Inl (UpBundleLookup e), w2)
     | (Inr None, w2) \<Rightarrow> (Inl (UpBundleNotFound (up_bundle spec)), w2)
     | (Inr (Some b), w2) \<Rightarrow>
         (case on_store (CreateNodeUpdate (fresh_row ts spec job (b_version b))) w2 of
            (Some e, w3) \<Rightarrow> (Inl (UpPersist e), w3)
          | (None, w3) \<Rightarrow>
              (Inr (b_version b), publishChange (change_evt spec job UpdateStarted [] (b_version b) False False) w3))))"

definition updatePrecheck :: "UpdatePrecheckAck rpc \<Rightarrow> update_error + UpdatePrecheckAck" where
  "updatePrecheck reply = (case reply of
     RpcAck a \<Rightarrow> if pa_ok a then Inr a else Inl (UpPrecheckFailed (pa_detail a))
   | RpcUnreadable \<Rightarrow> Inl (UpDecode ''precheck'')
   | _ \<Rightarrow> Inl (UpRpc ''precheck''))"

text \<open>
  The host of a URL and whether it is a loopback address are library functions (\<^verbatim>\<open>url.Parse\<close>,
  \<^verbatim>\<open>net.ParseIP\<close>); \<open>host\<close> gives the host name, \<open>loopback\<close> the property of the address.
\<close>

definition IsLoopbackURL :: "(string \<Rightarrow> string option) \<Rightarrow> (string \<Rightarrow> bool) \<Rightarrow> string \<Rightarrow> bool" where
  "IsLoopbackURL host loopback raw = (case host raw of
     None \<Rightarrow> False | Some h \<Rightarrow> h = ''localhost'' \<or> loopback h)"

definition remoteLoopbackBundleURL :: "(string \<Rightarrow> string option) \<Rightarrow> (string \<Rightarrow> bool) \<Rightarrow> string \<Rightarrow> string \<Rightarrow> string \<Rightarrow> bool" where
  "remoteLoopbackBundleURL host loopback url self target =
     (if self = [] \<or> target = self then False else IsLoopbackURL host loopback url)"

definition updateDownload :: "(string \<Rightarrow> string option) \<Rightarrow> (string \<Rightarrow> bool) \<Rightarrow> update_config \<Rightarrow> UpdateSpec \<Rightarrow> string
    \<Rightarrow> UpdateDownloadAck rpc \<Rightarrow> update_world \<Rightarrow> update_error option \<times> update_world" where
  "updateDownload host loopback cfg spec job reply w = (case on_store (GetBundle (up_bundle spec)) w of
     (Inr (Some b), w1) \<Rightarrow>
       let url = cf_base_url cfg @ ''/api/bundles/'' @ up_bundle spec
       in if remoteLoopbackBundleURL host loopback url (cf_self cfg) (up_node spec)
          then (Some (UpLoopback url (up_node spec)), w1)
          else
            let w2 = send (CmdDownload url) w1
            in (case reply of
                  RpcAck a \<Rightarrow>
                    if \<not> da_ok a then (Some (UpDownloadFailed (da_detail a)), w2)
                    else if da_sha256 a \<noteq> up_bundle spec then (Some (UpShaMismatch (up_bundle spec) (da_sha256 a)), w2)
                    else (None, publishChange (change_evt spec job UpdateDownloaded [] [] False False) w2)
                | RpcUnreadable \<Rightarrow> (Some (UpDecode ''download''), w2)
                | _ \<Rightarrow> (Some (UpRpc ''download''), w2))
   | (_, w1) \<Rightarrow> (Some UpBundleMissing, w1))"

text \<open>\<open>copied\<close> is how \<^verbatim>\<open>StoreCopy.CopyBeforeUpdate\<close> ends.\<close>

definition updateCopyStore :: "update_config \<Rightarrow> UpdateSpec \<Rightarrow> string option \<Rightarrow> update_world \<Rightarrow> update_error option \<times> update_world" where
  "updateCopyStore cfg spec copied w =
     (if \<not> cf_copier cfg then (None, w)
      else if \<not> cf_log cfg then (Some UpCopierNoLog, w)
      else if cf_self cfg \<noteq> [] \<and> up_node spec = cf_self cfg
        then (case copied of None \<Rightarrow> (None, w) | Some e \<Rightarrow> (Some (UpCopyFailed e), w))
      else case on_inv (Get (up_node spec)) w of
        (Inl e, w1) \<Rightarrow> (Some (UpInventory e), w1)
      | (Inr None, w1) \<Rightarrow> (Some (UpNotRegistered (up_node spec)), w1)
      | (Inr (Some n), w1) \<Rightarrow> if n_role n = ''controlplane'' then (Some UpStoreHostUnknown, w1) else (None, w1))"

text \<open>\<open>cached\<close> is the precheck step's recorded ack; without it the request is made again.\<close>

definition updateInstall :: "UpdateSpec \<Rightarrow> string \<Rightarrow> UpdatePrecheckAck option \<Rightarrow> UpdatePrecheckAck rpc \<Rightarrow> UpdateInstallAck rpc
    \<Rightarrow> update_world \<Rightarrow> update_error option \<times> update_world" where
  "updateInstall spec job cached again reply w =
     (let pre = (case cached of
            Some a \<Rightarrow> Inr a
          | None \<Rightarrow> (case again of
              RpcAck a \<Rightarrow> Inr a | RpcUnreadable \<Rightarrow> Inl (UpDecode ''re-precheck'') | _ \<Rightarrow> Inl (UpRpc ''re-precheck'')))
      in case pre of
           Inl e \<Rightarrow> (Some e, w)
         | Inr p \<Rightarrow>
             if pa_inactive_slot p = [] \<or> pa_inactive_slot p = SlotUnknown then (Some UpNoInactiveSlot, w)
             else
               let w1 = send (CmdInstall (pa_inactive_slot p)) w
               in (case reply of
                     RpcAck a \<Rightarrow>
                       if \<not> ia_ok a then (Some (UpInstallFailed (ia_detail a)), w1)
                       else if ia_target_slot a \<noteq> [] \<and> ia_target_slot a \<noteq> SlotUnknown \<and> ia_target_slot a \<noteq> pa_inactive_slot p
                       then (Some (UpWrongSlot (ia_target_slot a) (pa_inactive_slot p)), w1)
                       else
                         let w2 = snd (on_store (SetNodeUpdateSlots job (pa_active_slot p) (pa_inactive_slot p)
                                (pa_current_version p) (ia_new_version a)) w1)
                         in (None, publishChange (change_evt spec job UpdateInstalled (pa_inactive_slot p) (ia_new_version a) False False) w2)
                   | RpcUnreadable \<Rightarrow> (Some (UpDecode ''install''), w1)
                   | _ \<Rightarrow> (Some (UpRpc ''install''), w1)))"

text \<open>
  \<open>reply\<close> is the ack with its \<^verbatim>\<open>ok\<close> field, absent from an agent that predates it; \<open>announced\<close> is
  whether the rebooting event arrived before the step's bound.
\<close>

definition RebootRefused :: "(bool option \<times> string) rpc \<Rightarrow> string option" where
  "RebootRefused reply = (case reply of
     RpcAck (Some False, d) \<Rightarrow> Some (if d = [] then ''the agent gave no reason'' else d)
   | _ \<Rightarrow> None)"

definition updateReboot :: "UpdateSpec \<Rightarrow> string option \<Rightarrow> (bool option \<times> string) rpc \<Rightarrow> bool \<Rightarrow> update_world
    \<Rightarrow> update_error option \<times> update_world" where
  "updateReboot spec subscribe reply announced w = (case subscribe of
     Some e \<Rightarrow> (Some (UpSubscribe e), w)
   | None \<Rightarrow>
       let w1 = send CmdReboot w
       in (case reply of
             RpcNoResponders \<Rightarrow> (Some (UpRpc ''reboot''), w1)
           | RpcContextErr \<Rightarrow> (Some (UpRpc ''reboot''), w1)
           | RpcBusErr \<Rightarrow> (Some (UpRpc ''reboot''), w1)
           | _ \<Rightarrow> (case RebootRefused reply of
               Some d \<Rightarrow> (Some (UpRebootRefused (up_node spec) d), w1)
             | None \<Rightarrow> (if announced then None else Some UpNoRebootingEvent, w1))))"

definition priorPrecheckBootID :: "UpdatePrecheckAck option \<Rightarrow> string" where
  "priorPrecheckBootID cached = (case cached of None \<Rightarrow> [] | Some a \<Rightarrow> pa_boot_id a)"

definition updateWaitOnlineAndVerifySlot :: "gotime \<Rightarrow> UpdateSpec \<Rightarrow> string \<Rightarrow> UpdatePrecheckAck option \<Rightarrow> string option
    \<Rightarrow> poll_round list \<Rightarrow> UpdatePrecheckAck rpc \<Rightarrow> update_world \<Rightarrow> (update_error + verifyResult) \<times> update_world" where
  "updateWaitOnlineAndVerifySlot ts spec job cached subscribe rounds reply w = (case subscribe of
     Some e \<Rightarrow> (Inl (UpSubscribe e), w)
   | None \<Rightarrow>
       let req = \<lparr>vq_spec = spec, vq_job = job, vq_prior_boot = priorPrecheckBootID cached\<rparr>
       in (case WaitForNewBoot (vq_prior_boot req) rounds of
             None \<Rightarrow> (Inl UpStillWaiting, w)
           | Some (v, Some e) \<Rightarrow> (Inl (UpWait e), unconfirmInventoryVersion (up_node spec) w)
           | Some (v, None) \<Rightarrow> verifyBootedSlot ts req reply w))"

definition updateHealthCheckAndCommit :: "gotime \<Rightarrow> update_config \<Rightarrow> UpdateSpec \<Rightarrow> string \<Rightarrow> health_env \<Rightarrow> update_world
    \<Rightarrow> update_error option \<times> update_world" where
  "updateHealthCheckAndCommit ts cfg spec job env w =
     healthCheckAndCommit ts (cf_store_check cfg \<and> cf_self cfg \<noteq> [] \<and> up_node spec = cf_self cfg) spec job env w"

section \<open>The row's end\<close>

definition finalizeNodeUpdateRow :: "gotime \<Rightarrow> string \<Rightarrow> err option \<Rightarrow> update_world \<Rightarrow> update_world" where
  "finalizeNodeUpdateRow ts job e w = (case on_store (GetNodeUpdate job) w of
     (Inr (Some row), w1) \<Rightarrow>
       if u_status row \<noteq> NodeUpdateInProgress then w1
       else snd (on_store (UpdateNodeUpdate job NodeUpdateFailed (u_to_slot row) (u_to_version row)
                   (case e of None \<Rightarrow> NoteNoOutcome | Some m \<Rightarrow> NoteJobError m) ts) w1)
   | (_, w1) \<Rightarrow> w1)"

text \<open>The sweep at start; each row is matched with its job of the ledger.\<close>

definition reconcile_row :: "gotime \<Rightarrow> NodeUpdate \<Rightarrow> ledger \<times> update_store \<Rightarrow> ledger \<times> update_store" where
  "reconcile_row ts row st = (case st of (l, s) \<Rightarrow>
     (case GetJob (u_job row) l of
        (Inr (Some j), l1) \<Rightarrow>
          if j_status j \<noteq> StatusFailed \<and> j_status j \<noteq> StatusSucceeded then (l1, s)
          else (l1, snd (UpdateNodeUpdate (u_job row) NodeUpdateFailed (u_to_slot row) (u_to_version row)
                  (case j_error j of None \<Rightarrow> NoteNoOutcomeTerminal | Some m \<Rightarrow> NoteJobError m) ts s))
      | (_, l1) \<Rightarrow> (l1, s)))"

definition ReconcileStrandedRows :: "gotime \<Rightarrow> ledger \<Rightarrow> update_store \<Rightarrow> us_error option \<times> ledger \<times> update_store" where
  "ReconcileStrandedRows ts l s = (case ListInProgressNodeUpdates s of
     (Inl e, s1) \<Rightarrow> (Some e, l, s1)
   | (Inr rows, s1) \<Rightarrow> (None, fold (reconcile_row ts) rows (l, s1)))"

section \<open>Fallback\<close>

definition OnRegistered :: "Node \<Rightarrow> update_world \<Rightarrow> update_world" where
  "OnRegistered n w = (case on_store (LatestNodeUpdate (n_id n)) w of
     (Inr (Some row), w1) \<Rightarrow>
       if u_status row \<noteq> NodeUpdateCommitted then w1
       else if classifyVersion (u_to_version row) (n_image_version n) (u_bundle row) \<noteq> versionMismatch then w1
       else (case on_store (MarkNodeUpdateFallenBack (u_job row) (NoteFellBack (n_image_version n) (u_to_version row))) w1 of
               (Inr True, w2) \<Rightarrow> publishChange \<lparr>ue_node = n_id n, ue_job = u_job row, ue_bundle = u_bundle row,
                   ue_change = UpdateFallenBack, ue_to_slot = u_to_slot row, ue_version = n_image_version n,
                   ue_unverified_boot = False, ue_unverified_version = False\<rparr> w2
             | (_, w2) \<Rightarrow> w2)
   | (_, w1) \<Rightarrow> w1)"

section \<open>The control plane updating itself\<close>

text \<open>\<open>spec_of\<close> decodes a job's spec.\<close>

definition rebootDone :: "job_step list \<Rightarrow> bool" where
  "rebootDone steps \<longleftrightarrow> (\<exists>q \<in> set steps. s_name q = ''reboot'' \<and> s_status q = StepSucceeded)"

definition stepResult :: "job_step list \<Rightarrow> string \<Rightarrow> string option" where
  "stepResult steps name = (case sql_first (\<lambda>q. s_name q = name) steps of None \<Rightarrow> None | Some q \<Rightarrow> s_result q)"

text \<open>The agent's reconnection: the attempts in order, each answered or not, until the window closes.\<close>

fun waitForAgent :: "(bool \<times> bool) list \<Rightarrow> bool option" where
  "waitForAgent [] = None"
| "waitForAgent ((answered, window_over) # rs) =
     (if answered then Some True else if window_over then Some False else waitForAgent rs)"

datatype self_outcome = SelfWaiting | SelfFailed update_error | SelfCommitted

definition reconcileSelfUpdate :: "gotime \<Rightarrow> bool \<Rightarrow> UpdateSpec \<Rightarrow> string \<Rightarrow> string \<Rightarrow> (bool \<times> bool) list \<Rightarrow> UpdatePrecheckAck rpc
    \<Rightarrow> health_env \<Rightarrow> update_world \<Rightarrow> self_outcome \<times> update_world" where
  "reconcileSelfUpdate ts check spec job prior attempts reply env w = (case waitForAgent attempts of
     None \<Rightarrow> (SelfWaiting, w)
   | Some False \<Rightarrow> (SelfFailed (UpRpc ''agent did not reconnect''), w)
   | Some True \<Rightarrow>
       (case verifyBootedSlot ts \<lparr>vq_spec = spec, vq_job = job, vq_prior_boot = prior\<rparr> reply w of
          (Inl e, w1) \<Rightarrow> (SelfFailed e, w1)
        | (Inr res, w1) \<Rightarrow>
            (case healthCheckAndCommit ts check spec job env w1 of
               (Some e, w2) \<Rightarrow> (SelfFailed e, w2) | (None, w2) \<Rightarrow> (SelfCommitted, w2))))"

section \<open>The saga\<close>

text \<open>
  The eight steps in order, each run once, the last one twice at most.  The runner stops at the
  first step that fails and fires the terminal hook either way; \<open>msg\<close> is the text of the error the
  job records.
\<close>

record update_env =
  en_precheck :: "UpdatePrecheckAck rpc"
  en_download :: "UpdateDownloadAck rpc"
  en_copied :: "string option"
  en_install :: "UpdateInstallAck rpc"
  en_reboot_sub :: "string option"
  en_reboot :: "(bool option \<times> string) rpc"
  en_announced :: bool
  en_wait_sub :: "string option"
  en_rounds :: "poll_round list"
  en_verify :: "UpdatePrecheckAck rpc"
  en_health :: "health_env list"

fun commit_attempts :: "gotime \<Rightarrow> update_config \<Rightarrow> UpdateSpec \<Rightarrow> string \<Rightarrow> health_env list \<Rightarrow> update_error \<Rightarrow> update_world
    \<Rightarrow> update_error option \<times> update_world" where
  "commit_attempts ts cfg spec job [] le w = (Some le, w)"
| "commit_attempts ts cfg spec job (env # envs) le w = (case updateHealthCheckAndCommit ts cfg spec job env w of
     (None, w1) \<Rightarrow> (None, w1)
   | (Some e, w1) \<Rightarrow> commit_attempts ts cfg spec job envs e w1)"

definition run_until_reboot :: "(string \<Rightarrow> string option) \<Rightarrow> (string \<Rightarrow> bool) \<Rightarrow> gotime \<Rightarrow> update_config \<Rightarrow> UpdateSpec \<Rightarrow> string
    \<Rightarrow> update_env \<Rightarrow> update_world \<Rightarrow> (update_error + UpdatePrecheckAck) \<times> update_world" where
  "run_until_reboot host loopback ts cfg spec job env w = (case updateValidate ts spec job w of
     (Inl e, w1) \<Rightarrow> (Inl e, w1)
   | (Inr _, w1) \<Rightarrow> (case updatePrecheck (en_precheck env) of
       Inl e \<Rightarrow> (Inl e, w1)
     | Inr pre \<Rightarrow> (case updateDownload host loopback cfg spec job (en_download env) w1 of
         (Some e, w2) \<Rightarrow> (Inl e, w2)
       | (None, w2) \<Rightarrow> (case updateCopyStore cfg spec (en_copied env) w2 of
           (Some e, w3) \<Rightarrow> (Inl e, w3)
         | (None, w3) \<Rightarrow> (case updateInstall spec job (Some pre) (en_precheck env) (en_install env) w3 of
             (Some e, w4) \<Rightarrow> (Inl e, w4)
           | (None, w4) \<Rightarrow> (case updateReboot spec (en_reboot_sub env) (en_reboot env) (en_announced env) w4 of
               (Some e, w5) \<Rightarrow> (Inl e, w5)
             | (None, w5) \<Rightarrow> (Inr pre, w5)))))))"

definition run_update_steps :: "(string \<Rightarrow> string option) \<Rightarrow> (string \<Rightarrow> bool) \<Rightarrow> gotime \<Rightarrow> update_config \<Rightarrow> UpdateSpec option
    \<Rightarrow> string \<Rightarrow> update_env \<Rightarrow> update_world \<Rightarrow> update_error option \<times> update_world" where
  "run_update_steps host loopback ts cfg raw job env w = (case parseSpec raw of
     Inl e \<Rightarrow> (Some e, w)
   | Inr spec \<Rightarrow> (case run_until_reboot host loopback ts cfg spec job env w of
       (Inl e, w1) \<Rightarrow> (Some e, w1)
     | (Inr pre, w1) \<Rightarrow>
         (case updateWaitOnlineAndVerifySlot ts spec job (Some pre) (en_wait_sub env) (en_rounds env) (en_verify env) w1 of
            (Inl e, w2) \<Rightarrow> (Some e, w2)
          | (Inr res, w2) \<Rightarrow> commit_attempts ts cfg spec job (take 2 (en_health env)) UpStillWaiting w2)))"

definition run_update :: "(string \<Rightarrow> string option) \<Rightarrow> (string \<Rightarrow> bool) \<Rightarrow> (update_error \<Rightarrow> err) \<Rightarrow> gotime \<Rightarrow> update_config
    \<Rightarrow> UpdateSpec option \<Rightarrow> string \<Rightarrow> update_env \<Rightarrow> update_world \<Rightarrow> update_error option \<times> update_world" where
  "run_update host loopback msg ts cfg raw job env w =
     (let (e, w1) = run_update_steps host loopback ts cfg raw job env w
      in (e, finalizeNodeUpdateRow ts job (map_option msg e) w1))"

end
