(* ===== verification/Node_Update_Verify.thy ===== *)
theory Node_Update_Verify
  imports Node_Update
begin

text \<open>
  Lemmas on what the steps of a node's update establish when they pass: the row the verification
  reads, the answer after the restart, the commit.
\<close>

section \<open>The rows of a job\<close>

definition job_row :: "string \<Rightarrow> update_world \<Rightarrow> NodeUpdate option" where
  "job_row job w = sql_first (\<lambda>u. u_job u = job) (us_updates (uw_store w))"

definition other_rows :: "string \<Rightarrow> update_world \<Rightarrow> NodeUpdate list" where
  "other_rows job w = filter (\<lambda>u. u_job u \<noteq> job) (us_updates (uw_store w))"

lemma on_store_eq:
  "on_store f w = (r, w') \<Longrightarrow> f (uw_store w) = (r, uw_store w') \<and> w' = w\<lparr>uw_store := uw_store w'\<rparr>"
  by (auto simp: on_store_def split: prod.splits)

lemma on_store_snd [simp]:
  "uw_store (snd (on_store f w)) = snd (f (uw_store w))" "uw_inv (snd (on_store f w)) = uw_inv w"
  by (simp_all add: on_store_def case_prod_unfold Let_def)

lemma on_inv_snd [simp]:
  "uw_store (snd (on_inv f w)) = uw_store w" "uw_inv (snd (on_inv f w)) = snd (f (uw_inv w))"
  by (simp_all add: on_inv_def case_prod_unfold Let_def)

lemma on_inv_eq:
  "on_inv f w = (r, w') \<Longrightarrow> uw_store w' = uw_store w \<and> f (uw_inv w) = (r, uw_inv w')"
  by (auto simp: on_inv_def split: prod.splits)

lemma effect_simps [simp]:
  "uw_store (send c w) = uw_store w" "uw_inv (send c w) = uw_inv w"
  "uw_store (publishChange e w) = uw_store w" "uw_inv (publishChange e w) = uw_inv w"
  "uw_store (unconfirmInventoryVersion node w) = uw_store w"
  "uw_store (reconcileInventoryVersion ts node v w) = uw_store w"
  by (simp_all add: send_def publishChange_def unconfirmInventoryVersion_def reconcileInventoryVersion_def)

lemma GetNodeUpdate_eq:
  "GetNodeUpdate job s = (Inr x, s') \<Longrightarrow> us_updates s' = us_updates s \<and> x = sql_first (\<lambda>u. u_job u = job) (us_updates s)"
  using us_query_Inr [of _ s x s'] by (fastforce simp: GetNodeUpdate_def)

lemma query_updates [simp]:
  "us_updates (snd (GetNodeUpdate job s)) = us_updates s" "us_updates (snd (GetBundle sha s)) = us_updates s"
  "us_bundles (snd (GetBundle sha s)) = us_bundles s"
  "us_updates (snd (LatestNodeUpdate node s)) = us_updates s"
  by (simp_all add: GetNodeUpdate_def GetBundle_def LatestNodeUpdate_def)

section \<open>What a committed update has proved\<close>

text \<open>
  The row the verification reads: the bundle of the job, its version when it has one, and the slot
  the install was sent to, or unknown when that write was lost.
\<close>

definition row_fits :: "string \<Rightarrow> string \<Rightarrow> UpdateSlot set \<Rightarrow> string \<Rightarrow> update_world \<Rightarrow> bool" where
  "row_fits job sha slots ver w \<longleftrightarrow> (\<forall>u \<in> set (us_updates (uw_store w)). u_job u = job \<longrightarrow>
     u_bundle u = sha \<and> u_to_slot u \<in> slots \<and> (ver \<noteq> [] \<longrightarrow> u_to_version u = ver))"

lemma row_fits_same:
  "us_updates (uw_store w') = us_updates (uw_store w) \<Longrightarrow> row_fits job sha slots ver w' = row_fits job sha slots ver w"
  by (simp add: row_fits_def)

lemma CreateNodeUpdate_ok:
  assumes "CreateNodeUpdate u s = (None, s')"
  shows "u_job u \<notin> u_job ` set (us_updates s)"
    and "us_updates s' = us_updates s @ [u\<lparr>u_unverified_boot := False, u_unverified_version := False,
      u_finished_at := None, u_error := NoNote\<rparr>]"
  using assms unfolding CreateNodeUpdate_def
  by (auto elim!: us_exec_cases split: if_splits)

lemma ball_sql_update:
  "(\<forall>u \<in> set (sql_update P f rs). Q u) \<longleftrightarrow> (\<forall>u \<in> set rs. Q (if P u then f u else u))"
  unfolding sql_update_def set_map by blast

lemma validate_ok:
  assumes "updateValidate ts spec job w = (Inr v, w')"
  shows "\<exists>b. sql_first (\<lambda>b. b_sha256 b = up_bundle spec) (us_bundles (uw_store w)) = Some b \<and>
    row_fits job (up_bundle spec) {SlotUnknown} (b_version b) w'"
proof -
  obtain n w1 b w2 w3 where
      g: "on_inv (Get (up_node spec)) w = (Inr (Some n), w1)"
    and gb: "on_store (GetBundle (up_bundle spec)) w1 = (Inr (Some b), w2)"
    and c: "on_store (CreateNodeUpdate (fresh_row ts spec job (b_version b))) w2 = (None, w3)"
    and w': "uw_store w' = uw_store w3"
    using assms
    by (auto simp: updateValidate_def split: prod.splits sum.splits option.splits)
  have "sql_first (\<lambda>b. b_sha256 b = up_bundle spec) (us_bundles (uw_store w)) = Some b"
    using on_inv_eq [OF g] on_store_eq [OF gb] by (auto simp: GetBundle_def dest: us_query_Inr)
  moreover have "CreateNodeUpdate (fresh_row ts spec job (b_version b)) (uw_store w2) = (None, uw_store w3)"
    using on_store_eq [OF c] by simp
  then have "row_fits job (up_bundle spec) {SlotUnknown} (b_version b) w3"
    using CreateNodeUpdate_ok [of "fresh_row ts spec job (b_version b)" "uw_store w2" "uw_store w3"]
    by (auto simp: row_fits_def fresh_row_def)
  ultimately show ?thesis
    using w' by (auto simp: row_fits_def)
qed

lemma download_updates:
  "us_updates (uw_store (snd (updateDownload host loopback cfg spec job reply w))) = us_updates (uw_store w)"
proof -
  obtain r w1 where g: "on_store (GetBundle (up_bundle spec)) w = (r, w1)"
    by fastforce
  then have "us_updates (uw_store w1) = us_updates (uw_store w)"
    using on_store_snd(1) [of "GetBundle (up_bundle spec)" w] by simp
  with g show ?thesis
    by (auto simp: updateDownload_def Let_def split: sum.splits option.splits rpc.splits)
qed

lemma copy_store_updates [simp]:
  "uw_store (snd (updateCopyStore cfg spec copied w)) = uw_store w"
  by (auto simp: updateCopyStore_def split: prod.splits sum.splits option.splits dest!: on_inv_eq)

lemma reboot_updates [simp]:
  "uw_store (snd (updateReboot spec sub reply ann w)) = uw_store w"
  by (auto simp: updateReboot_def Let_def split: rpc.splits option.splits)

lemma SetNodeUpdateSlots_fits:
  assumes "row_fits job sha slots ver w"
  shows "row_fits job sha (insert to slots) ver (snd (on_store (SetNodeUpdateSlots job from to fv tv) w))"
proof -
  obtain r s where e: "SetNodeUpdateSlots job from to fv tv (uw_store w) = (r, s)"
    by fastforce
  from e [unfolded SetNodeUpdateSlots_def] show ?thesis
  proof (cases rule: us_exec_cases)
    case bad
    with e assms show ?thesis
      by (simp add: row_fits_def)
  next
    case ok
    then have "us_updates s = sql_update (\<lambda>u. u_job u = job)
       (\<lambda>u. u\<lparr>u_from_slot := from, u_to_slot := to,
              u_from_version := (if fv = [] then u_from_version u else fv),
              u_to_version := (if u_to_version u = [] then tv else u_to_version u)\<rparr>) (us_updates (uw_store w))"
      by (auto split: if_splits)
    with e assms show ?thesis
      by (simp add: row_fits_def ball_sql_update)
  qed
qed

lemma install_ok:
  assumes "updateInstall spec job (Some pre) again reply w = (None, w')"
    and "row_fits job sha slots ver w"
  shows "pa_inactive_slot pre \<noteq> [] \<and> pa_inactive_slot pre \<noteq> SlotUnknown \<and>
    (\<exists>a. reply = RpcAck a \<and> ia_ok a) \<and> row_fits job sha (insert (pa_inactive_slot pre) slots) ver w'"
proof -
  have fits: "row_fits job sha (insert (pa_inactive_slot pre) slots) ver
      (publishChange e (snd (on_store (SetNodeUpdateSlots job f (pa_inactive_slot pre) fv tv) (send c w))))" for e f fv tv c
    using SetNodeUpdateSlots_fits [of job sha slots ver "send c w"] assms(2) by (simp add: row_fits_def)
  show ?thesis
    using assms(1) fits by (auto simp: updateInstall_def Let_def split: if_splits rpc.splits)
qed


lemma judge_boot_ok:
  assumes "judge_boot ts req pre expected w = (Inr res, w')"
  shows "Classify (vq_prior_boot req) (pa_boot_id pre) \<noteq> Same \<and> pa_active_slot pre = u_to_slot expected \<and>
    classifyVersion (u_to_version expected) (pa_current_version pre) (u_bundle expected) \<noteq> versionMismatch \<and>
    vr_ack res = pre"
  using assms by (auto simp: judge_boot_def Let_def split: if_splits)

text \<open>What the request after the restart has to say for the update to go on.\<close>

definition boot_proved :: "string \<Rightarrow> string \<Rightarrow> UpdatePrecheckAck \<Rightarrow> UpdatePrecheckAck \<Rightarrow> bool" where
  "boot_proved sha ver pre post \<longleftrightarrow>
     Classify (pa_boot_id pre) (pa_boot_id post) \<noteq> Same \<and>
     pa_active_slot post \<in> {pa_inactive_slot pre, SlotUnknown} \<and>
     (pa_current_version post = ver \<or> pa_current_version post = [] \<or> ver = [] \<or> EqualFold ver sha)"

lemma verify_ok:
  assumes v: "verifyBootedSlot ts \<lparr>vq_spec = spec, vq_job = job, vq_prior_boot = pa_boot_id pre\<rparr> reply w = (Inr res, w')"
    and fits: "row_fits job sha {pa_inactive_slot pre, SlotUnknown} ver w" and ne: "pa_inactive_slot pre \<noteq> []"
  shows "\<exists>post. reply = RpcAck post \<and> boot_proved sha ver pre post"
proof -
  let ?req = "\<lparr>vq_spec = spec, vq_job = job, vq_prior_boot = pa_boot_id pre\<rparr>"
  obtain post expected w1 where r: "reply = RpcAck post \<or> reply = RpcUnreadable \<and> post = zero_precheck"
    and g: "on_store (GetNodeUpdate job) w = (Inr (Some expected), w1)"
    and j: "judge_boot ts ?req post expected w1 = (Inr res, w')"
    using v by (auto simp: verifyBootedSlot_def Let_def split: rpc.splits prod.splits sum.splits option.splits)
  have "expected \<in> set (us_updates (uw_store w)) \<and> u_job expected = job"
    using on_store_eq [OF g] by (auto dest!: GetNodeUpdate_eq dest: sql_first_Some [OF sym])
  then have e: "u_bundle expected = sha" "u_to_slot expected \<in> {pa_inactive_slot pre, SlotUnknown}"
      "ver \<noteq> [] \<longrightarrow> u_to_version expected = ver"
    using fits by (auto simp: row_fits_def)
  have jb: "Classify (pa_boot_id pre) (pa_boot_id post) \<noteq> Same" "pa_active_slot post = u_to_slot expected"
      "classifyVersion (u_to_version expected) (pa_current_version post) sha \<noteq> versionMismatch"
    using judge_boot_ok [OF j] e by auto
  then have "reply = RpcAck post"
    using r e(2) ne by (auto simp: zero_precheck_def)
  moreover have "boot_proved sha ver pre post"
    using jb e by (auto simp: boot_proved_def classifyVersion_def split: if_splits)
  ultimately show ?thesis
    by blast
qed

text \<open>An attempt at the commit that found the node healthy and had its slot marked good.\<close>

definition healthy_commit :: "bool \<Rightarrow> health_env \<Rightarrow> bool" where
  "healthy_commit check env \<longleftrightarrow> fst (probeHealth (he_health env) (he_ping env)) \<and> (check \<longrightarrow> he_store_ready env) \<and>
     (case he_mark_good env of RpcAck a \<Rightarrow> sa_ok a | _ \<Rightarrow> False)"

definition store_gate :: "update_config \<Rightarrow> UpdateSpec \<Rightarrow> bool" where
  "store_gate cfg spec \<longleftrightarrow> cf_store_check cfg \<and> cf_self cfg \<noteq> [] \<and> up_node spec = cf_self cfg"

lemma commit_iff:
  "fst (healthCheckAndCommit ts check spec job env w) = None \<longleftrightarrow> healthy_commit check env"
  by (cases "fst (probeHealth (he_health env) (he_ping env))"; cases "he_mark_good env")
    (auto simp: healthCheckAndCommit_def healthy_commit_def ready_def Let_def case_prod_unfold split: if_splits)

lemma commit_attempts_ok:
  "fst (commit_attempts ts cfg spec job envs e w) = None \<Longrightarrow>
     \<exists>h \<in> set envs. healthy_commit (store_gate cfg spec) h"
proof (induction envs arbitrary: e w)
  case (Cons h hs)
  obtain r w1 where u: "updateHealthCheckAndCommit ts cfg spec job h w = (r, w1)"
    by fastforce
  show ?case
  proof (cases r)
    case None
    with u commit_iff [of ts "store_gate cfg spec" spec job h w] show ?thesis
      by (simp add: updateHealthCheckAndCommit_def store_gate_def)
  next
    case (Some e')
    with u Cons show ?thesis
      by auto
  qed
qed simp

definition commit_proved :: "update_config \<Rightarrow> update_world \<Rightarrow> UpdateSpec \<Rightarrow> Bundle \<Rightarrow> UpdatePrecheckAck \<Rightarrow> UpdatePrecheckAck
    \<Rightarrow> update_env \<Rightarrow> bool" where
  "commit_proved cfg w spec b pre post env \<longleftrightarrow>
     sql_first (\<lambda>b. b_sha256 b = up_bundle spec) (us_bundles (uw_store w)) = Some b \<and>
     en_precheck env = RpcAck pre \<and> pa_ok pre \<and>
     (case en_download env of RpcAck d \<Rightarrow> da_ok d \<and> da_sha256 d = up_bundle spec | _ \<Rightarrow> False) \<and>
     (case en_install env of RpcAck a \<Rightarrow> ia_ok a | _ \<Rightarrow> False) \<and>
     en_verify env = RpcAck post \<and> boot_proved (up_bundle spec) (b_version b) pre post \<and>
     list_ex (healthy_commit (store_gate cfg spec)) (take 2 (en_health env))"

lemma run_until_reboot_ok:
  assumes "run_until_reboot host loopback ts cfg spec job env w = (Inr pre, w')"
  shows "\<exists>b. sql_first (\<lambda>b. b_sha256 b = up_bundle spec) (us_bundles (uw_store w)) = Some b \<and>
    en_precheck env = RpcAck pre \<and> pa_ok pre \<and> pa_inactive_slot pre \<noteq> [] \<and>
    (case en_download env of RpcAck d \<Rightarrow> da_ok d \<and> da_sha256 d = up_bundle spec | _ \<Rightarrow> False) \<and>
    (case en_install env of RpcAck a \<Rightarrow> ia_ok a | _ \<Rightarrow> False) \<and>
    row_fits job (up_bundle spec) {pa_inactive_slot pre, SlotUnknown} (b_version b) w'"
proof -
  obtain v w1 w2 w3 w4 where
      va: "updateValidate ts spec job w = (Inr v, w1)"
    and pc: "updatePrecheck (en_precheck env) = Inr pre"
    and dl: "updateDownload host loopback cfg spec job (en_download env) w1 = (None, w2)"
    and cs: "updateCopyStore cfg spec (en_copied env) w2 = (None, w3)"
    and ins: "updateInstall spec job (Some pre) (en_precheck env) (en_install env) w3 = (None, w4)"
    and rb: "updateReboot spec (en_reboot_sub env) (en_reboot env) (en_announced env) w4 = (None, w')"
    using assms by (auto simp: run_until_reboot_def split: prod.splits sum.splits option.splits)
  from validate_ok [OF va] obtain b where
      b: "sql_first (\<lambda>b. b_sha256 b = up_bundle spec) (us_bundles (uw_store w)) = Some b"
        "row_fits job (up_bundle spec) {SlotUnknown} (b_version b) w1"
    by blast
  have "us_updates (uw_store w3) = us_updates (uw_store w1)"
    using download_updates [of host loopback cfg spec job "en_download env" w1] dl
      copy_store_updates [of cfg spec "en_copied env" w2] cs by simp
  then have "row_fits job (up_bundle spec) {SlotUnknown} (b_version b) w3"
    using b(2) by (simp add: row_fits_def)
  note i = install_ok [OF ins this]
  have "row_fits job (up_bundle spec) {pa_inactive_slot pre, SlotUnknown} (b_version b) w'"
    using i reboot_updates [of spec "en_reboot_sub env" "en_reboot env" "en_announced env" w4] rb
    by (simp add: row_fits_def)
  moreover have "en_precheck env = RpcAck pre" "pa_ok pre"
    using pc by (auto simp: updatePrecheck_def split: rpc.splits if_splits)
  moreover have "case en_download env of RpcAck d \<Rightarrow> da_ok d \<and> da_sha256 d = up_bundle spec | _ \<Rightarrow> False"
    using dl by (auto simp: updateDownload_def Let_def split: prod.splits sum.splits option.splits if_splits rpc.splits)
  moreover have "case en_install env of RpcAck a \<Rightarrow> ia_ok a | _ \<Rightarrow> False"
    using i by auto
  ultimately show ?thesis
    using b(1) i by blast
qed

end
