(* ===== verification/Node_Update_Rows.thy ===== *)
theory Node_Update_Rows
  imports Node_Update_Verify
begin

text \<open>
  Lemmas on the status of a node's update row, step by step, when no statement of the store fails.
\<close>

section \<open>The row ends with the job's verdict\<close>

definition calm :: "update_world \<Rightarrow> bool" where
  "calm w \<longleftrightarrow> us_faults (uw_store w) = []"

text \<open>The row of the job, if it has one, has its status changed by \<open>g\<close>; no other row is touched.\<close>

definition becomes :: "(NodeUpdateStatus \<Rightarrow> NodeUpdateStatus) \<Rightarrow> string \<Rightarrow> update_world \<Rightarrow> update_world \<Rightarrow> bool" where
  "becomes g job w w' \<longleftrightarrow> calm w' \<and> other_rows job w' = other_rows job w \<and>
     map_option u_status (job_row job w') = map_option g (map_option u_status (job_row job w))"

lemma becomes_calm: "becomes g job w w' \<Longrightarrow> calm w'"
  by (simp add: becomes_def)

lemma becomes_trans:
  "becomes g job w w' \<Longrightarrow> becomes h job w' w'' \<Longrightarrow> becomes (h \<circ> g) job w w''"
  by (simp add: becomes_def option.map_comp comp_assoc)

lemma becomes_store:
  "uw_store w1 = uw_store w \<Longrightarrow> becomes g job w1 w' = becomes g job w w'"
  "uw_store w1' = uw_store w' \<Longrightarrow> becomes g job w w1' = becomes g job w w'"
  by (simp_all add: becomes_def calm_def other_rows_def job_row_def)

lemma becomes_refl [simp]: "becomes id job w w = calm w"
  by (auto simp: becomes_def option.map_id)

lemma us_query_calm: "us_faults s = [] \<Longrightarrow> us_query f s = (Inr (f s), s)"
  by (simp add: us_query_def us_fault_def)

lemma us_exec_calm:
  "us_faults s = [] \<Longrightarrow> us_exec f s = (case f s of Inl e \<Rightarrow> (Some e, s) | Inr s2 \<Rightarrow> (None, s2))"
  by (simp add: us_exec_def us_fault_def)

lemma query_calm:
  "calm w \<Longrightarrow> on_store (GetNodeUpdate job) w = (Inr (job_row job w), w)"
  "calm w \<Longrightarrow> on_store (GetBundle sha) w = (Inr (sql_first (\<lambda>b. b_sha256 b = sha) (us_bundles (uw_store w))), w)"
  by (simp_all add: calm_def on_store_def GetNodeUpdate_def GetBundle_def us_query_calm job_row_def)

lemma filter_sql_update:
  "(\<And>r. P r \<Longrightarrow> \<not> Q r) \<Longrightarrow> (\<And>r. P r \<Longrightarrow> \<not> Q (f r)) \<Longrightarrow> filter Q (sql_update P f rs) = filter Q rs"
  by (induction rs) auto

lemma becomes_sql_update:
  assumes "calm w" "us_faults s = []" "us_updates s = sql_update (\<lambda>u. u_job u = job) f (us_updates (uw_store w))"
    and "\<And>u. u_job (f u) = u_job u" "\<And>u. u_status (f u) = g (u_status u)"
  shows "becomes g job w (w\<lparr>uw_store := s\<rparr>)"
proof -
  have "sql_first (\<lambda>u. u_job u = job) (us_updates s) =
      map_option (\<lambda>r. if u_job r = job then f r else r) (sql_first (\<lambda>u. u_job u = job) (us_updates (uw_store w)))"
    unfolding assms(3) by (rule sql_first_update) (simp add: assms(4))
  then have "map_option u_status (job_row job (w\<lparr>uw_store := s\<rparr>)) = map_option g (map_option u_status (job_row job w))"
    by (cases "job_row job w") (auto simp: job_row_def assms(5) dest: sql_first_Some)
  then show ?thesis
    using assms by (simp add: becomes_def calm_def other_rows_def filter_sql_update)
qed

lemma UpdateNodeUpdate_becomes:
  "calm w \<Longrightarrow> becomes (\<lambda>_. st) job w (snd (on_store (UpdateNodeUpdate job st slot ver note ts) w))"
  "calm w \<Longrightarrow> fst (on_store (UpdateNodeUpdate job st slot ver note ts) w) = None"
  by (auto simp: on_store_def UpdateNodeUpdate_def us_exec_calm calm_def intro!: becomes_sql_update)

lemma SetNodeUpdateVerifyGaps_becomes:
  "calm w \<Longrightarrow> becomes id job w (snd (on_store (SetNodeUpdateVerifyGaps job b v) w))"
  by (auto simp: on_store_def SetNodeUpdateVerifyGaps_def us_exec_calm calm_def intro!: becomes_sql_update)

lemma SetNodeUpdateSlots_becomes:
  assumes "calm w"
  shows "becomes id job w (snd (on_store (SetNodeUpdateSlots job f t fv tv) w))"
proof (cases "tv = [] \<and> (\<exists>u \<in> set (us_updates (uw_store w)). u_job u = job \<and> u_to_version u = [])")
  case True
  with assms show ?thesis
    by (simp add: on_store_def SetNodeUpdateSlots_def us_exec_calm calm_def)
next
  case False
  with assms show ?thesis
    by (simp add: on_store_def SetNodeUpdateSlots_def us_exec_calm calm_def becomes_sql_update)
qed

lemma reconcile_becomes:
  "becomes g job w w' \<Longrightarrow> becomes g job w (reconcileInventoryVersion ts node v w')"
  "becomes g job w w' \<Longrightarrow> becomes g job w (unconfirmInventoryVersion node w')"
  "becomes g job w w' \<Longrightarrow> becomes g job w (publishChange e w')"
  "becomes g job w w' \<Longrightarrow> becomes g job w (send c w')"
  by (simp_all add: becomes_def calm_def other_rows_def job_row_def)

text \<open>How a step that fails leaves the row's status.\<close>

definition failing :: "(NodeUpdateStatus \<Rightarrow> NodeUpdateStatus) \<Rightarrow> bool" where
  "failing g \<longleftrightarrow> g \<in> {id, \<lambda>_. NodeUpdateRolledBack, \<lambda>_. NodeUpdateFailed}"

lemma failing_comp: "failing g \<Longrightarrow> failing h \<Longrightarrow> failing (h \<circ> g)"
  by (auto simp: failing_def comp_def)

lemma failing_in_progress:
  "failing g \<Longrightarrow> g NodeUpdateInProgress \<in> {NodeUpdateInProgress, NodeUpdateRolledBack, NodeUpdateFailed}"
  by (auto simp: failing_def)

lemma judge_boot_becomes:
  assumes c: "calm w"
  shows "\<exists>g. failing g \<and> becomes g (vq_job req) w (snd (judge_boot ts req pre expected w)) \<and>
    ((\<exists>res. fst (judge_boot ts req pre expected w) = Inr res) \<longrightarrow> g = id)"
proof -
  have gaps: "becomes id (vq_job req) w (snd (on_store (SetNodeUpdateVerifyGaps (vq_job req) x y) w))" for x y
    using c by (rule SetNodeUpdateVerifyGaps_becomes)
  have rb: "becomes (\<lambda>_. NodeUpdateRolledBack) (vq_job req) w
      (snd (on_store (UpdateNodeUpdate (vq_job req) NodeUpdateRolledBack slot ver why ts)
        (snd (on_store (SetNodeUpdateVerifyGaps (vq_job req) x y) w))))" for x y slot ver why
    using becomes_trans [OF gaps UpdateNodeUpdate_becomes(1) [OF becomes_calm [OF gaps]]] by (simp add: comp_def)
  show ?thesis
  proof (cases "Classify (vq_prior_boot req) (pa_boot_id pre) = Same \<or> pa_active_slot pre = u_to_slot expected")
    case True
    have "becomes id (vq_job req) w (snd (judge_boot ts req pre expected w))"
      unfolding judge_boot_def Let_def using True c by (auto simp: reconcile_becomes gaps)
    then show ?thesis
      by (auto simp: failing_def)
  next
    case False
    have "becomes (\<lambda>_. NodeUpdateRolledBack) (vq_job req) w (snd (judge_boot ts req pre expected w))"
      unfolding judge_boot_def Let_def using False by (simp add: reconcile_becomes rb)
    moreover have "fst (judge_boot ts req pre expected w) \<noteq> Inr res" for res
      unfolding judge_boot_def Let_def using False by simp
    ultimately show ?thesis
      by (auto simp: failing_def)
  qed
qed



lemma verifyBootedSlot_becomes:
  assumes c: "calm w"
  shows "\<exists>g. failing g \<and> becomes g (vq_job req) w (snd (verifyBootedSlot ts req reply w)) \<and>
    ((\<exists>res. fst (verifyBootedSlot ts req reply w) = Inr res) \<longrightarrow> g = id)"
proof -
  have "(\<exists>e w'. verifyBootedSlot ts req reply w = (Inl e, w') \<and> uw_store w' = uw_store w) \<or>
      (\<exists>pre expected. verifyBootedSlot ts req reply w = judge_boot ts req pre expected w)"
    by (cases reply; cases "job_row (vq_job req) w") (simp_all add: verifyBootedSlot_def Let_def query_calm(1) [OF c]; blast)+
  then show ?thesis
  proof (elim disjE exE conjE)
    fix e w'
    assume v: "verifyBootedSlot ts req reply w = (Inl e, w')" and s: "uw_store w' = uw_store w"
    have "becomes id (vq_job req) w w'"
      using c becomes_store(2) [OF s, of id "vq_job req" w] by simp
    with v show ?thesis
      by (auto simp: failing_def)
  next
    fix pre expected
    assume "verifyBootedSlot ts req reply w = judge_boot ts req pre expected w"
    with judge_boot_becomes [OF c, of req ts pre expected] show ?thesis
      by simp
  qed
qed

lemma verify_becomes:
  assumes c: "calm w"
  shows "\<exists>g. failing g \<and> becomes g job w (snd (updateWaitOnlineAndVerifySlot ts spec job cached sub rounds reply w)) \<and>
    ((\<exists>res. fst (updateWaitOnlineAndVerifySlot ts spec job cached sub rounds reply w) = Inr res) \<longrightarrow> g = id)"
proof -
  let ?req = "\<lparr>vq_spec = spec, vq_job = job, vq_prior_boot = priorPrecheckBootID cached\<rparr>"
  let ?r = "updateWaitOnlineAndVerifySlot ts spec job cached sub rounds reply w"
  consider (early) e w' where "?r = (Inl e, w')" "uw_store w' = uw_store w" | (verify) "?r = verifyBootedSlot ts ?req reply w"
    by (cases sub; cases "WaitForNewBoot (priorPrecheckBootID cached) rounds";
        cases "snd (the (WaitForNewBoot (priorPrecheckBootID cached) rounds))")
      (auto simp: updateWaitOnlineAndVerifySlot_def)
  then show ?thesis
  proof cases
    case early
    then show ?thesis
      using c becomes_store(2) [OF early(2), of id job w] by (auto simp: failing_def)
  next
    case verify
    with verifyBootedSlot_becomes [OF c, of ?req ts reply] show ?thesis
      by simp
  qed
qed

lemma markBad_becomes:
  assumes c: "calm w"
  shows "\<exists>g. failing g \<and> becomes g job w (snd (markBadAndRecord ts spec job detail reply w))"
proof -
  let ?w1 = "unconfirmInventoryVersion (up_node spec) (send CmdMarkBad w)"
  have c1: "calm ?w1"
    using c by (simp add: calm_def)
  have w1: "becomes g job ?w1 w' = becomes g job w w'" for g w'
    by (rule becomes_store(1)) simp
  have up: "becomes (\<lambda>_. st) job w (snd (on_store (UpdateNodeUpdate job st slot ver why ts) ?w1))" for st slot ver why
    using UpdateNodeUpdate_becomes(1) [OF c1] w1 by blast
  show ?thesis
  proof (cases "sendMarkBad reply")
    case None
    then have "becomes (\<lambda>_. NodeUpdateRolledBack) job w (snd (markBadAndRecord ts spec job detail reply w))"
      by (simp add: markBadAndRecord_def Let_def case_prod_unfold reconcile_becomes up)
    then show ?thesis
      by (auto simp: failing_def)
  next
    case (Some mb)
    then have "becomes (\<lambda>_. NodeUpdateFailed) job w (snd (markBadAndRecord ts spec job detail reply w))"
      by (simp add: markBadAndRecord_def Let_def case_prod_unfold query_calm(1) [OF c1] up)
    then show ?thesis
      by (auto simp: failing_def)
  qed
qed

lemma record_commit_becomes:
  assumes c: "calm w"
  shows "becomes (\<lambda>_. NodeUpdateCommitted) job w (record_commit ts spec job w)"
  by (simp add: record_commit_def Let_def case_prod_unfold query_calm(1) [OF c] reconcile_becomes
      UpdateNodeUpdate_becomes(1) [OF c])

lemma retired_becomes: "becomes g job (w\<lparr>uw_retired := xs\<rparr>) w' = becomes g job w w'"
  by (rule becomes_store(1)) simp

lemma commit_becomes:
  assumes c: "calm w"
  shows "\<exists>g. (if fst (healthCheckAndCommit ts check spec job env w) = None then g = (\<lambda>_. NodeUpdateCommitted) else failing g) \<and>
    becomes g job w (snd (healthCheckAndCommit ts check spec job env w))"
proof -
  let ?r = "healthCheckAndCommit ts check spec job env w"
  have cs: "calm (send CmdMarkGood w)" "calm ((send CmdMarkGood w)\<lparr>uw_retired := xs\<rparr>)" for xs
    using c by (simp_all add: calm_def)
  have s: "becomes g job (send c w) w' = becomes g job w w'" for g c w'
    by (rule becomes_store(1)) simp
  have "(\<exists>e detail. ?r = (Some e, snd (markBadAndRecord ts spec job detail (he_mark_bad env) w))) \<or>
      (\<exists>e. ?r = (Some e, send CmdMarkGood w)) \<or>
      (\<exists>xs. ?r = (None, record_commit ts spec job ((send CmdMarkGood w)\<lparr>uw_retired := xs\<rparr>))) \<or>
      ?r = (None, record_commit ts spec job (send CmdMarkGood w))"
    by (cases "he_mark_good env"; cases check; cases "fst (probeHealth (he_health env) (he_ping env))"; cases "he_store_ready env")
      (auto simp: healthCheckAndCommit_def ready_def Let_def case_prod_unfold)
  then consider (bad) e detail where "?r = (Some e, snd (markBadAndRecord ts spec job detail (he_mark_bad env) w))"
    | (stop) e where "?r = (Some e, send CmdMarkGood w)"
    | (ok) xs where "?r = (None, record_commit ts spec job ((send CmdMarkGood w)\<lparr>uw_retired := xs\<rparr>))"
    | (ok') "?r = (None, record_commit ts spec job (send CmdMarkGood w))"
    by blast
  then show ?thesis
  proof cases
    case bad
    then show ?thesis
      using markBad_becomes [OF c, of job ts spec detail "he_mark_bad env"] by auto
  next
    case stop
    then show ?thesis
      using c by (intro exI [of _ id]) (simp add: failing_def reconcile_becomes)
  next
    case ok
    then show ?thesis
      using record_commit_becomes [OF cs(2), of job xs ts spec] by (simp add: retired_becomes s)
  next
    case ok'
    then show ?thesis
      using record_commit_becomes [OF cs(1), of job ts spec] by (simp add: s)
  qed
qed

lemma commit_attempts_becomes:
  "calm w \<Longrightarrow> \<exists>g. (if fst (commit_attempts ts cfg spec job envs e w) = None then g = (\<lambda>_. NodeUpdateCommitted) else failing g) \<and>
     becomes g job w (snd (commit_attempts ts cfg spec job envs e w))"
proof (induction envs arbitrary: e w)
  case Nil
  then have "failing id \<and> becomes id job w w"
    by (simp add: failing_def)
  then show ?case
    by (simp only: commit_attempts.simps fst_conv snd_conv option.distinct if_False) blast
next
  case (Cons h hs)
  obtain r w1 where u: "updateHealthCheckAndCommit ts cfg spec job h w = (r, w1)"
    by fastforce
  then obtain g where g: "if r = None then g = (\<lambda>_. NodeUpdateCommitted) else failing g" "becomes g job w w1"
    using commit_becomes [OF Cons.prems, of ts _ spec job h] by (metis fst_conv snd_conv updateHealthCheckAndCommit_def)
  show ?case
  proof (cases r)
    case None
    with u g show ?thesis
      by auto
  next
    case (Some e')
    obtain g' where g': "if fst (commit_attempts ts cfg spec job hs e' w1) = None then g' = (\<lambda>_. NodeUpdateCommitted) else failing g'"
        "becomes g' job w1 (snd (commit_attempts ts cfg spec job hs e' w1))"
      using Cons.IH [OF becomes_calm [OF g(2)]] by blast
    have "becomes (g' \<circ> g) job w (snd (commit_attempts ts cfg spec job hs e' w1))"
      by (rule becomes_trans [OF g(2) g'(2)])
    moreover have "if fst (commit_attempts ts cfg spec job hs e' w1) = None then g' \<circ> g = (\<lambda>_. NodeUpdateCommitted) else failing (g' \<circ> g)"
      using g'(1) g(1) Some by (auto simp: comp_def intro: failing_comp [unfolded comp_def] split: if_splits)
    moreover have "commit_attempts ts cfg spec job (h # hs) e w = commit_attempts ts cfg spec job hs e' w1"
      using u Some by simp
    ultimately show ?thesis
      by (simp only:) blast
  qed
qed

lemma finalize_becomes:
  assumes c: "calm w"
  shows "becomes (\<lambda>st. if st = NodeUpdateInProgress then NodeUpdateFailed else st) job w (finalizeNodeUpdateRow ts job e w)"
proof (cases "job_row job w")
  case None
  with c show ?thesis
    by (simp add: finalizeNodeUpdateRow_def query_calm(1) becomes_def)
next
  case (Some row)
  show ?thesis
  proof (cases "u_status row = NodeUpdateInProgress")
    case True
    with Some c UpdateNodeUpdate_becomes(1) [OF c, of NodeUpdateFailed job] show ?thesis
      by (simp add: finalizeNodeUpdateRow_def query_calm(1) becomes_def)
  next
    case False
    with Some c show ?thesis
      by (simp add: finalizeNodeUpdateRow_def query_calm(1) becomes_def)
  qed
qed

lemma other_rows_fresh: "job \<notin> u_job ` set (us_updates (uw_store w)) \<Longrightarrow> other_rows job w = us_updates (uw_store w)"
  by (auto simp: other_rows_def filter_id_conv)

lemma job_row_fresh: "job \<notin> u_job ` set (us_updates (uw_store w)) \<longleftrightarrow> job_row job w = None"
  by (auto simp: job_row_def sql_first_None)

text \<open>Before the row there is nothing; the first step adds it in progress or fails.\<close>

lemma validate_calm:
  assumes c: "calm w" and new: "job \<notin> u_job ` set (us_updates (uw_store w))"
    and v: "updateValidate ts spec job w = (r, w')"
  shows "calm w' \<and> other_rows job w' = us_updates (uw_store w) \<and>
    (case r of Inl _ \<Rightarrow> job_row job w' = None
     | Inr _ \<Rightarrow> map_option u_status (job_row job w') = Some NodeUpdateInProgress)"
proof -
  let ?add = "\<lambda>b w1. snd (on_store (CreateNodeUpdate (fresh_row ts spec job (b_version b))) w1)"
  have same: ?thesis if "uw_store w' = uw_store w" "\<exists>e. r = Inl e"
    using that c new other_rows_fresh [of job w] job_row_fresh [of job w]
    by (auto simp: calm_def other_rows_def job_row_def)
  have add: ?thesis if "uw_store w' = uw_store (?add b w1)" "uw_store w1 = uw_store w" "\<exists>v. r = Inr v" for b w1
    using that c new other_rows_fresh [of job w] job_row_fresh [of job w]
    by (auto simp: calm_def other_rows_def job_row_def CreateNodeUpdate_def us_exec_calm fresh_row_def sql_first_append)
  obtain ri w1 where g: "on_inv (Get (up_node spec)) w = (ri, w1)"
    by fastforce
  have s1: "uw_store w1 = uw_store w"
    using on_inv_eq [OF g] by simp
  then have c1: "calm w1"
    using c by (simp add: calm_def)
  have cr: "fst (on_store (CreateNodeUpdate (fresh_row ts spec job ver)) w1) = None" for ver
    using c1 s1 new by (simp add: on_store_def CreateNodeUpdate_def us_exec_calm calm_def fresh_row_def)
  consider "\<exists>e. ri = Inl e" | "ri = Inr None" | n where "ri = Inr (Some n)"
    by (cases ri) auto
  then show ?thesis
  proof cases
    case 3
    show ?thesis
    proof (cases "sql_first (\<lambda>b. b_sha256 b = up_bundle spec) (us_bundles (uw_store w1))")
      case None
      then show ?thesis
        using v g 3 s1 by (intro same) (auto simp: updateValidate_def query_calm(2) [OF c1])
    next
      case (Some b)
      obtain w2 where w2: "on_store (CreateNodeUpdate (fresh_row ts spec job (b_version b))) w1 = (None, w2)"
        using cr by (metis prod.collapse)
      then show ?thesis
        using v g 3 s1 Some by (intro add [of b w1]) (auto simp: updateValidate_def query_calm(2) [OF c1])
    qed
  qed (rule same; use v g s1 in \<open>auto simp: updateValidate_def\<close>)+
qed

lemma install_becomes:
  assumes c: "calm w"
  shows "becomes id job w (snd (updateInstall spec job cached again reply w))"
proof -
  have s: "calm (send x w)" "becomes id job (send x w) w' = becomes id job w w'" for x w'
    using c becomes_store(1) [of "send x w" w id job w'] by (simp_all add: calm_def)
  have slots: "becomes id job w (snd (on_store (SetNodeUpdateSlots job f t fv tv) (send x w)))" for f t fv tv x
    using SetNodeUpdateSlots_becomes [OF s(1), of job x] by (simp add: s(2))
  have r: "becomes id job w w" "becomes id job w (send x w)" for x
    using c by (simp_all add: reconcile_becomes)
  show ?thesis
    unfolding updateInstall_def Let_def
    by (auto split: option.split rpc.split sum.split simp: r slots reconcile_becomes simp del: becomes_refl)
qed

lemma download_calm:
  assumes c: "calm w"
  shows "becomes id job w (snd (updateDownload host loopback cfg spec job' reply w))"
proof -
  have r: "becomes id job w w" "becomes id job w (send x w)" for x
    using c by (simp_all add: reconcile_becomes)
  show ?thesis
    unfolding updateDownload_def Let_def
    by (auto split: option.split rpc.split simp: query_calm(2) [OF c] r reconcile_becomes simp del: becomes_refl)
qed

text \<open>The steps before the restart: the row stays in progress, and there is one when they all pass.\<close>

definition in_progress :: "string \<Rightarrow> NodeUpdate list \<Rightarrow> update_world \<Rightarrow> bool" where
  "in_progress job others w \<longleftrightarrow> calm w \<and> other_rows job w = others \<and>
     map_option u_status (job_row job w) = Some NodeUpdateInProgress"

lemma in_progress_step: "in_progress job others w \<Longrightarrow> becomes id job w w' \<Longrightarrow> in_progress job others w'"
  by (auto simp: in_progress_def becomes_def)

lemma run_until_reboot_calm:
  assumes c: "calm w" and new: "job \<notin> u_job ` set (us_updates (uw_store w))"
    and r: "run_until_reboot host loopback ts cfg spec job env w = (r, w')"
  shows "in_progress job (us_updates (uw_store w)) w' \<or>
    (\<exists>e. r = Inl e) \<and> calm w' \<and> other_rows job w' = us_updates (uw_store w) \<and> job_row job w' = None"
proof -
  obtain r1 w1 where v: "updateValidate ts spec job w = (r1, w1)"
    by fastforce
  note val = validate_calm [OF c new v]
  show ?thesis
  proof (cases r1)
    case (Inl e)
    with v r val show ?thesis
      by (auto simp: run_until_reboot_def)
  next
    case (Inr ver)
    then have p1: "in_progress job (us_updates (uw_store w)) w1"
      using val by (simp add: in_progress_def)
    obtain d w2 where dl: "updateDownload host loopback cfg spec job (en_download env) w1 = (d, w2)"
      by fastforce
    obtain cp w3 where cs: "updateCopyStore cfg spec (en_copied env) w2 = (cp, w3)"
      by fastforce
    have p2: "in_progress job (us_updates (uw_store w)) w2"
      using in_progress_step [OF p1] download_calm [of w1 job host loopback cfg spec job "en_download env"] dl p1
      by (simp add: in_progress_def)
    have p3: "in_progress job (us_updates (uw_store w)) w3"
      using p2 copy_store_updates [of cfg spec "en_copied env" w2] cs
      by (simp add: in_progress_def calm_def other_rows_def job_row_def)
    have "w' \<in> {w1, w2, w3} \<or> (\<exists>pre. w' = snd (updateInstall spec job (Some pre) (en_precheck env) (en_install env) w3) \<or>
        w' = snd (updateReboot spec (en_reboot_sub env) (en_reboot env) (en_announced env)
          (snd (updateInstall spec job (Some pre) (en_precheck env) (en_install env) w3))))"
    proof (cases "updatePrecheck (en_precheck env)")
      case Inl
      then show ?thesis
        using r v \<open>r1 = Inr ver\<close> by (simp add: run_until_reboot_def)
    next
      case (Inr pre)
      obtain i w4 where i: "updateInstall spec job (Some pre) (en_precheck env) (en_install env) w3 = (i, w4)"
        by fastforce
      obtain x w5 where x: "updateReboot spec (en_reboot_sub env) (en_reboot env) (en_announced env) w4 = (x, w5)"
        by fastforce
      have "w' \<in> {w1, w2, w3} \<or> w' = w4 \<or> w' = w5"
        using r v \<open>r1 = Inr ver\<close> Inr dl cs i x
        by (cases d; cases cp; cases i; cases x) (simp_all add: run_until_reboot_def)
      then show ?thesis
        using i x by (metis snd_conv)
    qed
    moreover have p4: "in_progress job (us_updates (uw_store w)) (snd (updateInstall spec job (Some pre) again reply w3))" for pre again reply
      using in_progress_step [OF p3] install_becomes [of w3 job] p3 by (simp add: in_progress_def)
    moreover have "in_progress job (us_updates (uw_store w)) (snd (updateReboot spec sub rep ann w4))"
      if "in_progress job (us_updates (uw_store w)) w4" for sub rep ann w4
      using that by (simp add: in_progress_def calm_def other_rows_def job_row_def)
    ultimately have "in_progress job (us_updates (uw_store w)) w'"
      using p1 p2 p3 by blast
    then show ?thesis
      by simp
  qed
qed

lemma run_update_steps_calm:
  assumes calm: "calm w" and new: "job \<notin> u_job ` set (us_updates (uw_store w))"
    and st: "run_update_steps host loopback ts cfg raw job env w = (e, w1)"
  shows "calm w1 \<and> other_rows job w1 = us_updates (uw_store w) \<and> (e \<noteq> None \<and> job_row job w1 = None \<or>
    (\<exists>g. (if e = None then g = (\<lambda>_. NodeUpdateCommitted) else failing g) \<and>
       map_option u_status (job_row job w1) = Some (g NodeUpdateInProgress)))"
proof (cases "parseSpec raw")
  case (Inl x)
  with st calm new show ?thesis
    by (auto simp: run_update_steps_def other_rows_fresh job_row_fresh)
next
  case (Inr spec)
  obtain ru w2 where ru: "run_until_reboot host loopback ts cfg spec job env w = (ru, w2)"
    by fastforce
  note before = run_until_reboot_calm [OF calm new ru]
  show ?thesis
  proof (cases ru)
    case (Inl x)
    then have "e = Some x" "w1 = w2"
      using st Inr ru \<open>parseSpec raw = Inr spec\<close> by (auto simp: run_update_steps_def)
    then show ?thesis
      using before by (auto simp: in_progress_def failing_def intro!: exI [of _ id])
  next
    case (Inr pre)
    then have p2: "in_progress job (us_updates (uw_store w)) w2"
      using before by auto
    obtain v w3 where ve: "updateWaitOnlineAndVerifySlot ts spec job (Some pre) (en_wait_sub env) (en_rounds env) (en_verify env) w2 = (v, w3)"
      by fastforce
    obtain g where g: "failing g" "becomes g job w2 w3" "(\<exists>res. v = Inr res) \<longrightarrow> g = id"
      using verify_becomes [of w2 job ts spec "Some pre" "en_wait_sub env" "en_rounds env" "en_verify env"] p2 ve
      by (auto simp: in_progress_def)
    show ?thesis
    proof (cases v)
      case (Inl x)
      then have "e = Some x" "w1 = w3"
        using st \<open>parseSpec raw = Inr spec\<close> ru \<open>ru = Inr pre\<close> ve by (auto simp: run_update_steps_def)
      then show ?thesis
        using g p2 by (auto simp: in_progress_def becomes_def)
    next
      case (Inr res)
      then have p3: "in_progress job (us_updates (uw_store w)) w3"
        using g p2 in_progress_step by blast
      have "commit_attempts ts cfg spec job (take 2 (en_health env)) UpStillWaiting w3 = (e, w1)"
        using st \<open>parseSpec raw = Inr spec\<close> ru \<open>ru = Inr pre\<close> ve Inr by (simp add: run_update_steps_def)
      then obtain h where h: "if e = None then h = (\<lambda>_. NodeUpdateCommitted) else failing h" "becomes h job w3 w1"
        using commit_attempts_becomes [of w3 ts cfg spec job "take 2 (en_health env)" UpStillWaiting] p3
        by (auto simp: in_progress_def)
      then have "calm w1 \<and> other_rows job w1 = us_updates (uw_store w) \<and>
          map_option u_status (job_row job w1) = Some (h NodeUpdateInProgress)"
        using p3 by (auto simp: in_progress_def becomes_def)
      with h(1) show ?thesis
        by blast
    qed
  qed
qed

end
