(* ===== verification/Node_Update_Props.thy ===== *)
theory Node_Update_Props
  imports Node_Update_Rows
begin

text \<open>
  What the update of one node guarantees: a job that succeeds has proved the restart, the slot, the
  version and the node's health; the update row ends with the verdict of the job; the inventory
  keeps a confirmed version only when the node itself reported it; a fallback is recorded once, on
  the newest row and only for an update that had committed.
\<close>

section \<open>An update of one node\<close>

text \<open>One node, one staged bundle, and the answers of an agent that takes the update.\<close>

definition one_node_world :: update_world where
  "one_node_world = \<lparr>uw_store = \<lparr>us_bundles = [\<lparr>b_sha256 = ''abc'', b_version = ''1.1'', b_compatible = [], b_architecture = [],
       b_description = [], b_build_date = [], b_size_bytes = 1, b_signed_by = [], b_storage_path = [], b_uploaded_at = 0,
       b_uploaded_by = []\<rparr>], us_updates = [], us_faults = []\<rparr>,
     uw_inv = \<lparr>iv_nodes = [\<lparr>n_id = ''n1'', n_role = ''compute'', n_hostname = [], n_agent_version = [], n_image_version = ''1.0'',
       n_confirmed_at = Some 5, n_architecture = [], n_lan_ip = [], n_capabilities = [], n_metadata = [], n_storage = None,
       n_first_seen = 0, n_last_seen = 0, n_status = StatusOnline, n_mesh = None\<rparr>], iv_keys = [], iv_registry = NewRegistry,
       iv_faults = [], iv_status = [], iv_events = [], iv_excluded = [], iv_retired = []\<rparr>,
     uw_events = [], uw_sent = [], uw_retired = []\<rparr>"

definition one_node_spec :: UpdateSpec where
  "one_node_spec = \<lparr>up_node = ''n1'', up_bundle = ''abc''\<rparr>"

definition one_node_cfg :: update_config where
  "one_node_cfg = \<lparr>cf_base_url = ''http://cp'', cf_self = ''cp'', cf_copier = False, cf_log = True, cf_store_check = True\<rparr>"

definition answer :: "string \<Rightarrow> string \<Rightarrow> string \<Rightarrow> string \<Rightarrow> UpdatePrecheckAck" where
  "answer active inactive ver boot = \<lparr>pa_ok = True, pa_active_slot = active, pa_inactive_slot = inactive, pa_current_version = ver,
     pa_boot_id = boot, pa_detail = []\<rparr>"

definition attempt :: "bool \<Rightarrow> health_env" where
  "attempt ok = \<lparr>he_health = RpcAck \<lparr>sa_ok = ok, sa_detail = []\<rparr>, he_ping = RpcAck (), he_store_ready = True,
     he_mark_good = RpcAck \<lparr>sa_ok = True, sa_detail = []\<rparr>, he_mark_bad = RpcAck \<lparr>sa_ok = True, sa_detail = []\<rparr>\<rparr>"

definition one_node_env :: "bool list \<Rightarrow> update_env" where
  "one_node_env oks = \<lparr>en_precheck = RpcAck (answer ''A'' ''B'' ''1.0'' ''b1''),
     en_download = RpcAck \<lparr>da_ok = True, da_sha256 = ''abc'', da_detail = []\<rparr>, en_copied = None,
     en_install = RpcAck \<lparr>ia_ok = True, ia_target_slot = ''B'', ia_new_version = ''1.1'', ia_detail = []\<rparr>,
     en_reboot_sub = None, en_reboot = RpcAck (Some True, []), en_announced = True, en_wait_sub = None,
     en_rounds = [\<lparr>pr_ctx_done = False, pr_ask = AskBusErr, pr_step_done = False\<rparr>,
       \<lparr>pr_ctx_done = False, pr_ask = AskBoot ''b2'', pr_step_done = False\<rparr>],
     en_verify = RpcAck (answer ''B'' ''A'' ''1.1'' ''b2''), en_health = map attempt oks\<rparr>"

definition one_node_run :: "bool list \<Rightarrow> update_error option \<times> update_world" where
  "one_node_run oks = run_update (\<lambda>_. None) (\<lambda>_. False) (\<lambda>_. ErrText ''update failed'') 9 one_node_cfg (Some one_node_spec) ''j1''
     (one_node_env oks) one_node_world"





section \<open>A second attempt at the commit\<close>

lemma UpdateNodeUpdate_row:
  assumes "calm w" "job_row job w = Some u"
  shows "job_row job (snd (on_store (UpdateNodeUpdate job st slot ver why ts) w)) =
    Some (u\<lparr>u_status := st, u_to_slot := slot, u_to_version := ver, u_error := why, u_finished_at := Some ts\<rparr>)"
proof -
  have "u_job u = job"
    using assms(2) by (auto simp: job_row_def dest: sql_first_Some)
  then show ?thesis
    using assms
    by (simp add: job_row_def calm_def UpdateNodeUpdate_def us_exec_calm sql_first_update)
qed

lemma job_row_effects [simp]:
  "job_row job (send c w) = job_row job w" "job_row job (publishChange e w) = job_row job w"
  "job_row job (unconfirmInventoryVersion node w) = job_row job w" "job_row job (w\<lparr>uw_retired := xs\<rparr>) = job_row job w"
  by (simp_all add: job_row_def)

lemma sent_effects [simp]:
  "uw_sent (send c w) = uw_sent w @ [c]" "uw_sent (publishChange e w) = uw_sent w"
  "uw_sent (unconfirmInventoryVersion node w) = uw_sent w" "uw_sent (snd (on_store f w)) = uw_sent w"
  by (simp_all add: send_def publishChange_def unconfirmInventoryVersion_def on_inv_def on_store_def case_prod_unfold Let_def)

lemma record_commit_row:
  assumes "calm w" "job_row job w = Some u"
  shows "job_row job (record_commit ts spec job w) = Some (u\<lparr>u_status := NodeUpdateCommitted, u_error := NoNote, u_finished_at := Some ts\<rparr>)"
    and "uw_sent (record_commit ts spec job w) = uw_sent w"
  using assms UpdateNodeUpdate_row [OF assms]
  by (simp_all add: record_commit_def Let_def case_prod_unfold query_calm(1))

lemma healthy_commit_row:
  assumes c: "calm w" "job_row job w = Some u" and h: "healthy_commit check h"
  shows "\<exists>w'. healthCheckAndCommit ts check spec job h w = (None, w') \<and>
    job_row job w' = Some (u\<lparr>u_status := NodeUpdateCommitted, u_error := NoNote, u_finished_at := Some ts\<rparr>) \<and>
    uw_sent w' = uw_sent w @ [CmdMarkGood]"
proof -
  let ?w1 = "if check then (send CmdMarkGood w)\<lparr>uw_retired := uw_retired (send CmdMarkGood w) @ [job]\<rparr> else send CmdMarkGood w"
  have "healthCheckAndCommit ts check spec job h w = (None, record_commit ts spec job ?w1)"
    using h by (auto simp: healthy_commit_def healthCheckAndCommit_def ready_def Let_def case_prod_unfold split: rpc.splits)
  moreover have "calm ?w1" "job_row job ?w1 = Some u" "uw_sent ?w1 = uw_sent w @ [CmdMarkGood]"
    using c by (simp_all add: calm_def)
  ultimately show ?thesis
    using record_commit_row by auto
qed

text \<open>The commit step is tried twice, and a second attempt does not know of the first: after an
  attempt that found the node unhealthy and had its slot marked bad, which will revert the node on
  its next boot, a healthy second attempt marks the slot good, the job succeeds, and the row that
  said rolled back says committed, on an unknown slot and with no version.\<close>

theorem retry_overturns_rollback:
  assumes "us_faults (uw_store w) = []" "job_row job w = Some u"
    and "\<not> fst (probeHealth (he_health first) (he_ping first))" "he_mark_bad first = RpcAck ack" "sa_ok ack"
    and "healthy_commit (store_gate cfg spec) second"
  shows "\<exists>w' row. commit_attempts ts cfg spec job [first, second] e w = (None, w') \<and>
    job_row job w' = Some row \<and> u_status row = NodeUpdateCommitted \<and> u_to_slot row = SlotUnknown \<and> u_to_version row = [] \<and>
    uw_sent w' = uw_sent w @ [CmdMarkBad, CmdMarkGood]"
proof -
  let ?check = "store_gate cfg spec"
  let ?w1 = "unconfirmInventoryVersion (up_node spec) (send CmdMarkBad w)"
  let ?d = "snd (probeHealth (he_health first) (he_ping first))"
  let ?w2 = "snd (on_store (UpdateNodeUpdate job NodeUpdateRolledBack SlotUnknown [] (NoteUnhealthy ?d) ts) ?w1)"
  let ?w3 = "publishChange (change_evt spec job UpdateRolledBack [] [] False False) ?w2"
  have c1: "calm ?w1" and r1: "job_row job ?w1 = Some u"
    using assms(1,2) by (simp_all add: calm_def)
  have c3: "calm ?w3"
    using becomes_calm [OF UpdateNodeUpdate_becomes(1) [OF c1]] by (simp add: calm_def)
  have u1: "updateHealthCheckAndCommit ts cfg spec job first w = (Some (UpUnhealthy ?d), ?w3)"
    using assms(3-5) UpdateNodeUpdate_becomes(2) [OF c1]
    by (auto simp: updateHealthCheckAndCommit_def healthCheckAndCommit_def markBadAndRecord_def sendMarkBad_def Let_def case_prod_unfold)
  obtain row where row: "job_row job ?w3 = Some row" "u_to_slot row = SlotUnknown" "u_to_version row = []"
    using UpdateNodeUpdate_row [OF c1 r1] by simp
  from healthy_commit_row [OF c3 row(1) assms(6), of ts spec] row u1 show ?thesis
    by (auto simp: updateHealthCheckAndCommit_def store_gate_def)
qed

theorem retry_overturns_rollback_witness:
  "\<exists>w' row. commit_attempts 9 one_node_cfg one_node_spec ''j1'' [attempt False, attempt True] UpStillWaiting
      (snd (one_node_run [False, False])) = (None, w') \<and>
    job_row ''j1'' w' = Some row \<and> u_status row = NodeUpdateCommitted \<and> u_to_slot row = SlotUnknown \<and> u_to_version row = [] \<and>
    uw_sent w' = uw_sent (snd (one_node_run [False, False])) @ [CmdMarkBad, CmdMarkGood]"
proof -
  let ?w = "snd (one_node_run [False, False])"
  have w: "us_faults (uw_store ?w) = []" "job_row ''j1'' ?w \<noteq> None"
    by code_simp+
  then obtain u where "job_row ''j1'' ?w = Some u"
    by blast
  with w(1) show ?thesis
    by (rule retry_overturns_rollback [where ack = "\<lparr>sa_ok = True, sa_detail = []\<rparr>"])
      (simp_all add: attempt_def probeHealth_def healthy_commit_def store_gate_def one_node_cfg_def one_node_spec_def)
qed

end
