(* ===== verification/Node_Update_Records.thy ===== *)
theory Node_Update_Records
  imports Node_Update_Verify
begin

text \<open>
  What the records of an update say over time: the fallback detector marks a committed update once,
  the inventory keeps a version confirmed only when the node reported it after the restart, and the
  sweep at start closes exactly the rows whose job has ended.
\<close>

section \<open>Fallback\<close>

text \<open>What the detector may do to a row: nothing, or move it from committed to fallen back.\<close>

definition fell :: "string set \<Rightarrow> NodeUpdate \<Rightarrow> NodeUpdate \<Rightarrow> bool" where
  "fell js u u' \<longleftrightarrow> (if u_job u \<in> js
     then u_status u = NodeUpdateCommitted \<and> (\<exists>why. u' = u\<lparr>u_status := NodeUpdateFallenBack, u_error := why\<rparr>)
     else u' = u)"

lemma fell_job: "fell js u u' \<Longrightarrow> u_job u' = u_job u"
  by (auto simp: fell_def split: if_splits)

lemma fell_committed: "fell js u u' \<Longrightarrow> u_status u' = NodeUpdateCommitted \<Longrightarrow> u_job u' \<notin> js"
  by (auto simp: fell_def split: if_splits)

lemma fell_jobs: "list_all2 (fell js) us us' \<Longrightarrow> map u_job us' = map u_job us"
  by (induction rule: list_all2_induct) (auto dest: fell_job)

lemma fell_none: "list_all2 (fell {}) us us"
  by (simp add: list_all2_same fell_def)

lemma latest_of_in: "latest_of node us = Some u \<Longrightarrow> u \<in> set us"
  by (cases "sql_order (\<lambda>u. - u_started_at u) (sql_select (\<lambda>u. u_node u = node) us)")
    (auto simp: latest_of_def dest!: arg_cong [of _ _ set])

lemma on_store_events [simp]: "uw_events (snd (on_store f w)) = uw_events w"
  by (simp add: on_store_def case_prod_unfold Let_def)

lemma MarkNodeUpdateFallenBack_step:
  assumes "on_store (MarkNodeUpdateFallenBack job why) w = (r, w')"
  shows "us_updates (uw_store w') = (if r = Inr True
    then sql_update (fallen_target job) (\<lambda>u. u\<lparr>u_status := NodeUpdateFallenBack, u_error := why\<rparr>) (us_updates (uw_store w))
    else us_updates (uw_store w))"
proof -
  have m: "MarkNodeUpdateFallenBack job why (uw_store w) = (r, uw_store w')"
    using on_store_eq [OF assms] by simp
  have "sql_update (fallen_target job) f us = us" if "sql_select (fallen_target job) us = []" for f us
    using that by (intro sql_update_disjoint) (auto simp: sql_select_def filter_empty_conv)
  then show ?thesis
    using m by (auto simp: MarkNodeUpdateFallenBack_def case_prod_unfold Let_def split: if_splits dest!: sym [of _ "uw_store w'"])
qed

lemma OnRegistered_step:
  "uw_events (OnRegistered n w) = uw_events w \<and> us_updates (uw_store (OnRegistered n w)) = us_updates (uw_store w) \<or>
   (\<exists>row e why. latest_of (n_id n) (us_updates (uw_store w)) = Some row \<and> u_status row = NodeUpdateCommitted \<and>
      ue_job e = u_job row \<and> ue_change e = UpdateFallenBack \<and> uw_events (OnRegistered n w) = uw_events w @ [e] \<and>
      us_updates (uw_store (OnRegistered n w)) = sql_update (fallen_target (u_job row))
        (\<lambda>u. u\<lparr>u_status := NodeUpdateFallenBack, u_error := why\<rparr>) (us_updates (uw_store w)))"
proof -
  obtain r w1 where l: "on_store (LatestNodeUpdate (n_id n)) w = (r, w1)"
    by fastforce
  have w1: "us_updates (uw_store w1) = us_updates (uw_store w)" "uw_events w1 = uw_events w"
    using l on_store_snd(1) [of "LatestNodeUpdate (n_id n)" w] on_store_events [of "LatestNodeUpdate (n_id n)" w] by simp_all
  show ?thesis
  proof (cases "\<exists>row. r = Inr (Some row) \<and> u_status row = NodeUpdateCommitted \<and>
      classifyVersion (u_to_version row) (n_image_version n) (u_bundle row) = versionMismatch")
    case False
    then have "OnRegistered n w = w1"
      using l by (auto simp: OnRegistered_def split: sum.splits option.splits)
    with w1 show ?thesis
      by simp
  next
    case True
    then obtain row where row: "r = Inr (Some row)" "u_status row = NodeUpdateCommitted"
      "classifyVersion (u_to_version row) (n_image_version n) (u_bundle row) = versionMismatch"
      by blast
    have latest: "latest_of (n_id n) (us_updates (uw_store w)) = Some row"
      using on_store_eq [OF l] row(1) w1 by (auto simp: LatestNodeUpdate_def dest!: us_query_Inr)
    obtain m w2 where m: "on_store (MarkNodeUpdateFallenBack (u_job row) (NoteFellBack (n_image_version n) (u_to_version row))) w1 = (m, w2)"
      by fastforce
    have ev: "uw_events w2 = uw_events w"
      using m w1(2) on_store_events [of "MarkNodeUpdateFallenBack (u_job row) (NoteFellBack (n_image_version n) (u_to_version row))" w1]
      by simp
    show ?thesis
    proof (cases "m = Inr True")
      case True
      then show ?thesis
        using l row m ev latest w1 MarkNodeUpdateFallenBack_step [OF m]
        by (intro disjI2) (auto simp: OnRegistered_def publishChange_def)
    next
      case False
      then have "OnRegistered n w = w2"
        using l row m by (auto simp: OnRegistered_def split: sum.splits bool.splits)
      then show ?thesis
        using False ev w1 MarkNodeUpdateFallenBack_step [OF m] by simp
    qed
  qed
qed

lemma fell_more:
  assumes rel: "list_all2 (fell js) us us'" and d: "distinct (map u_job us)"
    and row: "row \<in> set us'" "u_status row = NodeUpdateCommitted"
  shows "u_job row \<notin> js \<and> list_all2 (fell (insert (u_job row) js)) us
    (sql_update (fallen_target (u_job row)) (\<lambda>u. u\<lparr>u_status := NodeUpdateFallenBack, u_error := why\<rparr>) us')"
proof -
  have d': "distinct (map u_job us')"
    using d fell_jobs [OF rel] by simp
  have "\<exists>u \<in> set us. fell js u row"
    using rel row(1) by (induction rule: list_all2_induct) auto
  then have notin: "u_job row \<notin> js"
    using row(2) fell_committed by blast
  have "list_all2 (fell (insert (u_job row) js)) us
    (map (\<lambda>u. if fallen_target (u_job row) u then u\<lparr>u_status := NodeUpdateFallenBack, u_error := why\<rparr> else u) us')"
    unfolding list_all2_map2
  proof (rule list.rel_mono_strong [OF rel])
    fix u u'
    assume in': "u' \<in> set us'" and f: "fell js u u'"
    have eq: "u' = row" if "u_job u' = u_job row"
      using that in' row(1) d' unfolding distinct_map by (blast dest: inj_onD)
    show "fell (insert (u_job row) js) u
      (if fallen_target (u_job row) u' then u'\<lparr>u_status := NodeUpdateFallenBack, u_error := why\<rparr> else u')"
    proof (cases "u_job u' = u_job row")
      case True
      then have u': "u' = row"
        by (rule eq)
      have "u = row"
        using f notin fell_job [OF f] unfolding u' by (simp add: fell_def)
      then show ?thesis
        unfolding u' using row(2) by (simp add: fallen_target_def fell_def) blast
    next
      case False
      then show ?thesis
        using f fell_job [OF f] by (simp add: fallen_target_def fell_def)
    qed
  qed
  then show ?thesis
    using notin by (simp add: sql_update_def)
qed


text \<open>A committed update of a node that then registers with its old version, twice.\<close>

definition committed_row :: NodeUpdate where
  "committed_row = \<lparr>u_job = ''j1'', u_node = ''n1'', u_bundle = ''abc'', u_from_slot = ''A'', u_to_slot = ''B'', u_from_version = ''1.0'',
     u_to_version = ''1.1'', u_unverified_boot = False, u_unverified_version = False, u_status = NodeUpdateCommitted,
     u_started_at = 1, u_finished_at = Some 2, u_error = NoNote\<rparr>"

definition old_node :: Node where
  "old_node = \<lparr>n_id = ''n1'', n_role = ''compute'', n_hostname = [], n_agent_version = [], n_image_version = ''1.0'',
     n_confirmed_at = Some 5, n_architecture = [], n_lan_ip = [], n_capabilities = [], n_metadata = [], n_storage = None,
     n_first_seen = 0, n_last_seen = 0, n_status = StatusOnline, n_mesh = None\<rparr>"

definition records_world :: "NodeUpdate list \<Rightarrow> update_world" where
  "records_world rows = \<lparr>uw_store = \<lparr>us_bundles = [], us_updates = rows, us_faults = []\<rparr>,
     uw_inv = \<lparr>iv_nodes = [old_node], iv_keys = [], iv_registry = NewRegistry, iv_faults = [], iv_status = [], iv_events = [],
       iv_excluded = [], iv_retired = []\<rparr>, uw_events = [], uw_sent = [], uw_retired = []\<rparr>"


section \<open>The version in the inventory\<close>

definition node_row :: "string \<Rightarrow> update_world \<Rightarrow> Node option" where
  "node_row node w = sql_first (\<lambda>n. n_id n = node) (iv_nodes (uw_inv w))"

lemma execOne_row:
  assumes "iv_faults s = []" "\<And>n. n_id (f n) = n_id n"
  shows "sql_first (\<lambda>n. n_id n = i) (iv_nodes (snd (execOne f i s))) = map_option f (sql_first (\<lambda>n. n_id n = i) (iv_nodes s))"
proof (cases "i \<in> n_id ` set (iv_nodes s)")
  case True
  then have "execOne f i s = (None, s\<lparr>iv_nodes := sql_update (\<lambda>q. n_id q = i) f (iv_nodes s)\<rparr>)"
    using assms(1) by (simp add: execOne_def iv_fault_def)
  moreover have "sql_first (\<lambda>n. n_id n = i) (sql_update (\<lambda>q. n_id q = i) f (iv_nodes s)) =
      map_option (\<lambda>r. if n_id r = i then f r else r) (sql_first (\<lambda>n. n_id n = i) (iv_nodes s))"
    by (rule sql_first_update) (simp add: assms(2))
  ultimately show ?thesis
    by (cases "sql_first (\<lambda>n. n_id n = i) (iv_nodes s)") (auto dest: sql_first_Some)
next
  case False
  then have "sql_first (\<lambda>n. n_id n = i) (iv_nodes s) = None"
    by (auto simp: sql_first_None)
  with False show ?thesis
    using assms(1) by (simp add: execOne_def iv_fault_def)
qed

text \<open>The node's version is confirmed only as the one given, or not confirmed.\<close>

definition truthful :: "string \<Rightarrow> string \<Rightarrow> update_world \<Rightarrow> bool" where
  "truthful node ver w \<longleftrightarrow> (case node_row node w of
     None \<Rightarrow> True | Some n \<Rightarrow> n_confirmed_at n = None \<or> ver \<noteq> [] \<and> n_image_version n = ver)"

lemma unconfirm_truthful:
  "iv_faults (uw_inv w) = [] \<Longrightarrow> truthful node ver (unconfirmInventoryVersion node w)"
  using execOne_row [of "uw_inv w" "\<lambda>q. q\<lparr>n_confirmed_at := confirmedTime 0\<rparr>" node]
  by (auto simp: truthful_def node_row_def unconfirmInventoryVersion_def UnconfirmImageVersion_def confirmedTime_def split: option.split)

lemma reconcile_truthful:
  "iv_faults (uw_inv w) = [] \<Longrightarrow> truthful node ver (reconcileInventoryVersion ts node ver w)"
  using execOne_row [of "uw_inv w" "\<lambda>q. q\<lparr>n_image_version := ver, n_confirmed_at := confirmedTime ts\<rparr>" node]
    unconfirm_truthful [of w node ver]
  by (auto simp: truthful_def node_row_def reconcileInventoryVersion_def ConfirmImageVersion_def split: option.splits)

lemma truthful_inv: "uw_inv w' = uw_inv w \<Longrightarrow> truthful node ver w' = truthful node ver w"
  by (simp add: truthful_def node_row_def)

lemma judge_boot_truthful:
  assumes "iv_faults (uw_inv w) = []"
  shows "truthful (up_node (vq_spec req)) (pa_current_version pre) (snd (judge_boot ts req pre expected w))"
proof -
  have "truthful (up_node (vq_spec req)) (pa_current_version pre) (publishChange e (reconcileInventoryVersion ts
      (up_node (vq_spec req)) (pa_current_version pre) w'))" if "uw_inv w' = uw_inv w" for e w'
    using reconcile_truthful [of w'] that assms
      truthful_inv [of "publishChange e (reconcileInventoryVersion ts (up_node (vq_spec req)) (pa_current_version pre) w')"]
    by simp
  moreover have "truthful (up_node (vq_spec req)) (pa_current_version pre) (reconcileInventoryVersion ts
      (up_node (vq_spec req)) (pa_current_version pre) w')" if "uw_inv w' = uw_inv w" for w'
    using reconcile_truthful [of w'] that assms by simp
  ultimately show ?thesis
    unfolding judge_boot_def Let_def using unconfirm_truthful [OF assms] by simp
qed

lemma verifyBootedSlot_truthful:
  assumes "iv_faults (uw_inv w) = []" "fst (verifyBootedSlot ts req reply w) \<noteq> Inl UpRowMissing"
  shows "truthful (up_node (vq_spec req)) (case reply of RpcAck post \<Rightarrow> pa_current_version post | _ \<Rightarrow> [])
    (snd (verifyBootedSlot ts req reply w))"
proof -
  obtain r w1 where g: "on_store (GetNodeUpdate (vq_job req)) w = (r, w1)"
    by fastforce
  have "iv_faults (uw_inv w1) = []"
    using on_store_snd(2) [of "GetNodeUpdate (vq_job req)" w] g assms(1) by simp
  note judge = judge_boot_truthful [OF this, of req]
  have missing: "\<exists>row. r = Inr (Some row)" if "\<exists>post. reply = RpcAck post \<or> reply = RpcUnreadable"
    using assms(2) that g by (auto simp: verifyBootedSlot_def Let_def split: sum.splits option.splits)
  show ?thesis
  proof (cases reply)
    case (RpcAck post)
    with missing g judge [of post] show ?thesis
      by (auto simp: verifyBootedSlot_def)
  next
    case RpcUnreadable
    with missing g judge [of zero_precheck] show ?thesis
      by (auto simp: verifyBootedSlot_def zero_precheck_def)
  qed (simp_all add: verifyBootedSlot_def unconfirm_truthful assms(1))
qed



section \<open>The sweep of stranded rows\<close>

text \<open>What the sweep makes of a row, given the ledger.\<close>

definition swept :: "gotime \<Rightarrow> ledger \<Rightarrow> NodeUpdate \<Rightarrow> NodeUpdate" where
  "swept ts l u = (case sql_first (\<lambda>j. j_id j = u_job u) (jobs l) of
     None \<Rightarrow> u
   | Some j \<Rightarrow>
       if u_status u = NodeUpdateInProgress \<and> (j_status j = StatusFailed \<or> j_status j = StatusSucceeded)
       then u\<lparr>u_status := NodeUpdateFailed, u_finished_at := Some ts,
              u_error := (case j_error j of None \<Rightarrow> NoteNoOutcomeTerminal | Some m \<Rightarrow> NoteJobError m)\<rparr>
       else u)"

lemma swept_job [simp]: "u_job (swept ts l u) = u_job u"
  by (simp add: swept_def split: option.split)

lemma reconcile_row_swept:
  assumes "db_faults l = []" "us_faults s = []" "u_status row = NodeUpdateInProgress"
    and only: "\<And>u. u \<in> set (us_updates s) \<Longrightarrow> u_job u = u_job row \<Longrightarrow> u = row"
  shows "reconcile_row ts row (l, s) =
    (l, s\<lparr>us_updates := map (\<lambda>u. if u_job u = u_job row then swept ts l u else u) (us_updates s)\<rparr>)"
proof (cases "sql_first (\<lambda>j. j_id j = u_job row) (jobs l)")
  case None
  then have "map (\<lambda>u. if u_job u = u_job row then swept ts l u else u) (us_updates s) = us_updates s"
    by (intro map_idI) (simp add: swept_def)
  with None assms show ?thesis
    by (simp add: reconcile_row_def GetJob_def db_query_def next_fault_def)
next
  case (Some j)
  show ?thesis
  proof (cases "j_status j = StatusFailed \<or> j_status j = StatusSucceeded")
    case True
    let ?f = "\<lambda>u. u\<lparr>u_status := NodeUpdateFailed, u_to_slot := u_to_slot row, u_to_version := u_to_version row,
        u_error := (case j_error j of None \<Rightarrow> NoteNoOutcomeTerminal | Some m \<Rightarrow> NoteJobError m), u_finished_at := Some ts\<rparr>"
    have "?f row = swept ts l row"
      using Some True assms(3) by (intro NodeUpdate.equality) (auto simp: swept_def)
    then have "(if u_job u = u_job row then ?f u else u) = (if u_job u = u_job row then swept ts l u else u)"
      if "u \<in> set (us_updates s)" for u
      using only [OF that] by (cases "u_job u = u_job row") simp_all
    then have "sql_update (\<lambda>u. u_job u = u_job row) ?f (us_updates s) =
        map (\<lambda>u. if u_job u = u_job row then swept ts l u else u) (us_updates s)"
      unfolding sql_update_def by (intro map_cong refl)
    with True Some assms(1,2) show ?thesis
      by (auto simp: reconcile_row_def GetJob_def db_query_def next_fault_def UpdateNodeUpdate_def us_exec_def us_fault_def)
  next
    case False
    then have "map (\<lambda>u. if u_job u = u_job row then swept ts l u else u) (us_updates s) = us_updates s"
      using Some by (intro map_idI) (simp add: swept_def)
    with False Some assms show ?thesis
      by (simp add: reconcile_row_def GetJob_def db_query_def next_fault_def)
  qed
qed

lemma reconcile_rows_swept:
  assumes l: "db_faults l = []" and s: "us_faults s = []" and d: "distinct (map u_job us)"
  shows "\<lbrakk>set rs \<subseteq> {u \<in> set us. u_status u = NodeUpdateInProgress}; distinct (map u_job rs);
      us_updates s = map (\<lambda>u. if u_job u \<in> D then swept ts l u else u) us; D \<inter> u_job ` set rs = {}\<rbrakk> \<Longrightarrow>
    fold (reconcile_row ts) rs (l, s) =
      (l, s\<lparr>us_updates := map (\<lambda>u. if u_job u \<in> D \<union> u_job ` set rs then swept ts l u else u) us\<rparr>)"
  using s
proof (induction rs arbitrary: s D)
  case (Cons r rs)
  let ?s1 = "s\<lparr>us_updates := map (\<lambda>u. if u_job u \<in> insert (u_job r) D then swept ts l u else u) us\<rparr>"
  have only: "u = r" if "u \<in> set (us_updates s)" "u_job u = u_job r" for u
  proof -
    from that(1) Cons.prems(3) obtain v where v: "v \<in> set us" "u = (if u_job v \<in> D then swept ts l v else v)"
      by auto
    then have "u_job v = u_job r"
      using that(2) by (auto split: if_splits)
    moreover from this v(1) Cons.prems(1) d have "v = r"
      unfolding distinct_map by (auto dest: inj_onD)
    ultimately show ?thesis
      using v(2) Cons.prems(4) by auto
  qed
  have "map (\<lambda>u. if u_job u = u_job r then swept ts l u else u) (us_updates s) =
      map (\<lambda>u. if u_job u \<in> insert (u_job r) D then swept ts l u else u) us"
    using Cons.prems(3,4) by auto
  then have r: "reconcile_row ts r (l, s) = (l, ?s1)"
    using reconcile_row_swept [OF l Cons.prems(5) _ only] Cons.prems(1) by simp
  have "fold (reconcile_row ts) rs (l, ?s1) =
      (l, ?s1\<lparr>us_updates := map (\<lambda>u. if u_job u \<in> insert (u_job r) D \<union> u_job ` set rs then swept ts l u else u) us\<rparr>)"
    by (rule Cons.IH) (use Cons.prems in auto)
  then show ?case
    using r by simp
qed (simp add: s)

text \<open>When no statement fails, the sweep at start closes exactly the rows that are still in progress
  although their job has ended in failure or success: each becomes failed with the job's error and
  keeps its slot and version; every other row, the ledger and the store's bundles stay as they were.\<close>

theorem stranded_rows_swept:
  assumes l: "db_faults l = []" and s: "us_faults s = []" and inv: "us_inv s"
  shows "ReconcileStrandedRows ts l s = (None, l, s\<lparr>us_updates := map (swept ts l) (us_updates s)\<rparr>)"
proof -
  let ?rows = "sql_order u_started_at (sql_select (\<lambda>u. u_status u = NodeUpdateInProgress) (us_updates s))"
  have d: "distinct (map u_job (us_updates s))"
    using inv by (simp add: us_inv_def)
  have "distinct (map u_job (sql_select (\<lambda>u. u_status u = NodeUpdateInProgress) (us_updates s)))"
    using d by (simp add: sql_select_def distinct_map_filter)
  then have dr: "distinct (map u_job ?rows)"
    by (metis mset_map mset_eq_imp_distinct_iff sql_order_mset)
  have "fold (reconcile_row ts) ?rows (l, s) =
      (l, s\<lparr>us_updates := map (\<lambda>u. if u_job u \<in> {} \<union> u_job ` set ?rows then swept ts l u else u) (us_updates s)\<rparr>)"
    by (rule reconcile_rows_swept [OF l s d]) (use dr in auto)
  moreover have "(if u_job u \<in> {} \<union> u_job ` set ?rows then swept ts l u else u) = swept ts l u"
    if "u \<in> set (us_updates s)" for u
    using that by (cases "u_status u = NodeUpdateInProgress") (auto simp: swept_def split: option.split)
  then have "map (\<lambda>u. if u_job u \<in> {} \<union> u_job ` set ?rows then swept ts l u else u) (us_updates s) = map (swept ts l) (us_updates s)"
    by (intro map_cong refl)
  ultimately show ?thesis
    using s by (simp add: ReconcileStrandedRows_def ListInProgressNodeUpdates_def us_query_def us_fault_def)
qed

theorem stranded_rows_swept_witness:
  "map u_status (us_updates (snd (snd (ReconcileStrandedRows 8
      \<lparr>jobs = [\<lparr>j_id = ''j1'', j_kind = ''node.update'', j_spec = [], j_status = StatusFailed, j_created_by = [],
         j_created_at = 1, j_started_at = Some 1, j_finished_at = Some 2, j_parent = None, j_error = Some (ErrText ''agent lost'')\<rparr>],
       job_steps = [], job_events = [], db_faults = []\<rparr>
      (uw_store (records_world [committed_row\<lparr>u_status := NodeUpdateInProgress\<rparr>]))))))
   = [NodeUpdateFailed]"
  by (subst stranded_rows_swept) (simp_all add: records_world_def us_inv_def swept_def committed_row_def)

end
