(* ===== verification/Fleet_Resume.thy ===== *)
theory Fleet_Resume
  imports Fleet_Cascade Node_Update Job_Saga
begin

text \<open>
  The control plane updating itself as the last target of its own run
  (\<^verbatim>\<open>api/internal/updater/selfupdate.go\<close> and \<^verbatim>\<open>selfupdate_system.go\<close>): which interrupted jobs the
  recovery leaves alone, and how the api that comes up on the new slot finishes them from the ledger.
  Decoding a job's spec (\<open>spec_of\<close>), the plan step's result (\<open>plan_of\<close>) and the precheck step's
  result (\<open>ack_of\<close>), encoding the cascade step's result (\<open>enc\<close>) and the text of an error (\<open>msg\<close>)
  are parameters.  A goroutine that was started is a value of the result.
\<close>

section \<open>Which jobs are deferred\<close>

definition targets_node :: "(string \<Rightarrow> UpdateSpec option) \<Rightarrow> string \<Rightarrow> job \<Rightarrow> bool" where
  "targets_node spec_of node j \<longleftrightarrow> j_kind j = ''node.update'' \<and> map_option up_node (spec_of (j_spec j)) = Some node"

definition selfChildOf :: "(string \<Rightarrow> UpdateSpec option) \<Rightarrow> string \<Rightarrow> string \<Rightarrow> ledger \<Rightarrow> job option \<times> ledger" where
  "selfChildOf spec_of parent self l = (case ListChildJobs parent l of
     (Inl e, l1) \<Rightarrow> (None, l1)
   | (Inr children, l1) \<Rightarrow> (sql_first (targets_node spec_of self) children, l1))"

definition SystemUpdateDeferred :: "(string \<Rightarrow> UpdateSpec option) \<Rightarrow> job \<Rightarrow> string \<Rightarrow> ledger \<Rightarrow> bool \<times> ledger" where
  "SystemUpdateDeferred spec_of j self l =
     (if self = [] \<or> j_kind j \<noteq> ''system.update'' then (False, l)
      else case selfChildOf spec_of (j_id j) self l of
        (None, l1) \<Rightarrow> (False, l1)
      | (Some child, l1) \<Rightarrow> (case ListSteps (j_id child) l1 of
          (Inl e, l2) \<Rightarrow> (False, l2)
        | (Inr steps, l2) \<Rightarrow> (rebootDone steps, l2)))"

definition SelfUpdateRecoverDecider :: "(string \<Rightarrow> UpdateSpec option) \<Rightarrow> string \<Rightarrow> job \<Rightarrow> job_step list \<Rightarrow> ledger
    \<Rightarrow> RecoverDecision \<times> ledger" where
  "SelfUpdateRecoverDecider spec_of self j steps l =
     (if self = [] then (RecoverFail, l)
      else if j_kind j = ''node.update'' then
        (if targets_node spec_of self j \<and> rebootDone steps then RecoverDefer else RecoverFail, l)
      else if j_kind j = ''system.update'' then
        (case SystemUpdateDeferred spec_of j self l of (d, l1) \<Rightarrow> (if d then RecoverDefer else RecoverFail, l1))
      else (RecoverFail, l))"

section \<open>Resuming the control plane's own update\<close>

record resume_self =
  re_spec :: UpdateSpec
  re_job :: string
  re_prior :: string

definition resume_candidate :: "(string \<Rightarrow> UpdateSpec option) \<Rightarrow> (string \<Rightarrow> UpdatePrecheckAck option) \<Rightarrow> string \<Rightarrow> job
    \<Rightarrow> resume_self list \<times> ledger \<Rightarrow> resume_self list \<times> ledger" where
  "resume_candidate spec_of ack_of self j st = (case st of (out, l) \<Rightarrow>
     if \<not> targets_node spec_of self j then (out, l)
     else case (spec_of (j_spec j), ListSteps (j_id j) l) of
       (Some spec, r, l1) \<Rightarrow>
         (let steps = (case r of Inl _ \<Rightarrow> [] | Inr q \<Rightarrow> q)
          in if \<not> rebootDone steps then (out, l1)
             else (out @ [\<lparr>re_spec = spec, re_job = j_id j,
                     re_prior = priorPrecheckBootID (case stepResult steps ''precheck'' of None \<Rightarrow> None | Some raw \<Rightarrow> ack_of raw)\<rparr>], l1))
     | (None, r, l1) \<Rightarrow> (out, l1))"

definition ResumeSelfUpdates :: "(string \<Rightarrow> UpdateSpec option) \<Rightarrow> (string \<Rightarrow> UpdatePrecheckAck option) \<Rightarrow> string \<Rightarrow> ledger
    \<Rightarrow> resume_self list \<times> ledger" where
  "ResumeSelfUpdates spec_of ack_of self l =
     (if self = [] then ([], l)
      else case ListJobsByStatus [StatusRunning] l of
        (Inl e, l1) \<Rightarrow> ([], l1)
      | (Inr running, l1) \<Rightarrow> fold (resume_candidate spec_of ack_of self) running ([], l1))"

section \<open>Rebuilding the report\<close>

datatype rebuild_error = RebuildSteps db_error | RebuildNoPlan | RebuildBadPlan | RebuildChildren db_error

text \<open>The map of children by node: a later child of the same node replaces an earlier one.\<close>

definition by_node :: "(string \<Rightarrow> UpdateSpec option) \<Rightarrow> job list \<Rightarrow> string \<Rightarrow> job option" where
  "by_node spec_of children node = sql_first (targets_node spec_of node) (rev children)"

definition resumed_row :: "string \<Rightarrow> Status \<Rightarrow> await_error option \<Rightarrow> job option \<Rightarrow> plannedTarget \<Rightarrow> NodeResult" where
  "resumed_row self selfStatus selfDetail child t = (case child of
     None \<Rightarrow> (blank_row t (t_canary t))\<lparr>nr_detail := DetailNotStarted\<rparr>
   | Some c \<Rightarrow>
       let row = (blank_row t (t_canary t))\<lparr>nr_child := j_id c\<rparr>;
           from_job = (case j_error c of None \<Rightarrow> NoDetail | Some m \<Rightarrow> DetailJobError m);
           (status, detail) = (if t_node t = self
             then (selfStatus, case selfDetail of None \<Rightarrow> from_job | Some e \<Rightarrow> DetailNeverSettled e)
             else (j_status c, from_job))
       in if status = StatusSucceeded then row\<lparr>nr_outcome := NodeOutcomeSucceeded\<rparr>
          else if status = StatusFailed \<or> status = StatusCancelled
          then row\<lparr>nr_outcome := NodeOutcomeFailed, nr_detail := detail\<rparr>
          else row\<lparr>nr_outcome := NodeOutcomeNotAttempted, nr_detail := DetailStill status\<rparr>)"

definition rebuildReport :: "(string \<Rightarrow> UpdateSpec option) \<Rightarrow> (string \<Rightarrow> systemPlanState option) \<Rightarrow> string \<Rightarrow> string \<Rightarrow> Status
    \<Rightarrow> await_error option \<Rightarrow> ledger \<Rightarrow> (rebuild_error + systemPlanState \<times> NodeResult list) \<times> ledger" where
  "rebuildReport spec_of plan_of parent self selfStatus selfDetail l = (case ListSteps parent l of
     (Inl e, l1) \<Rightarrow> (Inl (RebuildSteps e), l1)
   | (Inr steps, l1) \<Rightarrow>
       (let raw = (case stepResult steps ''plan'' of None \<Rightarrow> [] | Some r \<Rightarrow> r)
        in if raw = [] then (Inl RebuildNoPlan, l1)
           else case plan_of raw of
             None \<Rightarrow> (Inl RebuildBadPlan, l1)
           | Some plan \<Rightarrow> (case ListChildJobs parent l1 of
               (Inl e, l2) \<Rightarrow> (Inl (RebuildChildren e), l2)
             | (Inr children, l2) \<Rightarrow>
                 (Inr (plan, map (\<lambda>t. resumed_row self selfStatus selfDetail (by_node spec_of children (t_node t)) t)
                    (ps_targets plan)), l2))))"

section \<open>Closing the run\<close>

definition outcome_nodes :: "NodeOutcome \<Rightarrow> NodeResult list \<Rightarrow> string list" where
  "outcome_nodes out grid = map nr_node (filter (\<lambda>r. nr_outcome r = out) grid)"

definition persistResumedCascade :: "(cascadeResult \<Rightarrow> string) \<Rightarrow> string \<Rightarrow> systemPlanState \<Rightarrow> NodeResult list
    \<Rightarrow> 'w runner \<Rightarrow> 'w runner" where
  "persistResumedCascade enc parent plan grid s = (case on_ledger (ListSteps parent) s of
     (Inl e, s1) \<Rightarrow> s1
   | (Inr steps, s1) \<Rightarrow> (case sql_first (\<lambda>q. s_name q = ''cascade'') steps of
       None \<Rightarrow> s1
     | Some q \<Rightarrow>
         if s_status q \<noteq> StepRunning then s1
         else
           let raw = enc \<lparr>cr_succeeded = outcome_nodes NodeOutcomeSucceeded grid, cr_failed = outcome_nodes NodeOutcomeFailed grid,
                 cr_remaining = outcome_nodes NodeOutcomeNotAttempted grid, cr_canaries = canaryIDs plan, cr_results = grid,
                 cr_canary_failure = None, cr_budget_spent = []\<rparr>;
               (ts, s2) = now s1
           in snd (on_ledger (MarkStepSucceeded parent (s_seq q) (s_attempt q) (Some raw) ts) s2)))"

definition resumed_counts :: "systemPlanState \<Rightarrow> NodeResult list \<Rightarrow> SystemUpdateCounts" where
  "resumed_counts plan grid = \<lparr>ct_total = length grid,
     ct_succeeded = length (filter (\<lambda>r. nr_outcome r = NodeOutcomeSucceeded) grid),
     ct_failed = length (filter (\<lambda>r. nr_outcome r = NodeOutcomeFailed) grid), ct_skipped = length (ps_skipped plan),
     ct_not_attempted = length (filter (\<lambda>r. nr_outcome r = NodeOutcomeNotAttempted) grid),
     ct_stranded = length (stranded plan)\<rparr>"

datatype resume_error =
    ResumeChildGone
  | ResumeNoReport rebuild_error
  | ResumeFailed nat nat
  | ResumeStranded "string list"

text \<open>The counts of the \<^verbatim>\<open>completed\<close> event, when one is published, and the runner after the parent's end.\<close>

definition finishResumed :: "(string \<Rightarrow> UpdateSpec option) \<Rightarrow> (string \<Rightarrow> systemPlanState option) \<Rightarrow> (cascadeResult \<Rightarrow> string)
    \<Rightarrow> (resume_error \<Rightarrow> err) \<Rightarrow> string \<Rightarrow> string \<Rightarrow> Status \<Rightarrow> await_error option \<Rightarrow> 'w runner
    \<Rightarrow> SystemUpdateCounts option \<times> 'w runner" where
  "finishResumed spec_of plan_of enc msg parent self selfStatus selfDetail s =
     (case on_ledger (rebuildReport spec_of plan_of parent self selfStatus selfDetail) s of
        (Inl e, s1) \<Rightarrow> (None, FinishDeferred parent False (msg (ResumeNoReport e)) s1)
      | (Inr (plan, grid), s1) \<Rightarrow>
          (let s2 = persistResumedCascade enc parent plan grid s1; counts = resumed_counts plan grid
           in (Some counts,
               if 0 < ct_failed counts
               then FinishDeferred parent False (msg (ResumeFailed (ct_failed counts) (length grid))) s2
               else if stranded plan \<noteq> []
               then FinishDeferred parent False (msg (ResumeStranded (map sk_node (stranded plan)))) s2
               else FinishDeferred parent True (ErrText []) s2)))"

text \<open>One poll of the child: what the ledger read, and what the pause after it ended with.\<close>

fun awaitChildTerminal :: "string \<Rightarrow> ((db_error + job option) \<times> wake) list \<Rightarrow> (await_error + Status) option" where
  "awaitChildTerminal child [] = None"
| "awaitChildTerminal child ((r, w) # rounds) = (case r of
     Inl e \<Rightarrow> Some (Inl (AwaitRead e))
   | Inr None \<Rightarrow> Some (Inl (AwaitGone child))
   | Inr (Some j) \<Rightarrow>
       if terminal (j_status j) then Some (Inr (j_status j))
       else case w of
         DeadlineExceeded \<Rightarrow> Some (Inl (AwaitDeadline (j_status j)))
       | ParentCancelled \<Rightarrow> Some (Inl AwaitCancelled)
       | Woken \<Rightarrow> awaitChildTerminal child rounds)"

definition resumeSystemUpdate :: "(string \<Rightarrow> UpdateSpec option) \<Rightarrow> (string \<Rightarrow> systemPlanState option) \<Rightarrow> (cascadeResult \<Rightarrow> string)
    \<Rightarrow> (resume_error \<Rightarrow> err) \<Rightarrow> string \<Rightarrow> string \<Rightarrow> string \<Rightarrow> ((db_error + job option) \<times> wake) list \<Rightarrow> 'w runner
    \<Rightarrow> (SystemUpdateCounts option \<times> 'w runner) option" where
  "resumeSystemUpdate spec_of plan_of enc msg parent child self rounds s = (case awaitChildTerminal child rounds of
     None \<Rightarrow> None
   | Some (Inl e) \<Rightarrow> Some (finishResumed spec_of plan_of enc msg parent self StatusFailed (Some e) s)
   | Some (Inr st) \<Rightarrow> Some (finishResumed spec_of plan_of enc msg parent self st None s))"

text \<open>The runs to resume, parent with self child; a parent whose child is not found is failed at once.\<close>

definition resume_parent :: "(string \<Rightarrow> UpdateSpec option) \<Rightarrow> (resume_error \<Rightarrow> err) \<Rightarrow> string \<Rightarrow> job
    \<Rightarrow> (string \<times> string) list \<times> 'w runner \<Rightarrow> (string \<times> string) list \<times> 'w runner" where
  "resume_parent spec_of msg self j st = (case st of (out, s) \<Rightarrow>
     if j_kind j \<noteq> ''system.update'' then (out, s)
     else case on_ledger (selfChildOf spec_of (j_id j) self) s of
       (None, s1) \<Rightarrow> (out, FinishDeferred (j_id j) False (msg ResumeChildGone) s1)
     | (Some child, s1) \<Rightarrow> (out @ [(j_id j, j_id child)], s1))"

definition ResumeSystemUpdates :: "(string \<Rightarrow> UpdateSpec option) \<Rightarrow> (resume_error \<Rightarrow> err) \<Rightarrow> string \<Rightarrow> 'w runner
    \<Rightarrow> (string \<times> string) list \<times> 'w runner" where
  "ResumeSystemUpdates spec_of msg self s =
     (if self = [] then ([], s)
      else case on_ledger (ListJobsByStatus [StatusRunning]) s of
        (Inl e, s1) \<Rightarrow> ([], s1)
      | (Inr running, s1) \<Rightarrow> fold (resume_parent spec_of msg self) running ([], s1))"

end
