(* ===== verification/Fleet_Resume_Props.thy ===== *)
theory Fleet_Resume_Props
  imports Fleet_Resume
begin

text \<open>
  What finishing a run across the control plane's own restart guarantees: every job the recovery
  left alone is picked up, and the parent's verdict follows the rebuilt report.
\<close>

section \<open>Every deferred job is resumed\<close>

text \<open>The columns of a job that no status change touches.\<close>

definition job_key :: "job \<Rightarrow> string \<times> string \<times> string \<times> string option" where
  "job_key j = (j_id j, j_kind j, j_spec j, j_parent j)"

lemma FinishDeferred_ledger:
  assumes "healthy s"
  shows "healthy (FinishDeferred i ok e s)"
    and "map job_key (jobs (rs_ledger (FinishDeferred i ok e s))) = map job_key (jobs (rs_ledger s))"
    and "status_of (rs_ledger (FinishDeferred i ok e s)) k =
      (if k = i then map_option (\<lambda>_. if ok then StatusSucceeded else StatusFailed) (status_of (rs_ledger s) i)
       else status_of (rs_ledger s) k)"
proof -
  let ?ts = "rs_clock s (rs_reads s)"
  let ?l = "if ok then snd (MarkJobSucceeded i ?ts (rs_ledger s)) else snd (MarkJobFailed i e ?ts (rs_ledger s))"
  have "\<exists>t d ts. rs_ledger (FinishDeferred i ok e s) = snd (AppendEvent i t d ts ?l)"
    using assms
    by (auto simp: FinishDeferred_def Let_def case_prod_unfold runner_simps healthy_def GetJob_def split: option.split)
  then obtain t d ts where fin: "rs_ledger (FinishDeferred i ok e s) = snd (AppendEvent i t d ts ?l)"
    by blast
  have h: "db_faults ?l = []"
    using assms by (simp add: healthy_def MarkJobSucceeded_def MarkJobFailed_def)
  have a: "jobs (rs_ledger (FinishDeferred i ok e s)) = jobs ?l" "db_faults (rs_ledger (FinishDeferred i ok e s)) = []"
    unfolding fin using h by (simp_all add: AppendEvent_def)
  then show "healthy (FinishDeferred i ok e s)"
    by (simp add: healthy_def)
  show "map job_key (jobs (rs_ledger (FinishDeferred i ok e s))) = map job_key (jobs (rs_ledger s))"
    unfolding a(1) using assms
    by (simp add: MarkJobSucceeded_def MarkJobFailed_def healthy_def map_sql_update job_key_def)
  have "status_of (rs_ledger (FinishDeferred i ok e s)) k = status_of ?l k"
    by (simp add: status_of_def a(1))
  then show "status_of (rs_ledger (FinishDeferred i ok e s)) k =
      (if k = i then map_option (\<lambda>_. if ok then StatusSucceeded else StatusFailed) (status_of (rs_ledger s) i)
       else status_of (rs_ledger s) k)"
    using assms by (simp add: healthy_def ledger.status_succeeded ledger.status_failed)
qed

text \<open>Whether a parent has a child that updates the control plane depends on the untouched columns only.\<close>

definition self_child_in :: "(string \<Rightarrow> UpdateSpec option) \<Rightarrow> string \<Rightarrow> string \<Rightarrow> (string \<times> string \<times> string \<times> string option) list \<Rightarrow> bool" where
  "self_child_in spec_of self parent ks \<longleftrightarrow>
     list_ex (\<lambda>(i, k, sp, p). p = Some parent \<and> k = ''node.update'' \<and> map_option up_node (spec_of sp) = Some self) ks"

lemma selfChildOf_healthy:
  assumes "db_faults l = []"
  shows "snd (selfChildOf spec_of parent self l) = l"
    and "fst (selfChildOf spec_of parent self l) \<noteq> None \<longleftrightarrow> self_child_in spec_of self parent (map job_key (jobs l))"
proof -
  have "fst (selfChildOf spec_of parent self l) \<noteq> None \<longleftrightarrow>
      (\<exists>j \<in> set (jobs l). j_parent j = Some parent \<and> targets_node spec_of self j)"
    using assms by (auto simp: selfChildOf_def ListChildJobs_def sql_first_None simp flip: not_None_eq)
  then show "fst (selfChildOf spec_of parent self l) \<noteq> None \<longleftrightarrow> self_child_in spec_of self parent (map job_key (jobs l))"
    by (auto simp: self_child_in_def list_ex_iff job_key_def targets_node_def)
  show "snd (selfChildOf spec_of parent self l) = l"
    using assms by (simp add: selfChildOf_def ListChildJobs_def)
qed

lemma resume_parents:
  assumes "healthy s"
  shows "fst ` set (fst (fold (resume_parent spec_of msg self) js (out, s))) = fst ` set out \<union>
    j_id ` set (filter (\<lambda>j. j_kind j = ''system.update'' \<and> self_child_in spec_of self (j_id j) (map job_key (jobs (rs_ledger s)))) js)"
  using assms
proof (induction js arbitrary: out s)
  case (Cons j js)
  let ?c = "selfChildOf spec_of (j_id j) self (rs_ledger s)"
  have h: "db_faults (rs_ledger s) = []"
    using Cons.prems by (simp add: healthy_def)
  have c: "on_ledger (selfChildOf spec_of (j_id j) self) s = (fst ?c, s)"
    using selfChildOf_healthy(1) [OF h, of spec_of "j_id j" self] by (simp add: on_ledger_def case_prod_unfold Let_def)
  consider (other) "j_kind j \<noteq> ''system.update''" | (gone) "j_kind j = ''system.update''" "fst ?c = None"
    | (child) ch where "j_kind j = ''system.update''" "fst ?c = Some ch"
    by fastforce
  then show ?case
  proof cases
    case other
    then have "resume_parent spec_of msg self j (out, s) = (out, s)"
      by (simp add: resume_parent_def)
    with other Cons.IH [OF Cons.prems, of out] show ?thesis
      by (simp del: set_filter)
  next
    case gone
    let ?s = "FinishDeferred (j_id j) False (msg ResumeChildGone) s"
    have "resume_parent spec_of msg self j (out, s) = (out, ?s)"
      using gone c by (simp add: resume_parent_def)
    moreover have "\<not> self_child_in spec_of self (j_id j) (map job_key (jobs (rs_ledger s)))"
      using gone selfChildOf_healthy(2) [OF h, of spec_of "j_id j" self] by simp
    ultimately show ?thesis
      using Cons.IH [OF FinishDeferred_ledger(1) [OF Cons.prems], of out "j_id j" False "msg ResumeChildGone"]
        FinishDeferred_ledger(2) [OF Cons.prems, of "j_id j" False "msg ResumeChildGone"]
      by (simp del: set_filter)
  next
    case child
    then have "resume_parent spec_of msg self j (out, s) = (out @ [(j_id j, j_id ch)], s)"
      using c by (simp add: resume_parent_def)
    moreover have "self_child_in spec_of self (j_id j) (map job_key (jobs (rs_ledger s)))"
      using child selfChildOf_healthy(2) [OF h, of spec_of "j_id j" self] by simp
    ultimately show ?thesis
      using child(1) Cons.IH [OF Cons.prems, of "out @ [(j_id j, j_id ch)]"] by (simp del: set_filter)
  qed
qed simp

lemma resume_candidates:
  assumes "db_faults l = []"
  shows "re_job ` set (fst (fold (resume_candidate spec_of ack_of self) js (out, l))) = re_job ` set out \<union>
    j_id ` set (filter (\<lambda>j. targets_node spec_of self j \<and> rebootDone (sql_order s_seq (sql_select (\<lambda>q. s_job q = j_id j) (job_steps l)))) js)"
proof (induction js arbitrary: out)
  case (Cons j js)
  have st: "ListSteps (j_id j) l = (Inr (sql_order s_seq (sql_select (\<lambda>q. s_job q = j_id j) (job_steps l))), l)"
    using assms by (simp add: ListSteps_def)
  let ?past = "rebootDone (sql_order s_seq (sql_select (\<lambda>q. s_job q = j_id j) (job_steps l)))"
  show ?case
  proof (cases "targets_node spec_of self j \<and> ?past")
    case True
    then have "\<exists>r. re_job r = j_id j \<and> resume_candidate spec_of ack_of self j (out, l) = (out @ [r], l)"
      by (auto simp: resume_candidate_def st targets_node_def)
    then obtain r where "re_job r = j_id j" "resume_candidate spec_of ack_of self j (out, l) = (out @ [r], l)"
      by blast
    with True Cons.IH [of "out @ [r]"] show ?thesis
      by (simp del: set_filter)
  next
    case False
    then have "resume_candidate spec_of ack_of self j (out, l) = (out, l)"
      by (auto simp: resume_candidate_def st split: option.split)
    then show ?thesis
      using Cons.IH [of out] by (simp add: False del: set_filter de_Morgan_conj)
  qed
qed simp


section \<open>The verdict of a resumed run\<close>

lemma persistResumedCascade_aside:
  "healthy s \<Longrightarrow> aside_writes (rs_ledger s) (rs_ledger (persistResumedCascade enc parent plan grid s))"
  by (auto simp: persistResumedCascade_def on_ledger_def ListSteps_def healthy_def aside_writes_def now_def
      MarkStepSucceeded_def Let_def split: option.split)

text \<open>The report of a run, as it is rebuilt from the plan and the children found in the ledger.\<close>

definition rebuilt :: "(string \<Rightarrow> UpdateSpec option) \<Rightarrow> string \<Rightarrow> string \<Rightarrow> Status \<Rightarrow> await_error option \<Rightarrow> systemPlanState \<Rightarrow> ledger
    \<Rightarrow> NodeResult list" where
  "rebuilt spec_of parent self st detail plan l = map (\<lambda>t. resumed_row self st detail
     (by_node spec_of (sql_order j_created_at (sql_select (\<lambda>j. j_parent j = Some parent) (jobs l))) (t_node t)) t) (ps_targets plan)"

lemma rebuildReport_healthy:
  assumes "db_faults l = []"
    and "stepResult (sql_order s_seq (sql_select (\<lambda>q. s_job q = parent) (job_steps l))) ''plan'' = Some raw"
    and "raw \<noteq> []" "plan_of raw = Some plan"
  shows "rebuildReport spec_of plan_of parent self st detail l = (Inr (plan, rebuilt spec_of parent self st detail plan l), l)"
  using assms by (simp add: rebuildReport_def ListSteps_def ListChildJobs_def rebuilt_def)

lemma outcome_split:
  "length (filter (\<lambda>r. nr_outcome r = NodeOutcomeSucceeded) grid) + length (filter (\<lambda>r. nr_outcome r = NodeOutcomeFailed) grid) +
   length (filter (\<lambda>r. nr_outcome r = NodeOutcomeNotAttempted) grid) = length grid"
proof (induction grid)
  case (Cons r grid)
  then show ?case
    by (cases "nr_outcome r") simp_all
qed simp


section \<open>A run across the restart\<close>

text \<open>
  A fleet run of a compute node and the control plane \<open>cp\<close> that rebooted last; the child of the
  compute node could not be created.
\<close>

definition past_job :: "string \<Rightarrow> string \<Rightarrow> string \<Rightarrow> Status \<Rightarrow> string option \<Rightarrow> job" where
  "past_job i kind spec st parent = \<lparr>j_id = i, j_kind = kind, j_spec = spec, j_status = st, j_created_by = [], j_created_at = 1,
     j_started_at = Some 1, j_finished_at = None, j_parent = parent, j_error = None\<rparr>"

definition past_step :: "string \<Rightarrow> nat \<Rightarrow> string \<Rightarrow> StepStatus \<Rightarrow> string option \<Rightarrow> job_step" where
  "past_step i n name st res = \<lparr>s_job = i, s_seq = n, s_name = name, s_status = st, s_started_at = None, s_finished_at = None,
     s_attempt = 1, s_result = res, s_error = None\<rparr>"

definition past_runner :: "unit runner" where
  "past_runner = \<lparr>rs_ledger = \<lparr>jobs = [past_job ''p'' ''system.update'' [] StatusRunning None,
       past_job ''c'' ''node.update'' ''cp'' StatusRunning (Some ''p'')],
     job_steps = [past_step ''p'' 0 ''plan'' StepSucceeded (Some ''plan''), past_step ''p'' 1 ''cascade'' StepRunning None,
       past_step ''c'' 5 ''reboot'' StepSucceeded None], job_events = [], db_faults = []\<rparr>,
     rs_bus = [], rs_clock = (\<lambda>_. 7), rs_reads = 0, rs_ids = (\<lambda>_. []), rs_minted = 0, rs_workflows = [], rs_spawned = [],
     rs_world = (), rs_calls = [], rs_hooks = []\<rparr>"

definition past_spec :: "string \<Rightarrow> UpdateSpec option" where
  "past_spec raw = (if raw = [] then None else Some \<lparr>up_node = raw, up_bundle = ''abc''\<rparr>)"

definition past_plan :: systemPlanState where
  "past_plan = empty_plan\<lparr>ps_targets := map (\<lambda>n. \<lparr>t_node = n, t_bundle = ''abc'', t_compatible = [], t_tier = ''compute'', t_canary = False\<rparr>)
     [''n1'', ''cp'']\<rparr>"



end
