(* ===== verification/Slot_Env.thy ===== *)
theory Slot_Env
  imports Prelude "HOL-Library.AList"
begin

text \<open>
  The boot counter of the firewall's A/B update (\<^verbatim>\<open>agent/internal/updater/grubenv.go\<close>): the GRUB
  environment block with its signature, its entries and its padding, and the order, OK and TRY flags
  kept in it.  A Go map is an association list with distinct keys; bytes are characters.
\<close>

section \<open>The block\<close>

abbreviation newline :: char where "newline \<equiv> CHR 0x0A"

definition grubenvSignature :: string where
  "grubenvSignature = ''# GRUB Environment Block'' @ [newline]"

definition grubenvSize :: nat where "grubenvSize = 1024"

definition grubenvPadByte :: char where "grubenvPadByte = CHR ''#''"

text \<open>\<^verbatim>\<open>strings.IndexByte\<close>.\<close>

definition index_byte :: "char \<Rightarrow> string \<Rightarrow> nat option" where
  "index_byte c s = (if c \<in> set s then Some (length (takeWhile (\<lambda>x. x \<noteq> c) s)) else None)"

definition env_line :: "string \<Rightarrow> (string \<times> string) list \<Rightarrow> (string \<times> string) list" where
  "env_line line kv =
     (if line = [] \<or> has_prefix ''#'' line then kv
      else case index_byte (CHR ''='') line of
        Some i \<Rightarrow> if 0 < i then AList.update (take i line) (drop (i + 1) line) kv else kv
      | None \<Rightarrow> kv)"

definition parseGrubenv :: "string \<Rightarrow> (string \<times> string) list" where
  "parseGrubenv b = fold env_line (go_split newline (trim_prefix grubenvSignature b)) []"

definition env_entry :: "(string \<times> string) list \<Rightarrow> string \<Rightarrow> string" where
  "env_entry kv k = k @ [CHR ''=''] @ (case map_of kv k of None \<Rightarrow> [] | Some v \<Rightarrow> v) @ [newline]"

datatype env_error = EnvTooLong nat nat

definition encodeGrubenv :: "(string \<times> string) list \<Rightarrow> nat \<Rightarrow> env_error + string" where
  "encodeGrubenv kv sz =
     (let buf = grubenvSignature @ concat (map (env_entry kv) (sort (map fst kv)))
      in if sz < length buf then Inl (EnvTooLong (length buf) sz)
         else Inr (buf @ replicate (sz - length buf) grubenvPadByte))"

section \<open>The counter\<close>

record abState =
  ab_order :: "string list"
  ab_ok :: "(string \<times> bool) list"
  ab_try :: "(string \<times> bool) list"

definition kv_get :: "(string \<times> string) list \<Rightarrow> string \<Rightarrow> string" where
  "kv_get kv k = (case map_of kv k of None \<Rightarrow> [] | Some v \<Rightarrow> v)"

definition flag :: "(string \<times> bool) list \<Rightarrow> string \<Rightarrow> bool" where
  "flag fs k = (case map_of fs k of None \<Rightarrow> False | Some b \<Rightarrow> b)"

definition decodeAB :: "(string \<times> string) list \<Rightarrow> abState" where
  "decodeAB kv =
     (let order = go_fields (kv_get kv ''ORDER'');
          ok = [(''A'', kv_get kv ''A_OK'' = ''1''), (''B'', kv_get kv ''B_OK'' = ''1'')];
          tries = [(''A'', kv_get kv ''A_TRY'' = ''1''), (''B'', kv_get kv ''B_TRY'' = ''1'')]
      in \<lparr>ab_order = (if order = [] then [''A'', ''B''] else order),
          ab_ok = (if map_of kv ''A_OK'' = None \<and> map_of kv ''B_OK'' = None then AList.update ''A'' True ok else ok),
          ab_try = tries\<rparr>)"

definition b2s :: "bool \<Rightarrow> string" where
  "b2s b = (if b then ''1'' else ''0'')"

definition ab_keys :: "string list" where
  "ab_keys = [''ORDER'', ''A_OK'', ''A_TRY'', ''B_OK'', ''B_TRY'']"

definition encodeAB :: "(string \<times> string) list \<Rightarrow> abState \<Rightarrow> (string \<times> string) list" where
  "encodeAB kv st =
     filter (\<lambda>p. fst p \<notin> set ab_keys) kv @
     [(''ORDER'', go_join '' '' (ab_order st)), (''A_OK'', b2s (flag (ab_ok st) ''A'')), (''B_OK'', b2s (flag (ab_ok st) ''B'')),
      (''A_TRY'', b2s (flag (ab_try st) ''A'')), (''B_TRY'', b2s (flag (ab_try st) ''B''))]"

section \<open>Reading back what was written\<close>

text \<open>Entries a block can hold: what the parser itself produces.\<close>

definition env_key :: "string \<Rightarrow> bool" where
  "env_key k \<longleftrightarrow> k \<noteq> [] \<and> hd k \<noteq> CHR ''#'' \<and> newline \<notin> set k \<and> CHR ''='' \<notin> set k"

definition env_ok :: "(string \<times> string) list \<Rightarrow> bool" where
  "env_ok kv \<longleftrightarrow> distinct (map fst kv) \<and> list_all (\<lambda>(k, v). env_key k \<and> newline \<notin> set v) kv"

lemma index_byte_entry: "c \<notin> set k \<Longrightarrow> index_byte c (k @ c # v) = Some (length k)"
  by (simp add: index_byte_def takeWhile_append)

lemma env_line_entry:
  assumes "env_key k"
  shows "env_line (k @ CHR ''='' # v) kv = AList.update k v kv"
  using assms index_byte_entry [of "CHR ''=''" k v]
  by (cases k) (auto simp: env_line_def env_key_def)

lemma go_split_entries:
  assumes "\<forall>e \<in> set es. newline \<notin> set e"
  shows "go_split newline (concat (map (\<lambda>e. e @ [newline]) es) @ s) = es @ go_split newline s"
  using assms by (induction es) (auto simp: go_split_append)

lemma parse_padding: "env_line (replicate n grubenvPadByte) kv = kv"
  by (cases n) (auto simp: env_line_def grubenvPadByte_def)

lemma map_of_fold_update:
  "map_of (fold (\<lambda>k. AList.update k (f k)) ks kv) = (\<lambda>k. if k \<in> set ks then Some (f k) else map_of kv k)"
  by (induction ks arbitrary: kv) (auto simp: update_conv' fun_eq_iff)

lemma parse_encode:
  assumes ok: "env_ok kv" and enc: "encodeGrubenv kv sz = Inr block"
  shows "map_of (parseGrubenv block) = map_of kv" and "length block = sz"
proof -
  let ?ks = "sort (map fst kv)"
  let ?v = "\<lambda>k. case map_of kv k of None \<Rightarrow> [] | Some v \<Rightarrow> v"
  let ?e = "\<lambda>k. k @ CHR ''='' # ?v k"
  have ent: "env_entry kv = (\<lambda>k. ?e k @ [newline])"
    by (simp add: env_entry_def fun_eq_iff)
  obtain n where block: "block = grubenvSignature @ concat (map (env_entry kv) ?ks) @ replicate n grubenvPadByte"
    and len: "length block = sz"
    using enc by (auto simp: encodeGrubenv_def Let_def split: if_splits)
  have keys: "env_key k \<and> newline \<notin> set (?v k)" if "k \<in> set ?ks" for k
  proof -
    from that obtain v where v: "(k, v) \<in> set kv"
      by auto
    then have "map_of kv k = Some v"
      using ok by (simp add: env_ok_def)
    with v ok show ?thesis
      by (auto simp: env_ok_def list_all_iff)
  qed
  have pad: "newline \<notin> set (replicate n grubenvPadByte)"
    by (simp add: grubenvPadByte_def)
  have "newline \<notin> set (?e k)" if "k \<in> set ?ks" for k
    using keys [OF that] by (auto simp: env_key_def)
  then have nl: "\<forall>e \<in> set (map ?e ?ks). newline \<notin> set e"
    by auto
  have "concat (map (env_entry kv) ?ks) = concat (map (\<lambda>e. e @ [newline]) (map ?e ?ks))"
    unfolding ent by (simp add: comp_def)
  then have split: "go_split newline (trim_prefix grubenvSignature block) = map ?e ?ks @ [replicate n grubenvPadByte]"
    unfolding block using go_split_entries [OF nl, of "replicate n grubenvPadByte"] go_split_no_sep [OF pad]
    by (simp add: trim_prefix_def)
  have "fold env_line (map ?e ks) acc = fold (\<lambda>k. AList.update k (?v k)) ks acc" if "set ks \<subseteq> set ?ks" for ks acc
    using that
  proof (induction ks arbitrary: acc)
    case (Cons k ks)
    then show ?case
      using env_line_entry [of k "?v k" acc] keys [of k] by simp
  qed simp
  then have "parseGrubenv block = fold (\<lambda>k. AList.update k (?v k)) ?ks []"
    by (simp add: parseGrubenv_def split parse_padding)
  then have parsed: "map_of (parseGrubenv block) k = (if k \<in> set (map fst kv) then Some (?v k) else None)" for k
    by (simp add: map_of_fold_update)
  have "map_of (parseGrubenv block) k = map_of kv k" for k
    unfolding parsed using map_of_eq_None_iff [of kv k] by (cases "map_of kv k") auto
  then show "map_of (parseGrubenv block) = map_of kv"
    by (rule ext)
  show "length block = sz"
    by (rule len)
qed

lemma env_ok_update: "env_ok kv \<Longrightarrow> env_key k \<Longrightarrow> newline \<notin> set v \<Longrightarrow> env_ok (AList.update k v kv)"
proof -
  have "list_all (\<lambda>(k, v). env_key k \<and> newline \<notin> set v) (AList.update k v kv)"
    if "list_all (\<lambda>(k, v). env_key k \<and> newline \<notin> set v) kv" "env_key k" "newline \<notin> set v"
    using that by (induction kv) auto
  then show "env_ok kv \<Longrightarrow> env_key k \<Longrightarrow> newline \<notin> set v \<Longrightarrow> env_ok (AList.update k v kv)"
    by (simp add: env_ok_def distinct_update)
qed

lemma env_ok_delete: "env_ok kv \<Longrightarrow> env_ok (AList.delete k kv)"
  by (auto simp: env_ok_def AList.delete_eq list_all_iff distinct_map_filter)

lemma env_line_ok:
  assumes "env_ok kv" "newline \<notin> set line"
  shows "env_ok (env_line line kv)"
proof (cases "index_byte (CHR ''='') line")
  case None
  with assms show ?thesis
    by (simp add: env_line_def)
next
  case (Some i)
  then have "i = length (takeWhile (\<lambda>x. x \<noteq> CHR ''='') line)"
    by (simp add: index_byte_def split: if_splits)
  then have t: "take i line = takeWhile (\<lambda>x. x \<noteq> CHR ''='') line"
    by (metis append_eq_conv_conj takeWhile_dropWhile_id)
  have "env_key (take i line)" if "line \<noteq> []" "\<not> has_prefix ''#'' line" "0 < i"
  proof -
    have "hd (take i line) \<noteq> CHR ''#''"
      using that by (cases line) (auto simp: hd_take)
    moreover have "CHR ''='' \<notin> set (take i line)"
      unfolding t by (auto dest: set_takeWhileD)
    moreover have "newline \<notin> set (take i line)"
      using assms(2) by (meson in_set_takeD)
    ultimately show ?thesis
      using that by (simp add: env_key_def)
  qed
  moreover have "newline \<notin> set (drop (i + 1) line)"
    using assms(2) by (meson in_set_dropD)
  ultimately show ?thesis
    using Some assms(1) by (simp add: env_line_def env_ok_update)
qed

lemma go_split_clean: "w \<in> set (go_split d s) \<Longrightarrow> d \<notin> set w"
proof (induction s arbitrary: w)
  case (Cons c s)
  obtain v vs where v: "go_split d s = v # vs"
    by (meson go_split_nonempty neq_Nil_conv)
  with Cons show ?case
    by (auto split: if_splits)
qed simp

lemma parse_env_ok: "env_ok (parseGrubenv b)"
proof -
  have "env_ok (fold env_line ls kv)" if "\<forall>l \<in> set ls. newline \<notin> set l" "env_ok kv" for ls kv
    using that by (induction ls arbitrary: kv) (auto simp: env_line_ok)
  then show ?thesis
    using go_split_clean by (auto simp: parseGrubenv_def env_ok_def)
qed

lemma fields_acc_chars: "w \<in> set (fields_acc acc s) \<Longrightarrow> set w \<subseteq> set acc \<union> set s"
  by (induction acc s arbitrary: w rule: fields_acc.induct) (fastforce split: if_splits)+

lemma go_join_chars: "set (go_join d ws) \<subseteq> set d \<union> \<Union>(set ` set ws)"
  by (induction d ws rule: go_join.induct) auto

definition order_ok :: "abState \<Rightarrow> bool" where
  "order_ok st \<longleftrightarrow> list_all (\<lambda>w. newline \<notin> set w) (ab_order st)"

lemma decode_order_ok:
  assumes "env_ok kv"
  shows "order_ok (decodeAB kv)"
proof -
  have "newline \<notin> set (kv_get kv ''ORDER'')"
    using assms by (auto simp: kv_get_def env_ok_def list_all_iff split: option.split dest: map_of_SomeD)
  then show ?thesis
    using fields_acc_chars [of _ "[]" "kv_get kv ''ORDER''"]
    by (auto simp: order_ok_def decodeAB_def Let_def list_all_iff go_fields_def)
qed

lemma encodeAB_ok:
  assumes "env_ok kv" "order_ok st"
  shows "env_ok (encodeAB kv st)"
proof -
  have "newline \<notin> set (go_join '' '' (ab_order st))"
    using go_join_chars [of "'' ''" "ab_order st"] assms(2) by (auto simp: order_ok_def list_all_iff)
  moreover have "newline \<notin> set (b2s b)" for b
    by (simp add: b2s_def)
  moreover have "distinct (map fst (filter (\<lambda>p. fst p \<notin> set ab_keys) kv))"
    using assms(1) by (simp add: env_ok_def distinct_map_filter)
  ultimately show ?thesis
    using assms(1) by (auto simp: env_ok_def encodeAB_def env_key_def list_all_iff ab_keys_def)
qed

text \<open>What is read of a counter that was written.\<close>

lemma encodeAB_get:
  "map_of (encodeAB kv st) ''ORDER'' = Some (go_join '' '' (ab_order st))"
  "map_of (encodeAB kv st) ''A_OK'' = Some (b2s (flag (ab_ok st) ''A''))"
  "map_of (encodeAB kv st) ''B_OK'' = Some (b2s (flag (ab_ok st) ''B''))"
  "map_of (encodeAB kv st) ''A_TRY'' = Some (b2s (flag (ab_try st) ''A''))"
  "map_of (encodeAB kv st) ''B_TRY'' = Some (b2s (flag (ab_try st) ''B''))"
  "k \<notin> set ab_keys \<Longrightarrow> map_of (encodeAB kv st) k = map_of kv k"
proof -
  let ?tail = "[(''ORDER'', go_join '' '' (ab_order st)), (''A_OK'', b2s (flag (ab_ok st) ''A'')), (''B_OK'', b2s (flag (ab_ok st) ''B'')),
      (''A_TRY'', b2s (flag (ab_try st) ''A'')), (''B_TRY'', b2s (flag (ab_try st) ''B''))]"
  have "map_of (filter (\<lambda>p. fst p \<notin> S) kv) k = (if k \<in> S then None else map_of kv k)" for S k
    by (induction kv) auto
  moreover have "map_of ?tail k = None" if "k \<notin> set ab_keys" for k
    using that by (simp add: ab_keys_def)
  ultimately have m: "map_of (encodeAB kv st) k = (if k \<in> set ab_keys then map_of ?tail k else map_of kv k)" for k
    unfolding encodeAB_def map_of_append map_add_def by (simp split: option.split)
  show "map_of (encodeAB kv st) ''ORDER'' = Some (go_join '' '' (ab_order st))"
    "map_of (encodeAB kv st) ''A_OK'' = Some (b2s (flag (ab_ok st) ''A''))"
    "map_of (encodeAB kv st) ''B_OK'' = Some (b2s (flag (ab_ok st) ''B''))"
    "map_of (encodeAB kv st) ''A_TRY'' = Some (b2s (flag (ab_try st) ''A''))"
    "map_of (encodeAB kv st) ''B_TRY'' = Some (b2s (flag (ab_try st) ''B''))"
    unfolding m by (simp_all add: ab_keys_def)
  show "k \<notin> set ab_keys \<Longrightarrow> map_of (encodeAB kv st) k = map_of kv k"
    unfolding m by simp
qed

end
