(* ===== verification/Bundle_Path.thy ===== *)
theory Bundle_Path
  imports Prelude
begin

text \<open>
  Where an agent may keep an update's artifact (\<^verbatim>\<open>agent/internal/updater/bundlepath.go\<close> and
  \<^verbatim>\<open>expectedsha.go\<close>): the id of a bundle and a path both arrive on the bus and are resolved against
  the bundle store.  The functions of \<^verbatim>\<open>path/filepath\<close> the code calls are modelled for slash-separated
  paths; \<open>cwd\<close> is the working directory, absolute.
\<close>

section \<open>Paths\<close>

abbreviation slash :: char where "slash \<equiv> CHR ''/''"

definition IsAbs :: "string \<Rightarrow> bool" where
  "IsAbs p \<longleftrightarrow> has_prefix ''/'' p"

text \<open>One component; the stack is reversed, and \<open>rooted\<close> paths do not climb above the root.\<close>

definition clean_step :: "bool \<Rightarrow> string \<Rightarrow> string list \<Rightarrow> string list" where
  "clean_step rooted c st =
     (if c = [] \<or> c = ''.'' then st
      else if c = ''..'' then
        (case st of
           [] \<Rightarrow> if rooted then [] else [''..'']
         | t # ts \<Rightarrow> if t = ''..'' then ''..'' # st else ts)
      else c # st)"

definition clean_comps :: "bool \<Rightarrow> string list \<Rightarrow> string list" where
  "clean_comps rooted cs = rev (fold (clean_step rooted) cs [])"

definition Clean :: "string \<Rightarrow> string" where
  "Clean p =
     (let cs = clean_comps (IsAbs p) (go_split slash p)
      in if IsAbs p then slash # go_join ''/'' cs else if cs = [] then ''.'' else go_join ''/'' cs)"

definition Join :: "string list \<Rightarrow> string" where
  "Join es = (let fs = filter (\<lambda>e. e \<noteq> []) es in if fs = [] then [] else Clean (go_join ''/'' fs))"

definition Abs :: "string \<Rightarrow> string \<Rightarrow> string" where
  "Abs cwd p = (if IsAbs p then Clean p else Join [cwd, p])"

text \<open>\<^verbatim>\<open>filepath.Rel\<close> of two absolute paths, by components.\<close>

definition abs_comps :: "string \<Rightarrow> string list" where
  "abs_comps p = clean_comps True (go_split slash p)"

fun rel_comps :: "string list \<Rightarrow> string list \<Rightarrow> string list" where
  "rel_comps (b # bs) (t # ts) = (if b = t then rel_comps bs ts else replicate (length (b # bs)) ''..'' @ t # ts)"
| "rel_comps bs ts = replicate (length bs) ''..'' @ ts"

definition Rel :: "string \<Rightarrow> string \<Rightarrow> string" where
  "Rel base targ = (let r = rel_comps (abs_comps base) (abs_comps targ) in if r = [] then ''.'' else go_join ''/'' r)"

section \<open>The bundle store\<close>

definition bundlesSubdir :: string where "bundlesSubdir = ''bundles''"

definition maxBundleIDLen :: nat where "maxBundleIDLen = 128"

definition id_char :: "char \<Rightarrow> bool" where
  "id_char r \<longleftrightarrow>
     list_ex (\<lambda>(lo, hi). lo \<le> r \<and> r \<le> hi) [(CHR ''a'', CHR ''z''), (CHR ''A'', CHR ''Z''), (CHR ''0'', CHR ''9'')] \<or>
     r \<in> {CHR ''.'', CHR ''_'', CHR ''-''}"

definition validBundleID :: "string \<Rightarrow> bool" where
  "validBundleID i \<longleftrightarrow> \<not> (i = [] \<or> maxBundleIDLen < length i \<or> i = ''.'' \<or> i = ''..'') \<and> list_all id_char i"

datatype path_error = BadBundleID string | BundlePathEscape string string

definition resolveBundlePath :: "string \<Rightarrow> string \<Rightarrow> string \<Rightarrow> string \<Rightarrow> string \<Rightarrow> path_error + string" where
  "resolveBundlePath cwd stateDir bundleID localPath ext =
     (if \<not> validBundleID bundleID then Inl (BadBundleID bundleID)
      else if localPath = [] then Inr (Join [stateDir, bundlesSubdir, bundleID @ ext])
      else
        let store = Abs cwd (Join [stateDir, bundlesSubdir]); rel = Rel store (Abs cwd localPath)
        in if rel = ''.'' \<or> rel = ''..'' \<or> has_prefix ''../'' rel then Inl (BundlePathEscape localPath store)
           else Inr (Clean localPath))"

section \<open>The expected hash\<close>

definition expectedSHAHexLen :: nat where "expectedSHAHexLen = 64"

definition isLowerHex :: "string \<Rightarrow> bool" where
  "isLowerHex s \<longleftrightarrow> list_all (\<lambda>c. \<not> ((c < CHR ''0'' \<or> CHR ''9'' < c) \<and> (c < CHR ''a'' \<or> CHR ''f'' < c))) s"

datatype sha_error = ShaMissing string | ShaMalformed string string

definition requireExpectedSHA :: "string \<Rightarrow> string \<Rightarrow> sha_error option" where
  "requireExpectedSHA bundleID expectedSHA =
     (if expectedSHA = [] then Some (ShaMissing bundleID)
      else if length expectedSHA \<noteq> expectedSHAHexLen \<or> \<not> isLowerHex expectedSHA then Some (ShaMalformed expectedSHA bundleID)
      else None)"

section \<open>Clean paths\<close>

definition plain :: "string \<Rightarrow> bool" where
  "plain c \<longleftrightarrow> c \<noteq> [] \<and> c \<noteq> ''.'' \<and> c \<noteq> ''..'' \<and> slash \<notin> set c"

lemma clean_step_rooted_plain:
  "slash \<notin> set c \<Longrightarrow> list_all plain st \<Longrightarrow> list_all plain (clean_step True c st)"
  by (cases st) (auto simp: clean_step_def plain_def)

lemma split_no_slash: "c \<in> set (go_split d s) \<Longrightarrow> d \<notin> set c"
proof (induction s arbitrary: c)
  case (Cons x s)
  obtain v vs where "go_split d s = v # vs"
    by (meson go_split_nonempty neq_Nil_conv)
  with Cons show ?case
    by (auto split: if_splits)
qed simp

lemma abs_comps_plain: "list_all plain (abs_comps p)"
proof -
  have "list_all plain (fold (clean_step True) cs st)" if "\<forall>c \<in> set cs. slash \<notin> set c" "list_all plain st" for cs st
    using that by (induction cs arbitrary: st) (simp_all add: clean_step_rooted_plain)
  from this [of "go_split slash p" "[]"] show ?thesis
    using split_no_slash by (auto simp: abs_comps_def clean_comps_def list_all_iff)
qed

lemma fold_plain: "list_all plain cs \<Longrightarrow> fold (clean_step rooted) cs st = rev cs @ st"
  by (induction cs arbitrary: st) (auto simp: clean_step_def plain_def)

lemma go_split_join:
  "cs \<noteq> [] \<Longrightarrow> list_all (\<lambda>c. slash \<notin> set c) cs \<Longrightarrow> go_split slash (go_join ''/'' cs) = cs"
proof (induction cs)
  case (Cons c cs)
  then show ?case
    by (cases cs) (auto simp: go_split_no_sep go_split_append)
qed simp

lemma plain_no_slash: "list_all plain cs \<Longrightarrow> list_all (\<lambda>c. slash \<notin> set c) cs"
  by (auto simp: list_all_iff plain_def)

text \<open>A clean absolute path has the components it was made of.\<close>

lemma abs_comps_Clean: "IsAbs p \<Longrightarrow> abs_comps (Clean p) = abs_comps p"
proof -
  assume abs: "IsAbs p"
  have pl: "list_all plain (abs_comps p)"
    by (rule abs_comps_plain)
  have c: "Clean p = slash # go_join ''/'' (abs_comps p)"
    using abs by (simp add: Clean_def abs_comps_def)
  show ?thesis
  proof (cases "abs_comps p = []")
    case True
    then show ?thesis
      by (simp add: c) (simp add: abs_comps_def clean_comps_def clean_step_def)
  next
    case False
    have "clean_comps True ([] # abs_comps p) = abs_comps p"
      using fold_plain [OF pl, of True "[]"] by (simp add: clean_comps_def clean_step_def)
    then show ?thesis
      using go_split_join [OF False plain_no_slash [OF pl]] by (simp add: c abs_comps_def [of "slash # _"])
  qed
qed

lemma go_split_append_sep: "go_split d (a @ d # b) = go_split d a @ go_split d b"
proof (induction a)
  case (Cons x a)
  obtain v vs where "go_split d a = v # vs"
    by (meson go_split_nonempty neq_Nil_conv)
  with Cons show ?case
    by auto
qed simp

text \<open>The components of a path as seen from the working directory.\<close>

definition comps_at :: "string \<Rightarrow> string \<Rightarrow> string list" where
  "comps_at cwd q = clean_comps True (if IsAbs q then go_split slash q else go_split slash cwd @ go_split slash q)"

lemma IsAbs_append: "q \<noteq> [] \<Longrightarrow> IsAbs (q @ r) = IsAbs q"
  by (cases q) (auto simp: IsAbs_def)

lemma abs_comps_Abs:
  assumes "IsAbs cwd" "q \<noteq> []"
  shows "abs_comps (Abs cwd q) = comps_at cwd q"
proof (cases "IsAbs q")
  case True
  then show ?thesis
    by (simp add: Abs_def abs_comps_Clean) (simp add: abs_comps_def comps_at_def)
next
  case False
  have "cwd \<noteq> []"
    using assms(1) by (auto simp: IsAbs_def)
  then have "Abs cwd q = Clean (cwd @ slash # q)" "IsAbs (cwd @ slash # q)"
    using False assms by (simp_all add: Abs_def Join_def IsAbs_append)
  then show ?thesis
    using False by (simp add: abs_comps_Clean) (simp add: abs_comps_def comps_at_def go_split_append_sep)
qed

text \<open>Cleaning a relative path first does not change where it leads.\<close>

definition rel_stack :: "string list \<Rightarrow> bool" where
  "rel_stack st \<longleftrightarrow> (\<forall>c \<in> set st. c = ''..'' \<or> plain c)"

lemma clean_step_rel:
  assumes "rel_stack s"
  shows "fold (clean_step True) (rev (clean_step False c s)) st = fold (clean_step True) (rev s @ [c]) st"
    and "slash \<notin> set c \<Longrightarrow> rel_stack (clean_step False c s)"
proof -
  show "fold (clean_step True) (rev (clean_step False c s)) st = fold (clean_step True) (rev s @ [c]) st"
  proof (cases "c = ''..''")
    case True
    show ?thesis
    proof (cases s)
      case Nil
      with True show ?thesis
        by (simp add: clean_step_def)
    next
      case (Cons t ts)
      show ?thesis
      proof (cases "t = ''..''")
        case True
        with Cons \<open>c = ''..''\<close> show ?thesis
          by (simp add: clean_step_def [of False])
      next
        case False
        then have "plain t"
          using assms Cons by (auto simp: rel_stack_def)
        with Cons \<open>c = ''..''\<close> False show ?thesis
          by (simp add: clean_step_def plain_def)
      qed
    qed
  next
    case False
    then show ?thesis
      by (auto simp: clean_step_def)
  qed
  show "slash \<notin> set c \<Longrightarrow> rel_stack (clean_step False c s)"
    using assms by (cases s) (auto simp: clean_step_def rel_stack_def plain_def)
qed

lemma clean_rel_stack:
  "rel_stack s \<Longrightarrow> \<forall>c \<in> set cs. slash \<notin> set c \<Longrightarrow> rel_stack (fold (clean_step False) cs s)"
  by (induction cs arbitrary: s) (simp_all add: clean_step_rel(2))

lemma clean_rel:
  "rel_stack s \<Longrightarrow> \<forall>c \<in> set cs. slash \<notin> set c \<Longrightarrow>
     fold (clean_step True) (rev (fold (clean_step False) cs s)) st = fold (clean_step True) (rev s @ cs) st"
proof (induction cs arbitrary: s)
  case (Cons c cs)
  then have "rel_stack (clean_step False c s)"
    by (simp add: clean_step_rel(2))
  with Cons.IH [of "clean_step False c s"] Cons.prems clean_step_rel(1) [of s c st] show ?case
    by simp
qed simp

lemma rel_clean_elems:
  "c \<in> set (clean_comps False (go_split slash q)) \<Longrightarrow> c = ''..'' \<or> plain c"
  using clean_rel_stack [of "[]" "go_split slash q"] split_no_slash [of _ slash q]
  by (auto simp: rel_stack_def clean_comps_def)

lemma Clean_nonempty: "Clean q \<noteq> []"
proof (cases "clean_comps False (go_split slash q)")
  case Nil
  then show ?thesis
    by (cases "IsAbs q") (simp_all add: Clean_def Let_def)
next
  case (Cons c cs)
  then have "c \<noteq> []"
    using rel_clean_elems [of c q] by (auto simp: plain_def)
  then show ?thesis
    using Cons by (cases "IsAbs q"; cases cs) (simp_all add: Clean_def Let_def)
qed

lemma Clean_relative:
  assumes "\<not> IsAbs q"
  shows "\<not> IsAbs (Clean q)"
    and "fold (clean_step True) (go_split slash (Clean q)) st = fold (clean_step True) (go_split slash q) st"
proof -
  let ?cs = "clean_comps False (go_split slash q)"
  have ns: "\<forall>c \<in> set (go_split slash q). slash \<notin> set c"
    using split_no_slash by blast
  have run: "fold (clean_step True) ?cs st = fold (clean_step True) (go_split slash q) st"
    using clean_rel [of "[]", OF _ ns] by (simp add: rel_stack_def clean_comps_def)
  have sl: "list_all (\<lambda>c. slash \<notin> set c) ?cs"
    by (auto simp: list_all_iff plain_def dest!: rel_clean_elems)
  have "\<not> IsAbs (Clean q) \<and> fold (clean_step True) (go_split slash (Clean q)) st = fold (clean_step True) ?cs st"
  proof (cases ?cs)
    case Nil
    then have "Clean q = ''.''"
      using assms by (simp add: Clean_def)
    with Nil show ?thesis
      by (simp add: IsAbs_def clean_step_def)
  next
    case (Cons c cs)
    then have "c \<noteq> []" "slash \<notin> set c"
      using rel_clean_elems [of c q] by (auto simp: plain_def)
    then have "\<not> IsAbs (go_join ''/'' (c # cs))"
      by (cases cs; cases c) (simp_all add: IsAbs_def)
    moreover have "Clean q = go_join ''/'' (c # cs)"
      using assms Cons by (simp add: Clean_def)
    moreover have "go_split slash (go_join ''/'' (c # cs)) = c # cs"
      using sl unfolding Cons by (intro go_split_join) simp_all
    ultimately show ?thesis
      by (simp only: Cons) blast
  qed
  then show "\<not> IsAbs (Clean q)"
    "fold (clean_step True) (go_split slash (Clean q)) st = fold (clean_step True) (go_split slash q) st"
    using run by simp_all
qed

lemma comps_at_Clean: "comps_at cwd (Clean q) = comps_at cwd q"
proof (cases "IsAbs q")
  case True
  then have "IsAbs (Clean q)"
    by (simp add: Clean_def IsAbs_def)
  with True abs_comps_Clean [OF True] show ?thesis
    by (simp add: comps_at_def abs_comps_def)
next
  case False
  then show ?thesis
    using Clean_relative [OF False] by (simp add: comps_at_def clean_comps_def)
qed

section \<open>Containment\<close>

lemma rel_nil_cases:
  "(\<exists>rest. [] = bs @ rest \<and> rel_comps bs [] = rest) \<or> (\<exists>k ts. rel_comps bs [] = ''..'' # replicate k ''..'' @ ts)"
proof (cases bs)
  case (Cons b cs)
  then have "rel_comps bs [] = ''..'' # replicate (length cs) ''..'' @ []"
    by simp
  then show ?thesis
    by blast
qed simp

lemma rel_comps_cases:
  "(\<exists>rest. t = b @ rest \<and> rel_comps b t = rest) \<or> (\<exists>k ts. rel_comps b t = ''..'' # replicate k ''..'' @ ts)"
proof (induction b t rule: rel_comps.induct)
  case (1 b bs t ts)
  show ?case
  proof (cases "b = t")
    case True
    then show ?thesis
      using "1" by simp
  next
    case False
    then have "rel_comps (b # bs) (t # ts) = ''..'' # replicate (length bs) ''..'' @ t # ts"
      by simp
    then show ?thesis
      by blast
  qed
qed (rule rel_nil_cases | simp)+

lemma inside_store:
  assumes "Rel store targ \<noteq> ''.''" "Rel store targ \<noteq> ''..''" "\<not> has_prefix ''../'' (Rel store targ)"
  shows "\<exists>rest. rest \<noteq> [] \<and> abs_comps targ = abs_comps store @ rest"
  using rel_comps_cases [of "abs_comps targ" "abs_comps store"]
proof (elim disjE exE conjE)
  fix rest
  assume "abs_comps targ = abs_comps store @ rest" "rel_comps (abs_comps store) (abs_comps targ) = rest"
  then show ?thesis
    using assms(1) by (auto simp: Rel_def)
next
  fix k ts
  assume r: "rel_comps (abs_comps store) (abs_comps targ) = ''..'' # replicate k ''..'' @ ts"
  then have "Rel store targ = ''..'' \<or> has_prefix ''../'' (Rel store targ)"
    by (cases "replicate k ''..'' @ ts") (auto simp: Rel_def)
  then show ?thesis
    using assms by blast
qed

lemma valid_id_plain:
  assumes "validBundleID i" "slash \<notin> set ext" "2 < length ext"
  shows "plain (i @ ext)"
proof -
  have "slash \<notin> set i"
    using assms(1) by (auto simp: validBundleID_def list_all_iff id_char_def less_eq_char_def)
  moreover have "2 < length (i @ ext)"
    using assms(3) by simp
  then have "i @ ext \<noteq> ''.''" "i @ ext \<noteq> ''..''"
    by (auto simp del: length_append)
  ultimately show ?thesis
    using assms by (auto simp: plain_def)
qed

text \<open>C36: Whatever id and path arrive on the bus, a path that is accepted lies inside the bundle store, at
  least one component below it, and the store's own path is not climbed out of; without a path it is
  the file named by the id and the extension, directly in the store.\<close>

theorem bundle_path_contained:
  assumes "resolveBundlePath cwd stateDir bundleID localPath ext = Inr p"
    and "IsAbs cwd" "slash \<notin> set ext" "2 < length ext"
  shows "\<exists>rest. rest \<noteq> [] \<and> list_all plain rest \<and>
    abs_comps (Abs cwd p) = abs_comps (Abs cwd (Join [stateDir, bundlesSubdir])) @ rest \<and>
    (localPath = [] \<longrightarrow> rest = [bundleID @ ext])"
proof (cases "localPath = []")
  case True
  let ?x = "if stateDir = [] then bundlesSubdir else stateDir @ slash # bundlesSubdir"
  let ?f = "bundleID @ ext"
  have v: "validBundleID bundleID" and p: "p = Join [stateDir, bundlesSubdir, ?f]"
    using assms(1) True by (auto simp: resolveBundlePath_def split: if_splits)
  have pl: "plain ?f"
    by (rule valid_id_plain [OF v assms(3,4)])
  have ne: "?x \<noteq> []" "bundlesSubdir \<noteq> []" "?f \<noteq> []"
    using pl by (auto simp: bundlesSubdir_def plain_def)
  have j: "Join [stateDir, bundlesSubdir] = Clean ?x" "p = Clean (?x @ slash # ?f)"
    unfolding p using ne by (auto simp: Join_def)
  have "abs_comps (Abs cwd p) = comps_at cwd (?x @ slash # ?f)"
    unfolding j(2) using ne by (subst abs_comps_Abs [OF assms(2) Clean_nonempty]) (simp add: comps_at_Clean)
  also have "\<dots> = comps_at cwd ?x @ [?f]"
    using fold_plain [of "[?f]" True] pl go_split_no_sep [of slash ?f] IsAbs_append [OF ne(1), of "slash # ?f"]
    unfolding comps_at_def clean_comps_def by (simp add: go_split_append_sep plain_def)
  also have "comps_at cwd ?x = abs_comps (Abs cwd (Join [stateDir, bundlesSubdir]))"
    unfolding j(1) using ne by (subst abs_comps_Abs [OF assms(2) Clean_nonempty]) (simp add: comps_at_Clean)
  finally show ?thesis
    using pl True by auto
next
  case False
  let ?store = "Abs cwd (Join [stateDir, bundlesSubdir])"
  have r: "Rel ?store (Abs cwd localPath) \<noteq> ''.''" "Rel ?store (Abs cwd localPath) \<noteq> ''..''"
      "\<not> has_prefix ''../'' (Rel ?store (Abs cwd localPath))" and p: "p = Clean localPath"
    using assms(1) False by (auto simp: resolveBundlePath_def Let_def split: if_splits)
  obtain rest where rest: "rest \<noteq> []" "abs_comps (Abs cwd localPath) = abs_comps ?store @ rest"
    using inside_store [OF r] by blast
  have "abs_comps (Abs cwd p) = abs_comps (Abs cwd localPath)"
    unfolding p using False by (simp add: abs_comps_Abs [OF assms(2)] Clean_nonempty comps_at_Clean)
  moreover have "list_all plain rest"
    using abs_comps_plain [of "Abs cwd localPath"] rest(2) by simp
  ultimately show ?thesis
    using rest False by auto
qed

theorem bundle_path_contained_witness:
  "resolveBundlePath ''/'' ''/var/lib/r'' ''abc'' [] ''.rootfs'' = Inr ''/var/lib/r/bundles/abc.rootfs'' \<and>
   (\<exists>rest. rest \<noteq> [] \<and> abs_comps ''/var/lib/r/bundles/abc.rootfs'' = [''var'', ''lib'', ''r'', ''bundles''] @ rest) \<and>
   resolveBundlePath ''/'' ''/var/lib/r'' ''abc'' ''/var/lib/r/bundles/../../x'' ''.rootfs'' =
     Inl (BundlePathEscape ''/var/lib/r/bundles/../../x'' ''/var/lib/r/bundles'')"
proof -
  have r: "resolveBundlePath ''/'' ''/var/lib/r'' ''abc'' [] ''.rootfs'' = Inr ''/var/lib/r/bundles/abc.rootfs''"
    by code_simp
  have e: "abs_comps (Abs ''/'' ''/var/lib/r/bundles/abc.rootfs'') = abs_comps ''/var/lib/r/bundles/abc.rootfs''"
      "abs_comps (Abs ''/'' (Join [''/var/lib/r'', bundlesSubdir])) = [''var'', ''lib'', ''r'', ''bundles'']"
    by code_simp+
  have "\<exists>rest. rest \<noteq> [] \<and> abs_comps ''/var/lib/r/bundles/abc.rootfs'' = [''var'', ''lib'', ''r'', ''bundles''] @ rest"
    using bundle_path_contained [OF r] unfolding e by (auto simp: IsAbs_def)
  moreover have "resolveBundlePath ''/'' ''/var/lib/r'' ''abc'' ''/var/lib/r/bundles/../../x'' ''.rootfs'' =
     Inl (BundlePathEscape ''/var/lib/r/bundles/../../x'' ''/var/lib/r/bundles'')"
    by code_simp
  ultimately show ?thesis
    using r by blast
qed

end
