(* ===== verification/Slot_Update.thy ===== *)
theory Slot_Update
  imports Slot_Env Bundle_Path Node_Update
begin

text \<open>
  The A/B update of the firewall node (\<^verbatim>\<open>agent/internal/updater/{openwrt_ab,slotboot,espmount}.go\<close>):
  the booted slot, the install into the other slot, the marks of the running slot and the repair of
  the boot files.  The disk is the environment block, the other files of the boot partition and the
  image each slot device holds, where \<^term>\<open>None\<close> is a device that has been partly overwritten.

  Every call to the operating system can fail: \<open>bd_faults\<close> lists the outcomes.  Power can be lost
  between any two writes: \<open>bd_power\<close> is the number of writes that still reach the disk; from then on
  the operations run without effect, so the disk a function leaves is the disk a power cut leaves.
  One write to a slot is torn before it is complete; one write of the environment block is atomic.
\<close>

section \<open>Slots\<close>

abbreviation SlotA :: UpdateSlot where "SlotA \<equiv> ''a''"
abbreviation SlotB :: UpdateSlot where "SlotB \<equiv> ''b''"

definition slotLetter :: "UpdateSlot \<Rightarrow> string" where
  "slotLetter s = (if s = SlotA then ''A'' else if s = SlotB then ''B'' else [])"

definition bootedSlotFromCmdline :: "string \<Rightarrow> UpdateSlot" where
  "bootedSlotFromCmdline cmdline =
     (if contains_sub ''PARTLABEL=rootfs-0'' cmdline \<or> contains_sub ''rauc.slot=A'' cmdline \<or>
         contains_sub ''rasputin.slot=A'' cmdline then SlotA
      else if contains_sub ''PARTLABEL=rootfs-1'' cmdline \<or> contains_sub ''rauc.slot=B'' cmdline \<or>
         contains_sub ''rasputin.slot=B'' cmdline then SlotB
      else SlotUnknown)"

definition otherSlot :: "UpdateSlot \<Rightarrow> UpdateSlot" where
  "otherSlot s = (if s = SlotA then SlotB else if s = SlotB then SlotA else SlotUnknown)"

text \<open>\<open>cmdline\<close> and \<open>version\<close> are the two files, \<^term>\<open>None\<close> when they cannot be read.\<close>

definition Precheck :: "string option \<Rightarrow> string option \<Rightarrow> UpdatePrecheckAck" where
  "Precheck cmdline version = (case cmdline of
     None \<Rightarrow> zero_precheck\<lparr>pa_detail := ''read /proc/cmdline''\<rparr>
   | Some c \<Rightarrow>
       (let active = bootedSlotFromCmdline c
        in if active = SlotUnknown
           then zero_precheck\<lparr>pa_detail := ''could not determine booted slot from /proc/cmdline''\<rparr>
           else zero_precheck\<lparr>pa_ok := True, pa_active_slot := active, pa_inactive_slot := otherSlot active,
                  pa_current_version := (case version of None \<Rightarrow> [] | Some v \<Rightarrow> trim_space v)\<rparr>))"

section \<open>The disk\<close>

record boot_disk =
  bd_env :: "string option"
  bd_esp :: "(string \<times> string) list"
  bd_slots :: "(string \<times> string option) list"
  bd_cmdline :: string
  bd_faults :: "bool list"
  bd_power :: nat

datatype ab_error =
    AbPath path_error | AbSlot UpdateSlot | AbSignature | AbResolve string
  | AbMount | AbUmount | AbRead | AbNoEnv | AbStat | AbOpen | AbWrite | AbSync | AbRename | AbCancelled
  | AbEncode env_error | AbCmdline | AbRunning | AbReadBack | AbNoSource string | AbVfat

definition io :: "boot_disk \<Rightarrow> bool \<times> boot_disk" where
  "io d = (case bd_faults d of [] \<Rightarrow> (False, d) | b # bs \<Rightarrow> (b, d\<lparr>bd_faults := bs\<rparr>))"

definition persist :: "(boot_disk \<Rightarrow> boot_disk) \<Rightarrow> boot_disk \<Rightarrow> boot_disk" where
  "persist f d = (if bd_power d = 0 then d else (f d)\<lparr>bd_power := bd_power d - 1\<rparr>)"

definition WithESP :: "(boot_disk \<Rightarrow> (ab_error + 'a) \<times> boot_disk) \<Rightarrow> boot_disk \<Rightarrow> (bool \<times> (ab_error + 'a)) \<times> boot_disk" where
  "WithESP fn d =
     (let (bad, d1) = io d in
      if bad then ((False, Inl AbMount), d1)
      else let (r, d2) = fn d1; (stuck, d3) = io d2
           in ((True, case r of Inl e \<Rightarrow> Inl e | Inr x \<Rightarrow> if stuck then Inl AbUmount else Inr x), d3))"

section \<open>The environment block\<close>

definition readGrubenv :: "boot_disk \<Rightarrow> (ab_error + (string \<times> string) list) \<times> boot_disk" where
  "readGrubenv d = (let (bad, d1) = io d in
     if bad then (Inl AbRead, d1)
     else case bd_env d1 of None \<Rightarrow> (Inl AbNoEnv, d1) | Some b \<Rightarrow> (Inr (parseGrubenv b), d1))"

definition writeGrubenv :: "(string \<times> string) list \<Rightarrow> boot_disk \<Rightarrow> (ab_error + unit) \<times> boot_disk" where
  "writeGrubenv kv d = (let (bad, d1) = io d in
     if bad then (Inl AbStat, d1)
     else case bd_env d1 of
       None \<Rightarrow> (Inl AbNoEnv, d1)
     | Some old \<Rightarrow>
         (let sz = (if length old < length grubenvSignature then grubenvSize else length old)
          in case encodeGrubenv kv sz of
               Inl e \<Rightarrow> (Inl (AbEncode e), d1)
             | Inr block \<Rightarrow>
                 (let (bad, d2) = io d1 in
                  if bad then (Inl AbOpen, d2)
                  else let (bad, d3) = io d2 in
                    if bad then (Inl AbWrite, d3)
                    else let d4 = persist (\<lambda>x. x\<lparr>bd_env := Some (block @ drop (length block) old)\<rparr>) d3; (bad, d5) = io d4
                         in (if bad then Inl AbSync else Inr (), d5))))"

definition withGrubenv :: "(boot_disk \<Rightarrow> (ab_error + unit) \<times> boot_disk) \<Rightarrow> boot_disk \<Rightarrow> (bool \<times> (ab_error + unit)) \<times> boot_disk" where
  "withGrubenv = WithESP"

text \<open>Read the counter, change it, write it back.\<close>

definition edit_counter :: "((string \<times> string) list \<Rightarrow> (string \<times> string) list) \<Rightarrow> (abState \<Rightarrow> abState) \<Rightarrow> boot_disk
    \<Rightarrow> (ab_error + unit) \<times> boot_disk" where
  "edit_counter f g d = (case readGrubenv d of
     (Inl e, d1) \<Rightarrow> (Inl e, d1)
   | (Inr kv, d1) \<Rightarrow> writeGrubenv (encodeAB (f kv) (g (decodeAB kv))) d1)"

definition deactivateSlot :: "string \<Rightarrow> boot_disk \<Rightarrow> (ab_error + unit) \<times> boot_disk" where
  "deactivateSlot letter d = (let ((_, r), d1) = withGrubenv (edit_counter id
     (\<lambda>st. st\<lparr>ab_ok := AList.update letter False (ab_ok st), ab_try := AList.update letter False (ab_try st)\<rparr>)) d in (r, d1))"

definition activateSlot :: "string \<Rightarrow> boot_disk \<Rightarrow> (ab_error + unit) \<times> boot_disk" where
  "activateSlot letter d = (let ((_, r), d1) = withGrubenv (edit_counter id
     (\<lambda>st. st\<lparr>ab_order := [letter, if letter = ''A'' then ''B'' else ''A''], ab_ok := AList.update letter True (ab_ok st),
             ab_try := AList.update letter False (ab_try st)\<rparr>)) d in (r, d1))"

definition markRunning :: "bool \<Rightarrow> boot_disk \<Rightarrow> (ab_error + unit) \<times> boot_disk" where
  "markRunning good d = (let (bad, d1) = io d in
     if bad then (Inl AbCmdline, d1)
     else let running = slotLetter (bootedSlotFromCmdline (bd_cmdline d1))
          in if running = [] then (Inl AbRunning, d1)
             else let ((_, r), d2) = withGrubenv (edit_counter (\<lambda>kv. if good then AList.delete (running @ ''_REPAIR'') kv else kv)
                    (\<lambda>st. st\<lparr>ab_ok := AList.update running good (ab_ok st), ab_try := AList.update running False (ab_try st)\<rparr>)) d1
                  in (r, d2))"

definition MarkGood :: "boot_disk \<Rightarrow> (ab_error + unit) \<times> boot_disk" where
  "MarkGood d = markRunning True d"

definition MarkGoodOnBoot :: "boot_disk \<Rightarrow> (ab_error + unit) \<times> boot_disk" where
  "MarkGoodOnBoot d = markRunning True d"

text \<open>The reboot that follows a mark-bad is requested only; a refusal is logged.\<close>

definition MarkBad :: "boot_disk \<Rightarrow> (ab_error + unit) \<times> boot_disk" where
  "MarkBad d = markRunning False d"

section \<open>Install\<close>

definition chunk_bytes :: nat where "chunk_bytes = 1048576"

definition buffers :: "nat \<Rightarrow> nat" where
  "buffers n = (n + chunk_bytes - 1) div chunk_bytes"

lemma buffers_code [code]: "buffers n = nat ((int n + 1048575) div 1048576)"
proof -
  have "int (buffers n) = (int n + 1048575) div 1048576"
    by (simp add: buffers_def chunk_bytes_def zdiv_int)
  then show ?thesis
    by linarith
qed

definition set_slot :: "string \<Rightarrow> string option \<Rightarrow> boot_disk \<Rightarrow> boot_disk" where
  "set_slot dev v d = d\<lparr>bd_slots := AList.update dev v (bd_slots d)\<rparr>"

text \<open>The copy loop with \<open>n\<close> buffers left to write.\<close>

fun write_chunks :: "nat \<Rightarrow> string \<Rightarrow> string \<Rightarrow> boot_disk \<Rightarrow> (ab_error + unit) \<times> boot_disk" where
  "write_chunks n img dev d = (let (cancelled, d1) = io d in
     if cancelled then (Inl AbCancelled, d1)
     else let (bad, d2) = io d1 in
       if bad then (Inl AbRead, d2)
       else case n of
         0 \<Rightarrow> (let (bad, d3) = io d2 in (if bad then Inl AbSync else Inr (), d3))
       | Suc m \<Rightarrow>
           (let (bad, d3) = io (persist (set_slot dev None) d2) in
            if bad then (Inl AbWrite, d3)
            else write_chunks m img dev (persist (set_slot dev (if m = 0 then Some img else None)) d3)))"

definition defaultWriteSlot :: "string \<Rightarrow> string \<Rightarrow> boot_disk \<Rightarrow> (ab_error + unit) \<times> boot_disk" where
  "defaultWriteSlot img dev d =
     (let (bad, d1) = io d in
      if bad then (Inl AbOpen, d1)
      else let (bad, d2) = io d1 in
        if bad then (Inl AbStat, d2)
        else let (bad, d3) = io d2 in
          if bad then (Inl AbOpen, d3)
          else write_chunks (buffers (length img)) img dev d3)"

text \<open>
  \<open>files\<close> are the files of the bundle store, \<open>verify\<close> the check of an artifact against its detached
  signature, \<open>resolve\<close> the device of a slot.
\<close>

definition verifySig :: "(string \<Rightarrow> string \<Rightarrow> bool) \<Rightarrow> (string \<Rightarrow> string option) \<Rightarrow> string \<Rightarrow> bool" where
  "verifySig verify files path = (case (files path, files (path @ ''.sig'')) of
     (Some img, Some sg) \<Rightarrow> verify img sg | _ \<Rightarrow> False)"

definition installedVersion_ab :: "(string \<Rightarrow> string option) \<Rightarrow> string \<Rightarrow> string" where
  "installedVersion_ab files path = (case files (path @ ''.version'') of None \<Rightarrow> [] | Some v \<Rightarrow> trim_space v)"

definition Install :: "(string \<Rightarrow> string \<Rightarrow> bool) \<Rightarrow> (string \<Rightarrow> string option) \<Rightarrow> (string \<Rightarrow> string option) \<Rightarrow> string \<Rightarrow> string
    \<Rightarrow> string \<Rightarrow> string \<Rightarrow> UpdateSlot \<Rightarrow> boot_disk \<Rightarrow> (ab_error + string) \<times> boot_disk" where
  "Install verify files resolve cwd stateDir bundleID localPath targetSlot d =
     (case resolveBundlePath cwd stateDir bundleID localPath ''.rootfs'' of
        Inl e \<Rightarrow> (Inl (AbPath e), d)
      | Inr path \<Rightarrow>
          (let letter = slotLetter targetSlot in
           if letter = [] then (Inl (AbSlot targetSlot), d)
           else if \<not> verifySig verify files path then (Inl AbSignature, d)
           else case resolve letter of
             None \<Rightarrow> (Inl (AbResolve letter), d)
           | Some dev \<Rightarrow> (case deactivateSlot letter d of
               (Inl e, d1) \<Rightarrow> (Inl e, d1)
             | (Inr _, d1) \<Rightarrow> (case files path of
                 None \<Rightarrow> (Inl AbOpen, d1)
               | Some img \<Rightarrow> (case defaultWriteSlot img dev d1 of
                   (Inl e, d2) \<Rightarrow> (Inl e, d2)
                 | (Inr _, d2) \<Rightarrow> (case activateSlot letter d2 of
                     (Inl e, d3) \<Rightarrow> (Inl e, d3)
                   | (Inr _, d3) \<Rightarrow> (Inr (installedVersion_ab files path), d3)))))))"

section \<open>Devices\<close>

definition blockInfoDev :: "string \<Rightarrow> string" where
  "blockInfoDev line = (case go_fields line of [] \<Rightarrow> [] | f # _ \<Rightarrow> trim_suffix '':'' f)"

abbreviation dquote :: char where "dquote \<equiv> CHR 0x22"

definition quoted :: "string \<Rightarrow> string \<Rightarrow> string" where
  "quoted key v = key @ ''='' @ [dquote] @ v @ [dquote]"

definition squashfs_line :: "string \<Rightarrow> string \<times> string \<Rightarrow> string \<times> string" where
  "squashfs_line l st =
     (if \<not> contains_sub (quoted ''TYPE'' ''squashfs'') l then st
      else if contains_sub (quoted ''MOUNT'' ''/rom'') l then (blockInfoDev l, snd st) else (fst st, blockInfoDev l))"

definition parseSquashfsSlots :: "string \<Rightarrow> string \<times> string" where
  "parseSquashfsSlots out = fold squashfs_line (go_split newline out) ([], [])"

fun esp_device :: "string list \<Rightarrow> string \<Rightarrow> string" where
  "esp_device [] legacy = legacy"
| "esp_device (l # ls) legacy =
     (if \<not> contains_sub (quoted ''TYPE'' ''vfat'') l then esp_device ls legacy
      else if contains_sub (quoted ''LABEL'' ''RASPUTINEFI'') l then blockInfoDev l
      else esp_device ls (if contains_sub (quoted ''LABEL'' ''RASPUTIN-FW'') l then blockInfoDev l else legacy))"

definition parseESPDevice :: "string \<Rightarrow> string" where
  "parseESPDevice out = esp_device (go_split newline out) []"

definition defaultResolveDevice :: "string \<Rightarrow> string option \<Rightarrow> string \<Rightarrow> string option" where
  "defaultResolveDevice cmdline info slot =
     (let booted = slotLetter (bootedSlotFromCmdline cmdline) in
      if booted = [] then None
      else case info of
        None \<Rightarrow> None
      | Some out \<Rightarrow>
          (let (active, inactive) = parseSquashfsSlots out in
           if active = [] \<or> inactive = [] then None else Some (if slot = booted then active else inactive)))"

end
