(* ===== verification/Slot_Repair.thy ===== *)
theory Slot_Repair
  imports Slot_Update
begin

text \<open>
  The one-time repair of the firewall's boot files (\<^verbatim>\<open>agent/internal/updater/slotboot.go\<close>): the FAT
  modules a mismatched kernel needs, the two files staged, read back on a fresh mount and renamed
  into place, and the slot re-armed or given up.  \<open>rootfs\<close> are the files of the running root file
  system, \<open>sha\<close> the digest the read-back compares with.
\<close>

section \<open>The FAT modules\<close>

record kernel_env =
  ke_filesystems :: "string option"
  ke_legacy_id :: "string option"
  ke_release :: "string option"
  ke_version :: "string option"
  ke_load :: "string \<Rightarrow> bool"

definition hasFilesystem :: "string \<Rightarrow> string \<Rightarrow> bool" where
  "hasFilesystem ls name \<longleftrightarrow> (\<exists>l \<in> set (go_split newline ls). go_fields l \<noteq> [] \<and> last (go_fields l) = name)"

definition legacyModuleOrder :: "string list" where
  "legacyModuleOrder = [''fat'', ''vfat'', ''nls_cp437'', ''nls_iso8859-1'', ''nls_utf8'']"

definition runningKernelID :: "kernel_env \<Rightarrow> string option" where
  "runningKernelID k = (case (ke_release k, ke_version k) of
     (Some r, Some v) \<Rightarrow> Some (trim_space r @ '' '' @ trim_space v) | _ \<Rightarrow> None)"

text \<open>Whether vfat is there in the end, and the modules that were handed to the kernel.\<close>

fun load_modules :: "(string \<Rightarrow> bool) \<Rightarrow> string list \<Rightarrow> bool \<times> string list" where
  "load_modules load [] = (True, [])"
| "load_modules load (m # ms) =
     (if load m then (let (ok, done) = load_modules load ms in (ok, m # done)) else (False, [m]))"

definition ensureVFAT :: "kernel_env \<Rightarrow> bool \<times> string list" where
  "ensureVFAT k = (case ke_filesystems k of
     None \<Rightarrow> (False, [])
   | Some ls \<Rightarrow>
       if hasFilesystem ls ''vfat'' then (True, [])
       else case ke_legacy_id k of
         None \<Rightarrow> (False, [])
       | Some raw \<Rightarrow> (case runningKernelID k of
           None \<Rightarrow> (False, [])
         | Some running \<Rightarrow>
             (let legacy = trim_space raw in
              if legacy = [] \<or> running \<noteq> legacy then (False, []) else load_modules (ke_load k) legacyModuleOrder)))"

section \<open>The boot files\<close>

record bootFile =
  bf_name :: string
  bf_data :: string

definition staged :: "string \<Rightarrow> string" where
  "staged name = name @ ''.new''"

definition set_esp :: "string \<Rightarrow> string \<Rightarrow> boot_disk \<Rightarrow> boot_disk" where
  "set_esp name data d = d\<lparr>bd_esp := AList.update name data (bd_esp d)\<rparr>"

definition del_esp :: "string \<Rightarrow> boot_disk \<Rightarrow> boot_disk" where
  "del_esp name d = d\<lparr>bd_esp := AList.delete name (bd_esp d)\<rparr>"

definition writeSynced :: "string \<Rightarrow> string \<Rightarrow> boot_disk \<Rightarrow> ab_error option \<times> boot_disk" where
  "writeSynced name data d =
     (let (bad, d1) = io d in
      if bad then (Some AbOpen, d1)
      else let (bad, d2) = io (persist (set_esp name []) d1) in
        if bad then (Some AbWrite, d2)
        else let (bad, d3) = io (persist (set_esp name data) d2) in
          if bad then (Some AbSync, d3) else (let (bad, d4) = io d3 in (if bad then Some AbSync else None, d4)))"

fun stage_files :: "bootFile list \<Rightarrow> boot_disk \<Rightarrow> (ab_error + bootFile list) \<times> boot_disk" where
  "stage_files [] d = (Inr [], d)"
| "stage_files (f # fs) d =
     (let (bad, d1) = io d in
      if bad then (Inl AbRead, d1)
      else if map_of (bd_esp d1) (bf_name f) = Some (bf_data f) then stage_files fs d1
      else case writeSynced (staged (bf_name f)) (bf_data f) d1 of
        (Some e, d2) \<Rightarrow> (Inl e, d2)
      | (None, d2) \<Rightarrow> (case stage_files fs d2 of
          (Inl e, d3) \<Rightarrow> (Inl e, d3) | (Inr diff, d3) \<Rightarrow> (Inr (f # diff), d3)))"

definition remove_one :: "bootFile \<Rightarrow> boot_disk \<Rightarrow> boot_disk" where
  "remove_one f d = (let (bad, d1) = io d in if bad then d1 else persist (del_esp (staged (bf_name f))) d1)"

definition removeStaged :: "bootFile list \<Rightarrow> boot_disk \<Rightarrow> boot_disk" where
  "removeStaged fs d = fold remove_one fs d"

fun read_back :: "(string \<Rightarrow> string) \<Rightarrow> bootFile list \<Rightarrow> boot_disk \<Rightarrow> ab_error option \<times> boot_disk" where
  "read_back sha [] d = (None, d)"
| "read_back sha (f # fs) d =
     (let (bad, d1) = io d in
      case (if bad then None else map_of (bd_esp d1) (staged (bf_name f))) of
        None \<Rightarrow> (Some AbRead, d1)
      | Some got \<Rightarrow> if sha got \<noteq> sha (bf_data f) then (Some AbReadBack, d1) else read_back sha fs d1)"

definition rename_one :: "bootFile \<Rightarrow> boot_disk \<Rightarrow> boot_disk" where
  "rename_one f d = (case map_of (bd_esp d) (staged (bf_name f)) of
     None \<Rightarrow> d | Some v \<Rightarrow> del_esp (staged (bf_name f)) (set_esp (bf_name f) v d))"

fun rename_files :: "bootFile list \<Rightarrow> boot_disk \<Rightarrow> (ab_error + unit) \<times> boot_disk" where
  "rename_files [] d = (Inr (), d)"
| "rename_files (f # fs) d =
     (let (bad, d1) = io d in
      if bad \<or> map_of (bd_esp d1) (staged (bf_name f)) = None then (Inl AbRename, removeStaged (f # fs) d1)
      else let (bad, d2) = io (persist (rename_one f) d1) in
        if bad then (Inl AbSync, d2) else rename_files fs d2)"

definition commitBootFiles :: "(string \<Rightarrow> string) \<Rightarrow> bootFile list \<Rightarrow> boot_disk \<Rightarrow> (ab_error + unit) \<times> boot_disk" where
  "commitBootFiles sha fs d = (case read_back sha fs d of
     (Some e, d1) \<Rightarrow> (Inl e, removeStaged fs d1) | (None, d1) \<Rightarrow> rename_files fs d1)"

definition boot_sources :: "(string \<times> string) list" where
  "boot_sources = [(''boot/bootx64.efi'', ''EFI/BOOT/bootx64.efi''), (''boot/grub.cfg'', ''boot/grub/grub.cfg'')]"

fun want_files :: "(string \<Rightarrow> string option) \<Rightarrow> (string \<times> string) list \<Rightarrow> ab_error + bootFile list" where
  "want_files rootfs [] = Inr []"
| "want_files rootfs ((src, dst) # ps) = (case rootfs src of
     None \<Rightarrow> Inl (AbNoSource src)
   | Some b \<Rightarrow> (case want_files rootfs ps of Inl e \<Rightarrow> Inl e | Inr fs \<Rightarrow> Inr (\<lparr>bf_name = dst, bf_data = b\<rparr> # fs)))"

definition installBootloader :: "(string \<Rightarrow> string) \<Rightarrow> (string \<Rightarrow> string option) \<Rightarrow> boot_disk \<Rightarrow> ab_error option \<times> boot_disk" where
  "installBootloader sha rootfs d = (case want_files rootfs boot_sources of
     Inl e \<Rightarrow> (Some e, d)
   | Inr want \<Rightarrow> (case WithESP (stage_files want) d of
       ((_, Inl e), d1) \<Rightarrow> (Some e, d1)
     | ((_, Inr diff), d1) \<Rightarrow>
         if diff = [] then (None, d1)
         else (case WithESP (commitBootFiles sha diff) d1 of
                 ((_, Inl e), d2) \<Rightarrow> (Some e, d2) | ((_, Inr _), d2) \<Rightarrow> (None, d2))))"

section \<open>The repair\<close>

datatype RepairOutcome = RepairNone | RepairRepaired | RepairFallback

definition editGrubenv :: "((string \<times> string) list \<Rightarrow> (string \<times> string) list option) \<Rightarrow> boot_disk \<Rightarrow> (ab_error + unit) \<times> boot_disk" where
  "editGrubenv edit d = (case readGrubenv d of
     (Inl e, d1) \<Rightarrow> (Inl e, d1)
   | (Inr kv, d1) \<Rightarrow> (case edit kv of None \<Rightarrow> (Inr (), d1) | Some kv' \<Rightarrow> writeGrubenv kv' d1))"

definition fallback :: "string \<Rightarrow> boot_disk \<Rightarrow> RepairOutcome \<times> boot_disk" where
  "fallback slot d = (RepairFallback,
     snd (withGrubenv (editGrubenv (\<lambda>kv. Some (AList.update (slot @ ''_OK'') ''0'' kv))) d))"

definition second_mismatch :: "string \<Rightarrow> (string \<times> string) list \<Rightarrow> (string \<times> string) list option" where
  "second_mismatch slot kv =
     (if kv_get kv (slot @ ''_REPAIR'') \<noteq> ''1'' then None
      else Some (AList.delete (slot @ ''_REPAIR'') (AList.update (slot @ ''_TRY'') ''0'' (AList.update (slot @ ''_OK'') ''0'' kv))))"

definition rearm :: "string \<Rightarrow> (string \<times> string) list \<Rightarrow> (string \<times> string) list option" where
  "rearm slot kv = Some (AList.update (slot @ ''_REPAIR'') ''1'' (AList.update (slot @ ''_TRY'') ''0'' kv))"

text \<open>\<open>again\<close> is read off the block the first edit saw; a read that failed leaves it false.\<close>

definition seen_repair :: "string \<Rightarrow> boot_disk \<Rightarrow> bool" where
  "seen_repair slot d = (case readGrubenv (snd (io d)) of (Inl _, _) \<Rightarrow> False | (Inr kv, _) \<Rightarrow> second_mismatch slot kv \<noteq> None)"

definition repairRunningSlot :: "(string \<Rightarrow> string) \<Rightarrow> (string \<Rightarrow> string option) \<Rightarrow> kernel_env \<Rightarrow> boot_disk \<Rightarrow> RepairOutcome \<times> boot_disk" where
  "repairRunningSlot sha rootfs k d = (let (bad, d1) = io d in
     if bad then (RepairNone, d1)
     else let slot = slotLetter (bootedSlotFromCmdline (bd_cmdline d1)) in
       if slot = [] then (RepairNone, d1)
       else if \<not> fst (ensureVFAT k) then (RepairNone, d1)
       else let ((mounted, r), d2) = withGrubenv (editGrubenv (second_mismatch slot)) d1 in
         if \<not> mounted then (RepairNone, d2)
         else case r of
           Inl e \<Rightarrow> fallback slot d2
         | Inr _ \<Rightarrow>
             if seen_repair slot d1 then (RepairFallback, d2)
             else case installBootloader sha rootfs d2 of
               (Some e, d3) \<Rightarrow> fallback slot d3
             | (None, d3) \<Rightarrow> (case withGrubenv (editGrubenv (rearm slot)) d3 of
                 ((_, Inl e), d4) \<Rightarrow> fallback slot d4
               | ((_, Inr _), d4) \<Rightarrow> (RepairRepaired, d4)))"

end
