(* ===== verification/Slot_Disk.thy ===== *)
theory Slot_Disk
  imports Slot_Repair
begin

text \<open>
  What the operations of the A/B update can do to the disk, whatever call fails and wherever power is
  lost: which parts of it an operation leaves alone, that a block is either the old one or the edited
  one, and which edits can raise a slot's OK flag.
\<close>

section \<open>Calls and writes\<close>

text \<open>A disk that differs only in its environment block, and one that differs only in its faults.\<close>

definition env_only :: "boot_disk \<Rightarrow> boot_disk \<Rightarrow> bool" where
  "env_only d d' \<longleftrightarrow> bd_esp d' = bd_esp d \<and> bd_slots d' = bd_slots d \<and> bd_cmdline d' = bd_cmdline d \<and>
     (bd_power d = 0 \<longrightarrow> bd_power d' = 0 \<and> bd_env d' = bd_env d)"

definition quiet :: "boot_disk \<Rightarrow> boot_disk \<Rightarrow> bool" where
  "quiet d d' \<longleftrightarrow> env_only d d' \<and> bd_env d' = bd_env d \<and> bd_power d' = bd_power d"

lemma io_quiet: "io d = (b, d') \<Longrightarrow> quiet d d'"
  by (auto simp: io_def quiet_def env_only_def split: list.splits)

lemma quiet_refl [simp]: "quiet d d"
  by (simp add: quiet_def env_only_def)

lemma quiet_trans: "quiet a b \<Longrightarrow> quiet b c \<Longrightarrow> quiet a c"
  by (auto simp: quiet_def env_only_def)

lemma env_only_refl [simp]: "env_only d d"
  by (simp add: env_only_def)

lemma env_only_trans: "env_only a b \<Longrightarrow> env_only b c \<Longrightarrow> env_only a c"
  by (auto simp: env_only_def)

section \<open>Edits of the block\<close>

text \<open>
  \<open>edited E r d d'\<close>: the block of \<open>d'\<close> is that of \<open>d\<close>, or its entries are those of \<open>d\<close> after \<open>E\<close>; a
  success with power left means the latter, and nothing but the block changed.
\<close>

definition took :: "((string \<times> string) list \<Rightarrow> (string \<times> string) list) \<Rightarrow> boot_disk \<Rightarrow> boot_disk \<Rightarrow> bool" where
  "took E d d' \<longleftrightarrow> (\<exists>old new. bd_env d = Some old \<and> bd_env d' = Some new \<and>
     map_of (parseGrubenv new) = map_of (E (parseGrubenv old)))"

definition edited :: "((string \<times> string) list \<Rightarrow> (string \<times> string) list) \<Rightarrow> bool \<Rightarrow> boot_disk \<Rightarrow> boot_disk \<Rightarrow> bool" where
  "edited E ok d d' \<longleftrightarrow> env_only d d' \<and> (bd_env d' = bd_env d \<or> took E d d') \<and>
     (ok \<and> bd_power d \<noteq> 0 \<longrightarrow> took E d d')"

lemma edited_quiet_before: "quiet d d1 \<Longrightarrow> edited E ok d1 d2 \<Longrightarrow> edited E ok d d2"
  by (auto simp: edited_def quiet_def took_def intro: env_only_trans)

lemma edited_quiet_after: "edited E ok d d1 \<Longrightarrow> quiet d1 d2 \<Longrightarrow> edited E ok d d2"
  by (auto simp: edited_def quiet_def took_def intro: env_only_trans)

lemma edited_quiet: "quiet d d' \<Longrightarrow> edited E False d d'"
  by (auto simp: edited_def quiet_def)

lemma edited_weaken: "edited E ok d d' \<Longrightarrow> (ok' \<Longrightarrow> ok) \<Longrightarrow> edited E ok' d d'"
  by (auto simp: edited_def)

lemma readGrubenv_cases:
  assumes "readGrubenv d = (r, d')"
  shows "quiet d d'" and "r = Inr kv \<Longrightarrow> \<exists>b. bd_env d = Some b \<and> kv = parseGrubenv b"
proof -
  obtain bad d1 where io: "io d = (bad, d1)"
    by force
  have q: "quiet d d1"
    by (rule io_quiet [OF io])
  show "quiet d d'" "r = Inr kv \<Longrightarrow> \<exists>b. bd_env d = Some b \<and> kv = parseGrubenv b"
    using assms q by (auto simp: readGrubenv_def io quiet_def split: if_splits option.splits)
qed

text \<open>The block written has the length of the old one, so nothing of the old one is left behind it.\<close>

lemma writeGrubenv_edited:
  assumes w: "writeGrubenv kv d = (r, d')" and ok: "env_ok kv"
    and kv: "\<And>b. bd_env d = Some b \<Longrightarrow> map_of kv = map_of (E (parseGrubenv b))"
  shows "edited E (r = Inr ()) d d'"
proof -
  obtain bad d1 where io1: "io d = (bad, d1)"
    by force
  note q1 = io_quiet [OF io1]
  obtain bad2 d2 where io2: "io d1 = (bad2, d2)"
    by force
  note q2 = quiet_trans [OF q1 io_quiet [OF io2]]
  obtain bad3 d3 where io3: "io d2 = (bad3, d3)"
    by force
  note q3 = quiet_trans [OF q2 io_quiet [OF io3]]
  show ?thesis
  proof (cases "bd_env d1")
    case None
    then show ?thesis
      using w q1 by (auto simp: writeGrubenv_def io1 edited_quiet split: if_splits)
  next
    case (Some old)
    define sz where "sz = (if length old < length grubenvSignature then grubenvSize else length old)"
    show ?thesis
    proof (cases "encodeGrubenv kv sz")
      case (Inl e)
      then show ?thesis
        using w q1 Some by (auto simp: writeGrubenv_def io1 Let_def sz_def edited_quiet split: if_splits)
    next
      case (Inr block)
      have len: "length block = sz" and parse: "map_of (parseGrubenv block) = map_of kv"
        using parse_encode [OF ok Inr] by auto
      have "length old \<le> sz"
        by (simp add: sz_def grubenvSize_def grubenvSignature_def)
      with len have none: "drop (length block) old = []"
        by simp
      define d4 where "d4 = persist (\<lambda>x. x\<lparr>bd_env := Some block\<rparr>) d3"
      obtain bad5 d5 where io5: "io d4 = (bad5, d5)"
        by force
      note q5 = io_quiet [OF io5]
      have old: "bd_env d = Some old"
        using Some q1 by (simp add: quiet_def)
      have "edited E True d3 d4"
        using q3 old by (auto simp: d4_def persist_def edited_def env_only_def took_def quiet_def parse kv)
      then have "edited E True d d5"
        using edited_quiet_before [OF q3] edited_quiet_after [OF _ q5] by blast
      then have fin: "edited E (r = Inr ()) d d5"
        by (rule edited_weaken) simp
      show ?thesis
      proof (cases "bad \<or> bad2 \<or> bad3")
        case True
        then show ?thesis
          using w q1 q2 q3 Inr Some
          by (auto simp: writeGrubenv_def io1 io2 io3 Let_def sz_def [symmetric] edited_quiet split: if_splits)
      next
        case False
        then have "d' = d5"
          using w Inr Some none io5 by (simp add: writeGrubenv_def io1 io2 io3 Let_def sz_def [symmetric] d4_def)
        with fin show ?thesis
          by simp
      qed
    qed
  qed
qed

lemma WithESP_edited:
  assumes w: "WithESP fn d = ((mounted, r), d')"
    and fn: "\<And>x r x'. fn x = (r, x') \<Longrightarrow> edited E (r = Inr ()) x x'"
  shows "edited E (r = Inr ()) d d'" and "\<not> mounted \<Longrightarrow> quiet d d'"
proof -
  obtain bad d1 where io1: "io d = (bad, d1)"
    by force
  note q1 = io_quiet [OF io1]
  obtain r2 d2 where f: "fn d1 = (r2, d2)"
    by force
  obtain stuck d3 where io3: "io d2 = (stuck, d3)"
    by force
  note q3 = io_quiet [OF io3]
  have e: "edited E (r2 = Inr ()) d d3"
    using edited_quiet_after [OF edited_quiet_before [OF q1 fn [OF f]] q3] .
  show "edited E (r = Inr ()) d d'"
  proof (cases bad)
    case True
    then show ?thesis
      using w edited_quiet [OF q1, of E] by (auto simp: WithESP_def io1)
  next
    case False
    then show ?thesis
      using w e by (auto simp: WithESP_def io1 f io3 split: sum.splits if_splits intro: edited_weaken)
  qed
  show "\<not> mounted \<Longrightarrow> quiet d d'"
    using w q1 by (auto simp: WithESP_def io1 f io3 split: if_splits)
qed

section \<open>Edits of the counter\<close>

text \<open>The OK flag a block gives a slot.\<close>

definition kv_ok :: "(string \<times> string) list \<Rightarrow> string \<Rightarrow> bool" where
  "kv_ok kv l = flag (ab_ok (decodeAB kv)) l"

definition letters :: "string list" where
  "letters = [''A'', ''B'']"

lemma flag_update [simp]: "flag (AList.update k v fs) l = (if l = k then v else flag fs l)"
  by (simp add: flag_def update_conv')

lemma kv_ok_read:
  "kv_ok kv ''A'' \<longleftrightarrow> kv_get kv ''A_OK'' = ''1'' \<or> map_of kv ''A_OK'' = None \<and> map_of kv ''B_OK'' = None"
  "kv_ok kv ''B'' \<longleftrightarrow> kv_get kv ''B_OK'' = ''1''"
  by (auto simp: kv_ok_def decodeAB_def Let_def flag_def)

lemma kv_ok_cong: "map_of kv = map_of kv' \<Longrightarrow> kv_ok kv l = kv_ok kv' l"
  by (simp add: kv_ok_def decodeAB_def kv_get_def)

lemma kv_ok_encode: "l \<in> set letters \<Longrightarrow> kv_ok (encodeAB kv st) l = flag (ab_ok st) l"
  by (auto simp: letters_def kv_ok_read kv_get_def encodeAB_get b2s_def split: if_splits)

lemma edit_counter_edited:
  assumes e: "edit_counter f g d = (r, d')"
    and f: "\<And>kv. env_ok kv \<Longrightarrow> env_ok (f kv)" and g: "\<And>st. order_ok st \<Longrightarrow> order_ok (g st)"
  shows "edited (\<lambda>kv. encodeAB (f kv) (g (decodeAB kv))) (r = Inr ()) d d'"
proof -
  obtain r1 d1 where rd: "readGrubenv d = (r1, d1)"
    by force
  note q = readGrubenv_cases(1) [OF rd]
  show ?thesis
  proof (cases r1)
    case (Inl x)
    then show ?thesis
      using e q by (auto simp: edit_counter_def rd edited_quiet)
  next
    case (Inr kv)
    then obtain b where b: "bd_env d = Some b" "kv = parseGrubenv b"
      using readGrubenv_cases(2) [OF rd] by blast
    have "env_ok kv"
      using b parse_env_ok by simp
    then have ok: "env_ok (encodeAB (f kv) (g (decodeAB kv)))"
      by (simp add: encodeAB_ok f g decode_order_ok)
    have "writeGrubenv (encodeAB (f kv) (g (decodeAB kv))) d1 = (r, d')"
      using e Inr by (simp add: edit_counter_def rd)
    then have "edited (\<lambda>kv. encodeAB (f kv) (g (decodeAB kv))) (r = Inr ()) d1 d'"
      by (rule writeGrubenv_edited) (use ok b q in \<open>auto simp: quiet_def\<close>)
    then show ?thesis
      by (rule edited_quiet_before [OF q])
  qed
qed

lemma editGrubenv_edited:
  assumes e: "editGrubenv edit d = (r, d')" and f: "\<And>kv kv'. env_ok kv \<Longrightarrow> edit kv = Some kv' \<Longrightarrow> env_ok kv'"
  shows "edited (\<lambda>kv. case edit kv of None \<Rightarrow> kv | Some kv' \<Rightarrow> kv') (r = Inr ()) d d'"
proof -
  obtain r1 d1 where rd: "readGrubenv d = (r1, d1)"
    by force
  note q = readGrubenv_cases(1) [OF rd]
  show ?thesis
  proof (cases r1)
    case (Inl x)
    then show ?thesis
      using e q by (auto simp: editGrubenv_def rd edited_quiet)
  next
    case (Inr kv)
    then obtain b where b: "bd_env d = Some b" "kv = parseGrubenv b"
      using readGrubenv_cases(2) [OF rd] by blast
    show ?thesis
    proof (cases "edit kv")
      case None
      then show ?thesis
        using e q b Inr by (auto simp: editGrubenv_def rd edited_def took_def quiet_def)
    next
      case (Some kv')
      then have "writeGrubenv kv' d1 = (r, d')"
        using e Inr by (simp add: editGrubenv_def rd)
      then have "edited (\<lambda>kv. case edit kv of None \<Rightarrow> kv | Some kv' \<Rightarrow> kv') (r = Inr ()) d1 d'"
        by (rule writeGrubenv_edited) (use Some f [of kv kv'] b q parse_env_ok in \<open>auto simp: quiet_def\<close>)
      then show ?thesis
        by (rule edited_quiet_before [OF q])
    qed
  qed
qed

text \<open>The slots whose OK flag an edit may raise.\<close>

definition arms :: "((string \<times> string) list \<Rightarrow> (string \<times> string) list) \<Rightarrow> string set \<Rightarrow> bool" where
  "arms E S \<longleftrightarrow> (\<forall>kv. \<forall>l \<in> set letters. kv_ok (E kv) l \<longrightarrow> kv_ok kv l \<or> l \<in> S)"

definition deact :: "string \<Rightarrow> (string \<times> string) list \<Rightarrow> (string \<times> string) list" where
  "deact l kv = encodeAB kv ((decodeAB kv)\<lparr>ab_ok := AList.update l False (ab_ok (decodeAB kv)),
     ab_try := AList.update l False (ab_try (decodeAB kv))\<rparr>)"

lemma deact_arms: "arms (deact l) {}" and deact_off: "l \<in> set letters \<Longrightarrow> \<not> kv_ok (deact l kv) l"
  by (auto simp: arms_def deact_def kv_ok_encode) (auto simp: kv_ok_def split: if_splits)

lemma deactivateSlot_edited: "deactivateSlot l d = (r, d') \<Longrightarrow> edited (deact l) (r = Inr ()) d d'"
proof -
  assume a: "deactivateSlot l d = (r, d')"
  let ?g = "\<lambda>st. st\<lparr>ab_ok := AList.update l False (ab_ok st), ab_try := AList.update l False (ab_try st)\<rparr>"
  from a obtain m where "WithESP (edit_counter id ?g) d = ((m, r), d')"
    by (auto simp: deactivateSlot_def withGrubenv_def split: prod.splits)
  then show ?thesis
  proof (rule WithESP_edited(1))
    show "edited (deact l) (r = Inr ()) x x'" if "edit_counter id ?g x = (r, x')" for x r x'
      using edit_counter_edited [OF that] by (simp add: deact_def [abs_def] order_ok_def)
  qed
qed

definition act :: "string \<Rightarrow> (string \<times> string) list \<Rightarrow> (string \<times> string) list" where
  "act l kv = encodeAB kv ((decodeAB kv)\<lparr>ab_order := [l, if l = ''A'' then ''B'' else ''A''],
     ab_ok := AList.update l True (ab_ok (decodeAB kv)), ab_try := AList.update l False (ab_try (decodeAB kv))\<rparr>)"

lemma act_arms: "arms (act l) {l}"
  by (auto simp: arms_def act_def kv_ok_encode) (auto simp: kv_ok_def split: if_splits)

lemma activateSlot_edited:
  assumes "activateSlot l d = (r, d')" "l \<in> set letters"
  shows "edited (act l) (r = Inr ()) d d'"
proof -
  let ?g = "\<lambda>st. st\<lparr>ab_order := [l, if l = ''A'' then ''B'' else ''A''], ab_ok := AList.update l True (ab_ok st),
             ab_try := AList.update l False (ab_try st)\<rparr>"
  from assms(1) obtain m where "WithESP (edit_counter id ?g) d = ((m, r), d')"
    by (auto simp: activateSlot_def withGrubenv_def split: prod.splits)
  then show ?thesis
  proof (rule WithESP_edited(1))
    show "edited (act l) (r = Inr ()) x x'" if "edit_counter id ?g x = (r, x')" for x r x'
      using edit_counter_edited [OF that] assms(2) by (auto simp: act_def [abs_def] order_ok_def letters_def)
  qed
qed

definition mark :: "bool \<Rightarrow> string \<Rightarrow> (string \<times> string) list \<Rightarrow> (string \<times> string) list" where
  "mark good l kv = encodeAB (if good then AList.delete (l @ ''_REPAIR'') kv else kv)
     ((decodeAB kv)\<lparr>ab_ok := AList.update l good (ab_ok (decodeAB kv)), ab_try := AList.update l False (ab_try (decodeAB kv))\<rparr>)"

lemma mark_arms: "arms (mark good l) {l}"
  by (auto simp: arms_def mark_def kv_ok_encode) (auto simp: kv_ok_def split: if_splits)

definition running :: "boot_disk \<Rightarrow> string" where
  "running d = slotLetter (bootedSlotFromCmdline (bd_cmdline d))"

lemma markRunning_edited:
  assumes "markRunning good d = (r, d')"
  shows "edited (mark good (running d)) (r = Inr ()) d d'"
proof -
  obtain bad d1 where io1: "io d = (bad, d1)"
    by force
  note q1 = io_quiet [OF io1]
  then have run: "running d1 = running d"
    by (simp add: running_def quiet_def env_only_def)
  let ?l = "running d"
  let ?f = "\<lambda>kv. if good then AList.delete (?l @ ''_REPAIR'') kv else kv"
  let ?g = "\<lambda>st. st\<lparr>ab_ok := AList.update ?l good (ab_ok st), ab_try := AList.update ?l False (ab_try st)\<rparr>"
  show ?thesis
  proof (cases "bad \<or> ?l = []")
    case True
    then show ?thesis
      using assms q1 run by (auto simp: markRunning_def io1 running_def edited_quiet Let_def split: if_splits)
  next
    case False
    then obtain m where "WithESP (edit_counter ?f ?g) d1 = ((m, r), d')"
      using assms unfolding markRunning_def io1 withGrubenv_def Let_def case_prod_conv running_def [symmetric] run
      by (auto simp: Let_def split: prod.splits)
    then have "edited (mark good ?l) (r = Inr ()) d1 d'"
    proof (rule WithESP_edited(1))
      show "edited (mark good ?l) (r = Inr ()) x x'" if "edit_counter ?f ?g x = (r, x')" for x r x'
        using edit_counter_edited [OF that] by (auto simp: mark_def [abs_def] order_ok_def env_ok_delete)
    qed
    then show ?thesis
      by (rule edited_quiet_before [OF q1])
  qed
qed

end
