(* ===== verification/Slot_Sound.thy ===== *)
theory Slot_Sound
  imports Slot_Disk
begin

text \<open>
  The slots of the firewall's disk: what a slot write and a repair leave alone, and that the slots
  GRUB may boot hold whole images of the publisher, over every operation of the backend.
\<close>

section \<open>Writing a slot\<close>

definition slot_only :: "string \<Rightarrow> boot_disk \<Rightarrow> boot_disk \<Rightarrow> bool" where
  "slot_only dev d d' \<longleftrightarrow> bd_env d' = bd_env d \<and> bd_cmdline d' = bd_cmdline d \<and>
     (\<forall>v. v \<noteq> dev \<longrightarrow> map_of (bd_slots d') v = map_of (bd_slots d) v) \<and>
     (bd_power d = 0 \<longrightarrow> bd_power d' = 0 \<and> bd_slots d' = bd_slots d)"

lemma slot_only_quiet: "quiet d d' \<Longrightarrow> slot_only dev d d'"
  by (simp add: slot_only_def quiet_def env_only_def)

lemma slot_only_trans: "slot_only dev a b \<Longrightarrow> slot_only dev b c \<Longrightarrow> slot_only dev a c"
  by (auto simp: slot_only_def)

lemma slot_only_set: "slot_only dev d (persist (set_slot dev v) d)"
  by (auto simp: slot_only_def persist_def set_slot_def update_conv')

text \<open>A write that reports success with power left has put the whole image there.\<close>

lemma write_chunks_slot:
  assumes "write_chunks n img dev d = (r, d')"
  shows "slot_only dev d d' \<and>
     (r = Inr () \<and> bd_power d' \<noteq> 0 \<longrightarrow> map_of (bd_slots d') dev = (if n = 0 then map_of (bd_slots d) dev else Some (Some img)))"
  using assms
proof (induction n arbitrary: d r d')
  case 0
  obtain b1 d1 where io1: "io d = (b1, d1)" by force
  obtain b2 d2 where io2: "io d1 = (b2, d2)" by force
  obtain b3 d3 where io3: "io d2 = (b3, d3)" by force
  note q1 = io_quiet [OF io1] and q2 = io_quiet [OF io2] and q3 = io_quiet [OF io3]
  have "quiet d d1" "quiet d d2" "quiet d d3"
    using q1 q2 q3 quiet_trans by blast+
  moreover have "d' = d1 \<or> d' = d2 \<or> d' = d3"
    using 0 by (auto simp: io1 io2 io3 Let_def split: if_splits)
  ultimately have "quiet d d'"
    by auto
  then show ?case
    by (simp add: slot_only_quiet) (simp add: quiet_def env_only_def)
next
  case (Suc n)
  obtain b1 d1 where io1: "io d = (b1, d1)" by force
  obtain b2 d2 where io2: "io d1 = (b2, d2)" by force
  obtain b3 d3 where io3: "io (persist (set_slot dev None) d2) = (b3, d3)" by force
  define d4 where "d4 = persist (set_slot dev (if n = 0 then Some img else None)) d3"
  have s2: "slot_only dev d d2" and s1: "slot_only dev d d1"
    using io_quiet [OF io1] io_quiet [OF io2] slot_only_quiet slot_only_trans by blast+
  have s3: "slot_only dev d d3"
    using s2 slot_only_set io_quiet [OF io3] slot_only_quiet slot_only_trans by blast
  have s4: "slot_only dev d d4"
    unfolding d4_def using s3 slot_only_set slot_only_trans by blast
  show ?case
  proof (cases "b1 \<or> b2 \<or> b3")
    case True
    then have "r \<noteq> Inr () \<and> (d' = d1 \<or> d' = d2 \<or> d' = d3)"
      using Suc.prems by (auto simp: io1 io2 io3 Let_def split: if_splits)
    with s1 s2 s3 show ?thesis
      by auto
  next
    case False
    then have w: "write_chunks n img dev d4 = (r, d')"
      using Suc.prems by (simp add: io1 io2 io3 Let_def d4_def)
    note IH = Suc.IH [OF w]
    have "map_of (bd_slots d') dev = Some (Some img)" if "r = Inr ()" "bd_power d' \<noteq> 0"
    proof (cases n)
      case 0
      have "bd_power d4 \<noteq> 0"
        using IH that(2) by (auto simp: slot_only_def)
      then have "map_of (bd_slots d4) dev = Some (Some img)"
        by (auto simp: 0 d4_def persist_def set_slot_def update_conv' split: if_splits)
      with IH that 0 show ?thesis
        by simp
    next
      case (Suc m)
      with IH that show ?thesis
        by simp
    qed
    with IH s4 show ?thesis
      using slot_only_trans by auto
  qed
qed

lemma defaultWriteSlot_slot:
  assumes w: "defaultWriteSlot img dev d = (r, d')" and ne: "img \<noteq> []"
  shows "slot_only dev d d'" and "r = Inr () \<Longrightarrow> bd_power d' \<noteq> 0 \<Longrightarrow> map_of (bd_slots d') dev = Some (Some img)"
proof -
  obtain b1 d1 where io1: "io d = (b1, d1)" by force
  obtain b2 d2 where io2: "io d1 = (b2, d2)" by force
  obtain b3 d3 where io3: "io d2 = (b3, d3)" by force
  have q: "quiet d d1" "quiet d d2" "quiet d d3"
    using io_quiet [OF io1] io_quiet [OF io2] io_quiet [OF io3] quiet_trans by blast+
  let ?n = "buffers (length img)"
  have "chunk_bytes \<le> length img + chunk_bytes - 1" "0 < chunk_bytes"
    using ne by (cases img; simp add: chunk_bytes_def)+
  then have n: "?n \<noteq> 0"
    by (simp add: buffers_def div_eq_0_iff)
  have "slot_only dev d d' \<and> (r = Inr () \<and> bd_power d' \<noteq> 0 \<longrightarrow> map_of (bd_slots d') dev = Some (Some img))"
  proof (cases "b1 \<or> b2 \<or> b3")
    case True
    then have "r \<noteq> Inr () \<and> (d' = d1 \<or> d' = d2 \<or> d' = d3)"
      using w by (auto simp: defaultWriteSlot_def io1 io2 io3 Let_def split: if_splits)
    with q show ?thesis
      by (auto simp: slot_only_quiet)
  next
    case False
    then have "write_chunks ?n img dev d3 = (r, d')"
      using w by (simp add: defaultWriteSlot_def io1 io2 io3 Let_def del: write_chunks.simps)
    from write_chunks_slot [OF this] have s: "slot_only dev d3 d'"
      and i: "r = Inr () \<Longrightarrow> bd_power d' \<noteq> 0 \<Longrightarrow> map_of (bd_slots d') dev = Some (Some img)"
      using n by (simp_all only: if_False simp_thms)
    then show ?thesis
      using slot_only_trans [OF slot_only_quiet [OF q(3)] s] by blast
  qed
  then show "slot_only dev d d'" "r = Inr () \<Longrightarrow> bd_power d' \<noteq> 0 \<Longrightarrow> map_of (bd_slots d') dev = Some (Some img)"
    by auto
qed

section \<open>Sound slots\<close>

text \<open>
  \<open>genuine\<close> are the images of the publisher.  A slot is bootable when the block's OK flag says so; it
  is sound when its device holds a whole genuine image.
\<close>

definition bootable :: "boot_disk \<Rightarrow> string \<Rightarrow> bool" where
  "bootable d l = (case bd_env d of None \<Rightarrow> False | Some b \<Rightarrow> kv_ok (parseGrubenv b) l)"

definition holds :: "(string \<Rightarrow> bool) \<Rightarrow> (string \<Rightarrow> string option) \<Rightarrow> boot_disk \<Rightarrow> string \<Rightarrow> bool" where
  "holds genuine resolve d l = (case resolve l of None \<Rightarrow> False
     | Some dev \<Rightarrow> (case map_of (bd_slots d) dev of Some (Some img) \<Rightarrow> genuine img | _ \<Rightarrow> False))"

definition slots_sound :: "(string \<Rightarrow> bool) \<Rightarrow> (string \<Rightarrow> string option) \<Rightarrow> boot_disk \<Rightarrow> bool" where
  "slots_sound genuine resolve d \<longleftrightarrow> (\<forall>l \<in> set letters. bootable d l \<or> running d = l \<longrightarrow> holds genuine resolve d l)"

lemma holds_cong: "bd_slots d' = bd_slots d \<Longrightarrow> holds genuine resolve d' l = holds genuine resolve d l"
  unfolding holds_def by (rule arg_cong [where f = "\<lambda>m. case resolve l of None \<Rightarrow> False
     | Some dev \<Rightarrow> (case map_of m dev of Some (Some img) \<Rightarrow> genuine img | _ \<Rightarrow> False)"])

lemma took_bootable:
  assumes "took E d d'"
  obtains old where "bd_env d = Some old" "\<And>l. bootable d' l = kv_ok (E (parseGrubenv old)) l"
proof -
  from assms obtain old new where b: "bd_env d = Some old" "bd_env d' = Some new"
    and m: "map_of (parseGrubenv new) = map_of (E (parseGrubenv old))"
    unfolding took_def by blast
  show thesis
  proof (rule that)
    show "bd_env d = Some old"
      by (rule b(1))
    show "bootable d' l = kv_ok (E (parseGrubenv old)) l" for l
      using kv_ok_cong [OF m, of l] by (simp add: bootable_def b(2))
  qed
qed

lemma edited_sound:
  assumes e: "edited E ok d d'" and a: "arms E S" and s: "slots_sound genuine resolve d"
    and h: "\<And>l. l \<in> S \<Longrightarrow> bd_power d \<noteq> 0 \<Longrightarrow> l \<in> set letters \<Longrightarrow> holds genuine resolve d l"
  shows "slots_sound genuine resolve d'"
proof -
  have same: "bd_slots d' = bd_slots d" "running d' = running d"
    using e by (simp_all add: edited_def env_only_def running_def)
  have b: "bootable d l \<or> l \<in> S \<and> bd_power d \<noteq> 0" if "bootable d' l" "l \<in> set letters" for l
  proof (cases "bd_env d' = bd_env d")
    case True
    with that show ?thesis
      by (simp add: bootable_def)
  next
    case False
    then have t: "took E d d'" and p: "bd_power d \<noteq> 0"
      using e by (auto simp: edited_def env_only_def)
    from t obtain old where o: "bd_env d = Some old" and k: "\<And>l. bootable d' l = kv_ok (E (parseGrubenv old)) l"
      by (rule took_bootable) blast
    have "kv_ok (E (parseGrubenv old)) l"
      using that(1) k by simp
    then have "kv_ok (parseGrubenv old) l \<or> l \<in> S"
      using a that(2) by (auto simp: arms_def)
    with p show ?thesis
      by (auto simp: bootable_def o)
  qed
  show ?thesis
    unfolding slots_sound_def holds_cong [OF same(1)] same(2)
    using b s h by (auto simp: slots_sound_def)
qed

lemma slot_write_sound:
  assumes w: "slot_only dev d d'" and off: "bd_power d = 0 \<or> \<not> bootable d l" and l: "resolve l = Some dev" "running d \<noteq> l"
    and inj: "\<And>k k'. k \<in> set letters \<Longrightarrow> k' \<in> set letters \<Longrightarrow> resolve k = resolve k' \<Longrightarrow> k = k'" and "l \<in> set letters"
    and s: "slots_sound genuine resolve d"
  shows "slots_sound genuine resolve d'"
proof (cases "bd_power d = 0")
  case True
  then have same: "bd_slots d' = bd_slots d" "bd_env d' = bd_env d" "bd_cmdline d' = bd_cmdline d"
    using w by (simp_all add: slot_only_def)
  then have "bootable d' = bootable d" "running d' = running d"
    by (simp_all add: bootable_def running_def fun_eq_iff)
  then show ?thesis
    using s unfolding slots_sound_def holds_cong [OF same(1)] by simp
next
  case False
  have same: "bootable d' k = bootable d k" "running d' = running d" for k
    using w by (simp_all add: slot_only_def bootable_def running_def)
  have h: "holds genuine resolve d' k = holds genuine resolve d k" if "k \<in> set letters" "k \<noteq> l" for k
  proof (cases "resolve k")
    case (Some v)
    then have "v \<noteq> dev"
      using inj [OF that(1) \<open>l \<in> set letters\<close>] l that(2) by auto
    then show ?thesis
      using w Some by (simp add: holds_def slot_only_def)
  qed (simp add: holds_def)
  show ?thesis
    using s off l(2) False h unfolding slots_sound_def same by metis
qed

section \<open>Install and the marks\<close>

lemma slotLetter_letters: "slotLetter s \<noteq> [] \<Longrightarrow> slotLetter s \<in> set letters"
  by (auto simp: slotLetter_def letters_def split: if_splits)

lemma Install_sound:
  assumes s: "slots_sound genuine resolve d"
    and sig: "\<And>img sg. verify img sg \<Longrightarrow> genuine img" and ne: "\<not> genuine []"
    and inj: "\<And>k k'. k \<in> set letters \<Longrightarrow> k' \<in> set letters \<Longrightarrow> resolve k = resolve k' \<Longrightarrow> k = k'"
    and target: "slotLetter target \<noteq> running d"
  shows "slots_sound genuine resolve (snd (Install verify files resolve cwd stateDir bid localPath target d))"
proof (cases "\<exists>path dev. resolveBundlePath cwd stateDir bid localPath ''.rootfs'' = Inr path \<and>
    slotLetter target \<noteq> [] \<and> verifySig verify files path \<and> resolve (slotLetter target) = Some dev")
  case False
  then show ?thesis
    using s by (auto simp: Install_def Let_def split: sum.split option.split)
next
  case True
  then obtain path dev where path: "resolveBundlePath cwd stateDir bid localPath ''.rootfs'' = Inr path"
    and l0: "slotLetter target \<noteq> []" and v: "verifySig verify files path" and dev: "resolve (slotLetter target) = Some dev"
    by blast
  let ?l = "slotLetter target"
  have l: "?l \<in> set letters"
    by (rule slotLetter_letters [OF l0])
  from v obtain img where img: "files path = Some img" and g: "genuine img"
    by (auto simp: verifySig_def sig split: option.splits)
  then have "img \<noteq> []"
    using ne by auto
  obtain r1 d1 where deact: "deactivateSlot ?l d = (r1, d1)" by force
  obtain r2 d2 where wr: "defaultWriteSlot img dev d1 = (r2, d2)" by force
  obtain r3 d3 where act: "activateSlot ?l d2 = (r3, d3)" by force
  note e1 = deactivateSlot_edited [OF deact]
  note w = defaultWriteSlot_slot [OF wr \<open>img \<noteq> []\<close>]
  note e3 = activateSlot_edited [OF act l]
  have s1: "slots_sound genuine resolve d1"
    by (rule edited_sound [OF e1 deact_arms s]) simp
  have run: "running d1 \<noteq> ?l"
    using e1 target by (auto simp: edited_def env_only_def running_def)
  have off: "bd_power d1 = 0 \<or> \<not> bootable d1 ?l" if "r1 = Inr ()"
  proof (cases "bd_power d = 0")
    case True
    then show ?thesis
      using e1 by (simp add: edited_def env_only_def)
  next
    case False
    then have "took (deact ?l) d d1"
      using e1 that by (simp add: edited_def)
    then show ?thesis
      using deact_off [OF l] by (auto elim: took_bootable)
  qed
  have s2: "slots_sound genuine resolve d2" if "r1 = Inr ()"
    by (rule slot_write_sound [OF w(1) off [OF that] dev run _ l s1]) (rule inj)
  have "holds genuine resolve d2 ?l" if "r2 = Inr ()" "bd_power d2 \<noteq> 0"
    using w(2) [OF that] dev g by (simp add: holds_def)
  then have s3: "slots_sound genuine resolve d3" if "r1 = Inr ()" "r2 = Inr ()"
    using edited_sound [OF e3 act_arms s2 [OF that(1)]] that(2) by blast
  have "snd (Install verify files resolve cwd stateDir bid localPath target d) =
      (case r1 of Inl _ \<Rightarrow> d1 | Inr _ \<Rightarrow> (case r2 of Inl _ \<Rightarrow> d2 | Inr _ \<Rightarrow> d3))"
    by (simp add: Install_def Let_def path l0 v dev deact img wr act split: sum.split)
  then show ?thesis
    using s1 s2 s3 by (auto split: sum.split)
qed

lemma markRunning_sound:
  assumes s: "slots_sound genuine resolve d"
  shows "slots_sound genuine resolve (snd (markRunning good d))"
proof -
  obtain r d' where m: "markRunning good d = (r, d')" by force
  have "slots_sound genuine resolve d'"
    by (rule edited_sound [OF markRunning_edited [OF m] mark_arms s]) (use s in \<open>auto simp: slots_sound_def\<close>)
  then show ?thesis
    by (simp add: m)
qed

section \<open>The repair\<close>

definition esp_only :: "boot_disk \<Rightarrow> boot_disk \<Rightarrow> bool" where
  "esp_only d d' \<longleftrightarrow> bd_env d' = bd_env d \<and> bd_slots d' = bd_slots d \<and> bd_cmdline d' = bd_cmdline d \<and>
     (bd_power d = 0 \<longrightarrow> bd_power d' = 0 \<and> bd_esp d' = bd_esp d)"

lemma esp_only_refl [simp]: "esp_only d d"
  by (simp add: esp_only_def)

lemma esp_only_trans: "esp_only a b \<Longrightarrow> esp_only b c \<Longrightarrow> esp_only a c"
  by (auto simp: esp_only_def)

lemma esp_only_io: "io d = (b, d') \<Longrightarrow> esp_only d d'"
  using io_quiet by (fastforce simp: esp_only_def quiet_def env_only_def)

lemma esp_only_persist:
  "esp_only d (persist (set_esp n v) d)" "esp_only d (persist (del_esp n) d)" "esp_only d (persist (rename_one f) d)"
  by (auto simp: esp_only_def persist_def set_esp_def del_esp_def rename_one_def split: option.split)

lemmas esp_only_intros = esp_only_io esp_only_persist esp_only_trans

lemma WithESP_only:
  assumes "WithESP fn d = ((m, r), d')" "\<And>x r x'. fn x = (r, x') \<Longrightarrow> esp_only x x'"
  shows "esp_only d d'"
proof -
  obtain b d1 where io1: "io d = (b, d1)" by force
  obtain r2 d2 where f: "fn d1 = (r2, d2)" by force
  obtain b3 d3 where io3: "io d2 = (b3, d3)" by force
  have "d' = d1 \<or> d' = d3"
    using assms(1) by (auto simp: WithESP_def io1 f io3 split: if_splits)
  moreover have "esp_only d d1"
    by (rule esp_only_io [OF io1])
  moreover have "esp_only d1 d3"
    using assms(2) [OF f] esp_only_io [OF io3] esp_only_trans by blast
  ultimately show ?thesis
    using esp_only_trans by blast
qed

lemma writeSynced_only: "writeSynced n v d = (r, d') \<Longrightarrow> esp_only d d'"
proof -
  assume a: "writeSynced n v d = (r, d')"
  obtain b1 d1 where io1: "io d = (b1, d1)" by force
  obtain b2 d2 where io2: "io (persist (set_esp n []) d1) = (b2, d2)" by force
  obtain b3 d3 where io3: "io (persist (set_esp n v) d2) = (b3, d3)" by force
  obtain b4 d4 where io4: "io d3 = (b4, d4)" by force
  have "esp_only d d1" by (rule esp_only_io [OF io1])
  moreover have "esp_only d1 d2" using esp_only_intros(2,5) esp_only_io [OF io2] by blast
  moreover have "esp_only d2 d3" using esp_only_intros(2,5) esp_only_io [OF io3] by blast
  moreover have "esp_only d3 d4" by (rule esp_only_io [OF io4])
  ultimately have "esp_only d d1" "esp_only d d2" "esp_only d d3" "esp_only d d4"
    using esp_only_trans by blast+
  moreover have "d' = d1 \<or> d' = d2 \<or> d' = d3 \<or> d' = d4"
    using a by (auto simp: writeSynced_def io1 io2 io3 io4 Let_def split: if_splits)
  ultimately show ?thesis
    by auto
qed

lemma stage_files_only: "stage_files fs d = (r, d') \<Longrightarrow> esp_only d d'"
proof (induction fs arbitrary: d r d')
  case (Cons f fs)
  obtain b1 d1 where io1: "io d = (b1, d1)" by force
  note q = esp_only_io [OF io1]
  obtain e d2 where w: "writeSynced (staged (bf_name f)) (bf_data f) d1 = (e, d2)" by force
  obtain r3 d3 where rest: "stage_files fs d2 = (r3, d3)" by force
  have 2: "esp_only d d2"
    using q writeSynced_only [OF w] esp_only_trans by blast
  then have 3: "esp_only d d3"
    using Cons.IH [OF rest] esp_only_trans by blast
  show ?case
  proof (cases "b1 \<or> map_of (bd_esp d1) (bf_name f) = Some (bf_data f)")
    case True
    then show ?thesis
      using Cons.prems Cons.IH [of d1 r d'] q esp_only_trans [OF q] by (cases b1) (simp_all add: io1)
  next
    case False
    then have "d' = d2 \<or> d' = d3"
      using Cons.prems by (auto simp: io1 w rest split: option.splits sum.splits)
    with 2 3 show ?thesis
      by auto
  qed
qed simp

lemma removeStaged_only: "esp_only d (removeStaged fs d)"
proof (induction fs arbitrary: d)
  case (Cons f fs)
  have "esp_only d (remove_one f d)"
    using esp_only_persist(2) esp_only_io esp_only_trans by (fastforce simp: remove_one_def Let_def split: prod.split)
  then show ?case
    using Cons.IH [of "remove_one f d"] esp_only_trans by (auto simp: removeStaged_def)
qed (simp add: removeStaged_def)

lemma read_back_only: "read_back sha fs d = (r, d') \<Longrightarrow> esp_only d d'"
proof (induction fs arbitrary: d r d')
  case (Cons f fs)
  obtain b1 d1 where io1: "io d = (b1, d1)" by force
  then show ?case
    using Cons esp_only_io [OF io1] esp_only_trans by (auto simp: io1 split: option.splits if_splits)
qed simp

lemma rename_files_only: "rename_files fs d = (r, d') \<Longrightarrow> esp_only d d'"
proof (induction fs arbitrary: d r d')
  case (Cons f fs)
  obtain b1 d1 where io1: "io d = (b1, d1)" by force
  obtain b2 d2 where io2: "io (persist (rename_one f) d1) = (b2, d2)" by force
  note q1 = esp_only_io [OF io1]
  have q2: "esp_only d d2"
    using q1 esp_only_persist(3) esp_only_io [OF io2] esp_only_trans by blast
  show ?case
  proof (cases "b1 \<or> map_of (bd_esp d1) (staged (bf_name f)) = None")
    case True
    then show ?thesis
      using Cons.prems q1 removeStaged_only esp_only_trans by (auto simp: io1)
  next
    case False
    then show ?thesis
      using Cons.prems Cons.IH [of d2 r d'] q2 esp_only_trans by (auto simp: io1 io2 split: if_splits)
  qed
qed simp

lemma commitBootFiles_only: "commitBootFiles sha fs d = (r, d') \<Longrightarrow> esp_only d d'"
  using read_back_only rename_files_only removeStaged_only esp_only_trans
  by (fastforce simp: commitBootFiles_def split: prod.splits option.splits)

lemma installBootloader_only:
  assumes "installBootloader sha rootfs d = (r, d')"
  shows "esp_only d d'"
proof (cases "want_files rootfs boot_sources")
  case (Inl e)
  with assms show ?thesis
    by (simp add: installBootloader_def)
next
  case (Inr want)
  obtain m1 r1 d1 where st: "WithESP (stage_files want) d = ((m1, r1), d1)" by (metis surj_pair)
  have 1: "esp_only d d1"
    by (rule WithESP_only [OF st]) (rule stage_files_only)
  show ?thesis
  proof (cases "\<exists>fs. r1 = Inr fs \<and> fs \<noteq> []")
    case False
    then show ?thesis
      using assms Inr 1 by (auto simp: installBootloader_def st split: sum.splits)
  next
    case True
    then obtain fs where fs: "r1 = Inr fs" "fs \<noteq> []" by blast
    obtain m2 r2 d2 where co: "WithESP (commitBootFiles sha fs) d1 = ((m2, r2), d2)" by (metis surj_pair)
    have "esp_only d1 d2"
      by (rule WithESP_only [OF co]) (rule commitBootFiles_only)
    moreover have "d' = d2"
      using assms Inr fs co by (auto simp: installBootloader_def st split: sum.splits)
    ultimately show ?thesis
      using 1 esp_only_trans by blast
  qed
qed

lemma esp_only_sound: "esp_only d d' \<Longrightarrow> slots_sound genuine resolve d \<Longrightarrow> slots_sound genuine resolve d'"
proof -
  assume a: "esp_only d d'" and s: "slots_sound genuine resolve d"
  then have "bd_slots d' = bd_slots d" "bootable d' = bootable d" "running d' = running d"
    by (simp_all add: esp_only_def bootable_def running_def fun_eq_iff)
  then show ?thesis
    using s holds_cong unfolding slots_sound_def by metis
qed

definition lower :: "string \<Rightarrow> (string \<times> string) list \<Rightarrow> (string \<times> string) list option" where
  "lower slot kv = Some (AList.update (slot @ ''_OK'') ''0'' kv)"

definition eval_edit :: "((string \<times> string) list \<Rightarrow> (string \<times> string) list option) \<Rightarrow> (string \<times> string) list \<Rightarrow> (string \<times> string) list" where
  "eval_edit edit kv = (case edit kv of None \<Rightarrow> kv | Some kv' \<Rightarrow> kv')"

lemmas repair_edit_defs = lower_def second_mismatch_def rearm_def

lemma repair_edits_ok:
  assumes "slot \<in> set letters" "env_ok kv"
  shows "lower slot kv = Some kv' \<Longrightarrow> env_ok kv'" "second_mismatch slot kv = Some kv' \<Longrightarrow> env_ok kv'"
    "rearm slot kv = Some kv' \<Longrightarrow> env_ok kv'"
  using assms
  by (auto simp: repair_edit_defs letters_def env_key_def split: if_splits intro!: env_ok_update env_ok_delete)

lemma repair_edits_arm:
  assumes "slot \<in> set letters"
  shows "arms (eval_edit (lower slot)) {}" "arms (eval_edit (second_mismatch slot)) {}" "arms (eval_edit (rearm slot)) {}"
  using assms
  by (auto simp: arms_def eval_edit_def repair_edit_defs letters_def kv_ok_read kv_get_def update_conv' delete_conv' restrict_map_def
      split: if_splits)

lemma withGrubenv_edit:
  assumes w: "withGrubenv (editGrubenv edit) d = ((m, r), d')"
    and ok: "\<And>kv kv'. env_ok kv \<Longrightarrow> edit kv = Some kv' \<Longrightarrow> env_ok kv'"
  shows "edited (eval_edit edit) (r = Inr ()) d d'"
  using w unfolding withGrubenv_def
proof (rule WithESP_edited(1))
  show "edited (eval_edit edit) (r = Inr ()) x x'" if "editGrubenv edit x = (r, x')" for x r x'
    using editGrubenv_edited [OF that ok] by (simp add: eval_edit_def [abs_def])
qed

lemma edit_sound:
  assumes "withGrubenv (editGrubenv edit) d = ((m, r), d')" "\<And>kv kv'. env_ok kv \<Longrightarrow> edit kv = Some kv' \<Longrightarrow> env_ok kv'"
    "arms (eval_edit edit) {}" "slots_sound genuine resolve d"
  shows "slots_sound genuine resolve d'"
  by (rule edited_sound [OF withGrubenv_edit [OF assms(1,2)] assms(3,4)]) simp_all

lemma fallback_sound:
  assumes "slot \<in> set letters" "slots_sound genuine resolve d"
  shows "slots_sound genuine resolve (snd (fallback slot d))"
proof -
  obtain m r d' where w: "withGrubenv (editGrubenv (lower slot)) d = ((m, r), d')" by (metis surj_pair)
  have "slots_sound genuine resolve d'"
    by (rule edit_sound [OF w repair_edits_ok(1) [OF assms(1)] repair_edits_arm(1) [OF assms(1)] assms(2)])
  then show ?thesis
    using w unfolding fallback_def lower_def [abs_def] by (simp only: prod.sel)
qed

lemma repair_sound:
  assumes s: "slots_sound genuine resolve d"
  shows "slots_sound genuine resolve (snd (repairRunningSlot sha rootfs k d))"
proof -
  obtain b d1 where io1: "io d = (b, d1)" by force
  have s1: "slots_sound genuine resolve d1"
    using esp_only_sound [OF esp_only_io [OF io1]] s .
  define slot where "slot = slotLetter (bootedSlotFromCmdline (bd_cmdline d1))"
  show ?thesis
  proof (cases "b \<or> slot = [] \<or> \<not> fst (ensureVFAT k)")
    case True
    then show ?thesis
      using s1 by (auto simp: repairRunningSlot_def io1 Let_def slot_def)
  next
    case False
    then have l: "slot \<in> set letters"
      using slotLetter_letters by (simp add: slot_def)
    obtain m r d2 where w: "withGrubenv (editGrubenv (second_mismatch slot)) d1 = ((m, r), d2)" by (metis surj_pair)
    have s2: "slots_sound genuine resolve d2"
      by (rule edit_sound [OF w repair_edits_ok(2) [OF l] repair_edits_arm(2) [OF l] s1])
    obtain e d3 where i: "installBootloader sha rootfs d2 = (e, d3)" by force
    have s3: "slots_sound genuine resolve d3"
      using esp_only_sound [OF installBootloader_only [OF i]] s2 .
    obtain m4 r4 d4 where w4: "withGrubenv (editGrubenv (rearm slot)) d3 = ((m4, r4), d4)" by (metis surj_pair)
    have s4: "slots_sound genuine resolve d4"
      by (rule edit_sound [OF w4 repair_edits_ok(3) [OF l] repair_edits_arm(3) [OF l] s3])
    note f = fallback_sound [OF l]
    show ?thesis
      using False s2 s4 f [OF s2] f [OF s3] f [OF s4]
      by (auto simp: repairRunningSlot_def io1 Let_def slot_def [symmetric] w i w4 split: sum.split option.split)
  qed
qed

section \<open>Steps of the node\<close>

text \<open>
  One operation of the agent, or a boot.  The calls that fail are chosen anew for each operation; a boot
  chooses how many writes reach the disk before power is lost.  GRUB boots a slot whose OK flag is set
  and may rewrite that slot's TRY flag.
\<close>

inductive ab_step :: "(string \<Rightarrow> string \<Rightarrow> bool) \<Rightarrow> (string \<Rightarrow> string option) \<Rightarrow> boot_disk \<Rightarrow> boot_disk \<Rightarrow> bool"
  for verify :: "string \<Rightarrow> string \<Rightarrow> bool" and resolve :: "string \<Rightarrow> string option" where
  ab_install: "ack = Precheck (Some (bd_cmdline d)) version \<Longrightarrow> pa_ok ack \<Longrightarrow>
     ab_step verify resolve d (snd (Install verify files resolve cwd stateDir bid localPath (pa_inactive_slot ack) (d\<lparr>bd_faults := fs\<rparr>)))"
| ab_good: "ab_step verify resolve d (snd (MarkGood (d\<lparr>bd_faults := fs\<rparr>)))"
| ab_good_boot: "ab_step verify resolve d (snd (MarkGoodOnBoot (d\<lparr>bd_faults := fs\<rparr>)))"
| ab_bad: "ab_step verify resolve d (snd (MarkBad (d\<lparr>bd_faults := fs\<rparr>)))"
| ab_repair: "ab_step verify resolve d (snd (repairRunningSlot sha rootfs k (d\<lparr>bd_faults := fs\<rparr>)))"
| ab_boot: "bd_env d = Some old \<Longrightarrow> l = slotLetter (bootedSlotFromCmdline c) \<Longrightarrow> bootable d l \<Longrightarrow>
     (\<And>k. k \<noteq> l @ ''_TRY'' \<Longrightarrow> map_of (parseGrubenv new) k = map_of (parseGrubenv old) k) \<Longrightarrow>
     ab_step verify resolve d (d\<lparr>bd_env := Some new, bd_cmdline := c, bd_power := n, bd_faults := fs\<rparr>)"

lemma precheck_target:
  assumes "pa_ok (Precheck (Some (bd_cmdline d)) version)"
  shows "slotLetter (pa_inactive_slot (Precheck (Some (bd_cmdline d)) version)) \<noteq> running d"
  using assms
  by (auto simp: Precheck_def Let_def running_def slotLetter_def otherSlot_def zero_precheck_def bootedSlotFromCmdline_def
      split: if_splits option.splits)

lemma sound_faults [simp]: "slots_sound genuine resolve (d\<lparr>bd_faults := fs\<rparr>) = slots_sound genuine resolve d"
  unfolding slots_sound_def using holds_cong [of "d\<lparr>bd_faults := fs\<rparr>" d] by (simp add: bootable_def running_def)

lemma boot_sound:
  assumes s: "slots_sound genuine resolve d" and old: "bd_env d = Some old" and l: "l = slotLetter (bootedSlotFromCmdline c)"
    and boot: "bootable d l" and new: "\<And>k. k \<noteq> l @ ''_TRY'' \<Longrightarrow> map_of (parseGrubenv new) k = map_of (parseGrubenv old) k"
  shows "slots_sound genuine resolve (d\<lparr>bd_env := Some new, bd_cmdline := c, bd_power := n, bd_faults := fs\<rparr>)"
proof -
  have "l = [] \<or> l \<in> set letters"
    using slotLetter_letters l by auto
  then have "''A_OK'' \<noteq> l @ ''_TRY''" "''B_OK'' \<noteq> l @ ''_TRY''"
    by (auto simp: letters_def)
  then have m: "map_of (parseGrubenv new) ''A_OK'' = map_of (parseGrubenv old) ''A_OK''"
    "map_of (parseGrubenv new) ''B_OK'' = map_of (parseGrubenv old) ''B_OK''"
    using new by blast+
  have "kv_ok (parseGrubenv new) k = kv_ok (parseGrubenv old) k" if "k \<in> set letters" for k
  proof -
    have "k = ''A'' \<or> k = ''B''"
      using that by (simp add: letters_def)
    then show ?thesis
      by (elim disjE) (simp_all only: kv_ok_read kv_get_def m)
  qed
  then have b: "bootable (d\<lparr>bd_env := Some new, bd_cmdline := c, bd_power := n, bd_faults := fs\<rparr>) k = bootable d k"
    if "k \<in> set letters" for k
    using that old by (simp add: bootable_def)
  have h: "holds genuine resolve (d\<lparr>bd_env := Some new, bd_cmdline := c, bd_power := n, bd_faults := fs\<rparr>) k = holds genuine resolve d k" for k
    by (rule holds_cong) simp
  show ?thesis
    using s boot b l unfolding slots_sound_def h by (simp add: running_def)
qed

lemma ab_step_sound:
  assumes "ab_step verify resolve d d'" and s: "slots_sound genuine resolve d"
    and sig: "\<And>img sg. verify img sg \<Longrightarrow> genuine img" and ne: "\<not> genuine []"
    and inj: "\<And>k k'. k \<in> set letters \<Longrightarrow> k' \<in> set letters \<Longrightarrow> resolve k = resolve k' \<Longrightarrow> k = k'"
  shows "slots_sound genuine resolve d'"
  using assms(1)
proof cases
  case (ab_install ack version files cwd stateDir bid localPath fs)
  have "slotLetter (pa_inactive_slot ack) \<noteq> running (d\<lparr>bd_faults := fs\<rparr>)"
    using precheck_target [of d version] ab_install(2,3) by (simp add: running_def)
  then show ?thesis
    unfolding ab_install(1) using s by (intro Install_sound sig ne inj) auto
next
  case (ab_repair sha rootfs k fs)
  then show ?thesis
    using s by (simp add: repair_sound)
next
  case (ab_boot old l c new n fs)
  then show ?thesis
    using boot_sound [OF s] by blast
qed (use s in \<open>simp_all add: MarkGood_def MarkGoodOnBoot_def MarkBad_def markRunning_sound\<close>)

end
