(* ===== verification/Slot_Props.thy ===== *)
theory Slot_Props
  imports Slot_Sound
begin

text \<open>
  The properties of the firewall's A/B update: the counter read back is the counter written, an install
  switches to the image it verified and leaves the other slot alone, no failure and no loss of power
  makes a partly written slot bootable, and the boot files are replaced whole or not at all.
\<close>

section \<open>The counter\<close>

lemma fields_join:
  assumes "list_all (\<lambda>w. w \<noteq> [] \<and> (\<forall>c \<in> set w. \<not> is_space c)) ws"
  shows "go_fields (go_join '' '' ws) = ws"
  using assms
proof (induction ws rule: induct_list012)
  case 1
  then show ?case by (simp add: go_fields_def)
next
  case (2 w)
  then show ?case by (simp add: fields_word)
next
  case (3 w v ws)
  then show ?case
    using fields_word_space [of w "go_join '' '' (v # ws)"] by simp
qed

lemma decode_cong: "map_of kv = map_of kv' \<Longrightarrow> decodeAB kv = decodeAB kv'"
  by (simp add: decodeAB_def kv_get_def)

lemma decode_encode:
  assumes "list_all (\<lambda>w. w \<noteq> [] \<and> (\<forall>c \<in> set w. \<not> is_space c)) (ab_order st)" "ab_order st \<noteq> []"
  shows "ab_order (decodeAB (encodeAB kv st)) = ab_order st"
    and "l \<in> set letters \<Longrightarrow> flag (ab_ok (decodeAB (encodeAB kv st))) l = flag (ab_ok st) l"
    and "l \<in> set letters \<Longrightarrow> flag (ab_try (decodeAB (encodeAB kv st))) l = flag (ab_try st) l"
  using assms fields_join [OF assms(1)]
  by (auto simp: decodeAB_def Let_def letters_def kv_get_def encodeAB_get b2s_def flag_def [of "[_, _]"] split: if_splits)

text \<open>C35: A counter edited and written into an environment block of \<open>n\<close> bytes fills exactly \<open>n\<close> bytes and
  reads back with the same order and the same OK and TRY flags for both slots, and every entry of the
  old block that is not the counter's (a \<open>_REPAIR\<close> flag, an entry of GRUB's own) is unchanged.
\<close>

theorem counter_roundtrip:
  assumes "encodeGrubenv (encodeAB (parseGrubenv old) st) n = Inr block"
    and "list_all (\<lambda>w. w \<noteq> [] \<and> (\<forall>c \<in> set w. \<not> is_space c)) (ab_order st)" "ab_order st \<noteq> []"
  shows "length block = n \<and> ab_order (decodeAB (parseGrubenv block)) = ab_order st \<and>
    (\<forall>l \<in> set letters. flag (ab_ok (decodeAB (parseGrubenv block))) l = flag (ab_ok st) l \<and>
       flag (ab_try (decodeAB (parseGrubenv block))) l = flag (ab_try st) l) \<and>
    (\<forall>k. k \<notin> set ab_keys \<longrightarrow> map_of (parseGrubenv block) k = map_of (parseGrubenv old) k)"
proof -
  have "order_ok st"
    using assms(2) by (auto simp: order_ok_def list_all_iff is_space_def)
  note r = parse_encode [OF encodeAB_ok [OF parse_env_ok this] assms(1)]
  show ?thesis
    unfolding decode_cong [OF r(1)] r using decode_encode [OF assms(2,3)] encodeAB_get(6) by simp
qed

theorem counter_roundtrip_witness:
  "\<exists>block. encodeGrubenv (encodeAB (parseGrubenv (grubenvSignature @ ''B_REPAIR=1'' @ [newline]))
       \<lparr>ab_order = [''B'', ''A''], ab_ok = [(''A'', True)], ab_try = []\<rparr>) 120 = Inr block \<and> length block = 120 \<and>
     map_of (parseGrubenv block) ''B_REPAIR'' = Some ''1''"
proof -
  let ?old = "grubenvSignature @ ''B_REPAIR=1'' @ [newline]"
  let ?st = "\<lparr>ab_order = [''B'', ''A''], ab_ok = [(''A'', True)], ab_try = []\<rparr>"
  obtain block where b: "encodeGrubenv (encodeAB (parseGrubenv ?old) ?st) 120 = Inr block"
  proof -
    have "\<not> isl (encodeGrubenv (encodeAB (parseGrubenv ?old) ?st) 120)"
      by code_simp
    then show thesis
      using that by (cases "encodeGrubenv (encodeAB (parseGrubenv ?old) ?st) 120") auto
  qed
  have "list_all (\<lambda>w. w \<noteq> [] \<and> (\<forall>c \<in> set w. \<not> is_space c)) (ab_order ?st)"
    by (simp add: is_space_def)
  from counter_roundtrip [OF b this] have "length block = 120"
    and k: "''B_REPAIR'' \<notin> set ab_keys \<Longrightarrow> map_of (parseGrubenv block) ''B_REPAIR'' = map_of (parseGrubenv ?old) ''B_REPAIR''"
    by auto
  moreover have "''B_REPAIR'' \<notin> set ab_keys" "map_of (parseGrubenv ?old) ''B_REPAIR'' = Some ''1''"
    by code_simp+
  ultimately show ?thesis
    using b by auto
qed

section \<open>Bootable slots are whole\<close>

text \<open>C12: Whatever the node does (installs into the slot the precheck names as inactive, marks of the running
  slot, boot repairs, reboots into bootable slots), whichever call fails and wherever power is lost, a
  slot whose OK flag is set holds a whole image of the publisher, and so does the running slot.  This
  relies on the signature check accepting only images of the publisher, on no image being empty and on
  the two slots being different devices.
\<close>

theorem bootable_slots_whole:
  assumes "(ab_step verify resolve)\<^sup>*\<^sup>* d d'" and "slots_sound genuine resolve d"
    and "\<And>img sg. verify img sg \<Longrightarrow> genuine img" and "\<not> genuine []"
    and "\<And>k k'. k \<in> set letters \<Longrightarrow> k' \<in> set letters \<Longrightarrow> resolve k = resolve k' \<Longrightarrow> k = k'"
  shows "slots_sound genuine resolve d'"
  using assms(1)
proof induction
  case base
  show ?case by (rule assms(2))
next
  case (step y z)
  from step.hyps(2) step.IH assms(3-5) show ?case by (rule ab_step_sound)
qed

theorem bootable_slots_whole_witness:
  "slots_sound (\<lambda>x. x = ''old'' \<or> x = ''new'') (\<lambda>l. Some (''/dev/'' @ l))
     (snd (Install (\<lambda>img sg. img = ''new'') (\<lambda>p. Some ''new'') (\<lambda>l. Some (''/dev/'' @ l)) ''/'' ''/s'' ''abc'' [] SlotB
        \<lparr>bd_env = Some (grubenvSignature @ ''A_OK=1'' @ [newline] @ replicate 100 (CHR ''#'')), bd_esp = [],
         bd_slots = [(''/dev/A'', Some ''old''), (''/dev/B'', None)], bd_cmdline = ''root=PARTLABEL=rootfs-0'',
         bd_faults = [False, False, True], bd_power = 3\<rparr>))"
proof -
  let ?res = "\<lambda>l. Some (''/dev/'' @ l)"
  let ?gen = "\<lambda>x. x = ''old'' \<or> x = ''new''"
  let ?d = "\<lparr>bd_env = Some (grubenvSignature @ ''A_OK=1'' @ [newline] @ replicate 100 (CHR ''#'')), bd_esp = [],
         bd_slots = [(''/dev/A'', Some ''old''), (''/dev/B'', None)], bd_cmdline = ''root=PARTLABEL=rootfs-0'',
         bd_faults = [False, False, True], bd_power = 3\<rparr>"
  have s: "slots_sound ?gen ?res ?d"
    by code_simp
  have p: "pa_ok (Precheck (Some (bd_cmdline ?d)) None)" "pa_inactive_slot (Precheck (Some (bd_cmdline ?d)) None) = SlotB"
    by code_simp+
  have "ab_step (\<lambda>img sg. img = ''new'') ?res ?d
    (snd (Install (\<lambda>img sg. img = ''new'') (\<lambda>p. Some ''new'') ?res ''/'' ''/s'' ''abc'' []
      (pa_inactive_slot (Precheck (Some (bd_cmdline ?d)) None)) (?d\<lparr>bd_faults := [False, False, True]\<rparr>)))"
    by (rule ab_install [OF refl p(1)])
  then have step: "ab_step (\<lambda>img sg. img = ''new'') ?res ?d
    (snd (Install (\<lambda>img sg. img = ''new'') (\<lambda>p. Some ''new'') ?res ''/'' ''/s'' ''abc'' [] SlotB ?d))"
    unfolding p(2) by simp
  show ?thesis
    by (rule bootable_slots_whole [OF r_into_rtranclp [where r = "ab_step (\<lambda>img sg. img = ''new'') ?res", OF step] s]) auto
qed

section \<open>What an install does\<close>

lemma edited_power: "edited E ok d d' \<Longrightarrow> bd_power d' \<noteq> 0 \<Longrightarrow> bd_power d \<noteq> 0"
  by (auto simp: edited_def env_only_def)

lemma edited_slots: "edited E ok d d' \<Longrightarrow> bd_slots d' = bd_slots d"
  by (simp add: edited_def env_only_def)

text \<open>The counter a disk's block holds.\<close>

definition counter :: "boot_disk \<Rightarrow> abState" where
  "counter d = (case bd_env d of None \<Rightarrow> decodeAB [] | Some b \<Rightarrow> decodeAB (parseGrubenv b))"

lemma took_counter: "took E d d' \<Longrightarrow> \<exists>old. counter d = decodeAB (parseGrubenv old) \<and> counter d' = decodeAB (E (parseGrubenv old))"
proof -
  assume "took E d d'"
  then obtain old new where "bd_env d = Some old" "bd_env d' = Some new" "map_of (parseGrubenv new) = map_of (E (parseGrubenv old))"
    unfolding took_def by blast
  then show ?thesis
    using decode_cong [of "parseGrubenv new" "E (parseGrubenv old)"] by (auto simp: counter_def)
qed

lemma counter_deact:
  assumes "took (deact l) d d'" "l \<in> set letters" "k \<in> set letters" "k \<noteq> l"
  shows "flag (ab_ok (counter d')) k = flag (ab_ok (counter d)) k" "flag (ab_try (counter d')) k = flag (ab_try (counter d)) k"
proof -
  obtain old where o: "counter d = decodeAB (parseGrubenv old)" "counter d' = decodeAB (deact l (parseGrubenv old))"
    using took_counter [OF assms(1)] by blast
  have f: "flag (ab_ok (decodeAB (encodeAB kv st))) k = flag (ab_ok st) k" "flag (ab_try (decodeAB (encodeAB kv st))) k = flag (ab_try st) k" for kv st
    using assms(3) by (auto simp: decodeAB_def Let_def letters_def kv_get_def encodeAB_get b2s_def flag_def [of "[_, _]"] split: if_splits)
  show "flag (ab_ok (counter d')) k = flag (ab_ok (counter d)) k" "flag (ab_try (counter d')) k = flag (ab_try (counter d)) k"
    using assms(4) by (simp_all add: o deact_def f)
qed

lemma counter_act:
  assumes "took (act l) d d'" "l \<in> set letters"
  shows "ab_order (counter d') = [l, if l = ''A'' then ''B'' else ''A'']" "flag (ab_ok (counter d')) l" "\<not> flag (ab_try (counter d')) l"
    and "k \<in> set letters \<Longrightarrow> k \<noteq> l \<Longrightarrow> flag (ab_ok (counter d')) k = flag (ab_ok (counter d)) k \<and>
      flag (ab_try (counter d')) k = flag (ab_try (counter d)) k"
proof -
  obtain old where o: "counter d = decodeAB (parseGrubenv old)" "counter d' = decodeAB (act l (parseGrubenv old))"
    using took_counter [OF assms(1)] by blast
  define st where "st = (decodeAB (parseGrubenv old))\<lparr>ab_order := [l, if l = ''A'' then ''B'' else ''A''],
     ab_ok := AList.update l True (ab_ok (decodeAB (parseGrubenv old))), ab_try := AList.update l False (ab_try (decodeAB (parseGrubenv old)))\<rparr>"
  have "list_all (\<lambda>w. w \<noteq> [] \<and> (\<forall>c \<in> set w. \<not> is_space c)) (ab_order st)" "ab_order st \<noteq> []"
    using assms(2) by (auto simp: st_def letters_def is_space_def)
  note d = decode_encode [OF this, where kv = "parseGrubenv old"]
  have c: "counter d' = decodeAB (encodeAB (parseGrubenv old) st)"
    unfolding o act_def st_def ..
  show "ab_order (counter d') = [l, if l = ''A'' then ''B'' else ''A'']" "flag (ab_ok (counter d')) l" "\<not> flag (ab_try (counter d')) l"
    unfolding c d(1) d(2) [OF assms(2)] d(3) [OF assms(2)] by (simp_all add: st_def)
  show "flag (ab_ok (counter d')) k = flag (ab_ok (counter d)) k \<and> flag (ab_try (counter d')) k = flag (ab_try (counter d)) k"
    if "k \<in> set letters" "k \<noteq> l"
    unfolding c d(2) [OF that(1)] d(3) [OF that(1)] o(1) using that(2) by (simp add: st_def)
qed

text \<open>C13: An install that reports success while power is on has verified the artifact's detached signature
  before writing, left the whole artifact on the target slot's device and no other device touched, made
  the target the first slot of the boot order, bootable and untried, and kept the other slot's OK and
  TRY flags, its way back.
\<close>

theorem install_switches_slot:
  assumes inst: "Install verify files resolve cwd stateDir bid localPath target d = (Inr v, d')" and on: "bd_power d' \<noteq> 0"
    and ne: "\<And>sg. \<not> verify [] sg"
  shows "\<exists>path img sg dev. resolveBundlePath cwd stateDir bid localPath ''.rootfs'' = Inr path \<and>
    files path = Some img \<and> files (path @ ''.sig'') = Some sg \<and> verify img sg \<and>
    resolve (slotLetter target) = Some dev \<and> map_of (bd_slots d') dev = Some (Some img) \<and>
    (\<forall>x. x \<noteq> dev \<longrightarrow> map_of (bd_slots d') x = map_of (bd_slots d) x) \<and>
    ab_order (counter d') = [slotLetter target, slotLetter (otherSlot target)] \<and>
    flag (ab_ok (counter d')) (slotLetter target) \<and> \<not> flag (ab_try (counter d')) (slotLetter target) \<and>
    flag (ab_ok (counter d')) (slotLetter (otherSlot target)) = flag (ab_ok (counter d)) (slotLetter (otherSlot target)) \<and>
    flag (ab_try (counter d')) (slotLetter (otherSlot target)) = flag (ab_try (counter d)) (slotLetter (otherSlot target))"
proof -
  let ?l = "slotLetter target" and ?o = "slotLetter (otherSlot target)"
  obtain path where path: "resolveBundlePath cwd stateDir bid localPath ''.rootfs'' = Inr path"
    using inst by (auto simp: Install_def split: sum.splits)
  have l0: "?l \<noteq> []" and ver: "verifySig verify files path"
    using inst by (auto simp: Install_def path Let_def split: if_splits)
  obtain img sg where img: "files path = Some img" "files (path @ ''.sig'') = Some sg" "verify img sg"
    using ver by (auto simp: verifySig_def split: option.splits)
  then have "img \<noteq> []"
    using ne by auto
  obtain dev where dev: "resolve ?l = Some dev"
    using inst l0 ver by (auto simp: Install_def path Let_def split: option.splits)
  obtain r1 d1 where deact: "deactivateSlot ?l d = (r1, d1)" by force
  obtain r2 d2 where wr: "defaultWriteSlot img dev d1 = (r2, d2)" by force
  obtain r3 d3 where act: "activateSlot ?l d2 = (r3, d3)" by force
  have ok: "r1 = Inr ()" "r2 = Inr ()" "r3 = Inr ()" and d': "d' = d3"
    using inst l0 ver img(1) by (auto simp: Install_def path Let_def dev deact wr act split: sum.splits)
  have l: "?l \<in> set letters"
    by (rule slotLetter_letters [OF l0])
  have o: "?o \<in> set letters" "?o \<noteq> ?l" "(if ?l = ''A'' then ''B'' else ''A'') = ?o"
    using l0 by (auto simp: slotLetter_def otherSlot_def letters_def split: if_splits)
  note e1 = deactivateSlot_edited [OF deact] and w = defaultWriteSlot_slot [OF wr \<open>img \<noteq> []\<close>]
    and e3 = activateSlot_edited [OF act l]
  have p2: "bd_power d2 \<noteq> 0"
    using edited_power [OF e3] on d' by simp
  have "bd_power d1 \<noteq> 0"
    using w(1) p2 by (auto simp: slot_only_def)
  then have t1: "took (deact ?l) d d1"
    using e1 ok edited_power [OF e1] by (simp add: edited_def)
  have t3: "took (act ?l) d2 d3"
    using e3 ok p2 by (simp add: edited_def)
  have "counter d2 = counter d1"
    using w(1) by (simp add: slot_only_def counter_def)
  then have keep: "flag (ab_ok (counter d3)) ?o = flag (ab_ok (counter d)) ?o" "flag (ab_try (counter d3)) ?o = flag (ab_try (counter d)) ?o"
    using counter_act(4) [OF t3 l o(1,2)] counter_deact [OF t1 l o(1,2)] by simp_all
  have slots: "map_of (bd_slots d3) dev = Some (Some img)" "\<forall>x. x \<noteq> dev \<longrightarrow> map_of (bd_slots d3) x = map_of (bd_slots d) x"
    using w(2) [OF ok(2) p2] w(1) edited_slots [OF e1] edited_slots [OF e3] by (simp_all add: slot_only_def)
  note a = counter_act(1-3) [OF t3 l, unfolded o(3)]
  show ?thesis
    using path img dev slots a keep unfolding d' by (intro exI [where x = path] exI [where x = img] exI [where x = sg] exI [where x = dev]) simp
qed

theorem install_switches_slot_witness:
  "ab_order (counter (snd (Install (\<lambda>img sg. img = ''new'') (\<lambda>p. Some ''new'') (\<lambda>l. Some (''/dev/'' @ l)) ''/'' ''/s'' ''abc'' [] SlotB
        \<lparr>bd_env = Some (grubenvSignature @ ''A_OK=1'' @ [newline] @ replicate 60 (CHR ''#'')), bd_esp = [],
         bd_slots = [(''/dev/A'', Some ''old''), (''/dev/B'', None)], bd_cmdline = ''root=PARTLABEL=rootfs-0'',
         bd_faults = [], bd_power = 9\<rparr>))) = [''B'', ''A'']"
proof -
  let ?d = "\<lparr>bd_env = Some (grubenvSignature @ ''A_OK=1'' @ [newline] @ replicate 60 (CHR ''#'')), bd_esp = [],
         bd_slots = [(''/dev/A'', Some ''old''), (''/dev/B'', None)], bd_cmdline = ''root=PARTLABEL=rootfs-0'',
         bd_faults = [], bd_power = 9\<rparr>"
  let ?i = "Install (\<lambda>img sg. img = ''new'') (\<lambda>p. Some ''new'') (\<lambda>l. Some (''/dev/'' @ l)) ''/'' ''/s'' ''abc'' [] SlotB ?d"
  have "fst ?i = Inr ''new''" and on: "bd_power (snd ?i) \<noteq> 0"
    by code_simp+
  then have "?i = (Inr ''new'', snd ?i)"
    by (metis prod.collapse)
  from install_switches_slot [OF this on] show ?thesis
    by (auto simp: slotLetter_def otherSlot_def)
qed

section \<open>The boot files\<close>

text \<open>The names a list of boot files is staged under and installed as do not meet.\<close>

definition boot_names :: "bootFile list \<Rightarrow> bool" where
  "boot_names fs \<longleftrightarrow> distinct (map bf_name fs) \<and> (\<forall>f \<in> set fs. \<forall>g \<in> set fs. staged (bf_name f) \<noteq> bf_name g)"

lemma boot_names_Cons: "boot_names (f # fs) \<Longrightarrow> boot_names fs"
  by (simp add: boot_names_def)

lemma io_esp: "io d = (b, d') \<Longrightarrow> bd_esp d' = bd_esp d \<and> bd_power d' = bd_power d"
  using io_quiet by (fastforce simp: quiet_def env_only_def)

lemma removeStaged_keeps:
  assumes "\<forall>f \<in> set fs. staged (bf_name f) \<noteq> n"
  shows "map_of (bd_esp (removeStaged fs d)) n = map_of (bd_esp d) n"
  using assms
proof (induction fs arbitrary: d)
  case (Cons f fs)
  obtain b d1 where io1: "io d = (b, d1)" by force
  have "map_of (bd_esp (remove_one f d)) n = map_of (bd_esp d) n"
    using Cons.prems io_esp [OF io1] by (auto simp: remove_one_def io1 persist_def del_esp_def delete_conv')
  then show ?case
    using Cons by (simp add: removeStaged_def)
qed (simp add: removeStaged_def)

lemma read_back_match:
  assumes "read_back sha fs d = (r, d')"
  shows "bd_esp d' = bd_esp d" and "r = None \<Longrightarrow> \<forall>f \<in> set fs. \<exists>x. map_of (bd_esp d) (staged (bf_name f)) = Some x \<and> sha x = sha (bf_data f)"
proof -
  have "bd_esp d' = bd_esp d \<and> (r = None \<longrightarrow> (\<forall>f \<in> set fs. \<exists>x. map_of (bd_esp d) (staged (bf_name f)) = Some x \<and> sha x = sha (bf_data f)))"
    using assms
  proof (induction fs arbitrary: d)
    case (Cons f fs)
    obtain b d1 where io1: "io d = (b, d1)" by force
    note e = io_esp [OF io1]
    show ?case
    proof (cases "if b then None else map_of (bd_esp d1) (staged (bf_name f))")
      case None
      then show ?thesis
        using Cons.prems e by (auto simp: io1)
    next
      case (Some x)
      then show ?thesis
        using Cons.prems Cons.IH [of d1] e by (auto simp: io1 split: if_splits)
    qed
  qed simp
  then show "bd_esp d' = bd_esp d" "r = None \<Longrightarrow> \<forall>f \<in> set fs. \<exists>x. map_of (bd_esp d) (staged (bf_name f)) = Some x \<and> sha x = sha (bf_data f)"
    by auto
qed

text \<open>One rename: the named file is the staged one, unless power is out; other names are kept.\<close>

lemma rename_one_keeps:
  assumes "n \<noteq> bf_name f" "n \<noteq> staged (bf_name f)"
  shows "map_of (bd_esp (persist (rename_one f) d)) n = map_of (bd_esp d) n"
  using assms by (simp add: persist_def rename_one_def del_esp_def set_esp_def update_conv' delete_conv' split: option.split)

lemma rename_one_done:
  assumes "map_of (bd_esp d) (staged (bf_name f)) = Some v" "bf_name f \<noteq> staged (bf_name f)"
  shows "map_of (bd_esp (persist (rename_one f) d)) (bf_name f) = (if bd_power d = 0 then map_of (bd_esp d) (bf_name f) else Some v)"
  using assms by (simp add: persist_def rename_one_def del_esp_def set_esp_def update_conv' delete_conv')

text \<open>What a run over the files may leave of the old contents.\<close>

definition replaced :: "bootFile list \<Rightarrow> bool \<Rightarrow> (string \<times> string) list \<Rightarrow> (string \<times> string) list \<Rightarrow> bool" where
  "replaced fs ok old new \<longleftrightarrow>
     (\<forall>f \<in> set fs. (map_of new (bf_name f) = map_of old (bf_name f) \<or> map_of new (bf_name f) = Some (bf_data f)) \<and>
        (ok \<longrightarrow> map_of new (bf_name f) = Some (bf_data f))) \<and>
     (\<forall>n. (\<forall>f \<in> set fs. n \<noteq> bf_name f \<and> n \<noteq> staged (bf_name f)) \<longrightarrow> map_of new n = map_of old n)"

lemma replaced_removed:
  assumes "boot_names fs"
  shows "replaced fs False (bd_esp d) (bd_esp (removeStaged fs d))"
proof -
  have k: "map_of (bd_esp (removeStaged fs d)) n = map_of (bd_esp d) n" if "\<forall>f \<in> set fs. staged (bf_name f) \<noteq> n" for n
    by (rule removeStaged_keeps [OF that])
  have "map_of (bd_esp (removeStaged fs d)) (bf_name g) = map_of (bd_esp d) (bf_name g)" if "g \<in> set fs" for g
    using assms that by (intro k) (simp add: boot_names_def)
  moreover have "map_of (bd_esp (removeStaged fs d)) n = map_of (bd_esp d) n"
    if "\<forall>f \<in> set fs. n \<noteq> bf_name f \<and> n \<noteq> staged (bf_name f)" for n
    using that by (intro k) metis
  ultimately show ?thesis
    by (simp add: replaced_def)
qed

lemma replaced_step:
  assumes "replaced fs ok mid new" "boot_names (f # fs)"
    and keep: "\<And>n. n \<noteq> bf_name f \<Longrightarrow> n \<noteq> staged (bf_name f) \<Longrightarrow> map_of mid n = map_of old n"
    and f: "map_of mid (bf_name f) = map_of old (bf_name f) \<or> map_of mid (bf_name f) = Some (bf_data f)"
      "ok \<Longrightarrow> map_of mid (bf_name f) = Some (bf_data f)"
  shows "replaced (f # fs) ok old new"
proof -
  have n: "bf_name g \<noteq> bf_name f \<and> bf_name g \<noteq> staged (bf_name f) \<and> bf_name f \<noteq> staged (bf_name g)" if "g \<in> set fs" for g
  proof -
    have "bf_name g \<in> bf_name ` set fs"
      using that by simp
    moreover have "bf_name f \<notin> bf_name ` set fs"
      using assms(2) by (simp add: boot_names_def)
    ultimately have "bf_name g \<noteq> bf_name f"
      by metis
    moreover have "staged (bf_name f) \<noteq> bf_name g" "staged (bf_name g) \<noteq> bf_name f"
      using assms(2) that by (simp_all add: boot_names_def)
    ultimately show ?thesis
      by simp
  qed
  have old: "\<forall>g \<in> set fs. (map_of new (bf_name g) = map_of mid (bf_name g) \<or> map_of new (bf_name g) = Some (bf_data g)) \<and>
        (ok \<longrightarrow> map_of new (bf_name g) = Some (bf_data g))"
    and other: "\<And>n. \<forall>g \<in> set fs. n \<noteq> bf_name g \<and> n \<noteq> staged (bf_name g) \<Longrightarrow> map_of new n = map_of mid n"
    using assms(1) by (simp_all add: replaced_def)
  have f': "map_of new (bf_name f) = map_of mid (bf_name f)"
    by (rule other) (use n in fastforce)
  have g: "map_of mid (bf_name g) = map_of old (bf_name g)" if "g \<in> set fs" for g
    using keep n [OF that] by blast
  have m: "map_of new k = map_of old k" if "\<forall>g \<in> set (f # fs). k \<noteq> bf_name g \<and> k \<noteq> staged (bf_name g)" for k
    using other [of k] keep [of k] that by simp
  show ?thesis
    unfolding replaced_def using f f' old g m by simp
qed

lemma rename_files_atomic:
  assumes "rename_files fs d = (r, d')" "boot_names fs" "\<forall>f \<in> set fs. map_of (bd_esp d) (staged (bf_name f)) = Some (bf_data f)"
  shows "replaced fs (r = Inr () \<and> bd_power d' \<noteq> 0) (bd_esp d) (bd_esp d')"
  using assms
proof (induction fs arbitrary: d)
  case Nil
  then show ?case by (simp add: replaced_def)
next
  case (Cons f fs)
  obtain b d1 where io1: "io d = (b, d1)" by force
  obtain b2 d2 where io2: "io (persist (rename_one f) d1) = (b2, d2)" by force
  note e1 = io_esp [OF io1] and e2 = io_esp [OF io2]
  have st: "map_of (bd_esp d1) (staged (bf_name f)) = Some (bf_data f)"
    using Cons.prems(3) e1 by simp
  have ne: "bf_name f \<noteq> staged (bf_name f)"
    by (simp add: staged_def)
  have keep: "map_of (bd_esp d2) n = map_of (bd_esp d) n" if "n \<noteq> bf_name f" "n \<noteq> staged (bf_name f)" for n
    using rename_one_keeps [OF that] e1 e2 by simp
  have f: "map_of (bd_esp d2) (bf_name f) = (if bd_power d = 0 then map_of (bd_esp d) (bf_name f) else Some (bf_data f))"
    using rename_one_done [OF st ne] e1 e2 by simp
  have none: "replaced fs False (bd_esp d2) (bd_esp d2)"
    by (simp add: replaced_def)
  show ?case
  proof (cases "b \<or> b2")
    case True
    show ?thesis
    proof (cases b)
      case True
      then have "d' = removeStaged (f # fs) d1" "r = Inl AbRename"
        using Cons.prems(1) by (auto simp: io1)
      then show ?thesis
        using replaced_removed [OF Cons.prems(2), of d1] e1 by simp
    next
      case False
      then have "d' = d2" "r = Inl AbSync"
        using Cons.prems(1) True st by (auto simp: io1 io2)
      moreover have "replaced (f # fs) False (bd_esp d) (bd_esp d2)"
        by (rule replaced_step [OF none Cons.prems(2) keep]) (simp_all add: f)
      ultimately show ?thesis
        by simp
    qed
  next
    case False
    then have rest: "rename_files fs d2 = (r, d')"
      using Cons.prems(1) st by (simp add: io1 io2)
    have "staged (bf_name g) \<noteq> bf_name f \<and> staged (bf_name g) \<noteq> staged (bf_name f)" if "g \<in> set fs" for g
    proof -
      have "bf_name g \<in> bf_name ` set fs" "bf_name f \<notin> bf_name ` set fs"
        using that Cons.prems(2) by (simp_all add: boot_names_def)
      then have "bf_name g \<noteq> bf_name f"
        by metis
      then show ?thesis
        using Cons.prems(2) that by (simp add: boot_names_def staged_def)
    qed
    then have "\<forall>g \<in> set fs. map_of (bd_esp d2) (staged (bf_name g)) = Some (bf_data g)"
      using Cons.prems(3) keep by simp
    note IH = Cons.IH [OF rest boot_names_Cons [OF Cons.prems(2)] this]
    have "bd_power d2 = 0 \<Longrightarrow> bd_power d' = 0"
      using rename_files_only [OF rest] by (simp add: esp_only_def)
    moreover have "bd_power d = 0 \<Longrightarrow> bd_power d2 = 0"
      using e1 e2 by (simp add: persist_def)
    ultimately have p: "bd_power d = 0 \<Longrightarrow> bd_power d' = 0"
      by simp
    show ?thesis
      by (rule replaced_step [OF IH Cons.prems(2) keep]) (use f p in \<open>simp_all split: if_splits\<close>)
  qed
qed

text \<open>C34: Installing staged boot files, whatever the fresh mount reads back for them, whichever call fails
  and wherever power is lost: every boot file afterwards has exactly its old content or exactly the
  wanted content, never a mixture and never a corrupted staging copy; when the step reports success
  with power on, all of them have the wanted content; no other file but the staging copies is touched.
  This relies on the digest not colliding with that of a wanted file.
\<close>

theorem boot_files_atomic:
  assumes "commitBootFiles sha fs d = (r, d')" and "boot_names fs"
    and "\<forall>f \<in> set fs. \<forall>x. sha x = sha (bf_data f) \<longrightarrow> x = bf_data f"
  shows "(\<forall>f \<in> set fs. (map_of (bd_esp d') (bf_name f) = map_of (bd_esp d) (bf_name f) \<or> map_of (bd_esp d') (bf_name f) = Some (bf_data f)) \<and>
      (r = Inr () \<and> bd_power d' \<noteq> 0 \<longrightarrow> map_of (bd_esp d') (bf_name f) = Some (bf_data f))) \<and>
    (\<forall>n. (\<forall>f \<in> set fs. n \<noteq> bf_name f \<and> n \<noteq> staged (bf_name f)) \<longrightarrow> map_of (bd_esp d') n = map_of (bd_esp d) n)"
proof -
  obtain e d1 where rb: "read_back sha fs d = (e, d1)" by force
  note m = read_back_match [OF rb]
  show ?thesis
  proof (cases e)
    case None
    then have rest: "rename_files fs d1 = (r, d')"
      using assms(1) by (simp add: commitBootFiles_def rb)
    have "\<forall>f \<in> set fs. map_of (bd_esp d1) (staged (bf_name f)) = Some (bf_data f)"
      using m(2) [OF None] assms(3) unfolding m(1) by fastforce
    from rename_files_atomic [OF rest assms(2) this] show ?thesis
      unfolding m(1) replaced_def .
  next
    case (Some x)
    then have "r = Inl x" "d' = removeStaged fs d1"
      using assms(1) by (simp_all add: commitBootFiles_def rb)
    then show ?thesis
      using replaced_removed [OF assms(2), of d1] unfolding m(1) replaced_def by simp
  qed
qed

theorem boot_files_atomic_witness:
  "boot_names [\<lparr>bf_name = ''boot/grub/grub.cfg'', bf_data = ''new''\<rparr>] \<and>
   map_of (bd_esp (snd (commitBootFiles id [\<lparr>bf_name = ''boot/grub/grub.cfg'', bf_data = ''new''\<rparr>]
     \<lparr>bd_env = None, bd_esp = [(''boot/grub/grub.cfg'', ''old''), (''boot/grub/grub.cfg.new'', ''new'')], bd_slots = [], bd_cmdline = [],
      bd_faults = [], bd_power = 2\<rparr>))) ''boot/grub/grub.cfg'' = Some ''new''"
proof -
  let ?fs = "[\<lparr>bf_name = ''boot/grub/grub.cfg'', bf_data = ''new''\<rparr>]"
  let ?d = "\<lparr>bd_env = None, bd_esp = [(''boot/grub/grub.cfg'', ''old''), (''boot/grub/grub.cfg.new'', ''new'')], bd_slots = [], bd_cmdline = [],
      bd_faults = [], bd_power = 2\<rparr>"
  have n: "boot_names ?fs"
    by code_simp
  have ok: "fst (commitBootFiles id ?fs ?d) = Inr ()" and on: "bd_power (snd (commitBootFiles id ?fs ?d)) \<noteq> 0"
    by code_simp+
  from ok have "commitBootFiles id ?fs ?d = (Inr (), snd (commitBootFiles id ?fs ?d))"
    by (metis prod.collapse)
  from boot_files_atomic [OF this n] on n show ?thesis
    by simp
qed

end
