(* ===== verification/Go_Net.thy ===== *)
theory Go_Net
  imports Go_Num
begin

text \<open>
  Addresses as Go reads them: \<^verbatim>\<open>netip.ParseAddr\<close>, \<^verbatim>\<open>netip.ParsePrefix\<close>, \<^verbatim>\<open>net.ParseIP\<close> with
  \<^verbatim>\<open>To4\<close>, and \<^verbatim>\<open>net.ParseCIDR\<close>.  An address is its bytes; an IPv6 address keeps its zone.
\<close>

section \<open>Addresses\<close>

datatype ip_addr = V4 "nat list" | V6 "nat list" string

text \<open>One field of a dotted address: up to 255, no leading zero.\<close>

definition octet :: "string \<Rightarrow> nat option" where
  "octet s = (if s = [] \<or> \<not> list_all is_digit s \<or> 3 < length s \<or> (1 < length s \<and> hd s = CHR ''0'') \<or> 255 < read_nat s
     then None else Some (read_nat s))"

definition parse_v4 :: "string \<Rightarrow> nat list option" where
  "parse_v4 s = (let ps = map octet (go_split (CHR ''.'') s) in
     if length ps = 4 \<and> None \<notin> set ps then Some (map the ps) else None)"

definition hex_val :: "char \<Rightarrow> nat option" where
  "hex_val c = (let n = (of_char c :: nat) in
     if 48 \<le> n \<and> n \<le> 57 then Some (n - 48) else if 97 \<le> n \<and> n \<le> 102 then Some (n - 87)
     else if 65 \<le> n \<and> n \<le> 70 then Some (n - 55) else None)"

definition is_hex :: "char \<Rightarrow> bool" where
  "is_hex c \<longleftrightarrow> hex_val c \<noteq> None"

definition group_bytes :: "string \<Rightarrow> nat list" where
  "group_bytes h = (let v = foldl (\<lambda>a c. 16 * a + the (hex_val c)) 0 h in [v div 256, v mod 256])"

text \<open>
  The groups of an IPv6 address, at most \<open>n\<close> more: what is left of the text, the bytes and the place of
  the ellipsis.
\<close>

fun v6_groups :: "nat \<Rightarrow> string \<Rightarrow> nat list \<Rightarrow> nat option \<Rightarrow> (string \<times> nat list \<times> nat option) option" where
  "v6_groups 0 s acc ell = Some (s, acc, ell)"
| "v6_groups (Suc n) s acc ell =
     (let h = takeWhile is_hex s; acc' = acc @ group_bytes h in
      if h = [] \<or> 4 < length h then None
      else case dropWhile is_hex s of
        [] \<Rightarrow> Some ([], acc', ell)
      | c # t \<Rightarrow>
          if c = CHR ''.''
          then (if (ell = None \<and> length acc \<noteq> 12) \<or> 16 < length acc + 4 then None
                else map_option (\<lambda>q. ([], acc @ q, ell)) (parse_v4 s))
          else if c \<noteq> CHR '':'' \<or> t = [] then None
          else if hd t \<noteq> CHR '':'' then v6_groups n t acc' ell
          else if ell \<noteq> None then None
          else if tl t = [] then Some ([], acc', Some (length acc'))
          else v6_groups n (tl t) acc' (Some (length acc')))"

definition v6_fill :: "string \<times> nat list \<times> nat option \<Rightarrow> nat list option" where
  "v6_fill r = (case r of (s, acc, ell) \<Rightarrow>
     if s \<noteq> [] then None
     else if length acc < 16
          then map_option (\<lambda>e. take e acc @ replicate (16 - length acc) 0 @ drop e acc) ell
          else if ell = None then Some acc else None)"

definition v6_bytes :: "string \<Rightarrow> nat list option" where
  "v6_bytes s =
     (if take 2 s = ''::'' then (if drop 2 s = [] then Some (replicate 16 0)
        else Option.bind (v6_groups 8 (drop 2 s) [] (Some 0)) v6_fill)
      else Option.bind (v6_groups 8 s [] None) v6_fill)"

definition parse_v6 :: "string \<Rightarrow> ip_addr option" where
  "parse_v6 s =
     (if CHR ''%'' \<notin> set s then map_option (\<lambda>b. V6 b []) (v6_bytes s)
      else let z = drop 1 (dropWhile (\<lambda>c. c \<noteq> CHR ''%'') s) in
        if z = [] then None else map_option (\<lambda>b. V6 b z) (v6_bytes (takeWhile (\<lambda>c. c \<noteq> CHR ''%'') s)))"

definition ParseAddr :: "string \<Rightarrow> ip_addr option" where
  "ParseAddr s = (case dropWhile (\<lambda>c. c \<notin> {CHR ''.'', CHR '':'', CHR ''%''}) s of
     [] \<Rightarrow> None
   | c # _ \<Rightarrow> if c = CHR ''.'' then map_option V4 (parse_v4 s) else if c = CHR '':'' then parse_v6 s else None)"

definition BitLen :: "ip_addr \<Rightarrow> nat" where
  "BitLen a = (case a of V4 _ \<Rightarrow> 32 | V6 _ _ \<Rightarrow> 128)"

definition Zone_of :: "ip_addr \<Rightarrow> string" where
  "Zone_of a = (case a of V4 _ \<Rightarrow> [] | V6 _ z \<Rightarrow> z)"

section \<open>Prefixes\<close>

definition ParsePrefix :: "string \<Rightarrow> bool" where
  "ParsePrefix s \<longleftrightarrow> CHR ''/'' \<in> set s \<and>
     (let bits = rev (takeWhile (\<lambda>c. c \<noteq> CHR ''/'') (rev s)); addr = take (length s - length bits - 1) s
      in case ParseAddr addr of
           None \<Rightarrow> False
         | Some a \<Rightarrow> Zone_of a = [] \<and>
             \<not> (1 < length bits \<and> (hd bits < CHR ''1'' \<or> CHR ''9'' < hd bits)) \<and>
             (case Atoi bits of (n, e) \<Rightarrow> e = None \<and> 0 \<le> n \<and> n \<le> int (BitLen a)))"

text \<open>\<^verbatim>\<open>net.ParseIP\<close>, and whether \<^verbatim>\<open>To4\<close> finds an IPv4 address in it.\<close>

definition ParseIP :: "string \<Rightarrow> ip_addr option" where
  "ParseIP s = (case ParseAddr s of None \<Rightarrow> None | Some a \<Rightarrow> if Zone_of a = [] then Some a else None)"

definition mapped_v4 :: "nat list \<Rightarrow> bool" where
  "mapped_v4 b \<longleftrightarrow> take 12 b = replicate 10 0 @ [255, 255]"

definition To4 :: "ip_addr \<Rightarrow> bool" where
  "To4 a = (case a of V4 _ \<Rightarrow> True | V6 b _ \<Rightarrow> mapped_v4 b)"

text \<open>
  \<^verbatim>\<open>net.ParseCIDR\<close>: the network address and whether it is IPv4.  Masking an IPv4-mapped address with
  fewer than 96 bits clears a bit of the mark, so it is IPv4 no more.
\<close>

definition ParseCIDR_to4 :: "string \<Rightarrow> bool option" where
  "ParseCIDR_to4 s =
     (if CHR ''/'' \<notin> set s then None
      else let addr = takeWhile (\<lambda>c. c \<noteq> CHR ''/'') s; mask = drop (length addr + 1) s
           in case ParseAddr addr of
                None \<Rightarrow> None
              | Some a \<Rightarrow>
                  if Zone_of a \<noteq> [] \<or> mask = [] \<or> \<not> list_all is_digit mask \<or> BitLen a < read_nat mask then None
                  else Some (case a of V4 _ \<Rightarrow> True | V6 b _ \<Rightarrow> mapped_v4 b \<and> 96 \<le> read_nat mask))"

lemma v4_dot: "ParseAddr s = Some (V4 b) \<Longrightarrow> parse_v4 s = Some b"
  by (auto simp: ParseAddr_def parse_v6_def Let_def split: list.splits if_splits)

end
