(* ===== verification/Firewall_Compile.thy ===== *)
theory Firewall_Compile
  imports Go_Json Go_Net "HOL-Library.Product_Lexorder"
begin

text \<open>
  The firewall's intents and their compilation to UCI (\<^verbatim>\<open>proto/firewall.go\<close>,
  \<^verbatim>\<open>api/internal/firewall/{types,compile}.go\<close>) and the checks of the intent handlers
  (\<^verbatim>\<open>api/internal/api/firewall_handlers.go\<close>).  A Go map is an association list; \<open>VSecret\<close> is a
  \<^verbatim>\<open>secret.Value\<close>, which prints as a mark and whose bytes leave only where it is revealed.
\<close>

section \<open>Intents\<close>

definition IntentPortForward :: string where "IntentPortForward = ''port_forward''"
definition IntentFirewallRule :: string where "IntentFirewallRule = ''firewall_rule''"
definition IntentWANConfig :: string where "IntentWANConfig = ''wan_config''"
definition IntentDNSForward :: string where "IntentDNSForward = ''dns_forward''"

lemmas intent_kinds = IntentPortForward_def IntentFirewallRule_def IntentWANConfig_def IntentDNSForward_def

definition ValidFirewallIntentKind :: "string \<Rightarrow> bool" where
  "ValidFirewallIntentKind k \<longleftrightarrow> k \<in> set [IntentPortForward, IntentFirewallRule, IntentWANConfig, IntentDNSForward]"

record Intent =
  in_id :: string
  in_kind :: string
  in_name :: string
  in_enabled :: bool
  in_spec :: raw_json
  in_secret_set :: bool
  in_created :: gotime
  in_updated :: gotime

record PortForwardSpec =
  pf_wan_port :: int
  pf_lan_host :: string
  pf_lan_port :: int
  pf_protocol :: string
  pf_comment :: string

record FirewallRuleSpec =
  fr_src :: string
  fr_dest :: string
  fr_src_ip :: string
  fr_src_port :: string
  fr_dest_ip :: string
  fr_dest_port :: string
  fr_proto :: string
  fr_target :: string
  fr_log :: bool
  fr_comment :: string

record WANConfigSpec =
  wc_proto :: string
  wc_hostname :: string
  wc_ip :: string
  wc_gateway :: string
  wc_dns :: "string list"
  wc_username :: string
  wc_secret :: string
  wc_service :: string
  wc_comment :: string

record DNSForwardSpec =
  df_zone :: string
  df_target :: string

definition decode_port_forward :: "raw_json \<Rightarrow> PortForwardSpec option" where
  "decode_port_forward r = Option.bind (object_fields r) (\<lambda>m.
     case (int_field ''wanPort'' m, str_field ''lanHost'' m, int_field ''lanPort'' m, str_field ''protocol'' m, str_field ''comment'' m) of
       (Some w, Some h, Some l, Some p, Some c) \<Rightarrow>
         Some \<lparr>pf_wan_port = w, pf_lan_host = h, pf_lan_port = l, pf_protocol = p, pf_comment = c\<rparr>
     | _ \<Rightarrow> None)"

definition decode_rule :: "raw_json \<Rightarrow> FirewallRuleSpec option" where
  "decode_rule r = Option.bind (object_fields r) (\<lambda>m.
     case ((str_field ''src'' m, str_field ''dest'' m, str_field ''srcIp'' m, str_field ''srcPort'' m, str_field ''destIp'' m),
           (str_field ''destPort'' m, str_field ''proto'' m, str_field ''target'' m, bool_field ''log'' m, str_field ''comment'' m)) of
       ((Some s, Some d, Some si, Some sp, Some di), (Some dp, Some p, Some t, Some l, Some c)) \<Rightarrow>
         Some \<lparr>fr_src = s, fr_dest = d, fr_src_ip = si, fr_src_port = sp, fr_dest_ip = di, fr_dest_port = dp,
               fr_proto = p, fr_target = t, fr_log = l, fr_comment = c\<rparr>
     | _ \<Rightarrow> None)"

definition decode_wan :: "raw_json \<Rightarrow> WANConfigSpec option" where
  "decode_wan r = Option.bind (object_fields r) (\<lambda>m.
     case ((str_field ''proto'' m, str_field ''hostname'' m, str_field ''ip'' m, str_field ''gateway'' m, strs_field ''dns'' m),
           (str_field ''username'' m, str_field ''secret'' m, str_field ''service'' m, str_field ''comment'' m)) of
       ((Some p, Some h, Some i, Some g, Some d), (Some u, Some s, Some v, Some c)) \<Rightarrow>
         Some \<lparr>wc_proto = p, wc_hostname = h, wc_ip = i, wc_gateway = g, wc_dns = d, wc_username = u, wc_secret = s,
               wc_service = v, wc_comment = c\<rparr>
     | _ \<Rightarrow> None)"

definition decode_dns_forward :: "raw_json \<Rightarrow> DNSForwardSpec option" where
  "decode_dns_forward r = Option.bind (object_fields r) (\<lambda>m.
     case (str_field ''zone'' m, str_field ''target'' m) of
       (Some z, Some t) \<Rightarrow> Some \<lparr>df_zone = z, df_target = t\<rparr> | _ \<Rightarrow> None)"

section \<open>Compilation\<close>

datatype uci = VStr string | VSecret string | VMap "(string \<times> uci) list" | VList "uci list" | VOther json

datatype compile_error =
    BadSpec string | WanPortRange int | LanPortRange int | LanHostRequired | IsIPv6 string string | BadProtocol string
  | SrcRequired | TargetRequired | BadTarget string | ManyWAN string string | ManyDNS string string | BadKind string string
  | StaticIPRequired string | StaticGatewayRequired string | UsernameRequired string | SecretRequired string
  | ProtoRequired string | BadWANProto string string | ZoneRequired string | ZoneSlash string string | DNSTargetRequired string
  | DNSTargetNotIPv4 string string

definition rejectIPv6 :: "string \<Rightarrow> string \<Rightarrow> compile_error option" where
  "rejectIPv6 field v =
     (if v = [] then None
      else let four = (case ParseIP v of Some a \<Rightarrow> Some (To4 a) | None \<Rightarrow> ParseCIDR_to4 v)
           in if four = Some False then Some (IsIPv6 field v) else None)"

definition ucProto :: "string \<Rightarrow> string" where
  "ucProto p = (if p = ''tcpudp'' then ''tcp udp'' else p)"

definition ucRuleProto :: "string \<Rightarrow> string" where
  "ucRuleProto p = (if p = [] \<or> p = ''any'' then ''all'' else if p = ''tcpudp'' then ''tcp udp'' else p)"

text \<open>An option that is written only when it is set.\<close>

definition opt :: "string \<Rightarrow> string \<Rightarrow> (string \<times> uci) list" where
  "opt k v = (if v = [] then [] else [(k, VStr v)])"

definition compilePortForward :: "Intent \<Rightarrow> compile_error + (string \<times> uci) list" where
  "compilePortForward i = (case decode_port_forward (in_spec i) of
     None \<Rightarrow> Inl (BadSpec ''port_forward'')
   | Some s \<Rightarrow>
       if pf_wan_port s < 1 \<or> 65535 < pf_wan_port s then Inl (WanPortRange (pf_wan_port s))
       else if pf_lan_port s < 1 \<or> 65535 < pf_lan_port s then Inl (LanPortRange (pf_lan_port s))
       else if pf_lan_host s = [] then Inl LanHostRequired
       else case rejectIPv6 ''lanHost'' (pf_lan_host s) of
         Some e \<Rightarrow> Inl e
       | None \<Rightarrow>
           (let p = (if pf_protocol s = [] then ''tcp'' else pf_protocol s) in
            if p \<notin> set [''tcp'', ''udp'', ''tcpudp''] then Inl (BadProtocol p)
            else Inr ([(''name'', VStr (in_name i)), (''src'', VStr ''wan''), (''src_dport'', VStr (Itoa (pf_wan_port s))),
                       (''dest'', VStr ''lan''), (''dest_ip'', VStr (pf_lan_host s)), (''dest_port'', VStr (Itoa (pf_lan_port s))),
                       (''proto'', VStr (ucProto p)), (''target'', VStr ''DNAT'')] @ opt ''_comment'' (pf_comment s))))"

text \<open>\<^verbatim>\<open>strings.ToUpper\<close> of an ASCII word.\<close>

definition upper_char :: "char \<Rightarrow> char" where
  "upper_char c = (if CHR ''a'' \<le> c \<and> c \<le> CHR ''z'' then char_of (of_char c - (32 :: nat)) else c)"

definition ToUpper :: "string \<Rightarrow> string" where
  "ToUpper s = map upper_char s"

definition rule_targets :: "string list" where
  "rule_targets = [''accept'', ''reject'', ''drop'']"

definition compileFirewallRule :: "Intent \<Rightarrow> compile_error + (string \<times> uci) list" where
  "compileFirewallRule i = (case decode_rule (in_spec i) of
     None \<Rightarrow> Inl (BadSpec ''firewall_rule'')
   | Some s \<Rightarrow>
       if fr_src s = [] then Inl SrcRequired
       else if fr_target s = [] then Inl TargetRequired
       else if fr_target s \<notin> set rule_targets then Inl (BadTarget (fr_target s))
       else case rejectIPv6 ''srcIp'' (fr_src_ip s) of
         Some e \<Rightarrow> Inl e
       | None \<Rightarrow> (case rejectIPv6 ''destIp'' (fr_dest_ip s) of
           Some e \<Rightarrow> Inl e
         | None \<Rightarrow>
             Inr ([(''name'', VStr (in_name i)), (''src'', VStr (fr_src s)), (''target'', VStr (ToUpper (fr_target s)))] @
                  opt ''dest'' (fr_dest s) @ opt ''src_ip'' (fr_src_ip s) @ opt ''src_port'' (fr_src_port s) @
                  opt ''dest_ip'' (fr_dest_ip s) @ opt ''dest_port'' (fr_dest_port s) @
                  [(''proto'', VStr (ucRuleProto (fr_proto s)))] @ (if fr_log s then [(''log'', VStr ''1'')] else []) @
                  opt ''_comment'' (fr_comment s))))"

definition compileDNSForward :: "Intent \<Rightarrow> compile_error + string" where
  "compileDNSForward i = (case decode_dns_forward (in_spec i) of
     None \<Rightarrow> Inl (BadSpec ''dns_forward'')
   | Some s \<Rightarrow>
       if df_zone s = [] then Inl (ZoneRequired (in_id i))
       else if CHR ''/'' \<in> set (df_zone s) then Inl (ZoneSlash (in_id i) (df_zone s))
       else if df_target s = [] then Inl (DNSTargetRequired (in_id i))
       else case ParseIP (df_target s) of
         None \<Rightarrow> Inl (DNSTargetNotIPv4 (in_id i) (df_target s))
       | Some a \<Rightarrow> if To4 a then Inr (''/'' @ df_zone s @ ''/'' @ df_target s) else Inl (DNSTargetNotIPv4 (in_id i) (df_target s)))"

definition compileWANConfig :: "Intent option \<Rightarrow> (string \<times> string) list \<Rightarrow> compile_error + (string \<times> uci) list" where
  "compileWANConfig io secrets = (case io of
     None \<Rightarrow> Inr [(''proto'', VStr ''none'')]
   | Some i \<Rightarrow> (case decode_wan (in_spec i) of
       None \<Rightarrow> Inl (BadSpec ''wan_config'')
     | Some s \<Rightarrow>
         (let body =
            (if wc_proto s = ''dhcp'' then Inr ([(''proto'', VStr ''dhcp'')] @ opt ''hostname'' (wc_hostname s))
             else if wc_proto s = ''static'' then
               (if wc_ip s = [] then Inl (StaticIPRequired (in_id i))
                else if wc_gateway s = [] then Inl (StaticGatewayRequired (in_id i))
                else Inr ([(''proto'', VStr ''static''), (''ipaddr'', VStr (wc_ip s)), (''gateway'', VStr (wc_gateway s))] @
                          (if wc_dns s = [] then [] else [(''dns'', VStr (go_join '' '' (wc_dns s)))])))
             else if wc_proto s = ''pppoe'' then
               (if wc_username s = [] then Inl (UsernameRequired (in_id i))
                else let pw = (case map_of secrets (in_id i) of None \<Rightarrow> [] | Some p \<Rightarrow> p) in
                  if pw = [] then Inl (SecretRequired (in_id i))
                  else Inr ([(''proto'', VStr ''pppoe''), (''username'', VStr (wc_username s)), (''password'', VSecret pw)] @
                            opt ''service'' (wc_service s)))
             else if wc_proto s = [] then Inl (ProtoRequired (in_id i)) else Inl (BadWANProto (in_id i) (wc_proto s)))
          in case body of Inl e \<Rightarrow> Inl e | Inr kvs \<Rightarrow> Inr (kvs @ opt ''_comment'' (wc_comment s)))))"

record compile_acc =
  ca_redirects :: "uci list"
  ca_rules :: "uci list"
  ca_wan_seen :: bool
  ca_wan :: "Intent option"
  ca_dns :: "Intent option"

definition acc_empty :: compile_acc where
  "acc_empty = \<lparr>ca_redirects = [], ca_rules = [], ca_wan_seen = False, ca_wan = None, ca_dns = None\<rparr>"

definition compile_one :: "Intent \<Rightarrow> compile_acc \<Rightarrow> compile_error + compile_acc" where
  "compile_one i a =
     (if in_kind i = IntentPortForward then
        (if \<not> in_enabled i then Inr a
         else case compilePortForward i of Inl e \<Rightarrow> Inl e | Inr r \<Rightarrow> Inr (a\<lparr>ca_redirects := ca_redirects a @ [VMap r]\<rparr>))
      else if in_kind i = IntentFirewallRule then
        (if \<not> in_enabled i then Inr a
         else case compileFirewallRule i of Inl e \<Rightarrow> Inl e | Inr r \<Rightarrow> Inr (a\<lparr>ca_rules := ca_rules a @ [VMap r]\<rparr>))
      else if in_kind i = IntentDNSForward then
        (if \<not> in_enabled i then Inr a
         else case ca_dns a of Some j \<Rightarrow> Inl (ManyDNS (in_id j) (in_id i)) | None \<Rightarrow> Inr (a\<lparr>ca_dns := Some i\<rparr>))
      else if in_kind i = IntentWANConfig then
        (let a1 = a\<lparr>ca_wan_seen := True\<rparr> in
         if \<not> in_enabled i then Inr a1
         else case ca_wan a1 of Some j \<Rightarrow> Inl (ManyWAN (in_id j) (in_id i)) | None \<Rightarrow> Inr (a1\<lparr>ca_wan := Some i\<rparr>))
      else Inl (BadKind (in_id i) (in_kind i)))"

fun compile_all :: "Intent list \<Rightarrow> compile_acc \<Rightarrow> compile_error + compile_acc" where
  "compile_all [] a = Inr a"
| "compile_all (i # is) a = (case compile_one i a of Inl e \<Rightarrow> Inl e | Inr b \<Rightarrow> compile_all is b)"

definition Compile :: "Intent list \<Rightarrow> (string \<times> string) list \<Rightarrow> compile_error + (string \<times> uci) list" where
  "Compile is secrets = (case compile_all is acc_empty of
     Inl e \<Rightarrow> Inl e
   | Inr a \<Rightarrow>
       (let st = [(''firewall'', VMap [(''redirect'', VList (ca_redirects a)), (''rule'', VList (ca_rules a))])]
        in case (if ca_wan_seen a then (case compileWANConfig (ca_wan a) secrets of
                    Inl e \<Rightarrow> Inl e | Inr w \<Rightarrow> Inr (st @ [(''network'', VMap [(''wan'', VMap w)])])) else Inr st) of
             Inl e \<Rightarrow> Inl e
           | Inr st1 \<Rightarrow> (case ca_dns a of
               None \<Rightarrow> Inr st1
             | Some i \<Rightarrow> (case compileDNSForward i of
                 Inl e \<Rightarrow> Inl e | Inr srv \<Rightarrow> Inr (st1 @ [(''dhcp'', VMap [(''server'', VStr srv)])])))))"

section \<open>Revealing\<close>

definition reveal_wan :: "(string \<times> uci) list \<Rightarrow> (string \<times> uci) list" where
  "reveal_wan w = (case map_of w ''password'' of Some (VSecret p) \<Rightarrow> AList.update ''password'' (VStr p) w | _ \<Rightarrow> w)"

definition revealState :: "(string \<times> uci) list \<Rightarrow> (string \<times> uci) list" where
  "revealState st = (case map_of st ''network'' of
     Some (VMap n) \<Rightarrow> (case map_of n ''wan'' of
       Some (VMap w) \<Rightarrow> AList.update ''network'' (VMap (AList.update ''wan'' (VMap (reveal_wan w)) n)) st
     | _ \<Rightarrow> st)
   | _ \<Rightarrow> st)"

section \<open>The checks of the handlers\<close>

datatype spec_error = SpecError string

definition validateIPOrCIDR :: "string \<Rightarrow> string \<Rightarrow> spec_error option" where
  "validateIPOrCIDR field v =
     (if v = [] \<or> ParsePrefix v \<or> ParseAddr v \<noteq> None then None else Some (SpecError (field @ '' must be a valid IP or CIDR'')))"

definition parse_port :: "string \<Rightarrow> int option" where
  "parse_port s = (case Atoi s of (n, e) \<Rightarrow> if e \<noteq> None \<or> n < 1 \<or> 65535 < n then None else Some n)"

definition validatePortOrRange :: "string \<Rightarrow> string \<Rightarrow> spec_error option" where
  "validatePortOrRange field v =
     (if v = [] then None
      else if CHR ''-'' \<in> set v then
        (case (parse_port (takeWhile (\<lambda>c. c \<noteq> CHR ''-'') v), parse_port (drop 1 (dropWhile (\<lambda>c. c \<noteq> CHR ''-'') v))) of
           (Some lo, Some hi) \<Rightarrow> if hi < lo then Some (SpecError (field @ '' range must have low <= high'')) else None
         | _ \<Rightarrow> Some (SpecError (field @ '' must be 1-65535'')))
      else if parse_port v = None then Some (SpecError (field @ '' must be 1-65535'')) else None)"

fun first_error :: "spec_error option list \<Rightarrow> spec_error option" where
  "first_error [] = None"
| "first_error (Some e # es) = Some e"
| "first_error (None # es) = first_error es"

definition validateWANConfigSpec :: "WANConfigSpec \<Rightarrow> bool \<Rightarrow> spec_error option" where
  "validateWANConfigSpec s stored =
     (if wc_proto s = ''dhcp'' then None
      else if wc_proto s = ''static'' then
        (if wc_ip s = [] then Some (SpecError ''static proto: ip is required'')
         else case validateIPOrCIDR ''ip'' (wc_ip s) of
           Some e \<Rightarrow> Some e
         | None \<Rightarrow>
             if wc_gateway s = [] then Some (SpecError ''static proto: gateway is required'')
             else first_error (validateIPOrCIDR ''gateway'' (wc_gateway s) # map (validateIPOrCIDR ''dns'') (wc_dns s)))
      else if wc_proto s = ''pppoe'' then
        (if wc_username s = [] then Some (SpecError ''pppoe proto: username is required'')
         else if wc_secret s = [] \<and> \<not> stored then Some (SpecError ''pppoe proto: secret is required'') else None)
      else if wc_proto s = [] then Some (SpecError ''proto is required'') else Some (SpecError ''proto must be dhcp, static, or pppoe''))"

definition validate_port_forward :: "PortForwardSpec \<Rightarrow> spec_error option" where
  "validate_port_forward s =
     (if pf_wan_port s < 1 \<or> 65535 < pf_wan_port s then Some (SpecError ''wanPort must be 1-65535'')
      else if pf_lan_port s < 1 \<or> 65535 < pf_lan_port s then Some (SpecError ''lanPort must be 1-65535'')
      else if pf_lan_host s = [] then Some (SpecError ''lanHost is required'')
      else if pf_protocol s \<notin> set [[], ''tcp'', ''udp'', ''tcpudp''] then Some (SpecError ''protocol must be tcp, udp, or tcpudp'')
      else None)"

definition validate_rule :: "FirewallRuleSpec \<Rightarrow> spec_error option" where
  "validate_rule s =
     (if fr_src s = [] then Some (SpecError ''src zone is required'')
      else if fr_target s = [] then Some (SpecError ''target is required'')
      else if fr_target s \<notin> set rule_targets then Some (SpecError ''target must be accept, reject, or drop'')
      else if fr_proto s \<notin> set [[], ''any'', ''tcp'', ''udp'', ''tcpudp'', ''icmp'', ''igmp'']
        then Some (SpecError ''proto must be any, tcp, udp, tcpudp, icmp, or igmp'')
      else first_error [validateIPOrCIDR ''srcIp'' (fr_src_ip s), validateIPOrCIDR ''destIp'' (fr_dest_ip s),
             validatePortOrRange ''srcPort'' (fr_src_port s), validatePortOrRange ''destPort'' (fr_dest_port s)])"

definition validateIntentSpecWithStored :: "string \<Rightarrow> raw_json \<Rightarrow> bool \<Rightarrow> spec_error option" where
  "validateIntentSpecWithStored kind r stored =
     (if kind = IntentPortForward then
        (case decode_port_forward r of None \<Rightarrow> Some (SpecError ''invalid port_forward spec'') | Some s \<Rightarrow> validate_port_forward s)
      else if kind = IntentWANConfig then
        (case decode_wan r of None \<Rightarrow> Some (SpecError ''invalid wan_config spec'') | Some s \<Rightarrow> validateWANConfigSpec s stored)
      else if kind = IntentFirewallRule then
        (case decode_rule r of None \<Rightarrow> Some (SpecError ''invalid firewall_rule spec'') | Some s \<Rightarrow> validate_rule s)
      else Some (SpecError ''unsupported intent kind''))"

definition validateIntentSpec :: "string \<Rightarrow> raw_json \<Rightarrow> spec_error option" where
  "validateIntentSpec kind r = validateIntentSpecWithStored kind r False"

end
