(* ===== verification/Firewall_Store.thy ===== *)
theory Firewall_Store
  imports Firewall_Compile
begin

text \<open>
  The firewall store with its write-only secrets (\<^verbatim>\<open>api/internal/firewall/{store,secrets}.go\<close>), the
  intent handlers (\<^verbatim>\<open>api/internal/api/firewall_handlers.go\<close>), the seeding of the baseline rules
  (\<^verbatim>\<open>seed.go\<close>) and the upkeep of the name forward (\<^verbatim>\<open>dnsforward.go\<close>).  Every statement or transaction
  can fail: \<open>fs_faults\<close> lists the outcomes, and one that fails leaves the tables as they are.
\<close>

section \<open>Tables\<close>

record NodeState =
  ns_node :: string
  ns_intent_hash :: string
  ns_observed_hash :: string
  ns_last_applied :: "gotime option"
  ns_last_reconciled :: "gotime option"
  ns_drift :: bool
  ns_pending :: bool

record fw_store =
  fs_intents :: "Intent list"
  fs_secrets :: "(string \<times> string) list"
  fs_states :: "NodeState list"
  fs_seeded :: "string list"
  fs_faults :: "bool list"

datatype fw_error = FwDb | FwConstraint | FwNoRows | FwSecretType | FwCompile compile_error

definition fs_fault :: "fw_store \<Rightarrow> bool \<times> fw_store" where
  "fs_fault s = (case fs_faults s of [] \<Rightarrow> (False, s) | b # bs \<Rightarrow> (b, s\<lparr>fs_faults := bs\<rparr>))"

section \<open>Write-only secrets\<close>

definition secretField :: string where "secretField = ''secret''"
definition secretSetField :: string where "secretSetField = ''secretSet''"

definition splitSecret :: "string \<Rightarrow> raw_json \<Rightarrow> fw_error + (raw_json \<times> string)" where
  "splitSecret kind spec =
     (if kind \<noteq> IntentWANConfig then Inr (spec, [])
      else case spec of
        Some (JObj flds) \<Rightarrow>
          (let m = as_map flds in
           if map_of m secretField = None \<and> map_of m secretSetField = None then Inr (spec, [])
           else case (case map_of m secretField of None \<Rightarrow> Some [] | Some JNull \<Rightarrow> Some [] | Some v \<Rightarrow> as_str v) of
             None \<Rightarrow> Inl FwSecretType
           | Some sec \<Rightarrow> Inr (Some (JObj (sort_key fst (AList.delete secretSetField (AList.delete secretField m)))), sec))
      | _ \<Rightarrow> Inr (spec, []))"

definition putSecret :: "string \<Rightarrow> string \<Rightarrow> fw_store \<Rightarrow> fw_store" where
  "putSecret i sec s = (if sec = [] then s else s\<lparr>fs_secrets := AList.update i sec (fs_secrets s)\<rparr>)"

text \<open>The columns of a row, and the projection a read returns.\<close>

definition intent_row :: "Intent \<Rightarrow> raw_json \<Rightarrow> Intent" where
  "intent_row i spec = i\<lparr>in_spec := spec, in_secret_set := False\<rparr>"

definition scanIntent :: "fw_store \<Rightarrow> Intent \<Rightarrow> Intent" where
  "scanIntent s i = i\<lparr>in_secret_set := (map_of (fs_secrets s) (in_id i) \<noteq> None)\<rparr>"

definition CreateIntent :: "Intent \<Rightarrow> fw_store \<Rightarrow> (fw_error + Intent) \<times> fw_store" where
  "CreateIntent i s = (case splitSecret (in_kind i) (in_spec i) of
     Inl e \<Rightarrow> (Inl e, s)
   | Inr (spec, sec) \<Rightarrow>
       (let (bad, s1) = fs_fault s in
        if bad then (Inl FwDb, s1)
        else if in_id i \<in> in_id ` set (fs_intents s1) then (Inl FwConstraint, s1)
        else (Inr (i\<lparr>in_spec := spec, in_secret_set := (sec \<noteq> [])\<rparr>),
              putSecret (in_id i) sec (s1\<lparr>fs_intents := fs_intents s1 @ [intent_row i spec]\<rparr>))))"

definition UpdateIntent :: "Intent \<Rightarrow> fw_store \<Rightarrow> (fw_error + Intent) \<times> fw_store" where
  "UpdateIntent i s = (case splitSecret (in_kind i) (in_spec i) of
     Inl e \<Rightarrow> (Inl e, s)
   | Inr (spec, sec) \<Rightarrow>
       (let (bad, s1) = fs_fault s in
        if bad then (Inl FwDb, s1)
        else if in_id i \<notin> in_id ` set (fs_intents s1) then (Inl FwNoRows, s1)
        else let s2 = putSecret (in_id i) sec (s1\<lparr>fs_intents := sql_update (\<lambda>q. in_id q = in_id i)
                   (\<lambda>q. (intent_row i spec)\<lparr>in_created := in_created q\<rparr>) (fs_intents s1)\<rparr>)
             in (Inr (i\<lparr>in_spec := spec, in_secret_set := (map_of (fs_secrets s2) (in_id i) \<noteq> None)\<rparr>), s2)))"

definition DeleteIntent :: "string \<Rightarrow> fw_store \<Rightarrow> fw_error option \<times> fw_store" where
  "DeleteIntent i s = (let (bad, s1) = fs_fault s in
     if bad then (Some FwDb, s1)
     else if i \<notin> in_id ` set (fs_intents s1) then (Some FwNoRows, s1)
     else (None, s1\<lparr>fs_intents := filter (\<lambda>q. in_id q \<noteq> i) (fs_intents s1), fs_secrets := AList.delete i (fs_secrets s1)\<rparr>))"

definition GetIntent :: "string \<Rightarrow> fw_store \<Rightarrow> (fw_error + Intent option) \<times> fw_store" where
  "GetIntent i s = (let (bad, s1) = fs_fault s in
     if bad then (Inl FwDb, s1) else (Inr (map_option (scanIntent s1) (sql_first (\<lambda>q. in_id q = i) (fs_intents s1))), s1))"

definition ListIntents :: "fw_store \<Rightarrow> (fw_error + Intent list) \<times> fw_store" where
  "ListIntents s = (let (bad, s1) = fs_fault s in
     if bad then (Inl FwDb, s1) else (Inr (map (scanIntent s1) (sql_order (\<lambda>i. (in_created i, in_id i)) (fs_intents s1))), s1))"

definition secrets :: "fw_store \<Rightarrow> (fw_error + (string \<times> string) list) \<times> fw_store" where
  "secrets s = (let (bad, s1) = fs_fault s in if bad then (Inl FwDb, s1) else (Inr (fs_secrets s1), s1))"

definition ListIntentsForCompile :: "fw_store \<Rightarrow> (fw_error + (Intent list \<times> (string \<times> string) list)) \<times> fw_store" where
  "ListIntentsForCompile s = (case ListIntents s of
     (Inl e, s1) \<Rightarrow> (Inl e, s1)
   | (Inr is, s1) \<Rightarrow> (case secrets s1 of (Inl e, s2) \<Rightarrow> (Inl e, s2) | (Inr ss, s2) \<Rightarrow> (Inr (is, ss), s2)))"

definition DisableOtherWANConfigs :: "string \<Rightarrow> gotime \<Rightarrow> fw_store \<Rightarrow> fw_error option \<times> fw_store" where
  "DisableOtherWANConfigs keep t s = (let (bad, s1) = fs_fault s in
     if bad then (Some FwDb, s1)
     else (None, s1\<lparr>fs_intents := sql_update (\<lambda>q. in_kind q = IntentWANConfig \<and> in_id q \<noteq> keep \<and> in_enabled q)
            (\<lambda>q. q\<lparr>in_enabled := False, in_updated := t\<rparr>) (fs_intents s1)\<rparr>))"

text \<open>Rows written before the secret had a table of its own; each moves in its own transaction.\<close>

definition moveSecret :: "string \<Rightarrow> raw_json \<Rightarrow> string \<Rightarrow> fw_store \<Rightarrow> fw_error option \<times> fw_store" where
  "moveSecret i spec sec s = (let (bad, s1) = fs_fault s in
     if bad then (Some FwDb, s1)
     else (None, (putSecret i sec s1)\<lparr>fs_intents := sql_update (\<lambda>q. in_id q = i) (\<lambda>q. q\<lparr>in_spec := spec\<rparr>) (fs_intents s1)\<rparr>))"

definition migrate_pending :: "Intent list \<Rightarrow> (string \<times> raw_json \<times> string) list" where
  "migrate_pending rows = List.map_filter (\<lambda>q. case splitSecret IntentWANConfig (in_spec q) of
      Inl _ \<Rightarrow> None | Inr (spec, sec) \<Rightarrow> if spec = in_spec q then None else Some (in_id q, spec, sec))
    (sql_select (\<lambda>q. in_kind q = IntentWANConfig) rows)"

definition migrateInlineSecrets :: "fw_store \<Rightarrow> fw_store" where
  "migrateInlineSecrets s = (let (bad, s1) = fs_fault s in
     if bad then s1
     else fold (\<lambda>(i, spec, sec) x. snd (moveSecret i spec sec x)) (migrate_pending (fs_intents s1)) s1)"

definition OpenStore_fw :: "fw_store \<Rightarrow> fw_store" where
  "OpenStore_fw s = migrateInlineSecrets s"

section \<open>Node state\<close>

definition GetNodeState :: "string \<Rightarrow> fw_store \<Rightarrow> (fw_error + NodeState option) \<times> fw_store" where
  "GetNodeState n s = (let (bad, s1) = fs_fault s in
     if bad then (Inl FwDb, s1) else (Inr (sql_first (\<lambda>q. ns_node q = n) (fs_states s1)), s1))"

definition fresh_state :: "string \<Rightarrow> NodeState" where
  "fresh_state n = \<lparr>ns_node = n, ns_intent_hash = [], ns_observed_hash = [], ns_last_applied = None, ns_last_reconciled = None,
     ns_drift = False, ns_pending = False\<rparr>"

definition upsert_state :: "string \<Rightarrow> (NodeState \<Rightarrow> NodeState) \<Rightarrow> fw_store \<Rightarrow> fw_error option \<times> fw_store" where
  "upsert_state n f s = (let (bad, s1) = fs_fault s in
     if bad then (Some FwDb, s1)
     else (None, s1\<lparr>fs_states := (if n \<in> ns_node ` set (fs_states s1) then sql_update (\<lambda>q. ns_node q = n) f (fs_states s1)
            else fs_states s1 @ [f (fresh_state n)])\<rparr>))"

definition UpdateAfterApply :: "string \<Rightarrow> string \<Rightarrow> gotime \<Rightarrow> fw_store \<Rightarrow> fw_error option \<times> fw_store" where
  "UpdateAfterApply n h t = upsert_state n (\<lambda>q. q\<lparr>ns_intent_hash := h, ns_observed_hash := h, ns_last_applied := Some t\<rparr>)"

definition UpdateAfterReconcile :: "string \<Rightarrow> string \<Rightarrow> gotime \<Rightarrow> fw_store \<Rightarrow> fw_error option \<times> fw_store" where
  "UpdateAfterReconcile n h t = upsert_state n (\<lambda>q. q\<lparr>ns_observed_hash := h, ns_last_reconciled := Some t\<rparr>)"

definition DeleteNodeState :: "string \<Rightarrow> fw_store \<Rightarrow> (fw_error + bool) \<times> fw_store" where
  "DeleteNodeState n s = (let (bad, s1) = fs_fault s in
     if bad then (Inl FwDb, s1)
     else (Inr (n \<in> ns_node ` set (fs_states s1)), s1\<lparr>fs_states := filter (\<lambda>q. ns_node q \<noteq> n) (fs_states s1)\<rparr>))"

definition swapIntentHash :: "string \<Rightarrow> string \<Rightarrow> string \<Rightarrow> fw_store \<Rightarrow> (fw_error + bool) \<times> fw_store" where
  "swapIntentHash n from to s = (let (bad, s1) = fs_fault s in
     if bad then (Inl FwDb, s1)
     else (Inr (\<exists>q \<in> set (fs_states s1). ns_node q = n \<and> ns_intent_hash q = from),
           s1\<lparr>fs_states := sql_update (\<lambda>q. ns_node q = n \<and> ns_intent_hash q = from) (\<lambda>q. q\<lparr>ns_intent_hash := to\<rparr>) (fs_states s1)\<rparr>))"

definition AdoptIntentHash :: "string \<Rightarrow> string \<Rightarrow> string \<Rightarrow> fw_store \<Rightarrow> (fw_error + bool) \<times> fw_store" where
  "AdoptIntentHash n legacy keyed = swapIntentHash n legacy keyed"

definition ForgetIntentHash :: "string \<Rightarrow> string \<Rightarrow> fw_store \<Rightarrow> (fw_error + bool) \<times> fw_store" where
  "ForgetIntentHash n legacy = swapIntentHash n legacy []"

section \<open>Baseline rules\<close>

definition MarkBaselineSeeded :: "string \<Rightarrow> fw_store \<Rightarrow> (fw_error + bool) \<times> fw_store" where
  "MarkBaselineSeeded n s = (let (bad, s1) = fs_fault s in
     if bad then (Inl FwDb, s1)
     else if n \<in> set (fs_seeded s1) then (Inr False, s1) else (Inr True, s1\<lparr>fs_seeded := fs_seeded s1 @ [n]\<rparr>))"

definition HasLegacyBaselineMarkers :: "string \<Rightarrow> fw_store \<Rightarrow> (fw_error + bool) \<times> fw_store" where
  "HasLegacyBaselineMarkers k s = (let (bad, s1) = fs_fault s in
     if bad then (Inl FwDb, s1) else (Inr (\<exists>n \<in> set (fs_seeded s1). n \<noteq> k), s1))"

definition baselineRules :: "(string \<times> (string \<times> json) list) list" where
  "baselineRules =
     [(''Allow-DHCP-Renew'', [(''src'', JStr ''wan''), (''destPort'', JStr ''68''), (''proto'', JStr ''udp''), (''target'', JStr ''accept'')]),
      (''Allow-Ping'', [(''src'', JStr ''wan''), (''proto'', JStr ''icmp''), (''target'', JStr ''accept'')]),
      (''Allow-IGMP'', [(''src'', JStr ''wan''), (''proto'', JStr ''igmp''), (''target'', JStr ''accept'')])]"

definition baselineSeedKey :: string where "baselineSeedKey = ''_cluster_baseline_''"

text \<open>\<open>ids\<close> are the ULIDs minted, one per rule.\<close>

fun seed_rules :: "string list \<Rightarrow> gotime \<Rightarrow> (string \<times> (string \<times> json) list) list \<Rightarrow> nat \<Rightarrow> fw_store \<Rightarrow> (nat \<times> fw_error option) \<times> fw_store" where
  "seed_rules (u # us) t ((name, spec) # rs) n s =
     (case CreateIntent \<lparr>in_id = u, in_kind = IntentFirewallRule, in_name = name, in_enabled = True, in_spec = Some (JObj spec),
             in_secret_set = False, in_created = t, in_updated = t\<rparr> s of
        (Inl e, s1) \<Rightarrow> ((n, Some e), s1) | (Inr _, s1) \<Rightarrow> seed_rules us t rs (Suc n) s1)"
| "seed_rules us t rs n s = ((n, None), s)"

definition SeedBaselineRules :: "string list \<Rightarrow> gotime \<Rightarrow> fw_store \<Rightarrow> (nat \<times> fw_error option) \<times> fw_store" where
  "SeedBaselineRules us t s = (case MarkBaselineSeeded baselineSeedKey s of
     (Inl e, s1) \<Rightarrow> ((0, Some e), s1)
   | (Inr False, s1) \<Rightarrow> ((0, None), s1)
   | (Inr True, s1) \<Rightarrow> (case HasLegacyBaselineMarkers baselineSeedKey s1 of
       (Inl e, s2) \<Rightarrow> ((0, Some e), s2)
     | (Inr True, s2) \<Rightarrow> ((0, None), s2)
     | (Inr False, s2) \<Rightarrow> seed_rules us t baselineRules 0 s2))"

section \<open>The name forward\<close>

definition dnsForwardName :: string where "dnsForwardName = ''DNS-Forward-Internal''"

definition the_forward :: "Intent list \<Rightarrow> Intent option" where
  "the_forward is = sql_first (\<lambda>i. in_kind i = IntentDNSForward) is"

definition forward_spec :: "string \<Rightarrow> string \<Rightarrow> raw_json" where
  "forward_spec zone target = Some (JObj [(''zone'', JStr zone), (''target'', JStr target)])"

definition UpsertDNSForward :: "string \<Rightarrow> gotime \<Rightarrow> string \<Rightarrow> string \<Rightarrow> bool \<Rightarrow> fw_store \<Rightarrow> (fw_error + bool) \<times> fw_store" where
  "UpsertDNSForward u t zone target want s = (case ListIntents s of
     (Inl e, s1) \<Rightarrow> (Inl e, s1)
   | (Inr is, s1) \<Rightarrow>
       (case (the_forward is, want) of
          (None, False) \<Rightarrow> (Inr False, s1)
        | (Some i, False) \<Rightarrow> (case DeleteIntent (in_id i) s1 of (Some e, s2) \<Rightarrow> (Inl e, s2) | (None, s2) \<Rightarrow> (Inr True, s2))
        | (None, True) \<Rightarrow>
            (case CreateIntent \<lparr>in_id = u, in_kind = IntentDNSForward, in_name = dnsForwardName, in_enabled = True,
                    in_spec = forward_spec zone target, in_secret_set = False, in_created = t, in_updated = t\<rparr> s1 of
               (Inl e, s2) \<Rightarrow> (Inl e, s2) | (Inr _, s2) \<Rightarrow> (Inr True, s2))
        | (Some i, True) \<Rightarrow>
            (let cur = (case decode_dns_forward (in_spec i) of None \<Rightarrow> \<lparr>df_zone = [], df_target = []\<rparr> | Some c \<Rightarrow> c) in
             if in_enabled i \<and> df_zone cur = zone \<and> df_target cur = target then (Inr False, s1)
             else case UpdateIntent (i\<lparr>in_spec := forward_spec zone target, in_enabled := True, in_updated := t\<rparr>) s1 of
               (Inl e, s2) \<Rightarrow> (Inl e, s2) | (Inr _, s2) \<Rightarrow> (Inr True, s2))))"

section \<open>Handlers\<close>

text \<open>
  The answer is the status code with the intent it shows.  Submitting the forward's job is recorded by
  its reason.  \<open>u\<close> is the ULID minted, \<open>t\<close> the time; a request whose body does not decode is \<^term>\<open>None\<close>.
\<close>

type_synonym http = "nat \<times> Intent option"

record create_req =
  cq_kind :: string
  cq_name :: string
  cq_enabled :: "bool option"
  cq_spec :: raw_json

record update_req =
  uq_name :: "string option"
  uq_enabled :: "bool option"
  uq_spec :: "raw_json option"

definition enforceWANConfigInvariant :: "Intent \<Rightarrow> gotime \<Rightarrow> fw_store \<Rightarrow> fw_error option \<times> fw_store" where
  "enforceWANConfigInvariant i t s =
     (if in_kind i \<noteq> IntentWANConfig \<or> \<not> in_enabled i then (None, s) else DisableOtherWANConfigs (in_id i) t s)"

definition handleCreateIntent :: "create_req option \<Rightarrow> string \<Rightarrow> gotime \<Rightarrow> fw_store \<Rightarrow> http \<times> fw_store" where
  "handleCreateIntent rq u t s = (case rq of
     None \<Rightarrow> ((400, None), s)
   | Some q \<Rightarrow>
       if cq_name q = [] \<or> \<not> ValidFirewallIntentKind (cq_kind q) \<or> validateIntentSpec (cq_kind q) (cq_spec q) \<noteq> None then ((400, None), s)
       else case CreateIntent \<lparr>in_id = u, in_kind = cq_kind q, in_name = cq_name q,
                   in_enabled = (case cq_enabled q of None \<Rightarrow> True | Some b \<Rightarrow> b), in_spec = cq_spec q, in_secret_set = False,
                   in_created = t, in_updated = t\<rparr> s of
         (Inl e, s1) \<Rightarrow> ((500, None), s1)
       | (Inr i, s1) \<Rightarrow> (case enforceWANConfigInvariant i t s1 of
           (Some e, s2) \<Rightarrow> ((500, None), s2) | (None, s2) \<Rightarrow> ((201, Some i), s2)))"

definition handleUpdateIntent :: "string \<Rightarrow> update_req option \<Rightarrow> gotime \<Rightarrow> fw_store \<Rightarrow> (http \<times> string list) \<times> fw_store" where
  "handleUpdateIntent i rq t s = (case GetIntent i s of
     (Inl e, s1) \<Rightarrow> (((500, None), []), s1)
   | (Inr None, s1) \<Rightarrow> (((404, None), []), s1)
   | (Inr (Some old), s1) \<Rightarrow> (case rq of
       None \<Rightarrow> (((400, None), []), s1)
     | Some q \<Rightarrow>
         (let e1 = old\<lparr>in_name := (case uq_name q of None \<Rightarrow> in_name old | Some x \<Rightarrow> x),
                       in_enabled := (case uq_enabled q of None \<Rightarrow> in_enabled old | Some x \<Rightarrow> x)\<rparr>
          in case (case uq_spec q of None \<Rightarrow> Inr e1
                   | Some r \<Rightarrow> (case validateIntentSpecWithStored (in_kind old) r (in_secret_set old) of
                       Some e \<Rightarrow> Inl e | None \<Rightarrow> Inr (e1\<lparr>in_spec := r\<rparr>))) of
               Inl e \<Rightarrow> (((400, None), []), s1)
             | Inr e2 \<Rightarrow> (case UpdateIntent (e2\<lparr>in_updated := t\<rparr>) s1 of
                 (Inl e, s2) \<Rightarrow> (((500, None), []), s2)
               | (Inr e3, s2) \<Rightarrow> (case enforceWANConfigInvariant e3 t s2 of
                   (Some e, s3) \<Rightarrow> (((500, None), []), s3)
                 | (None, s3) \<Rightarrow> (((200, Some e3), if in_kind e3 = IntentDNSForward then [''dns-forward-edited''] else []), s3))))))"

definition handleDeleteIntent :: "string \<Rightarrow> fw_store \<Rightarrow> (http \<times> string list) \<times> fw_store" where
  "handleDeleteIntent i s = (let (prior, s1) = GetIntent i s in
     case DeleteIntent i s1 of
       (Some FwNoRows, s2) \<Rightarrow> (((404, None), []), s2)
     | (Some e, s2) \<Rightarrow> (((500, None), []), s2)
     | (None, s2) \<Rightarrow> (((204, None),
         case prior of Inr (Some p) \<Rightarrow> if in_kind p = IntentDNSForward then [''dns-forward-deleted''] else [] | _ \<Rightarrow> []), s2))"

definition handleListIntents :: "fw_store \<Rightarrow> (nat \<times> Intent list) \<times> fw_store" where
  "handleListIntents s = (case ListIntents s of (Inl e, s1) \<Rightarrow> ((500, []), s1) | (Inr is, s1) \<Rightarrow> ((200, is), s1))"

end
