(* ===== verification/Firewall_Service.thy ===== *)
theory Firewall_Service
  imports Firewall_Store Job_Runner
begin

text \<open>
  The firewall's business rules (\<^verbatim>\<open>api/internal/firewall/service.go\<close>, \<^verbatim>\<open>api/internal/credmac\<close>) and its
  workflows (\<^verbatim>\<open>jobs.go\<close>, \<^verbatim>\<open>dnsforward.go\<close>) as workflows of the modelled executor.  The keyed
  fingerprint is a parameter \<open>fw_key\<close> over the state with its keys sorted, as \<^verbatim>\<open>encoding/json\<close> writes
  it.  The agent's answers are listed in \<open>fw_replies\<close>; what is sent and published is kept as history.
\<close>

section \<open>World\<close>

record fw_ack =
  ack_ok :: bool
  ack_hash :: string
  ack_state :: "(string \<times> uci) list"

text \<open>A request ends in an error, in an answer that does not decode, or in an answer.\<close>

datatype fw_reply = RpcError | RpcGarbage | RpcAck fw_ack

datatype fw_cmd = CmdApply string "(string \<times> uci) list" string | CmdGet string | CmdSetActive string bool

datatype fw_change = FirewallApplied string string | FirewallDrift string string string | FirewallInSync string string string

record fw_world =
  fw_db :: fw_store
  fw_inv :: inventory
  fw_key :: "uci \<Rightarrow> string"
  fw_managed :: "(unit + bool) option"
  fw_now :: gotime
  fw_replies :: "fw_reply list"
  fw_sent :: "fw_cmd list"
  fw_events :: "fw_change list"
  fw_submits :: "string list"
  fw_submit_fails :: bool
  fw_ulid :: string
  fw_zone :: string
  fw_target :: string

definition on_db :: "(fw_store \<Rightarrow> 'a \<times> fw_store) \<Rightarrow> fw_world \<Rightarrow> 'a \<times> fw_world" where
  "on_db f w = (let (r, s) = f (fw_db w) in (r, w\<lparr>fw_db := s\<rparr>))"

definition firewalls :: "fw_world \<Rightarrow> (inv_error + Node list) \<times> fw_world" where
  "firewalls w = (let (r, s) = ListByRole ''firewall'' (fw_inv w) in (r, w\<lparr>fw_inv := s\<rparr>))"

definition request :: "fw_cmd \<Rightarrow> fw_world \<Rightarrow> fw_reply \<times> fw_world" where
  "request c w = (let w1 = w\<lparr>fw_sent := fw_sent w @ [c]\<rparr> in
     case fw_replies w of [] \<Rightarrow> (RpcError, w1) | r # rs \<Rightarrow> (r, w1\<lparr>fw_replies := rs\<rparr>))"

section \<open>Fingerprints\<close>

definition keyed_prefix :: string where "keyed_prefix = ''k1-''"

definition IsKeyed :: "string \<Rightarrow> bool" where
  "IsKeyed h \<longleftrightarrow> has_prefix keyed_prefix h"

text \<open>The document \<^verbatim>\<open>json.Marshal\<close> writes: the keys of every map sorted.\<close>

fun canon :: "uci \<Rightarrow> uci" where
  "canon (VMap kvs) = VMap (sort_key fst (map (\<lambda>(k, v). (k, canon v)) kvs))"
| "canon (VList vs) = VList (map canon vs)"
| "canon v = v"

definition fingerprint :: "(uci \<Rightarrow> string) \<Rightarrow> (string \<times> uci) list \<Rightarrow> string" where
  "fingerprint key st = keyed_prefix @ key (canon (VMap (revealState st)))"

definition EmptyHash :: "(uci \<Rightarrow> string) \<Rightarrow> string" where
  "EmptyHash key = (case Compile [] [] of Inl _ \<Rightarrow> [] | Inr st \<Rightarrow> fingerprint key st)"

record compiled =
  cd_intents :: "Intent list"
  cd_state :: "(string \<times> uci) list"
  cd_hash :: string

definition svc_compile :: "fw_world \<Rightarrow> (fw_error + compiled) \<times> fw_world" where
  "svc_compile w = (case on_db ListIntentsForCompile w of
     (Inl e, w1) \<Rightarrow> (Inl e, w1)
   | (Inr (is, secs), w1) \<Rightarrow> (case Compile is secs of
       Inl e \<Rightarrow> (Inl (FwCompile e), w1)
     | Inr st \<Rightarrow> (Inr \<lparr>cd_intents = is, cd_state = st, cd_hash = fingerprint (fw_key w1) st\<rparr>, w1)))"

definition DesiredHash :: "fw_world \<Rightarrow> (fw_error + string) \<times> fw_world" where
  "DesiredHash w = (case svc_compile w of (Inl e, w1) \<Rightarrow> (Inl e, w1) | (Inr c, w1) \<Rightarrow> (Inr (cd_hash c), w1))"

definition pushed :: "(uci \<Rightarrow> string) \<Rightarrow> string \<Rightarrow> string" where
  "pushed key h = (if h = [] then EmptyHash key else h)"

definition drifts :: "(uci \<Rightarrow> string) \<Rightarrow> NodeState \<Rightarrow> bool" where
  "drifts key ns \<longleftrightarrow> ns_last_applied ns \<noteq> None \<and> ns_observed_hash ns \<noteq> [] \<and> ns_observed_hash ns \<noteq> pushed key (ns_intent_hash ns)"

definition svc_NodeState :: "string \<Rightarrow> fw_world \<Rightarrow> (fw_error + NodeState option) \<times> fw_world" where
  "svc_NodeState n w = (case on_db (GetNodeState n) w of
     (Inl e, w1) \<Rightarrow> (Inl e, w1)
   | (Inr r, w1) \<Rightarrow> (Inr (map_option (\<lambda>ns. ns\<lparr>ns_drift := drifts (fw_key w1) ns\<rparr>) r), w1))"

fun node_states :: "string \<Rightarrow> string list \<Rightarrow> fw_world \<Rightarrow> (fw_error + NodeState list) \<times> fw_world" where
  "node_states desired [] w = (Inr [], w)"
| "node_states desired (n # ns) w = (case svc_NodeState n w of
     (Inl e, w1) \<Rightarrow> (Inl e, w1)
   | (Inr r, w1) \<Rightarrow>
       (let st = (case r of None \<Rightarrow> fresh_state n | Some x \<Rightarrow> x);
            st1 = st\<lparr>ns_pending := (pushed (fw_key w1) (ns_intent_hash st) \<noteq> desired)\<rparr>
        in case node_states desired ns w1 of (Inl e, w2) \<Rightarrow> (Inl e, w2) | (Inr rest, w2) \<Rightarrow> (Inr (st1 # rest), w2)))"

definition NodeStates :: "string list \<Rightarrow> fw_world \<Rightarrow> (fw_error + NodeState list) \<times> fw_world" where
  "NodeStates ids w = (case DesiredHash w of (Inl e, w1) \<Rightarrow> (Inl e, w1) | (Inr d, w1) \<Rightarrow> node_states d ids w1)"

text \<open>\<^verbatim>\<open>GET /api/firewall/state\<close>: the status code with the states it shows.\<close>

definition handleGetFirewallState :: "fw_world \<Rightarrow> (nat \<times> NodeState list) \<times> fw_world" where
  "handleGetFirewallState w = (case firewalls w of
     (Inl e, w1) \<Rightarrow> ((500, []), w1)
   | (Inr ns, w1) \<Rightarrow> (case NodeStates (map n_id ns) w1 of (Inl e, w2) \<Rightarrow> ((500, []), w2) | (Inr sts, w2) \<Rightarrow> ((200, sts), w2)))"

section \<open>Observing\<close>

definition seal_wan :: "(string \<times> uci) list \<Rightarrow> (string \<times> uci) list" where
  "seal_wan w = (case map_of w ''password'' of Some (VStr p) \<Rightarrow> AList.update ''password'' (VSecret p) w | _ \<Rightarrow> w)"

definition sealObservedSecret :: "(string \<times> uci) list \<Rightarrow> (string \<times> uci) list" where
  "sealObservedSecret st = (case map_of st ''network'' of
     Some (VMap n) \<Rightarrow> (case map_of n ''wan'' of
       Some (VMap w) \<Rightarrow> AList.update ''network'' (VMap (AList.update ''wan'' (VMap (seal_wan w)) n)) st
     | _ \<Rightarrow> st)
   | _ \<Rightarrow> st)"

datatype observe_error = ObDecode | ObDb fw_error | ObAgentUnread

definition settle_legacy :: "string \<Rightarrow> string \<Rightarrow> string \<Rightarrow> NodeState option \<Rightarrow> fw_world \<Rightarrow> observe_error option \<times> fw_world" where
  "settle_legacy n ackHash observed stored w =
     (case stored of
        None \<Rightarrow> (None, w)
      | Some ns \<Rightarrow>
          if ns_intent_hash ns = [] \<or> IsKeyed (ns_intent_hash ns) then (None, w)
          else if ackHash = [] then (Some ObAgentUnread, w)
          else case on_db (if ackHash = ns_intent_hash ns then AdoptIntentHash n (ns_intent_hash ns) observed
                           else ForgetIntentHash n (ns_intent_hash ns)) w of
            (Inl e, w1) \<Rightarrow> (Some (ObDb e), w1) | (Inr _, w1) \<Rightarrow> (None, w1))"

definition observe :: "string \<Rightarrow> fw_reply \<Rightarrow> fw_world \<Rightarrow> (observe_error + string) \<times> fw_world" where
  "observe n reply w = (case reply of
     RpcAck ack \<Rightarrow>
       (let st = sealObservedSecret (ack_state ack);
            observed = (if ack_hash ack = [] then [] else fingerprint (fw_key w) st)
        in case on_db (GetNodeState n) w of
             (Inl e, w1) \<Rightarrow> (Inl (ObDb e), w1)
           | (Inr stored, w1) \<Rightarrow> (case settle_legacy n (ack_hash ack) observed stored w1 of
               (Some e, w2) \<Rightarrow> (Inl e, w2)
             | (None, w2) \<Rightarrow> (case on_db (UpdateAfterReconcile n observed (fw_now w2)) w2 of
                 (Some e, w3) \<Rightarrow> (Inl (ObDb e), w3) | (None, w3) \<Rightarrow> (Inr observed, w3))))
   | _ \<Rightarrow> (Inl ObDecode, w))"

section \<open>Steps\<close>

definition ShortFingerprint :: "string \<Rightarrow> string" where
  "ShortFingerprint fp = take 12 fp"

text \<open>The text of a result: an object of strings, numbers and flags.\<close>

datatype atom = AStr string | ANum nat | ABool bool

definition atom_text :: "atom \<Rightarrow> string" where
  "atom_text a = (case a of AStr s \<Rightarrow> [CHR 0x22] @ s @ [CHR 0x22] | ANum n \<Rightarrow> show_nat n | ABool b \<Rightarrow> if b then ''true'' else ''false'')"

definition object_text :: "(string \<times> atom) list \<Rightarrow> string" where
  "object_text kvs = ''{'' @ go_join '','' (map (\<lambda>(k, a). atom_text (AStr k) @ '':'' @ atom_text a) kvs) @ ''}''"

type_synonym fw_do = "step_ctx \<Rightarrow> fw_world \<Rightarrow> do_result \<times> (string \<times> string) list \<times> fw_world"

definition modeGate :: fw_do where
  "modeGate sc w = (case fw_managed w of
     None \<Rightarrow> (DoOk None, [], w)
   | Some (Inl _) \<Rightarrow> (DoErr ''mode gate'', [], w)
   | Some (Inr True) \<Rightarrow> (DoOk None, [], w)
   | Some (Inr False) \<Rightarrow> (DoStop None, [(''info'', ''firewall management is disabled for this deployment mode (LAN peer)'')], w))"

definition applyFindTarget :: fw_do where
  "applyFindTarget sc w = (case firewalls w of
     (Inl e, w1) \<Rightarrow> (DoErr ''inventory lookup'', [], w1)
   | (Inr [], w1) \<Rightarrow> (DoErr ''no firewall-role node is registered'', [], w1)
   | (Inr [n], w1) \<Rightarrow> (DoOk (Some (object_text [(''nodeId'', AStr (n_id n))])), [(''info'', ''target firewall node: '' @ n_id n)], w1)
   | (Inr (n # m # ns), w1) \<Rightarrow> (DoErr (''expected exactly one firewall node, found '' @ show_nat (length ns + 2)), [], w1))"

definition applyCompile :: fw_do where
  "applyCompile sc w = (case svc_compile w of
     (Inl e, w1) \<Rightarrow> (DoErr ''compile'', [], w1)
   | (Inr c, w1) \<Rightarrow>
       (let enabled = length (filter in_enabled (cd_intents c)) in
        (DoOk (Some (object_text [(''hash'', AStr (cd_hash c)), (''intentCount'', ANum enabled)])),
         [(''info'', ''compiled '' @ show_nat enabled @ '' enabled intent(s), hash='' @ ShortFingerprint (cd_hash c))], w1)))"

text \<open>The one firewall node, or the failure of the step.\<close>

definition single_firewall :: "fw_world \<Rightarrow> string option \<times> fw_world" where
  "single_firewall w = (case firewalls w of (Inr [n], w1) \<Rightarrow> (Some (n_id n), w1) | (_, w1) \<Rightarrow> (None, w1))"

text \<open>A failure to record the apply is only logged.\<close>

definition applyPush :: fw_do where
  "applyPush sc w = (case single_firewall w of
     (None, w1) \<Rightarrow> (DoErr ''firewall node lookup'', [], w1)
   | (Some n, w1) \<Rightarrow> (case svc_compile w1 of
       (Inl e, w2) \<Rightarrow> (DoErr ''compile'', [], w2)
     | (Inr c, w2) \<Rightarrow>
         (let h = cd_hash c; l1 = (''info'', ''pushing to '' @ n);
              (reply, w3) = request (CmdApply n (revealState (cd_state c)) h) w2
          in case reply of
               RpcError \<Rightarrow> (DoErr ''apply rpc'', [l1], w3)
             | RpcGarbage \<Rightarrow> (DoErr ''decode ack'', [l1], w3)
             | RpcAck ack \<Rightarrow>
                 if \<not> ack_ok ack then (DoErr ''agent reported apply failed'', [l1], w3)
                 else let (_, w4) = on_db (UpdateAfterApply n h (fw_now w3)) w3
                      in (DoOk (Some (object_text [(''hash'', AStr h), (''nodeId'', AStr n)])),
                          [l1, (''info'', ''applied: hash='' @ ShortFingerprint h)],
                          w4\<lparr>fw_events := fw_events w4 @ [FirewallApplied n h]\<rparr>))))"

definition sendSetActive :: "bool \<Rightarrow> fw_world \<Rightarrow> (string + string) \<times> fw_world" where
  "sendSetActive active w = (case firewalls w of
     (Inl e, w1) \<Rightarrow> (Inl ''firewall node lookup'', w1)
   | (Inr [n], w1) \<Rightarrow>
       (let (reply, w2) = request (CmdSetActive (n_id n) active) w1
        in (case reply of
              RpcError \<Rightarrow> Inl ''set_active rpc'' | RpcGarbage \<Rightarrow> Inl ''decode ack''
            | RpcAck ack \<Rightarrow> if ack_ok ack then Inr (n_id n) else Inl ''agent reported set_active failed'', w2))
   | (Inr ns, w1) \<Rightarrow> (Inl (''expected exactly one firewall node, found '' @ show_nat (length ns)), w1))"

text \<open>\<open>c_spec\<close> of a set-active job is decoded by \<open>active_of\<close>; \<^term>\<open>None\<close> is a spec that does not decode.\<close>

definition setActivePush :: "(string \<Rightarrow> bool option) \<Rightarrow> fw_do" where
  "setActivePush active_of sc w =
     (case (if c_spec sc = [] then Some False else active_of (c_spec sc)) of
        None \<Rightarrow> (DoErr ''bad spec'', [], w)
      | Some a \<Rightarrow> (case sendSetActive a w of
          (Inl e, w1) \<Rightarrow> (DoErr e, [], w1)
        | (Inr n, w1) \<Rightarrow> (DoOk (Some (object_text [(''active'', ABool a), (''nodeId'', AStr n)])),
            [(''info'', ''firewall active='' @ atom_text (ABool a) @ '' applied on '' @ n)], w1)))"

definition modeEnforce :: fw_do where
  "modeEnforce sc w = (case fw_managed w of
     None \<Rightarrow> (DoOk None, [], w)
   | Some (Inl _) \<Rightarrow> (DoErr ''mode gate'', [], w)
   | Some (Inr True) \<Rightarrow> (DoOk None, [], w)
   | Some (Inr False) \<Rightarrow> (case sendSetActive False w of
       (Inl e, w1) \<Rightarrow> (DoStop None, [(''warn'', ''LAN-peer: could not idle firewall node: '' @ e)], w1)
     | (Inr n, w1) \<Rightarrow> (DoStop None, [(''info'', ''LAN-peer: firewall node ensured idle (DHCP + snort off)'')], w1)))"

definition reconcileFetch :: fw_do where
  "reconcileFetch sc w = (case single_firewall w of
     (None, w1) \<Rightarrow> (DoErr ''firewall node lookup'', [], w1)
   | (Some n, w1) \<Rightarrow>
       (let (reply, w2) = request (CmdGet n) w1 in
        if reply = RpcError then (DoErr ''get rpc'', [], w2)
        else case observe n reply w2 of
          (Inl e, w3) \<Rightarrow> (DoErr ''observe'', [], w3)
        | (Inr h, w3) \<Rightarrow> (DoOk (Some (object_text [(''nodeId'', AStr n), (''observedHash'', AStr h)])),
            [(''info'', ''observed hash='' @ ShortFingerprint h)], w3)))"

definition reconcileCompare :: fw_do where
  "reconcileCompare sc w = (case single_firewall w of
     (None, w1) \<Rightarrow> (DoErr ''firewall node lookup'', [], w1)
   | (Some n, w1) \<Rightarrow> (case svc_NodeState n w1 of
       (Inl e, w2) \<Rightarrow> (DoErr ''node state'', [], w2)
     | (Inr None, w2) \<Rightarrow> (DoErr ''no state recorded for node - apply first'', [], w2)
     | (Inr (Some ns), w2) \<Rightarrow>
         (let ih = ns_intent_hash ns; oh = ns_observed_hash ns; d = ns_drift ns in
          (DoOk (Some (object_text [(''drift'', ABool d), (''intentHash'', AStr ih), (''observedHash'', AStr oh)])),
           [if d then (''warn'', ''DRIFT: intent='' @ ShortFingerprint ih @ '' observed='' @ ShortFingerprint oh)
            else (''info'', ''in sync with intent'')],
           w2\<lparr>fw_events := fw_events w2 @ [if d then FirewallDrift n ih oh else FirewallInSync n ih oh]\<rparr>))))"

definition forwardUnapplied :: "fw_world \<Rightarrow> (fw_error + bool) \<times> fw_world" where
  "forwardUnapplied w = (case firewalls w of
     (Inl e, w1) \<Rightarrow> (Inl FwDb, w1)
   | (Inr ns, w1) \<Rightarrow> (case ns of
       [n] \<Rightarrow> (case on_db ListIntents w1 of
          (Inl e, w2) \<Rightarrow> (Inl e, w2)
        | (Inr is, w2) \<Rightarrow> (case the_forward is of
            None \<Rightarrow> (Inr False, w2)
          | Some f \<Rightarrow> (case on_db (GetNodeState (n_id n)) w2 of
              (Inl e, w3) \<Rightarrow> (Inl e, w3)
            | (Inr None, w3) \<Rightarrow> (Inr True, w3)
            | (Inr (Some st), w3) \<Rightarrow> (Inr (case ns_last_applied st of None \<Rightarrow> True | Some t \<Rightarrow> t < in_updated f), w3))))
     | _ \<Rightarrow> (Inr False, w1)))"

definition dnsForwardReconcile :: fw_do where
  "dnsForwardReconcile sc w = (case (case fw_managed w of None \<Rightarrow> Inr True | Some r \<Rightarrow> r) of
     Inl _ \<Rightarrow> (DoErr ''mode gate'', [], w)
   | Inr managed \<Rightarrow>
       (let want = (managed \<and> fw_zone w \<noteq> [] \<and> fw_target w \<noteq> []) in
        case on_db (UpsertDNSForward (fw_ulid w) (fw_now w) (fw_zone w) (fw_target w) want) w of
          (Inl e, w1) \<Rightarrow> (DoErr ''upsert'', [], w1)
        | (Inr ch, w1) \<Rightarrow>
            (case (if \<not> ch \<and> want then forwardUnapplied w1 else (Inr False, w1)) of
               (Inl e, w2) \<Rightarrow> (DoErr ''unapplied check'', [], w2)
             | (Inr un, w2) \<Rightarrow>
                 if \<not> ch \<and> \<not> un then (DoOk (Some (object_text [(''changed'', ABool False), (''want'', ABool want)])), [], w2)
                 else let applied = (want \<and> \<not> fw_submit_fails w2);
                          w3 = (if want then w2\<lparr>fw_submits := (if fw_submit_fails w2 then fw_submits w2 else fw_submits w2 @ [''firewall.apply''])\<rparr> else w2)
                      in (DoOk (Some (object_text [(''applied'', ABool applied), (''changed'', ABool ch), (''unapplied'', ABool un), (''want'', ABool want)])),
                          [if \<not> want then (''info'', ''dns_forward removed (firewall-less mode)'')
                           else if fw_submit_fails w2 then (''warn'', ''dns_forward changed but auto-apply submit failed'')
                           else (''info'', ''auto-applying'')], w3))))"

section \<open>Workflows\<close>

definition fw_step :: "string \<Rightarrow> fw_do \<Rightarrow> int \<Rightarrow> int \<Rightarrow> fw_world wstep" where
  "fw_step name f secs retries = \<lparr>w_name = name, w_do = f, w_timeout = secs, w_retries = retries, w_irreversible = False\<rparr>"

definition ApplyWorkflow :: "fw_world workflow" where
  "ApplyWorkflow = \<lparr>wf_kind = ''firewall.apply'',
     wf_steps = [fw_step ''mode_gate'' modeGate 2 0, fw_step ''find_target'' applyFindTarget 2 0,
                 fw_step ''compile'' applyCompile 2 0, fw_step ''push'' applyPush 5 0], wf_on_terminal = None\<rparr>"

definition SetActiveWorkflow :: "(string \<Rightarrow> bool option) \<Rightarrow> fw_world workflow" where
  "SetActiveWorkflow active_of = \<lparr>wf_kind = ''firewall.set_active'',
     wf_steps = [fw_step ''find_target'' applyFindTarget 2 0, fw_step ''set_active'' (setActivePush active_of) 12 0], wf_on_terminal = None\<rparr>"

definition ReconcileWorkflow :: "fw_world workflow" where
  "ReconcileWorkflow = \<lparr>wf_kind = ''firewall.reconcile'',
     wf_steps = [fw_step ''mode_enforce'' modeEnforce 12 0, fw_step ''find_target'' applyFindTarget 2 0,
                 fw_step ''fetch_observed'' reconcileFetch 5 0, fw_step ''compare'' reconcileCompare 2 0], wf_on_terminal = None\<rparr>"

definition dnsForwardAttempts :: int where "dnsForwardAttempts = 3"

definition DNSForwardWorkflow :: "fw_world workflow" where
  "DNSForwardWorkflow = \<lparr>wf_kind = ''firewall.dns_forward'',
     wf_steps = [fw_step ''reconcile_forward'' dnsForwardReconcile 5 (dnsForwardAttempts - 1)], wf_on_terminal = None\<rparr>"

end
