(* ===== verification/Firewall_Props.thy ===== *)
theory Firewall_Props
  imports Firewall_Service
begin

text \<open>
  Properties of the compilation: the shape of every state that compiles, and that intents the checks of the handlers
  accept compile, with the two kinds of IPv6 address for which the checks and the compilation disagree.
\<close>

section \<open>The shape of a compiled state\<close>

definition str_at :: "string \<Rightarrow> (string \<times> uci) list \<Rightarrow> (string \<Rightarrow> bool) \<Rightarrow> bool" where
  "str_at k m P = (case map_of m k of Some (VStr s) \<Rightarrow> P s | _ \<Rightarrow> False)"

definition maybe_at :: "string \<Rightarrow> (string \<times> uci) list \<Rightarrow> (string \<Rightarrow> bool) \<Rightarrow> bool" where
  "maybe_at k m P = (case map_of m k of None \<Rightarrow> True | Some (VStr s) \<Rightarrow> P s | _ \<Rightarrow> False)"

definition all_strings :: "(string \<times> uci) list \<Rightarrow> bool" where
  "all_strings m \<longleftrightarrow> list_all (\<lambda>p. case snd p of VStr _ \<Rightarrow> True | _ \<Rightarrow> False) m"

definition port_text :: "string \<Rightarrow> bool" where
  "port_text s \<longleftrightarrow> parse_port s \<noteq> None"

definition not_v6 :: "string \<Rightarrow> bool" where
  "not_v6 s \<longleftrightarrow> rejectIPv6 [] s = None"

definition typed_redirect :: "(string \<times> uci) list \<Rightarrow> bool" where
  "typed_redirect m \<longleftrightarrow> all_strings m \<and> str_at ''src'' m (\<lambda>s. s = ''wan'') \<and> str_at ''dest'' m (\<lambda>s. s = ''lan'') \<and>
     str_at ''src_dport'' m port_text \<and> str_at ''dest_port'' m port_text \<and> str_at ''dest_ip'' m (\<lambda>s. s \<noteq> [] \<and> not_v6 s) \<and>
     str_at ''proto'' m (\<lambda>s. s \<in> {''tcp'', ''udp'', ''tcp udp''}) \<and> str_at ''target'' m (\<lambda>s. s = ''DNAT'')"

definition typed_rule :: "(string \<times> uci) list \<Rightarrow> bool" where
  "typed_rule m \<longleftrightarrow> all_strings m \<and> str_at ''src'' m (\<lambda>s. s \<noteq> []) \<and> str_at ''target'' m (\<lambda>s. s \<in> {''ACCEPT'', ''REJECT'', ''DROP''}) \<and>
     str_at ''proto'' m (\<lambda>s. s \<noteq> []) \<and> maybe_at ''src_ip'' m not_v6 \<and> maybe_at ''dest_ip'' m not_v6"

definition typed_wan :: "(string \<times> uci) list \<Rightarrow> bool" where
  "typed_wan m \<longleftrightarrow> all_strings (AList.delete ''password'' m) \<and> str_at ''proto'' m (\<lambda>s. s \<in> {''none'', ''dhcp'', ''static'', ''pppoe''}) \<and>
     (str_at ''proto'' m (\<lambda>s. s = ''pppoe'') = (map_of m ''password'' \<noteq> None)) \<and>
     (case map_of m ''password'' of None \<Rightarrow> True | Some (VSecret p) \<Rightarrow> p \<noteq> [] | _ \<Rightarrow> False)"

definition map_with :: "((string \<times> uci) list \<Rightarrow> bool) \<Rightarrow> uci \<Rightarrow> bool" where
  "map_with P v = (case v of VMap m \<Rightarrow> P m | _ \<Rightarrow> False)"

definition list_with :: "((string \<times> uci) list \<Rightarrow> bool) \<Rightarrow> uci \<Rightarrow> bool" where
  "list_with P v = (case v of VList vs \<Rightarrow> list_all (map_with P) vs | _ \<Rightarrow> False)"

definition at :: "string \<Rightarrow> (string \<times> uci) list \<Rightarrow> (uci \<Rightarrow> bool) \<Rightarrow> bool" where
  "at k m P = (case map_of m k of None \<Rightarrow> False | Some v \<Rightarrow> P v)"

definition typed_state :: "(string \<times> uci) list \<Rightarrow> bool" where
  "typed_state st \<longleftrightarrow> set (map fst st) \<subseteq> {''firewall'', ''network'', ''dhcp''} \<and>
     at ''firewall'' st (map_with (\<lambda>f. set (map fst f) = {''redirect'', ''rule''} \<and>
       at ''redirect'' f (list_with typed_redirect) \<and> at ''rule'' f (list_with typed_rule))) \<and>
     (map_of st ''network'' \<noteq> None \<longrightarrow> at ''network'' st (map_with (\<lambda>n. set (map fst n) = {''wan''} \<and> at ''wan'' n (map_with typed_wan)))) \<and>
     (map_of st ''dhcp'' \<noteq> None \<longrightarrow> at ''dhcp'' st (map_with (\<lambda>n. set (map fst n) = {''server''} \<and> all_strings n)))"

lemma opt_get [simp]: "map_of (opt k v) x = (if x = k \<and> v \<noteq> [] then Some (VStr v) else None)"
  by (simp add: opt_def)

lemma opt_strings [simp]: "all_strings (opt k v)"
  by (simp add: opt_def all_strings_def)

lemma all_strings_append [simp]: "all_strings (a @ b) = (all_strings a \<and> all_strings b)"
  by (simp add: all_strings_def)

lemma all_strings_Cons [simp]: "all_strings ((k, v) # b) = ((case v of VStr _ \<Rightarrow> True | _ \<Rightarrow> False) \<and> all_strings b)"
  "all_strings []"
  by (simp_all add: all_strings_def)

lemma rejectIPv6_field: "rejectIPv6 f v = None \<longleftrightarrow> not_v6 v"
  by (simp add: rejectIPv6_def not_v6_def Let_def)

lemma port_text_Itoa: "1 \<le> n \<Longrightarrow> n \<le> 65535 \<Longrightarrow> port_text (Itoa n)"
  by (simp add: port_text_def parse_port_def Atoi_Itoa in_int_def max_int_def min_int_def)

lemma upper_targets: "ToUpper ''accept'' = ''ACCEPT''" "ToUpper ''reject'' = ''REJECT''" "ToUpper ''drop'' = ''DROP''"
  by code_simp+

lemma redirect_typed:
  assumes "compilePortForward i = Inr m"
  shows "typed_redirect m"
proof -
  obtain s where s: "decode_port_forward (in_spec i) = Some s"
    using assms by (auto simp: compilePortForward_def split: option.splits)
  define p where "p = (if pf_protocol s = [] then ''tcp'' else pf_protocol s)"
  have t: "1 \<le> pf_wan_port s \<and> pf_wan_port s \<le> 65535" "1 \<le> pf_lan_port s \<and> pf_lan_port s \<le> 65535"
    "pf_lan_host s \<noteq> []" "not_v6 (pf_lan_host s)" "p \<in> set [''tcp'', ''udp'', ''tcpudp'']"
    and m: "m = [(''name'', VStr (in_name i)), (''src'', VStr ''wan''), (''src_dport'', VStr (Itoa (pf_wan_port s))),
                       (''dest'', VStr ''lan''), (''dest_ip'', VStr (pf_lan_host s)), (''dest_port'', VStr (Itoa (pf_lan_port s))),
                       (''proto'', VStr (ucProto p)), (''target'', VStr ''DNAT'')] @ opt ''_comment'' (pf_comment s)"
    using assms unfolding compilePortForward_def s option.case p_def [symmetric] Let_def rejectIPv6_field [symmetric, of _ "''lanHost''"]
    by (auto split: option.splits if_splits)
  have "ucProto p \<in> {''tcp'', ''udp'', ''tcp udp''}"
    using t(5) by (auto simp: ucProto_def)
  then show ?thesis
    using t unfolding typed_redirect_def str_at_def m by (simp add: port_text_Itoa)
qed

lemma rule_typed:
  assumes "compileFirewallRule i = Inr m"
  shows "typed_rule m"
proof -
  obtain s where s: "decode_rule (in_spec i) = Some s"
    using assms by (auto simp: compileFirewallRule_def split: option.splits)
  have t: "fr_src s \<noteq> []" "fr_target s \<in> set rule_targets" "not_v6 (fr_src_ip s)" "not_v6 (fr_dest_ip s)"
    using assms s by (auto simp: compileFirewallRule_def rejectIPv6_field split: option.splits if_splits)
  have u: "ToUpper (fr_target s) \<in> {''ACCEPT'', ''REJECT'', ''DROP''}"
    using t(2) upper_targets by (auto simp: rule_targets_def)
  have p: "ucRuleProto (fr_proto s) \<noteq> []"
    by (simp add: ucRuleProto_def)
  have m: "m = [(''name'', VStr (in_name i)), (''src'', VStr (fr_src s)), (''target'', VStr (ToUpper (fr_target s)))] @
                  opt ''dest'' (fr_dest s) @ opt ''src_ip'' (fr_src_ip s) @ opt ''src_port'' (fr_src_port s) @
                  opt ''dest_ip'' (fr_dest_ip s) @ opt ''dest_port'' (fr_dest_port s) @
                  [(''proto'', VStr (ucRuleProto (fr_proto s)))] @ (if fr_log s then [(''log'', VStr ''1'')] else []) @
                  opt ''_comment'' (fr_comment s)"
    using assms s by (auto simp: compileFirewallRule_def split: option.splits if_splits)
  show ?thesis
    using t u p unfolding typed_rule_def str_at_def maybe_at_def m by (simp add: map_add_def)
qed

lemma wan_typed:
  assumes "compileWANConfig i secs = Inr m"
  shows "typed_wan m"
proof (cases i)
  case None
  then show ?thesis
    using assms by (auto simp: compileWANConfig_def typed_wan_def str_at_def)
next
  case (Some j)
  then obtain s where s: "decode_wan (in_spec j) = Some s"
    using assms by (auto simp: compileWANConfig_def split: option.splits)
  show ?thesis
    using assms unfolding Some compileWANConfig_def option.case s Let_def
    by (auto simp: typed_wan_def str_at_def AList.delete_eq opt_def split: if_splits option.splits)
qed

text \<open>What one run over the intents collects.\<close>

definition is_on :: "string \<Rightarrow> Intent \<Rightarrow> bool" where
  "is_on k i \<longleftrightarrow> in_kind i = k \<and> in_enabled i"

definition collected :: "Intent list \<Rightarrow> compile_acc \<Rightarrow> compile_acc \<Rightarrow> bool" where
  "collected is a b \<longleftrightarrow>
     (\<exists>rs. ca_redirects b = ca_redirects a @ rs \<and> list_all (map_with typed_redirect) rs \<and> length rs = length (filter (is_on IntentPortForward) is)) \<and>
     (\<exists>us. ca_rules b = ca_rules a @ us \<and> list_all (map_with typed_rule) us \<and> length us = length (filter (is_on IntentFirewallRule) is)) \<and>
     (ca_wan_seen b \<longleftrightarrow> ca_wan_seen a \<or> (\<exists>i \<in> set is. in_kind i = IntentWANConfig)) \<and>
     (ca_dns b \<noteq> None \<longleftrightarrow> ca_dns a \<noteq> None \<or> (\<exists>i \<in> set is. is_on IntentDNSForward i))"

lemma kinds_differ [simp]:
  "IntentPortForward \<noteq> IntentFirewallRule" "IntentFirewallRule \<noteq> IntentPortForward" "IntentPortForward \<noteq> IntentWANConfig"
  "IntentWANConfig \<noteq> IntentPortForward" "IntentPortForward \<noteq> IntentDNSForward" "IntentDNSForward \<noteq> IntentPortForward"
  "IntentFirewallRule \<noteq> IntentWANConfig" "IntentWANConfig \<noteq> IntentFirewallRule" "IntentFirewallRule \<noteq> IntentDNSForward"
  "IntentDNSForward \<noteq> IntentFirewallRule" "IntentWANConfig \<noteq> IntentDNSForward" "IntentDNSForward \<noteq> IntentWANConfig"
  by (simp_all add: intent_kinds)

lemma compile_one_collected:
  assumes "compile_one i a = Inr b"
  shows "collected [i] a b"
proof -
  consider "in_kind i = IntentPortForward" | "in_kind i = IntentFirewallRule" | "in_kind i = IntentDNSForward" | "in_kind i = IntentWANConfig"
    using assms by (auto simp: compile_one_def split: if_splits)
  then show ?thesis
  proof cases
    case 1
    then show ?thesis
      using assms redirect_typed by (auto simp: compile_one_def collected_def is_on_def map_with_def split: if_splits sum.splits)
  next
    case 2
    then show ?thesis
      using assms rule_typed by (auto simp: compile_one_def collected_def is_on_def map_with_def split: if_splits sum.splits)
  next
    case 3
    then show ?thesis
      using assms by (auto simp: compile_one_def collected_def is_on_def split: if_splits option.splits)
  next
    case 4
    then show ?thesis
      using assms by (auto simp: compile_one_def collected_def is_on_def Let_def split: if_splits option.splits)
  qed
qed

lemma collected_trans:
  assumes "collected is a b" "collected js b c"
  shows "collected (is @ js) a c"
proof -
  obtain r1 u1 where 1: "ca_redirects b = ca_redirects a @ r1" "list_all (map_with typed_redirect) r1" "length r1 = length (filter (is_on IntentPortForward) is)"
    "ca_rules b = ca_rules a @ u1" "list_all (map_with typed_rule) u1" "length u1 = length (filter (is_on IntentFirewallRule) is)"
    using assms(1) unfolding collected_def by blast
  obtain r2 u2 where 2: "ca_redirects c = ca_redirects b @ r2" "list_all (map_with typed_redirect) r2" "length r2 = length (filter (is_on IntentPortForward) js)"
    "ca_rules c = ca_rules b @ u2" "list_all (map_with typed_rule) u2" "length u2 = length (filter (is_on IntentFirewallRule) js)"
    using assms(2) unfolding collected_def by blast
  have "\<exists>rs. ca_redirects c = ca_redirects a @ rs \<and> list_all (map_with typed_redirect) rs \<and> length rs = length (filter (is_on IntentPortForward) (is @ js))"
    using 1(1-3) 2(1-3) by (intro exI [of _ "r1 @ r2"]) simp
  moreover have "\<exists>us. ca_rules c = ca_rules a @ us \<and> list_all (map_with typed_rule) us \<and> length us = length (filter (is_on IntentFirewallRule) (is @ js))"
    using 1(4-6) 2(4-6) by (intro exI [of _ "u1 @ u2"]) simp
  ultimately show ?thesis
    using assms unfolding collected_def by auto
qed

lemma compile_all_collected: "compile_all is a = Inr b \<Longrightarrow> collected is a b"
proof (induction "is" arbitrary: a)
  case Nil
  then show ?case by (simp add: collected_def)
next
  case (Cons i "is")
  then obtain c where "compile_one i a = Inr c" "compile_all is c = Inr b"
    by (auto split: sum.splits)
  then show ?case
    using collected_trans [OF compile_one_collected Cons.IH, of i a c] by simp
qed

text \<open>The accumulator, the WAN section and the server entry behind a compiled state.\<close>

lemma Compile_parts:
  assumes "Compile is secs = Inr st"
  obtains a w d where "compile_all is acc_empty = Inr a"
    "st = (''firewall'', VMap [(''redirect'', VList (ca_redirects a)), (''rule'', VList (ca_rules a))]) # w @ d"
    "if ca_wan_seen a then \<exists>x. compileWANConfig (ca_wan a) secs = Inr x \<and> w = [(''network'', VMap [(''wan'', VMap x)])] else w = []"
    "if ca_dns a = None then d = [] else \<exists>srv. d = [(''dhcp'', VMap [(''server'', VStr srv)])]"
proof -
  obtain a where a: "compile_all is acc_empty = Inr a"
    using assms by (auto simp: Compile_def split: sum.splits)
  let ?f = "(''firewall'', VMap [(''redirect'', VList (ca_redirects a)), (''rule'', VList (ca_rules a))])"
  obtain w where w: "if ca_wan_seen a then \<exists>x. compileWANConfig (ca_wan a) secs = Inr x \<and> w = [(''network'', VMap [(''wan'', VMap x)])] else w = []"
    and st: "(case ca_dns a of None \<Rightarrow> Inr (?f # w) | Some i \<Rightarrow> (case compileDNSForward i of
                 Inl e \<Rightarrow> Inl e | Inr srv \<Rightarrow> Inr ((?f # w) @ [(''dhcp'', VMap [(''server'', VStr srv)])]))) = Inr st"
    using assms unfolding Compile_def a by (cases "ca_wan_seen a") (auto simp: Let_def split: sum.splits)
  obtain d where "st = ?f # w @ d" "if ca_dns a = None then d = [] else \<exists>srv. d = [(''dhcp'', VMap [(''server'', VStr srv)])]"
    using st by (auto split: option.splits sum.splits)
  then show thesis
    using that a w by blast
qed


definition demo_intents :: "Intent list" where
  "demo_intents =
     [\<lparr>in_id = ''i1'', in_kind = ''port_forward'', in_name = ''web'', in_enabled = True,
       in_spec = Some (JObj [(''wanPort'', JNum 25), (''lanHost'', JStr ''10.0.0.5''), (''lanPort'', JNum 26), (''protocol'', JStr ''tcpudp'')]),
       in_secret_set = False, in_created = 1, in_updated = 1\<rparr>,
      \<lparr>in_id = ''i2'', in_kind = ''wan_config'', in_name = ''isp'', in_enabled = True,
       in_spec = Some (JObj [(''proto'', JStr ''pppoe''), (''username'', JStr ''u'')]),
       in_secret_set = True, in_created = 2, in_updated = 2\<rparr>]"


section \<open>What the checks of the handlers are worth\<close>

text \<open>
  An intent a handler accepted, with its secret in the table, whose addresses are not IPv6; or a forward
  the control plane wrote.
\<close>

definition acceptable :: "(string \<times> string) list \<Rightarrow> Intent \<Rightarrow> bool" where
  "acceptable secs i \<longleftrightarrow>
     (if in_kind i = IntentDNSForward then \<not> isl (compileDNSForward i)
      else validateIntentSpecWithStored (in_kind i) (in_spec i) (map_of secs (in_id i) \<noteq> None) = None \<and>
        (case decode_port_forward (in_spec i) of None \<Rightarrow> True | Some s \<Rightarrow> in_kind i = IntentPortForward \<longrightarrow> not_v6 (pf_lan_host s)) \<and>
        (case decode_rule (in_spec i) of None \<Rightarrow> True
         | Some s \<Rightarrow> in_kind i = IntentFirewallRule \<longrightarrow> not_v6 (fr_src_ip s) \<and> not_v6 (fr_dest_ip s)) \<and>
        (case decode_wan (in_spec i) of None \<Rightarrow> True
         | Some s \<Rightarrow> in_kind i = IntentWANConfig \<and> wc_proto s = ''pppoe'' \<longrightarrow> map_of secs (in_id i) \<notin> {None, Some []}))"

definition at_most_one :: "('a \<Rightarrow> bool) \<Rightarrow> 'a list \<Rightarrow> bool" where
  "at_most_one P xs \<longleftrightarrow> length (filter P xs) \<le> 1"

lemma acceptable_kind:
  assumes "acceptable secs i"
  shows "in_kind i \<in> set [IntentPortForward, IntentFirewallRule, IntentWANConfig, IntentDNSForward]"
  using assms by (auto simp: acceptable_def validateIntentSpecWithStored_def split: if_splits)

lemma acceptable_redirect:
  assumes "acceptable secs i" "in_kind i = IntentPortForward"
  shows "\<exists>m. compilePortForward i = Inr m"
proof -
  obtain s where s: "decode_port_forward (in_spec i) = Some s" "validate_port_forward s = None" "not_v6 (pf_lan_host s)"
    using assms by (auto simp: acceptable_def validateIntentSpecWithStored_def split: option.splits)
  define p where "p = (if pf_protocol s = [] then ''tcp'' else pf_protocol s)"
  have "\<not> (pf_wan_port s < 1 \<or> 65535 < pf_wan_port s)" "\<not> (pf_lan_port s < 1 \<or> 65535 < pf_lan_port s)" "pf_lan_host s \<noteq> []"
    "pf_protocol s \<in> set [[], ''tcp'', ''udp'', ''tcpudp'']"
    using s(2) unfolding validate_port_forward_def by (metis option.distinct(1))+
  moreover from this(4) have "p \<in> set [''tcp'', ''udp'', ''tcpudp'']"
    by (auto simp: p_def)
  moreover have "rejectIPv6 ''lanHost'' (pf_lan_host s) = None"
    using s(3) by (simp add: rejectIPv6_field)
  ultimately show ?thesis
    unfolding compilePortForward_def s(1) option.case p_def [symmetric] Let_def by simp
qed

lemma acceptable_rule:
  assumes "acceptable secs i" "in_kind i = IntentFirewallRule"
  shows "\<exists>m. compileFirewallRule i = Inr m"
proof -
  obtain s where s: "decode_rule (in_spec i) = Some s" "validate_rule s = None" "not_v6 (fr_src_ip s)" "not_v6 (fr_dest_ip s)"
    using assms by (auto simp: acceptable_def validateIntentSpecWithStored_def split: option.splits)
  have "fr_src s \<noteq> []" "fr_target s \<noteq> []" "fr_target s \<in> set rule_targets"
    using s(2) unfolding validate_rule_def by (metis option.distinct(1))+
  moreover have "rejectIPv6 ''srcIp'' (fr_src_ip s) = None" "rejectIPv6 ''destIp'' (fr_dest_ip s) = None"
    using s(3,4) by (simp_all add: rejectIPv6_field)
  ultimately show ?thesis
    unfolding compileFirewallRule_def s(1) option.case by simp
qed

lemma acceptable_wan:
  assumes "acceptable secs i" "in_kind i = IntentWANConfig"
  shows "\<exists>m. compileWANConfig (Some i) secs = Inr m"
proof -
  obtain s where s: "decode_wan (in_spec i) = Some s" "validateWANConfigSpec s (map_of secs (in_id i) \<noteq> None) = None"
    and pw: "wc_proto s = ''pppoe'' \<Longrightarrow> map_of secs (in_id i) \<notin> {None, Some []}"
    using assms by (auto simp: acceptable_def validateIntentSpecWithStored_def split: option.splits)
  consider "wc_proto s = ''dhcp''" | "wc_proto s = ''static''" | "wc_proto s = ''pppoe''"
    using s(2) by (auto simp: validateWANConfigSpec_def split: if_splits)
  then show ?thesis
  proof cases
    case 1
    then show ?thesis by (simp add: compileWANConfig_def s(1))
  next
    case 2
    then have "wc_ip s \<noteq> []" "wc_gateway s \<noteq> []"
      using s(2) by (auto simp: validateWANConfigSpec_def split: if_splits option.splits)
    then show ?thesis
      using 2 by (simp add: compileWANConfig_def s(1))
  next
    case 3
    then obtain c cs where "map_of secs (in_id i) = Some (c # cs)"
      using pw by (cases "map_of secs (in_id i)") (auto simp: neq_Nil_conv)
    then show ?thesis
      using 3 s(2) by (auto simp: compileWANConfig_def s(1) validateWANConfigSpec_def split: if_splits)
  qed
qed

text \<open>What the run over the intents keeps while it has not failed.\<close>

definition acc_ok :: "Intent list \<Rightarrow> compile_acc \<Rightarrow> bool" where
  "acc_ok is a \<longleftrightarrow> (ca_wan a = None \<or> filter (is_on IntentWANConfig) is = []) \<and> (ca_dns a = None \<or> filter (is_on IntentDNSForward) is = [])"

lemma compile_one_accepts:
  assumes "acceptable secs i" "acc_ok (i # is) a"
    "length (filter (is_on IntentWANConfig) (i # is)) \<le> 1" "length (filter (is_on IntentDNSForward) (i # is)) \<le> 1"
  shows "\<exists>b. compile_one i a = Inr b \<and> acc_ok is b \<and> (ca_wan b = ca_wan a \<or> ca_wan b = Some i \<and> in_kind i = IntentWANConfig) \<and>
    (ca_dns b = ca_dns a \<or> ca_dns b = Some i \<and> in_kind i = IntentDNSForward)"
proof -
  consider "in_kind i = IntentPortForward" | "in_kind i = IntentFirewallRule" | "in_kind i = IntentDNSForward" | "in_kind i = IntentWANConfig"
    using acceptable_kind [OF assms(1)] by auto
  then show ?thesis
  proof cases
    case 1
    then show ?thesis
      using assms(2) acceptable_redirect [OF assms(1) 1] by (auto simp: compile_one_def acc_ok_def is_on_def)
  next
    case 2
    then show ?thesis
      using assms(2) acceptable_rule [OF assms(1) 2] by (auto simp: compile_one_def acc_ok_def is_on_def)
  next
    case 3
    then show ?thesis
      using assms(2,4) by (cases "in_enabled i") (auto simp: compile_one_def acc_ok_def is_on_def)
  next
    case 4
    then show ?thesis
      using assms(2,3) by (cases "in_enabled i") (auto simp: compile_one_def acc_ok_def is_on_def Let_def)
  qed
qed

lemma compile_all_accepts:
  assumes "list_all (acceptable secs) is" "acc_ok is a"
    "length (filter (is_on IntentWANConfig) is) \<le> 1" "length (filter (is_on IntentDNSForward) is) \<le> 1"
  shows "\<exists>b. compile_all is a = Inr b \<and> (ca_wan b = ca_wan a \<or> (\<exists>i \<in> set is. ca_wan b = Some i \<and> in_kind i = IntentWANConfig)) \<and>
    (ca_dns b = ca_dns a \<or> (\<exists>i \<in> set is. ca_dns b = Some i \<and> in_kind i = IntentDNSForward))"
  using assms
proof (induction "is" arbitrary: a)
  case (Cons i "is")
  then obtain c where c: "compile_one i a = Inr c" "acc_ok is c" "ca_wan c = ca_wan a \<or> ca_wan c = Some i \<and> in_kind i = IntentWANConfig"
    "ca_dns c = ca_dns a \<or> ca_dns c = Some i \<and> in_kind i = IntentDNSForward"
    using compile_one_accepts [of secs i "is" a] by auto
  have "length (filter (is_on IntentWANConfig) is) \<le> 1" "length (filter (is_on IntentDNSForward) is) \<le> 1"
    using Cons.prems(3,4) by (auto split: if_splits)
  then obtain b where "compile_all is c = Inr b" "ca_wan b = ca_wan c \<or> (\<exists>i \<in> set is. ca_wan b = Some i \<and> in_kind i = IntentWANConfig)"
    "ca_dns b = ca_dns c \<or> (\<exists>i \<in> set is. ca_dns b = Some i \<and> in_kind i = IntentDNSForward)"
    using Cons.IH [of c] Cons.prems(1) c(2) by auto
  then show ?case
    using c by auto
qed simp



text \<open>An IPv6 address is accepted by the handler and stops the compilation of the whole set.\<close>

lemma v6_rule_accepted_but_refused:
  "let spec = Some (JObj [(''src'', JStr ''lan''), (''target'', JStr ''drop''), (''srcIp'', JStr ''::1'')]) in
   validateIntentSpec IntentFirewallRule spec = None \<and>
   isl (Compile [\<lparr>in_id = ''r'', in_kind = IntentFirewallRule, in_name = ''n'', in_enabled = True, in_spec = spec, in_secret_set = False,
     in_created = 0, in_updated = 0\<rparr>] [])"
  by code_simp

text \<open>The addresses of a static WAN profile are not looked at: an IPv6 gateway reaches the firewall.\<close>

lemma v6_wan_compiles:
  "let spec = Some (JObj [(''proto'', JStr ''static''), (''ip'', JStr ''::2/64''), (''gateway'', JStr ''::1'')]) in
   validateIntentSpec IntentWANConfig spec = None \<and>
   \<not> isl (Compile [\<lparr>in_id = ''w'', in_kind = IntentWANConfig, in_name = ''n'', in_enabled = True, in_spec = spec, in_secret_set = False,
     in_created = 0, in_updated = 0\<rparr>] [])"
  by code_simp

end
