(* ===== verification/Firewall_Store_Props.thy ===== *)
theory Firewall_Store_Props
  imports Firewall_Props
begin

text \<open>
  What any sequence of requests, seedings, forward upkeep, restarts and node state changes keeps of the
  firewall store.  Each operation comes with the outcomes of its statements.
\<close>

section \<open>Runs\<close>

datatype fw_op =
    OpCreate "create_req option" string gotime | OpUpdate string "update_req option" gotime | OpDelete string
  | OpSeed "string list" gotime | OpForward string gotime string string bool | OpOpen
  | OpApplied string string gotime | OpReconciled string string gotime | OpAdopt string string string | OpForget string string
  | OpNodeGone string

definition exec_op :: "fw_op \<Rightarrow> fw_store \<Rightarrow> fw_store" where
  "exec_op p s = (case p of
     OpCreate q u t \<Rightarrow> snd (handleCreateIntent q u t s)
   | OpUpdate i q t \<Rightarrow> snd (handleUpdateIntent i q t s)
   | OpDelete i \<Rightarrow> snd (handleDeleteIntent i s)
   | OpSeed us t \<Rightarrow> snd (SeedBaselineRules us t s)
   | OpForward u t z g want \<Rightarrow> snd (UpsertDNSForward u t z g want s)
   | OpOpen \<Rightarrow> OpenStore_fw s
   | OpApplied n h t \<Rightarrow> snd (UpdateAfterApply n h t s)
   | OpReconciled n h t \<Rightarrow> snd (UpdateAfterReconcile n h t s)
   | OpAdopt n l k \<Rightarrow> snd (AdoptIntentHash n l k s)
   | OpForget n l \<Rightarrow> snd (ForgetIntentHash n l s)
   | OpNodeGone n \<Rightarrow> snd (DeleteNodeState n s))"

definition run_ops :: "(bool list \<times> fw_op) list \<Rightarrow> fw_store \<Rightarrow> fw_store" where
  "run_ops ops s = fold (\<lambda>(fs, p) x. exec_op p (x\<lparr>fs_faults := fs\<rparr>)) ops s"

text \<open>An outcome leaves the tables alone.\<close>

definition same_tables :: "fw_store \<Rightarrow> fw_store \<Rightarrow> bool" where
  "same_tables s s' \<longleftrightarrow> fs_intents s' = fs_intents s \<and> fs_secrets s' = fs_secrets s \<and> fs_states s' = fs_states s \<and> fs_seeded s' = fs_seeded s"

lemma fs_fault_tables: "fs_fault s = (b, s') \<Longrightarrow> same_tables s s'"
  by (auto simp: fs_fault_def same_tables_def split: list.splits)

lemma fs_fault_calm: "fs_faults s = [] \<Longrightarrow> fs_fault s = (False, s)"
  by (simp add: fs_fault_def)

section \<open>How each operation changes the intents\<close>

lemma state_ops_intents:
  "fs_intents (snd (upsert_state n g s)) = fs_intents s" "fs_intents (snd (swapIntentHash n x y s)) = fs_intents s"
  "fs_intents (snd (DeleteNodeState n s)) = fs_intents s"
  by (auto simp: upsert_state_def swapIntentHash_def DeleteNodeState_def Let_def split: prod.split dest!: fs_fault_tables simp: same_tables_def)

lemma state_ops_seeded:
  "fs_seeded (snd (upsert_state n g s)) = fs_seeded s" "fs_seeded (snd (swapIntentHash n x y s)) = fs_seeded s"
  "fs_seeded (snd (DeleteNodeState n s)) = fs_seeded s"
  by (auto simp: upsert_state_def swapIntentHash_def DeleteNodeState_def Let_def split: prod.split dest!: fs_fault_tables simp: same_tables_def)

lemmas state_ops = UpdateAfterApply_def UpdateAfterReconcile_def AdoptIntentHash_def ForgetIntentHash_def

lemma putSecret_tables [simp]: "fs_intents (putSecret i c s) = fs_intents s" "fs_seeded (putSecret i c s) = fs_seeded s"
    "fs_faults (putSecret i c s) = fs_faults s"
  by (simp_all add: putSecret_def)

lemma CreateIntent_cases:
  assumes "CreateIntent i s = (r, s')"
  obtains (kept) "fs_intents s' = fs_intents s" "isl r"
  | (made) spec c where "splitSecret (in_kind i) (in_spec i) = Inr (spec, c)" "in_id i \<notin> in_id ` set (fs_intents s)"
      "fs_intents s' = fs_intents s @ [intent_row i spec]" "r = Inr (i\<lparr>in_spec := spec, in_secret_set := (c \<noteq> [])\<rparr>)"
proof -
  obtain b s1 where f: "fs_fault s = (b, s1)"
    by force
  then have t: "fs_intents s1 = fs_intents s"
    using fs_fault_tables by (simp add: same_tables_def)
  show thesis
    using assms kept made t by (auto simp: CreateIntent_def f Let_def split: sum.splits if_splits)
qed

lemma UpdateIntent_cases:
  assumes "UpdateIntent i s = (r, s')"
  obtains (kept) "fs_intents s' = fs_intents s" "isl r"
  | (wrote) spec c sset where "splitSecret (in_kind i) (in_spec i) = Inr (spec, c)"
      "fs_intents s' = sql_update (\<lambda>q. in_id q = in_id i) (\<lambda>q. (intent_row i spec)\<lparr>in_created := in_created q\<rparr>) (fs_intents s)"
      "r = Inr (i\<lparr>in_spec := spec, in_secret_set := sset\<rparr>)"
proof -
  obtain b s1 where f: "fs_fault s = (b, s1)"
    by force
  then have t: "fs_intents s1 = fs_intents s"
    using fs_fault_tables by (simp add: same_tables_def)
  show thesis
    using assms kept wrote t by (auto simp: UpdateIntent_def f Let_def split: sum.splits if_splits)
qed

lemma DeleteIntent_intents:
  "fs_intents (snd (DeleteIntent i s)) = fs_intents s \<or> fs_intents (snd (DeleteIntent i s)) = filter (\<lambda>q. in_id q \<noteq> i) (fs_intents s)"
  by (auto simp: DeleteIntent_def Let_def split: prod.split dest!: fs_fault_tables simp: same_tables_def)

lemma reads_intents:
  "fs_intents (snd (GetIntent i s)) = fs_intents s" "fs_intents (snd (ListIntents s)) = fs_intents s"
  "fs_intents (snd (HasLegacyBaselineMarkers k s)) = fs_intents s" "fs_intents (snd (MarkBaselineSeeded k s)) = fs_intents s"
  by (auto simp: GetIntent_def ListIntents_def HasLegacyBaselineMarkers_def MarkBaselineSeeded_def Let_def
      split: prod.split dest!: fs_fault_tables simp: same_tables_def)

section \<open>Write-only secrets\<close>

definition no_secret :: "raw_json \<Rightarrow> bool" where
  "no_secret r = (case r of Some (JObj m) \<Rightarrow> secretField \<notin> fst ` set m \<and> secretSetField \<notin> fst ` set m | _ \<Rightarrow> True)"

definition hides :: "Intent \<Rightarrow> bool" where
  "hides i \<longleftrightarrow> (in_kind i = IntentWANConfig \<longrightarrow> no_secret (in_spec i))"

lemma as_map_none: "map_of (as_map m) k = None \<longleftrightarrow> k \<notin> fst ` set m"
  unfolding as_map_get by (simp add: map_of_eq_None_iff)

lemma splitSecret_hides:
  assumes "splitSecret kind r = Inr (spec, c)" "kind = IntentWANConfig"
  shows "no_secret spec"
proof (cases "\<exists>m. r = Some (JObj m)")
  case False
  then have "spec = r"
    using assms by (auto simp: splitSecret_def split: option.splits json.splits)
  with False show ?thesis
    by (auto simp: no_secret_def split: option.split json.split)
next
  case True
  then obtain m where m: "r = Some (JObj m)"
    by blast
  show ?thesis
  proof (cases "map_of (as_map m) secretField = None \<and> map_of (as_map m) secretSetField = None")
    case True
    then show ?thesis
      using assms m by (auto simp: splitSecret_def no_secret_def as_map_none)
  next
    case False
    then have "spec = Some (JObj (sort_key fst (AList.delete secretSetField (AList.delete secretField (as_map m)))))"
      using assms m by (auto simp: splitSecret_def Let_def split: option.splits json.splits if_splits)
    then show ?thesis
      by (auto simp: no_secret_def AList.delete_eq)
  qed
qed

lemma row_hides: "splitSecret (in_kind i) (in_spec i) = Inr (spec, c) \<Longrightarrow> hides (intent_row i spec)"
  using splitSecret_hides by (auto simp: hides_def intent_row_def)

definition all_hide :: "fw_store \<Rightarrow> bool" where
  "all_hide s \<longleftrightarrow> list_all hides (fs_intents s)"

lemma create_hides: "all_hide s \<Longrightarrow> CreateIntent i s = (r, s') \<Longrightarrow> all_hide s'"
  by (elim CreateIntent_cases) (auto simp: all_hide_def row_hides)

lemma update_hides:
  assumes "all_hide s" "UpdateIntent i s = (r, s')"
  shows "all_hide s'"
  using assms(2)
proof (cases rule: UpdateIntent_cases)
  case kept
  with assms(1) show ?thesis by (simp add: all_hide_def)
next
  case (wrote spec c sset)
  have "hides ((intent_row i spec)\<lparr>in_created := t\<rparr>)" for t
    using row_hides [OF wrote(1)] by (simp add: hides_def)
  then show ?thesis
    using assms(1) unfolding all_hide_def wrote(2) list_all_iff by (auto simp: in_sql_update)
qed

lemma delete_hides: "all_hide s \<Longrightarrow> all_hide (snd (DeleteIntent i s))"
  using DeleteIntent_intents [of i s] by (auto simp: all_hide_def list_all_iff)

lemma disable_intents:
  "fs_intents (snd (DisableOtherWANConfigs k t s)) = fs_intents s \<or>
   fs_intents (snd (DisableOtherWANConfigs k t s)) = sql_update (\<lambda>q. in_kind q = IntentWANConfig \<and> in_id q \<noteq> k \<and> in_enabled q)
     (\<lambda>q. q\<lparr>in_enabled := False, in_updated := t\<rparr>) (fs_intents s)"
  by (auto simp: DisableOtherWANConfigs_def Let_def split: prod.split dest!: fs_fault_tables simp: same_tables_def)

lemma migrate_step_hides:
  assumes "all_hide s" "no_secret spec"
  shows "all_hide (snd (moveSecret i spec c s))"
proof -
  obtain b s1 where f: "fs_fault s = (b, s1)" by force
  then have t: "fs_intents s1 = fs_intents s"
    using fs_fault_tables by (simp add: same_tables_def)
  show ?thesis
    using assms by (auto simp: moveSecret_def f all_hide_def t list_all_iff in_sql_update hides_def)
qed

lemma pending_hides: "(i, spec, c) \<in> set (migrate_pending rows) \<Longrightarrow> no_secret spec"
  using splitSecret_hides [OF _ refl]
  by (auto simp: migrate_pending_def List.map_filter_def split: sum.splits if_splits prod.splits)

section \<open>What every statement keeps, every run keeps\<close>

text \<open>The store's statements as an interface: an invariant of each of them is an invariant of the handlers,
  the seeding, the forward and the migration built from them.\<close>

locale store_invariant =
  fixes P :: "fw_store \<Rightarrow> bool"
  assumes faults_law: "P s \<Longrightarrow> P (s\<lparr>fs_faults := fs\<rparr>)"
    and create_law: "P s \<Longrightarrow> P (snd (CreateIntent i s))"
    and update_law: "P s \<Longrightarrow> P (snd (UpdateIntent i s))"
    and delete_law: "P s \<Longrightarrow> P (snd (DeleteIntent j s))"
    and disable_law: "P s \<Longrightarrow> P (snd (DisableOtherWANConfigs j t s))"
    and move_law: "P s \<Longrightarrow> no_secret spec \<Longrightarrow> P (snd (moveSecret j spec c s))"
    and mark_law: "P s \<Longrightarrow> P (snd (MarkBaselineSeeded k s))"
    and upsert_law: "P s \<Longrightarrow> P (snd (upsert_state n g s))"
    and swap_law: "P s \<Longrightarrow> P (snd (swapIntentHash n x y s))"
    and gone_law: "P s \<Longrightarrow> P (snd (DeleteNodeState n s))"
begin

lemma fault_keeps: "fs_fault s = (b, s') \<Longrightarrow> P s \<Longrightarrow> P s'"
  using faults_law [of s "tl (fs_faults s)"] by (auto simp: fs_fault_def split: list.splits)

lemma create_keeps: "CreateIntent i s = (r, s') \<Longrightarrow> P s \<Longrightarrow> P s'"
  using create_law [of s i] by simp

lemma update_keeps: "UpdateIntent i s = (r, s') \<Longrightarrow> P s \<Longrightarrow> P s'"
  using update_law [of s i] by simp

lemma delete_keeps: "DeleteIntent j s = (r, s') \<Longrightarrow> P s \<Longrightarrow> P s'"
  using delete_law [of s j] by simp

lemma mark_keeps: "MarkBaselineSeeded k s = (r, s') \<Longrightarrow> P s \<Longrightarrow> P s'"
  using mark_law [of s k] by simp

lemma enforce_keeps: "enforceWANConfigInvariant i t s = (r, s') \<Longrightarrow> P s \<Longrightarrow> P s'"
  using disable_law [of s "in_id i" t] by (auto simp: enforceWANConfigInvariant_def split: if_splits)

lemma get_keeps: "GetIntent j s = (r, s') \<Longrightarrow> P s \<Longrightarrow> P s'"
  by (cases "fs_fault s") (auto simp: GetIntent_def dest: fault_keeps split: if_splits)

lemma list_keeps: "ListIntents s = (r, s') \<Longrightarrow> P s \<Longrightarrow> P s'"
  by (cases "fs_fault s") (auto simp: ListIntents_def dest: fault_keeps split: if_splits)

lemma legacy_keeps: "HasLegacyBaselineMarkers k s = (r, s') \<Longrightarrow> P s \<Longrightarrow> P s'"
  by (cases "fs_fault s") (auto simp: HasLegacyBaselineMarkers_def dest: fault_keeps split: if_splits)

lemma seed_rules_keeps: "P s \<Longrightarrow> P (snd (seed_rules us t rs n s))"
proof (induction us t rs n s rule: seed_rules.induct)
  case (1 u us t name spec rs n s)
  obtain r s1 where c: "CreateIntent \<lparr>in_id = u, in_kind = IntentFirewallRule, in_name = name, in_enabled = True, in_spec = Some (JObj spec),
             in_secret_set = False, in_created = t, in_updated = t\<rparr> s = (r, s1)"
    by force
  show ?case
    using 1(1) [OF c [symmetric]] create_keeps [OF c 1(2)] by (cases r) (auto simp: c)
qed simp_all

lemma seed_keeps:
  assumes "P s"
  shows "P (snd (SeedBaselineRules us t s))"
proof -
  obtain r1 s1 where m: "MarkBaselineSeeded baselineSeedKey s = (r1, s1)" by force
  obtain r2 s2 where h: "HasLegacyBaselineMarkers baselineSeedKey s1 = (r2, s2)" by force
  have 1: "P s1" by (rule mark_keeps [OF m assms])
  have "P s2" by (rule legacy_keeps [OF h 1])
  then show ?thesis
    using 1 seed_rules_keeps by (auto simp: SeedBaselineRules_def m h split: sum.split bool.split)
qed

lemma forward_keeps:
  assumes "P s"
  shows "P (snd (UpsertDNSForward u t z g want s))"
proof -
  obtain r1 s1 where l: "ListIntents s = (r1, s1)" by force
  have 1: "P s1" by (rule list_keeps [OF l assms])
  note keeps = create_keeps [OF _ 1] update_keeps [OF _ 1] delete_keeps [OF _ 1]
  show ?thesis
  proof (cases r1)
    case (Inl e)
    then show ?thesis using 1 by (simp add: UpsertDNSForward_def l)
  next
    case (Inr xs)
    show ?thesis
      unfolding UpsertDNSForward_def l Inr using 1
      by (cases "the_forward xs"; cases want) (auto simp: Let_def split: sum.split option.split prod.split dest: keeps)
  qed
qed

lemma moves_keep:
  "P s \<Longrightarrow> (\<And>j spec c. (j, spec, c) \<in> set ps \<Longrightarrow> no_secret spec) \<Longrightarrow> P (fold (\<lambda>(j, spec, c) x. snd (moveSecret j spec c x)) ps s)"
proof (induction ps arbitrary: s)
  case (Cons p ps)
  obtain j spec c where p: "p = (j, spec, c)" by (cases p)
  have "P (snd (moveSecret j spec c s))"
    by (rule move_law [OF Cons.prems(1)]) (use Cons.prems(2) p in auto)
  then show ?case
    using Cons.IH Cons.prems(2) p by auto
qed simp

lemma open_keeps:
  assumes "P s"
  shows "P (OpenStore_fw s)"
proof -
  obtain b s1 where f: "fs_fault s = (b, s1)" by force
  have 1: "P s1" by (rule fault_keeps [OF f assms])
  from moves_keep [OF 1 pending_hides] show ?thesis
    using 1 by (simp add: OpenStore_fw_def migrateInlineSecrets_def f)
qed

lemma handle_create_keeps:
  assumes "P s"
  shows "P (snd (handleCreateIntent q u t s))"
proof -
  have "P (snd (case CreateIntent i s of (Inl e, s1) \<Rightarrow> ((a, None), s1)
      | (Inr i, s1) \<Rightarrow> (case enforceWANConfigInvariant i t s1 of (Some e, s2) \<Rightarrow> ((b, None), s2) | (None, s2) \<Rightarrow> ((c, Some i), s2))))"
    for i a b c
    by (auto split: sum.split option.split prod.split dest!: create_keeps [OF _ assms] enforce_keeps)
  then show ?thesis
    using assms unfolding handleCreateIntent_def by (auto split: option.split)
qed

lemma handle_update_keeps:
  assumes "P s"
  shows "P (snd (handleUpdateIntent j q t s))"
proof -
  obtain r1 s1 where g: "GetIntent j s = (r1, s1)" by force
  have 1: "P s1" by (rule get_keeps [OF g assms])
  have "P (snd (case UpdateIntent i s1 of (Inl e, s2) \<Rightarrow> (x, s2)
      | (Inr e3, s2) \<Rightarrow> (case enforceWANConfigInvariant e3 t s2 of (Some e, s3) \<Rightarrow> (y, s3) | (None, s3) \<Rightarrow> (w e3, s3))))"
    for i x y w
    by (auto split: sum.split option.split prod.split dest!: update_keeps [OF _ 1] enforce_keeps)
  then show ?thesis
    using 1 unfolding handleUpdateIntent_def g by (auto simp: Let_def split: option.split sum.split)
qed

lemma handle_delete_keeps:
  assumes "P s"
  shows "P (snd (handleDeleteIntent j s))"
proof -
  obtain r1 s1 where g: "GetIntent j s = (r1, s1)" by force
  have 1: "P s1" by (rule get_keeps [OF g assms])
  obtain r2 s2 where d: "DeleteIntent j s1 = (r2, s2)" by force
  show ?thesis
    using delete_keeps [OF d 1] by (auto simp: handleDeleteIntent_def g d split: option.split fw_error.split)
qed

lemma exec_keeps: "P s \<Longrightarrow> P (exec_op p s)"
  by (cases p) (simp_all add: exec_op_def state_ops handle_create_keeps handle_update_keeps handle_delete_keeps seed_keeps forward_keeps
      open_keeps upsert_law swap_law gone_law)

lemma run_keeps: "P s \<Longrightarrow> P (run_ops ops s)"
  by (induction ops arbitrary: s) (auto simp: run_ops_def intro!: exec_keeps faults_law)

end

text \<open>An invariant of the intents alone: the tables of node states and markers do not matter to it.\<close>

lemma intents_only:
  "fs_intents (snd (MarkBaselineSeeded k s)) = fs_intents s" "fs_intents (snd (upsert_state n g s)) = fs_intents s"
  "fs_intents (snd (swapIntentHash n x y s)) = fs_intents s" "fs_intents (snd (DeleteNodeState n s)) = fs_intents s"
  by (simp_all add: state_ops_intents reads_intents)

lemma all_hide_cong: "fs_intents s' = fs_intents s \<Longrightarrow> all_hide s' = all_hide s"
  by (simp add: all_hide_def)

interpretation hiding: store_invariant all_hide
proof unfold_locales
  fix s t j spec c i assume s: "all_hide s"
  show "all_hide (snd (DisableOtherWANConfigs j t s))"
    using s disable_intents [of j t s] by (auto simp: all_hide_def list_all_iff in_sql_update hides_def)
  show "all_hide (snd (moveSecret j spec c s))" if "no_secret spec"
    by (rule migrate_step_hides [OF s that])
  show "all_hide (snd (CreateIntent i s))" "all_hide (snd (UpdateIntent i s))" "all_hide (snd (DeleteIntent j s))"
    by (rule create_hides [OF s prod.collapse [symmetric]] update_hides [OF s prod.collapse [symmetric]] delete_hides [OF s])+
qed (simp_all add: all_hide_def intents_only)

section \<open>Ids and the one enabled uplink\<close>

definition ids_distinct :: "fw_store \<Rightarrow> bool" where
  "ids_distinct s \<longleftrightarrow> distinct (map in_id (fs_intents s))"

interpretation ids: store_invariant ids_distinct
proof unfold_locales
  fix s t j spec c i assume s: "ids_distinct s"
  show "ids_distinct (snd (DisableOtherWANConfigs j t s))"
    using s disable_intents [of j t s] by (auto simp: ids_distinct_def map_sql_update)
  obtain b s1 where f: "fs_fault s = (b, s1)" by force
  then show "ids_distinct (snd (moveSecret j spec c s))"
    using s fs_fault_tables [OF f] by (simp add: moveSecret_def f ids_distinct_def same_tables_def map_sql_update)
  show "ids_distinct (snd (CreateIntent i s))"
    by (rule CreateIntent_cases [of i s, OF prod.collapse [symmetric]]) (use s in \<open>auto simp: ids_distinct_def intent_row_def\<close>)
  show "ids_distinct (snd (UpdateIntent i s))"
    by (rule UpdateIntent_cases [of i s, OF prod.collapse [symmetric]])
       (use s in \<open>auto simp: ids_distinct_def intent_row_def map_sql_update\<close>)
  show "ids_distinct (snd (DeleteIntent j s))"
    using DeleteIntent_intents [of j s] s by (auto simp: ids_distinct_def distinct_map_filter)
qed (simp_all add: ids_distinct_def intents_only)

text \<open>The marker of the baseline is never taken away.\<close>

lemma intent_ops_seeded:
  "fs_seeded (snd (CreateIntent i s)) = fs_seeded s" "fs_seeded (snd (UpdateIntent i s)) = fs_seeded s"
  "fs_seeded (snd (DeleteIntent j s)) = fs_seeded s" "fs_seeded (snd (DisableOtherWANConfigs j t s)) = fs_seeded s"
  "fs_seeded (snd (moveSecret j spec c s)) = fs_seeded s"
proof -
  obtain b s1 where f: "fs_fault s = (b, s1)" by force
  then have t: "fs_seeded s1 = fs_seeded s"
    using fs_fault_tables by (simp add: same_tables_def)
  show "fs_seeded (snd (CreateIntent i s)) = fs_seeded s"
    by (cases "splitSecret (in_kind i) (in_spec i)") (auto simp: CreateIntent_def f t)
  show "fs_seeded (snd (UpdateIntent i s)) = fs_seeded s"
    by (cases "splitSecret (in_kind i) (in_spec i)") (auto simp: UpdateIntent_def f t Let_def)
  show "fs_seeded (snd (DeleteIntent j s)) = fs_seeded s" "fs_seeded (snd (DisableOtherWANConfigs j t s)) = fs_seeded s"
    "fs_seeded (snd (moveSecret j spec c s)) = fs_seeded s" for t
    by (simp_all add: DeleteIntent_def DisableOtherWANConfigs_def moveSecret_def f t)
qed

definition seeded :: "fw_store \<Rightarrow> bool" where
  "seeded s \<longleftrightarrow> baselineSeedKey \<in> set (fs_seeded s)"

lemma mark_seeded:
  obtains (failed) "isl (fst (MarkBaselineSeeded k s))" "fs_seeded (snd (MarkBaselineSeeded k s)) = fs_seeded s"
  | (again) "fst (MarkBaselineSeeded k s) = Inr False" "fs_seeded (snd (MarkBaselineSeeded k s)) = fs_seeded s" "k \<in> set (fs_seeded s)"
  | (first) "fst (MarkBaselineSeeded k s) = Inr True" "fs_seeded (snd (MarkBaselineSeeded k s)) = fs_seeded s @ [k]" "k \<notin> set (fs_seeded s)"
proof -
  obtain b s1 where f: "fs_fault s = (b, s1)" by force
  then have t: "fs_seeded s1 = fs_seeded s"
    using fs_fault_tables by (simp add: same_tables_def)
  show thesis
    using that by (cases b; cases "k \<in> set (fs_seeded s)") (simp_all add: MarkBaselineSeeded_def f t)
qed

interpretation marker: store_invariant seeded
proof unfold_locales
  fix s k assume "seeded s"
  then show "seeded (snd (MarkBaselineSeeded k s))"
    by (cases rule: mark_seeded [of k s]) (simp_all add: seeded_def)
qed (simp_all add: seeded_def intent_ops_seeded state_ops_seeded)

section \<open>The baseline is seeded at most once\<close>

text \<open>The rows a seeding adds to the intents, and those of all seedings of a run.\<close>

definition seeds_of :: "fw_op \<Rightarrow> fw_store \<Rightarrow> nat" where
  "seeds_of p s = (case p of OpSeed us t \<Rightarrow> length (fs_intents (exec_op p s)) - length (fs_intents s) | _ \<Rightarrow> 0)"

fun seeds_in :: "(bool list \<times> fw_op) list \<Rightarrow> fw_store \<Rightarrow> nat" where
  "seeds_in [] s = 0"
| "seeds_in ((fs, p) # ops) s = seeds_of p (s\<lparr>fs_faults := fs\<rparr>) + seeds_in ops (exec_op p (s\<lparr>fs_faults := fs\<rparr>))"

lemma seed_rules_count: "fst (fst (seed_rules us t rs n s)) \<le> n + length rs"
  by (induction us t rs n s rule: seed_rules.induct) (auto split: sum.split prod.split simp: le_Suc_eq)

lemma seed_rules_rows: "length (fs_intents (snd (seed_rules us t rs n s))) + n = length (fs_intents s) + fst (fst (seed_rules us t rs n s))"
proof (induction us t rs n s rule: seed_rules.induct)
  case (1 u us t name spec rs n s)
  obtain r s1 where c: "CreateIntent \<lparr>in_id = u, in_kind = IntentFirewallRule, in_name = name, in_enabled = True, in_spec = Some (JObj spec),
             in_secret_set = False, in_created = t, in_updated = t\<rparr> s = (r, s1)"
    by force
  then have "length (fs_intents s1) = length (fs_intents s) + (if isl r then 0 else 1)"
    by (cases rule: CreateIntent_cases) auto
  then show ?case
    using 1 [OF c [symmetric]] by (cases r) (auto simp: c)
qed simp_all

lemma SeedBaseline_rows: "length (fs_intents (snd (SeedBaselineRules us t s))) = length (fs_intents s) + fst (fst (SeedBaselineRules us t s))"
proof -
  obtain r1 s1 where m: "MarkBaselineSeeded baselineSeedKey s = (r1, s1)" by force
  obtain r2 s2 where h: "HasLegacyBaselineMarkers baselineSeedKey s1 = (r2, s2)" by force
  have "fs_intents s1 = fs_intents s" "fs_intents s2 = fs_intents s1"
    using reads_intents(4) [of baselineSeedKey s] reads_intents(3) [of baselineSeedKey s1] by (simp_all add: m h)
  then show ?thesis
    using seed_rules_rows [of us t baselineRules 0 s2] by (auto simp: SeedBaselineRules_def m h split: sum.split bool.split)
qed

lemma seeds_of_seed: "seeds_of (OpSeed us t) s = fst (fst (SeedBaselineRules us t s))"
  by (simp add: seeds_of_def exec_op_def SeedBaseline_rows)

lemma seeds_of_other: "(\<And>us t. p \<noteq> OpSeed us t) \<Longrightarrow> seeds_of p s = 0"
  by (cases p) (auto simp: seeds_of_def)

lemma SeedBaseline_count:
  "fst (fst (SeedBaselineRules us t s)) \<le> (if seeded s then 0 else length baselineRules)"
  "fst (fst (SeedBaselineRules us t s)) > 0 \<Longrightarrow> seeded (snd (SeedBaselineRules us t s))"
proof -
  obtain r1 s1 where m: "MarkBaselineSeeded baselineSeedKey s = (r1, s1)" by force
  obtain r2 s2 where h: "HasLegacyBaselineMarkers baselineSeedKey s1 = (r2, s2)" by force
  have 3: "fst (fst (seed_rules us t baselineRules 0 s2)) \<le> length baselineRules"
    using seed_rules_count [of us t baselineRules 0 s2] by simp
  have 4: "r1 = Inr True \<Longrightarrow> seeded s1 \<and> \<not> seeded s"
    by (rule mark_seeded [of baselineSeedKey s]) (auto simp: m seeded_def)
  have 5: "seeded s1 \<Longrightarrow> seeded (snd (seed_rules us t baselineRules 0 s2))"
    using marker.seed_rules_keeps marker.legacy_keeps [OF h] by blast
  show "fst (fst (SeedBaselineRules us t s)) \<le> (if seeded s then 0 else length baselineRules)"
    using 3 4 by (auto simp: SeedBaselineRules_def m h split: sum.split bool.split)
  show "fst (fst (SeedBaselineRules us t s)) > 0 \<Longrightarrow> seeded (snd (SeedBaselineRules us t s))"
    using 4 5 by (auto simp: SeedBaselineRules_def m h split: sum.splits bool.splits)
qed

lemma seeds_in_marked: "seeded s \<Longrightarrow> seeds_in ops s = 0"
proof (induction ops s rule: seeds_in.induct)
  case (2 fs p ops s)
  have "seeded (s\<lparr>fs_faults := fs\<rparr>)"
    by (rule marker.faults_law [OF 2(2)])
  then show ?case
    using 2(1) [OF marker.exec_keeps] SeedBaseline_count(1) [of _ _ "s\<lparr>fs_faults := fs\<rparr>"]
    by (cases p) (simp_all add: seeds_of_seed seeds_of_other)
qed simp

text \<open>whatever the requests, restarts and failed statements, the baseline rules are seeded at most once over a run:
  all seedings together make no more rules than the baseline has, and none once the marker is there, so that a rule the
  operator deleted does not come back.\<close>

theorem baseline_seeded_once:
  "seeds_in ops s \<le> (if seeded s then 0 else length baselineRules)"
proof (induction ops s rule: seeds_in.induct)
  case (2 fs p ops s)
  let ?s = "s\<lparr>fs_faults := fs\<rparr>"
  show ?case
  proof (cases "seeded s")
    case True
    then show ?thesis by (simp only: seeds_in_marked if_True order_refl)
  next
    case False
    then have no: "\<not> seeded ?s" by (simp add: seeded_def)
    show ?thesis
    proof (cases "seeds_of p ?s > 0")
      case True
      then obtain us t where p: "p = OpSeed us t"
        by (cases p) (auto simp: seeds_of_other)
      have "seeded (exec_op p ?s)"
        using True SeedBaseline_count(2) by (simp add: p seeds_of_seed exec_op_def)
      then show ?thesis
        using seeds_in_marked SeedBaseline_count(1) [of us t ?s] no False by (simp add: p seeds_of_seed)
    next
      case none: False
      then show ?thesis
        using 2 False by (simp split: if_splits)
    qed
  qed
qed simp

section \<open>Secrets stay write-only\<close>

lemma scan_hides: "all_hide s \<Longrightarrow> ListIntents s = (Inr is, s') \<Longrightarrow> list_all hides is"
  by (cases "fs_fault s") (auto simp: ListIntents_def all_hide_def list_all_iff scanIntent_def hides_def sql_order_def
      split: if_splits dest!: fs_fault_tables simp: same_tables_def)


definition wan_request :: create_req where
  "wan_request = \<lparr>cq_kind = IntentWANConfig, cq_name = ''up'', cq_enabled = None,
     cq_spec = Some (JObj [(''proto'', JStr ''pppoe''), (''username'', JStr ''u''), (''secret'', JStr ''pw'')])\<rparr>"

definition fw_empty :: fw_store where
  "fw_empty = \<lparr>fs_intents = [], fs_secrets = [], fs_states = [], fs_seeded = [], fs_faults = []\<rparr>"


section \<open>The one enabled uplink\<close>

text \<open>Any two enabled uplinks are the same row.\<close>

definition one_wan :: "Intent list \<Rightarrow> bool" where
  "one_wan xs \<longleftrightarrow> (\<forall>p \<in> set xs. \<forall>q \<in> set xs. is_on IntentWANConfig p \<longrightarrow> is_on IntentWANConfig q \<longrightarrow> in_id p = in_id q)"

definition fewer_wans :: "Intent list \<Rightarrow> Intent list \<Rightarrow> bool" where
  "fewer_wans xs ys \<longleftrightarrow> (\<forall>q \<in> set ys. is_on IntentWANConfig q \<longrightarrow> (\<exists>p \<in> set xs. is_on IntentWANConfig p \<and> in_id p = in_id q))"

lemma one_wan_fewer: "one_wan xs \<Longrightarrow> fewer_wans xs ys \<Longrightarrow> one_wan ys"
  unfolding one_wan_def fewer_wans_def by metis

lemma fewer_wans_refl [simp]: "fewer_wans xs xs"
  by (auto simp: fewer_wans_def)

lemma fewer_wans_trans: "fewer_wans xs ys \<Longrightarrow> fewer_wans ys zs \<Longrightarrow> fewer_wans xs zs"
  unfolding fewer_wans_def by metis

lemma one_wan_kept: "\<forall>q \<in> set xs. is_on IntentWANConfig q \<longrightarrow> in_id q = k \<Longrightarrow> one_wan xs"
  by (simp add: one_wan_def)

lemma one_wan_at_most:
  assumes "one_wan xs" "distinct (map in_id xs)"
  shows "at_most_one (is_on IntentWANConfig) xs"
proof (rule ccontr)
  assume "\<not> ?thesis"
  then obtain p q r where f: "filter (is_on IntentWANConfig) xs = p # q # r"
    by (cases "filter (is_on IntentWANConfig) xs" rule: remdups_adj.cases) (auto simp: at_most_one_def)
  then have "{p, q} \<subseteq> set (filter (is_on IntentWANConfig) xs)" by simp
  then have "in_id p = in_id q"
    using assms(1) unfolding one_wan_def by auto
  moreover have "distinct (map in_id (filter (is_on IntentWANConfig) xs))"
    by (rule distinct_map_filter [OF assms(2)])
  ultimately show False using f by simp
qed

lemma fewer_wans_update:
  assumes "\<And>q. g q \<Longrightarrow> is_on IntentWANConfig (f q) \<Longrightarrow> is_on IntentWANConfig q \<and> in_id (f q) = in_id q"
  shows "fewer_wans xs (sql_update g f xs)"
  unfolding fewer_wans_def set_sql_update
proof (intro ballI impI)
  fix q assume "q \<in> (\<lambda>r. if g r then f r else r) ` set xs" and on: "is_on IntentWANConfig q"
  then obtain r where r: "r \<in> set xs" "q = (if g r then f r else r)" by blast
  then have "is_on IntentWANConfig r \<and> in_id r = in_id q"
    using on assms [of r] by (cases "g r") auto
  with r show "\<exists>p \<in> set xs. is_on IntentWANConfig p \<and> in_id p = in_id q" by blast
qed

lemma at_most_one_wan:
  assumes "at_most_one (is_on IntentWANConfig) xs"
  shows "one_wan xs"
proof -
  have "x = y" if "x \<in> set (filter (is_on IntentWANConfig) xs)" "y \<in> set (filter (is_on IntentWANConfig) xs)" for x y
    using assms that by (cases "filter (is_on IntentWANConfig) xs" rule: remdups_adj.cases) (auto simp: at_most_one_def)
  then show ?thesis
    unfolding one_wan_def set_filter mem_Collect_eq by blast
qed

lemma create_fewer: "CreateIntent i s = (r, s') \<Longrightarrow> \<not> is_on IntentWANConfig i \<Longrightarrow> fewer_wans (fs_intents s) (fs_intents s')"
  by (elim CreateIntent_cases) (auto simp: fewer_wans_def is_on_def intent_row_def)

lemma update_fewer: "UpdateIntent i s = (r, s') \<Longrightarrow> \<not> is_on IntentWANConfig i \<Longrightarrow> fewer_wans (fs_intents s) (fs_intents s')"
  by (elim UpdateIntent_cases) (auto simp: is_on_def intent_row_def intro!: fewer_wans_update)

lemma delete_fewer: "fewer_wans (fs_intents s) (fs_intents (snd (DeleteIntent j s)))"
  using DeleteIntent_intents [of j s] by (auto simp: fewer_wans_def)

lemma disable_fewer: "fewer_wans (fs_intents s) (fs_intents (snd (DisableOtherWANConfigs k t s)))"
  using disable_intents [of k t s] fewer_wans_update [of _ "\<lambda>q. q\<lparr>in_enabled := False, in_updated := t\<rparr>"]
  by (elim disjE) (simp_all add: is_on_def)

lemma disable_one:
  assumes "fs_faults s = []"
  shows "one_wan (fs_intents (snd (DisableOtherWANConfigs k t s)))"
  by (rule one_wan_kept [where k = k])
     (auto simp: DisableOtherWANConfigs_def fs_fault_calm [OF assms] in_sql_update is_on_def)

lemma move_fewer: "fewer_wans (fs_intents s) (fs_intents (snd (moveSecret j spec c s)))"
proof -
  obtain b s1 where f: "fs_fault s = (b, s1)" by force
  then show ?thesis
    using fs_fault_tables [OF f] by (auto simp: moveSecret_def f same_tables_def is_on_def intro!: fewer_wans_update)
qed

text \<open>Every step that is not an uplink's request.\<close>

lemma seed_rules_fewer: "fewer_wans (fs_intents s) (fs_intents (snd (seed_rules us t rs n s)))"
proof (induction us t rs n s rule: seed_rules.induct)
  case (1 u us t name spec rs n s)
  obtain r s1 where c: "CreateIntent \<lparr>in_id = u, in_kind = IntentFirewallRule, in_name = name, in_enabled = True, in_spec = Some (JObj spec),
             in_secret_set = False, in_created = t, in_updated = t\<rparr> s = (r, s1)"
    by force
  have "fewer_wans (fs_intents s) (fs_intents s1)"
    by (rule create_fewer [OF c]) (simp add: is_on_def)
  then show ?case
    using fewer_wans_trans 1 [OF c [symmetric]] by (cases r) (auto simp: c)
qed simp_all

lemma seed_fewer: "fewer_wans (fs_intents s) (fs_intents (snd (SeedBaselineRules us t s)))"
proof -
  obtain r1 s1 where m: "MarkBaselineSeeded baselineSeedKey s = (r1, s1)" by force
  obtain r2 s2 where h: "HasLegacyBaselineMarkers baselineSeedKey s1 = (r2, s2)" by force
  have "fs_intents s1 = fs_intents s" "fs_intents s2 = fs_intents s1"
    using reads_intents(4) [of baselineSeedKey s] reads_intents(3) [of baselineSeedKey s1] by (simp_all add: m h)
  then show ?thesis
    using seed_rules_fewer [of s2 us t baselineRules 0] by (auto simp: SeedBaselineRules_def m h split: sum.split bool.split)
qed

lemma forward_fewer: "fewer_wans (fs_intents s) (fs_intents (snd (UpsertDNSForward u t z g want s)))"
proof -
  obtain r1 s1 where l: "ListIntents s = (r1, s1)" by force
  have i: "fs_intents s1 = fs_intents s"
    using reads_intents(2) [of s] by (simp add: l)
  show ?thesis
  proof (cases r1)
    case (Inl e)
    then show ?thesis by (simp add: UpsertDNSForward_def l i)
  next
    case (Inr xs)
    have d: "fewer_wans (fs_intents s) (fs_intents s')" if "DeleteIntent j s1 = (r, s')" for j r s'
      using delete_fewer [of s1 j] that i by simp
    have c: "fewer_wans (fs_intents s) (fs_intents s')"
      if "CreateIntent j s1 = (r, s')" "in_kind j = IntentDNSForward" for j r s'
      using create_fewer [OF that(1)] that(2) i by (simp add: is_on_def)
    have up: "fewer_wans (fs_intents s) (fs_intents s')"
      if "UpdateIntent j s1 = (r, s')" "in_kind j = IntentDNSForward" for j r s'
      using update_fewer [OF that(1)] that(2) i by (simp add: is_on_def)
    have k: "the_forward xs = Some j \<Longrightarrow> in_kind j = IntentDNSForward" for j
      by (auto simp: the_forward_def dest: sql_first_Some)
    show ?thesis
      unfolding UpsertDNSForward_def l Inr using i k
      by (cases "the_forward xs"; cases want) (auto simp: Let_def split: sum.split option.split prod.split intro: d dest!: c up)
  qed
qed

lemma moves_fewer: "fewer_wans (fs_intents s) (fs_intents (fold (\<lambda>(j, spec, c) x. snd (moveSecret j spec c x)) ps s))"
proof (induction ps arbitrary: s)
  case (Cons p ps)
  obtain j spec c where p: "p = (j, spec, c)" by (cases p)
  show ?case
    using fewer_wans_trans [OF move_fewer Cons.IH] by (simp add: p)
qed simp

lemma open_fewer: "fewer_wans (fs_intents s) (fs_intents (OpenStore_fw s))"
proof -
  obtain b s1 where f: "fs_fault s = (b, s1)" by force
  then have "fs_intents s1 = fs_intents s"
    using fs_fault_tables by (simp add: same_tables_def)
  then show ?thesis
    using moves_fewer [of s1 "migrate_pending (fs_intents s1)"] by (simp add: OpenStore_fw_def migrateInlineSecrets_def f)
qed

lemma handle_delete_fewer: "fewer_wans (fs_intents s) (fs_intents (snd (handleDeleteIntent j s)))"
proof -
  obtain r1 s1 where g: "GetIntent j s = (r1, s1)" by force
  have "fs_intents s1 = fs_intents s"
    using reads_intents(1) [of j s] by (simp add: g)
  moreover obtain r2 s2 where d: "DeleteIntent j s1 = (r2, s2)" by force
  ultimately show ?thesis
    using delete_fewer [of s1 j] by (auto simp: handleDeleteIntent_def g d split: option.split fw_error.split)
qed

text \<open>An uplink's request, when no statement of it fails.\<close>

lemma calm_statements:
  assumes "fs_faults s = []"
  shows "GetIntent j s = (r, s') \<Longrightarrow> s' = s" "CreateIntent i s = (q, s') \<Longrightarrow> fs_faults s' = []" "UpdateIntent i s = (q, s') \<Longrightarrow> fs_faults s' = []"
  using assms by (auto simp: GetIntent_def CreateIntent_def UpdateIntent_def fs_fault_calm [OF assms] Let_def split: sum.splits if_splits)

lemma enforced_one:
  assumes "fs_faults s = []" "one_wan xs" "\<not> is_on IntentWANConfig i \<Longrightarrow> fewer_wans xs (fs_intents s)"
  shows "one_wan (fs_intents (snd (enforceWANConfigInvariant i t s)))"
  using assms(2,3) disable_one [OF assms(1), of "in_id i" t]
  by (auto simp: enforceWANConfigInvariant_def is_on_def intro: one_wan_fewer)

lemma handle_create_one:
  assumes calm: "fs_faults s = []" and one: "one_wan (fs_intents s)"
  shows "one_wan (fs_intents (snd (handleCreateIntent q u t s)))"
proof -
  have "one_wan (fs_intents (snd (case CreateIntent i s of (Inl e, s1) \<Rightarrow> ((a, None), s1)
      | (Inr i, s1) \<Rightarrow> (case enforceWANConfigInvariant i t s1 of (Some e, s2) \<Rightarrow> ((b, None), s2) | (None, s2) \<Rightarrow> ((c, Some i), s2)))))"
    for i a b c
  proof -
    obtain r s1 where cr: "CreateIntent i s = (r, s1)" by force
    show ?thesis
    proof (cases r)
      case (Inl e)
      have "fs_intents s1 = fs_intents s"
        using cr by (cases rule: CreateIntent_cases) (auto simp: Inl)
      with Inl one show ?thesis by (simp add: cr)
    next
      case (Inr i')
      have "is_on IntentWANConfig i' = is_on IntentWANConfig i"
        using cr by (cases rule: CreateIntent_cases) (auto simp: Inr is_on_def)
      then have "one_wan (fs_intents (snd (enforceWANConfigInvariant i' t s1)))"
        by (intro enforced_one [OF calm_statements(2) [OF calm cr] one]) (simp add: create_fewer [OF cr])
      then show ?thesis
        by (auto simp: cr Inr split: prod.split option.split)
    qed
  qed
  then show ?thesis
    using one unfolding handleCreateIntent_def by (auto split: option.split)
qed

lemma handle_update_one:
  assumes calm: "fs_faults s = []" and one: "one_wan (fs_intents s)"
  shows "one_wan (fs_intents (snd (handleUpdateIntent j q t s)))"
proof -
  obtain r1 s1 where g: "GetIntent j s = (r1, s1)" by force
  have s1: "s1 = s" by (rule calm_statements(1) [OF calm g])
  have "one_wan (fs_intents (snd (case UpdateIntent i s of (Inl e, s2) \<Rightarrow> (x, s2)
      | (Inr e3, s2) \<Rightarrow> (case enforceWANConfigInvariant e3 t s2 of (Some e, s3) \<Rightarrow> (y, s3) | (None, s3) \<Rightarrow> (w e3, s3)))))"
    for i x y w
  proof -
    obtain r s2 where up: "UpdateIntent i s = (r, s2)" by force
    show ?thesis
    proof (cases r)
      case (Inl e)
      have "fs_intents s2 = fs_intents s"
        using up by (cases rule: UpdateIntent_cases) (auto simp: Inl)
      with Inl one show ?thesis by (simp add: up)
    next
      case (Inr i')
      have "is_on IntentWANConfig i' = is_on IntentWANConfig i"
        using up by (cases rule: UpdateIntent_cases) (auto simp: Inr is_on_def)
      then have "one_wan (fs_intents (snd (enforceWANConfigInvariant i' t s2)))"
        by (intro enforced_one [OF calm_statements(3) [OF calm up] one]) (simp add: update_fewer [OF up])
      then show ?thesis
        by (auto simp: up Inr split: prod.split option.split)
    qed
  qed
  then show ?thesis
    using one unfolding handleUpdateIntent_def g s1 by (auto simp: Let_def split: option.split sum.split)
qed

lemma exec_one:
  assumes "fs_faults s = []" "one_wan (fs_intents s)"
  shows "one_wan (fs_intents (exec_op p s))"
  using one_wan_fewer [OF assms(2)] handle_create_one [OF assms] handle_update_one [OF assms]
  by (cases p) (simp_all add: exec_op_def state_ops state_ops_intents seed_fewer forward_fewer open_fewer handle_delete_fewer)

text \<open>C26: while no statement fails, a run of requests, seedings, forward upkeep and restarts never leaves two uplinks
  enabled, whichever of them is created, edited or switched on, and keeps the ids distinct.\<close>

theorem one_wan_enabled:
  assumes "ids_distinct s" "at_most_one (is_on IntentWANConfig) (fs_intents s)" "list_all (\<lambda>(fs, p). fs = []) ops"
  shows "ids_distinct (run_ops ops s) \<and> at_most_one (is_on IntentWANConfig) (fs_intents (run_ops ops s))"
proof -
  have "one_wan (fs_intents s)"
    by (rule at_most_one_wan [OF assms(2)])
  then have "one_wan (fs_intents (run_ops ops s))"
    using assms(3)
  proof (induction ops arbitrary: s)
    case (Cons a ops)
    then obtain p where a: "a = ([], p)" by (cases a) auto
    have "one_wan (fs_intents (exec_op p (s\<lparr>fs_faults := []\<rparr>)))"
      by (rule exec_one) (use Cons.prems(1) in auto)
    then show ?case
      using Cons.IH Cons.prems(2) by (simp add: a run_ops_def)
  qed (simp add: run_ops_def)
  moreover have "ids_distinct (run_ops ops s)"
    by (rule ids.run_keeps [OF assms(1)])
  ultimately show ?thesis
    using one_wan_at_most by (simp add: ids_distinct_def)
qed

theorem one_wan_enabled_witness:
  "map in_id (filter (is_on IntentWANConfig)
     (fs_intents (run_ops [([], OpCreate (Some wan_request) ''a'' 1), ([], OpCreate (Some wan_request) ''b'' 2)] fw_empty))) = [''b''] \<and>
   at_most_one (is_on IntentWANConfig)
     (fs_intents (run_ops [([], OpCreate (Some wan_request) ''a'' 1), ([], OpCreate (Some wan_request) ''b'' 2)] fw_empty))"
proof -
  have "ids_distinct fw_empty" "at_most_one (is_on IntentWANConfig) (fs_intents fw_empty)"
    by (simp_all add: ids_distinct_def at_most_one_def fw_empty_def)
  from one_wan_enabled [OF this, of "[([], OpCreate (Some wan_request) ''a'' 1), ([], OpCreate (Some wan_request) ''b'' 2)]"]
  show ?thesis
    by (intro conjI) (code_simp | simp)+
qed

section \<open>Where a failed statement leaves the store\<close>

text \<open>
  The other uplinks are disabled by a statement of its own, after the intent's transaction.  When it fails both uplinks
  stay enabled, and no later push compiles.
\<close>

lemma wan_switch_not_atomic:
  "let s = run_ops [([], OpCreate (Some wan_request) ''a'' 1), ([False, True], OpCreate (Some wan_request) ''b'' 2)] fw_empty
   in length (filter (is_on IntentWANConfig) (fs_intents s)) = 2 \<and> isl (Compile (fs_intents s) (fs_secrets s))"
  by code_simp

text \<open>
  The marker is written before the rules.  When the first rule fails, the marker stays and every later start seeds
  nothing: the baseline rules are missing for good.
\<close>

lemma seed_failure_permanent:
  "let s = run_ops [([False, False, True], OpSeed [''a'', ''b'', ''c''] 1)] fw_empty
   in fs_intents s = [] \<and> seeded s"
  by code_simp

text \<open>
  The validation reads the spec's keys without regard to case, as the decoder does, and the split of the secret does
  not: a request with the key \<^verbatim>\<open>Secret\<close> is accepted, the secret stays in the stored spec, a list shows it, and the
  compile, which looks in the secrets' table, refuses.
\<close>

definition loud_request :: create_req where
  "loud_request = wan_request\<lparr>cq_spec := Some (JObj [(''proto'', JStr ''pppoe''), (''username'', JStr ''u''), (''Secret'', JStr ''pw'')])\<rparr>"

lemma inline_secret_case:
  "let s = run_ops [([], OpCreate (Some loud_request) ''a'' 1)] fw_empty
   in map in_spec (snd (fst (handleListIntents s))) = [cq_spec loud_request] \<and> fs_secrets s = []"
  by code_simp

end
