(* ===== verification/Firewall_Service_Props.thy ===== *)
theory Firewall_Service_Props
  imports Firewall_Service Firewall_Store_Props
begin

text \<open>
  The drift rule across the push and the reconcile: what a push records, what the next reconcile compares it with, and the
  verdict it publishes.
\<close>

section \<open>Node state rows\<close>

lemma first_updated:
  "(\<And>q. ns_node (f q) = ns_node q) \<Longrightarrow>
   sql_first (\<lambda>q. ns_node q = n) (sql_update (\<lambda>q. ns_node q = n) f rs) = map_option f (sql_first (\<lambda>q. ns_node q = n) rs)"
  by (induction rs) auto

lemma upsert_state_calm:
  assumes "fs_faults s = []" "\<And>q. ns_node (f q) = ns_node q"
  shows "\<exists>s'. upsert_state n f s = (None, s') \<and> fs_faults s' = [] \<and> fs_intents s' = fs_intents s \<and> fs_secrets s' = fs_secrets s \<and>
    sql_first (\<lambda>q. ns_node q = n) (fs_states s') = Some (f (case sql_first (\<lambda>q. ns_node q = n) (fs_states s) of None \<Rightarrow> fresh_state n | Some q \<Rightarrow> q))"
proof (cases "n \<in> ns_node ` set (fs_states s)")
  case True
  then obtain q where "sql_first (\<lambda>q. ns_node q = n) (fs_states s) = Some q"
    by (cases "sql_first (\<lambda>q. ns_node q = n) (fs_states s)") (auto simp: sql_first_None)
  then show ?thesis
    using True assms by (auto simp: upsert_state_def fs_fault_calm first_updated)
next
  case False
  then have "sql_first (\<lambda>q. ns_node q = n) (fs_states s) = None"
    by (auto simp: sql_first_None)
  then show ?thesis
    using False assms by (simp add: upsert_state_def fs_fault_calm sql_first_append fresh_state_def)
qed

lemma get_state_calm: "fs_faults s = [] \<Longrightarrow> GetNodeState n s = (Inr (sql_first (\<lambda>q. ns_node q = n) (fs_states s)), s)"
  by (simp add: GetNodeState_def fs_fault_calm)

section \<open>Sealing what the agent reports\<close>

lemma update_same: "map_of l k = Some v \<Longrightarrow> AList.update k v l = l"
  by (induction l) (auto split: if_splits)

lemma update_twice: "AList.update k v (AList.update k u l) = AList.update k v l"
  by (induction l) auto

lemma reveal_seal_wan: "reveal_wan (seal_wan w) = reveal_wan w"
  by (auto simp: reveal_wan_def seal_wan_def update_conv' update_twice update_same split: option.split uci.split)

lemma reveal_seal: "revealState (sealObservedSecret st) = revealState st"
  by (auto simp: revealState_def sealObservedSecret_def reveal_seal_wan update_conv' update_twice split: option.split uci.split)

lemma reveal_wan_idem: "reveal_wan (reveal_wan w) = reveal_wan w"
  by (auto simp: reveal_wan_def update_conv' split: option.split uci.split)

lemma reveal_idem: "revealState (revealState st) = revealState st"
  by (auto simp: revealState_def reveal_wan_idem update_conv' update_twice split: option.split uci.split)

section \<open>A push, then a reconcile\<close>

definition sole_firewall :: "string \<Rightarrow> fw_world \<Rightarrow> bool" where
  "sole_firewall n w = (case ListByRole ''firewall'' (fw_inv w) of (Inr [nd], i) \<Rightarrow> n_id nd = n \<and> i = fw_inv w | _ \<Rightarrow> False)"

lemma sole_firewall_read:
  assumes "sole_firewall n w"
  shows "single_firewall w = (Some n, w)"
  using assms by (auto simp: sole_firewall_def single_firewall_def firewalls_def split: prod.splits sum.splits list.splits)

lemma compile_calm:
  assumes "fs_faults (fw_db w) = []" "svc_compile w = (r, w')"
  shows "w' = w"
proof -
  have "ListIntentsForCompile (fw_db w) = (x, s') \<Longrightarrow> s' = fw_db w" for x s'
    by (auto simp: ListIntentsForCompile_def ListIntents_def secrets_def fs_fault_calm [OF assms(1)])
  then show ?thesis
    using assms(2) by (auto simp: svc_compile_def on_db_def split: prod.splits sum.splits)
qed

text \<open>What a push that the agent accepts leaves behind.\<close>

lemma push_recorded:
  assumes "sole_firewall n w" "fs_faults (fw_db w) = []" "svc_compile w = (Inr c, w)" "fw_replies w = RpcAck a # rs" "ack_ok a"
  shows "\<exists>q. applyPush sc w = (DoOk (Some (object_text [(''hash'', AStr (cd_hash c)), (''nodeId'', AStr n)])),
      [(''info'', ''pushing to '' @ n), (''info'', ''applied: hash='' @ ShortFingerprint (cd_hash c))], q) \<and>
    fw_inv q = fw_inv w \<and> fw_key q = fw_key w \<and> fs_faults (fw_db q) = [] \<and> fw_replies q = rs \<and>
    fw_sent q = fw_sent w @ [CmdApply n (revealState (cd_state c)) (cd_hash c)] \<and> fw_events q = fw_events w @ [FirewallApplied n (cd_hash c)] \<and>
    fs_intents (fw_db q) = fs_intents (fw_db w) \<and> fs_secrets (fw_db q) = fs_secrets (fw_db w) \<and>
    (\<exists>ns. sql_first (\<lambda>q. ns_node q = n) (fs_states (fw_db q)) = Some ns \<and> ns_intent_hash ns = cd_hash c \<and> ns_last_applied ns \<noteq> None)"
proof -
  obtain s' where u: "UpdateAfterApply n (cd_hash c) (fw_now w) (fw_db w) = (None, s')" "fs_faults s' = []" "fs_intents s' = fs_intents (fw_db w)"
      "fs_secrets s' = fs_secrets (fw_db w)"
      "\<exists>ns. sql_first (\<lambda>q. ns_node q = n) (fs_states s') = Some ns \<and> ns_intent_hash ns = cd_hash c \<and> ns_last_applied ns \<noteq> None"
    using upsert_state_calm [OF assms(2), of "\<lambda>q. q\<lparr>ns_intent_hash := cd_hash c, ns_observed_hash := cd_hash c, ns_last_applied := Some (fw_now w)\<rparr>" n]
    unfolding UpdateAfterApply_def by force
  show ?thesis
    using u(2-) by (simp add: applyPush_def sole_firewall_read [OF assms(1)] assms(3-5) request_def on_db_def u(1) Let_def)
qed

text \<open>What a fetch records of a node whose last push is keyed.\<close>

lemma fetch_recorded:
  assumes "sole_firewall n w" "fs_faults (fw_db w) = []" "fw_replies w = RpcAck g # rs" "ack_hash g \<noteq> []"
    "sql_first (\<lambda>q. ns_node q = n) (fs_states (fw_db w)) = Some ns" "IsKeyed (ns_intent_hash ns)"
  shows "\<exists>q. reconcileFetch sc w = (DoOk (Some (object_text [(''nodeId'', AStr n), (''observedHash'', AStr (fingerprint (fw_key w) (ack_state g)))])),
      [(''info'', ''observed hash='' @ ShortFingerprint (fingerprint (fw_key w) (ack_state g)))], q) \<and>
    fw_inv q = fw_inv w \<and> fw_key q = fw_key w \<and> fs_faults (fw_db q) = [] \<and> fw_sent q = fw_sent w @ [CmdGet n] \<and> fw_events q = fw_events w \<and>
    sql_first (\<lambda>q. ns_node q = n) (fs_states (fw_db q)) =
      Some (ns\<lparr>ns_observed_hash := fingerprint (fw_key w) (ack_state g), ns_last_reconciled := Some (fw_now w)\<rparr>)"
proof -
  define h where "h = fingerprint (fw_key w) (ack_state g)"
  have h': "fingerprint (fw_key w) (sealObservedSecret (ack_state g)) = h"
    by (simp add: h_def fingerprint_def reveal_seal)
  obtain s' where u: "UpdateAfterReconcile n h (fw_now w) (fw_db w) = (None, s')" "fs_faults s' = []"
      "sql_first (\<lambda>q. ns_node q = n) (fs_states s') = Some (ns\<lparr>ns_observed_hash := h, ns_last_reconciled := Some (fw_now w)\<rparr>)"
    using upsert_state_calm [OF assms(2), of "\<lambda>q. q\<lparr>ns_observed_hash := h, ns_last_reconciled := Some (fw_now w)\<rparr>" n] assms(5)
    unfolding UpdateAfterReconcile_def by force
  show ?thesis
    unfolding h_def [symmetric]
    using u(2-) assms(4)
    by (simp add: reconcileFetch_def sole_firewall_read [OF assms(1)] assms(3) request_def observe_def h' on_db_def
        get_state_calm [OF assms(2)] assms(5,6) settle_legacy_def u(1))
qed

lemma compare_verdict:
  assumes "sole_firewall n w" "fs_faults (fw_db w) = []" "sql_first (\<lambda>q. ns_node q = n) (fs_states (fw_db w)) = Some ns"
  shows "fw_events (snd (snd (reconcileCompare sc w))) = fw_events w @
    [if drifts (fw_key w) ns then FirewallDrift n (ns_intent_hash ns) (ns_observed_hash ns)
     else FirewallInSync n (ns_intent_hash ns) (ns_observed_hash ns)]"
    "fw_sent (snd (snd (reconcileCompare sc w))) = fw_sent w"
  using assms(3)
  by (simp_all add: reconcileCompare_def sole_firewall_read [OF assms(1)] svc_NodeState_def on_db_def get_state_calm [OF assms(2)] Let_def)

lemma fingerprint_keyed: "IsKeyed (fingerprint key st)" "fingerprint key st \<noteq> []"
  by (simp_all add: IsKeyed_def fingerprint_def keyed_prefix_def)

lemma sole_firewall_cong: "fw_inv w' = fw_inv w \<Longrightarrow> sole_firewall n w' = sole_firewall n w"
  unfolding sole_firewall_def by (simp split: prod.split sum.split list.split)


definition fw_node :: Node where
  "fw_node = \<lparr>n_id = ''fw'', n_role = ''firewall'', n_hostname = [], n_agent_version = [], n_image_version = [], n_confirmed_at = None,
     n_architecture = [], n_lan_ip = [], n_capabilities = [], n_metadata = [], n_storage = None, n_first_seen = 0, n_last_seen = 0,
     n_status = StatusUnset, n_mesh = None\<rparr>"

definition demo_key :: "uci \<Rightarrow> string" where
  "demo_key u = (if u = VMap [] then ''a'' else ''b'')"

definition fw_demo :: fw_world where
  "fw_demo = \<lparr>fw_db = fw_empty, fw_inv = \<lparr>iv_nodes = [fw_node], iv_keys = [], iv_registry = NewRegistry, iv_faults = [], iv_status = [],
       iv_events = [], iv_excluded = [], iv_retired = []\<rparr>, fw_key = demo_key, fw_managed = None, fw_now = 5,
     fw_replies = [RpcAck \<lparr>ack_ok = True, ack_hash = [], ack_state = []\<rparr>, RpcAck \<lparr>ack_ok = True, ack_hash = ''x'', ack_state = []\<rparr>],
     fw_sent = [], fw_events = [], fw_submits = [], fw_submit_fails = False, fw_ulid = [], fw_zone = [], fw_target = []\<rparr>"

definition demo_sc :: step_ctx where
  "demo_sc = \<lparr>c_job = ''j'', c_spec = [], c_prior = Map.empty, c_created_by = []\<rparr>"

lemma fw_demo_compiled:
  "svc_compile fw_demo = (Inr \<lparr>cd_intents = [], cd_state = [(''firewall'', VMap [(''redirect'', VList []), (''rule'', VList [])])],
     cd_hash = ''k1-b''\<rparr>, fw_demo)"
  by (simp add: svc_compile_def on_db_def fw_demo_def fw_empty_def ListIntentsForCompile_def ListIntents_def secrets_def fs_fault_def
      sql_order_def Compile_def acc_empty_def fingerprint_def keyed_prefix_def demo_key_def revealState_def)


text \<open>
  A hash of an earlier release that no longer matches is forgotten.  What is forgotten stands for the empty state, so a
  firewall that was emptied before the upgrade is then reported in sync, although it drifted.
\<close>

definition upgraded :: fw_world where
  "upgraded = fw_demo\<lparr>fw_db := fw_empty\<lparr>fs_states := [(fresh_state ''fw'')\<lparr>ns_intent_hash := ''old'', ns_last_applied := Some 1\<rparr>]\<rparr>,
     fw_replies := [RpcAck \<lparr>ack_ok = True, ack_hash = ''new'', ack_state = [(''firewall'', VMap [(''redirect'', VList []), (''rule'', VList [])])]\<rparr>]\<rparr>"

lemma forgotten_reads_in_sync:
  "fw_events (snd (snd (reconcileCompare demo_sc (snd (snd (reconcileFetch demo_sc upgraded)))))) = [FirewallInSync ''fw'' [] ''k1-b'']"
  by code_simp

end
