(* ===== verification/Auth.thy ===== *)
theory Auth
  imports Prelude "HOL-Library.AList"
begin

text \<open>
  Operator sign-in (\<^verbatim>\<open>api/internal/auth/{types,schema,store,service,handlers}.go\<close>): users, passkeys and sessions as tables,
  the unfinished WebAuthn ceremonies in memory, and the handlers.  \<open>au_faults\<close> lists the outcomes of the statements.  The
  WebAuthn library is a parameter: it accepts or refuses a response to a challenge.  A handler that first takes its
  ceremony and then works on the database is the composition of two definitions, so that other requests can come between.
  What is random in a request (tokens, challenges, user handles) and the time are fields of it.  \<open>au_log\<close> is a history.
\<close>

section \<open>Data\<close>

record WACred =
  pk_id :: string
  pk_key :: string
  pk_attestation :: string
  pk_transports :: "string list"
  pk_aaguid :: string
  pk_sign_count :: nat
  pk_clone :: bool
  pk_eligible :: bool
  pk_backup :: bool

record User =
  usr_id :: string
  usr_name :: string
  usr_display :: string
  usr_created :: gotime
  usr_last_login :: "gotime option"
  usr_credentials :: "WACred list"

record Credential =
  cr_id :: string
  cr_user :: string
  cr_key :: string
  cr_attestation :: string
  cr_transports :: "string list"
  cr_aaguid :: string
  cr_sign_count :: nat
  cr_clone :: bool
  cr_eligible :: bool
  cr_backup :: bool
  cr_nickname :: string
  cr_created :: gotime
  cr_last_used :: "gotime option"

definition toWebAuthn :: "Credential \<Rightarrow> WACred" where
  "toWebAuthn c = \<lparr>pk_id = cr_id c, pk_key = cr_key c, pk_attestation = cr_attestation c, pk_transports = cr_transports c,
     pk_aaguid = cr_aaguid c, pk_sign_count = cr_sign_count c, pk_clone = cr_clone c, pk_eligible = cr_eligible c, pk_backup = cr_backup c\<rparr>"

definition fromWebAuthn :: "WACred \<Rightarrow> string \<Rightarrow> Credential" where
  "fromWebAuthn p u = \<lparr>cr_id = pk_id p, cr_user = u, cr_key = pk_key p, cr_attestation = pk_attestation p,
     cr_transports = pk_transports p, cr_aaguid = pk_aaguid p, cr_sign_count = pk_sign_count p, cr_clone = pk_clone p,
     cr_eligible = pk_eligible p, cr_backup = pk_backup p, cr_nickname = [], cr_created = 0, cr_last_used = None\<rparr>"

text \<open>The row of a session; \<open>sn_hash\<close> is NULL in a row of an older release.\<close>

record Session =
  sn_token :: string
  sn_hash :: "string option"
  sn_user :: string
  sn_created :: gotime
  sn_expires :: gotime
  sn_active :: gotime

datatype pending_kind = KRegister | KLogin

datatype authenticatorChoice = authenticatorAny | authenticatorPlatform | authenticatorHybrid | authenticatorSecurityKey

text \<open>A ceremony.  \<open>pa_id\<close> is the identity of the object, which the code compares pointers for.\<close>

record pendingAuth =
  pa_id :: nat
  pa_kind :: pending_kind
  pa_user :: "User option"
  pa_session :: "string option"
  pa_expires :: gotime
  pa_first_run :: bool
  pa_by :: string
  pa_step_up :: "string option"
  pa_verified :: bool
  pa_choice :: authenticatorChoice

text \<open>
  History: a challenge issued for a ceremony and what it was begun on, an assertion verified, a passkey and a session created
  by a ceremony.  The numbers are the identities of the ceremonies.
\<close>

datatype basis = OnFirstRun | OnSession | OnLogin

datatype auth_event =
    Issued nat basis string string
  | Asserted nat string string string
  | Enrolled nat string string
  | SignedIn nat string string string

record auth =
  au_users :: "User list"
  au_creds :: "Credential list"
  au_sessions :: "Session list"
  au_pending :: "(string \<times> pendingAuth) list"
  au_next :: nat
  au_hooks :: "string list"
  au_faults :: "bool list"
  au_log :: "auth_event list"

datatype auth_error = AuDb | AuConstraint | AuNotFirstRun

definition au_fault :: "auth \<Rightarrow> bool \<times> auth" where
  "au_fault s = (case au_faults s of [] \<Rightarrow> (False, s) | b # bs \<Rightarrow> (b, s\<lparr>au_faults := bs\<rparr>))"

section \<open>Store\<close>

definition CountUsers :: "auth \<Rightarrow> (auth_error + nat) \<times> auth" where
  "CountUsers s = (let (bad, s1) = au_fault s in if bad then (Inl AuDb, s1) else (Inr (length (au_users s1)), s1))"

definition FirstRun :: "auth \<Rightarrow> (auth_error + bool) \<times> auth" where
  "FirstRun s = (let (bad, s1) = au_fault s in if bad then (Inl AuDb, s1) else (Inr (au_users s1 = []), s1))"

text \<open>A row is refused when its key is taken or its user is not there.\<close>

definition credential_fits :: "Credential \<Rightarrow> auth \<Rightarrow> bool" where
  "credential_fits c s \<longleftrightarrow> cr_id c \<notin> cr_id ` set (au_creds s) \<and> cr_user c \<in> usr_id ` set (au_users s)"

definition insertCredential :: "Credential \<Rightarrow> auth \<Rightarrow> auth_error option \<times> auth" where
  "insertCredential c s = (if credential_fits c s then (None, s\<lparr>au_creds := au_creds s @ [c]\<rparr>) else (Some AuConstraint, s))"

definition CreateCredential :: "Credential \<Rightarrow> auth \<Rightarrow> auth_error option \<times> auth" where
  "CreateCredential c s = (let (bad, s1) = au_fault s in if bad then (Some AuDb, s1) else insertCredential c s1)"

definition CreateFirstUser :: "User \<Rightarrow> Credential \<Rightarrow> auth \<Rightarrow> auth_error option \<times> auth" where
  "CreateFirstUser u c s = (let (bad, s1) = au_fault s in
     if bad then (Some AuDb, s1)
     else if au_users s1 \<noteq> [] then (Some AuNotFirstRun, s1)
     else case insertCredential c (s1\<lparr>au_users := [u\<lparr>usr_last_login := None, usr_credentials := []\<rparr>]\<rparr>) of
       (Some e, _) \<Rightarrow> (Some e, s1) | (None, s2) \<Rightarrow> (None, s2))"

definition listCredentialsForUser :: "string \<Rightarrow> auth \<Rightarrow> (auth_error + Credential list) \<times> auth" where
  "listCredentialsForUser u s = (let (bad, s1) = au_fault s in
     if bad then (Inl AuDb, s1) else (Inr (sql_select (\<lambda>c. cr_user c = u) (au_creds s1)), s1))"

definition loadCredentials :: "User \<Rightarrow> auth \<Rightarrow> (auth_error + User) \<times> auth" where
  "loadCredentials u s = (case listCredentialsForUser (usr_id u) s of
     (Inl e, s1) \<Rightarrow> (Inl e, s1) | (Inr cs, s1) \<Rightarrow> (Inr (u\<lparr>usr_credentials := map toWebAuthn cs\<rparr>), s1))"

definition GetUserByID :: "string \<Rightarrow> auth \<Rightarrow> (auth_error + User option) \<times> auth" where
  "GetUserByID i s = (let (bad, s1) = au_fault s in
     if bad then (Inl AuDb, s1)
     else case sql_first (\<lambda>u. usr_id u = i) (au_users s1) of
       None \<Rightarrow> (Inr None, s1)
     | Some u \<Rightarrow> (case loadCredentials u s1 of (Inl e, s2) \<Rightarrow> (Inl e, s2) | (Inr v, s2) \<Rightarrow> (Inr (Some v), s2)))"

definition UpdateLastLogin :: "string \<Rightarrow> gotime \<Rightarrow> auth \<Rightarrow> auth_error option \<times> auth" where
  "UpdateLastLogin i t s = (let (bad, s1) = au_fault s in
     if bad then (Some AuDb, s1)
     else (None, s1\<lparr>au_users := sql_update (\<lambda>u. usr_id u = i) (\<lambda>u. u\<lparr>usr_last_login := Some t\<rparr>) (au_users s1)\<rparr>))"

definition UpdateCredentialAfterLogin :: "WACred \<Rightarrow> gotime \<Rightarrow> auth \<Rightarrow> auth_error option \<times> auth" where
  "UpdateCredentialAfterLogin p t s = (let (bad, s1) = au_fault s in
     if bad then (Some AuDb, s1)
     else (None, s1\<lparr>au_creds := sql_update (\<lambda>c. cr_id c = pk_id p)
            (\<lambda>c. c\<lparr>cr_sign_count := pk_sign_count p, cr_clone := pk_clone p, cr_backup := pk_backup p, cr_last_used := Some t\<rparr>) (au_creds s1)\<rparr>))"

definition UserHandleForCredential :: "string \<Rightarrow> auth \<Rightarrow> (auth_error + string option) \<times> auth" where
  "UserHandleForCredential i s = (let (bad, s1) = au_fault s in
     if bad then (Inl AuDb, s1)
     else (Inr (map_option cr_user (sql_first (\<lambda>c. cr_id c = i) (au_creds s1))), s1))"

subsection \<open>Sessions\<close>

text \<open>\<open>hash\<close> is \<^verbatim>\<open>busauth.HashToken\<close>.\<close>

definition CreateSession :: "(string \<Rightarrow> string) \<Rightarrow> Session \<Rightarrow> auth \<Rightarrow> auth_error option \<times> auth" where
  "CreateSession hash n s = (let (bad, s1) = au_fault s; h = hash (sn_token n) in
     if bad then (Some AuDb, s1)
     else if sn_token n \<in> sn_token ` set (au_sessions s1) \<or> Some h \<in> sn_hash ` set (au_sessions s1)
        \<or> sn_user n \<notin> usr_id ` set (au_users s1) then (Some AuConstraint, s1)
     else (None, s1\<lparr>au_sessions := au_sessions s1 @ [n\<lparr>sn_hash := Some h\<rparr>]\<rparr>))"

definition getSession :: "(Session \<Rightarrow> bool) \<Rightarrow> auth \<Rightarrow> (auth_error + Session option) \<times> auth" where
  "getSession P s = (let (bad, s1) = au_fault s in if bad then (Inl AuDb, s1) else (Inr (sql_first P (au_sessions s1)), s1))"

definition GetSession :: "(string \<Rightarrow> string) \<Rightarrow> string \<Rightarrow> auth \<Rightarrow> (auth_error + Session option) \<times> auth" where
  "GetSession hash tok s =
     (if tok = [] then (Inr None, s)
      else case getSession (\<lambda>q. sn_hash q = Some (hash tok)) s of
        (Inl e, s1) \<Rightarrow> (Inl e, s1)
      | (Inr (Some q), s1) \<Rightarrow> (Inr (Some (q\<lparr>sn_token := tok\<rparr>)), s1)
      | (Inr None, s1) \<Rightarrow> (case getSession (\<lambda>q. sn_token q = tok) s1 of
          (Inl e, s2) \<Rightarrow> (Inl e, s2)
        | (Inr r, s2) \<Rightarrow> (Inr (map_option (\<lambda>q. q\<lparr>sn_token := tok\<rparr>) r), s2)))"

definition named_by :: "(string \<Rightarrow> string) \<Rightarrow> string \<Rightarrow> Session \<Rightarrow> bool" where
  "named_by hash tok q \<longleftrightarrow> sn_hash q = Some (hash tok) \<or> sn_token q = tok"

definition TouchSession :: "(string \<Rightarrow> string) \<Rightarrow> string \<Rightarrow> gotime \<Rightarrow> auth \<Rightarrow> auth_error option \<times> auth" where
  "TouchSession hash tok t s =
     (if tok = [] then (None, s)
      else let (bad, s1) = au_fault s in
        if bad then (Some AuDb, s1)
        else (None, s1\<lparr>au_sessions := sql_update (named_by hash tok) (\<lambda>q. q\<lparr>sn_active := t\<rparr>) (au_sessions s1)\<rparr>))"

definition DeleteSession :: "(string \<Rightarrow> string) \<Rightarrow> string \<Rightarrow> auth \<Rightarrow> auth_error option \<times> auth" where
  "DeleteSession hash tok s =
     (if tok = [] then (None, s)
      else let (bad, s1) = au_fault s in
        if bad then (Some AuDb, s1)
        else (None, s1\<lparr>au_sessions := filter (\<lambda>q. \<not> named_by hash tok q) (au_sessions s1)\<rparr>))"

definition DeleteExpiredSessions :: "gotime \<Rightarrow> auth \<Rightarrow> auth_error option \<times> auth" where
  "DeleteExpiredSessions t s = (let (bad, s1) = au_fault s in
     if bad then (Some AuDb, s1) else (None, s1\<lparr>au_sessions := filter (\<lambda>q. \<not> sn_expires q < t) (au_sessions s1)\<rparr>))"

text \<open>The tokens without a hash, and the update of each that no other row stands in the way of.\<close>

definition backfill_one :: "(string \<Rightarrow> string) \<Rightarrow> string \<Rightarrow> Session list \<Rightarrow> Session list" where
  "backfill_one hash tok qs = (if \<exists>q \<in> set qs. sn_hash q = Some (hash tok) then qs
     else sql_update (\<lambda>q. sn_token q = tok \<and> sn_hash q = None) (\<lambda>q. q\<lparr>sn_hash := Some (hash tok)\<rparr>) qs)"

definition backfillSessionHashes :: "(string \<Rightarrow> string) \<Rightarrow> auth \<Rightarrow> auth_error option \<times> auth" where
  "backfillSessionHashes hash s = (let (bad, s1) = au_fault s in
     if bad then (Some AuDb, s1)
     else (None, s1\<lparr>au_sessions := fold (backfill_one hash)
            (map sn_token (sql_select (\<lambda>q. sn_hash q = None \<and> sn_token q \<noteq> []) (au_sessions s1))) (au_sessions s1)\<rparr>))"

section \<open>Ceremonies\<close>

definition sessionLifetime :: gotime where "sessionLifetime = 7 * 24 * 60 * 60 * 1000"
definition pendingLifetime :: gotime where "pendingLifetime = 5 * 60 * 1000"
definition maxPending :: int where "maxPending = 1024"

definition cleanupPending :: "gotime \<Rightarrow> auth \<Rightarrow> auth" where
  "cleanupPending t s = s\<lparr>au_pending := filter (\<lambda>(k, p). \<not> pa_expires p < t) (au_pending s)\<rparr>"

text \<open>One of those that expire first; the code takes the first such entry in the order of its map.\<close>

fun soonest :: "(string \<times> pendingAuth) list \<Rightarrow> (string \<times> pendingAuth) option" where
  "soonest [] = None"
| "soonest ((k, p) # ps) = (case soonest ps of
     None \<Rightarrow> Some (k, p) | Some (l, q) \<Rightarrow> if pa_expires q < pa_expires p then Some (l, q) else Some (k, p))"

definition evictPendingLocked :: "gotime \<Rightarrow> (string \<times> pendingAuth) list \<Rightarrow> (string \<times> pendingAuth) list" where
  "evictPendingLocked t ps =
     (if \<exists>(k, p) \<in> set ps. pa_expires p < t then filter (\<lambda>(k, p). \<not> pa_expires p < t) ps
      else case soonest ps of None \<Rightarrow> ps | Some (k, p) \<Rightarrow> AList.delete k ps)"

text \<open>\<open>tok\<close> is the random token, \<^term>\<open>None\<close> when the random source fails.\<close>

definition storePending :: "string option \<Rightarrow> gotime \<Rightarrow> pendingAuth \<Rightarrow> auth \<Rightarrow> string option \<times> auth" where
  "storePending tok t p s = (case tok of
     None \<Rightarrow> (None, s)
   | Some k \<Rightarrow>
       (let ps = (if int (length (au_pending s)) \<ge> maxPending then evictPendingLocked t (au_pending s) else au_pending s)
        in (Some k, s\<lparr>au_pending := AList.update k (p\<lparr>pa_expires := t + pendingLifetime\<rparr>) ps\<rparr>)))"

definition dropPending :: "string \<Rightarrow> auth \<Rightarrow> auth" where
  "dropPending k s = s\<lparr>au_pending := AList.delete k (au_pending s)\<rparr>"

definition takePending :: "string \<Rightarrow> gotime \<Rightarrow> auth \<Rightarrow> pendingAuth option \<times> auth" where
  "takePending k t s = (case map_of (au_pending s) k of
     None \<Rightarrow> (None, s)
   | Some p \<Rightarrow> (if pa_expires p < t then None else Some p, dropPending k s))"

definition takeStepUp :: "string \<Rightarrow> gotime \<Rightarrow> auth \<Rightarrow> (pendingAuth \<times> string) option \<times> auth" where
  "takeStepUp k t s = (case map_of (au_pending s) k of
     None \<Rightarrow> (None, s)
   | Some p \<Rightarrow>
       if pa_kind p \<noteq> KRegister then (None, s)
       else case pa_step_up p of
         None \<Rightarrow> (None, s)
       | Some ch \<Rightarrow>
           if pa_expires p < t then (None, dropPending k s)
           else let q = p\<lparr>pa_step_up := None\<rparr> in (Some (q, ch), s\<lparr>au_pending := AList.update k q (au_pending s)\<rparr>))"

definition completeStepUp :: "string \<Rightarrow> pendingAuth \<Rightarrow> User \<Rightarrow> string \<Rightarrow> auth \<Rightarrow> bool \<times> auth" where
  "completeStepUp k p u creation s = (case map_of (au_pending s) k of
     None \<Rightarrow> (False, s)
   | Some cur \<Rightarrow>
       if pa_id cur \<noteq> pa_id p then (False, s)
       else (True, s\<lparr>au_pending := AList.update k (cur\<lparr>pa_user := Some u, pa_session := Some creation, pa_verified := True\<rparr>) (au_pending s)\<rparr>))"

section \<open>Sessions of requests\<close>

record auth_req =
  rq_session :: "string option"
  rq_pending :: "string option"
  rq_origins :: "string list"
  rq_now :: gotime
  rq_token :: "string option"
  rq_chal :: "string option"
  rq_handle :: "string option"
  rq_resp :: string

definition resolveSession :: "(string \<Rightarrow> string) \<Rightarrow> auth_req \<Rightarrow> auth \<Rightarrow> (auth_error + (Session \<times> User) option) \<times> auth" where
  "resolveSession hash rq s = (case rq_session rq of
     None \<Rightarrow> (Inr None, s)
   | Some tok \<Rightarrow> (case GetSession hash tok s of
       (Inl e, s1) \<Rightarrow> (Inl e, s1)
     | (Inr None, s1) \<Rightarrow> (Inr None, s1)
     | (Inr (Some q), s1) \<Rightarrow>
         if sn_expires q < rq_now rq then (Inr None, snd (DeleteSession hash (sn_token q) s1))
         else case GetUserByID (sn_user q) s1 of
           (Inl e, s2) \<Rightarrow> (Inl e, s2)
         | (Inr None, s2) \<Rightarrow> (Inr None, s2)
         | (Inr (Some u), s2) \<Rightarrow> (Inr (Some (q, u)), s2)))"

datatype gate = Forbidden | Internal | Unauthorized | Passed Session User

text \<open>\<open>allows\<close> is the allowlist of origins.  The touch of the session that follows the wrapped handler is a request of its own.\<close>

definition RequireSession :: "(string \<Rightarrow> bool) \<Rightarrow> (string \<Rightarrow> string) \<Rightarrow> auth_req \<Rightarrow> auth \<Rightarrow> gate \<times> auth" where
  "RequireSession allows hash rq s =
     (if \<not> list_all allows (rq_origins rq) then (Forbidden, s)
      else case resolveSession hash rq s of
        (Inl e, s1) \<Rightarrow> (Internal, s1)
      | (Inr None, s1) \<Rightarrow> (Unauthorized, s1)
      | (Inr (Some (q, u)), s1) \<Rightarrow> (Passed q u, s1))"

definition name_char :: "char \<Rightarrow> bool" where
  "name_char c \<longleftrightarrow> (CHR ''a'' \<le> c \<and> c \<le> CHR ''z'') \<or> (CHR ''A'' \<le> c \<and> c \<le> CHR ''Z'') \<or> (CHR ''0'' \<le> c \<and> c \<le> CHR ''9'')
     \<or> c \<in> {CHR ''_'', CHR ''-'', CHR ''.''}"

definition validUserName :: "string \<Rightarrow> bool" where
  "validUserName n \<longleftrightarrow> 1 \<le> length n \<and> length n \<le> 32 \<and> list_all name_char n \<and> \<not> has_prefix ''-'' n \<and> \<not> has_prefix ''.'' n"

definition makeUser :: "string \<Rightarrow> string \<Rightarrow> string option \<Rightarrow> gotime \<Rightarrow> User option" where
  "makeUser name display handle t =
     (if \<not> validUserName name then None
      else map_option (\<lambda>i. \<lparr>usr_id = i, usr_name = name, usr_display = (if display = [] then name else display), usr_created = t,
             usr_last_login = None, usr_credentials = []\<rparr>) handle)"

definition createSession :: "(string \<Rightarrow> string) \<Rightarrow> string option \<Rightarrow> gotime \<Rightarrow> string \<Rightarrow> auth \<Rightarrow> (auth_error + Session) \<times> auth" where
  "createSession hash tok t u s = (case tok of
     None \<Rightarrow> (Inl AuDb, s)
   | Some k \<Rightarrow>
       (let n = \<lparr>sn_token = k, sn_hash = None, sn_user = u, sn_created = t, sn_expires = t + sessionLifetime, sn_active = t\<rparr>
        in case CreateSession hash n s of (Some e, s1) \<Rightarrow> (Inl e, s1) | (None, s1) \<Rightarrow> (Inr n, s1)))"

section \<open>Handlers\<close>

text \<open>
  The library: the identifiers in a response, whether it answers a challenge with a passkey of a user (and the passkey as it
  is then), and whether it answers the challenge of a creation.
\<close>

record webauthn =
  wa_ids :: "string \<Rightarrow> (string \<times> string) option"
  wa_assert :: "User \<Rightarrow> string \<Rightarrow> string \<Rightarrow> WACred option"
  wa_create :: "User \<Rightarrow> string \<Rightarrow> string \<Rightarrow> WACred option"

datatype auth_body =
    ErrorBody | OkBody | UserBody User | StatusBody bool nat "User option"
  | StepUpBody string | CreationBody string "string list" authenticatorChoice | AssertionBody string

text \<open>The status, what is written, and the cookies: \<^term>\<open>Some []\<close> clears one.\<close>

record auth_reply =
  rp_status :: nat
  rp_body :: auth_body
  rp_session :: "string option"
  rp_pending :: "string option"

definition reply_err :: "nat \<Rightarrow> auth_reply" where
  "reply_err n = \<lparr>rp_status = n, rp_body = ErrorBody, rp_session = None, rp_pending = None\<rparr>"

definition reply_ok :: "auth_body \<Rightarrow> auth_reply" where
  "reply_ok b = \<lparr>rp_status = 200, rp_body = b, rp_session = None, rp_pending = None\<rparr>"

definition handleStatus :: "(string \<Rightarrow> string) \<Rightarrow> auth_req \<Rightarrow> auth \<Rightarrow> auth_reply \<times> auth" where
  "handleStatus hash rq s = (case FirstRun s of
     (Inl e, s1) \<Rightarrow> (reply_err 500, s1)
   | (Inr first, s1) \<Rightarrow> (case CountUsers s1 of
       (Inl e, s2) \<Rightarrow> (reply_err 500, s2)
     | (Inr n, s2) \<Rightarrow> (case resolveSession hash rq s2 of
         (Inr (Some (q, u)), s3) \<Rightarrow> (reply_ok (StatusBody (\<not> first) n (Some u)), s3)
       | (_, s3) \<Rightarrow> (reply_ok (StatusBody (\<not> first) n None), s3))))"

definition handleMe :: "(string \<Rightarrow> string) \<Rightarrow> auth_req \<Rightarrow> auth \<Rightarrow> auth_reply \<times> auth" where
  "handleMe hash rq s = (case resolveSession hash rq s of
     (Inl e, s1) \<Rightarrow> (reply_err 500, s1)
   | (Inr None, s1) \<Rightarrow> (reply_err 401, s1)
   | (Inr (Some (q, u)), s1) \<Rightarrow> (reply_ok (UserBody u), s1))"

definition handleLogout :: "(string \<Rightarrow> string) \<Rightarrow> auth_req \<Rightarrow> auth \<Rightarrow> auth_reply \<times> auth" where
  "handleLogout hash rq s =
     ((reply_ok OkBody)\<lparr>rp_session := Some []\<rparr>,
      case rq_session rq of None \<Rightarrow> s | Some tok \<Rightarrow> snd (DeleteSession hash tok s))"

subsection \<open>Registration\<close>

definition parseAuthenticatorChoice :: "string \<Rightarrow> authenticatorChoice option" where
  "parseAuthenticatorChoice c =
     (if c = [] then Some authenticatorAny else if c = ''platform'' then Some authenticatorPlatform
      else if c = ''hybrid'' then Some authenticatorHybrid else if c = ''security-key'' then Some authenticatorSecurityKey else None)"

definition beginCreation :: "User \<Rightarrow> authenticatorChoice \<Rightarrow> string option \<Rightarrow> (auth_body \<times> string) option" where
  "beginCreation u choice chal = map_option (\<lambda>c. (CreationBody c (map pk_id (usr_credentials u)) choice, c)) chal"

definition blank_pending :: "pending_kind \<Rightarrow> nat \<Rightarrow> pendingAuth" where
  "blank_pending k i = \<lparr>pa_id = i, pa_kind = k, pa_user = None, pa_session = None, pa_expires = 0, pa_first_run = False, pa_by = [],
     pa_step_up = None, pa_verified = False, pa_choice = authenticatorAny\<rparr>"

text \<open>A ceremony that is stored: its identity is new, and the challenge issued for it is noted.\<close>

definition note_event :: "auth_event \<Rightarrow> auth \<Rightarrow> auth" where
  "note_event e s = s\<lparr>au_log := au_log s @ [e]\<rparr>"

definition basis_of :: "pendingAuth \<Rightarrow> basis" where
  "basis_of p = (if pa_kind p = KLogin then OnLogin else if pa_first_run p then OnFirstRun else OnSession)"

definition open_ceremony :: "string \<Rightarrow> string \<Rightarrow> auth_req \<Rightarrow> pendingAuth \<Rightarrow> auth \<Rightarrow> string option \<times> auth" where
  "open_ceremony who ch rq p s =
     (case storePending (rq_token rq) (rq_now rq) p (s\<lparr>au_next := Suc (au_next s)\<rparr>) of
        (None, s1) \<Rightarrow> (None, s1) | (Some k, s1) \<Rightarrow> (Some k, note_event (Issued (pa_id p) (basis_of p) who ch) s1))"

definition beginFirstRunRegistration :: "auth_req \<Rightarrow> string \<Rightarrow> string \<Rightarrow> authenticatorChoice \<Rightarrow> auth \<Rightarrow> auth_reply \<times> auth" where
  "beginFirstRunRegistration rq name display choice s = (case makeUser name display (rq_handle rq) (rq_now rq) of
     None \<Rightarrow> (reply_err 400, s)
   | Some u \<Rightarrow> (case beginCreation u choice (rq_chal rq) of
       None \<Rightarrow> (reply_err 500, s)
     | Some (opts, ch) \<Rightarrow>
         (case open_ceremony (usr_id u) ch rq ((blank_pending KRegister (au_next s))\<lparr>pa_user := Some u, pa_session := Some ch, pa_first_run := True\<rparr>) s of
            (None, s1) \<Rightarrow> (reply_err 500, s1)
          | (Some k, s1) \<Rightarrow> ((reply_ok opts)\<lparr>rp_pending := Some k\<rparr>, s1))))"

definition handleRegisterBegin :: "(string \<Rightarrow> string) \<Rightarrow> auth_req \<Rightarrow> (string \<times> string \<times> string) option \<Rightarrow> auth \<Rightarrow> auth_reply \<times> auth" where
  "handleRegisterBegin hash rq body s = (case body of
     None \<Rightarrow> (reply_err 400, s)
   | Some (name, display, auth) \<Rightarrow> (case parseAuthenticatorChoice auth of
       None \<Rightarrow> (reply_err 400, s)
     | Some choice \<Rightarrow> (case FirstRun s of
         (Inl e, s1) \<Rightarrow> (reply_err 500, s1)
       | (Inr True, s1) \<Rightarrow> beginFirstRunRegistration rq name display choice s1
       | (Inr False, s1) \<Rightarrow> (case resolveSession hash rq s1 of
           (Inl e, s2) \<Rightarrow> (reply_err 500, s2)
         | (Inr None, s2) \<Rightarrow> (reply_err 401, s2)
         | (Inr (Some (q, by)), s2) \<Rightarrow>
             if name \<noteq> [] \<and> name \<noteq> usr_name by then (reply_err 403, s2)
             else if usr_credentials by = [] then (reply_err 409, s2)
             else case rq_chal rq of
               None \<Rightarrow> (reply_err 500, s2)
             | Some ch \<Rightarrow>
                 (case open_ceremony (usr_id by) ch rq
                         ((blank_pending KRegister (au_next s2))\<lparr>pa_by := usr_id by, pa_choice := choice, pa_step_up := Some ch\<rparr>) s2 of
                    (None, s3) \<Rightarrow> (reply_err 500, s3)
                  | (Some k, s3) \<Rightarrow> ((reply_ok (StepUpBody ch))\<lparr>rp_pending := Some k\<rparr>, s3))))))"

text \<open>After the challenge is spent: every failure drops the ceremony.\<close>

definition step_up_fail :: "nat \<Rightarrow> string \<Rightarrow> auth \<Rightarrow> auth_reply \<times> auth" where
  "step_up_fail n k s = ((reply_err n)\<lparr>rp_pending := Some []\<rparr>, dropPending k s)"

definition verifyStepUp :: "webauthn \<Rightarrow> (string \<Rightarrow> string) \<Rightarrow> auth_req \<Rightarrow> string \<Rightarrow> pendingAuth \<Rightarrow> string \<Rightarrow> auth \<Rightarrow> auth_reply \<times> auth" where
  "verifyStepUp wa hash rq k p ch s = (case resolveSession hash rq s of
     (Inl e, s1) \<Rightarrow> step_up_fail 500 k s1
   | (Inr None, s1) \<Rightarrow> step_up_fail 401 k s1
   | (Inr (Some (q, by)), s1) \<Rightarrow>
       if usr_id by \<noteq> pa_by p then step_up_fail 401 k s1
       else case wa_assert wa by ch (rq_resp rq) of
         None \<Rightarrow> step_up_fail 401 k s1
       | Some c \<Rightarrow>
           (let s2 = note_event (Asserted (pa_id p) (usr_id by) ch (pk_id c)) s1 in
            case UpdateCredentialAfterLogin c (rq_now rq) s2 of
              (Some e, s3) \<Rightarrow> step_up_fail 500 k s3
            | (None, s3) \<Rightarrow> (case beginCreation by (pa_choice p) (rq_chal rq) of
                None \<Rightarrow> step_up_fail 500 k s3
              | Some (opts, creation) \<Rightarrow> (case completeStepUp k p by creation s3 of
                  (False, s4) \<Rightarrow> step_up_fail 400 k s4
                | (True, s4) \<Rightarrow> (reply_ok opts, s4)))))"

definition handleRegisterStepUp :: "webauthn \<Rightarrow> (string \<Rightarrow> string) \<Rightarrow> auth_req \<Rightarrow> auth \<Rightarrow> auth_reply \<times> auth" where
  "handleRegisterStepUp wa hash rq s = (case rq_pending rq of
     None \<Rightarrow> (reply_err 400, s)
   | Some k \<Rightarrow> (case takeStepUp k (rq_now rq) s of
       (None, s1) \<Rightarrow> (reply_err 400, s1)
     | (Some (p, ch), s1) \<Rightarrow> verifyStepUp wa hash rq k p ch s1))"

text \<open>The sign-in that follows a verified ceremony.\<close>

definition sign_in :: "(string \<Rightarrow> string) \<Rightarrow> auth_req \<Rightarrow> nat \<Rightarrow> string \<Rightarrow> User \<Rightarrow> auth \<Rightarrow> auth_reply \<times> auth" where
  "sign_in hash rq ceremony cred u s = (case createSession hash (rq_token rq) (rq_now rq) (usr_id u) s of
     (Inl e, s1) \<Rightarrow> (reply_err 500, s1)
   | (Inr n, s1) \<Rightarrow>
       (let s2 = note_event (SignedIn ceremony (usr_id u) cred (sn_token n)) s1;
            s3 = snd (UpdateLastLogin (usr_id u) (sn_created n) s2)
        in ((reply_ok (UserBody u))\<lparr>rp_session := Some (sn_token n)\<rparr>, s3\<lparr>au_hooks := au_hooks s3 @ [usr_id u]\<rparr>)))"

definition create_passkey :: "webauthn \<Rightarrow> (string \<Rightarrow> string) \<Rightarrow> auth_req \<Rightarrow> pendingAuth \<Rightarrow> auth \<Rightarrow> auth_reply \<times> auth" where
  "create_passkey wa hash rq p s = (case (pa_user p, pa_session p) of
     (Some u, Some ch) \<Rightarrow> (case wa_create wa u ch (rq_resp rq) of
       None \<Rightarrow> (reply_err 400, s)
     | Some c \<Rightarrow>
         (let row = (fromWebAuthn c (usr_id u))\<lparr>cr_created := rq_now rq\<rparr> in
          if \<not> pa_first_run p then
            (case CreateCredential row s of
               (Some e, s1) \<Rightarrow> (reply_err 500, s1)
             | (None, s1) \<Rightarrow> (reply_ok (UserBody u), note_event (Enrolled (pa_id p) (usr_id u) (pk_id c)) s1))
          else case CreateFirstUser u row s of
            (Some AuNotFirstRun, s1) \<Rightarrow> (reply_err 403, s1)
          | (Some e, s1) \<Rightarrow> (reply_err 500, s1)
          | (None, s1) \<Rightarrow> sign_in hash rq (pa_id p) (pk_id c) u (note_event (Enrolled (pa_id p) (usr_id u) (pk_id c)) s1)))
   | _ \<Rightarrow> (reply_err 400, s))"

definition finishRegistration :: "webauthn \<Rightarrow> (string \<Rightarrow> string) \<Rightarrow> auth_req \<Rightarrow> pendingAuth \<Rightarrow> auth \<Rightarrow> auth_reply \<times> auth" where
  "finishRegistration wa hash rq p s =
     (if pa_first_run p then create_passkey wa hash rq p s
      else if \<not> pa_verified p then (reply_err 403, s)
      else case resolveSession hash rq s of
        (Inl e, s1) \<Rightarrow> (reply_err 500, s1)
      | (Inr None, s1) \<Rightarrow> (reply_err 401, s1)
      | (Inr (Some (q, by)), s1) \<Rightarrow>
          if pa_by p = [] \<or> usr_id by \<noteq> pa_by p then (reply_err 401, s1) else create_passkey wa hash rq p s1)"

definition clears_pending :: "auth_reply \<times> auth \<Rightarrow> auth_reply \<times> auth" where
  "clears_pending r = ((fst r)\<lparr>rp_pending := Some []\<rparr>, snd r)"

definition handleRegisterFinish :: "webauthn \<Rightarrow> (string \<Rightarrow> string) \<Rightarrow> auth_req \<Rightarrow> auth \<Rightarrow> auth_reply \<times> auth" where
  "handleRegisterFinish wa hash rq s = (case rq_pending rq of
     None \<Rightarrow> (reply_err 400, s)
   | Some k \<Rightarrow> clears_pending (case takePending k (rq_now rq) s of
       (None, s1) \<Rightarrow> (reply_err 400, s1)
     | (Some p, s1) \<Rightarrow> if pa_kind p \<noteq> KRegister then (reply_err 400, s1) else finishRegistration wa hash rq p s1))"

subsection \<open>Login\<close>

definition handleLoginBegin :: "auth_req \<Rightarrow> auth \<Rightarrow> auth_reply \<times> auth" where
  "handleLoginBegin rq s = (case rq_chal rq of
     None \<Rightarrow> (reply_err 500, s)
   | Some ch \<Rightarrow> (case open_ceremony [] ch rq ((blank_pending KLogin (au_next s))\<lparr>pa_session := Some ch\<rparr>) s of
       (None, s1) \<Rightarrow> (reply_err 500, s1)
     | (Some k, s1) \<Rightarrow> ((reply_ok (AssertionBody ch))\<lparr>rp_pending := Some k\<rparr>, s1)))"

text \<open>The library looks the user up by the handle in the response and checks the response against that user's passkeys.\<close>

definition discoverable :: "webauthn \<Rightarrow> string \<Rightarrow> string \<Rightarrow> auth \<Rightarrow> (User \<times> WACred) option \<times> auth" where
  "discoverable wa ch resp s = (case wa_ids wa resp of
     None \<Rightarrow> (None, s)
   | Some (raw, handle) \<Rightarrow> (case GetUserByID handle s of
       (Inr (Some u), s1) \<Rightarrow> (map_option (Pair u) (wa_assert wa u ch resp), s1) | (_, s1) \<Rightarrow> (None, s1)))"

definition finishLogin :: "webauthn \<Rightarrow> (string \<Rightarrow> string) \<Rightarrow> auth_req \<Rightarrow> pendingAuth \<Rightarrow> auth \<Rightarrow> auth_reply \<times> auth" where
  "finishLogin wa hash rq p s =
     (let ch = (case pa_session p of None \<Rightarrow> [] | Some c \<Rightarrow> c) in
      case discoverable wa ch (rq_resp rq) s of
        (None, s1) \<Rightarrow> (reply_err 401, s1)
      | (Some (v, c), s1) \<Rightarrow> (case UpdateCredentialAfterLogin c (rq_now rq) (note_event (Asserted (pa_id p) (usr_id v) ch (pk_id c)) s1) of
          (Some e, s2) \<Rightarrow> (reply_err 500, s2)
        | (None, s2) \<Rightarrow> (case UserHandleForCredential (pk_id c) s2 of
            (Inl e, s3) \<Rightarrow> (reply_err 500, s3)
          | (Inr None, s3) \<Rightarrow> (reply_err 500, s3)
          | (Inr (Some i), s3) \<Rightarrow> (case GetUserByID i s3 of
              (Inr (Some u), s4) \<Rightarrow> sign_in hash rq (pa_id p) (pk_id c) u s4
            | (_, s4) \<Rightarrow> (reply_err 500, s4)))))"

definition handleLoginFinish :: "webauthn \<Rightarrow> (string \<Rightarrow> string) \<Rightarrow> auth_req \<Rightarrow> auth \<Rightarrow> auth_reply \<times> auth" where
  "handleLoginFinish wa hash rq s = (case rq_pending rq of
     None \<Rightarrow> (reply_err 400, s)
   | Some k \<Rightarrow> clears_pending (case takePending k (rq_now rq) s of
       (None, s1) \<Rightarrow> (reply_err 400, s1)
     | (Some p, s1) \<Rightarrow> if pa_kind p \<noteq> KLogin then (reply_err 400, s1) else finishLogin wa hash rq p s1))"

end
