(* ===== verification/Auth_Inv.thy ===== *)
theory Auth_Inv
  imports Auth
begin

text \<open>
  The step relation of the sign-in service and its invariant.  A request that took its ceremony is in flight until it is
  done, and any other request can come in between.  The history ties every passkey and every session to the ceremony that
  made it.
\<close>

section \<open>Steps\<close>

datatype flight =
    FStepUp auth_req string pendingAuth string
  | FRegister auth_req pendingAuth
  | FLogin auth_req pendingAuth

type_synonym auth_state = "auth \<times> flight list"

inductive auth_step :: "webauthn \<Rightarrow> (string \<Rightarrow> string) \<Rightarrow> auth_state \<Rightarrow> auth_state \<Rightarrow> bool" for wa hash where
  outcomes: "auth_step wa hash (s, fl) (s\<lparr>au_faults := fs\<rparr>, fl)"
| gate: "auth_step wa hash (s, fl) (snd (RequireSession allows hash rq s), fl)"
| touch: "auth_step wa hash (s, fl) (snd (TouchSession hash tok t s), fl)"
| status: "auth_step wa hash (s, fl) (snd (handleStatus hash rq s), fl)"
| me: "auth_step wa hash (s, fl) (snd (handleMe hash rq s), fl)"
| logout: "auth_step wa hash (s, fl) (snd (handleLogout hash rq s), fl)"
| janitor: "auth_step wa hash (s, fl) (snd (DeleteExpiredSessions t (cleanupPending t s)), fl)"
| restart: "auth_step wa hash (s, fl) ((snd (backfillSessionHashes hash s))\<lparr>au_pending := []\<rparr>, [])"
| register: "auth_step wa hash (s, fl) (snd (handleRegisterBegin hash rq body s), fl)"
| login: "auth_step wa hash (s, fl) (snd (handleLoginBegin rq s), fl)"
| step_up_refused: "takeStepUp k t s = (None, s') \<Longrightarrow> auth_step wa hash (s, fl) (s', fl)"
| step_up_taken: "takeStepUp k (rq_now rq) s = (Some (p, ch), s') \<Longrightarrow> auth_step wa hash (s, fl) (s', FStepUp rq k p ch # fl)"
| step_up_done: "FStepUp rq k p ch \<in> set fl \<Longrightarrow>
    auth_step wa hash (s, fl) (snd (verifyStepUp wa hash rq k p ch s), remove1 (FStepUp rq k p ch) fl)"
| taken_stale: "takePending k t s = (None, s') \<Longrightarrow> auth_step wa hash (s, fl) (s', fl)"
| taken_other: "takePending k t s = (Some p, s') \<Longrightarrow> auth_step wa hash (s, fl) (s', fl)"
| register_taken: "takePending k (rq_now rq) s = (Some p, s') \<Longrightarrow> pa_kind p = KRegister \<Longrightarrow> auth_step wa hash (s, fl) (s', FRegister rq p # fl)"
| register_done: "FRegister rq p \<in> set fl \<Longrightarrow>
    auth_step wa hash (s, fl) (snd (finishRegistration wa hash rq p s), remove1 (FRegister rq p) fl)"
| login_taken: "takePending k (rq_now rq) s = (Some p, s') \<Longrightarrow> pa_kind p = KLogin \<Longrightarrow> auth_step wa hash (s, fl) (s', FLogin rq p # fl)"
| login_done: "FLogin rq p \<in> set fl \<Longrightarrow>
    auth_step wa hash (s, fl) (snd (finishLogin wa hash rq p s), remove1 (FLogin rq p) fl)"

text \<open>A handler that nothing interrupts is two steps, or one when it is refused.\<close>

lemma handlers_are_steps:
  "(auth_step wa hash)\<^sup>*\<^sup>* (s, fl) (snd (handleRegisterFinish wa hash rq s), fl)"
  "(auth_step wa hash)\<^sup>*\<^sup>* (s, fl) (snd (handleLoginFinish wa hash rq s), fl)"
  "(auth_step wa hash)\<^sup>*\<^sup>* (s, fl) (snd (handleRegisterStepUp wa hash rq s), fl)"
proof -
  have two: "(auth_step wa hash)\<^sup>*\<^sup>* (s, fl) (x, fl)" if "auth_step wa hash (s, fl) (s1, f # fl)" "auth_step wa hash (s1, f # fl) (x, remove1 f (f # fl))" for s1 f x
    using that by (simp add: converse_rtranclp_into_rtranclp)
  have one: "(auth_step wa hash)\<^sup>*\<^sup>* (s, fl) (x, fl)" if "auth_step wa hash (s, fl) (x, fl)" for x
    using that by (rule r_into_rtranclp)
  show "(auth_step wa hash)\<^sup>*\<^sup>* (s, fl) (snd (handleRegisterFinish wa hash rq s), fl)"
  proof (cases "rq_pending rq")
    case (Some k)
    obtain r s1 where t: "takePending k (rq_now rq) s = (r, s1)" by force
    show ?thesis
    proof (cases r)
      case None
      then show ?thesis using one [OF taken_stale [OF t [unfolded None]]] by (simp add: handleRegisterFinish_def Some t clears_pending_def)
    next
      case p: (Some p)
      show ?thesis
      proof (cases "pa_kind p = KRegister")
        case True
        show ?thesis
          using two [OF register_taken [OF t [unfolded p] True] register_done] True by (simp add: handleRegisterFinish_def Some t p clears_pending_def)
      next
        case False
        then show ?thesis
          using one [OF taken_other [OF t [unfolded p]]] by (simp add: handleRegisterFinish_def Some t p clears_pending_def)
      qed
    qed
  qed (simp add: handleRegisterFinish_def)
  show "(auth_step wa hash)\<^sup>*\<^sup>* (s, fl) (snd (handleLoginFinish wa hash rq s), fl)"
  proof (cases "rq_pending rq")
    case (Some k)
    obtain r s1 where t: "takePending k (rq_now rq) s = (r, s1)" by force
    show ?thesis
    proof (cases r)
      case None
      then show ?thesis using one [OF taken_stale [OF t [unfolded None]]] by (simp add: handleLoginFinish_def Some t clears_pending_def)
    next
      case p: (Some p)
      show ?thesis
      proof (cases "pa_kind p = KLogin")
        case True
        show ?thesis
          using two [OF login_taken [OF t [unfolded p] True] login_done] True by (simp add: handleLoginFinish_def Some t p clears_pending_def)
      next
        case False
        then show ?thesis
          using one [OF taken_other [OF t [unfolded p]]] by (simp add: handleLoginFinish_def Some t p clears_pending_def)
      qed
    qed
  qed (simp add: handleLoginFinish_def)
  show "(auth_step wa hash)\<^sup>*\<^sup>* (s, fl) (snd (handleRegisterStepUp wa hash rq s), fl)"
  proof (cases "rq_pending rq")
    case (Some k)
    obtain r s1 where t: "takeStepUp k (rq_now rq) s = (r, s1)" by force
    show ?thesis
    proof (cases r)
      case None
      then show ?thesis using one [OF step_up_refused [OF t [unfolded None]]] by (simp add: handleRegisterStepUp_def Some t)
    next
      case p: (Some pc)
      then obtain p ch where pc: "pc = (p, ch)" by (cases pc)
      show ?thesis
        using two [OF step_up_taken [OF t [unfolded p pc]] step_up_done] by (simp add: handleRegisterStepUp_def Some t p pc)
    qed
  qed (simp add: handleRegisterStepUp_def)
qed

section \<open>What leaves the ceremonies alone\<close>

definition owns :: "auth \<Rightarrow> (string \<times> string) set" where
  "owns s = (\<lambda>r. (cr_user r, cr_id r)) ` set (au_creds s)"

definition named :: "auth \<Rightarrow> (string \<times> string) set" where
  "named s = (\<lambda>q. (sn_token q, sn_user q)) ` set (au_sessions s)"

text \<open>Only outcomes, counters, times and hashes change, and sessions may go.\<close>

definition calm :: "auth \<Rightarrow> auth \<Rightarrow> bool" where
  "calm s s' \<longleftrightarrow> au_pending s' = au_pending s \<and> au_next s' = au_next s \<and> au_log s' = au_log s \<and>
     map (\<lambda>r. (cr_user r, cr_id r)) (au_creds s') = map (\<lambda>r. (cr_user r, cr_id r)) (au_creds s) \<and>
     map usr_id (au_users s') = map usr_id (au_users s) \<and> named s' \<subseteq> named s"

lemma calm_refl [simp]: "calm s s"
  by (simp add: calm_def)

lemma calm_trans: "calm s s1 \<Longrightarrow> calm s1 s2 \<Longrightarrow> calm s s2"
  by (auto simp: calm_def)

lemma calm_same:
  "au_pending s' = au_pending s \<Longrightarrow> au_next s' = au_next s \<Longrightarrow> au_log s' = au_log s \<Longrightarrow> au_creds s' = au_creds s \<Longrightarrow>
   au_users s' = au_users s \<Longrightarrow> au_sessions s' = au_sessions s \<Longrightarrow> calm s s'"
  by (simp add: calm_def named_def)

lemma calm_fault: "au_fault s = (b, s') \<Longrightarrow> calm s s'"
  by (auto simp: au_fault_def intro!: calm_same split: list.splits)

lemma fault_parts: "au_fault s = (b, s') \<Longrightarrow> s' = s\<lparr>au_faults := au_faults s'\<rparr>"
  by (auto simp: au_fault_def split: list.splits)

lemma calm_reads:
  "FirstRun s = (r1, s') \<Longrightarrow> calm s s'" "CountUsers s = (r2, s') \<Longrightarrow> calm s s'" "getSession P s = (r3, s') \<Longrightarrow> calm s s'"
  "UserHandleForCredential i s = (r4, s') \<Longrightarrow> calm s s'" "listCredentialsForUser i s = (r5, s') \<Longrightarrow> calm s s'"
  by (cases "au_fault s"; auto simp: FirstRun_def CountUsers_def getSession_def UserHandleForCredential_def listCredentialsForUser_def
      dest: calm_fault split: if_splits)+

lemma calm_load: "loadCredentials u s = (r, s') \<Longrightarrow> calm s s'"
  by (auto simp: loadCredentials_def dest: calm_reads split: prod.splits sum.splits)

lemma calm_get_user: "GetUserByID i s = (r, s') \<Longrightarrow> calm s s'"
  by (cases "au_fault s")
     (auto simp: GetUserByID_def dest!: calm_fault calm_load dest: calm_trans split: if_splits option.splits prod.splits sum.splits)

lemma calm_get_session: "GetSession hash tok s = (r, s') \<Longrightarrow> calm s s'"
  by (auto simp: GetSession_def dest!: calm_reads(3) dest: calm_trans split: if_splits option.splits prod.splits sum.splits)

lemma calm_sessions:
  "au_pending s' = au_pending s \<Longrightarrow> au_next s' = au_next s \<Longrightarrow> au_log s' = au_log s \<Longrightarrow> au_creds s' = au_creds s \<Longrightarrow>
   au_users s' = au_users s \<Longrightarrow> named s' \<subseteq> named s \<Longrightarrow> calm s s'"
  by (simp add: calm_def)

lemma named_update: "(\<And>q. sn_token (f q) = sn_token q \<and> sn_user (f q) = sn_user q) \<Longrightarrow>
    (\<lambda>q. (sn_token q, sn_user q)) ` set (sql_update P f qs) = (\<lambda>q. (sn_token q, sn_user q)) ` set qs"
  using map_sql_update [of P "\<lambda>q. (sn_token q, sn_user q)" f qs] by (metis list.set_map)

lemma calm_session_ops:
  "calm s (snd (TouchSession hash tok t s))" "calm s (snd (DeleteSession hash tok s))" "calm s (snd (DeleteExpiredSessions t s))"
proof -
  obtain b s1 where f: "au_fault s = (b, s1)" by force
  have p: "s1 = s\<lparr>au_faults := au_faults s1\<rparr>" by (rule fault_parts [OF f])
  note c = calm_fault [OF f]
  have "named (s1\<lparr>au_sessions := sql_update P (\<lambda>q. q\<lparr>sn_active := t\<rparr>) (au_sessions s1)\<rparr>) = named s1" for P
    by (simp add: named_def named_update)
  then show "calm s (snd (TouchSession hash tok t s))"
    using c by (auto simp: TouchSession_def f intro!: calm_trans [OF c] calm_sessions)
  have sub: "named (s1\<lparr>au_sessions := filter P (au_sessions s1)\<rparr>) \<subseteq> named s1" for P
    by (auto simp: named_def)
  show "calm s (snd (DeleteSession hash tok s))" "calm s (snd (DeleteExpiredSessions t s))"
    using c sub by (auto simp: DeleteSession_def DeleteExpiredSessions_def f intro!: calm_trans [OF c] calm_sessions)
qed

lemma calm_resolve: "resolveSession hash rq s = (r, s') \<Longrightarrow> calm s s'"
  by (auto simp: resolveSession_def dest!: calm_get_session calm_get_user intro: calm_trans calm_session_ops(2)
      split: if_splits option.splits prod.splits sum.splits)

lemma calm_update_cred: "UpdateCredentialAfterLogin c t s = (r, s') \<Longrightarrow> calm s s'"
proof -
  assume u: "UpdateCredentialAfterLogin c t s = (r, s')"
  obtain b s1 where f: "au_fault s = (b, s1)" by force
  show ?thesis
    using u calm_fault [OF f] by (cases b) (auto simp: UpdateCredentialAfterLogin_def f calm_def named_def map_sql_update)
qed

lemma calm_last_login: "calm s (snd (UpdateLastLogin i t s))"
proof -
  obtain b s1 where f: "au_fault s = (b, s1)" by force
  show ?thesis
    using calm_fault [OF f] by (simp add: UpdateLastLogin_def f calm_def named_def map_sql_update)
qed

lemma named_backfill: "(\<lambda>q. (sn_token q, sn_user q)) ` set (fold (backfill_one hash) toks qs) = (\<lambda>q. (sn_token q, sn_user q)) ` set qs"
  by (induction toks arbitrary: qs) (auto simp: backfill_one_def named_update)

lemma calm_backfill: "calm s (snd (backfillSessionHashes hash s))"
proof -
  obtain b s1 where f: "au_fault s = (b, s1)" by force
  show ?thesis
    using calm_fault [OF f] by (simp add: backfillSessionHashes_def f calm_def named_def named_backfill)
qed

lemma calm_handlers:
  "calm s (snd (RequireSession allows hash rq s))" "calm s (snd (handleStatus hash rq s))" "calm s (snd (handleMe hash rq s))"
  "calm s (snd (handleLogout hash rq s))"
proof -
  show "calm s (snd (RequireSession allows hash rq s))" "calm s (snd (handleMe hash rq s))"
    by (auto simp: RequireSession_def handleMe_def dest!: calm_resolve split: prod.splits sum.splits option.splits)
  show "calm s (snd (handleLogout hash rq s))"
    by (simp add: handleLogout_def calm_session_ops split: option.split)
  show "calm s (snd (handleStatus hash rq s))"
    by (auto simp: handleStatus_def dest!: calm_resolve calm_reads(1,2) intro: calm_trans split: prod.splits sum.splits option.splits)
qed

section \<open>The invariant\<close>

definition who :: "pendingAuth \<Rightarrow> string" where
  "who p = (case basis_of p of OnFirstRun \<Rightarrow> (case pa_user p of None \<Rightarrow> [] | Some u \<Rightarrow> usr_id u) | OnSession \<Rightarrow> pa_by p | OnLogin \<Rightarrow> [])"

text \<open>\<open>L\<close> is the history, \<open>O'\<close> says which user holds which passkey.\<close>

definition ceremony_ok :: "auth_event set \<Rightarrow> (string \<times> string) set \<Rightarrow> pendingAuth \<Rightarrow> bool" where
  "ceremony_ok L O' p \<longleftrightarrow> (\<exists>ch. Issued (pa_id p) (basis_of p) (who p) ch \<in> L \<and>
     (pa_step_up p \<noteq> None \<longrightarrow> pa_step_up p = Some ch \<and> basis_of p = OnSession) \<and>
     (basis_of p = OnSession \<longrightarrow> pa_verified p \<longrightarrow>
        (\<exists>c. Asserted (pa_id p) (pa_by p) ch c \<in> L \<and> (pa_by p, c) \<in> O') \<and> map_option usr_id (pa_user p) = Some (pa_by p)) \<and>
     (basis_of p = OnLogin \<longrightarrow> pa_session p = Some ch))"

definition flight_ok :: "auth_event set \<Rightarrow> (string \<times> string) set \<Rightarrow> flight \<Rightarrow> bool" where
  "flight_ok L O' f = (case f of
     FStepUp rq k p ch \<Rightarrow> Issued (pa_id p) OnSession (pa_by p) ch \<in> L
   | FRegister rq p \<Rightarrow> ceremony_ok L O' p \<and> pa_kind p = KRegister
   | FLogin rq p \<Rightarrow> ceremony_ok L O' p \<and> pa_kind p = KLogin)"

definition event_ok :: "auth_event set \<Rightarrow> (string \<times> string) set \<Rightarrow> auth_event \<Rightarrow> bool" where
  "event_ok L O' e = (case e of
     Issued i b w ch \<Rightarrow> True
   | Asserted i u ch c \<Rightarrow> (u, c) \<in> O' \<and> (\<exists>b w. Issued i b w ch \<in> L)
   | Enrolled i u c \<Rightarrow> (u, c) \<in> O' \<and>
       ((\<exists>ch. Issued i OnFirstRun u ch \<in> L) \<or> (\<exists>ch c'. Issued i OnSession u ch \<in> L \<and> Asserted i u ch c' \<in> L \<and> c' \<noteq> c))
   | SignedIn i u c tok \<Rightarrow>
       (\<exists>ch. Issued i OnLogin [] ch \<in> L \<and> Asserted i u ch c \<in> L) \<or> ((\<exists>ch. Issued i OnFirstRun u ch \<in> L) \<and> Enrolled i u c \<in> L))"

fun event_id :: "auth_event \<Rightarrow> nat" where
  "event_id (Issued i b w ch) = i"
| "event_id (Asserted i u ch c) = i"
| "event_id (Enrolled i u c) = i"
| "event_id (SignedIn i u c tok) = i"

definition enrolled_ids :: "auth_event list \<Rightarrow> nat list" where
  "enrolled_ids l = map event_id (filter (\<lambda>e. case e of Enrolled _ _ _ \<Rightarrow> True | _ \<Rightarrow> False) l)"

definition signed_ids :: "auth_event list \<Rightarrow> nat list" where
  "signed_ids l = map event_id (filter (\<lambda>e. case e of SignedIn _ _ _ _ \<Rightarrow> True | _ \<Rightarrow> False) l)"

text \<open>The ceremonies that can still be finished: those stored, and those a finishing request holds.\<close>

fun held :: "flight \<Rightarrow> nat list" where
  "held (FStepUp rq k p ch) = []"
| "held (FRegister rq p) = [pa_id p]"
| "held (FLogin rq p) = [pa_id p]"

definition open_ids :: "(string \<times> pendingAuth) list \<Rightarrow> flight list \<Rightarrow> nat list" where
  "open_ids ps fl = map (\<lambda>x. pa_id (snd x)) ps @ concat (map held fl)"

definition auth_inv ::
  "(string \<times> string) set \<Rightarrow> (string \<times> string) set \<Rightarrow> (string \<times> pendingAuth) list \<Rightarrow> nat \<Rightarrow> auth_event list
    \<Rightarrow> (string \<times> string) list \<Rightarrow> (string \<times> string) set \<Rightarrow> flight list \<Rightarrow> bool" where
  "auth_inv C T ps nx l crs nm fl \<longleftrightarrow>
     distinct (map fst ps) \<and> distinct (open_ids ps fl) \<and>
     (\<forall>i \<in> set (open_ids ps fl). i < nx \<and> i \<notin> set (enrolled_ids l) \<and> i \<notin> set (signed_ids l)) \<and>
     (\<forall>x \<in> set ps. ceremony_ok (set l) (set crs) (snd x)) \<and> (\<forall>f \<in> set fl. flight_ok (set l) (set crs) f) \<and>
     (\<forall>e \<in> set l. event_ok (set l) (set crs) e \<and> event_id e < nx) \<and>
     (\<forall>i b w ch b' w' ch'. Issued i b w ch \<in> set l \<longrightarrow> Issued i b' w' ch' \<in> set l \<longrightarrow> b = b' \<and> w = w' \<and> ch = ch') \<and>
     distinct (enrolled_ids l) \<and> distinct (signed_ids l) \<and> distinct (map snd crs) \<and>
     set crs \<subseteq> C \<union> {(u, c). \<exists>i. Enrolled i u c \<in> set l} \<and> nm \<subseteq> T \<union> {(tok, u). \<exists>i c. SignedIn i u c tok \<in> set l}"

definition crs_of :: "auth \<Rightarrow> (string \<times> string) list" where
  "crs_of s = map (\<lambda>r. (cr_user r, cr_id r)) (au_creds s)"

definition auth_ok :: "(string \<times> string) set \<Rightarrow> (string \<times> string) set \<Rightarrow> auth_state \<Rightarrow> bool" where
  "auth_ok C T st \<longleftrightarrow> auth_inv C T (au_pending (fst st)) (au_next (fst st)) (au_log (fst st)) (crs_of (fst st)) (named (fst st)) (snd st)"

lemma ceremony_ok_mono: "ceremony_ok L O' p \<Longrightarrow> L \<subseteq> L2 \<Longrightarrow> O' \<subseteq> O2 \<Longrightarrow> ceremony_ok L2 O2 p"
  unfolding ceremony_ok_def by blast

lemma flight_ok_mono: "flight_ok L O' f \<Longrightarrow> L \<subseteq> L2 \<Longrightarrow> O' \<subseteq> O2 \<Longrightarrow> flight_ok L2 O2 f"
  by (cases f) (auto simp: flight_ok_def intro: ceremony_ok_mono)

lemma event_ok_mono: "event_ok L O' e \<Longrightarrow> L \<subseteq> L2 \<Longrightarrow> O' \<subseteq> O2 \<Longrightarrow> event_ok L2 O2 e"
  by (cases e) (simp_all add: event_ok_def, blast+)

lemma auth_inv_named: "auth_inv C T ps nx l crs nm fl \<Longrightarrow> nm' \<subseteq> nm \<Longrightarrow> auth_inv C T ps nx l crs nm' fl"
  by (auto simp: auth_inv_def)

lemma auth_ok_calm: "auth_ok C T (s, fl) \<Longrightarrow> calm s s' \<Longrightarrow> auth_ok C T (s', fl)"
  by (auto simp: auth_ok_def calm_def crs_of_def intro: auth_inv_named)

section \<open>Ceremonies come and go\<close>

lemma distinct_open_filter: "distinct (open_ids ps fl) \<Longrightarrow> distinct (open_ids (filter P ps) fl)"
  by (auto simp: open_ids_def distinct_map_filter)

lemma auth_inv_filter: "auth_inv C T ps nx l crs nm fl \<Longrightarrow> auth_inv C T (filter P ps) nx l crs nm fl"
  unfolding auth_inv_def using distinct_open_filter [of ps fl P] by (auto simp: distinct_map_filter open_ids_def)

lemma auth_inv_lost: "auth_inv C T ps nx l crs nm fl \<Longrightarrow> auth_inv C T [] nx l crs nm []"
  unfolding auth_inv_def by (simp add: open_ids_def)

lemma flight_split:
  assumes "f \<in> set fl"
  obtains a b where "fl = a @ f # b" "remove1 f fl = a @ b"
  using split_list_first [OF assms] by (metis remove1_append remove1.simps(2))

lemma auth_inv_flight:
  assumes "auth_inv C T ps nx l crs nm fl" "f \<in> set fl"
  shows "auth_inv C T ps nx l crs nm (remove1 f fl)" "flight_ok (set l) (set crs) f"
    "i \<in> set (held f) \<Longrightarrow> i < nx \<and> i \<notin> set (open_ids ps (remove1 f fl)) \<and> i \<notin> set (enrolled_ids l) \<and> i \<notin> set (signed_ids l)"
proof -
  obtain a b where f: "fl = a @ f # b" "remove1 f fl = a @ b"
    by (rule flight_split [OF assms(2)])
  show "auth_inv C T ps nx l crs nm (remove1 f fl)"
    unfolding f(2) using assms(1) [unfolded f(1)] unfolding auth_inv_def by (auto simp: open_ids_def)
  show "flight_ok (set l) (set crs) f"
    using assms by (simp add: auth_inv_def)
  show "i \<in> set (held f) \<Longrightarrow> i < nx \<and> i \<notin> set (open_ids ps (remove1 f fl)) \<and> i \<notin> set (enrolled_ids l) \<and> i \<notin> set (signed_ids l)"
    unfolding f(2) using assms(1) [unfolded f(1)] unfolding auth_inv_def by (auto simp: open_ids_def)
qed

lemma entry_split:
  assumes "distinct (map fst ps)" "map_of ps k = Some p"
  obtains a b where "ps = a @ (k, p) # b" "k \<notin> fst ` set a" "k \<notin> fst ` set b"
proof -
  from map_of_SomeD [OF assms(2)] obtain a b where "ps = a @ (k, p) # b"
    by (meson split_list)
  then show thesis
    using that assms(1) by auto
qed

lemma delete_entry: "k \<notin> fst ` set a \<Longrightarrow> k \<notin> fst ` set b \<Longrightarrow> AList.delete k (a @ (k, p) # b) = a @ b"
  by (induction a) (auto simp: delete_notin_dom)

lemma update_entry: "k \<notin> fst ` set a \<Longrightarrow> AList.update k q (a @ (k, p) # b) = a @ (k, q) # b"
  by (induction a) auto

lemma update_fresh_entry: "k \<notin> fst ` set ps \<Longrightarrow> AList.update k q ps = ps @ [(k, q)]"
  by (induction ps) auto

lemma auth_inv_delete: "auth_inv C T ps nx l crs nm fl \<Longrightarrow> auth_inv C T (AList.delete k ps) nx l crs nm fl"
  unfolding AList.delete_eq by (rule auth_inv_filter)

text \<open>A finishing request takes its ceremony out of the map and holds it.\<close>

lemma auth_inv_take:
  assumes inv: "auth_inv C T ps nx l crs nm fl" and p: "map_of ps k = Some p"
    and f: "f = FRegister rq p \<and> pa_kind p = KRegister \<or> f = FLogin rq p \<and> pa_kind p = KLogin"
  shows "auth_inv C T (AList.delete k ps) nx l crs nm (f # fl)"
proof -
  have d: "distinct (map fst ps)" using inv by (simp add: auth_inv_def)
  obtain a b where ps: "ps = a @ (k, p) # b" "k \<notin> fst ` set a" "k \<notin> fst ` set b"
    by (rule entry_split [OF d p])
  have ok: "flight_ok (set l) (set crs) f"
    using inv f unfolding auth_inv_def ps(1) by (auto simp: flight_ok_def)
  have h: "held f = [pa_id p]" using f by auto
  show ?thesis
    unfolding ps(1) delete_entry [OF ps(2,3)] using inv [unfolded ps(1)] ok unfolding auth_inv_def open_ids_def by (auto simp: h)
qed

text \<open>A stored ceremony changes, and keeps its identity.\<close>

lemma auth_inv_change:
  assumes inv: "auth_inv C T ps nx l crs nm fl" and p: "map_of ps k = Some p" and q: "pa_id q = pa_id p" "ceremony_ok (set l) (set crs) q"
  shows "auth_inv C T (AList.update k q ps) nx l crs nm fl"
proof -
  have d: "distinct (map fst ps)" using inv by (simp add: auth_inv_def)
  obtain a b where ps: "ps = a @ (k, p) # b" "k \<notin> fst ` set a" "k \<notin> fst ` set b"
    by (rule entry_split [OF d p])
  show ?thesis
    unfolding ps(1) update_entry [OF ps(2)] using inv [unfolded ps(1)] q unfolding auth_inv_def open_ids_def by simp
qed

text \<open>A new ceremony under a token, which may replace another.\<close>

lemma auth_inv_put:
  assumes inv: "auth_inv C T ps nx l crs nm fl" and q: "pa_id q < nx" "pa_id q \<notin> set (open_ids ps fl)" "pa_id q \<notin> set (enrolled_ids l)"
    "pa_id q \<notin> set (signed_ids l)" "ceremony_ok (set l) (set crs) q"
  shows "auth_inv C T (AList.update k q ps) nx l crs nm fl"
proof (cases "k \<in> fst ` set ps")
  case False
  show ?thesis
    unfolding update_fresh_entry [OF False] using inv q False unfolding auth_inv_def open_ids_def by (simp; blast)
next
  case True
  have d: "distinct (map fst ps)" using inv by (simp add: auth_inv_def)
  from True obtain p where "map_of ps k = Some p"
    by (metis map_of_eq_None_iff not_None_eq)
  then obtain a b where ps: "ps = a @ (k, p) # b" "k \<notin> fst ` set a" "k \<notin> fst ` set b"
    by (rule entry_split [OF d])
  show ?thesis
    unfolding ps(1) update_entry [OF ps(2)] using inv [unfolded ps(1)] q [unfolded ps(1)] unfolding auth_inv_def open_ids_def by (simp; blast)
qed

section \<open>The history grows\<close>

lemma ids_snoc [simp]:
  "enrolled_ids (l @ [Issued i b w ch]) = enrolled_ids l" "enrolled_ids (l @ [Asserted i u ch c]) = enrolled_ids l"
  "enrolled_ids (l @ [Enrolled i u c]) = enrolled_ids l @ [i]" "enrolled_ids (l @ [SignedIn i u c tok]) = enrolled_ids l"
  "signed_ids (l @ [Issued i b w ch]) = signed_ids l" "signed_ids (l @ [Asserted i u ch c]) = signed_ids l"
  "signed_ids (l @ [Enrolled i u c]) = signed_ids l" "signed_ids (l @ [SignedIn i u c tok]) = signed_ids l @ [i]"
  by (simp_all add: enrolled_ids_def signed_ids_def)

text \<open>An event is added, with what it brings into the tables; the other parts only need what they had.\<close>

lemma auth_inv_event:
  assumes inv: "auth_inv C T ps nx l crs nm fl" and e: "event_ok (set (l @ [e])) (set crs') e" "event_id e < nx'" and nx: "nx \<le> nx'"
    and iss: "\<And>i b w ch. e = Issued i b w ch \<Longrightarrow> nx \<le> i"
    and enr: "\<And>i u c. e = Enrolled i u c \<Longrightarrow> i \<notin> set (open_ids ps fl) \<and> i \<notin> set (enrolled_ids l)"
    and sig: "\<And>i u c tok. e = SignedIn i u c tok \<Longrightarrow> i \<notin> set (open_ids ps fl) \<and> i \<notin> set (signed_ids l)"
    and crs: "set crs \<subseteq> set crs'" "distinct (map snd crs')" "set crs' \<subseteq> set crs \<union> {(u, c). \<exists>i. e = Enrolled i u c}"
    and nm: "nm' \<subseteq> nm \<union> {(tok, u). \<exists>i c. e = SignedIn i u c tok}"
  shows "auth_inv C T ps nx' (l @ [e]) crs' nm' fl"
proof -
  have L: "set l \<subseteq> set (l @ [e])" by auto
  have iv: "distinct (map fst ps)" "distinct (open_ids ps fl)"
    "\<forall>i \<in> set (open_ids ps fl). i < nx \<and> i \<notin> set (enrolled_ids l) \<and> i \<notin> set (signed_ids l)"
    "\<forall>x \<in> set ps. ceremony_ok (set l) (set crs) (snd x)" "\<forall>f \<in> set fl. flight_ok (set l) (set crs) f"
    "\<forall>e \<in> set l. event_ok (set l) (set crs) e \<and> event_id e < nx"
    "\<forall>i b w ch b' w' ch'. Issued i b w ch \<in> set l \<longrightarrow> Issued i b' w' ch' \<in> set l \<longrightarrow> b = b' \<and> w = w' \<and> ch = ch'"
    "distinct (enrolled_ids l)" "distinct (signed_ids l)"
    "set crs \<subseteq> C \<union> {(u, c). \<exists>i. Enrolled i u c \<in> set l}" "nm \<subseteq> T \<union> {(tok, u). \<exists>i c. SignedIn i u c tok \<in> set l}"
    using inv by (simp_all add: auth_inv_def)
  have old: "\<forall>x \<in> set ps. ceremony_ok (set (l @ [e])) (set crs') (snd x)" "\<forall>f \<in> set fl. flight_ok (set (l @ [e])) (set crs') f"
    "\<forall>x \<in> set l. event_ok (set (l @ [e])) (set crs') x"
    using iv(4-6) ceremony_ok_mono [OF _ L crs(1)] flight_ok_mono [OF _ L crs(1)] event_ok_mono [OF _ L crs(1)] by simp_all
  have ev: "\<forall>x \<in> set (l @ [e]). event_ok (set (l @ [e])) (set crs') x \<and> event_id x < nx'"
    using old(3) e nx iv(6) by (auto intro: order_less_le_trans)
  have lt: "i < nx" if "Issued i b w ch \<in> set l" for i b w ch
    using iv(6) that by (metis event_id.simps(1))
  have uniq: "\<forall>i b w ch b' w' ch'. Issued i b w ch \<in> set (l @ [e]) \<longrightarrow> Issued i b' w' ch' \<in> set (l @ [e]) \<longrightarrow> b = b' \<and> w = w' \<and> ch = ch'"
  proof (intro allI impI)
    fix i b w ch b' w' ch' assume a: "Issued i b w ch \<in> set (l @ [e])" "Issued i b' w' ch' \<in> set (l @ [e])"
    have new: "nx \<le> i" if "e = Issued i x y z" for x y z using iss that by blast
    show "b = b' \<and> w = w' \<and> ch = ch'"
    proof (cases "Issued i b w ch \<in> set l")
      case True
      then have "Issued i b' w' ch' \<in> set l"
        using a(2) new [of b' w' ch'] lt [OF True] by auto
      with True show ?thesis using iv(7) by blast
    next
      case False
      then have e: "e = Issued i b w ch" using a(1) by simp
      then have "Issued i b' w' ch' \<notin> set l"
        using lt [of i b' w' ch'] new [OF e] by force
      then show ?thesis using a(2) e by simp
    qed
  qed
  have ids: "distinct (enrolled_ids (l @ [e]))" "distinct (signed_ids (l @ [e]))"
    using iv(8,9) enr sig by (cases e; simp)+
  have opn: "\<forall>i \<in> set (open_ids ps fl). i < nx' \<and> i \<notin> set (enrolled_ids (l @ [e])) \<and> i \<notin> set (signed_ids (l @ [e]))"
  proof
    fix i assume i: "i \<in> set (open_ids ps fl)"
    have lt: "i < nx'" "i \<notin> set (enrolled_ids l)" "i \<notin> set (signed_ids l)"
      using bspec [OF iv(3) i] nx by simp_all
    show "i < nx' \<and> i \<notin> set (enrolled_ids (l @ [e])) \<and> i \<notin> set (signed_ids (l @ [e]))"
    proof (cases e)
      case (Enrolled j u c)
      then have "j \<noteq> i" using enr i by blast
      then show ?thesis using lt by (simp add: Enrolled)
    next
      case (SignedIn j u c tok)
      then have "j \<noteq> i" using sig i by blast
      then show ?thesis using lt by (simp add: SignedIn)
    qed (simp_all add: lt)
  qed
  have tr: "set crs' \<subseteq> C \<union> {(u, c). \<exists>i. Enrolled i u c \<in> set (l @ [e])}"
  proof -
    have "C \<union> {(u, c). \<exists>i. Enrolled i u c \<in> set l} \<subseteq> C \<union> {(u, c). \<exists>i. Enrolled i u c \<in> set (l @ [e])}"
      "{(u, c). \<exists>i. e = Enrolled i u c} \<subseteq> {(u, c). \<exists>i. Enrolled i u c \<in> set (l @ [e])}"
      by auto
    then show ?thesis using iv(10) crs(3) by (meson le_supI2 order_trans sup_mono Un_least)
  qed
  have tn: "nm' \<subseteq> T \<union> {(tok, u). \<exists>i c. SignedIn i u c tok \<in> set (l @ [e])}"
  proof -
    have "T \<union> {(tok, u). \<exists>i c. SignedIn i u c tok \<in> set l} \<subseteq> T \<union> {(tok, u). \<exists>i c. SignedIn i u c tok \<in> set (l @ [e])}"
      "{(tok, u). \<exists>i c. e = SignedIn i u c tok} \<subseteq> {(tok, u). \<exists>i c. SignedIn i u c tok \<in> set (l @ [e])}"
      by auto
    then show ?thesis using iv(11) nm by (meson le_supI2 order_trans sup_mono Un_least)
  qed
  show ?thesis
    unfolding auth_inv_def by (intro conjI iv(1,2) opn old(1,2) ev uniq ids crs(2) tr tn)
qed

section \<open>Every step keeps the invariant\<close>

lemmas auth_views = crs_of_def named_def

text \<open>What the library promises: it only accepts a passkey the user holds.\<close>

definition asserts_own :: "webauthn \<Rightarrow> bool" where
  "asserts_own wa \<longleftrightarrow> (\<forall>u ch r c. wa_assert wa u ch r = Some c \<longrightarrow> pk_id c \<in> pk_id ` set (usr_credentials u))"

lemma crs_calm: "calm s s' \<Longrightarrow> crs_of s' = crs_of s"
  by (simp add: calm_def crs_of_def)

lemma user_owns:
  assumes "GetUserByID i s = (Inr (Some u), s')"
  shows "usr_id u = i" "c \<in> set (usr_credentials u) \<Longrightarrow> (i, pk_id c) \<in> set (crs_of s)"
proof -
  obtain b s1 where f: "au_fault s = (b, s1)" by force
  obtain v where v: "sql_first (\<lambda>u. usr_id u = i) (au_users s1) = Some v" "loadCredentials v s1 = (Inr u, s')"
    using assms by (auto simp: GetUserByID_def f split: if_splits option.splits prod.splits sum.splits)
  have i: "usr_id v = i" using sql_first_Some [OF v(1)] by simp
  obtain b2 s2 where f2: "au_fault s1 = (b2, s2)" by force
  have u: "u = v\<lparr>usr_credentials := map toWebAuthn (sql_select (\<lambda>c. cr_user c = i) (au_creds s2))\<rparr>"
    using v(2) i by (auto simp: loadCredentials_def listCredentialsForUser_def f2 split: if_splits)
  show "usr_id u = i" using u i by simp
  have "crs_of s2 = crs_of s"
    using crs_calm [OF calm_fault [OF f]] crs_calm [OF calm_fault [OF f2]] by simp
  moreover have "c \<in> set (usr_credentials u) \<Longrightarrow> (i, pk_id c) \<in> set (crs_of s2)"
    using u by (auto simp: crs_of_def sql_select_def toWebAuthn_def)
  ultimately show "c \<in> set (usr_credentials u) \<Longrightarrow> (i, pk_id c) \<in> set (crs_of s)"
    by simp
qed

lemma session_owns:
  assumes "resolveSession hash rq s = (Inr (Some (q, u)), s')" "c \<in> set (usr_credentials u)"
  shows "(usr_id u, pk_id c) \<in> set (crs_of s)"
proof -
  obtain tok s1 where g: "GetSession hash tok s = (Inr (Some q), s1)" and u: "GetUserByID (sn_user q) s1 = (Inr (Some u), s')"
    using assms(1) by (auto simp: resolveSession_def split: option.splits prod.splits sum.splits if_splits)
  show ?thesis
    using user_owns [OF u] assms(2) crs_calm [OF calm_get_session [OF g]] by simp
qed

lemma asserted_owned:
  assumes "asserts_own wa" "wa_assert wa u ch r = Some c" "\<And>c. c \<in> set (usr_credentials u) \<Longrightarrow> (usr_id u, pk_id c) \<in> X"
  shows "(usr_id u, pk_id c) \<in> X"
proof -
  obtain d where "d \<in> set (usr_credentials u)" "pk_id c = pk_id d"
    using assms(1,2) unfolding asserts_own_def by blast
  then show ?thesis using assms(3) by metis
qed

lemma ok_note:
  assumes "auth_ok C T (s, fl)" "event_ok (set (au_log s @ [Asserted i u ch c])) (set (crs_of s)) (Asserted i u ch c)" "i < au_next s"
  shows "auth_ok C T (note_event (Asserted i u ch c) s, fl)"
  using auth_inv_event [of C T "au_pending s" "au_next s" "au_log s" "crs_of s" "named s" fl "Asserted i u ch c" "crs_of s" "au_next s" "named s"] assms
  by (auto simp: auth_ok_def note_event_def auth_views auth_inv_def)

lemma ok_drop: "auth_ok C T (s, fl) \<Longrightarrow> auth_ok C T (dropPending k s, fl)"
  using auth_inv_delete by (auto simp: auth_ok_def dropPending_def auth_views)

lemma ok_fail: "auth_ok C T (s, fl) \<Longrightarrow> auth_ok C T (snd (step_up_fail n k s), fl)"
  by (simp add: step_up_fail_def ok_drop)

lemma keep_all: "\<exists>P. ps = filter P ps"
  by (rule exI [of _ "\<lambda>_. True"]) simp

lemma evict_filter: "\<exists>P. evictPendingLocked t ps = filter P ps"
  unfolding evictPendingLocked_def AList.delete_eq using keep_all [of ps] by (auto split: option.split)

lemma ok_open:
  assumes ok: "auth_ok C T (s, fl)" and p: "pa_id p = au_next s" "who p = w"
    and c: "pa_step_up p \<noteq> None \<longrightarrow> pa_step_up p = Some ch \<and> basis_of p = OnSession" "basis_of p = OnSession \<longrightarrow> \<not> pa_verified p"
      "basis_of p = OnLogin \<longrightarrow> pa_session p = Some ch"
  shows "auth_ok C T (snd (open_ceremony w ch rq p s), fl)"
proof -
  let ?e = "Issued (pa_id p) (basis_of p) w ch"
  have inv: "auth_inv C T (au_pending s) (au_next s) (au_log s) (crs_of s) (named s) fl"
    using ok by (simp add: auth_ok_def)
  have lt: "\<forall>i \<in> set (open_ids (au_pending s) fl). i < au_next s" "\<forall>e \<in> set (au_log s). event_id e < au_next s"
    using inv by (auto simp: auth_inv_def)
  have e: "auth_inv C T (au_pending s) (Suc (au_next s)) (au_log s @ [?e]) (crs_of s) (named s) fl"
    by (rule auth_inv_event [OF inv]) (use p inv in \<open>auto simp: event_ok_def auth_inv_def\<close>)
  have none: "auth_inv C T (au_pending s) (Suc (au_next s)) (au_log s) (crs_of s) (named s) fl"
    using inv unfolding auth_inv_def by (simp add: less_Suc_eq)
  show ?thesis
  proof (cases "rq_token rq")
    case None
    then show ?thesis using none by (simp add: open_ceremony_def storePending_def auth_ok_def auth_views)
  next
    case (Some k)
    obtain P where P: "(if int (length (au_pending s)) \<ge> maxPending then evictPendingLocked (rq_now rq) (au_pending s) else au_pending s) = filter P (au_pending s)"
      using evict_filter [of "rq_now rq" "au_pending s"] keep_all [of "au_pending s"] by (cases "int (length (au_pending s)) \<ge> maxPending") auto
    define q where "q = p\<lparr>pa_expires := rq_now rq + pendingLifetime\<rparr>"
    have q: "pa_id q = au_next s" "basis_of q = basis_of p" "who q = who p" "pa_step_up q = pa_step_up p" "pa_verified q = pa_verified p"
        "pa_session q = pa_session p" "pa_by q = pa_by p" "pa_user q = pa_user p"
      by (simp_all add: q_def p basis_of_def who_def)
    have cer: "ceremony_ok (set (au_log s @ [?e])) (set (crs_of s)) q"
      unfolding ceremony_ok_def using c p q by (intro exI [of _ ch]) auto
    have "auth_inv C T (AList.update k q (filter P (au_pending s))) (Suc (au_next s)) (au_log s @ [?e]) (crs_of s) (named s) fl"
    proof (rule auth_inv_put [OF auth_inv_filter [OF e] _ _ _ _ cer])
      show "pa_id q \<notin> set (open_ids (filter P (au_pending s)) fl)"
        using lt(1) q(1) by (auto simp: open_ids_def)
    qed (use q lt(2) in \<open>auto simp: enrolled_ids_def signed_ids_def\<close>)
    then show ?thesis
      using P by (auto simp: open_ceremony_def storePending_def Some q_def [symmetric] note_event_def auth_ok_def auth_views Let_def)
  qed
qed

text \<open>The requests that begin a ceremony.\<close>

lemma ok_login_begin: "auth_ok C T (s, fl) \<Longrightarrow> auth_ok C T (snd (handleLoginBegin rq s), fl)"
proof (cases "rq_chal rq")
  case (Some ch)
  assume "auth_ok C T (s, fl)"
  then have "auth_ok C T (snd (open_ceremony [] ch rq ((blank_pending KLogin (au_next s))\<lparr>pa_session := Some ch\<rparr>) s), fl)"
    by (rule ok_open) (simp_all add: blank_pending_def basis_of_def who_def)
  then show ?thesis
    by (auto simp: handleLoginBegin_def Some split: prod.split option.split)
qed (simp add: handleLoginBegin_def)

lemma ok_first_begin:
  assumes ok: "auth_ok C T (s, fl)"
  shows "auth_ok C T (snd (beginFirstRunRegistration rq name display choice s), fl)"
proof -
  have 1: "auth_ok C T (snd (open_ceremony (usr_id u) ch rq
      ((blank_pending KRegister (au_next s))\<lparr>pa_user := Some u, pa_session := Some ch, pa_first_run := True\<rparr>) s), fl)" for u ch
    by (rule ok_open [OF ok]) (simp_all add: blank_pending_def basis_of_def who_def)
  have "auth_ok C T (snd (case open_ceremony (usr_id u) ch rq
      ((blank_pending KRegister (au_next s))\<lparr>pa_user := Some u, pa_session := Some ch, pa_first_run := True\<rparr>) s of
        (None, s1) \<Rightarrow> (x, s1) | (Some k, s1) \<Rightarrow> (y k, s1)), fl)" for u ch x and y :: "string \<Rightarrow> auth_reply"
    using 1 [of u ch] by (auto split: prod.split option.split)
  then show ?thesis
    using ok by (auto simp: beginFirstRunRegistration_def beginCreation_def split: option.split)
qed

lemma ok_register_begin:
  assumes "auth_ok C T (s, fl)"
  shows "auth_ok C T (snd (handleRegisterBegin hash rq body s), fl)"
proof (cases "\<exists>name display auth choice. body = Some (name, display, auth) \<and> parseAuthenticatorChoice auth = Some choice")
  case False
  then show ?thesis
    using assms by (auto simp: handleRegisterBegin_def split: option.split)
next
  case True
  then obtain name display auth choice where b: "body = Some (name, display, auth)" "parseAuthenticatorChoice auth = Some choice" by blast
  obtain r1 s1 where fr: "FirstRun s = (r1, s1)" by force
  have 1: "auth_ok C T (s1, fl)" by (rule auth_ok_calm [OF assms calm_reads(1) [OF fr]])
  obtain r2 s2 where rs: "resolveSession hash rq s1 = (r2, s2)" by force
  have 2: "auth_ok C T (s2, fl)" by (rule auth_ok_calm [OF 1 calm_resolve [OF rs]])
  have 3: "auth_ok C T (snd (open_ceremony (usr_id by') ch rq
      ((blank_pending KRegister (au_next s2))\<lparr>pa_by := usr_id by', pa_choice := choice, pa_step_up := Some ch\<rparr>) s2), fl)" for by' ch
    by (rule ok_open [OF 2]) (simp_all add: blank_pending_def basis_of_def who_def)
  have 4: "auth_ok C T (snd (case open_ceremony (usr_id by') ch rq
      ((blank_pending KRegister (au_next s2))\<lparr>pa_by := usr_id by', pa_choice := choice, pa_step_up := Some ch\<rparr>) s2 of
        (None, s3) \<Rightarrow> (x, s3) | (Some k, s3) \<Rightarrow> (y k, s3)), fl)" for by' ch x and y :: "string \<Rightarrow> auth_reply"
    using 3 [of by' ch] by (auto split: prod.split option.split)
  show ?thesis
    using 1 2 ok_first_begin [OF 1] 4 by (auto simp: handleRegisterBegin_def b fr rs split: sum.split bool.split option.split)
qed

section \<open>Finishing\<close>

lemma ok_complete:
  assumes ok: "auth_ok C T (s, fl)" and iss: "Issued (pa_id p) OnSession (pa_by p) ch \<in> set (au_log s)"
    and as: "Asserted (pa_id p) (pa_by p) ch c \<in> set (au_log s)" "(pa_by p, c) \<in> set (crs_of s)" and u: "usr_id u = pa_by p"
  shows "auth_ok C T (snd (completeStepUp k p u creation s), fl)"
proof (cases "\<exists>cur. map_of (au_pending s) k = Some cur \<and> pa_id cur = pa_id p")
  case False
  then show ?thesis
    using ok by (auto simp: completeStepUp_def split: option.split)
next
  case True
  then obtain cur where cur: "map_of (au_pending s) k = Some cur" "pa_id cur = pa_id p" by blast
  have inv: "auth_inv C T (au_pending s) (au_next s) (au_log s) (crs_of s) (named s) fl"
    using ok by (simp add: auth_ok_def)
  have "ceremony_ok (set (au_log s)) (set (crs_of s)) cur"
    using inv map_of_SomeD [OF cur(1)] by (auto simp: auth_inv_def)
  then obtain ch' where cer: "Issued (pa_id p) (basis_of cur) (who cur) ch' \<in> set (au_log s)"
      "pa_step_up cur \<noteq> None \<longrightarrow> pa_step_up cur = Some ch' \<and> basis_of cur = OnSession"
    unfolding ceremony_ok_def cur(2) by blast
  have same: "basis_of cur = OnSession" "who cur = pa_by p" "ch' = ch"
    using inv cer(1) iss unfolding auth_inv_def by blast+
  define q where "q = cur\<lparr>pa_user := Some u, pa_session := Some creation, pa_verified := True\<rparr>"
  have q: "pa_id q = pa_id p" "basis_of q = OnSession" "pa_by q = pa_by p" "pa_step_up q = pa_step_up cur" "pa_user q = Some u"
    using same cur(2) by (auto simp: q_def basis_of_def who_def split: if_splits)
  have "ceremony_ok (set (au_log s)) (set (crs_of s)) q"
    unfolding ceremony_ok_def using q cer as u iss same(3) by (intro exI [of _ ch]) (auto simp: who_def)
  from auth_inv_change [OF inv cur(1) _ this] q(1) cur(2) show ?thesis
    by (simp add: completeStepUp_def cur q_def auth_ok_def auth_views)
qed

lemma ok_step_up:
  assumes law: "asserts_own wa" and ok: "auth_ok C T (s, fl)" and f: "FStepUp rq k p ch \<in> set fl"
  shows "auth_ok C T (snd (verifyStepUp wa hash rq k p ch s), remove1 (FStepUp rq k p ch) fl)"
proof -
  let ?fl = "remove1 (FStepUp rq k p ch) fl"
  have inv: "auth_inv C T (au_pending s) (au_next s) (au_log s) (crs_of s) (named s) fl"
    using ok by (simp add: auth_ok_def)
  have 0: "auth_ok C T (s, ?fl)"
    using auth_inv_flight(1) [OF inv f] by (simp add: auth_ok_def)
  have iss: "Issued (pa_id p) OnSession (pa_by p) ch \<in> set (au_log s)"
    using auth_inv_flight(2) [OF inv f] by (simp add: flight_ok_def)
  have lt: "pa_id p < au_next s"
    using inv iss unfolding auth_inv_def by (metis event_id.simps(1))
  obtain r s1 where rs: "resolveSession hash rq s = (r, s1)" by force
  have c1: "calm s s1" by (rule calm_resolve [OF rs])
  have 1: "auth_ok C T (s1, ?fl)" by (rule auth_ok_calm [OF 0 c1])
  show ?thesis
  proof (cases "\<exists>q by' c. r = Inr (Some (q, by')) \<and> usr_id by' = pa_by p \<and> wa_assert wa by' ch (rq_resp rq) = Some c")
    case False
    then show ?thesis
      using ok_fail [OF 1] by (auto simp: verifyStepUp_def rs split: sum.split option.split)
  next
    case True
    then obtain q by' c where r: "r = Inr (Some (q, by'))" "usr_id by' = pa_by p" "wa_assert wa by' ch (rq_resp rq) = Some c" by blast
    have own: "(pa_by p, pk_id c) \<in> set (crs_of s1)"
      using asserted_owned [OF law r(3), of "set (crs_of s)"] session_owns [OF rs [unfolded r(1)]] r(2) crs_calm [OF c1] by auto
    have log1: "au_log s1 = au_log s" "au_next s1 = au_next s" using c1 by (simp_all add: calm_def)
    define s2 where "s2 = note_event (Asserted (pa_id p) (pa_by p) ch (pk_id c)) s1"
    have 2: "auth_ok C T (s2, ?fl)"
      unfolding s2_def by (rule ok_note [OF 1]) (use own iss lt log1 in \<open>auto simp: event_ok_def\<close>)
    obtain e s3 where up: "UpdateCredentialAfterLogin c (rq_now rq) s2 = (e, s3)" by force
    have c3: "calm s2 s3" by (rule calm_update_cred [OF up])
    have 3: "auth_ok C T (s3, ?fl)" by (rule auth_ok_calm [OF 2 c3])
    have log3: "au_log s3 = au_log s @ [Asserted (pa_id p) (pa_by p) ch (pk_id c)]" "crs_of s3 = crs_of s1"
      using c3 log1 r(2) crs_calm [OF c3] by (simp_all add: calm_def s2_def note_event_def crs_of_def)
    have 4: "auth_ok C T (snd (completeStepUp k p by' creation s3), ?fl)" for creation
      by (rule ok_complete [OF 3]) (use iss own log3 r(2) in auto)
    have 5: "auth_ok C T (snd (case completeStepUp k p by' creation s3 of (False, s4) \<Rightarrow> step_up_fail n k s4 | (True, s4) \<Rightarrow> (x, s4)), ?fl)" for creation n x
      using 4 [of creation] ok_fail by (auto split: prod.split bool.split)
    show ?thesis
      using ok_fail [OF 3] 5 by (auto simp: verifyStepUp_def rs r s2_def [symmetric] up Let_def split: option.split)
  qed
qed

lemma credential_added:
  assumes "CreateCredential row s = (None, s')"
  shows "au_pending s' = au_pending s" "au_next s' = au_next s" "au_log s' = au_log s" "named s' = named s" "map usr_id (au_users s') = map usr_id (au_users s)"
    "crs_of s' = crs_of s @ [(cr_user row, cr_id row)]" "cr_id row \<notin> set (map snd (crs_of s))"
proof -
  obtain b s1 where f: "au_fault s = (b, s1)" by force
  have c: "s1 = s\<lparr>au_faults := au_faults s1\<rparr>" by (rule fault_parts [OF f])
  have "credential_fits row s1" "s' = s1\<lparr>au_creds := au_creds s1 @ [row]\<rparr>"
    using assms by (auto simp: CreateCredential_def insertCredential_def f split: if_splits)
  then show "au_pending s' = au_pending s" "au_next s' = au_next s" "au_log s' = au_log s" "named s' = named s" "map usr_id (au_users s') = map usr_id (au_users s)"
    "crs_of s' = crs_of s @ [(cr_user row, cr_id row)]" "cr_id row \<notin> set (map snd (crs_of s))"
    using arg_cong [OF c, of au_pending] arg_cong [OF c, of au_next] arg_cong [OF c, of au_log] arg_cong [OF c, of au_creds]
      arg_cong [OF c, of au_sessions] arg_cong [OF c, of au_users]
    by (auto simp: credential_fits_def auth_views)
qed

lemma first_user_added:
  assumes "CreateFirstUser u row s = (None, s')"
  shows "au_pending s' = au_pending s" "au_next s' = au_next s" "au_log s' = au_log s" "named s' = named s" "au_users s = []" "map usr_id (au_users s') = [usr_id u]"
    "crs_of s' = crs_of s @ [(cr_user row, cr_id row)]" "cr_id row \<notin> set (map snd (crs_of s))"
proof -
  obtain b s1 where f: "au_fault s = (b, s1)" by force
  have c: "s1 = s\<lparr>au_faults := au_faults s1\<rparr>" by (rule fault_parts [OF f])
  have "au_users s1 = []" "credential_fits row (s1\<lparr>au_users := [u\<lparr>usr_last_login := None, usr_credentials := []\<rparr>]\<rparr>)"
      "s' = s1\<lparr>au_users := [u\<lparr>usr_last_login := None, usr_credentials := []\<rparr>], au_creds := au_creds s1 @ [row]\<rparr>"
    using assms by (auto simp: CreateFirstUser_def insertCredential_def f split: if_splits)
  then show "au_pending s' = au_pending s" "au_next s' = au_next s" "au_log s' = au_log s" "named s' = named s" "au_users s = []" "map usr_id (au_users s') = [usr_id u]"
    "crs_of s' = crs_of s @ [(cr_user row, cr_id row)]" "cr_id row \<notin> set (map snd (crs_of s))"
    using arg_cong [OF c, of au_pending] arg_cong [OF c, of au_next] arg_cong [OF c, of au_log] arg_cong [OF c, of au_creds]
      arg_cong [OF c, of au_sessions] arg_cong [OF c, of au_users]
    by (auto simp: credential_fits_def auth_views)
qed

lemma calm_create_failed: "CreateCredential row s = (Some e, s') \<Longrightarrow> calm s s'" "CreateFirstUser u row s = (Some e, s') \<Longrightarrow> calm s s'"
  by (cases "au_fault s"; auto simp: CreateCredential_def CreateFirstUser_def insertCredential_def dest: calm_fault split: if_splits)+

text \<open>A passkey is enrolled by a ceremony that no one else can finish.\<close>

lemma ok_enrol:
  assumes ok: "auth_ok C T (s, fl)" and t: "au_pending s' = au_pending s" "au_next s' = au_next s" "au_log s' = au_log s" "named s' = named s"
      "crs_of s' = crs_of s @ [(u, c)]" "c \<notin> set (map snd (crs_of s))"
    and i: "i < au_next s" "i \<notin> set (open_ids (au_pending s) fl)" "i \<notin> set (enrolled_ids (au_log s))"
    and why: "(\<exists>ch. Issued i OnFirstRun u ch \<in> set (au_log s)) \<or>
        (\<exists>ch c'. Issued i OnSession u ch \<in> set (au_log s) \<and> Asserted i u ch c' \<in> set (au_log s) \<and> (u, c') \<in> set (crs_of s))"
  shows "auth_ok C T (note_event (Enrolled i u c) s', fl)"
proof -
  have inv: "auth_inv C T (au_pending s) (au_next s) (au_log s) (crs_of s) (named s) fl"
    using ok by (simp add: auth_ok_def)
  have "c' \<noteq> c" if "(u, c') \<in> set (crs_of s)" for c'
    using that t(6) by force
  then have "event_ok (set (au_log s @ [Enrolled i u c])) (set (crs_of s @ [(u, c)])) (Enrolled i u c)"
    using why by (simp add: event_ok_def) blast
  from auth_inv_event [OF inv this, of "au_next s" "named s"] i t(6) inv
  have "auth_inv C T (au_pending s) (au_next s) (au_log s @ [Enrolled i u c]) (crs_of s @ [(u, c)]) (named s) fl"
    by (auto simp: auth_inv_def)
  then show ?thesis
    using t by (simp add: auth_ok_def note_event_def auth_views)
qed

lemma ok_sign_in:
  assumes ok: "auth_ok C T (s, fl)" and i: "i < au_next s" "i \<notin> set (open_ids (au_pending s) fl)" "i \<notin> set (signed_ids (au_log s))"
    and why: "(\<exists>ch. Issued i OnLogin [] ch \<in> set (au_log s) \<and> Asserted i (usr_id u) ch c \<in> set (au_log s)) \<or>
        ((\<exists>ch. Issued i OnFirstRun (usr_id u) ch \<in> set (au_log s)) \<and> Enrolled i (usr_id u) c \<in> set (au_log s))"
  shows "auth_ok C T (snd (sign_in hash rq i c u s), fl)"
proof -
  obtain r s1 where cs: "createSession hash (rq_token rq) (rq_now rq) (usr_id u) s = (r, s1)" by force
  obtain b s0 where f: "au_fault s = (b, s0)" by force
  have inv: "auth_inv C T (au_pending s) (au_next s) (au_log s) (crs_of s) (named s) fl"
    using ok by (simp add: auth_ok_def)
  show ?thesis
  proof (cases r)
    case (Inl e)
    then have "calm s s1"
      using cs calm_fault [OF f] by (auto simp: createSession_def CreateSession_def f Let_def split: option.splits if_splits)
    then show ?thesis
      using auth_ok_calm [OF ok] by (simp add: sign_in_def cs Inl)
  next
    case (Inr n)
    have c0: "s0 = s\<lparr>au_faults := au_faults s0\<rparr>" by (rule fault_parts [OF f])
    have n: "sn_user n = usr_id u" "s1 = s0\<lparr>au_sessions := au_sessions s0 @ [n\<lparr>sn_hash := Some (hash (sn_token n))\<rparr>]\<rparr>"
      using cs Inr by (auto simp: createSession_def CreateSession_def f Let_def split: option.splits if_splits)
    have t: "au_pending s1 = au_pending s" "au_next s1 = au_next s" "au_log s1 = au_log s" "crs_of s1 = crs_of s"
        "named s1 = named s \<union> {(sn_token n, usr_id u)}"
      using n arg_cong [OF c0, of au_pending] arg_cong [OF c0, of au_next] arg_cong [OF c0, of au_log] arg_cong [OF c0, of au_creds]
        arg_cong [OF c0, of au_sessions] by (auto simp: auth_views)
    let ?e = "SignedIn i (usr_id u) c (sn_token n)"
    have ev: "event_ok (set (au_log s @ [?e])) (set (crs_of s)) ?e"
      using why by (simp add: event_ok_def; blast)
    from auth_inv_event [OF inv ev, of "au_next s" "named s1"] i t(5) inv
    have "auth_inv C T (au_pending s) (au_next s) (au_log s @ [?e]) (crs_of s) (named s1) fl"
      by (auto simp: auth_inv_def)
    then have 2: "auth_ok C T (note_event ?e s1, fl)"
      using t by (simp add: auth_ok_def note_event_def auth_views)
    let ?s3 = "snd (UpdateLastLogin (usr_id u) (sn_created n) (note_event ?e s1))"
    have "auth_ok C T (?s3, fl)"
      by (rule auth_ok_calm [OF 2 calm_last_login])
    moreover have "calm ?s3 (?s3\<lparr>au_hooks := h\<rparr>)" for h
      by (rule calm_same) simp_all
    ultimately show ?thesis
      using auth_ok_calm by (simp add: sign_in_def cs Inr Let_def)
  qed
qed

lemma ok_create:
  assumes ok: "auth_ok C T (s, fl)" and i: "pa_id p < au_next s" "pa_id p \<notin> set (open_ids (au_pending s) fl)"
      "pa_id p \<notin> set (enrolled_ids (au_log s))" "pa_id p \<notin> set (signed_ids (au_log s))"
    and cer: "ceremony_ok (set (au_log s)) (set (crs_of s)) p" "pa_kind p = KRegister" "pa_first_run p \<or> pa_verified p"
  shows "auth_ok C T (snd (create_passkey wa hash rq p s), fl)"
proof (cases "\<exists>u ch c. pa_user p = Some u \<and> pa_session p = Some ch \<and> wa_create wa u ch (rq_resp rq) = Some c")
  case False
  then show ?thesis
    using ok by (auto simp: create_passkey_def split: option.split)
next
  case True
  then obtain u ch c where u: "pa_user p = Some u" "pa_session p = Some ch" "wa_create wa u ch (rq_resp rq) = Some c" by blast
  define row where "row = (fromWebAuthn c (usr_id u))\<lparr>cr_created := rq_now rq\<rparr>"
  have row: "cr_user row = usr_id u" "cr_id row = pk_id c"
    by (simp_all add: row_def fromWebAuthn_def)
  obtain ch' where iss: "Issued (pa_id p) (basis_of p) (who p) ch' \<in> set (au_log s)"
      "basis_of p = OnSession \<longrightarrow> pa_verified p \<longrightarrow>
        (\<exists>c. Asserted (pa_id p) (pa_by p) ch' c \<in> set (au_log s) \<and> (pa_by p, c) \<in> set (crs_of s)) \<and> map_option usr_id (pa_user p) = Some (pa_by p)"
    using cer(1) unfolding ceremony_ok_def by blast
  show ?thesis
  proof (cases "pa_first_run p")
    case False
    then have b: "basis_of p = OnSession" "pa_verified p" using cer(2,3) by (simp_all add: basis_of_def)
    then have by': "usr_id u = pa_by p" "who p = pa_by p" using iss(2) u(1) by (simp_all add: who_def)
    obtain e s1 where cr: "CreateCredential row s = (e, s1)" by force
    show ?thesis
    proof (cases e)
      case (Some x)
      then show ?thesis
        using auth_ok_calm [OF ok calm_create_failed(1) [OF cr [unfolded Some]]] False
        by (simp add: create_passkey_def u row_def [symmetric] cr Let_def)
    next
      case None
      note t = credential_added [OF cr [unfolded None], unfolded row]
      have "auth_ok C T (note_event (Enrolled (pa_id p) (usr_id u) (pk_id c)) s1, fl)"
        by (rule ok_enrol [OF ok t(1-4,6,7) i(1-3)]) (use iss b by' in auto)
      then show ?thesis
        using False by (simp add: create_passkey_def u row_def [symmetric] cr None Let_def)
    qed
  next
    case True
    then have b: "basis_of p = OnFirstRun" "who p = usr_id u" using cer(2) u(1) by (simp_all add: basis_of_def who_def)
    obtain e s1 where cr: "CreateFirstUser u row s = (e, s1)" by force
    show ?thesis
    proof (cases e)
      case (Some x)
      then show ?thesis
        using auth_ok_calm [OF ok calm_create_failed(2) [OF cr [unfolded Some]]] True
        by (auto simp: create_passkey_def u row_def [symmetric] cr Let_def split: auth_error.split)
    next
      case None
      note t = first_user_added [OF cr [unfolded None], unfolded row]
      let ?s = "note_event (Enrolled (pa_id p) (usr_id u) (pk_id c)) s1"
      have 1: "auth_ok C T (?s, fl)"
        by (rule ok_enrol [OF ok t(1-4,7,8) i(1-3)]) (use iss b in auto)
      have "auth_ok C T (snd (sign_in hash rq (pa_id p) (pk_id c) u ?s), fl)"
        by (rule ok_sign_in [OF 1]) (use i t iss b in \<open>auto simp: note_event_def\<close>)
      then show ?thesis
        using True by (simp add: create_passkey_def u row_def [symmetric] cr None Let_def)
    qed
  qed
qed

lemma ok_flight_done:
  assumes ok: "auth_ok C T (s, fl)" and f: "f \<in> set fl" and h: "held f = [i]" and c: "calm s s'"
  shows "auth_ok C T (s', remove1 f fl)" "i < au_next s'" "i \<notin> set (open_ids (au_pending s') (remove1 f fl))"
    "i \<notin> set (enrolled_ids (au_log s'))" "i \<notin> set (signed_ids (au_log s'))" "flight_ok (set (au_log s')) (set (crs_of s')) f"
proof -
  have inv: "auth_inv C T (au_pending s) (au_next s) (au_log s) (crs_of s) (named s) fl"
    using ok by (simp add: auth_ok_def)
  have "auth_ok C T (s, remove1 f fl)"
    using auth_inv_flight(1) [OF inv f] by (simp add: auth_ok_def)
  from auth_ok_calm [OF this c] show "auth_ok C T (s', remove1 f fl)" .
  show "i < au_next s'" "i \<notin> set (open_ids (au_pending s') (remove1 f fl))" "i \<notin> set (enrolled_ids (au_log s'))"
    "i \<notin> set (signed_ids (au_log s'))" "flight_ok (set (au_log s')) (set (crs_of s')) f"
    using auth_inv_flight(2,3) [OF inv f] h c crs_calm [OF c] by (auto simp: calm_def)
qed

lemma ok_register_done:
  assumes ok: "auth_ok C T (s, fl)" and f: "FRegister rq p \<in> set fl"
  shows "auth_ok C T (snd (finishRegistration wa hash rq p s), remove1 (FRegister rq p) fl)"
proof -
  have h: "held (FRegister rq p) = [pa_id p]" by simp
  obtain r s1 where rs: "resolveSession hash rq s = (r, s1)" by force
  note d = ok_flight_done [OF ok f h calm_refl] and d1 = ok_flight_done [OF ok f h calm_resolve [OF rs]]
  show ?thesis
  proof (cases "pa_first_run p")
    case True
    have "auth_ok C T (snd (create_passkey wa hash rq p s), remove1 (FRegister rq p) fl)"
      by (rule ok_create [OF d(1-5)]) (use d(6) True in \<open>auto simp: flight_ok_def\<close>)
    then show ?thesis using True by (simp add: finishRegistration_def)
  next
    case False
    have "auth_ok C T (snd (create_passkey wa hash rq p s1), remove1 (FRegister rq p) fl)" if "pa_verified p"
      by (rule ok_create [OF d1(1-5)]) (use d1(6) that in \<open>auto simp: flight_ok_def\<close>)
    then show ?thesis
      using False d(1) d1(1) by (auto simp: finishRegistration_def rs split: sum.split option.split)
  qed
qed

lemma first_by_key: "distinct (map k xs) \<Longrightarrow> x \<in> set xs \<Longrightarrow> sql_first (\<lambda>y. k y = k x) xs = Some x"
  by (induction xs) (auto simp: rev_image_eqI)

lemma handle_owner:
  assumes "UserHandleForCredential c s = (Inr (Some i), s')" "distinct (map snd (crs_of s))" "(u, c) \<in> set (crs_of s)"
  shows "i = u"
proof -
  obtain b s1 where f: "au_fault s = (b, s1)" by force
  have "s1 = s\<lparr>au_faults := au_faults s1\<rparr>" by (rule fault_parts [OF f])
  then have cr: "au_creds s1 = au_creds s" by (metis auth.select_convs(2) auth.surjective auth.update_convs(7))
  obtain r where r: "r \<in> set (au_creds s)" "cr_user r = u" "cr_id r = c"
    using assms(3) by (auto simp: crs_of_def)
  have "distinct (map cr_id (au_creds s))"
    using assms(2) by (simp add: crs_of_def comp_def)
  from first_by_key [OF this r(1)] assms(1) r show ?thesis
    by (auto simp: UserHandleForCredential_def f cr split: if_splits)
qed

lemma discoverable_owned:
  assumes "asserts_own wa" "discoverable wa ch resp s = (Some (v, c), s')"
  shows "(usr_id v, pk_id c) \<in> set (crs_of s)" "calm s s'"
proof -
  obtain raw h where ids: "wa_ids wa resp = Some (raw, h)" and g: "GetUserByID h s = (Inr (Some v), s')" and w: "wa_assert wa v ch resp = Some c"
    using assms(2) by (auto simp: discoverable_def split: option.splits prod.splits sum.splits)
  show "(usr_id v, pk_id c) \<in> set (crs_of s)"
    by (rule asserted_owned [OF assms(1) w]) (use user_owns [OF g] in simp)
  show "calm s s'" by (rule calm_get_user [OF g])
qed

lemma calm_discoverable: "discoverable wa ch resp s = (r, s') \<Longrightarrow> calm s s'"
  by (auto simp: discoverable_def dest: calm_get_user split: option.splits prod.splits sum.splits)

lemma ok_login_done:
  assumes law: "asserts_own wa" and ok: "auth_ok C T (s, fl)" and f: "FLogin rq p \<in> set fl"
  shows "auth_ok C T (snd (finishLogin wa hash rq p s), remove1 (FLogin rq p) fl)"
proof -
  let ?fl = "remove1 (FLogin rq p) fl"
  have h: "held (FLogin rq p) = [pa_id p]" by simp
  define ch where "ch = (case pa_session p of None \<Rightarrow> [] | Some c \<Rightarrow> c)"
  obtain r s1 where ds: "discoverable wa ch (rq_resp rq) s = (r, s1)" by force
  note d = ok_flight_done [OF ok f h calm_discoverable [OF ds]]
  show ?thesis
  proof (cases r)
    case None
    then show ?thesis using d(1) by (simp add: finishLogin_def ch_def [symmetric] ds Let_def)
  next
    case (Some vc)
    then obtain v c where r: "r = Some (v, c)" by (cases vc) auto
    have own: "(usr_id v, pk_id c) \<in> set (crs_of s1)"
      using discoverable_owned [OF law ds [unfolded r]] crs_calm by metis
    have "ceremony_ok (set (au_log s1)) (set (crs_of s1)) p" "pa_kind p = KLogin"
      using d(6) by (simp_all add: flight_ok_def)
    then have iss: "Issued (pa_id p) OnLogin [] ch \<in> set (au_log s1)"
      unfolding ceremony_ok_def by (auto simp: basis_of_def who_def ch_def)
    define s2 where "s2 = note_event (Asserted (pa_id p) (usr_id v) ch (pk_id c)) s1"
    have 2: "auth_ok C T (s2, ?fl)"
      unfolding s2_def by (rule ok_note [OF d(1)]) (use own iss d(2) in \<open>auto simp: event_ok_def\<close>)
    obtain e s3 where up: "UpdateCredentialAfterLogin c (rq_now rq) s2 = (e, s3)" by force
    obtain r4 s4 where uh: "UserHandleForCredential (pk_id c) s3 = (r4, s4)" by force
    have c3: "calm s2 s3" and c4: "calm s3 s4" by (rule calm_update_cred [OF up], rule calm_reads(4) [OF uh])
    have 3: "auth_ok C T (s3, ?fl)" by (rule auth_ok_calm [OF 2 c3])
    have 4: "auth_ok C T (s4, ?fl)" by (rule auth_ok_calm [OF 3 c4])
    have 5: "auth_ok C T (snd (sign_in hash rq (pa_id p) (pk_id c) u s5), ?fl)"
      if "r4 = Inr (Some i)" "GetUserByID i s4 = (Inr (Some u), s5)" for i u s5
    proof -
      have c5: "calm s4 s5" by (rule calm_get_user [OF that(2)])
      have crs: "crs_of s3 = crs_of s1" "distinct (map snd (crs_of s3))"
        using crs_calm [OF c3] 3 by (simp_all add: s2_def note_event_def crs_of_def auth_ok_def auth_inv_def)
      have "i = usr_id v"
        by (rule handle_owner [OF uh [unfolded that(1)] crs(2)]) (use own crs(1) in simp)
      then have u: "usr_id u = usr_id v" using user_owns(1) [OF that(2)] by simp
      have s5: "au_log s5 = au_log s1 @ [Asserted (pa_id p) (usr_id v) ch (pk_id c)]" "au_next s5 = au_next s1" "au_pending s5 = au_pending s1"
        using c3 c4 c5 by (simp_all add: calm_def s2_def note_event_def)
      show ?thesis
        by (rule ok_sign_in [OF auth_ok_calm [OF 4 c5]]) (use s5 d iss u in auto)
    qed
    have 6: "auth_ok C T (snd (case GetUserByID i s4 of (Inr (Some u), s5) \<Rightarrow> sign_in hash rq (pa_id p) (pk_id c) u s5 | (_, s5) \<Rightarrow> (x, s5)), ?fl)"
      if "r4 = Inr (Some i)" for i x
      using 5 [OF that] auth_ok_calm [OF 4 calm_get_user] by (auto split: prod.split sum.split option.split)
    show ?thesis
      using 3 4 6 by (auto simp: finishLogin_def ch_def [symmetric] ds r s2_def [symmetric] up uh Let_def split: option.split sum.split)
  qed
qed

lemma ok_taken: "auth_ok C T (s, fl) \<Longrightarrow> takePending k t s = (r, s') \<Longrightarrow> auth_ok C T (s', fl)"
  using ok_drop by (auto simp: takePending_def split: option.splits)

lemma ok_step_up_taken:
  assumes ok: "auth_ok C T (s, fl)" and t: "takeStepUp k t s = (Some (p, ch), s')"
  shows "auth_ok C T (s', FStepUp rq k p ch # fl)"
proof -
  have inv: "auth_inv C T (au_pending s) (au_next s) (au_log s) (crs_of s) (named s) fl"
    using ok by (simp add: auth_ok_def)
  obtain q where q: "map_of (au_pending s) k = Some q" "pa_step_up q = Some ch" "p = q\<lparr>pa_step_up := None\<rparr>"
      "s' = s\<lparr>au_pending := AList.update k p (au_pending s)\<rparr>"
    using t by (auto simp: takeStepUp_def Let_def split: option.splits if_splits)
  have cer: "ceremony_ok (set (au_log s)) (set (crs_of s)) q"
    using inv map_of_SomeD [OF q(1)] by (auto simp: auth_inv_def)
  have p: "pa_id p = pa_id q" "basis_of p = basis_of q" "who p = who q" "pa_by p = pa_by q" "pa_verified p = pa_verified q" "pa_user p = pa_user q"
      "pa_session p = pa_session q" "pa_step_up p = None"
    by (simp_all add: q(3) basis_of_def who_def)
  have "ceremony_ok (set (au_log s)) (set (crs_of s)) p"
    using cer unfolding ceremony_ok_def p by auto
  from auth_inv_change [OF inv q(1) p(1) this]
  have "auth_inv C T (AList.update k p (au_pending s)) (au_next s) (au_log s) (crs_of s) (named s) fl" .
  moreover have "Issued (pa_id p) OnSession (pa_by p) ch \<in> set (au_log s)"
    using cer q(2) unfolding ceremony_ok_def by (auto simp: p who_def)
  ultimately have "auth_inv C T (AList.update k p (au_pending s)) (au_next s) (au_log s) (crs_of s) (named s) (FStepUp rq k p ch # fl)"
    unfolding auth_inv_def by (simp add: open_ids_def flight_ok_def)
  then show ?thesis
    using q(4) by (simp add: auth_ok_def auth_views)
qed

lemma ok_step_up_refused: "auth_ok C T (s, fl) \<Longrightarrow> takeStepUp k t s = (None, s') \<Longrightarrow> auth_ok C T (s', fl)"
  using ok_drop by (auto simp: takeStepUp_def Let_def split: option.splits if_splits)

lemma ok_finish_taken:
  assumes "auth_ok C T (s, fl)" "takePending k t s = (Some p, s')"
    "f = FRegister rq p \<and> pa_kind p = KRegister \<or> f = FLogin rq p \<and> pa_kind p = KLogin"
  shows "auth_ok C T (s', f # fl)"
proof -
  have "map_of (au_pending s) k = Some p" "s' = dropPending k s"
    using assms(2) by (auto simp: takePending_def split: option.splits if_splits)
  then show ?thesis
    using auth_inv_take [of C T "au_pending s" "au_next s" "au_log s" "crs_of s" "named s" fl k p f rq] assms(1,3)
    by (simp add: auth_ok_def dropPending_def auth_views)
qed

lemma ok_cleanup: "auth_ok C T (s, fl) \<Longrightarrow> auth_ok C T (cleanupPending t s, fl)"
  using auth_inv_filter by (auto simp: auth_ok_def cleanupPending_def auth_views)

lemma auth_step_ok:
  assumes "asserts_own wa" "auth_step wa hash st st'" "auth_ok C T st"
  shows "auth_ok C T st'"
  using assms(2,3)
proof (cases rule: auth_step.cases)
  case (outcomes s fl fs)
  have "calm s (s\<lparr>au_faults := fs\<rparr>)" by (rule calm_same) simp_all
  then show ?thesis using outcomes assms(3) auth_ok_calm by auto
next
  case (janitor s fl t)
  then show ?thesis using assms(3) ok_cleanup auth_ok_calm [OF _ calm_session_ops(3)] by auto
next
  case (restart s fl)
  then have "auth_ok C T (snd (backfillSessionHashes hash s), fl)"
    using assms(3) auth_ok_calm [OF _ calm_backfill] by auto
  then show ?thesis
    using restart auth_inv_lost by (auto simp: auth_ok_def auth_views)
next
  case (register_taken k rq s p s' fl)
  then show ?thesis using assms(3) ok_finish_taken by auto
next
  case (login_taken k rq s p s' fl)
  then show ?thesis using assms(3) ok_finish_taken by auto
next
  case (step_up_done rq k p ch fl s)
  then show ?thesis using assms(1,3) ok_step_up by auto
next
  case (login_done rq p fl s)
  then show ?thesis using assms(1,3) ok_login_done by auto
next
  case (register_done rq p fl s)
  then show ?thesis using assms(3) ok_register_done by auto
qed (use assms(3) in \<open>auto intro: auth_ok_calm calm_handlers calm_session_ops ok_register_begin ok_login_begin ok_taken ok_step_up_taken ok_step_up_refused\<close>)

lemma auth_reach_ok: "(auth_step wa hash)\<^sup>*\<^sup>* st st' \<Longrightarrow> asserts_own wa \<Longrightarrow> auth_ok C T st \<Longrightarrow> auth_ok C T st'"
  by (induction rule: rtranclp_induct) (auto intro: auth_step_ok)

end
