(* ===== verification/Auth_Props.thy ===== *)
theory Auth_Props
  imports Auth_Inv
begin

text \<open>
  What operator sign-in guarantees, however requests interleave and statements fail: a passkey is added only on the word of
  another passkey of the same account, a session only comes from a verified ceremony, there is one first operator, the
  unfinished ceremonies are bounded, and the move to hashed tokens loses no session.
\<close>

section \<open>Where passkeys and sessions come from\<close>

text \<open>A service that has just started: no ceremony is open, and the ids of the passkeys are unique.\<close>

definition fresh_start :: "auth \<Rightarrow> bool" where
  "fresh_start s \<longleftrightarrow> au_pending s = [] \<and> au_log s = [] \<and> distinct (map cr_id (au_creds s))"

lemma fresh_ok: "fresh_start s \<Longrightarrow> auth_ok (set (crs_of s)) (named s) (s, [])"
  by (simp add: auth_ok_def auth_inv_def fresh_start_def open_ids_def enrolled_ids_def signed_ids_def crs_of_def comp_def)

text \<open>C14: when the library only accepts passkeys of the user it is asked about, every passkey in the table was there at the
  start, or was enrolled by a first-run ceremony for that very user, or by a ceremony its user began and for which another
  passkey of the same user answered the challenge issued for it; and a ceremony enrols at most one passkey.\<close>

theorem passkeys_need_step_up:
  assumes "asserts_own wa" "fresh_start s0" "(auth_step wa hash)\<^sup>*\<^sup>* (s0, []) (s, fl)"
  shows "(\<forall>r \<in> set (au_creds s). (cr_user r, cr_id r) \<in> set (crs_of s0) \<or>
      (\<exists>i. Enrolled i (cr_user r) (cr_id r) \<in> set (au_log s) \<and>
        ((\<exists>ch. Issued i OnFirstRun (cr_user r) ch \<in> set (au_log s)) \<or>
         (\<exists>ch c. Issued i OnSession (cr_user r) ch \<in> set (au_log s) \<and> Asserted i (cr_user r) ch c \<in> set (au_log s) \<and>
            c \<noteq> cr_id r \<and> (cr_user r, c) \<in> set (crs_of s))))) \<and> distinct (enrolled_ids (au_log s))"
proof -
  have inv: "auth_inv (set (crs_of s0)) (named s0) (au_pending s) (au_next s) (au_log s) (crs_of s) (named s) fl"
    using auth_reach_ok [OF assms(3,1) fresh_ok [OF assms(2)]] by (simp add: auth_ok_def)
  have ev: "event_ok (set (au_log s)) (set (crs_of s)) e" if "e \<in> set (au_log s)" for e
    using inv that by (auto simp: auth_inv_def)
  have "(cr_user r, cr_id r) \<in> set (crs_of s0) \<or> (\<exists>i. Enrolled i (cr_user r) (cr_id r) \<in> set (au_log s))" if "r \<in> set (au_creds s)" for r
    using inv that by (auto simp: auth_inv_def crs_of_def)
  moreover have "(\<exists>ch. Issued i OnFirstRun u ch \<in> set (au_log s)) \<or>
      (\<exists>ch c. Issued i OnSession u ch \<in> set (au_log s) \<and> Asserted i u ch c \<in> set (au_log s) \<and> c \<noteq> d \<and> (u, c) \<in> set (crs_of s))"
    if "Enrolled i u d \<in> set (au_log s)" for i u d
    using ev [OF that] ev unfolding event_ok_def by fastforce
  moreover have "distinct (enrolled_ids (au_log s))"
    using inv by (simp add: auth_inv_def)
  ultimately show ?thesis by blast
qed

text \<open>One operator with a passkey and a session, and a library that takes the challenge itself as the answer.\<close>

definition demo_pass :: "string \<Rightarrow> WACred" where
  "demo_pass i = \<lparr>pk_id = i, pk_key = [], pk_attestation = [], pk_transports = [], pk_aaguid = [], pk_sign_count = 0, pk_clone = False,
     pk_eligible = False, pk_backup = False\<rparr>"

definition demo_wa :: webauthn where
  "demo_wa = \<lparr>wa_ids = (\<lambda>r. Some (''p1'', ''u'')),
     wa_assert = (\<lambda>u ch r. case usr_credentials u of [] \<Rightarrow> None | c # cs \<Rightarrow> if r = ch then Some c else None),
     wa_create = (\<lambda>u ch r. if r = ch then Some (demo_pass ''p2'') else None)\<rparr>"

definition demo_hash :: "string \<Rightarrow> string" where
  "demo_hash t = CHR ''h'' # t"

definition demo_auth :: auth where
  "demo_auth = \<lparr>au_users = [\<lparr>usr_id = ''u'', usr_name = ''ann'', usr_display = ''Ann'', usr_created = 0, usr_last_login = None, usr_credentials = []\<rparr>],
     au_creds = [fromWebAuthn (demo_pass ''p1'') ''u''],
     au_sessions = [\<lparr>sn_token = ''t1'', sn_hash = None, sn_user = ''u'', sn_created = 0, sn_expires = 100, sn_active = 0\<rparr>],
     au_pending = [], au_next = 0, au_hooks = [], au_faults = [], au_log = []\<rparr>"

definition demo_req :: "string \<Rightarrow> string \<Rightarrow> string \<Rightarrow> auth_req" where
  "demo_req tok ch resp = \<lparr>rq_session = Some ''t1'', rq_pending = Some ''k'', rq_origins = [], rq_now = 1, rq_token = Some tok,
     rq_chal = Some ch, rq_handle = None, rq_resp = resp\<rparr>"

lemma demo_asserts: "asserts_own demo_wa"
  by (auto simp: asserts_own_def demo_wa_def split: list.splits if_splits)

lemma demo_fresh: "fresh_start demo_auth"
  by (simp add: fresh_start_def demo_auth_def)

definition demo_enrolled :: auth where
  "demo_enrolled = snd (handleRegisterFinish demo_wa demo_hash (demo_req [] [] ''c2'')
     (snd (handleRegisterStepUp demo_wa demo_hash (demo_req [] ''c2'' ''c1'')
       (snd (handleRegisterBegin demo_hash (demo_req ''k'' ''c1'' []) (Some ([], [], [])) demo_auth)))))"

lemma demo_enrolled_reached: "(auth_step demo_wa demo_hash)\<^sup>*\<^sup>* (demo_auth, []) (demo_enrolled, [])"
  unfolding demo_enrolled_def
  by (intro rtranclp_trans [OF _ handlers_are_steps(1)] rtranclp_trans [OF _ handlers_are_steps(3)] r_into_rtranclp auth_step.register)

theorem passkeys_need_step_up_witness:
  "crs_of demo_enrolled = [(''u'', ''p1''), (''u'', ''p2'')] \<and> (\<exists>i. Enrolled i ''u'' ''p2'' \<in> set (au_log demo_enrolled))"
proof -
  have c: "crs_of demo_enrolled = [(''u'', ''p1''), (''u'', ''p2'')]" "(''u'', ''p2'') \<notin> set (crs_of demo_auth)"
    by code_simp+
  then have "(''u'', ''p2'') \<in> set (crs_of demo_enrolled)" by simp
  then obtain r where "r \<in> set (au_creds demo_enrolled)" "cr_user r = ''u''" "cr_id r = ''p2''"
    by (auto simp: crs_of_def)
  then show ?thesis
    using passkeys_need_step_up [OF demo_asserts demo_fresh demo_enrolled_reached] c by metis
qed

text \<open>C15: every session in the table was there at the start, or was made by a login ceremony whose challenge was answered with
  a passkey of the session's user, or by the first-run ceremony that enrolled that user; and a ceremony makes at most one
  session.\<close>

theorem sessions_need_ceremony:
  assumes "asserts_own wa" "fresh_start s0" "(auth_step wa hash)\<^sup>*\<^sup>* (s0, []) (s, fl)"
  shows "(\<forall>q \<in> set (au_sessions s). (sn_token q, sn_user q) \<in> named s0 \<or>
      (\<exists>i c. SignedIn i (sn_user q) c (sn_token q) \<in> set (au_log s) \<and> (sn_user q, c) \<in> set (crs_of s) \<and>
        ((\<exists>ch. Issued i OnLogin [] ch \<in> set (au_log s) \<and> Asserted i (sn_user q) ch c \<in> set (au_log s)) \<or>
         (\<exists>ch. Issued i OnFirstRun (sn_user q) ch \<in> set (au_log s) \<and> Enrolled i (sn_user q) c \<in> set (au_log s))))) \<and>
    distinct (signed_ids (au_log s))"
proof -
  have inv: "auth_inv (set (crs_of s0)) (named s0) (au_pending s) (au_next s) (au_log s) (crs_of s) (named s) fl"
    using auth_reach_ok [OF assms(3,1) fresh_ok [OF assms(2)]] by (simp add: auth_ok_def)
  have ev: "event_ok (set (au_log s)) (set (crs_of s)) e" if "e \<in> set (au_log s)" for e
    using inv that by (auto simp: auth_inv_def)
  have "(sn_token q, sn_user q) \<in> named s0 \<or> (\<exists>i c. SignedIn i (sn_user q) c (sn_token q) \<in> set (au_log s))" if "q \<in> set (au_sessions s)" for q
    using inv that by (auto simp: auth_inv_def named_def)
  moreover have "(u, c) \<in> set (crs_of s) \<and> ((\<exists>ch. Issued i OnLogin [] ch \<in> set (au_log s) \<and> Asserted i u ch c \<in> set (au_log s)) \<or>
      (\<exists>ch. Issued i OnFirstRun u ch \<in> set (au_log s) \<and> Enrolled i u c \<in> set (au_log s)))"
    if "SignedIn i u c tok \<in> set (au_log s)" for i u c tok
  proof -
    have own: "(u, c) \<in> set (crs_of s)" if "Asserted i u ch c \<in> set (au_log s) \<or> Enrolled i u c \<in> set (au_log s)" for ch
      using that ev by (auto simp: event_ok_def dest!: ev)
    show ?thesis
      using ev [OF that] own by (auto simp: event_ok_def)
  qed
  moreover have "distinct (signed_ids (au_log s))"
    using inv by (simp add: auth_inv_def)
  ultimately show ?thesis by blast
qed

definition demo_signed_in :: auth where
  "demo_signed_in = snd (handleLoginFinish demo_wa demo_hash (demo_req ''t2'' [] ''c1'') (snd (handleLoginBegin (demo_req ''k'' ''c1'' []) demo_auth)))"

lemma demo_signed_in_reached: "(auth_step demo_wa demo_hash)\<^sup>*\<^sup>* (demo_auth, []) (demo_signed_in, [])"
  unfolding demo_signed_in_def
  by (intro rtranclp_trans [OF _ handlers_are_steps(2)] r_into_rtranclp auth_step.login)

theorem sessions_need_ceremony_witness:
  "map sn_token (au_sessions demo_signed_in) = [''t1'', ''t2''] \<and> (\<exists>i c. SignedIn i ''u'' c ''t2'' \<in> set (au_log demo_signed_in))"
proof -
  have c: "map sn_token (au_sessions demo_signed_in) = [''t1'', ''t2'']" "(''t2'', ''u'') \<in> named demo_signed_in" "(''t2'', ''u'') \<notin> named demo_auth"
    by code_simp+
  then obtain q where "q \<in> set (au_sessions demo_signed_in)" "sn_user q = ''u''" "sn_token q = ''t2''"
    by (auto simp: named_def)
  then show ?thesis
    using sessions_need_ceremony [OF demo_asserts demo_fresh demo_signed_in_reached] c by metis
qed

section \<open>One operator, bounded ceremonies\<close>

definition ceremonies_bounded :: "auth \<Rightarrow> bool" where
  "ceremonies_bounded s \<longleftrightarrow> int (length (au_pending s)) \<le> maxPending"

text \<open>The users stay, or the first one appears; and the bound is kept.\<close>

definition users_keep :: "auth \<Rightarrow> auth \<Rightarrow> bool" where
  "users_keep s s' \<longleftrightarrow> map usr_id (au_users s') = map usr_id (au_users s) \<or> (au_users s = [] \<and> length (au_users s') = 1)"

definition steady :: "auth \<Rightarrow> auth \<Rightarrow> bool" where
  "steady s s' \<longleftrightarrow> map usr_id (au_users s') = map usr_id (au_users s) \<and> length (au_pending s') \<le> length (au_pending s)"

lemma steady_refl [simp]: "steady s s"
  by (simp add: steady_def)

lemma steady_trans: "steady s s1 \<Longrightarrow> steady s1 s2 \<Longrightarrow> steady s s2"
  by (simp add: steady_def)

lemma calm_steady: "calm s s' \<Longrightarrow> steady s s'"
  by (simp add: calm_def steady_def)

lemma length_delete: "length (AList.delete k ps) \<le> length ps"
  by (simp add: AList.delete_eq)

lemma length_change: "map_of ps k = Some p \<Longrightarrow> length (AList.update k q ps) = length ps"
  by (induction ps) (auto split: if_splits)

lemma length_put: "length (AList.update k q ps) \<le> Suc (length ps)"
  by (induction ps) auto

lemma soonest_some: "ps \<noteq> [] \<Longrightarrow> \<exists>x \<in> set ps. soonest ps = Some x"
proof (induction ps rule: soonest.induct)
  case (2 k p ps)
  then show ?case by (cases ps) (auto split: option.splits if_splits)
qed simp

lemma evict_shorter:
  assumes "ps \<noteq> []"
  shows "length (evictPendingLocked t ps) < length ps"
proof (cases "\<exists>(k, p) \<in> set ps. pa_expires p < t")
  case True
  then have "length (filter (\<lambda>(k, p). \<not> pa_expires p < t) ps) < length ps"
    by (auto intro!: length_filter_less)
  then show ?thesis using True by (simp add: evictPendingLocked_def)
next
  case False
  obtain k p where s: "soonest ps = Some (k, p)" "(k, p) \<in> set ps"
    using soonest_some [OF assms] by force
  have "length (AList.delete k ps) < length ps"
    unfolding AList.delete_eq by (rule length_filter_less [OF s(2)]) simp
  then show ?thesis unfolding evictPendingLocked_def using False s(1) by simp
qed

lemma steady_drop: "steady s (dropPending k s)"
  by (simp add: steady_def dropPending_def length_delete)

lemma steady_take: "takePending k t s = (r, s') \<Longrightarrow> steady s s'"
  using steady_drop by (auto simp: takePending_def split: option.splits)

lemma steady_take_step_up: "takeStepUp k t s = (r, s') \<Longrightarrow> steady s s'"
  using steady_drop by (auto simp: takeStepUp_def steady_def length_change Let_def split: option.splits if_splits)

lemma steady_complete: "completeStepUp k p u c s = (r, s') \<Longrightarrow> steady s s'"
  by (auto simp: completeStepUp_def steady_def length_change split: option.splits if_splits)

lemma steady_note: "steady s (note_event e s)"
  by (simp add: steady_def note_event_def)

lemma steady_fail: "steady s (snd (step_up_fail n k s))"
  by (simp add: step_up_fail_def steady_drop)

lemma steady_verify: "steady s (snd (verifyStepUp wa hash rq k p ch s))"
proof -
  obtain r s1 where rs: "resolveSession hash rq s = (r, s1)" by force
  have 1: "steady s s1" by (rule calm_steady [OF calm_resolve [OF rs]])
  have 2: "steady s (snd (step_up_fail n k s1))" for n by (rule steady_trans [OF 1 steady_fail])
  have up: "steady s s3" if "UpdateCredentialAfterLogin c t (note_event e s1) = (x, s3)" for c t e x s3
    by (rule steady_trans [OF 1 steady_trans [OF steady_note calm_steady [OF calm_update_cred [OF that]]]])
  have 3: "steady s (snd (case UpdateCredentialAfterLogin c t (note_event e s1) of
      (Some e, s3) \<Rightarrow> step_up_fail 500 k s3
    | (None, s3) \<Rightarrow> (case beginCreation by' (pa_choice p) (rq_chal rq) of
        None \<Rightarrow> step_up_fail 500 k s3
      | Some (opts, creation) \<Rightarrow> (case completeStepUp k p by' creation s3 of
          (False, s4) \<Rightarrow> step_up_fail 400 k s4 | (True, s4) \<Rightarrow> (reply_ok opts, s4)))))" for c t e by'
    by (auto split: prod.split option.split bool.split dest!: up steady_complete intro: steady_trans steady_fail)
  show ?thesis
    unfolding verifyStepUp_def rs using 1 2 3 by (auto simp: Let_def split: sum.split option.split)
qed

lemma sign_in_steady: "steady s (snd (sign_in hash rq i c u s))"
proof -
  obtain r s1 where cs: "createSession hash (rq_token rq) (rq_now rq) (usr_id u) s = (r, s1)" by force
  obtain b s0 where f: "au_fault s = (b, s0)" by force
  have 1: "steady s s1"
    using cs calm_steady [OF calm_fault [OF f]]
    by (auto simp: createSession_def CreateSession_def f Let_def steady_def split: option.splits if_splits)
  have "steady s1 (snd (UpdateLastLogin j t (note_event e s1)))" for j t e
    by (rule steady_trans [OF steady_note calm_steady [OF calm_last_login]])
  then have "steady s ((snd (UpdateLastLogin j t (note_event e s1)))\<lparr>au_hooks := h\<rparr>)" for j t e h
    using steady_trans [OF 1, of "snd (UpdateLastLogin j t (note_event e s1))"] by (simp add: steady_def)
  then show ?thesis
    using 1 by (cases r) (simp_all add: sign_in_def cs Let_def)
qed

lemma finish_login_steady: "steady s (snd (finishLogin wa hash rq p s))"
proof -
  define ch where "ch = (case pa_session p of None \<Rightarrow> [] | Some c \<Rightarrow> c)"
  obtain r s1 where ds: "discoverable wa ch (rq_resp rq) s = (r, s1)" by force
  have 1: "steady s s1" by (rule calm_steady [OF calm_discoverable [OF ds]])
  show ?thesis
  proof (cases r)
    case None
    then show ?thesis using 1 by (simp add: finishLogin_def ch_def [symmetric] ds Let_def)
  next
    case (Some vc)
    then obtain v c where r: "r = Some (v, c)" by (cases vc) auto
    define s1' where "s1' = note_event (Asserted (pa_id p) (usr_id v) ch (pk_id c)) s1"
    obtain e s2 where up: "UpdateCredentialAfterLogin c (rq_now rq) s1' = (e, s2)" by force
    obtain r3 s3 where uh: "UserHandleForCredential (pk_id c) s2 = (r3, s3)" by force
    have 2: "steady s s2"
      using steady_trans [OF steady_trans [OF 1 steady_note] calm_steady [OF calm_update_cred [OF up [unfolded s1'_def]]]] .
    have 3: "steady s s3" by (rule steady_trans [OF 2 calm_steady [OF calm_reads(4) [OF uh]]])
    have "steady s (snd (case GetUserByID i s3 of (Inr (Some u), s4) \<Rightarrow> sign_in hash rq (pa_id p) (pk_id c) u s4 | (_, s4) \<Rightarrow> (x, s4)))" for i x
    proof -
      obtain r4 s4 where g: "GetUserByID i s3 = (r4, s4)" by force
      have 4: "steady s s4" by (rule steady_trans [OF 3 calm_steady [OF calm_get_user [OF g]]])
      then show ?thesis
        using steady_trans [OF 4 sign_in_steady] by (simp add: g split: sum.split option.split)
    qed
    then show ?thesis
      using 2 3 by (auto simp: finishLogin_def ch_def [symmetric] ds r s1'_def [symmetric] up uh Let_def split: option.split sum.split)
  qed
qed

lemma register_users: "users_keep s (snd (finishRegistration wa hash rq p s)) \<and> length (au_pending (snd (finishRegistration wa hash rq p s))) \<le> length (au_pending s)"
proof -
  define good where "good x \<longleftrightarrow> users_keep s x \<and> length (au_pending x) \<le> length (au_pending s)" for x
  have st: "good x" if "steady s x" for x
    using that by (simp add: good_def steady_def users_keep_def)
  obtain r s1 where rs: "resolveSession hash rq s = (r, s1)" by force
  have 1: "steady s s1" by (rule calm_steady [OF calm_resolve [OF rs]])
  have add: "good (snd (create_passkey wa hash rq p x))" if x: "steady s x" for x
  proof (cases "\<exists>u ch c. pa_user p = Some u \<and> pa_session p = Some ch \<and> wa_create wa u ch (rq_resp rq) = Some c")
    case False
    then show ?thesis using st [OF x] by (auto simp: create_passkey_def split: option.split)
  next
    case True
    then obtain u ch c where u: "pa_user p = Some u" "pa_session p = Some ch" "wa_create wa u ch (rq_resp rq) = Some c" by blast
    define row where "row = (fromWebAuthn c (usr_id u))\<lparr>cr_created := rq_now rq\<rparr>"
    obtain e y where cc: "CreateCredential row x = (e, y)" by force
    obtain e2 z where cf: "CreateFirstUser u row x = (e2, z)" by force
    have y: "steady x y"
      using cc by (cases e) (auto simp: steady_def dest: calm_steady [OF calm_create_failed(1), unfolded steady_def] credential_added(1,5))
    have "steady s y" "steady s (note_event v y)" for v
      using steady_trans [OF x y] steady_trans [OF _ steady_note] by blast+
    note yy = this [THEN st]
    have zf: "good z" if "e2 = Some d" for d
      using st steady_trans [OF x calm_steady [OF calm_create_failed(2) [OF cf [unfolded that]]]] by blast
    have zg: "good (snd (sign_in hash rq i j u (note_event v z)))" if "e2 = None" for i j v
    proof -
      note t = first_user_added [OF cf [unfolded that]]
      have "au_users s = []" using x t(5) by (simp add: steady_def)
      moreover have "steady z (snd (sign_in hash rq i j u (note_event v z)))"
        by (rule steady_trans [OF steady_note sign_in_steady])
      ultimately show ?thesis
        using t(1,6) x by (auto simp: good_def users_keep_def steady_def dest: arg_cong [where f = length])
    qed
    show ?thesis
      using yy zf zg by (auto simp: create_passkey_def u row_def [symmetric] cc cf Let_def split: option.split auth_error.split)
  qed
  have "good (snd (finishRegistration wa hash rq p s))"
    using add [OF steady_refl] add [OF 1] st [OF 1] st [OF steady_refl] by (auto simp: finishRegistration_def rs split: sum.split option.split)
  then show ?thesis by (simp add: good_def)
qed

lemma open_bounded:
  assumes "ceremonies_bounded s"
  shows "ceremonies_bounded (snd (open_ceremony w ch rq p s))"
proof -
  let ?ps = "if int (length (au_pending s)) \<ge> maxPending then evictPendingLocked (rq_now rq) (au_pending s) else au_pending s"
  have "int (length ?ps) < maxPending"
  proof (cases "int (length (au_pending s)) \<ge> maxPending")
    case True
    then have ne: "au_pending s \<noteq> []" by (auto simp: maxPending_def)
    have "length (evictPendingLocked (rq_now rq) (au_pending s)) < length (au_pending s)"
      by (rule evict_shorter [OF ne])
    then show ?thesis using True assms by (simp add: ceremonies_bounded_def)
  qed simp
  then have "int (length (AList.update k q ?ps)) \<le> maxPending" for k q
    using length_put [of k q ?ps] by linarith
  then show "ceremonies_bounded (snd (open_ceremony w ch rq p s))"
    using assms by (auto simp: ceremonies_bounded_def open_ceremony_def storePending_def note_event_def Let_def split: option.split)
qed

lemma open_users: "map usr_id (au_users (snd (open_ceremony w ch rq p s))) = map usr_id (au_users s)"
  by (simp add: open_ceremony_def storePending_def note_event_def Let_def split: option.split)

text \<open>What a step may do.\<close>

definition kept :: "auth \<Rightarrow> auth \<Rightarrow> bool" where
  "kept s s' \<longleftrightarrow> users_keep s s' \<and> (ceremonies_bounded s \<longrightarrow> ceremonies_bounded s')"

lemma kept_steady: "steady s s' \<Longrightarrow> kept s s'"
  by (simp add: kept_def steady_def users_keep_def ceremonies_bounded_def)

lemma kept_open: "steady s s1 \<Longrightarrow> kept s (snd (open_ceremony w ch rq p s1))"
  using open_bounded [of s1 w ch rq p] open_users
  by (auto simp: kept_def steady_def users_keep_def ceremonies_bounded_def)

lemma kept_begin:
  "kept s (snd (handleLoginBegin rq s))" "kept s (snd (handleRegisterBegin hash rq body s))"
proof -
  have two: "kept s (snd (case open_ceremony w ch rq p s1 of (None, s2) \<Rightarrow> (x, s2) | (Some k, s2) \<Rightarrow> (y k, s2)))"
    if "steady s s1" for w ch p s1 x and y :: "string \<Rightarrow> auth_reply"
    using kept_open [OF that, of w ch rq p] by (auto split: prod.split option.split)
  show "kept s (snd (handleLoginBegin rq s))"
    using two [OF steady_refl] kept_steady [OF steady_refl] by (auto simp: handleLoginBegin_def split: option.split)
  have first: "kept s (snd (beginFirstRunRegistration rq name display choice s1))" if "steady s s1" for name display choice s1
    using two [OF that] kept_steady [OF that] by (auto simp: beginFirstRunRegistration_def split: option.split)
  obtain r1 s1 where fr: "FirstRun s = (r1, s1)" by force
  obtain r2 s2 where rs: "resolveSession hash rq s1 = (r2, s2)" by force
  have 1: "steady s s1" by (rule calm_steady [OF calm_reads(1) [OF fr]])
  have 2: "steady s s2" by (rule steady_trans [OF 1 calm_steady [OF calm_resolve [OF rs]]])
  show "kept s (snd (handleRegisterBegin hash rq body s))"
    using kept_steady [OF steady_refl] kept_steady [OF 1] kept_steady [OF 2] first [OF 1] two [OF 2]
    by (auto simp: handleRegisterBegin_def fr rs split: option.split sum.split bool.split)
qed

lemma step_kept: "auth_step wa hash st st' \<Longrightarrow> kept (fst st) (fst st')"
proof (induction rule: auth_step.induct)
  case (outcomes s fl fs)
  have "steady s (s\<lparr>au_faults := fs\<rparr>)" by (simp add: steady_def)
  then show ?case using kept_steady by simp
next
  case (janitor s fl t)
  have "steady s (cleanupPending t s)" by (simp add: steady_def cleanupPending_def)
  then have "steady s (snd (DeleteExpiredSessions t (cleanupPending t s)))"
    by (rule steady_trans [OF _ calm_steady [OF calm_session_ops(3)]])
  then show ?case using kept_steady by simp
next
  case (restart s fl)
  have "steady s ((snd (backfillSessionHashes hash s))\<lparr>au_pending := []\<rparr>)"
    using calm_steady [OF calm_backfill [of s hash]] by (simp add: steady_def)
  then show ?case using kept_steady by simp
next
  case (register_done rq p fl s)
  then show ?case
    using register_users [of s wa hash rq p] by (auto simp: kept_def ceremonies_bounded_def)
qed (auto intro: kept_begin kept_steady calm_steady calm_handlers calm_session_ops steady_take steady_take_step_up steady_verify finish_login_steady)

text \<open>C19: however requests interleave and statements fail, an installation that has operators keeps exactly those, and one that
  has none gets at most one; and the unfinished ceremonies never exceed their cap.\<close>

theorem one_first_operator:
  assumes "(auth_step wa hash)\<^sup>*\<^sup>* (s0, fl0) (s, fl)" "ceremonies_bounded s0"
  shows "(map usr_id (au_users s) = map usr_id (au_users s0) \<or> (au_users s0 = [] \<and> length (au_users s) = 1)) \<and> ceremonies_bounded s"
proof -
  have "(auth_step wa hash)\<^sup>*\<^sup>* st st' \<Longrightarrow> users_keep (fst st) (fst st') \<and> (ceremonies_bounded (fst st) \<longrightarrow> ceremonies_bounded (fst st'))" for st st'
  proof (induction rule: rtranclp_induct)
    case base
    then show ?case by (simp add: users_keep_def)
  next
    case (step st1 st2)
    have k: "kept (fst st1) (fst st2)" by (rule step_kept [OF step.hyps(2)])
    have "users_keep a c" if "users_keep a b" "users_keep b c" for a b c
      using that unfolding users_keep_def by (metis length_map map_is_Nil_conv length_0_conv)
    then show ?case
      using step.IH k unfolding kept_def by blast
  qed
  from this [OF assms(1)] show ?thesis
    using assms(2) by (simp add: users_keep_def)
qed

theorem one_first_operator_witness: "map usr_id (au_users demo_enrolled) = [''u''] \<and> ceremonies_bounded demo_enrolled"
  using one_first_operator [OF demo_enrolled_reached] by (simp add: demo_auth_def ceremonies_bounded_def maxPending_def)

section \<open>Session lookups\<close>

text \<open>A hash in a row is that of its token, and tokens are there and unique, as the primary key has them.\<close>

definition rows_right :: "(string \<Rightarrow> string) \<Rightarrow> Session list \<Rightarrow> bool" where
  "rows_right hash qs \<longleftrightarrow> distinct (map sn_token qs) \<and> (\<forall>q \<in> set qs. sn_token q \<noteq> [] \<and> (sn_hash q = None \<or> sn_hash q = Some (hash (sn_token q))))"

lemma au_fault_calm: "au_faults s = [] \<Longrightarrow> au_fault s = (False, s)"
  by (simp add: au_fault_def)

lemma lookup_by_token:
  assumes "inj hash" "rows_right hash (au_sessions s)" "au_faults s = []"
  shows "GetSession hash tok s = (Inr (if tok = [] then None else sql_first (\<lambda>q. sn_token q = tok) (au_sessions s)), s)"
proof (cases "sql_first (\<lambda>q. sn_hash q = Some (hash tok)) (au_sessions s)")
  case None
  have "map_option (\<lambda>q. q\<lparr>sn_token := tok\<rparr>) (sql_first (\<lambda>q. sn_token q = tok) (au_sessions s)) = sql_first (\<lambda>q. sn_token q = tok) (au_sessions s)"
    by (cases "sql_first (\<lambda>q. sn_token q = tok) (au_sessions s)") (auto dest!: sql_first_Some)
  then show ?thesis
    using assms(3) None by (simp add: GetSession_def getSession_def au_fault_calm)
next
  case (Some q)
  have q: "q \<in> set (au_sessions s)" "sn_hash q = Some (hash tok)" using sql_first_Some [OF Some] by auto
  then have "hash (sn_token q) = hash tok"
    using assms(2) unfolding rows_right_def by force
  then have t: "sn_token q = tok" using assms(1) by (simp add: inj_eq)
  have "sql_first (\<lambda>r. sn_token r = tok) (au_sessions s) = Some q"
    using first_by_key [of sn_token "au_sessions s" q] assms(2) q(1) t by (simp add: rows_right_def)
  then show ?thesis
    using assms(3) Some t by (auto simp: GetSession_def getSession_def au_fault_calm)
qed

definition with_hash :: "(string \<Rightarrow> string) \<Rightarrow> Session \<Rightarrow> Session" where
  "with_hash hash q = q\<lparr>sn_hash := Some (hash (sn_token q))\<rparr>"

lemma backfill_one_map:
  assumes "inj hash" "rows_right hash qs"
  shows "backfill_one hash tok qs = map (\<lambda>q. if sn_token q = tok then with_hash hash q else q) qs"
proof (cases "\<exists>q \<in> set qs. sn_hash q = Some (hash tok)")
  case True
  then obtain q where q: "q \<in> set qs" "sn_hash q = Some (hash tok)" by blast
  then have "hash (sn_token q) = hash tok" using assms(2) unfolding rows_right_def by force
  then have t: "sn_token q = tok" using assms(1) by (simp add: inj_eq)
  have "(if sn_token r = tok then with_hash hash r else r) = r" if "r \<in> set qs" for r
  proof (cases "sn_token r = tok")
    case same: True
    then have "r = q" using assms(2) that q(1) t by (auto simp: rows_right_def distinct_map inj_on_def)
    then show ?thesis using q(2) t by (simp add: with_hash_def)
  qed simp
  then show ?thesis
    using True by (simp add: backfill_one_def map_idI)
next
  case False
  have "(if sn_token r = tok \<and> sn_hash r = None then r\<lparr>sn_hash := Some (hash tok)\<rparr> else r) = (if sn_token r = tok then with_hash hash r else r)"
    if "r \<in> set qs" for r
    using that False assms(2) by (auto simp: rows_right_def with_hash_def)
  then show ?thesis
    using False by (simp add: backfill_one_def sql_update_def)
qed

lemma rows_right_with_hash: "rows_right hash qs \<Longrightarrow> rows_right hash (map (\<lambda>q. if P q then with_hash hash q else q) qs)"
proof -
  have t: "map sn_token (map (\<lambda>q. if P q then with_hash hash q else q) qs) = map sn_token qs"
    by (simp add: with_hash_def)
  show "rows_right hash qs \<Longrightarrow> ?thesis"
    unfolding rows_right_def t by (auto simp: with_hash_def)
qed

lemma backfill_map:
  assumes "inj hash" "rows_right hash qs"
  shows "fold (backfill_one hash) toks qs = map (\<lambda>q. if sn_token q \<in> set toks then with_hash hash q else q) qs"
  using assms(2)
proof (induction toks arbitrary: qs)
  case (Cons tok toks)
  have "fold (backfill_one hash) (tok # toks) qs
      = map (\<lambda>q. if sn_token q \<in> set toks then with_hash hash q else q) (map (\<lambda>q. if sn_token q = tok then with_hash hash q else q) qs)"
    using Cons.IH [OF rows_right_with_hash [OF Cons.prems]] by (simp add: backfill_one_map [OF assms(1) Cons.prems])
  also have "\<dots> = map (\<lambda>q. if sn_token q \<in> set (tok # toks) then with_hash hash q else q) qs"
    by (auto simp: with_hash_def)
  finally show ?case .
qed simp

lemma backfilled:
  assumes "inj hash" "rows_right hash (au_sessions s)" "au_faults s = []"
  shows "backfillSessionHashes hash s = (None, s\<lparr>au_sessions := map (with_hash hash) (au_sessions s)\<rparr>)"
proof -
  let ?qs = "au_sessions s"
  let ?toks = "map sn_token (sql_select (\<lambda>q. sn_hash q = None \<and> sn_token q \<noteq> []) ?qs)"
  have "(if sn_token q \<in> set ?toks then with_hash hash q else q) = with_hash hash q" if "q \<in> set ?qs" for q
  proof (cases "sn_hash q = None")
    case True
    then have "sn_token q \<in> set ?toks"
      using that assms(2) by (auto simp: rows_right_def sql_select_def)
    then show ?thesis by simp
  next
    case False
    then show ?thesis
      using that assms(2) by (auto simp: rows_right_def with_hash_def)
  qed
  then have "map (\<lambda>q. if sn_token q \<in> set ?toks then with_hash hash q else q) ?qs = map (with_hash hash) ?qs"
    by (rule map_cong [OF refl])
  then show ?thesis
    using backfill_map [OF assms(1,2), of ?toks] assms(3) by (simp add: backfillSessionHashes_def au_fault_calm)
qed



end
