(* ===== verification/Spec2Isabelle.thy ===== *)
theory Spec2Isabelle
  imports Job_Props Inventory_Props Bus_Auth_Props Releases_Props Fleet_Props
    Node_Update_Props Node_Update_Records Fleet_Resume_Props Slot_Props Firewall_Service_Props Auth_Props
begin

text \<open>
  Rasputin is a control plane for a small cluster: one api process with SQLite databases, and an agent on every node that
  answers commands over a message bus.  This development models the Go code that decides: the job executor, the membership
  of nodes, who may use the bus, how releases are chosen, how the fleet and each node are updated, how the firewall node
  switches its boot slots, what the firewall is configured to do, and who may sign in.  Paths are relative to the repository's source tree.

  \<^bold>\<open>How the parts interact.\<close>  A request or a timer submits a job; the executor runs its workflow step by step on the job
  ledger and recovers it after a restart.  Steps talk to agents on the bus, to which a node is admitted by its token; the
  node registry is the memory of who is a member, and the token store pushes liveness into it.  A release check compares
  the installed versions with signed manifests.  A fleet update plans over the inventory, submits one child job per node
  and gates on canaries; each child installs, restarts, proves the restart and commits or marks the slot bad, and the update
  of the control plane itself ends after its own restart, through recovery.  On the firewall node the agent writes the
  other slot and edits the boot counter.  Firewall intents are compiled to one desired state, pushed by a job and
  compared with what the agent reports.

  \<^bold>\<open>Theories and sources.\<close>

  \<^item> \<^verbatim>\<open>Prelude\<close>, \<^verbatim>\<open>Go_Num\<close>, \<^verbatim>\<open>Go_Json\<close>, \<^verbatim>\<open>Go_Net\<close>: tables as lists of rows with the statements the stores use, Go strings,
    64-bit integers with wrap-around and truncated division, \<^verbatim>\<open>strconv\<close>, the decoding of JSON documents into structures
    (keys without regard to case, the last value wins, wrong types fail) and addresses as \<^verbatim>\<open>net\<close> and \<^verbatim>\<open>netip\<close> read them.
  \<^item> \<^verbatim>\<open>Job_Store\<close>, \<^verbatim>\<open>Job_Runner\<close> (\<^verbatim>\<open>api/internal/jobs\<close>): the ledger, and the executor with retries, irreversible steps,
    recovery and deferral.  \<^verbatim>\<open>Job_Saga\<close> states the abstract saga and the contract of the ledger (locale
    \<^verbatim>\<open>job_status_store\<close>); \<^verbatim>\<open>Job_Rows\<close>, \<^verbatim>\<open>Job_Recovery\<close> hold the lemmas and \<^verbatim>\<open>Job_Props\<close> the properties: an irreversible
    step is invoked at most once over any later executions, a run refines the saga, a run ends its job, recovery settles
    what was interrupted.
  \<^item> \<^verbatim>\<open>Node_Registry\<close>, \<^verbatim>\<open>Inventory\<close> (\<^verbatim>\<open>api/internal/inventory\<close>, \<^verbatim>\<open>proto/{inventory,nodekeys,buspin}.go\<close>): registry, nodes
    table, key table, registration, heartbeats, presence.  \<^verbatim>\<open>Inventory_Inv\<close> has the step relation and its invariant,
    \<^verbatim>\<open>Inventory_Props\<close> that registry and tables agree in every reachable state.
  \<^item> \<^verbatim>\<open>Bus_Auth\<close> (\<^verbatim>\<open>api/internal/busauth\<close>): tokens, sessions, eviction, contested sessions, tombstones and the auth callout.
    \<^verbatim>\<open>Bus_Auth_Inv\<close> states the registry's contract (locale \<^verbatim>\<open>node_registry\<close>), \<^verbatim>\<open>Bus_Auth_Steps\<close> the invariant over a step
    relation with races, \<^verbatim>\<open>Bus_Auth_Props\<close> that only live tokens are admitted, a revoke closes every session of its
    token, a token holds one session and a restore cannot bring a revoked token back.
  \<^item> \<^verbatim>\<open>Releases\<close> (\<^verbatim>\<open>api/internal/releases\<close>): version schemes and their order, the update check, signed manifests and the
    security floor; properties in \<^verbatim>\<open>Releases_Props\<close>.
  \<^item> \<^verbatim>\<open>Update_Knobs\<close>, \<^verbatim>\<open>Update_Store\<close>, \<^verbatim>\<open>Fleet_Plan\<close>, \<^verbatim>\<open>Fleet_Cascade\<close> (\<^verbatim>\<open>api/internal/updater/{store,system_jobs}.go\<close>,
    \<^verbatim>\<open>proto/{updates,intorstring}.go\<close>): the plan and the cascade.  \<^verbatim>\<open>Fleet_Plan_Inv\<close>, \<^verbatim>\<open>Fleet_Cascade_Inv\<close> (locale
    \<^verbatim>\<open>bounded_pool\<close> for the pool of goroutines) and \<^verbatim>\<open>Fleet_Tiers\<close> carry \<^verbatim>\<open>Fleet_Plan_Props\<close> and \<^verbatim>\<open>Fleet_Props\<close>: every node
    is accounted for, nothing passes a failed canary, the nodes in flight and the failures stay within the knobs, the
    parent's verdict is that of the grid.
  \<^item> \<^verbatim>\<open>Boot_Verify\<close> (\<^verbatim>\<open>api/internal/bootverify\<close>) and \<^verbatim>\<open>Node_Update\<close> (\<^verbatim>\<open>api/internal/updater/{jobs,verify,selfupdate,
    fallback,storecheck}.go\<close>): the proof of a restart and the update of one node.  \<^verbatim>\<open>Node_Update_Verify\<close> and
    \<^verbatim>\<open>Node_Update_Rows\<close> carry \<^verbatim>\<open>Node_Update_Props\<close> and \<^verbatim>\<open>Node_Update_Records\<close>: success means a proved restart on the
    wanted slot and version, the row ends with the job, the inventory keeps only reported versions, a fallback is recorded
    once.
  \<^item> \<^verbatim>\<open>Fleet_Resume\<close> (\<^verbatim>\<open>selfupdate.go\<close>, \<^verbatim>\<open>selfupdate_system.go\<close>): the control plane as the last target of its own run;
    \<^verbatim>\<open>Fleet_Resume_Props\<close> shows that what recovery defers is resumed and what verdict it gets.
  \<^item> \<^verbatim>\<open>Bundle_Path\<close>, \<^verbatim>\<open>Slot_Env\<close>, \<^verbatim>\<open>Slot_Update\<close>, \<^verbatim>\<open>Slot_Repair\<close> (\<^verbatim>\<open>agent/internal/updater\<close>): where an artifact may be kept, the
    boot counter, the A/B install and the repair of the boot files on a disk that can fail or lose power at any write.
    \<^verbatim>\<open>Slot_Disk\<close> and \<^verbatim>\<open>Slot_Sound\<close> carry \<^verbatim>\<open>Slot_Props\<close>: a bootable slot holds a whole image, the counter reads back, the
    boot files are replaced whole or not at all.
  \<^item> \<^verbatim>\<open>Firewall_Compile\<close>, \<^verbatim>\<open>Firewall_Store\<close>, \<^verbatim>\<open>Firewall_Service\<close> (\<^verbatim>\<open>api/internal/firewall\<close>,
    \<^verbatim>\<open>api/internal/api/firewall_handlers.go\<close>, \<^verbatim>\<open>api/internal/credmac\<close>): intents, their checks and compilation, the store
    with write-only secrets, the seeding, the handlers, the fingerprint, the drift rule and the workflows.
    \<^verbatim>\<open>Firewall_Props\<close> types every compiled state and shows that accepted intents compile; \<^verbatim>\<open>Firewall_Store_Props\<close> lifts an
    invariant of the store's statements (locale \<^verbatim>\<open>store_invariant\<close>, interpreted three times) to any run of requests;
    \<^verbatim>\<open>Firewall_Service_Props\<close> relates a push and the reconcile after it.

  \<^item> \<^verbatim>\<open>Auth\<close> (\<^verbatim>\<open>api/internal/auth\<close>): operators, passkeys, sessions and the WebAuthn ceremonies in memory.  \<^verbatim>\<open>Auth_Inv\<close> has the
    step relation, in which a request that took its ceremony is in flight while others come in between, and the invariant
    that ties passkeys and sessions to a history; \<^verbatim>\<open>Auth_Props\<close> shows that a passkey needs another passkey's word, a session a
    verified ceremony, that there is one first operator, and that the hashing of tokens loses no session.

  \<^bold>\<open>State and effects.\<close>  A database is a record of tables with a list of outcomes: each statement takes the next outcome,
  and one that fails leaves the tables as they are; an empty list means that nothing fails.  A property that says nothing of
  the list holds under every failure.  The answers of agents, hosts and probes are lists in the world of the step, read in
  order, and an exhausted list is an error of the request.  Commands sent and events published are kept as history.
  Interleavings are explicit: a schedule chooses which goroutine of the pool moves next, a race is a list of admissions
  between two statements, and a loss of power is a budget of writes after which nothing reaches the disk.  The executor's
  step bodies are functions on an arbitrary world, so that each workflow instantiates the same executor.

  \<^bold>\<open>Bounds.\<close>  No loop of the model is cut short.  Loops over lists are structural; the wait for a new boot recurses on the
  list of polls and is shown to end at its deadline; the pool recurses on its schedule and the properties hold for every
  schedule; attempts are bounded by the declared retries as in the code.  Groups of an IPv6 address are read at most eight
  times, which is all the address has.  Integers of Go are integers with the wrap to 64 bits written out where the code
  computes, and times are integers of milliseconds, as the ledgers store them.

  \<^bold>\<open>Parameters.\<close>  Hashes and keyed hashes, the signature verifier, the random source, the WebAuthn library, the release host, the bodies of job
  steps, the encoding of specs and step results, the signature check of an artifact and the driver of child jobs are
  arguments of the definitions.  Where a property needs something of one of them it is a hypothesis with a witness.

  \<^bold>\<open>Not modelled.\<close>  Backups and restores, app workloads, the observability stack, the secret store process, the mesh, board
  management and the agent's container and storage handlers run external programs, whose behaviour is not in the
  repository; of them only the answers appear, as inputs.  Alerts, the allowlist of browser origins, certificates, the web interface and
  the wiring in \<^verbatim>\<open>main.go\<close> hold little of the decisions modelled here.  Log lines, texts of errors beyond the values they
  are printed from, timers, and the clearing of secrets in memory are left out of what is modelled.
\<close>

end
